(* ===== verification/Prelude.thy ===== *)
theory Prelude
  imports Main "HOL-Library.Word"
begin

text \<open>
  Shared vocabulary of the LanLink development: bytes, the exceptions of the C++ code as
  values of a sum type, big-endian integers (the \<open>append_integer\<close> and \<open>read_integer\<close>
  loops that every protocol file repeats), sequential readers over a byte span, and the
  interface \<open>wire_codec\<close> that every message format of the protocol implements.
\<close>

unbundle bit_operations_syntax

named_theorems parse_intros \<open>what a reader returns on the bytes a writer produced\<close>
named_theorems parse_dests \<open>the bytes a reader must have seen when it returned a value\<close>
named_theorems wire_iff \<open>a reader returns a value exactly when the bytes begin with its encoding\<close>

section \<open>Bytes, exceptions, results\<close>

type_synonym byte = "8 word"
type_synonym bytes = "byte list"

text \<open>The standard exceptions the sources throw, with their messages.\<close>

datatype exn =
    Invalid_argument string
  | Runtime_error string
  | Length_error string
  | Overflow_error string
  | Logic_error string

type_synonym 'a res = "exn + 'a"

definition res_bind :: "'a res \<Rightarrow> ('a \<Rightarrow> 'b res) \<Rightarrow> 'b res" where
  "res_bind m f = (case m of Inl e \<Rightarrow> Inl e | Inr x \<Rightarrow> f x)"

definition require :: "exn \<Rightarrow> bool \<Rightarrow> unit res" where
  "require e ok = (if ok then Inr () else Inl e)"

definition str :: "string \<Rightarrow> bytes" where
  "str s = map (\<lambda>c. word_of_nat (of_char c)) s"

definition is_zero :: "bytes \<Rightarrow> bool" where
  "is_zero value \<longleftrightarrow> list_all (\<lambda>b. b = 0) value"

lemma res_bind_simps [simp]:
  "res_bind (Inl e) f = Inl e"
  "res_bind (Inr x) f = f x"
  by (simp_all add: res_bind_def)

lemma res_bind_Inr_iff: "res_bind m f = Inr y \<longleftrightarrow> (\<exists>x. m = Inr x \<and> f x = Inr y)"
  by (cases m) simp_all

lemma require_Inr_iff [simp]: "require e ok = Inr u \<longleftrightarrow> ok"
  by (simp add: require_def)

lemma res_bind_require [simp]: "res_bind (require e ok) f = (if ok then f () else Inl e)"
  by (simp add: require_def)

lemma is_zero_iff_replicate: "is_zero value \<longleftrightarrow> value = replicate (length value) 0"
  by (induction "value") (auto simp: is_zero_def)

section \<open>Big-endian integers\<close>

text \<open>
  \<open>append_integer\<close>: for \<open>index\<close> from \<open>sizeof(Integer)\<close> down to 1, push the byte
  \<open>(value >> ((index - 1) * 8)) & 0xff\<close>. The loop counts down, so the recursion is on
  \<open>index\<close>.
\<close>

fun be_bytes :: "nat \<Rightarrow> 'a::len word \<Rightarrow> bytes" where
  "be_bytes 0 value = []"
| "be_bytes (Suc index) value = ucast (drop_bit (index * 8) value AND 255) # be_bytes index value"

text \<open>\<open>read_integer\<close>: \<open>result = (result << 8) | byte\<close> over the bytes.\<close>

definition be_value :: "bytes \<Rightarrow> 'a::len word" where
  "be_value bs = foldl (\<lambda>result b. push_bit 8 result OR ucast b) 0 bs"

definition put :: "'a::len word \<Rightarrow> bytes" where
  "put value = be_bytes (LENGTH('a) div 8) value"

lemma length_be_bytes [simp]: "length (be_bytes n w) = n"
  by (induction n) simp_all

lemma be_bytes_nth:
  "i < n \<Longrightarrow> be_bytes n w ! i = ucast (drop_bit ((n - Suc i) * 8) w AND 255)"
  by (induction n arbitrary: i) (auto simp: nth_Cons split: nat.splits)

lemma bit_low_byte:
  "bit (ucast ((w :: 'a::len word) AND 255) :: byte) i \<longleftrightarrow> i < 8 \<and> bit w i"
proof -
  have "bit (255 :: 'a word) i \<longleftrightarrow> i < LENGTH('a) \<and> i < 8"
  proof -
    have m: "(255 :: 'a word) = mask 8" by (simp add: mask_eq_exp_minus_1)
    show ?thesis unfolding m by (auto simp only: bit_mask_iff min_less_iff_conj possible_bit_word)
  qed
  then show ?thesis
    by (auto simp: bit_ucast_iff bit_and_iff dest: bit_imp_le_length)
qed

lemma bit_be_bytes_nth:
  "i < n \<Longrightarrow> bit (be_bytes n w ! i) j \<longleftrightarrow> j < 8 \<and> bit w ((n - Suc i) * 8 + j)"
  by (simp add: be_bytes_nth bit_low_byte bit_drop_bit_eq add.commute)

lemma be_value_snoc [simp]:
  "be_value (bs @ [b]) = push_bit 8 (be_value bs) OR ucast b"
  by (simp add: be_value_def)

lemma be_value_Nil [simp]: "be_value [] = 0"
  by (simp add: be_value_def)

lemma bit_be_value:
  "bit (be_value bs :: 'a::len word) i \<longleftrightarrow>
     i < LENGTH('a) \<and> i div 8 < length bs \<and> bit (bs ! (length bs - Suc (i div 8))) (i mod 8)"
proof (induction bs arbitrary: i rule: rev_induct)
  case Nil
  then show ?case by simp
next
  case (snoc b bs)
  show ?case
  proof (cases "i < 8")
    case True
    then show ?thesis
      by (auto simp: bit_or_iff bit_push_bit_iff bit_ucast_iff nth_append)
  next
    case False
    then have eq: "(i - 8) div 8 = i div 8 - 1" "(i - 8) mod 8 = i mod 8" "1 \<le> i div 8"
      by (auto simp: le_mod_geq div_greater_zero_iff)
    have "\<not> bit b i" using False by (auto dest: bit_imp_le_length)
    then have "bit (be_value (bs @ [b]) :: 'a word) i \<longleftrightarrow>
        i < LENGTH('a) \<and> bit (be_value bs :: 'a word) (i - 8)"
      using False by (auto simp: bit_or_iff bit_push_bit_iff bit_ucast_iff)
    also have "\<dots> \<longleftrightarrow> i < LENGTH('a) \<and> i div 8 - 1 < length bs \<and>
        bit (bs ! (length bs - Suc (i div 8 - 1))) (i mod 8)"
      unfolding snoc.IH eq(1,2) by auto
    also have "\<dots> \<longleftrightarrow> i < LENGTH('a) \<and> i div 8 < length (bs @ [b]) \<and>
        bit ((bs @ [b]) ! (length (bs @ [b]) - Suc (i div 8))) (i mod 8)"
      using eq(3) by (auto simp: nth_append Suc_diff_Suc)
    finally show ?thesis .
  qed
qed

lemma be_value_be_bytes:
  assumes "LENGTH('a::len) \<le> n * 8"
  shows "be_value (be_bytes n (w :: 'a word)) = w"
proof (rule bit_word_eqI)
  fix i assume i: "i < LENGTH('a)"
  with assms have d: "i div 8 < n" by (auto simp: div_less_iff_less_mult)
  then have "n - Suc (n - Suc (i div 8)) = i div 8" by simp
  then have "(n - Suc (n - Suc (i div 8))) * 8 + i mod 8 = i" by simp
  with i d show "bit (be_value (be_bytes n w) :: 'a word) i = bit w i"
    by (simp add: bit_be_value bit_be_bytes_nth)
qed

lemma be_bytes_be_value:
  assumes "length bs * 8 \<le> LENGTH('a::len)"
  shows "be_bytes (length bs) (be_value bs :: 'a word) = bs"
proof (rule nth_equalityI)
  show "length (be_bytes (length bs) (be_value bs :: 'a word)) = length bs" by simp
next
  fix i assume "i < length (be_bytes (length bs) (be_value bs :: 'a word))"
  then have i: "i < length bs" by simp
  show "be_bytes (length bs) (be_value bs :: 'a word) ! i = bs ! i"
  proof (rule bit_word_eqI)
    fix j assume "j < LENGTH(8)"
    then have j: "j < 8" by simp
    have "((length bs - Suc i) * 8 + j) div 8 = length bs - Suc i"
      and "((length bs - Suc i) * 8 + j) mod 8 = j" using j by simp_all
    moreover have "(length bs - Suc i) * 8 + j < LENGTH('a)"
      using assms i j by (simp add: diff_mult_distrib)
    moreover have "length bs - Suc (length bs - Suc i) = i" "length bs - Suc i < length bs"
      using i by simp_all
    ultimately show "bit (be_bytes (length bs) (be_value bs :: 'a word) ! i) j = bit (bs ! i) j"
      using i j by (simp add: bit_be_bytes_nth bit_be_value)
  qed
qed

lemma length_put [simp]: "length (put (w :: 'a::len word)) = LENGTH('a) div 8"
  by (simp add: put_def)

lemma be_value_put: "8 dvd LENGTH('a::len) \<Longrightarrow> be_value (put (w :: 'a word)) = w"
  unfolding put_def by (rule be_value_be_bytes) simp

lemma put_be_value:
  "length bs = LENGTH('a::len) div 8 \<Longrightarrow> put (be_value bs :: 'a word) = bs"
  using be_bytes_be_value [where 'a = 'a, of bs] by (simp add: put_def)

text \<open>The bytes of an integer of each width the protocol uses, for concrete messages.\<close>

lemma put_byte [simp]: "put (w :: byte) = [w]"
proof -
  have n: "LENGTH(8) div 8 = Suc 0" by simp
  have "w AND 255 = w" using bit_low_byte [of w] by (intro bit_word_eqI) simp
  then show ?thesis unfolding put_def n be_bytes.simps by simp
qed

lemma put_eval:
  "put (a :: 16 word) = [ucast (drop_bit 8 a AND 255), ucast (a AND 255)]"
  "put (b :: 32 word) = [ucast (drop_bit 24 b AND 255), ucast (drop_bit 16 b AND 255),
     ucast (drop_bit 8 b AND 255), ucast (b AND 255)]"
  "put (c :: 64 word) = [ucast (drop_bit 56 c AND 255), ucast (drop_bit 48 c AND 255),
     ucast (drop_bit 40 c AND 255), ucast (drop_bit 32 c AND 255), ucast (drop_bit 24 c AND 255),
     ucast (drop_bit 16 c AND 255), ucast (drop_bit 8 c AND 255), ucast (c AND 255)]"
proof -
  have n: "LENGTH(16) div 8 = Suc (Suc 0)" "LENGTH(32) div 8 = Suc (Suc (Suc (Suc 0)))"
    "LENGTH(64) div 8 = Suc (Suc (Suc (Suc (Suc (Suc (Suc (Suc 0)))))))" by simp_all
  show "put (a :: 16 word) = [ucast (drop_bit 8 a AND 255), ucast (a AND 255)]"
    unfolding put_def n be_bytes.simps by simp
  show "put (b :: 32 word) = [ucast (drop_bit 24 b AND 255), ucast (drop_bit 16 b AND 255),
      ucast (drop_bit 8 b AND 255), ucast (b AND 255)]"
    unfolding put_def n be_bytes.simps by simp
  show "put (c :: 64 word) = [ucast (drop_bit 56 c AND 255), ucast (drop_bit 48 c AND 255),
      ucast (drop_bit 40 c AND 255), ucast (drop_bit 32 c AND 255), ucast (drop_bit 24 c AND 255),
      ucast (drop_bit 16 c AND 255), ucast (drop_bit 8 c AND 255), ucast (c AND 255)]"
    unfolding put_def n be_bytes.simps by simp
qed

lemma unat_of_nat_size:
  "n < 2 ^ LENGTH('a) \<Longrightarrow> unat (word_of_nat n :: 'a::len word) = n"
  by (simp add: unat_of_nat take_bit_nat_eq_self)

section \<open>Sequential readers\<close>

text \<open>
  A reader object of the sources (\<open>BinaryReader\<close>, \<open>Reader\<close>) holds the unread part of a
  span; each read returns a value and shortens it, or throws. It is a function from the
  unread bytes to a value and the bytes still unread.
\<close>

type_synonym 'a parser = "bytes \<Rightarrow> ('a \<times> bytes) res"

definition preturn :: "'a \<Rightarrow> 'a parser" where
  "preturn x r = Inr (x, r)"

definition pbind :: "'a parser \<Rightarrow> ('a \<Rightarrow> 'b parser) \<Rightarrow> 'b parser" where
  "pbind p f r = (case p r of Inl e \<Rightarrow> Inl e | Inr (x, r') \<Rightarrow> f x r')"

definition plift :: "'a res \<Rightarrow> 'a parser" where
  "plift m r = (case m of Inl e \<Rightarrow> Inl e | Inr x \<Rightarrow> Inr (x, r))"

definition prequire :: "exn \<Rightarrow> bool \<Rightarrow> unit parser" where
  "prequire e ok = plift (require e ok)"

text \<open>Take exactly \<open>n\<close> bytes, or throw \<open>e\<close> when fewer are left.\<close>

definition read_exact :: "exn \<Rightarrow> nat \<Rightarrow> bytes parser" where
  "read_exact e n r = (if n > length r then Inl e else Inr (take n r, drop n r))"

text \<open>Everything must have been read.\<close>

definition pfinish :: "exn \<Rightarrow> unit parser" where
  "pfinish e r = (if r \<noteq> [] then Inl e else Inr ((), r))"

fun prepeat :: "nat \<Rightarrow> 'a parser \<Rightarrow> 'a list parser" where
  "prepeat 0 p = preturn []"
| "prepeat (Suc n) p = pbind p (\<lambda>x. pbind (prepeat n p) (\<lambda>xs. preturn (x # xs)))"

definition parse_all :: "'a parser \<Rightarrow> bytes \<Rightarrow> 'a res" where
  "parse_all p bs = map_sum id fst (p bs)"

lemma preturn_simp [simp]: "preturn x r = Inr (x, r)"
  by (simp add: preturn_def)

lemma plift_simps [simp]: "plift (Inl e) r = Inl e" "plift (Inr x) r = Inr (x, r)"
  by (simp_all add: plift_def)

lemma plift_Inr_iff [simp]: "plift m r = Inr (x, r') \<longleftrightarrow> m = Inr x \<and> r' = r"
  by (cases m) auto

lemma prequire_simp [simp]: "prequire e ok r = (if ok then Inr ((), r) else Inl e)"
  by (simp add: prequire_def require_def)

lemma pfinish_simp [simp]: "pfinish e r = Inr (u, r') \<longleftrightarrow> r = [] \<and> r' = []" "pfinish e [] = Inr ((), [])"
  by (auto simp: pfinish_def)

lemma pbind_Inr_iff:
  "pbind p f r = Inr (y, r'') \<longleftrightarrow> (\<exists>x r'. p r = Inr (x, r') \<and> f x r' = Inr (y, r''))"
  by (auto simp: pbind_def split: sum.splits prod.splits)

lemma pbind_step [parse_intros]: "p r = Inr (x, r') \<Longrightarrow> pbind p f r = f x r'"
  by (simp add: pbind_def)

lemma pbind_simps [simp]:
  "pbind (preturn x) f r = f x r"
  "pbind (plift (Inr x)) f r = f x r"
  by (simp_all add: pbind_def)

lemma pbind_prequire [simp]:
  "pbind (prequire e ok) f r = (if ok then f () r else Inl e)"
  by (simp add: pbind_def)

lemma parse_all_Inr_iff: "parse_all p bs = Inr x \<longleftrightarrow> (\<exists>r. p bs = Inr (x, r))"
  by (cases "p bs") (auto simp: parse_all_def)

lemma read_exact_append [parse_intros]:
  "length a = n \<Longrightarrow> read_exact e n (a @ rest) = Inr (a, rest)"
  by (simp add: read_exact_def)

lemma read_exact_all [parse_intros]: "length a = n \<Longrightarrow> read_exact e n a = Inr (a, [])"
  by (simp add: read_exact_def)

lemma read_exact_dest [parse_dests]:
  "read_exact e n r = Inr (a, rest) \<Longrightarrow> r = a @ rest \<and> length a = n"
  by (auto simp: read_exact_def split: if_splits)

lemma prepeat_append [parse_intros]:
  assumes "\<And>x rest. x \<in> set xs \<Longrightarrow> p (enc x @ rest) = Inr (x, rest)" and "n = length xs"
  shows "prepeat n p (concat (map enc xs) @ rest) = Inr (xs, rest)"
  using assms by (induction xs arbitrary: n) (simp_all add: pbind_def)

lemma prepeat_dest:
  assumes "prepeat n p r = Inr (xs, rest)"
    and "\<And>r x r'. p r = Inr (x, r') \<Longrightarrow> r = enc x @ r' \<and> P x"
  shows "r = concat (map enc xs) @ rest \<and> length xs = n \<and> list_all P xs"
  using assms(1)
proof (induction n arbitrary: r xs)
  case 0
  then show ?case by simp
next
  case (Suc n)
  then obtain x r1 ys where p: "p r = Inr (x, r1)" and ys: "prepeat n p r1 = Inr (ys, rest)"
    and xs: "xs = x # ys"
    by (auto simp: pbind_Inr_iff)
  from Suc.IH [OF ys] assms(2) [OF p] xs show ?case by simp
qed

text \<open>\<open>read_integer\<close>: the next \<open>sizeof(Integer)\<close> bytes as a big-endian integer.\<close>

definition read_word :: "exn \<Rightarrow> 'a::len word parser" where
  "read_word e = pbind (read_exact e (LENGTH('a) div 8)) (\<lambda>v. preturn (be_value v))"

text \<open>
  The same facts as equivalences: they turn a decoder into the statement that its input is the
  concatenation of the encodings of what it read.
\<close>

lemma read_exact_iff [wire_iff]:
  "read_exact e n r = Inr (a, rest) \<longleftrightarrow> r = a @ rest \<and> length a = n"
  using read_exact_dest [of e n r a rest] read_exact_append [of a n e rest] by auto

lemma read_word_iff:
  assumes "8 dvd LENGTH('a::len)"
  shows "read_word e r = Inr (w :: 'a word, rest) \<longleftrightarrow> r = put w @ rest"
proof
  assume "read_word e r = Inr (w, rest)"
  then show "r = put w @ rest" by (auto simp: read_word_def pbind_Inr_iff put_be_value dest!: read_exact_dest)
next
  assume "r = put w @ rest"
  then show "read_word e r = Inr (w, rest)" using assms
    by (simp add: read_word_def pbind_step read_exact_append be_value_put)
qed

lemmas read_word_iffs [wire_iff] =
  read_word_iff [where 'a = 8, simplified] read_word_iff [where 'a = 16, simplified]
  read_word_iff [where 'a = 32, simplified] read_word_iff [where 'a = 64, simplified]

lemma read_word_append [parse_intros]:
  "8 dvd LENGTH('a::len) \<Longrightarrow> read_word e (put (w :: 'a word) @ rest) = Inr (w, rest)"
  by (simp add: read_word_iff)

lemma read_word_all [parse_intros]:
  "8 dvd LENGTH('a::len) \<Longrightarrow> read_word e (put (w :: 'a word)) = Inr (w, [])"
  by (simp add: read_word_iff)

lemma read_word_byte [parse_intros]: "read_word e ((w :: byte) # rest) = Inr (w, rest)"
  by (simp add: read_word_iffs)

lemma prepeat_iff:
  assumes "\<And>r x r'. p r = Inr (x, r') \<longleftrightarrow> r = enc x @ r' \<and> P x"
  shows "prepeat n p r = Inr (xs, rest) \<longleftrightarrow>
    r = concat (map enc xs) @ rest \<and> length xs = n \<and> list_all P xs"
proof
  assume "prepeat n p r = Inr (xs, rest)"
  then show "r = concat (map enc xs) @ rest \<and> length xs = n \<and> list_all P xs"
    by (rule prepeat_dest) (simp add: assms)
next
  assume "r = concat (map enc xs) @ rest \<and> length xs = n \<and> list_all P xs"
  then show "prepeat n p r = Inr (xs, rest)"
    by (auto simp: assms list_all_iff intro!: prepeat_append)
qed

section \<open>Writing lists\<close>

text \<open>A \<open>for\<close> loop that appends the encoding of each element and stops at the first exception.\<close>

fun write_list :: "('a \<Rightarrow> bytes res) \<Rightarrow> 'a list \<Rightarrow> bytes res" where
  "write_list f [] = Inr []"
| "write_list f (x # xs) = res_bind (f x) (\<lambda>a. res_bind (write_list f xs) (\<lambda>b. Inr (a @ b)))"

lemma write_list_Inr_iff:
  assumes "\<And>x a. f x = Inr a \<longleftrightarrow> P x \<and> a = enc x"
  shows "write_list f xs = Inr bs \<longleftrightarrow> list_all P xs \<and> bs = concat (map enc xs)"
  by (induction xs arbitrary: bs) (auto simp: res_bind_Inr_iff assms)

lemma write_list_errors:
  assumes "\<And>x. x \<in> set xs \<Longrightarrow> f x \<noteq> Inr (enc x) \<Longrightarrow> f x = Inl e" and "write_list f xs = Inl e'"
  shows "e' = e"
  using assms
proof (induction xs)
  case (Cons x xs)
  then show ?case by (cases "f x"; cases "write_list f xs") force+
qed simp

lemma length_concat_le:
  "list_all (\<lambda>x. length (enc x) \<le> k) xs \<Longrightarrow> length (concat (map enc xs)) \<le> length xs * k"
  by (induction xs) auto

section \<open>The contract of a message format\<close>

text \<open>
  \<open>enc\<close> is an \<open>encode_...\<close> function, \<open>dec\<close> the \<open>decode_...\<close> function beside it and
  \<open>typed\<close> says that a record of the model is a value of the C++ struct (its arrays have
  their static size). The contract: decoding what was encoded returns the message, and
  a payload is accepted only when it is the encoding of the message returned, so that
  no message has two encodings.
\<close>

locale wire_codec =
  fixes enc :: "'a \<Rightarrow> bytes res"
    and dec :: "bytes \<Rightarrow> 'a res"
    and typed :: "'a \<Rightarrow> bool"
  assumes enc_dec: "typed x \<Longrightarrow> enc x = Inr bs \<Longrightarrow> dec bs = Inr x"
    and dec_enc: "dec bs = Inr x \<Longrightarrow> typed x \<and> enc x = Inr bs"
begin

lemma dec_iff: "dec bs = Inr x \<longleftrightarrow> typed x \<and> enc x = Inr bs"
  using enc_dec dec_enc by blast

lemma enc_inj: "typed x \<Longrightarrow> typed y \<Longrightarrow> enc x = Inr bs \<Longrightarrow> enc y = Inr bs \<Longrightarrow> x = y"
  by (drule (1) enc_dec)+ simp

lemma dec_inj: "dec bs = Inr x \<Longrightarrow> dec bs' = Inr x \<Longrightarrow> bs = bs'"
  by (auto dest!: dec_enc)

lemma dec_error_iff: "(\<exists>e. dec bs = Inl e) \<longleftrightarrow> (\<nexists>x. typed x \<and> enc x = Inr bs)"
  using dec_iff by (metis Inl_Inr_False old.sum.exhaust)

end

end
