(* ===== verification/Codec.thy ===== *)
theory Codec
  imports Prelude
begin

text \<open>
  \<open>include/lanlink/protocol/message.hpp\<close>, \<open>codec.hpp\<close> and \<open>src/protocol/codec.cpp\<close>:
  the message types, the 16-byte frame header and the frame codec.

  A scoped C++ enumeration with a fixed underlying type holds every value of that type,
  and \<open>static_cast\<close> from a wire integer makes use of it. An enumeration is therefore a
  datatype with one constructor per enumerator and one more, \<open>..._unlisted\<close>, for the values
  no enumerator names.
\<close>

section \<open>Message types\<close>

datatype MessageType =
    MT_client_hello
  | MT_server_hello
  | MT_heartbeat
  | MT_heartbeat_ack
  | MT_disconnect
  | MT_client_auth
  | MT_auth_result
  | MT_network_create_request
  | MT_network_list_request
  | MT_network_join_request
  | MT_network_leave_request
  | MT_network_invite_request
  | MT_network_approve_request
  | MT_network_kick_request
  | MT_network_peer_state_request
  | MT_network_key_publish_request
  | MT_peer_candidates_send
  | MT_user_access_request
  | MT_network_management_request
  | MT_relay_health_request
  | MT_relay_health_result
  | MT_network_management_result
  | MT_user_access_result
  | MT_peer_candidates_forward
  | MT_peer_candidates_ack
  | MT_network_packet_send
  | MT_network_operation_result
  | MT_network_list_result
  | MT_network_event
  | MT_network_peer_state_result
  | MT_network_peer_state_update
  | MT_network_peer_state_revoked
  | MT_network_key_envelope
  | MT_network_packet_forward
  | MT_error
  | MT_unlisted "16 word"

text \<open>\<open>static_cast<std::uint16_t>(type)\<close>.\<close>

fun message_type_raw :: "MessageType \<Rightarrow> 16 word" where
  "message_type_raw MT_client_hello = 0x0001"
| "message_type_raw MT_server_hello = 0x0002"
| "message_type_raw MT_heartbeat = 0x0003"
| "message_type_raw MT_heartbeat_ack = 0x0004"
| "message_type_raw MT_disconnect = 0x0005"
| "message_type_raw MT_client_auth = 0x0006"
| "message_type_raw MT_auth_result = 0x0007"
| "message_type_raw MT_network_create_request = 0x0100"
| "message_type_raw MT_network_list_request = 0x0101"
| "message_type_raw MT_network_join_request = 0x0102"
| "message_type_raw MT_network_leave_request = 0x0103"
| "message_type_raw MT_network_invite_request = 0x0104"
| "message_type_raw MT_network_approve_request = 0x0105"
| "message_type_raw MT_network_kick_request = 0x0106"
| "message_type_raw MT_network_peer_state_request = 0x0107"
| "message_type_raw MT_network_key_publish_request = 0x0108"
| "message_type_raw MT_peer_candidates_send = 0x010a"
| "message_type_raw MT_user_access_request = 0x010b"
| "message_type_raw MT_network_management_request = 0x010c"
| "message_type_raw MT_relay_health_request = 0x010d"
| "message_type_raw MT_relay_health_result = 0x018c"
| "message_type_raw MT_network_management_result = 0x018b"
| "message_type_raw MT_user_access_result = 0x018a"
| "message_type_raw MT_peer_candidates_forward = 0x0188"
| "message_type_raw MT_peer_candidates_ack = 0x0189"
| "message_type_raw MT_network_packet_send = 0x0109"
| "message_type_raw MT_network_operation_result = 0x0180"
| "message_type_raw MT_network_list_result = 0x0181"
| "message_type_raw MT_network_event = 0x0182"
| "message_type_raw MT_network_peer_state_result = 0x0183"
| "message_type_raw MT_network_peer_state_update = 0x0184"
| "message_type_raw MT_network_peer_state_revoked = 0x0185"
| "message_type_raw MT_network_key_envelope = 0x0186"
| "message_type_raw MT_network_packet_forward = 0x0187"
| "message_type_raw MT_error = 0x00ff"
| "message_type_raw (MT_unlisted raw) = raw"

definition listed_message_types :: "MessageType list" where
  "listed_message_types =
    [MT_client_hello, MT_server_hello, MT_heartbeat, MT_heartbeat_ack, MT_disconnect,
     MT_client_auth, MT_auth_result, MT_network_create_request, MT_network_list_request,
     MT_network_join_request, MT_network_leave_request, MT_network_invite_request,
     MT_network_approve_request, MT_network_kick_request, MT_network_peer_state_request,
     MT_network_key_publish_request, MT_peer_candidates_send, MT_user_access_request,
     MT_network_management_request, MT_relay_health_request, MT_relay_health_result,
     MT_network_management_result, MT_user_access_result, MT_peer_candidates_forward,
     MT_peer_candidates_ack, MT_network_packet_send, MT_network_operation_result,
     MT_network_list_result, MT_network_event, MT_network_peer_state_result,
     MT_network_peer_state_update, MT_network_peer_state_revoked, MT_network_key_envelope,
     MT_network_packet_forward, MT_error]"

text \<open>\<open>static_cast<MessageType>(raw)\<close>: the enumerator with this value, if there is one.\<close>

definition message_type_of_raw :: "16 word \<Rightarrow> MessageType" where
  "message_type_of_raw raw =
     (case find (\<lambda>t. message_type_raw t = raw) listed_message_types of
        Some t \<Rightarrow> t
      | None \<Rightarrow> MT_unlisted raw)"

fun is_known_message_type :: "MessageType \<Rightarrow> bool" where
  "is_known_message_type (MT_unlisted raw) = False"
| "is_known_message_type type = True"

fun message_type_name :: "MessageType \<Rightarrow> string" where
  "message_type_name MT_relay_health_request = ''relay_health_request''"
| "message_type_name MT_relay_health_result = ''relay_health_result''"
| "message_type_name MT_network_management_request = ''network_management_request''"
| "message_type_name MT_network_management_result = ''network_management_result''"
| "message_type_name MT_user_access_request = ''user_access_request''"
| "message_type_name MT_user_access_result = ''user_access_result''"
| "message_type_name MT_peer_candidates_send = ''peer_candidates_send''"
| "message_type_name MT_peer_candidates_forward = ''peer_candidates_forward''"
| "message_type_name MT_peer_candidates_ack = ''peer_candidates_ack''"
| "message_type_name MT_client_hello = ''client_hello''"
| "message_type_name MT_server_hello = ''server_hello''"
| "message_type_name MT_heartbeat = ''heartbeat''"
| "message_type_name MT_heartbeat_ack = ''heartbeat_ack''"
| "message_type_name MT_disconnect = ''disconnect''"
| "message_type_name MT_client_auth = ''client_auth''"
| "message_type_name MT_auth_result = ''auth_result''"
| "message_type_name MT_network_create_request = ''network_create_request''"
| "message_type_name MT_network_list_request = ''network_list_request''"
| "message_type_name MT_network_join_request = ''network_join_request''"
| "message_type_name MT_network_leave_request = ''network_leave_request''"
| "message_type_name MT_network_invite_request = ''network_invite_request''"
| "message_type_name MT_network_approve_request = ''network_approve_request''"
| "message_type_name MT_network_kick_request = ''network_kick_request''"
| "message_type_name MT_network_peer_state_request = ''network_peer_state_request''"
| "message_type_name MT_network_key_publish_request = ''network_key_publish_request''"
| "message_type_name MT_network_packet_send = ''network_packet_send''"
| "message_type_name MT_network_operation_result = ''network_operation_result''"
| "message_type_name MT_network_list_result = ''network_list_result''"
| "message_type_name MT_network_event = ''network_event''"
| "message_type_name MT_network_peer_state_result = ''network_peer_state_result''"
| "message_type_name MT_network_peer_state_update = ''network_peer_state_update''"
| "message_type_name MT_network_peer_state_revoked = ''network_peer_state_revoked''"
| "message_type_name MT_network_key_envelope = ''network_key_envelope''"
| "message_type_name MT_network_packet_forward = ''network_packet_forward''"
| "message_type_name MT_error = ''error''"
| "message_type_name (MT_unlisted raw) = ''unknown''"

section \<open>Frames\<close>

record Frame =
  frame_type :: MessageType
  request_id :: "32 word"
  payload :: bytes

definition frame_magic :: bytes where
  "frame_magic = [0x4c, 0x4e, 0x4c, 0x4b]"

definition protocol_version :: "16 word" where
  "protocol_version = 5"

definition frame_header_size :: nat where
  "frame_header_size = 16"

definition max_payload_size :: nat where
  "max_payload_size = 1024 * 1024"

datatype DecodeStatus =
    complete
  | need_more_data
  | invalid_magic
  | unsupported_version
  | unknown_message_type
  | payload_too_large

record DecodeResult =
  status :: DecodeStatus
  frame :: "Frame option"
  consumed :: nat
  required :: nat

text \<open>\<open>read_integer(bytes, offset)\<close>: the big-endian integer at an offset in range.\<close>

definition read_integer :: "bytes \<Rightarrow> nat \<Rightarrow> 'a::len word" where
  "read_integer bs offset = be_value (take (LENGTH('a) div 8) (drop offset bs))"

definition encode_frame :: "Frame \<Rightarrow> bytes res" where
  "encode_frame f =
     (if \<not> is_known_message_type (frame_type f) then Inl (Invalid_argument ''unknown message type'')
      else if length (payload f) > max_payload_size \<or> length (payload f) > 2 ^ 32 - 1
      then Inl (Length_error ''protocol payload is too large'')
      else Inr (frame_magic
        @ put protocol_version
        @ put (message_type_raw (frame_type f))
        @ put (request_id f)
        @ put (word_of_nat (length (payload f)) :: 32 word)
        @ payload f))"

definition decode_frame :: "bytes \<Rightarrow> DecodeResult" where
  "decode_frame bs =
     (if length bs < frame_header_size
      then \<lparr>status = need_more_data, frame = None, consumed = 0, required = frame_header_size\<rparr>
      else if take 4 bs \<noteq> frame_magic
      then \<lparr>status = invalid_magic, frame = None, consumed = 0, required = 0\<rparr>
      else if (read_integer bs 4 :: 16 word) \<noteq> protocol_version
      then \<lparr>status = unsupported_version, frame = None, consumed = 0, required = 0\<rparr>
      else
        let type = message_type_of_raw (read_integer bs 6) in
        if \<not> is_known_message_type type
        then \<lparr>status = unknown_message_type, frame = None, consumed = 0, required = 0\<rparr>
        else
          let req = read_integer bs 8;
              payload_size = unat (read_integer bs 12 :: 32 word) in
          if payload_size > max_payload_size
          then \<lparr>status = payload_too_large, frame = None, consumed = 0, required = 0\<rparr>
          else
            let total_size = frame_header_size + payload_size in
            if length bs < total_size
            then \<lparr>status = need_more_data, frame = None, consumed = 0, required = total_size\<rparr>
            else \<lparr>status = complete,
                  frame = Some \<lparr>frame_type = type, request_id = req,
                                payload = take payload_size (drop frame_header_size bs)\<rparr>,
                  consumed = total_size, required = total_size\<rparr>)"

fun decode_status_name :: "DecodeStatus \<Rightarrow> string" where
  "decode_status_name complete = ''complete''"
| "decode_status_name need_more_data = ''need_more_data''"
| "decode_status_name invalid_magic = ''invalid_magic''"
| "decode_status_name unsupported_version = ''unsupported_version''"
| "decode_status_name unknown_message_type = ''unknown_message_type''"
| "decode_status_name payload_too_large = ''payload_too_large''"

section \<open>Lemmas\<close>

lemma message_type_of_raw_raw:
  "is_known_message_type t \<Longrightarrow> message_type_of_raw (message_type_raw t) = t"
  by (cases t) (simp_all add: message_type_of_raw_def listed_message_types_def)

lemma message_type_raw_of_raw [simp]: "message_type_raw (message_type_of_raw raw) = raw"
  by (auto simp: message_type_of_raw_def find_Some_iff split: option.splits)

lemma read_integer_put:
  fixes w :: "'a::len word"
  assumes "8 dvd LENGTH('a)" and "length pre = offset"
  shows "read_integer (pre @ put w @ rest) offset = w"
  using assms by (simp add: read_integer_def be_value_put)

text \<open>The header of a frame, as the encoder lays it out.\<close>

definition frame_header :: "MessageType \<Rightarrow> 32 word \<Rightarrow> nat \<Rightarrow> bytes" where
  "frame_header type req n =
     frame_magic @ put protocol_version @ put (message_type_raw type) @ put req
       @ put (word_of_nat n :: 32 word)"

lemma length_frame_header [simp]: "length (frame_header type req n) = frame_header_size"
  by (simp add: frame_header_def frame_magic_def frame_header_size_def)

lemma encode_frame_Inr_iff:
  "encode_frame f = Inr bs \<longleftrightarrow>
     is_known_message_type (frame_type f) \<and> length (payload f) \<le> max_payload_size \<and>
     bs = frame_header (frame_type f) (request_id f) (length (payload f)) @ payload f"
  by (auto simp: encode_frame_def frame_header_def max_payload_size_def)

lemma header_fields:
  "take 4 (frame_header type req n @ rest) = frame_magic"
  "read_integer (frame_header type req n @ rest) 4 = protocol_version"
  "read_integer (frame_header type req n @ rest) 6 = message_type_raw type"
  "read_integer (frame_header type req n @ rest) 8 = req"
  "read_integer (frame_header type req n @ rest) 12 = (word_of_nat n :: 32 word)"
  "drop frame_header_size (frame_header type req n @ rest) = rest"
  by (simp_all add: frame_header_def frame_magic_def read_integer_def frame_header_size_def
      be_value_put)

lemma put_read_integer:
  assumes "offset + LENGTH('a::len) div 8 \<le> length bs"
  shows "put (read_integer bs offset :: 'a word) = take (LENGTH('a) div 8) (drop offset bs)"
  unfolding read_integer_def using assms by (intro put_be_value) simp

lemma take_drop_rest: "take n (drop k bs) @ drop (k + n) bs = drop k bs"
  by (metis add.commute append_take_drop_id drop_drop)

lemma header_recovered:
  assumes "frame_header_size \<le> length bs" "take 4 bs = frame_magic"
    "(read_integer bs 4 :: 16 word) = protocol_version"
  shows "frame_header (message_type_of_raw (read_integer bs 6)) (read_integer bs 8)
           (unat (read_integer bs 12 :: 32 word)) @ drop frame_header_size bs = bs"
proof -
  have len: "16 \<le> length bs" using assms(1) by (simp add: frame_header_size_def)
  have "put protocol_version = take 2 (drop 4 bs)"
    using put_read_integer [where 'a = 16, of 4 bs] assms(3) len by simp
  moreover have "put (read_integer bs 6 :: 16 word) = take 2 (drop 6 bs)"
    using put_read_integer [where 'a = 16, of 6 bs] len by simp
  moreover have "put (read_integer bs 8 :: 32 word) = take 4 (drop 8 bs)"
    "put (read_integer bs 12 :: 32 word) = take 4 (drop 12 bs)"
    using put_read_integer [where 'a = 32, of 8 bs] put_read_integer [where 'a = 32, of 12 bs] len
    by simp_all
  moreover have "take 4 bs @ take 2 (drop 4 bs) @ take 2 (drop 6 bs) @ take 4 (drop 8 bs)
      @ take 4 (drop 12 bs) @ drop 16 bs = bs"
    using take_drop_rest [of 4 12 bs] take_drop_rest [of 4 8 bs] take_drop_rest [of 2 6 bs]
      take_drop_rest [of 2 4 bs] take_drop_rest [of 4 0 bs] by simp
  ultimately show ?thesis
    using assms(2) by (simp add: frame_header_def frame_header_size_def)
qed

lemma decode_frame_header:
  assumes "is_known_message_type type" "n \<le> max_payload_size"
  shows "decode_frame (frame_header type req n @ rest) =
    (if length rest < n
     then \<lparr>status = need_more_data, frame = None, consumed = 0, required = frame_header_size + n\<rparr>
     else \<lparr>status = complete,
           frame = Some \<lparr>frame_type = type, request_id = req, payload = take n rest\<rparr>,
           consumed = frame_header_size + n, required = frame_header_size + n\<rparr>)"
proof -
  have "unat (word_of_nat n :: 32 word) = n"
    using assms(2) by (intro unat_of_nat_size) (simp add: max_payload_size_def)
  with assms show ?thesis
    by (simp add: decode_frame_def header_fields message_type_of_raw_raw Let_def del: take_append)
qed

lemma decode_frame_complete_cases:
  assumes "status (decode_frame bs) = complete"
  obtains f rest where "encode_frame f = Inr (take (consumed (decode_frame bs)) bs)"
    and "frame (decode_frame bs) = Some f"
    and "consumed (decode_frame bs) = frame_header_size + length (payload f)"
    and "consumed (decode_frame bs) \<le> length bs"
proof -
  let ?type = "message_type_of_raw (read_integer bs 6)"
  let ?n = "unat (read_integer bs 12 :: 32 word)"
  let ?f = "\<lparr>frame_type = ?type, request_id = read_integer bs 8,
             payload = take ?n (drop frame_header_size bs)\<rparr>"
  from assms have hdr: "frame_header_size \<le> length bs" "take 4 bs = frame_magic"
      "(read_integer bs 4 :: 16 word) = protocol_version"
    and known: "is_known_message_type ?type" and n: "?n \<le> max_payload_size"
    and size: "frame_header_size + ?n \<le> length bs"
    and r: "frame (decode_frame bs) = Some ?f" "consumed (decode_frame bs) = frame_header_size + ?n"
    by (auto simp: decode_frame_def Let_def split: if_splits)
  have len: "length (payload ?f) = ?n" using size by simp
  have "take (frame_header_size + ?n) bs =
      take (frame_header_size + ?n)
        (frame_header ?type (read_integer bs 8) ?n @ drop frame_header_size bs)"
    using header_recovered [OF hdr] by simp
  also have "\<dots> = frame_header ?type (read_integer bs 8) ?n @ payload ?f" by simp
  finally have "encode_frame ?f = Inr (take (consumed (decode_frame bs)) bs)"
    using known n len r(2) by (simp add: encode_frame_Inr_iff)
  then show thesis using that [of ?f] r len size by simp
qed

lemma decode_encode_frame:
  assumes "encode_frame f = Inr bs"
  shows "decode_frame (bs @ rest) =
    \<lparr>status = complete, frame = Some f, consumed = length bs, required = length bs\<rparr>"
  using assms by (auto simp: encode_frame_Inr_iff decode_frame_header)

end
