(* ===== verification/Stream_Decoder.thy ===== *)
theory Stream_Decoder
  imports Codec
begin

text \<open>
  \<open>stream_decoder.hpp\<close> and \<open>src/protocol/stream_decoder.cpp\<close>: \<open>FrameStreamDecoder\<close>, which
  turns the chunks a transport delivers into frames. The state is the object's two
  members. \<open>push\<close> returns the object after the call together with the frames or the
  exception, because the object survives an exception.
\<close>

section \<open>The decoder\<close>

record FrameStreamDecoder =
  buffer :: bytes
  read_offset :: nat

definition maximum_frame_size :: nat where
  "maximum_frame_size = frame_header_size + max_payload_size"

lemma consumed_positive:
  "status (decode_frame bs) = complete \<Longrightarrow> 0 < consumed (decode_frame bs)"
  by (erule decode_frame_complete_cases) (simp add: frame_header_size_def)

text \<open>The inner \<open>while (read_offset < buffer.size())\<close> loop.\<close>

function (sequential) drain :: "FrameStreamDecoder \<Rightarrow> Frame list \<Rightarrow> FrameStreamDecoder \<times> Frame list res" where
  "drain d frames =
     (if read_offset d < length (buffer d) then
        let result = decode_frame (drop (read_offset d) (buffer d)) in
        if status result = complete
        then drain (d\<lparr>read_offset := read_offset d + consumed result\<rparr>)
               (frames @ [the (frame result)])
        else if status result \<noteq> need_more_data
        then (d, Inl (Runtime_error (''invalid protocol stream: '' @ decode_status_name (status result))))
        else (d, Inr frames)
      else (d, Inr frames))"
  by pat_completeness auto
termination
  by (relation "measure (\<lambda>(d, frames). length (buffer d) - read_offset d)")
    (auto dest: consumed_positive)

text \<open>The compaction at the end of an iteration of the outer loop.\<close>

definition compact :: "FrameStreamDecoder \<Rightarrow> FrameStreamDecoder" where
  "compact d =
     (if read_offset d = length (buffer d) then d\<lparr>buffer := [], read_offset := 0\<rparr>
      else if read_offset d > length (buffer d) div 2
      then d\<lparr>buffer := drop (read_offset d) (buffer d), read_offset := 0\<rparr>
      else d)"

definition buffered_size :: "FrameStreamDecoder \<Rightarrow> nat" where
  "buffered_size d = length (buffer d) - read_offset d"

text \<open>The outer loop; \<open>bs\<close> is what is left of the argument span.\<close>

function (sequential) push_loop ::
    "FrameStreamDecoder \<Rightarrow> Frame list \<Rightarrow> bytes \<Rightarrow> FrameStreamDecoder \<times> Frame list res" where
  "push_loop d frames bs =
     (if bs \<noteq> [] then
        let available = maximum_frame_size - buffered_size d in
        if available = 0
        then (d, Inl (Runtime_error ''protocol frame exceeds the maximum wire size''))
        else
          let count = min available (length bs) in
          case drain (d\<lparr>buffer := buffer d @ take count bs\<rparr>) frames of
            (d', Inl e) \<Rightarrow> (d', Inl e)
          | (d', Inr frames') \<Rightarrow> push_loop (compact d') frames' (drop count bs)
      else (d, Inr frames))"
  by pat_completeness auto
termination
  by (relation "measure (\<lambda>(d, frames, bs). length bs)") auto

definition push :: "FrameStreamDecoder \<Rightarrow> bytes \<Rightarrow> FrameStreamDecoder \<times> Frame list res" where
  "push d bs = push_loop d [] bs"

definition reset :: "FrameStreamDecoder \<Rightarrow> FrameStreamDecoder" where
  "reset d = d\<lparr>buffer := [], read_offset := 0\<rparr>"

declare drain.simps [simp del] push_loop.simps [simp del]

section \<open>Specification: the frames of a byte stream\<close>

text \<open>
  The specification reads a whole stream at once: the frames it starts with, the bytes
  left over, and the status that stops the reading when it is not a lack of bytes.
\<close>

function (sequential) parse_stream :: "bytes \<Rightarrow> Frame list \<times> bytes \<times> DecodeStatus option" where
  "parse_stream bs =
     (let result = decode_frame bs in
      if status result = complete then
        case parse_stream (drop (consumed result) bs) of (fs, rest, st) \<Rightarrow> (the (frame result) # fs, rest, st)
      else if status result = need_more_data then ([], bs, None)
      else ([], bs, Some (status result)))"
  by pat_completeness auto
termination
proof (relation "measure length")
  fix bs :: bytes and result
  assume "result = decode_frame bs" and "status result = complete"
  then show "(drop (consumed result) bs, bs) \<in> measure length"
    by (auto elim!: decode_frame_complete_cases simp: frame_header_size_def)
qed simp

declare parse_stream.simps [simp del]

definition unread :: "FrameStreamDecoder \<Rightarrow> bytes" where
  "unread d = drop (read_offset d) (buffer d)"

text \<open>Between two calls of \<open>push\<close> the unread bytes are the start of a frame, never a whole one.\<close>

definition decoder_ok :: "FrameStreamDecoder \<Rightarrow> bool" where
  "decoder_ok d \<longleftrightarrow> read_offset d \<le> length (buffer d) \<and> status (decode_frame (unread d)) = need_more_data"

section \<open>Decoding a prefix of a stream\<close>

lemma read_integer_append:
  "offset + LENGTH('a::len) div 8 \<le> length bs \<Longrightarrow>
     (read_integer (bs @ ext) offset :: 'a word) = read_integer bs offset"
  by (simp add: read_integer_def)

lemma decode_frame_complete_append:
  assumes "status (decode_frame bs) = complete"
  shows "decode_frame (bs @ ext) = decode_frame bs"
proof -
  from assms obtain f where f: "encode_frame f = Inr (take (consumed (decode_frame bs)) bs)"
    by (rule decode_frame_complete_cases)
  from decode_encode_frame [OF f, of "drop (consumed (decode_frame bs)) bs @ ext"]
    decode_encode_frame [OF f, of "drop (consumed (decode_frame bs)) bs"]
  show ?thesis by (simp add: append_assoc [symmetric] del: append_assoc)
qed

lemma decode_frame_error_append:
  assumes "status (decode_frame bs) \<noteq> complete" "status (decode_frame bs) \<noteq> need_more_data"
  shows "decode_frame (bs @ ext) = decode_frame bs"
proof -
  have "16 \<le> length bs"
    using assms(2) by (rule contrapos_np) (simp add: decode_frame_def frame_header_size_def)
  then show ?thesis using assms
    by (auto simp: decode_frame_def read_integer_append frame_header_size_def Let_def split: if_splits)
qed

lemma decode_frame_need_more_bound:
  "status (decode_frame bs) = need_more_data \<Longrightarrow> length bs < maximum_frame_size"
  by (auto simp: decode_frame_def maximum_frame_size_def frame_header_size_def Let_def split: if_splits)

lemma parse_stream_append:
  assumes "parse_stream bs = (fs, rest, None)"
  shows "parse_stream (bs @ ext) = (case parse_stream (rest @ ext) of (gs, r, st) \<Rightarrow> (fs @ gs, r, st))"
  using assms
proof (induction bs arbitrary: fs rule: parse_stream.induct)
  case (1 bs)
  show ?case
  proof (cases "status (decode_frame bs) = complete")
    case True
    let ?c = "consumed (decode_frame bs)"
    have c: "?c \<le> length bs" using True by (auto elim: decode_frame_complete_cases)
    from True "1.prems" obtain gs where gs: "parse_stream (drop ?c bs) = (gs, rest, None)"
      and fs: "fs = the (frame (decode_frame bs)) # gs"
      by (auto simp: parse_stream.simps [of bs] Let_def split: prod.splits)
    from "1.IH" [OF refl True gs] True c fs show ?thesis
      by (simp add: parse_stream.simps [of "bs @ ext"] decode_frame_complete_append Let_def
          split: prod.splits)
  next
    case False
    with "1.prems" show ?thesis
      by (auto simp: parse_stream.simps [of bs] Let_def split: if_splits prod.splits)
  qed
qed

lemma parse_stream_error_append:
  assumes "parse_stream bs = (fs, rest, Some st)"
  shows "\<exists>rest'. parse_stream (bs @ ext) = (fs, rest', Some st)"
  using assms
proof (induction bs arbitrary: fs rule: parse_stream.induct)
  case (1 bs)
  show ?case
  proof (cases "status (decode_frame bs) = complete")
    case True
    let ?c = "consumed (decode_frame bs)"
    have c: "?c \<le> length bs" using True by (auto elim: decode_frame_complete_cases)
    from True "1.prems" obtain gs where gs: "parse_stream (drop ?c bs) = (gs, rest, Some st)"
      and fs: "fs = the (frame (decode_frame bs)) # gs"
      by (auto simp: parse_stream.simps [of bs] Let_def split: prod.splits)
    from "1.IH" [OF refl True gs] True c fs show ?thesis
      by (auto simp: parse_stream.simps [of "bs @ ext"] decode_frame_complete_append Let_def)
  next
    case False
    with "1.prems" show ?thesis
      by (auto simp: parse_stream.simps [of bs] parse_stream.simps [of "bs @ ext"]
          decode_frame_error_append Let_def split: if_splits)
  qed
qed

lemma parse_stream_rest:
  "parse_stream bs = (fs, rest, None) \<Longrightarrow> status (decode_frame rest) = need_more_data"
proof (induction bs arbitrary: fs rule: parse_stream.induct)
  case (1 bs)
  then show ?case
    by (auto simp: parse_stream.simps [of bs] Let_def split: if_splits prod.splits)
qed

lemma parse_stream_need_more [simp]:
  "status (decode_frame bs) = need_more_data \<Longrightarrow> parse_stream bs = ([], bs, None)"
  by (simp add: parse_stream.simps [of bs] Let_def)

lemma decode_frame_Nil [simp]: "status (decode_frame []) = need_more_data"
  by (simp add: decode_frame_def frame_header_size_def)

section \<open>The two loops implement the specification\<close>

definition stream_error :: "DecodeStatus \<Rightarrow> exn" where
  "stream_error st = Runtime_error (''invalid protocol stream: '' @ decode_status_name st)"

lemma drain_spec:
  assumes "read_offset d \<le> length (buffer d)"
  shows "case parse_stream (unread d) of
      (fs, rest, None) \<Rightarrow> \<exists>d'. drain d frames = (d', Inr (frames @ fs)) \<and> unread d' = rest
        \<and> read_offset d' \<le> length (buffer d')
    | (fs, rest, Some st) \<Rightarrow> \<exists>d'. drain d frames = (d', Inl (stream_error st))"
  using assms
proof (induction d frames rule: drain.induct)
  case (1 d frames)
  let ?r = "decode_frame (unread d)"
  let ?d = "d\<lparr>read_offset := read_offset d + consumed ?r\<rparr>"
  consider (empty) "read_offset d = length (buffer d)"
    | (frame) "read_offset d < length (buffer d)" "status ?r = complete"
    | (stop) "read_offset d < length (buffer d)" "status ?r \<noteq> complete"
    using "1.prems" by linarith
  then show ?case
  proof cases
    case empty
    then show ?thesis by (simp add: drain.simps [of d] unread_def)
  next
    case frame
    from frame(2) have "consumed ?r \<le> length (unread d)" by (auto elim: decode_frame_complete_cases)
    with frame(1) have bound: "read_offset ?d \<le> length (buffer ?d)" by (simp add: unread_def)
    have step: "drain d frames = drain ?d (frames @ [the (frame ?r)])"
      using frame by (simp add: drain.simps [of d] unread_def Let_def)
    have unread: "unread ?d = drop (consumed ?r) (unread d)"
      by (simp add: unread_def add.commute)
    have IH: "case parse_stream (unread ?d) of
        (fs, rest, None) \<Rightarrow> \<exists>d'. drain ?d (frames @ [the (frame ?r)]) = (d', Inr ((frames @ [the (frame ?r)]) @ fs))
          \<and> unread d' = rest \<and> read_offset d' \<le> length (buffer d')
      | (fs, rest, Some st) \<Rightarrow> \<exists>d'. drain ?d (frames @ [the (frame ?r)]) = (d', Inl (stream_error st))"
      using "1.IH" [folded unread_def, OF frame(1) refl frame(2) bound] .
    then show ?thesis
      unfolding step unread using frame(2)
      by (auto simp: parse_stream.simps [of "unread d"] Let_def split: prod.splits option.splits)
  next
    case stop
    with "1.prems" show ?thesis
      by (auto simp: parse_stream.simps [of "unread d"] drain.simps [of d, folded unread_def]
          stream_error_def Let_def)
  qed
qed

lemma compact_unread:
  assumes "read_offset d \<le> length (buffer d)"
  shows "unread (compact d) = unread d" "read_offset (compact d) \<le> length (buffer (compact d))"
  using assms by (auto simp: compact_def unread_def)

lemma push_loop_spec:
  assumes "decoder_ok d"
  shows "case parse_stream (unread d @ bs) of
      (fs, rest, None) \<Rightarrow> \<exists>d'. push_loop d frames bs = (d', Inr (frames @ fs)) \<and> decoder_ok d' \<and> unread d' = rest
    | (fs, rest, Some st) \<Rightarrow> \<exists>d'. push_loop d frames bs = (d', Inl (stream_error st))"
  using assms
proof (induction d frames bs rule: push_loop.induct)
  case (1 d frames bs)
  show ?case
  proof (cases "bs = []")
    case True
    with "1.prems" show ?thesis by (simp add: push_loop.simps [of d] decoder_ok_def)
  next
    case False
    let ?avail = "maximum_frame_size - buffered_size d"
    let ?count = "min ?avail (length bs)"
    let ?d1 = "d\<lparr>buffer := buffer d @ take ?count bs\<rparr>"
    have off: "read_offset d \<le> length (buffer d)" using "1.prems" by (simp add: decoder_ok_def)
    have "length (unread d) < maximum_frame_size"
      using "1.prems" by (intro decode_frame_need_more_bound) (simp add: decoder_ok_def)
    then have avail: "?avail \<noteq> 0" using off by (simp add: buffered_size_def unread_def)
    have off1: "read_offset ?d1 \<le> length (buffer ?d1)" using off by simp
    have unread1: "unread ?d1 = unread d @ take ?count bs" using off by (simp add: unread_def)
    have split: "parse_stream ((unread d @ take ?count bs) @ drop ?count bs) = parse_stream (unread d @ bs)"
      by simp
    show ?thesis
    proof (cases "parse_stream (unread d @ take ?count bs)")
      case (fields fs rest st)
      show ?thesis
      proof (cases st)
        case None
        with fields drain_spec [OF off1, of frames] unread1 obtain d2
          where d2: "drain ?d1 frames = (d2, Inr (frames @ fs))" "unread d2 = rest"
            "read_offset d2 \<le> length (buffer d2)" by auto
        have step: "push_loop d frames bs = push_loop (compact d2) (frames @ fs) (drop ?count bs)"
          using False avail d2(1) by (simp add: push_loop.simps [of d frames bs] Let_def)
        have ok: "decoder_ok (compact d2)"
          using parse_stream_rest [of _ fs rest] fields None d2 compact_unread [OF d2(3)]
          by (auto simp: decoder_ok_def)
        have "case parse_stream (unread (compact d2) @ drop ?count bs) of
            (gs, rest', None) \<Rightarrow> \<exists>d'. push_loop (compact d2) (frames @ fs) (drop ?count bs)
              = (d', Inr ((frames @ fs) @ gs)) \<and> decoder_ok d' \<and> unread d' = rest'
          | (gs, rest', Some st) \<Rightarrow> \<exists>d'. push_loop (compact d2) (frames @ fs) (drop ?count bs)
              = (d', Inl (stream_error st))"
          by (rule "1.IH" [OF False refl avail refl d2(1) [symmetric] refl ok])
        then show ?thesis
          unfolding step split [symmetric] parse_stream_append [OF fields [unfolded None]]
          using compact_unread(1) [OF d2(3)] d2(2)
          by (auto split: prod.splits option.splits)
      next
        case (Some err)
        with fields drain_spec [OF off1, of frames] unread1 obtain d2
          where d2: "drain ?d1 frames = (d2, Inl (stream_error err))" by auto
        have "push_loop d frames bs = (d2, Inl (stream_error err))"
          using False avail d2 by (simp add: push_loop.simps [of d frames bs] Let_def)
        moreover obtain rest' where "parse_stream (unread d @ bs) = (fs, rest', Some err)"
          using parse_stream_error_append [OF fields [unfolded Some], of "drop ?count bs"]
          unfolding split by blast
        ultimately show ?thesis by simp
      qed
    qed
  qed
qed

section \<open>Properties\<close>

text \<open>
  C3. \<open>FrameStreamDecoder::push\<close> implements the stream specification: from any state the
  decoder can be in between two calls, pushing \<open>bs\<close> returns exactly the frames of the unread
  bytes followed by \<open>bs\<close>, keeps exactly the bytes of the last incomplete frame, and throws
  exactly when the stream is malformed, with the status of the malformed frame. In
  particular the "exceeds the maximum wire size" exception is never thrown.
\<close>

theorem push_implements_parse_stream:
  assumes "decoder_ok d"
  shows "case parse_stream (unread d @ bs) of
      (fs, rest, None) \<Rightarrow> \<exists>d'. push d bs = (d', Inr fs) \<and> decoder_ok d' \<and> unread d' = rest
    | (fs, rest, Some st) \<Rightarrow> \<exists>d'. push d bs = (d', Inl (stream_error st))"
  using push_loop_spec [OF assms, where bs = bs and frames = "[]"] by (simp add: push_def split: prod.splits option.splits)

theorem push_implements_parse_stream_witness:
  "decoder_ok \<lparr>buffer = [0x4c, 0x4e], read_offset = 1\<rparr> \<and>
   (case parse_stream (unread \<lparr>buffer = [0x4c, 0x4e], read_offset = 1\<rparr> @ [1]) of
      (fs, rest, None) \<Rightarrow> \<exists>d'. push \<lparr>buffer = [0x4c, 0x4e], read_offset = 1\<rparr> [1] = (d', Inr fs)
        \<and> decoder_ok d' \<and> unread d' = rest
    | (fs, rest, Some st) \<Rightarrow>
        \<exists>d'. push \<lparr>buffer = [0x4c, 0x4e], read_offset = 1\<rparr> [1] = (d', Inl (stream_error st)))"
proof -
  have "decoder_ok \<lparr>buffer = [0x4c, 0x4e], read_offset = 1\<rparr>"
    by (simp add: decoder_ok_def unread_def decode_frame_def frame_header_size_def)
  then show ?thesis by (intro conjI push_implements_parse_stream)
qed

text \<open>Pushing a list of chunks, one call each, collecting the frames.\<close>

fun push_chunks :: "FrameStreamDecoder \<Rightarrow> bytes list \<Rightarrow> FrameStreamDecoder \<times> Frame list res" where
  "push_chunks d [] = (d, Inr [])"
| "push_chunks d (c # cs) =
     (case push d c of
        (d', Inl e) \<Rightarrow> (d', Inl e)
      | (d', Inr fs) \<Rightarrow>
          (case push_chunks d' cs of
             (d'', Inl e) \<Rightarrow> (d'', Inl e)
           | (d'', Inr gs) \<Rightarrow> (d'', Inr (fs @ gs))))"

lemma push_chunks_spec:
  assumes "decoder_ok d" and "parse_stream (unread d @ concat cs) = (fs, rest, None)"
  shows "\<exists>d'. push_chunks d cs = (d', Inr fs) \<and> decoder_ok d' \<and> unread d' = rest"
  using assms
proof (induction cs arbitrary: d fs)
  case Nil
  then show ?case by (simp add: decoder_ok_def)
next
  case (Cons c cs)
  obtain gs r st where p: "parse_stream (unread d @ c) = (gs, r, st)" by (metis prod_cases3)
  have st: "st = None"
    using parse_stream_error_append [of "unread d @ c" gs r _ "concat cs"] Cons.prems(2) p
    by (cases st) auto
  with p push_loop_spec [OF Cons.prems(1), where bs = c and frames = "[]"] obtain d1
    where d1: "push d c = (d1, Inr gs)" "decoder_ok d1" "unread d1 = r"
    by (auto simp: push_def)
  from parse_stream_append [OF p [unfolded st], of "concat cs"] Cons.prems(2) obtain hs
    where hs: "parse_stream (r @ concat cs) = (hs, rest, None)" "fs = gs @ hs"
    by (auto split: prod.splits)
  from Cons.IH [OF d1(2), of hs] hs d1 show ?case by auto
qed

lemma parse_stream_encoded:
  assumes "list_all2 (\<lambda>f bs. encode_frame f = Inr bs) fs wire"
  shows "parse_stream (concat wire) = (fs, [], None)"
  using assms
proof (induction fs wire rule: list_all2_induct)
  case Nil
  then show ?case by simp
next
  case (Cons f fs bs wire)
  then show ?case
    by (simp add: parse_stream.simps [of "bs @ concat wire"] decode_encode_frame Let_def)
qed

text \<open>
  The frames do not depend on how the transport cuts the stream: when frames are encoded
  one after another and the bytes arrive in any chunks at a fresh decoder, the calls of
  \<open>push\<close> return exactly those frames, in order, and nothing stays buffered.
\<close>

lemma stream_segmentation:
  assumes "list_all2 (\<lambda>f bs. encode_frame f = Inr bs) fs wire"
    and "concat chunks = concat wire"
  shows "\<exists>d. push_chunks \<lparr>buffer = [], read_offset = 0\<rparr> chunks = (d, Inr fs) \<and> buffered_size d = 0"
proof -
  let ?d0 = "\<lparr>buffer = [], read_offset = 0\<rparr>"
  have "decoder_ok ?d0" by (simp add: decoder_ok_def unread_def)
  moreover have "parse_stream (unread ?d0 @ concat chunks) = (fs, [], None)"
    using parse_stream_encoded [OF assms(1)] assms(2) by (simp add: unread_def)
  ultimately obtain d where "push_chunks ?d0 chunks = (d, Inr fs)" "unread d = []"
    using push_chunks_spec by blast
  then show ?thesis by (auto simp: unread_def buffered_size_def)
qed

lemma stream_segmentation_demo:
  "\<exists>d. push_chunks \<lparr>buffer = [], read_offset = 0\<rparr>
        [[0x4c, 0x4e, 0x4c, 0x4b, 0, 5, 0, 3], [], [0, 0, 0, 7, 0, 0, 0], [1, 9]] =
     (d, Inr [\<lparr>frame_type = MT_heartbeat, request_id = 7, payload = [9]\<rparr>]) \<and> buffered_size d = 0"
proof -
  let ?f = "\<lparr>frame_type = MT_heartbeat, request_id = 7, payload = [9]\<rparr>"
  let ?w = "[0x4c, 0x4e, 0x4c, 0x4b, 0, 5, 0, 3, 0, 0, 0, 7, 0, 0, 0, 1, 9] :: bytes"
  have "encode_frame ?f = Inr ?w"
    by (simp add: encode_frame_def max_payload_size_def frame_magic_def protocol_version_def put_eval)
  then show ?thesis
    using stream_segmentation [of "[?f]" "[?w]"
        "[[0x4c, 0x4e, 0x4c, 0x4b, 0, 5, 0, 3], [], [0, 0, 0, 7, 0, 0, 0], [1, 9]]"]
    by simp
qed

end
