(* ===== verification/Binary.thy ===== *)
theory Binary
  imports Prelude
begin

text \<open>
  \<open>include/lanlink/protocol/binary.hpp\<close>: the class \<open>BinaryReader\<close>. Its state is the
  unread span, so a method is a reader of \<open>Prelude\<close>. \<open>BinaryWriter::put\<close> is
  \<open>Prelude.put\<close> and \<open>append\<close> is list append.
\<close>

definition reader_bytes :: "nat \<Rightarrow> bytes parser" where
  "reader_bytes count = read_exact (Invalid_argument ''truncated protocol payload'') count"

definition reader_get :: "'a::len word parser" where
  "reader_get = pbind (reader_bytes (LENGTH('a) div 8)) (\<lambda>value. preturn (be_value value))"

definition reader_array :: "nat \<Rightarrow> bytes parser" where
  "reader_array n = pbind (reader_bytes n) preturn"

definition reader_finish :: "unit parser" where
  "reader_finish = pfinish (Invalid_argument ''trailing protocol payload'')"

section \<open>Idioms of the message files\<close>

text \<open>A flag: \<open>w.put<std::uint8_t>(b ? 1 : 0)\<close>, read by \<open>f = r.get<std::uint8_t>(); require(f <= 1); ... f != 0\<close>.\<close>

definition put_bool :: "bool \<Rightarrow> bytes" where
  "put_bool b = put (if b then 1 else 0 :: byte)"

definition read_flag :: "exn \<Rightarrow> bool parser" where
  "read_flag e = pbind reader_get (\<lambda>f :: byte. pbind (prequire e (f \<le> 1)) (\<lambda>_. preturn (f \<noteq> 0)))"

text \<open>An 8-bit count with its limit, then that many elements.\<close>

definition read_counted :: "exn \<Rightarrow> nat \<Rightarrow> 'a parser \<Rightarrow> 'a list parser" where
  "read_counted e limit p = pbind reader_get (\<lambda>count :: byte.
     pbind (prequire e (unat count \<le> limit)) (\<lambda>_. prepeat (unat count) p))"

section \<open>What a read returns, and what it must have read\<close>

lemma reader_bytes_append [parse_intros]: "length a = n \<Longrightarrow> reader_bytes n (a @ rest) = Inr (a, rest)"
  by (simp add: reader_bytes_def read_exact_append)

lemma reader_bytes_all [parse_intros]: "length a = n \<Longrightarrow> reader_bytes n a = Inr (a, [])"
  by (simp add: reader_bytes_def read_exact_all)

lemma reader_bytes_dest [parse_dests]:
  "reader_bytes n r = Inr (a, rest) \<Longrightarrow> r = a @ rest \<and> length a = n"
  by (simp add: reader_bytes_def read_exact_dest)

lemma reader_array_append [parse_intros]: "length a = n \<Longrightarrow> reader_array n (a @ rest) = Inr (a, rest)"
  by (simp add: reader_array_def parse_intros)

lemma reader_array_all [parse_intros]: "length a = n \<Longrightarrow> reader_array n a = Inr (a, [])"
  by (simp add: reader_array_def parse_intros)

lemma reader_array_dest [parse_dests]:
  "reader_array n r = Inr (a, rest) \<Longrightarrow> r = a @ rest \<and> length a = n"
  by (auto simp: reader_array_def pbind_Inr_iff dest: reader_bytes_dest)

lemma reader_get_append [parse_intros]:
  "8 dvd LENGTH('a::len) \<Longrightarrow> reader_get (put (w :: 'a word) @ rest) = Inr (w, rest)"
  by (simp add: reader_get_def parse_intros be_value_put)

lemma reader_get_all [parse_intros]:
  "8 dvd LENGTH('a::len) \<Longrightarrow> reader_get (put (w :: 'a word)) = Inr (w, [])"
  by (simp add: reader_get_def parse_intros be_value_put)

lemma reader_get_dest [parse_dests]:
  "reader_get r = Inr (w :: 'a::len word, rest) \<Longrightarrow> r = put w @ rest"
  by (auto simp: reader_get_def pbind_Inr_iff put_be_value dest!: reader_bytes_dest)

lemma reader_finish_simp [simp]:
  "reader_finish [] = Inr ((), [])"
  "reader_finish r = Inr (u, r') \<longleftrightarrow> r = [] \<and> r' = []"
  by (simp_all add: reader_finish_def)

lemma byte_le_1: "(f :: byte) \<le> 1 \<longleftrightarrow> f = 0 \<or> f = 1"
proof -
  have "f \<le> 1 \<longleftrightarrow> unat f \<le> 1" by (simp only: word_le_nat_alt unat_1)
  moreover have "f = 0 \<longleftrightarrow> unat f = 0" by (simp only: word_unat_eq_iff unat_0)
  moreover have "f = 1 \<longleftrightarrow> unat f = 1" by (simp only: word_unat_eq_iff unat_1)
  ultimately show ?thesis by arith
qed

lemma read_flag_append [parse_intros]: "read_flag e (put_bool b @ rest) = Inr (b, rest)"
  unfolding read_flag_def put_bool_def
  by (simp add: parse_intros byte_le_1 del: put_byte)

lemma read_flag_dest [parse_dests]: "read_flag e r = Inr (b, rest) \<Longrightarrow> r = put_bool b @ rest"
proof -
  assume "read_flag e r = Inr (b, rest)"
  then obtain f :: byte where f: "reader_get r = Inr (f, rest)" and le: "f = 0 \<or> f = 1" and b: "b = (f \<noteq> 0)"
    by (auto simp: read_flag_def pbind_Inr_iff byte_le_1 split: if_splits)
  from le b have "f = (if b then 1 else 0)" by auto
  with reader_get_dest [OF f] show ?thesis unfolding put_bool_def by simp
qed

lemma read_counted_append [parse_intros]:
  assumes "\<And>x rest. x \<in> set xs \<Longrightarrow> p (enc x @ rest) = Inr (x, rest)"
    and "length xs \<le> limit" and "limit < 256"
  shows "read_counted e limit p (put (word_of_nat (length xs) :: byte) @ concat (map enc xs) @ rest) = Inr (xs, rest)"
  using assms
  by (simp add: read_counted_def parse_intros unat_of_nat_size prepeat_append [where enc = enc] del: put_byte)

lemma read_counted_dest:
  assumes "read_counted e limit p r = Inr (xs, rest)"
    and "\<And>r x r'. p r = Inr (x, r') \<Longrightarrow> r = enc x @ r' \<and> P x"
  shows "r = put (word_of_nat (length xs) :: byte) @ concat (map enc xs) @ rest \<and>
    length xs \<le> limit \<and> list_all P xs"
proof -
  from assms(1) obtain count :: byte and r1 where c: "reader_get r = Inr (count, r1)"
    and le: "unat count \<le> limit" and xs: "prepeat (unat count) p r1 = Inr (xs, rest)"
    by (auto simp: read_counted_def pbind_Inr_iff split: if_splits)
  from prepeat_dest [OF xs assms(2)] reader_get_dest [OF c] le show ?thesis by auto
qed

lemma reader_bytes_iff [wire_iff]: "reader_bytes n r = Inr (a, rest) \<longleftrightarrow> r = a @ rest \<and> length a = n"
  by (simp add: reader_bytes_def wire_iff)

lemma reader_array_iff [wire_iff]: "reader_array n r = Inr (a, rest) \<longleftrightarrow> r = a @ rest \<and> length a = n"
  by (auto simp: reader_array_def pbind_Inr_iff wire_iff)

lemma reader_get_read_word: "reader_get = read_word (Invalid_argument ''truncated protocol payload'')"
  by (simp add: reader_get_def read_word_def reader_bytes_def)

lemma reader_get_iffs [wire_iff]:
  "reader_get r = Inr (a :: 8 word, rest) \<longleftrightarrow> r = a # rest"
  "reader_get r = Inr (b :: 16 word, rest) \<longleftrightarrow> r = put b @ rest"
  "reader_get r = Inr (c :: 32 word, rest) \<longleftrightarrow> r = put c @ rest"
  "reader_get r = Inr (d :: 64 word, rest) \<longleftrightarrow> r = put d @ rest"
  by (simp_all add: reader_get_read_word read_word_iffs)

lemma reader_get_byte [parse_intros]: "reader_get ((w :: byte) # rest) = Inr (w, rest)"
  by (simp add: wire_iff)

lemma put_bool_eval: "put_bool b = [if b then 1 else 0]"
  by (simp add: put_bool_def)

lemma read_flag_iff [wire_iff]: "read_flag e r = Inr (b, rest) \<longleftrightarrow> r = put_bool b @ rest"
  using read_flag_append [of e b rest] read_flag_dest [of e r b rest] by auto

lemma read_counted_iff:
  assumes "\<And>r x r'. p r = Inr (x, r') \<longleftrightarrow> r = enc x @ r' \<and> P x" and "limit < 256"
  shows "read_counted e limit p r = Inr (xs, rest) \<longleftrightarrow>
    r = put (word_of_nat (length xs) :: byte) @ concat (map enc xs) @ rest \<and> length xs \<le> limit \<and> list_all P xs"
proof
  assume "read_counted e limit p r = Inr (xs, rest)"
  then show "r = put (word_of_nat (length xs) :: byte) @ concat (map enc xs) @ rest \<and> length xs \<le> limit \<and> list_all P xs"
    by (rule read_counted_dest) (simp add: assms(1))
next
  assume "r = put (word_of_nat (length xs) :: byte) @ concat (map enc xs) @ rest \<and> length xs \<le> limit \<and> list_all P xs"
  then show "read_counted e limit p r = Inr (xs, rest)"
    using assms by (auto simp: list_all_iff simp del: put_byte intro!: read_counted_append)
qed

lemmas wire_steps = parse_intros parse_all_def res_bind_Inr_iff
lemmas wire_reads = pbind_Inr_iff parse_all_Inr_iff wire_iff res_bind_Inr_iff

end
