(* ===== verification/Network_Types.thy ===== *)
theory Network_Types
  imports Binary
begin

text \<open>
  \<open>network_messages.hpp\<close>: the identifiers, enumerations and their names, and the rule for
  network names (\<open>valid_network_name\<close>: 1 to 128 bytes of UTF-8 without control characters).
  An enumeration read from the wire by \<open>static_cast\<close> may hold a value no enumerator names;
  that value is kept by the constructor \<open>..._unlisted\<close>.
\<close>

type_synonym NetworkId = bytes
type_synonym NetworkDeviceId = bytes

definition network_id_size :: nat where "network_id_size = 16"
definition network_device_id_size :: nat where "network_device_id_size = 32"
definition max_network_name_size :: nat where "max_network_name_size = 128"
definition max_network_list_entries :: nat where "max_network_list_entries = 1024"
definition max_network_peer_entries :: nat where "max_network_peer_entries = 253"

lemmas network_sizes = network_id_size_def network_device_id_size_def max_network_name_size_def
  max_network_list_entries_def max_network_peer_entries_def

section \<open>Enumerations\<close>

datatype NetworkRole = NR_member | NR_owner | NR_unlisted byte

datatype NetworkOperation =
    Op_create | Op_list | Op_join | Op_leave | Op_invite | Op_approve | Op_kick | Op_peer_state
  | Op_key_publish | Op_unlisted byte

datatype NetworkResultCode =
    RC_success | RC_pending_approval | RC_invalid_request | RC_not_found | RC_already_exists
  | RC_not_member | RC_permission_denied | RC_invite_required | RC_target_not_found
  | RC_limit_reached | RC_conflict | RC_internal_error | RC_unlisted "16 word"

datatype NetworkEventKind =
    EK_invited | EK_join_requested | EK_member_joined | EK_member_left | EK_member_kicked
  | EK_unlisted byte

fun network_role_raw :: "NetworkRole \<Rightarrow> byte" where
  "network_role_raw NR_member = 0"
| "network_role_raw NR_owner = 1"
| "network_role_raw (NR_unlisted raw) = raw"

definition network_role_of_raw :: "byte \<Rightarrow> NetworkRole" where
  "network_role_of_raw raw = (if raw = 0 then NR_member else if raw = 1 then NR_owner else NR_unlisted raw)"

fun network_operation_raw :: "NetworkOperation \<Rightarrow> byte" where
  "network_operation_raw Op_create = 1"
| "network_operation_raw Op_list = 2"
| "network_operation_raw Op_join = 3"
| "network_operation_raw Op_leave = 4"
| "network_operation_raw Op_invite = 5"
| "network_operation_raw Op_approve = 6"
| "network_operation_raw Op_kick = 7"
| "network_operation_raw Op_peer_state = 8"
| "network_operation_raw Op_key_publish = 9"
| "network_operation_raw (Op_unlisted raw) = raw"

definition network_operation_of_raw :: "byte \<Rightarrow> NetworkOperation" where
  "network_operation_of_raw raw =
     (if raw = 1 then Op_create else if raw = 2 then Op_list else if raw = 3 then Op_join
      else if raw = 4 then Op_leave else if raw = 5 then Op_invite else if raw = 6 then Op_approve
      else if raw = 7 then Op_kick else if raw = 8 then Op_peer_state
      else if raw = 9 then Op_key_publish else Op_unlisted raw)"

fun network_result_code_raw :: "NetworkResultCode \<Rightarrow> 16 word" where
  "network_result_code_raw RC_success = 0"
| "network_result_code_raw RC_pending_approval = 1"
| "network_result_code_raw RC_invalid_request = 2"
| "network_result_code_raw RC_not_found = 3"
| "network_result_code_raw RC_already_exists = 4"
| "network_result_code_raw RC_not_member = 5"
| "network_result_code_raw RC_permission_denied = 6"
| "network_result_code_raw RC_invite_required = 7"
| "network_result_code_raw RC_target_not_found = 8"
| "network_result_code_raw RC_limit_reached = 9"
| "network_result_code_raw RC_conflict = 10"
| "network_result_code_raw RC_internal_error = 11"
| "network_result_code_raw (RC_unlisted raw) = raw"

definition network_result_code_of_raw :: "16 word \<Rightarrow> NetworkResultCode" where
  "network_result_code_of_raw raw =
     (if raw = 0 then RC_success else if raw = 1 then RC_pending_approval
      else if raw = 2 then RC_invalid_request else if raw = 3 then RC_not_found
      else if raw = 4 then RC_already_exists else if raw = 5 then RC_not_member
      else if raw = 6 then RC_permission_denied else if raw = 7 then RC_invite_required
      else if raw = 8 then RC_target_not_found else if raw = 9 then RC_limit_reached
      else if raw = 10 then RC_conflict else if raw = 11 then RC_internal_error else RC_unlisted raw)"

fun network_event_kind_raw :: "NetworkEventKind \<Rightarrow> byte" where
  "network_event_kind_raw EK_invited = 1"
| "network_event_kind_raw EK_join_requested = 2"
| "network_event_kind_raw EK_member_joined = 3"
| "network_event_kind_raw EK_member_left = 4"
| "network_event_kind_raw EK_member_kicked = 5"
| "network_event_kind_raw (EK_unlisted raw) = raw"

definition network_event_kind_of_raw :: "byte \<Rightarrow> NetworkEventKind" where
  "network_event_kind_of_raw raw =
     (if raw = 1 then EK_invited else if raw = 2 then EK_join_requested
      else if raw = 3 then EK_member_joined else if raw = 4 then EK_member_left
      else if raw = 5 then EK_member_kicked else EK_unlisted raw)"

fun is_known_network_operation :: "NetworkOperation \<Rightarrow> bool" where
  "is_known_network_operation (Op_unlisted raw) = False"
| "is_known_network_operation _ = True"

fun is_known_network_result_code :: "NetworkResultCode \<Rightarrow> bool" where
  "is_known_network_result_code (RC_unlisted raw) = False"
| "is_known_network_result_code _ = True"

fun is_known_network_event_kind :: "NetworkEventKind \<Rightarrow> bool" where
  "is_known_network_event_kind (EK_unlisted raw) = False"
| "is_known_network_event_kind _ = True"

fun network_operation_name :: "NetworkOperation \<Rightarrow> string" where
  "network_operation_name Op_create = ''create''"
| "network_operation_name Op_list = ''list''"
| "network_operation_name Op_join = ''join''"
| "network_operation_name Op_leave = ''leave''"
| "network_operation_name Op_invite = ''invite''"
| "network_operation_name Op_approve = ''approve''"
| "network_operation_name Op_kick = ''kick''"
| "network_operation_name Op_peer_state = ''peer_state''"
| "network_operation_name Op_key_publish = ''key_publish''"
| "network_operation_name (Op_unlisted raw) = ''unknown''"

fun network_result_code_name :: "NetworkResultCode \<Rightarrow> string" where
  "network_result_code_name RC_success = ''success''"
| "network_result_code_name RC_pending_approval = ''pending_approval''"
| "network_result_code_name RC_invalid_request = ''invalid_request''"
| "network_result_code_name RC_not_found = ''not_found''"
| "network_result_code_name RC_already_exists = ''already_exists''"
| "network_result_code_name RC_not_member = ''not_member''"
| "network_result_code_name RC_permission_denied = ''permission_denied''"
| "network_result_code_name RC_invite_required = ''invite_required''"
| "network_result_code_name RC_target_not_found = ''target_not_found''"
| "network_result_code_name RC_limit_reached = ''limit_reached''"
| "network_result_code_name RC_conflict = ''conflict''"
| "network_result_code_name RC_internal_error = ''internal_error''"
| "network_result_code_name (RC_unlisted raw) = ''unknown''"

fun network_event_kind_name :: "NetworkEventKind \<Rightarrow> string" where
  "network_event_kind_name EK_invited = ''invited''"
| "network_event_kind_name EK_join_requested = ''join_requested''"
| "network_event_kind_name EK_member_joined = ''member_joined''"
| "network_event_kind_name EK_member_left = ''member_left''"
| "network_event_kind_name EK_member_kicked = ''member_kicked''"
| "network_event_kind_name (EK_unlisted raw) = ''unknown''"

text \<open>A value of the enumeration: what \<open>static_cast\<close> gives for its own raw value.\<close>

abbreviation role_canonical :: "NetworkRole \<Rightarrow> bool" where
  "role_canonical r \<equiv> network_role_of_raw (network_role_raw r) = r"

lemma raw_of_raw [simp]:
  "network_role_raw (network_role_of_raw b) = b"
  "network_operation_raw (network_operation_of_raw b) = b"
  "network_result_code_raw (network_result_code_of_raw c) = c"
  "network_event_kind_raw (network_event_kind_of_raw b) = b"
  by (simp_all add: network_role_of_raw_def network_operation_of_raw_def network_result_code_of_raw_def
      network_event_kind_of_raw_def)

lemma known_operation_of_raw [simp]:
  "is_known_network_operation op \<Longrightarrow> network_operation_of_raw (network_operation_raw op) = op"
  by (cases op) (simp_all add: network_operation_of_raw_def)

lemma known_result_code_of_raw [simp]:
  "is_known_network_result_code code \<Longrightarrow> network_result_code_of_raw (network_result_code_raw code) = code"
  by (cases code) (simp_all add: network_result_code_of_raw_def)

lemma known_event_kind_of_raw [simp]:
  "is_known_network_event_kind kind \<Longrightarrow> network_event_kind_of_raw (network_event_kind_raw kind) = kind"
  by (cases kind) (simp_all add: network_event_kind_of_raw_def)

section \<open>Network names\<close>

text \<open>
  The continuation loop: \<open>code_point = (code_point << 6) | (next & 0x3f)\<close>, left with
  \<open>return false\<close> (\<open>None\<close>) at a byte that is no continuation byte.
\<close>

fun read_continuation :: "32 word \<Rightarrow> bytes \<Rightarrow> 32 word option" where
  "read_continuation code_point [] = Some code_point"
| "read_continuation code_point (next # rest) =
     (if next AND 0xc0 \<noteq> 0x80 then None
      else read_continuation (push_bit 6 code_point OR ucast (next AND 0x3f)) rest)"

text \<open>The lead byte: its payload bits and the number of continuation bytes, or \<open>return false\<close>.\<close>

definition lead_byte :: "byte \<Rightarrow> (32 word \<times> nat) option" where
  "lead_byte first =
     (if first \<le> 0x7f then Some (ucast first, 0)
      else if first \<ge> 0xc2 \<and> first \<le> 0xdf then Some (ucast (first AND 0x1f), 1)
      else if first \<ge> 0xe0 \<and> first \<le> 0xef then Some (ucast (first AND 0x0f), 2)
      else if first \<ge> 0xf0 \<and> first \<le> 0xf4 then Some (ucast (first AND 0x07), 3)
      else None)"

definition code_point_ok :: "nat \<Rightarrow> 32 word \<Rightarrow> bool" where
  "code_point_ok continuation_count code_point \<longleftrightarrow>
     (let overlong = (continuation_count = 1 \<and> code_point < 0x80) \<or>
            (continuation_count = 2 \<and> code_point < 0x800) \<or>
            (continuation_count = 3 \<and> code_point < 0x10000);
          surrogate = code_point \<ge> 0xd800 \<and> code_point \<le> 0xdfff;
          control = code_point < 0x20 \<or> (code_point \<ge> 0x7f \<and> code_point \<le> 0x9f)
      in \<not> (overlong \<or> surrogate \<or> code_point > 0x10ffff \<or> control))"

text \<open>The loop over the name; the argument is the part of the name from \<open>offset\<close> on.\<close>

function (sequential) valid_utf8 :: "bytes \<Rightarrow> bool" where
  "valid_utf8 [] = True"
| "valid_utf8 (first # rest) =
     (case lead_byte first of None \<Rightarrow> False
      | Some (bits, continuation_count) \<Rightarrow>
          if continuation_count > length rest then False
          else (case read_continuation bits (take continuation_count rest) of None \<Rightarrow> False
            | Some code_point \<Rightarrow>
                if \<not> code_point_ok continuation_count code_point then False
                else valid_utf8 (drop continuation_count rest)))"
  by pat_completeness auto
termination by (relation "measure length") (auto simp: less_Suc_eq_le)

definition valid_network_name :: "bytes \<Rightarrow> bool" where
  "valid_network_name name =
     (if name = [] \<or> length name > max_network_name_size then False else valid_utf8 name)"

end
