(* ===== verification/Network_Messages.thy ===== *)
theory Network_Messages
  imports Network_Types
begin

text \<open>
  \<open>src/protocol/network_messages.cpp\<close>: the requests, results, network lists and events of the
  control channel. Every pair \<open>encode_...\<close>/\<open>decode_...\<close> implements the contract \<open>wire_codec\<close>.
  The class \<open>Reader\<close> of that file is a reader of \<open>Prelude\<close> with its own exceptions.
\<close>

section \<open>The reader\<close>

definition net_truncated :: exn where
  "net_truncated = Runtime_error ''network payload is truncated''"

definition net_integer :: "'a::len word parser" where
  "net_integer = read_word net_truncated"

definition net_array :: "nat \<Rightarrow> bytes parser" where
  "net_array count = read_exact net_truncated count"

definition net_string :: "nat \<Rightarrow> bytes parser" where
  "net_string count = read_exact net_truncated count"

definition require_finished :: "unit parser" where
  "require_finished = pfinish (Runtime_error ''network payload contains trailing bytes'')"

lemmas net_reader_defs = net_integer_def net_array_def net_string_def require_finished_def

definition require_network_id_for_encode :: "NetworkId \<Rightarrow> unit res" where
  "require_network_id_for_encode network_id =
     require (Invalid_argument ''network id must not be zero'') (\<not> is_zero network_id)"

definition require_device_id_for_encode :: "NetworkDeviceId \<Rightarrow> unit res" where
  "require_device_id_for_encode device_id =
     require (Invalid_argument ''network device id must not be zero'') (\<not> is_zero device_id)"

definition require_network_id_for_decode :: "NetworkId \<Rightarrow> unit res" where
  "require_network_id_for_decode network_id =
     require (Runtime_error ''network payload contains a zero network id'') (\<not> is_zero network_id)"

definition require_device_id_for_decode :: "NetworkDeviceId \<Rightarrow> unit res" where
  "require_device_id_for_decode device_id =
     require (Runtime_error ''network payload contains a zero device id'') (\<not> is_zero device_id)"

lemma require_ids_iff [simp]:
  "require_network_id_for_encode i = Inr u \<longleftrightarrow> \<not> is_zero i"
  "require_device_id_for_encode i = Inr u \<longleftrightarrow> \<not> is_zero i"
  "require_network_id_for_decode i = Inr u \<longleftrightarrow> \<not> is_zero i"
  "require_device_id_for_decode i = Inr u \<longleftrightarrow> \<not> is_zero i"
  by (simp_all add: require_network_id_for_encode_def require_device_id_for_encode_def
      require_network_id_for_decode_def require_device_id_for_decode_def)

section \<open>Messages\<close>

record NetworkCreateRequest =
  create_name :: bytes

datatype NetworkListRequest = NetworkListRequest

record NetworkSelectionRequest =
  selection_network :: NetworkId

record NetworkMemberRequest =
  target_network :: NetworkId
  target_device :: NetworkDeviceId

record NetworkOperationResult =
  result_operation :: NetworkOperation
  result_code :: NetworkResultCode
  result_network :: NetworkId

text \<open>\<open>created_at_ms\<close> is a signed 64-bit integer: a word read by \<open>sint\<close>.\<close>

record NetworkSummary =
  summary_network :: NetworkId
  summary_owner :: NetworkDeviceId
  summary_role :: NetworkRole
  summary_created_at_ms :: "64 word"
  summary_member_count :: "32 word"
  summary_name :: bytes

record NetworkListResult =
  listed_networks :: "NetworkSummary list"

record NetworkEvent =
  event_kind :: NetworkEventKind
  event_network :: NetworkId
  event_device :: NetworkDeviceId

lemma record_eta [simp]:
  "\<lparr>result_operation = result_operation r, result_code = result_code r, result_network = result_network r\<rparr> = r"
  "\<lparr>summary_network = summary_network s, summary_owner = summary_owner s, summary_role = summary_role s,
     summary_created_at_ms = summary_created_at_ms s, summary_member_count = summary_member_count s,
     summary_name = summary_name s\<rparr> = s"
  by simp_all

section \<open>Encoders and decoders\<close>

definition encode_network_create_request :: "NetworkCreateRequest \<Rightarrow> bytes res" where
  "encode_network_create_request request =
     res_bind (require (Invalid_argument ''network name is invalid'') (valid_network_name (create_name request)))
       (\<lambda>_. Inr (put (word_of_nat (length (create_name request)) :: 16 word) @ create_name request))"

definition decode_network_create_request :: "bytes \<Rightarrow> NetworkCreateRequest res" where
  "decode_network_create_request = parse_all (
     pbind net_integer (\<lambda>name_size :: 16 word.
     pbind (net_string (unat name_size)) (\<lambda>name.
     pbind require_finished (\<lambda>_.
     pbind (prequire (Runtime_error ''network create request contains an invalid name'') (valid_network_name name)) (\<lambda>_.
     preturn \<lparr>create_name = name\<rparr>)))))"

definition encode_network_list_request :: "NetworkListRequest \<Rightarrow> bytes res" where
  "encode_network_list_request _ = Inr []"

definition decode_network_list_request :: "bytes \<Rightarrow> NetworkListRequest res" where
  "decode_network_list_request data =
     (if data \<noteq> [] then Inl (Runtime_error ''network list request must be empty'') else Inr NetworkListRequest)"

definition encode_network_selection_request :: "NetworkSelectionRequest \<Rightarrow> bytes res" where
  "encode_network_selection_request request =
     res_bind (require_network_id_for_encode (selection_network request)) (\<lambda>_. Inr (selection_network request))"

text \<open>The guard \<open>payload.size() != expected\<close> in front of a decoder.\<close>

definition sized :: "exn \<Rightarrow> nat \<Rightarrow> 'a parser \<Rightarrow> bytes \<Rightarrow> 'a res" where
  "sized e n p data = (if length data \<noteq> n then Inl e else parse_all p data)"

definition decode_network_selection_request :: "bytes \<Rightarrow> NetworkSelectionRequest res" where
  "decode_network_selection_request =
     sized (Runtime_error ''network selection request has an invalid size'') network_id_size (
     pbind (net_array network_id_size) (\<lambda>network_id.
     pbind require_finished (\<lambda>_.
     pbind (plift (require_network_id_for_decode network_id)) (\<lambda>_.
     preturn \<lparr>selection_network = network_id\<rparr>))))"

definition encode_network_member_request :: "NetworkMemberRequest \<Rightarrow> bytes res" where
  "encode_network_member_request request =
     res_bind (require_network_id_for_encode (target_network request)) (\<lambda>_.
     res_bind (require_device_id_for_encode (target_device request)) (\<lambda>_.
       Inr (target_network request @ target_device request)))"

definition decode_network_member_request :: "bytes \<Rightarrow> NetworkMemberRequest res" where
  "decode_network_member_request =
     sized (Runtime_error ''network member request has an invalid size'') (network_id_size + network_device_id_size) (
     pbind (net_array network_id_size) (\<lambda>network_id.
     pbind (net_array network_device_id_size) (\<lambda>device_id.
     pbind require_finished (\<lambda>_.
     pbind (plift (require_network_id_for_decode network_id)) (\<lambda>_.
     pbind (plift (require_device_id_for_decode device_id)) (\<lambda>_.
     preturn \<lparr>target_network = network_id, target_device = device_id\<rparr>))))))"

definition validate_result_for_encode :: "NetworkOperationResult \<Rightarrow> unit res" where
  "validate_result_for_encode r =
     (if \<not> is_known_network_operation (result_operation r) then Inl (Invalid_argument ''unknown network operation'')
      else if \<not> is_known_network_result_code (result_code r) then Inl (Invalid_argument ''unknown network result code'')
      else if result_code r = RC_pending_approval \<and> result_operation r \<noteq> Op_join
        then Inl (Invalid_argument ''pending approval is only valid for join operations'')
      else if result_operation r = Op_list
        then if \<not> is_zero (result_network r)
          then Inl (Invalid_argument ''list result must not contain a network id'') else Inr ()
      else if result_operation r = Op_create \<and> result_code r \<noteq> RC_success
        then if \<not> is_zero (result_network r)
          then Inl (Invalid_argument ''failed create result must not contain a network id'') else Inr ()
      else require_network_id_for_encode (result_network r))"

definition validate_result_for_decode :: "NetworkOperationResult \<Rightarrow> unit res" where
  "validate_result_for_decode r =
     (if \<not> is_known_network_operation (result_operation r) \<or> \<not> is_known_network_result_code (result_code r)
        then Inl (Runtime_error ''network operation result contains an unknown value'')
      else if result_code r = RC_pending_approval \<and> result_operation r \<noteq> Op_join
        then Inl (Runtime_error ''network operation result has invalid pending state'')
      else if result_operation r = Op_list
        then if \<not> is_zero (result_network r)
          then Inl (Runtime_error ''network list result contains an unexpected id'') else Inr ()
      else if result_operation r = Op_create \<and> result_code r \<noteq> RC_success
        then if \<not> is_zero (result_network r)
          then Inl (Runtime_error ''failed network create result contains an id'') else Inr ()
      else require_network_id_for_decode (result_network r))"

definition encode_network_operation_result :: "NetworkOperationResult \<Rightarrow> bytes res" where
  "encode_network_operation_result r = res_bind (validate_result_for_encode r) (\<lambda>_.
     Inr (put (network_operation_raw (result_operation r)) @ put (network_result_code_raw (result_code r))
       @ result_network r))"

definition decode_network_operation_result :: "bytes \<Rightarrow> NetworkOperationResult res" where
  "decode_network_operation_result =
     sized (Runtime_error ''network operation result has an invalid size'') (1 + 2 + network_id_size) (
     pbind net_integer (\<lambda>op.
     pbind net_integer (\<lambda>code.
     pbind (net_array network_id_size) (\<lambda>network_id.
     pbind require_finished (\<lambda>_.
     let r = \<lparr>result_operation = network_operation_of_raw op, result_code = network_result_code_of_raw code,
              result_network = network_id\<rparr> in
     pbind (plift (validate_result_for_decode r)) (\<lambda>_. preturn r))))))"

definition encode_network_event :: "NetworkEvent \<Rightarrow> bytes res" where
  "encode_network_event ev =
     res_bind (require (Invalid_argument ''unknown network event kind'') (is_known_network_event_kind (event_kind ev))) (\<lambda>_.
     res_bind (require_network_id_for_encode (event_network ev)) (\<lambda>_.
     res_bind (require_device_id_for_encode (event_device ev)) (\<lambda>_.
       Inr (put (network_event_kind_raw (event_kind ev)) @ event_network ev @ event_device ev))))"

definition decode_network_event :: "bytes \<Rightarrow> NetworkEvent res" where
  "decode_network_event =
     sized (Runtime_error ''network event has an invalid size'') (1 + network_id_size + network_device_id_size) (
     pbind net_integer (\<lambda>kind.
     pbind (net_array network_id_size) (\<lambda>network_id.
     pbind (net_array network_device_id_size) (\<lambda>device_id.
     pbind require_finished (\<lambda>_.
     pbind (prequire (Runtime_error ''network event contains an unknown kind'')
       (is_known_network_event_kind (network_event_kind_of_raw kind))) (\<lambda>_.
     pbind (plift (require_network_id_for_decode network_id)) (\<lambda>_.
     pbind (plift (require_device_id_for_decode device_id)) (\<lambda>_.
     preturn \<lparr>event_kind = network_event_kind_of_raw kind, event_network = network_id,
              event_device = device_id\<rparr>))))))))"

definition summary_role_ok :: "NetworkSummary \<Rightarrow> bool" where
  "summary_role_ok s \<longleftrightarrow> summary_role s = NR_member \<or> summary_role s = NR_owner"

definition validate_summary_for_encode :: "NetworkSummary \<Rightarrow> unit res" where
  "validate_summary_for_encode s =
     res_bind (require_network_id_for_encode (summary_network s)) (\<lambda>_.
     res_bind (require_device_id_for_encode (summary_owner s)) (\<lambda>_.
     res_bind (require (Invalid_argument ''unknown network role'') (summary_role_ok s)) (\<lambda>_.
     res_bind (require (Invalid_argument ''network creation timestamp must not be negative'')
       (\<not> sint (summary_created_at_ms s) < 0)) (\<lambda>_.
     res_bind (require (Invalid_argument ''network member count must be positive'')
       (summary_member_count s \<noteq> 0)) (\<lambda>_.
     require (Invalid_argument ''network name is invalid'') (valid_network_name (summary_name s)))))))"

definition validate_summary_for_decode :: "NetworkSummary \<Rightarrow> unit res" where
  "validate_summary_for_decode s =
     res_bind (require_network_id_for_decode (summary_network s)) (\<lambda>_.
     res_bind (require_device_id_for_decode (summary_owner s)) (\<lambda>_.
     res_bind (require (Runtime_error ''network summary contains an unknown role'') (summary_role_ok s)) (\<lambda>_.
     require (Runtime_error ''network summary contains invalid fields'')
       (\<not> (sint (summary_created_at_ms s) < 0 \<or> summary_member_count s = 0 \<or>
          \<not> valid_network_name (summary_name s))))))"

definition contains_network_id :: "NetworkSummary list \<Rightarrow> NetworkId \<Rightarrow> bool" where
  "contains_network_id values network_id \<longleftrightarrow> list_ex (\<lambda>s. summary_network s = network_id) values"

definition append_summary :: "NetworkSummary \<Rightarrow> bytes res" where
  "append_summary s = res_bind (validate_summary_for_encode s) (\<lambda>_.
     Inr (summary_network s @ summary_owner s @ put (network_role_raw (summary_role s))
       @ put (summary_created_at_ms s) @ put (summary_member_count s)
       @ put (word_of_nat (length (summary_name s)) :: 16 word) @ summary_name s))"

definition read_summary :: "NetworkSummary parser" where
  "read_summary =
     pbind (net_array network_id_size) (\<lambda>network_id.
     pbind (net_array network_device_id_size) (\<lambda>owner.
     pbind net_integer (\<lambda>role.
     pbind net_integer (\<lambda>timestamp :: 64 word.
     pbind (prequire (Runtime_error ''network creation timestamp is out of range'')
       (\<not> timestamp > 0x7fffffffffffffff)) (\<lambda>_.
     pbind net_integer (\<lambda>count.
     pbind net_integer (\<lambda>name_size :: 16 word.
     pbind (net_string (unat name_size)) (\<lambda>name.
     let s = \<lparr>summary_network = network_id, summary_owner = owner, summary_role = network_role_of_raw role,
              summary_created_at_ms = timestamp, summary_member_count = count, summary_name = name\<rparr> in
     pbind (plift (validate_summary_for_decode s)) (\<lambda>_. preturn s)))))))))"

text \<open>The loops over the summaries; \<open>validated\<close> are the summaries already handled.\<close>

fun encode_summaries :: "NetworkSummary list \<Rightarrow> NetworkSummary list \<Rightarrow> bytes res" where
  "encode_summaries validated [] = Inr []"
| "encode_summaries validated (s # rest) =
     (if contains_network_id validated (summary_network s)
      then Inl (Invalid_argument ''network list contains a duplicate id'')
      else res_bind (append_summary s) (\<lambda>a.
        res_bind (encode_summaries (validated @ [s]) rest) (\<lambda>b. Inr (a @ b))))"

fun read_summaries :: "nat \<Rightarrow> NetworkSummary list \<Rightarrow> NetworkSummary list parser" where
  "read_summaries 0 networks = preturn networks"
| "read_summaries (Suc n) networks = pbind read_summary (\<lambda>s.
     if contains_network_id networks (summary_network s)
     then plift (Inl (Runtime_error ''network list contains a duplicate id''))
     else read_summaries n (networks @ [s]))"

definition encode_network_list_result :: "NetworkListResult \<Rightarrow> bytes res" where
  "encode_network_list_result r =
     res_bind (require (Length_error ''network list contains too many entries'')
       (\<not> length (listed_networks r) > max_network_list_entries)) (\<lambda>_.
     res_bind (encode_summaries [] (listed_networks r)) (\<lambda>body.
       Inr (put (word_of_nat (length (listed_networks r)) :: 16 word) @ body)))"

definition decode_network_list_result :: "bytes \<Rightarrow> NetworkListResult res" where
  "decode_network_list_result = parse_all (
     pbind net_integer (\<lambda>count :: 16 word.
     pbind (prequire (Runtime_error ''network list contains too many entries'')
       (\<not> unat count > max_network_list_entries)) (\<lambda>_.
     pbind (read_summaries (unat count) []) (\<lambda>networks.
     pbind require_finished (\<lambda>_.
     preturn \<lparr>listed_networks = networks\<rparr>)))))"

section \<open>The fixed-size messages are canonical\<close>

lemma sized_Inr_iff: "sized e n p data = Inr x \<longleftrightarrow> length data = n \<and> (\<exists>r. p data = Inr (x, r))"
  by (auto simp: sized_def parse_all_Inr_iff)

lemma validate_result_iff:
  "validate_result_for_decode r = Inr u \<longleftrightarrow> validate_result_for_encode r = Inr u"
  by (simp add: validate_result_for_decode_def validate_result_for_encode_def)

lemma validate_result_known:
  "validate_result_for_encode r = Inr u \<Longrightarrow>
     is_known_network_operation (result_operation r) \<and> is_known_network_result_code (result_code r)"
  by (simp add: validate_result_for_encode_def split: if_splits)

lemmas net_read_iff = net_reader_defs pbind_Inr_iff sized_Inr_iff parse_all_Inr_iff wire_iff res_bind_Inr_iff network_sizes
lemmas net_steps = net_reader_defs parse_intros sized_def parse_all_def res_bind_Inr_iff network_sizes

interpretation create_request_codec: wire_codec encode_network_create_request decode_network_create_request
  "\<lambda>_. True"
proof unfold_locales
  fix x :: NetworkCreateRequest and bs
  assume "encode_network_create_request x = Inr bs"
  then show "decode_network_create_request bs = Inr x"
    by (cases x) (auto simp: encode_network_create_request_def decode_network_create_request_def
        valid_network_name_def net_steps unat_of_nat_size split: if_splits)
next
  fix x :: NetworkCreateRequest and bs
  assume "decode_network_create_request bs = Inr x"
  then show "True \<and> encode_network_create_request x = Inr bs"
    by (auto simp: encode_network_create_request_def decode_network_create_request_def
        net_read_iff split: if_splits)
qed

interpretation list_request_codec: wire_codec encode_network_list_request decode_network_list_request "\<lambda>_. True"
proof unfold_locales
  fix x :: NetworkListRequest and bs
  show "encode_network_list_request x = Inr bs \<Longrightarrow> decode_network_list_request bs = Inr x"
    by (cases x) (simp add: encode_network_list_request_def decode_network_list_request_def)
qed (simp add: encode_network_list_request_def decode_network_list_request_def split: if_splits)

interpretation selection_codec: wire_codec encode_network_selection_request decode_network_selection_request
  "\<lambda>x. length (selection_network x) = 16"
proof unfold_locales
  fix x :: NetworkSelectionRequest and bs
  show "length (selection_network x) = 16 \<Longrightarrow> encode_network_selection_request x = Inr bs \<Longrightarrow>
      decode_network_selection_request bs = Inr x"
    by (auto simp: encode_network_selection_request_def decode_network_selection_request_def net_steps)
qed (auto simp: encode_network_selection_request_def decode_network_selection_request_def net_read_iff)

interpretation member_request_codec: wire_codec encode_network_member_request decode_network_member_request
  "\<lambda>x. length (target_network x) = 16 \<and> length (target_device x) = 32"
proof unfold_locales
  fix x :: NetworkMemberRequest and bs
  show "length (target_network x) = 16 \<and> length (target_device x) = 32 \<Longrightarrow>
      encode_network_member_request x = Inr bs \<Longrightarrow> decode_network_member_request bs = Inr x"
    by (auto simp: encode_network_member_request_def decode_network_member_request_def net_steps)
qed (auto simp: encode_network_member_request_def decode_network_member_request_def net_read_iff)

interpretation operation_result_codec: wire_codec encode_network_operation_result decode_network_operation_result
  "\<lambda>x. length (result_network x) = 16"
proof unfold_locales
  fix x :: NetworkOperationResult and bs
  show "length (result_network x) = 16 \<Longrightarrow> encode_network_operation_result x = Inr bs \<Longrightarrow>
      decode_network_operation_result bs = Inr x"
    using validate_result_known [of x "()"]
    by (auto simp: encode_network_operation_result_def decode_network_operation_result_def net_steps
        validate_result_iff [THEN iffD2] Let_def)
qed (auto simp: encode_network_operation_result_def decode_network_operation_result_def net_read_iff
      validate_result_iff Let_def)

interpretation event_codec: wire_codec encode_network_event decode_network_event
  "\<lambda>x. length (event_network x) = 16 \<and> length (event_device x) = 32"
proof unfold_locales
  fix x :: NetworkEvent and bs
  show "length (event_network x) = 16 \<and> length (event_device x) = 32 \<Longrightarrow>
      encode_network_event x = Inr bs \<Longrightarrow> decode_network_event bs = Inr x"
    by (auto simp: encode_network_event_def decode_network_event_def net_steps split: if_splits)
qed (auto simp: encode_network_event_def decode_network_event_def net_read_iff split: if_splits)

section \<open>Network lists are canonical\<close>

definition summary_typed :: "NetworkSummary \<Rightarrow> bool" where
  "summary_typed s \<longleftrightarrow> length (summary_network s) = 16 \<and> length (summary_owner s) = 32"

definition summary_layout :: "NetworkSummary \<Rightarrow> bytes" where
  "summary_layout s = summary_network s @ summary_owner s @ put (network_role_raw (summary_role s))
     @ put (summary_created_at_ms s) @ put (summary_member_count s)
     @ put (word_of_nat (length (summary_name s)) :: 16 word) @ summary_name s"

definition summary_valid :: "NetworkSummary \<Rightarrow> bool" where
  "summary_valid s \<longleftrightarrow> \<not> is_zero (summary_network s) \<and> \<not> is_zero (summary_owner s) \<and>
     summary_role_ok s \<and> \<not> sint (summary_created_at_ms s) < 0 \<and> summary_member_count s \<noteq> 0 \<and>
     valid_network_name (summary_name s)"

lemma append_summary_iff: "append_summary s = Inr a \<longleftrightarrow> summary_valid s \<and> a = summary_layout s"
  by (auto simp: append_summary_def validate_summary_for_encode_def summary_valid_def summary_layout_def
      res_bind_Inr_iff)

lemma validate_summary_for_decode_iff: "validate_summary_for_decode s = Inr u \<longleftrightarrow> summary_valid s"
  by (auto simp: validate_summary_for_decode_def summary_valid_def res_bind_Inr_iff)

lemma signed_nonneg_iff: "(0x7fffffffffffffff :: 64 word) < w \<longleftrightarrow> sint w < 0"
proof -
  have "sint w < 0 \<longleftrightarrow> bit w 63" using bit_last_iff [of w] by simp
  also have "\<dots> \<longleftrightarrow> odd (uint w div 2 ^ 63)" using bit_uint_iff [of w 63] by (simp add: bit_iff_odd)
  also have "\<dots> \<longleftrightarrow> 2 ^ 63 \<le> uint w"
  proof -
    have range: "0 \<le> uint w" "uint w < 2 * 2 ^ 63" using uint_bounded [of w] by simp_all
    show ?thesis
    proof (cases "2 ^ 63 \<le> uint w")
      case True
      then have "uint w div 2 ^ 63 = 1" using range by (intro int_div_pos_eq [where r = "uint w - 2 ^ 63"]) auto
      with True show ?thesis by simp
    next
      case False
      then have "uint w div 2 ^ 63 = 0" using range by (simp add: div_pos_pos_trivial)
      with False show ?thesis by simp
    qed
  qed
  also have "\<dots> \<longleftrightarrow> (0x7fffffffffffffff :: 64 word) < w" by (auto simp: word_less_def)
  finally show ?thesis by blast
qed

lemma read_summary_iff:
  "read_summary r = Inr (s, rest) \<longleftrightarrow> r = summary_layout s @ rest \<and> summary_typed s \<and> summary_valid s"
proof
  assume "read_summary r = Inr (s, rest)"
  then show "r = summary_layout s @ rest \<and> summary_typed s \<and> summary_valid s"
    by (auto simp: read_summary_def net_read_iff Let_def validate_summary_for_decode_iff summary_typed_def
        summary_layout_def split: if_splits)
next
  assume "r = summary_layout s @ rest \<and> summary_typed s \<and> summary_valid s"
  moreover then have "network_role_of_raw (network_role_raw (summary_role s)) = summary_role s"
    by (auto simp: summary_valid_def summary_role_ok_def network_role_of_raw_def)
  moreover have "unat (word_of_nat (length (summary_name s)) :: 16 word) = length (summary_name s)"
    if "valid_network_name (summary_name s)"
    using that by (simp add: valid_network_name_def max_network_name_size_def unat_of_nat_size split: if_splits)
  ultimately show "read_summary r = Inr (s, rest)"
    using validate_summary_for_decode_iff [of s "()"]
    by (simp add: read_summary_def net_steps Let_def summary_typed_def summary_layout_def signed_nonneg_iff
        summary_valid_def)
qed

text \<open>Summaries whose identifiers are new, one after the other.\<close>

lemma contains_network_id_iff: "contains_network_id xs i \<longleftrightarrow> i \<in> summary_network ` set xs"
  by (auto simp: contains_network_id_def list_ex_iff)

lemma encode_summaries_iff:
  "encode_summaries validated xs = Inr a \<longleftrightarrow>
     list_all summary_valid xs \<and> distinct (map summary_network xs) \<and>
     summary_network ` set validated \<inter> summary_network ` set xs = {} \<and>
     a = concat (map summary_layout xs)"
  by (induction xs arbitrary: validated a)
    (auto simp: contains_network_id_iff res_bind_Inr_iff append_summary_iff)

lemma read_summaries_iff:
  "read_summaries n networks r = Inr (xs, rest) \<longleftrightarrow>
     (\<exists>ys. xs = networks @ ys \<and> length ys = n \<and> r = concat (map summary_layout ys) @ rest \<and>
        list_all (\<lambda>s. summary_typed s \<and> summary_valid s) ys \<and> distinct (map summary_network ys) \<and>
        summary_network ` set networks \<inter> summary_network ` set ys = {})"
    (is "?L n networks r \<longleftrightarrow> ?R n networks r")
proof (induction n arbitrary: networks r)
  case 0
  then show ?case by auto
next
  case (Suc n)
  have "?L (Suc n) networks r \<longleftrightarrow> (\<exists>s r'. r = summary_layout s @ r' \<and> summary_typed s \<and> summary_valid s \<and>
      summary_network s \<notin> summary_network ` set networks \<and> ?L n (networks @ [s]) r')"
    by (auto simp: pbind_Inr_iff read_summary_iff contains_network_id_iff split: if_splits)
  also have "\<dots> \<longleftrightarrow> (\<exists>s r' ys. r = summary_layout s @ r' \<and> summary_typed s \<and> summary_valid s \<and>
      summary_network s \<notin> summary_network ` set networks \<and> xs = networks @ s # ys \<and> length ys = n \<and>
      r' = concat (map summary_layout ys) @ rest \<and>
      list_all (\<lambda>s. summary_typed s \<and> summary_valid s) ys \<and> distinct (map summary_network ys) \<and>
      summary_network ` set (networks @ [s]) \<inter> summary_network ` set ys = {})"
    unfolding Suc.IH by auto
  also have "\<dots> \<longleftrightarrow> ?R (Suc n) networks r"
    unfolding length_Suc_conv by (auto; blast)
  finally show ?case .
qed

interpretation list_result_codec: wire_codec encode_network_list_result decode_network_list_result
  "\<lambda>x. list_all summary_typed (listed_networks x)"
proof unfold_locales
  fix x :: NetworkListResult and bs
  assume typed: "list_all summary_typed (listed_networks x)" and enc: "encode_network_list_result x = Inr bs"
  define xs where "xs = listed_networks x"
  have small: "length xs \<le> 1024" and bs: "bs = put (word_of_nat (length xs) :: 16 word) @ concat (map summary_layout xs)"
    and ok: "list_all summary_valid xs" "distinct (map summary_network xs)"
    using enc by (auto simp: encode_network_list_result_def encode_summaries_iff res_bind_Inr_iff xs_def
        network_sizes split: if_splits)
  have "read_summaries (length xs) [] (concat (map summary_layout xs)) = Inr (xs, [])"
    using ok typed by (simp add: read_summaries_iff xs_def list_all_iff)
  with small show "decode_network_list_result bs = Inr x"
    by (simp add: decode_network_list_result_def bs net_steps unat_of_nat_size) (simp add: xs_def)
next
  fix x :: NetworkListResult and bs
  assume "decode_network_list_result bs = Inr x"
  then show "list_all summary_typed (listed_networks x) \<and> encode_network_list_result x = Inr bs"
    by (auto simp: encode_network_list_result_def decode_network_list_result_def encode_summaries_iff
        net_read_iff read_summaries_iff list_all_iff split: if_splits)
qed

text \<open>
  The control messages of a network (create, list, selection and member requests, operation
  results, network lists, events): a payload decodes to a message exactly when the encoder
  produces that payload for that message. Nothing is lost on the way, a second encoding of the
  same message is refused, and what the encoder refuses (zero identifiers, unknown enumeration
  values, bad names, duplicate networks, a pending state outside join) the decoder refuses too.
\<close>

lemma network_messages_roundtrip:
  "(decode_network_create_request b1 = Inr m1 \<longleftrightarrow> encode_network_create_request m1 = Inr b1) \<and>
   (decode_network_list_request b2 = Inr m2 \<longleftrightarrow> encode_network_list_request m2 = Inr b2) \<and>
   (decode_network_selection_request b3 = Inr m3 \<longleftrightarrow>
     length (selection_network m3) = 16 \<and> encode_network_selection_request m3 = Inr b3) \<and>
   (decode_network_member_request b4 = Inr m4 \<longleftrightarrow>
     (length (target_network m4) = 16 \<and> length (target_device m4) = 32) \<and> encode_network_member_request m4 = Inr b4) \<and>
   (decode_network_operation_result b5 = Inr m5 \<longleftrightarrow>
     length (result_network m5) = 16 \<and> encode_network_operation_result m5 = Inr b5) \<and>
   (decode_network_list_result b6 = Inr m6 \<longleftrightarrow>
     list_all summary_typed (listed_networks m6) \<and> encode_network_list_result m6 = Inr b6) \<and>
   (decode_network_event b7 = Inr m7 \<longleftrightarrow>
     (length (event_network m7) = 16 \<and> length (event_device m7) = 32) \<and> encode_network_event m7 = Inr b7)"
  using create_request_codec.dec_iff [of b1 m1] list_request_codec.dec_iff [of b2 m2]
  by (simp only: simp_thms selection_codec.dec_iff member_request_codec.dec_iff
      operation_result_codec.dec_iff list_result_codec.dec_iff event_codec.dec_iff)

end
