(* ===== verification/User_Access.thy ===== *)
theory User_Access
  imports Network_Messages
begin

text \<open>
  \<open>user_access.hpp\<close> and \<open>src/protocol/user_access.cpp\<close>: requests about accounts, devices,
  network passwords and invitation links, and their results. The flag \<open>require_approval\<close> is on
  the wire only from the action \<open>password_set\<close> on.
\<close>

datatype AccessAction =
    AA_account_create | AA_account_status | AA_enrollment_issue | AA_device_enroll | AA_device_revoke
  | AA_password_set | AA_password_join | AA_invite_issue | AA_invite_redeem | AA_invite_revoke
  | AA_network_create_protected | AA_unlisted byte

fun access_action_raw :: "AccessAction \<Rightarrow> byte" where
  "access_action_raw AA_account_create = 1"
| "access_action_raw AA_account_status = 2"
| "access_action_raw AA_enrollment_issue = 3"
| "access_action_raw AA_device_enroll = 4"
| "access_action_raw AA_device_revoke = 5"
| "access_action_raw AA_password_set = 6"
| "access_action_raw AA_password_join = 7"
| "access_action_raw AA_invite_issue = 8"
| "access_action_raw AA_invite_redeem = 9"
| "access_action_raw AA_invite_revoke = 10"
| "access_action_raw AA_network_create_protected = 11"
| "access_action_raw (AA_unlisted raw) = raw"

definition access_action_of_raw :: "byte \<Rightarrow> AccessAction" where
  "access_action_of_raw raw =
     (if raw = 1 then AA_account_create else if raw = 2 then AA_account_status
      else if raw = 3 then AA_enrollment_issue else if raw = 4 then AA_device_enroll
      else if raw = 5 then AA_device_revoke else if raw = 6 then AA_password_set
      else if raw = 7 then AA_password_join else if raw = 8 then AA_invite_issue
      else if raw = 9 then AA_invite_redeem else if raw = 10 then AA_invite_revoke
      else if raw = 11 then AA_network_create_protected else AA_unlisted raw)"

record AccountDevice =
  account_device_id :: bytes
  account_device_label :: bytes
  account_device_revoked :: bool

record AccessRequest =
  request_action :: AccessAction
  request_network :: NetworkId
  request_device :: bytes
  request_text :: bytes
  request_secret :: bytes
  request_lifetime_seconds :: "32 word"
  request_max_uses :: "16 word"
  request_require_approval :: bool

record AccessResult =
  access_action :: AccessAction
  access_code :: NetworkResultCode
  access_account :: bytes
  access_network :: NetworkId
  access_text :: bytes
  access_secret :: bytes
  access_devices :: "AccountDevice list"

definition access_action_known :: "AccessAction \<Rightarrow> bool" where
  "access_action_known a \<longleftrightarrow>
     \<not> (access_action_raw a < access_action_raw AA_account_create \<or>
        access_action_raw a > access_action_raw AA_network_create_protected)"

definition check_action :: "AccessAction \<Rightarrow> unit res" where
  "check_action a = require (Invalid_argument ''unknown access action'') (access_action_known a)"

definition access_text_ok :: "nat \<Rightarrow> bytes \<Rightarrow> bool" where
  "access_text_ok limit s \<longleftrightarrow> \<not> (length s > limit \<or> list_ex (\<lambda>c. c = 0 \<or> c = 13 \<or> c = 10) s)"

definition write_string :: "bytes \<Rightarrow> nat \<Rightarrow> bytes res" where
  "write_string s limit = res_bind (require (Invalid_argument ''invalid access text'') (access_text_ok limit s))
     (\<lambda>_. Inr (put (word_of_nat (length s) :: 16 word) @ s))"

definition read_string :: "nat \<Rightarrow> bytes parser" where
  "read_string limit = pbind reader_get (\<lambda>n :: 16 word. pbind (reader_bytes (unat n)) (\<lambda>b.
     pbind (prequire (Invalid_argument ''access text too long'') (\<not> length b > limit)) (\<lambda>_. preturn b)))"

definition carries_approval :: "AccessAction \<Rightarrow> bool" where
  "carries_approval a \<longleftrightarrow> access_action_raw a \<ge> access_action_raw AA_password_set"

definition encode_access_request :: "AccessRequest \<Rightarrow> bytes res" where
  "encode_access_request x =
     res_bind (check_action (request_action x)) (\<lambda>_.
     res_bind (write_string (request_text x) 128) (\<lambda>t.
     res_bind (write_string (request_secret x) 256) (\<lambda>s.
       Inr (put (1 :: byte) @ put (access_action_raw (request_action x)) @ request_network x @ request_device x
         @ t @ s @ put (request_lifetime_seconds x) @ put (request_max_uses x)
         @ (if carries_approval (request_action x) then put_bool (request_require_approval x) else [])))))"

definition decode_access_request :: "bytes \<Rightarrow> AccessRequest res" where
  "decode_access_request = parse_all (
     pbind reader_get (\<lambda>version :: byte.
     pbind (prequire (Invalid_argument ''unsupported access version'') (version = 1)) (\<lambda>_.
     pbind reader_get (\<lambda>action. pbind (reader_array 16) (\<lambda>network. pbind (reader_array 32) (\<lambda>device.
     pbind (read_string 128) (\<lambda>text. pbind (read_string 256) (\<lambda>secret.
     pbind reader_get (\<lambda>lifetime. pbind reader_get (\<lambda>uses.
     pbind (if carries_approval (access_action_of_raw action)
            then read_flag (Invalid_argument ''invalid approval policy'') else preturn False) (\<lambda>approval.
     pbind reader_finish (\<lambda>_.
     let x = \<lparr>request_action = access_action_of_raw action, request_network = network, request_device = device,
              request_text = text, request_secret = secret, request_lifetime_seconds = lifetime,
              request_max_uses = uses, request_require_approval = approval\<rparr> in
     pbind (plift (encode_access_request x)) (\<lambda>_. preturn x)))))))))))))"

definition write_account_device :: "AccountDevice \<Rightarrow> bytes res" where
  "write_account_device d = res_bind (write_string (account_device_label d) 128) (\<lambda>l.
     Inr (account_device_id d @ l @ put_bool (account_device_revoked d)))"

definition read_account_device :: "AccountDevice parser" where
  "read_account_device = pbind (reader_array 32) (\<lambda>d. pbind (read_string 128) (\<lambda>l.
     pbind (read_flag (Invalid_argument ''invalid device state'')) (\<lambda>f.
     preturn \<lparr>account_device_id = d, account_device_label = l, account_device_revoked = f\<rparr>)))"

definition encode_access_result :: "AccessResult \<Rightarrow> bytes res" where
  "encode_access_result x =
     res_bind (check_action (access_action x)) (\<lambda>_.
     res_bind (require (Invalid_argument ''invalid access result'')
       (is_known_network_result_code (access_code x) \<and> \<not> length (access_devices x) > 64)) (\<lambda>_.
     res_bind (write_string (access_text x) 128) (\<lambda>t.
     res_bind (write_string (access_secret x) 512) (\<lambda>s.
     res_bind (write_list write_account_device (access_devices x)) (\<lambda>ds.
       Inr (put (1 :: byte) @ put (access_action_raw (access_action x)) @ put (network_result_code_raw (access_code x))
         @ access_account x @ access_network x @ t @ s @ put (word_of_nat (length (access_devices x)) :: byte) @ ds))))))"

definition decode_access_result :: "bytes \<Rightarrow> AccessResult res" where
  "decode_access_result = parse_all (
     pbind reader_get (\<lambda>version :: byte.
     pbind (prequire (Invalid_argument ''unsupported access version'') (version = 1)) (\<lambda>_.
     pbind reader_get (\<lambda>action. pbind reader_get (\<lambda>code.
     pbind (reader_array 32) (\<lambda>account. pbind (reader_array 16) (\<lambda>network.
     pbind (read_string 128) (\<lambda>text. pbind (read_string 512) (\<lambda>secret.
     pbind (read_counted (Invalid_argument ''too many account devices'') 64 read_account_device) (\<lambda>devices.
     pbind reader_finish (\<lambda>_.
     let x = \<lparr>access_action = access_action_of_raw action, access_code = network_result_code_of_raw code,
              access_account = account, access_network = network, access_text = text, access_secret = secret,
              access_devices = devices\<rparr> in
     pbind (plift (encode_access_result x)) (\<lambda>_. preturn x))))))))))))"

section \<open>Canonical encodings\<close>

lemma access_raw_of_raw [simp]: "access_action_raw (access_action_of_raw b) = b"
  by (simp add: access_action_of_raw_def)

definition string_layout :: "bytes \<Rightarrow> bytes" where
  "string_layout s = put (word_of_nat (length s) :: 16 word) @ s"

lemma write_string_iff: "write_string s limit = Inr a \<longleftrightarrow> access_text_ok limit s \<and> a = string_layout s"
  by (auto simp: write_string_def string_layout_def)

lemma read_string_iff:
  assumes "limit < 65536"
  shows "read_string limit r = Inr (s, rest) \<longleftrightarrow> r = string_layout s @ rest \<and> length s \<le> limit"
proof
  assume "read_string limit r = Inr (s, rest)"
  then show "r = string_layout s @ rest \<and> length s \<le> limit"
    by (auto simp: read_string_def wire_reads string_layout_def split: if_splits)
next
  assume "r = string_layout s @ rest \<and> length s \<le> limit"
  with assms show "read_string limit r = Inr (s, rest)"
    by (simp add: read_string_def string_layout_def wire_steps unat_of_nat_size)
qed

lemmas read_string_iffs = read_string_iff [of 128, simplified] read_string_iff [of 256, simplified]
  read_string_iff [of 512, simplified]

definition access_canonical :: "AccessAction \<Rightarrow> bool" where
  "access_canonical a \<longleftrightarrow> access_action_of_raw (access_action_raw a) = a"

lemma access_canonical_of_raw [simp]: "access_canonical (access_action_of_raw b)"
  by (simp add: access_canonical_def)

definition access_request_typed :: "AccessRequest \<Rightarrow> bool" where
  "access_request_typed x \<longleftrightarrow> access_canonical (request_action x) \<and> length (request_network x) = 16 \<and>
     length (request_device x) = 32 \<and> (carries_approval (request_action x) \<or> \<not> request_require_approval x)"

definition access_result_typed :: "AccessResult \<Rightarrow> bool" where
  "access_result_typed x \<longleftrightarrow> access_canonical (access_action x) \<and> length (access_account x) = 32 \<and>
     length (access_network x) = 16 \<and> list_all (\<lambda>d. length (account_device_id d) = 32) (access_devices x)"

definition request_layout :: "AccessRequest \<Rightarrow> bytes" where
  "request_layout x = access_action_raw (request_action x) # request_network x @ request_device x
     @ string_layout (request_text x) @ string_layout (request_secret x)
     @ put (request_lifetime_seconds x) @ put (request_max_uses x)
     @ (if carries_approval (request_action x) then put_bool (request_require_approval x) else [])"

lemma encode_access_request_iff:
  "encode_access_request x = Inr bs \<longleftrightarrow> access_action_known (request_action x) \<and>
     access_text_ok 128 (request_text x) \<and> access_text_ok 256 (request_secret x) \<and> bs = 1 # request_layout x"
  by (auto simp: encode_access_request_def res_bind_Inr_iff check_action_def write_string_iff request_layout_def)

lemma access_text_length: "access_text_ok limit s \<Longrightarrow> length s \<le> limit"
  by (simp add: access_text_ok_def)

interpretation access_request_codec: wire_codec encode_access_request decode_access_request access_request_typed
proof unfold_locales
  fix x :: AccessRequest and bs
  assume typed: "access_request_typed x" and enc: "encode_access_request x = Inr bs"
  note e = enc [unfolded encode_access_request_iff]
  have strings: "read_string 128 (string_layout (request_text x) @ rest) = Inr (request_text x, rest)"
    "read_string 256 (string_layout (request_secret x) @ rest) = Inr (request_secret x, rest)" for rest
    using e by (auto simp: read_string_iffs intro: access_text_length)
  have raw: "access_action_of_raw (access_action_raw (request_action x)) = request_action x"
    using typed by (simp add: access_request_typed_def access_canonical_def)
  have bs: "bs = 1 # request_layout x" using e by simp
  have eta: "\<lparr>request_action = request_action x, request_network = request_network x,
      request_device = request_device x, request_text = request_text x, request_secret = request_secret x,
      request_lifetime_seconds = request_lifetime_seconds x, request_max_uses = request_max_uses x,
      request_require_approval = b\<rparr> = x" if "b = request_require_approval x" for b
    using that by simp
  show "decode_access_request bs = Inr x"
  proof (cases "carries_approval (request_action x)")
    case True
    have flag: "read_flag e (put_bool (request_require_approval x)) = Inr (request_require_approval x, [])" for e
      by (simp add: wire_iff)
    show ?thesis
      using typed enc True
      by (simp add: decode_access_request_def bs request_layout_def wire_steps strings raw access_request_typed_def
          flag Let_def eta)
  next
    case False
    with typed have "\<not> request_require_approval x" by (simp add: access_request_typed_def)
    with False show ?thesis
      using typed enc
      by (simp add: decode_access_request_def bs request_layout_def wire_steps strings raw access_request_typed_def
          Let_def eta)
  qed
next
  fix x :: AccessRequest and bs
  assume "decode_access_request bs = Inr x"
  then obtain action bs' where valid: "encode_access_request x = Inr bs'"
    and action: "request_action x = access_action_of_raw action"
    and arrays: "length (request_network x) = 16" "length (request_device x) = 32"
    and bs: "bs = 1 # request_layout x" and "carries_approval (request_action x) \<or> \<not> request_require_approval x"
    by (auto simp: decode_access_request_def wire_reads read_string_iffs Let_def request_layout_def
        split: if_splits)
  then show "access_request_typed x \<and> encode_access_request x = Inr bs"
    by (simp add: access_request_typed_def encode_access_request_iff)
qed

definition account_device_layout :: "AccountDevice \<Rightarrow> bytes" where
  "account_device_layout d = account_device_id d @ string_layout (account_device_label d)
     @ put_bool (account_device_revoked d)"

lemma write_account_device_iff:
  "write_account_device d = Inr a \<longleftrightarrow> access_text_ok 128 (account_device_label d) \<and> a = account_device_layout d"
  by (auto simp: write_account_device_def account_device_layout_def res_bind_Inr_iff write_string_iff)

lemma read_account_device_iff:
  "read_account_device r = Inr (d, rest) \<longleftrightarrow> r = account_device_layout d @ rest \<and>
     (length (account_device_id d) = 32 \<and> length (account_device_label d) \<le> 128)"
proof
  assume "read_account_device r = Inr (d, rest)"
  then show "r = account_device_layout d @ rest \<and>
     (length (account_device_id d) = 32 \<and> length (account_device_label d) \<le> 128)"
    by (auto simp: read_account_device_def wire_reads read_string_iffs account_device_layout_def)
next
  assume r: "r = account_device_layout d @ rest \<and>
     (length (account_device_id d) = 32 \<and> length (account_device_label d) \<le> 128)"
  then have "read_string 128 (string_layout (account_device_label d) @ rest')
      = Inr (account_device_label d, rest')" for rest' by (simp add: read_string_iffs)
  with r show "read_account_device r = Inr (d, rest)"
    by (simp add: read_account_device_def account_device_layout_def wire_steps)
qed

definition result_layout :: "AccessResult \<Rightarrow> bytes" where
  "result_layout x = access_action_raw (access_action x) # put (network_result_code_raw (access_code x))
     @ access_account x @ access_network x @ string_layout (access_text x) @ string_layout (access_secret x)
     @ put (word_of_nat (length (access_devices x)) :: byte) @ concat (map account_device_layout (access_devices x))"

lemma encode_access_result_iff:
  "encode_access_result x = Inr bs \<longleftrightarrow> access_action_known (access_action x) \<and>
     is_known_network_result_code (access_code x) \<and> length (access_devices x) \<le> 64 \<and>
     access_text_ok 128 (access_text x) \<and> access_text_ok 512 (access_secret x) \<and>
     list_all (\<lambda>d. access_text_ok 128 (account_device_label d)) (access_devices x) \<and> bs = 1 # result_layout x"
  by (auto simp: encode_access_result_def res_bind_Inr_iff check_action_def write_string_iff result_layout_def
      write_list_Inr_iff [OF write_account_device_iff])

interpretation access_result_codec: wire_codec encode_access_result decode_access_result access_result_typed
proof unfold_locales
  fix x :: AccessResult and bs
  assume typed: "access_result_typed x" and enc: "encode_access_result x = Inr bs"
  note e = enc [unfolded encode_access_result_iff]
  have strings: "read_string 128 (string_layout (access_text x) @ rest) = Inr (access_text x, rest)"
    "read_string 512 (string_layout (access_secret x) @ rest) = Inr (access_secret x, rest)" for rest
    using e by (auto simp: read_string_iffs intro: access_text_length)
  have devices: "read_counted err 64 read_account_device (put (word_of_nat (length (access_devices x)) :: byte)
      @ concat (map account_device_layout (access_devices x))) = Inr (access_devices x, [])" for err
    using e typed by (simp add: read_counted_iff [OF read_account_device_iff] list_all_iff access_result_typed_def
        access_text_length)
  have eta: "\<lparr>access_action = access_action x, access_code = access_code x, access_account = access_account x,
      access_network = access_network x, access_text = access_text x, access_secret = access_secret x,
      access_devices = access_devices x\<rparr> = x" by simp
  have bs: "bs = 1 # result_layout x" using e by simp
  show "decode_access_result bs = Inr x"
    using typed enc e
    by (simp add: decode_access_result_def bs result_layout_def wire_steps strings devices [simplified]
        access_result_typed_def access_canonical_def Let_def eta)
next
  fix x :: AccessResult and bs
  assume "decode_access_result bs = Inr x"
  then obtain action bs' where valid: "encode_access_result x = Inr bs'"
    and action: "access_action x = access_action_of_raw action"
    and arrays: "length (access_account x) = 32" "length (access_network x) = 16"
      "list_all (\<lambda>d. length (account_device_id d) = 32 \<and> length (account_device_label d) \<le> 128) (access_devices x)"
    and bs: "bs = 1 # result_layout x"
    by (auto simp: decode_access_result_def wire_reads read_string_iffs Let_def result_layout_def
        read_counted_iff [OF read_account_device_iff] split: if_splits)
  then show "access_result_typed x \<and> encode_access_result x = Inr bs"
    by (simp add: access_result_typed_def encode_access_result_iff list_all_iff)
qed

text \<open>
  Access requests and results are canonical: a payload decodes to a message exactly when it is
  that message's encoding. A request whose action does not carry \<open>require_approval\<close> is read back
  with the flag cleared, so the equivalence holds for requests that do not set it there.
\<close>

lemma access_messages_roundtrip:
  "(decode_access_request b1 = Inr m1 \<longleftrightarrow> access_request_typed m1 \<and> encode_access_request m1 = Inr b1) \<and>
   (decode_access_result b2 = Inr m2 \<longleftrightarrow> access_result_typed m2 \<and> encode_access_result m2 = Inr b2)"
  by (simp only: simp_thms access_request_codec.dec_iff access_result_codec.dec_iff)

end
