(* ===== verification/Network_Policy.thy ===== *)
theory Network_Policy
  imports Binary
begin

text \<open>
  \<open>network_policy.hpp\<close> and \<open>src/protocol/network_policy.cpp\<close>: the access policy of a
  managed network (topology, groups, rules, gateways, routed subnets), the decisions the relay
  and the clients take from it, and its wire format, which is also the document the relay
  stores. Strings are byte lists; \<open>auth::DeviceId\<close> is a list of 32 bytes.
\<close>

section \<open>Data\<close>

type_synonym DeviceId = bytes

definition no_device :: DeviceId where
  "no_device = replicate 32 0"

datatype NetworkTopology = Topology_mesh | Topology_hub_spoke | Topology_unlisted byte

datatype AccessRole = Role_member | Role_administrator | Role_restricted | Role_unlisted byte

record PolicySubject =
  subject_device :: DeviceId
  subject_group :: bytes

record AccessRule =
  rule_first :: PolicySubject
  rule_second :: PolicySubject
  rule_allow :: bool

record MemberPolicy =
  member_device :: DeviceId
  member_role :: AccessRole
  member_group :: bytes

record GatewayNode =
  gateway_device :: DeviceId
  gateway_approved :: bool

record RoutedSubnet =
  route_gateway :: DeviceId
  route_address :: "32 word"
  route_prefix :: byte
  route_group :: bytes

record NetworkPolicy =
  revision :: "64 word"
  managed :: bool
  topology :: NetworkTopology
  hubs :: "DeviceId list"
  rules :: "AccessRule list"
  groups :: "bytes list"
  members :: "MemberPolicy list"
  gateways :: "GatewayNode list"
  routes :: "RoutedSubnet list"

definition default_policy :: NetworkPolicy where
  "default_policy = \<lparr>revision = 0, managed = False, topology = Topology_mesh, hubs = [], rules = [],
     groups = [], members = [], gateways = [], routes = []\<rparr>"

fun topology_raw :: "NetworkTopology \<Rightarrow> byte" where
  "topology_raw Topology_mesh = 0"
| "topology_raw Topology_hub_spoke = 1"
| "topology_raw (Topology_unlisted raw) = raw"

definition topology_of_raw :: "byte \<Rightarrow> NetworkTopology" where
  "topology_of_raw raw =
     (if raw = 0 then Topology_mesh else if raw = 1 then Topology_hub_spoke else Topology_unlisted raw)"

fun role_raw :: "AccessRole \<Rightarrow> byte" where
  "role_raw Role_member = 0"
| "role_raw Role_administrator = 1"
| "role_raw Role_restricted = 2"
| "role_raw (Role_unlisted raw) = raw"

definition role_of_raw :: "byte \<Rightarrow> AccessRole" where
  "role_of_raw raw =
     (if raw = 0 then Role_member else if raw = 1 then Role_administrator
      else if raw = 2 then Role_restricted else Role_unlisted raw)"

section \<open>Subnets\<close>

text \<open>\<open>0xffffffffU << (32U - prefix)\<close>, used for prefixes from 1 to 32 only.\<close>

definition prefix_mask :: "byte \<Rightarrow> 32 word" where
  "prefix_mask prefix = push_bit (32 - unat prefix) 0xffffffff"

definition subnet_contains :: "32 word \<Rightarrow> byte \<Rightarrow> 32 word \<Rightarrow> bool" where
  "subnet_contains subnet prefix address \<longleftrightarrow>
     prefix > 0 \<and> prefix \<le> 32 \<and> address AND prefix_mask prefix = subnet"

definition subnets_overlap :: "32 word \<Rightarrow> byte \<Rightarrow> 32 word \<Rightarrow> byte \<Rightarrow> bool" where
  "subnets_overlap a ap b bp =
     (if ap = 0 \<or> ap > 32 \<or> bp = 0 \<or> bp > 32 then True
      else let mask = prefix_mask (min ap bp) in a AND mask = b AND mask)"

definition private_routed_subnet :: "32 word \<Rightarrow> byte \<Rightarrow> bool" where
  "private_routed_subnet a p =
     (if p < 8 \<or> p > 30 \<or> \<not> subnet_contains a p a then False
      else (p \<ge> 8 \<and> subnet_contains 0x0a000000 8 a) \<or>
           (p \<ge> 12 \<and> subnet_contains 0xac100000 12 a) \<or>
           (p \<ge> 16 \<and> subnet_contains 0xc0a80000 16 a))"

section \<open>Decisions\<close>

fun find_member_policy :: "MemberPolicy list \<Rightarrow> DeviceId \<Rightarrow> MemberPolicy option" where
  "find_member_policy [] d = None"
| "find_member_policy (m # ms) d = (if member_device m = d then Some m else find_member_policy ms d)"

definition policy_role :: "NetworkPolicy \<Rightarrow> DeviceId \<Rightarrow> AccessRole" where
  "policy_role p d =
     (case find_member_policy (members p) d of Some m \<Rightarrow> member_role m | None \<Rightarrow> Role_member)"

definition policy_group :: "NetworkPolicy \<Rightarrow> DeviceId \<Rightarrow> bytes" where
  "policy_group p d =
     (case find_member_policy (members p) d of Some m \<Rightarrow> member_group m | None \<Rightarrow> str ''members'')"

definition matches :: "NetworkPolicy \<Rightarrow> PolicySubject \<Rightarrow> DeviceId \<Rightarrow> bool" where
  "matches p s d =
     (if subject_device s \<noteq> no_device then subject_device s = d
      else subject_group s = [] \<or> subject_group s = policy_group p d)"

definition rule_applies :: "NetworkPolicy \<Rightarrow> DeviceId \<Rightarrow> DeviceId \<Rightarrow> AccessRule \<Rightarrow> bool" where
  "rule_applies p a b rule \<longleftrightarrow>
     (matches p (rule_first rule) a \<and> matches p (rule_second rule) b) \<or>
     (matches p (rule_first rule) b \<and> matches p (rule_second rule) a)"

text \<open>The loop over the rules, with its early \<open>return false\<close>.\<close>

fun rules_allow :: "NetworkPolicy \<Rightarrow> DeviceId \<Rightarrow> DeviceId \<Rightarrow> AccessRule list \<Rightarrow> bool \<Rightarrow> bool" where
  "rules_allow p a b [] allowed = allowed"
| "rules_allow p a b (rule # rest) allowed =
     (if rule_applies p a b rule
      then if \<not> rule_allow rule then False else rules_allow p a b rest True
      else rules_allow p a b rest allowed)"

definition policy_allows :: "NetworkPolicy \<Rightarrow> DeviceId \<Rightarrow> DeviceId \<Rightarrow> bool" where
  "policy_allows p a b =
     (if a = b \<or> a = no_device \<or> b = no_device then False
      else if \<not> managed p then True
      else if topology p = Topology_hub_spoke \<and> a \<notin> set (hubs p) \<and> b \<notin> set (hubs p) then False
      else rules_allow p a b (rules p) False)"

definition policy_fanout_allows :: "NetworkPolicy \<Rightarrow> DeviceId \<Rightarrow> DeviceId \<Rightarrow> bool" where
  "policy_fanout_allows p a b \<longleftrightarrow>
     policy_allows p a b \<and>
     (\<not> managed p \<or> (policy_role p a \<noteq> Role_restricted \<and> policy_role p b \<noteq> Role_restricted))"

definition route_allows :: "NetworkPolicy \<Rightarrow> RoutedSubnet \<Rightarrow> DeviceId \<Rightarrow> bool" where
  "route_allows p r member \<longleftrightarrow>
     managed p \<and> policy_role p member \<noteq> Role_restricted \<and>
     (route_group r = [] \<or> policy_group p member = route_group r) \<and>
     policy_allows p member (route_gateway r) \<and>
     list_ex (\<lambda>g. gateway_device g = route_gateway r \<and> gateway_approved g) (gateways p)"

section \<open>Encoding\<close>

definition policy_error :: exn where
  "policy_error = Invalid_argument ''invalid network policy''"

definition text_char :: "byte \<Rightarrow> bool" where
  "text_char c \<longleftrightarrow>
     (c \<ge> 0x61 \<and> c \<le> 0x7a) \<or> (c \<ge> 0x41 \<and> c \<le> 0x5a) \<or> (c \<ge> 0x30 \<and> c \<le> 0x39) \<or> c = 0x5f \<or> c = 0x2d"

definition write_text :: "bytes \<Rightarrow> bytes res" where
  "write_text v = res_bind (require policy_error (length v \<le> 32 \<and> list_all text_char v))
     (\<lambda>_. Inr (put (word_of_nat (length v) :: byte) @ v))"

definition read_text :: "bytes parser" where
  "read_text = pbind reader_get (\<lambda>n :: byte. reader_bytes (unat n))"

definition write_subject :: "PolicySubject \<Rightarrow> bytes res" where
  "write_subject s =
     res_bind (require policy_error (subject_device s = no_device \<or> subject_group s = []))
       (\<lambda>_. res_bind (write_text (subject_group s)) (\<lambda>t. Inr (subject_device s @ t)))"

definition read_subject :: "PolicySubject parser" where
  "read_subject = pbind (reader_array 32) (\<lambda>d. pbind read_text (\<lambda>g.
     preturn \<lparr>subject_device = d, subject_group = g\<rparr>))"

definition write_rule :: "AccessRule \<Rightarrow> bytes res" where
  "write_rule r = res_bind (write_subject (rule_first r)) (\<lambda>a.
     res_bind (write_subject (rule_second r)) (\<lambda>b. Inr (a @ b @ put_bool (rule_allow r))))"

definition write_member :: "bytes list \<Rightarrow> MemberPolicy \<Rightarrow> bytes res" where
  "write_member known m =
     res_bind (require policy_error (member_device m \<noteq> no_device \<and>
       role_raw (member_role m) \<le> role_raw Role_restricted \<and> member_group m \<in> set known))
       (\<lambda>_. res_bind (write_text (member_group m))
         (\<lambda>t. Inr (member_device m @ put (role_raw (member_role m)) @ t)))"

definition write_gateway :: "GatewayNode \<Rightarrow> bytes res" where
  "write_gateway g = res_bind (require policy_error (gateway_device g \<noteq> no_device))
     (\<lambda>_. Inr (gateway_device g @ put_bool (gateway_approved g)))"

text \<open>
  The loop over the routes: \<open>earlier\<close> are the routes before this one, against which the new
  one must not overlap.
\<close>

fun write_routes :: "NetworkPolicy \<Rightarrow> bytes list \<Rightarrow> RoutedSubnet list \<Rightarrow> RoutedSubnet list \<Rightarrow> bytes res" where
  "write_routes p known earlier [] = Inr []"
| "write_routes p known earlier (r # rest) =
     res_bind (require policy_error (private_routed_subnet (route_address r) (route_prefix r) \<and>
         (route_group r = [] \<or> route_group r \<in> set known))) (\<lambda>_.
     res_bind (require policy_error
         (list_ex (\<lambda>g. gateway_device g = route_gateway r \<and> gateway_approved g) (gateways p))) (\<lambda>_.
     res_bind (require policy_error (list_all (\<lambda>q.
         \<not> subnets_overlap (route_address r) (route_prefix r) (route_address q) (route_prefix q)) earlier)) (\<lambda>_.
     res_bind (write_text (route_group r)) (\<lambda>t.
     res_bind (write_routes p known (earlier @ [r]) rest) (\<lambda>more.
       Inr (route_gateway r @ put (route_address r) @ put (route_prefix r) @ t @ more))))))"

definition known_groups :: "NetworkPolicy \<Rightarrow> bytes list" where
  "known_groups p = str ''members'' # groups p"

definition encode_network_policy :: "NetworkPolicy \<Rightarrow> bytes res" where
  "encode_network_policy p =
     res_bind (require policy_error (topology p = Topology_mesh \<or> topology p = Topology_hub_spoke)) (\<lambda>_.
     res_bind (require policy_error (length (hubs p) \<le> 32 \<and> length (rules p) \<le> 64 \<and>
       length (groups p) \<le> 16 \<and> length (members p) \<le> 254 \<and> length (gateways p) \<le> 16 \<and>
       length (routes p) \<le> 32)) (\<lambda>_.
     res_bind (require policy_error (managed p \<or> (topology p = Topology_mesh \<and> hubs p = [] \<and>
       rules p = [] \<and> groups p = [] \<and> members p = [] \<and> gateways p = [] \<and> routes p = []))) (\<lambda>_.
     res_bind (require policy_error (no_device \<notin> set (hubs p) \<and> distinct (hubs p))) (\<lambda>_.
     res_bind (write_list write_rule (rules p)) (\<lambda>rule_bytes.
     res_bind (require policy_error ([] \<notin> set (groups p) \<and> distinct (known_groups p))) (\<lambda>_.
     res_bind (write_list write_text (groups p)) (\<lambda>group_bytes.
     res_bind (require policy_error (distinct (map member_device (members p)))) (\<lambda>_.
     res_bind (write_list (write_member (known_groups p)) (members p)) (\<lambda>member_bytes.
     res_bind (require policy_error (list_all (\<lambda>r. list_all (\<lambda>s. subject_group s = [] \<or>
       subject_group s \<in> set (known_groups p)) [rule_first r, rule_second r]) (rules p))) (\<lambda>_.
     res_bind (require policy_error (distinct (map gateway_device (gateways p)))) (\<lambda>_.
     res_bind (write_list write_gateway (gateways p)) (\<lambda>gateway_bytes.
     res_bind (write_routes p (known_groups p) [] (routes p)) (\<lambda>route_bytes.
       Inr (put (1 :: byte) @ put (revision p) @ put_bool (managed p) @ put (topology_raw (topology p))
         @ put (word_of_nat (length (hubs p)) :: byte) @ concat (hubs p)
         @ put (word_of_nat (length (rules p)) :: byte) @ rule_bytes
         @ put (word_of_nat (length (groups p)) :: byte) @ group_bytes
         @ put (word_of_nat (length (members p)) :: 16 word) @ member_bytes
         @ put (word_of_nat (length (gateways p)) :: byte) @ gateway_bytes
         @ put (word_of_nat (length (routes p)) :: byte) @ route_bytes))))))))))))))"

section \<open>Decoding\<close>

definition read_rule :: "AccessRule parser" where
  "read_rule = pbind read_subject (\<lambda>a. pbind read_subject (\<lambda>b. pbind (read_flag policy_error) (\<lambda>f.
     preturn \<lparr>rule_first = a, rule_second = b, rule_allow = f\<rparr>)))"

definition read_member :: "MemberPolicy parser" where
  "read_member = pbind (reader_array 32) (\<lambda>d. pbind reader_get (\<lambda>role. pbind read_text (\<lambda>g.
     preturn \<lparr>member_device = d, member_role = role_of_raw role, member_group = g\<rparr>)))"

definition read_gateway :: "GatewayNode parser" where
  "read_gateway = pbind (reader_array 32) (\<lambda>d. pbind (read_flag policy_error) (\<lambda>f.
     preturn \<lparr>gateway_device = d, gateway_approved = f\<rparr>))"

definition read_route :: "RoutedSubnet parser" where
  "read_route = pbind (reader_array 32) (\<lambda>d. pbind reader_get (\<lambda>a. pbind reader_get (\<lambda>prefix.
     pbind read_text (\<lambda>g.
     preturn \<lparr>route_gateway = d, route_address = a, route_prefix = prefix, route_group = g\<rparr>))))"

definition decode_network_policy :: "bytes \<Rightarrow> NetworkPolicy res" where
  "decode_network_policy bs = res_bind (require policy_error (length bs \<le> 32768)) (\<lambda>_.
     parse_all (
       pbind reader_get (\<lambda>version :: byte.
       pbind (prequire policy_error (version = 1)) (\<lambda>_.
       pbind reader_get (\<lambda>rev.
       pbind (read_flag policy_error) (\<lambda>man.
       pbind reader_get (\<lambda>topo.
       pbind (read_counted policy_error 32 (reader_array 32)) (\<lambda>hs.
       pbind (read_counted policy_error 64 read_rule) (\<lambda>rs.
       pbind (read_counted policy_error 16 read_text) (\<lambda>gs.
       pbind reader_get (\<lambda>count :: 16 word.
       pbind (prequire policy_error (unat count \<le> 254)) (\<lambda>_.
       pbind (prepeat (unat count) read_member) (\<lambda>ms.
       pbind (read_counted policy_error 16 read_gateway) (\<lambda>gws.
       pbind (read_counted policy_error 32 read_route) (\<lambda>rts.
       pbind reader_finish (\<lambda>_.
       let p = \<lparr>revision = rev, managed = man, topology = topology_of_raw topo, hubs = hs, rules = rs,
                groups = gs, members = ms, gateways = gws, routes = rts\<rparr> in
       pbind (plift (encode_network_policy p)) (\<lambda>_. preturn p)))))))))))))))) bs)"

section \<open>The layout of a policy document\<close>

definition text_layout :: "bytes \<Rightarrow> bytes" where
  "text_layout v = put (word_of_nat (length v) :: byte) @ v"

definition subject_layout :: "PolicySubject \<Rightarrow> bytes" where
  "subject_layout s = subject_device s @ text_layout (subject_group s)"

definition rule_layout :: "AccessRule \<Rightarrow> bytes" where
  "rule_layout r = subject_layout (rule_first r) @ subject_layout (rule_second r) @ put_bool (rule_allow r)"

definition member_layout :: "MemberPolicy \<Rightarrow> bytes" where
  "member_layout m = member_device m @ put (role_raw (member_role m)) @ text_layout (member_group m)"

definition gateway_layout :: "GatewayNode \<Rightarrow> bytes" where
  "gateway_layout g = gateway_device g @ put_bool (gateway_approved g)"

definition route_layout :: "RoutedSubnet \<Rightarrow> bytes" where
  "route_layout r = route_gateway r @ put (route_address r) @ put (route_prefix r) @ text_layout (route_group r)"

definition policy_layout :: "NetworkPolicy \<Rightarrow> bytes" where
  "policy_layout p = put (1 :: byte) @ put (revision p) @ put_bool (managed p) @ put (topology_raw (topology p))
     @ put (word_of_nat (length (hubs p)) :: byte) @ concat (map id (hubs p))
     @ put (word_of_nat (length (rules p)) :: byte) @ concat (map rule_layout (rules p))
     @ put (word_of_nat (length (groups p)) :: byte) @ concat (map text_layout (groups p))
     @ put (word_of_nat (length (members p)) :: 16 word) @ concat (map member_layout (members p))
     @ put (word_of_nat (length (gateways p)) :: byte) @ concat (map gateway_layout (gateways p))
     @ put (word_of_nat (length (routes p)) :: byte) @ concat (map route_layout (routes p))"

text \<open>A record of the model is a value of the C++ structs: identifiers have 32 bytes.\<close>

definition subject_typed :: "PolicySubject \<Rightarrow> bool" where
  "subject_typed s \<longleftrightarrow> length (subject_device s) = 32"

definition policy_typed :: "NetworkPolicy \<Rightarrow> bool" where
  "policy_typed p \<longleftrightarrow>
     topology_of_raw (topology_raw (topology p)) = topology p \<and>
     list_all (\<lambda>d. length d = 32) (hubs p) \<and>
     list_all (\<lambda>r. subject_typed (rule_first r) \<and> subject_typed (rule_second r)) (rules p) \<and>
     list_all (\<lambda>m. length (member_device m) = 32 \<and> role_of_raw (role_raw (member_role m)) = member_role m) (members p) \<and>
     list_all (\<lambda>g. length (gateway_device g) = 32) (gateways p) \<and>
     list_all (\<lambda>r. length (route_gateway r) = 32) (routes p)"

definition text_ok :: "bytes \<Rightarrow> bool" where
  "text_ok v \<longleftrightarrow> length v \<le> 32 \<and> list_all text_char v"

definition subject_ok :: "PolicySubject \<Rightarrow> bool" where
  "subject_ok s \<longleftrightarrow> (subject_device s = no_device \<or> subject_group s = []) \<and> text_ok (subject_group s)"

definition member_ok :: "bytes list \<Rightarrow> MemberPolicy \<Rightarrow> bool" where
  "member_ok known m \<longleftrightarrow> member_device m \<noteq> no_device \<and> role_raw (member_role m) \<le> 2 \<and>
     member_group m \<in> set known \<and> text_ok (member_group m)"

definition route_ok :: "NetworkPolicy \<Rightarrow> RoutedSubnet \<Rightarrow> bool" where
  "route_ok p r \<longleftrightarrow> private_routed_subnet (route_address r) (route_prefix r) \<and>
     (route_group r = [] \<or> route_group r \<in> set (known_groups p)) \<and> text_ok (route_group r) \<and>
     list_ex (\<lambda>g. gateway_device g = route_gateway r \<and> gateway_approved g) (gateways p)"

definition routes_apart :: "RoutedSubnet \<Rightarrow> RoutedSubnet \<Rightarrow> bool" where
  "routes_apart q r \<longleftrightarrow> \<not> subnets_overlap (route_address r) (route_prefix r) (route_address q) (route_prefix q)"

text \<open>What \<open>encode_network_policy\<close> accepts.\<close>

definition policy_valid :: "NetworkPolicy \<Rightarrow> bool" where
  "policy_valid p \<longleftrightarrow>
     (topology p = Topology_mesh \<or> topology p = Topology_hub_spoke) \<and>
     (length (hubs p) \<le> 32 \<and> length (rules p) \<le> 64 \<and> length (groups p) \<le> 16 \<and>
      length (members p) \<le> 254 \<and> length (gateways p) \<le> 16 \<and> length (routes p) \<le> 32) \<and>
     (managed p \<or> (topology p = Topology_mesh \<and> hubs p = [] \<and> rules p = [] \<and> groups p = [] \<and>
        members p = [] \<and> gateways p = [] \<and> routes p = [])) \<and>
     (no_device \<notin> set (hubs p) \<and> distinct (hubs p)) \<and>
     list_all (\<lambda>r. subject_ok (rule_first r) \<and> subject_ok (rule_second r)) (rules p) \<and>
     ([] \<notin> set (groups p) \<and> distinct (known_groups p)) \<and> list_all text_ok (groups p) \<and>
     distinct (map member_device (members p)) \<and> list_all (member_ok (known_groups p)) (members p) \<and>
     list_all (\<lambda>r. list_all (\<lambda>s. subject_group s = [] \<or> subject_group s \<in> set (known_groups p))
       [rule_first r, rule_second r]) (rules p) \<and>
     distinct (map gateway_device (gateways p)) \<and> list_all (\<lambda>g. gateway_device g \<noteq> no_device) (gateways p) \<and>
     list_all (route_ok p) (routes p) \<and> sorted_wrt routes_apart (routes p)"

lemma write_text_Inr_iff: "write_text v = Inr a \<longleftrightarrow> text_ok v \<and> a = text_layout v"
  by (auto simp: write_text_def text_ok_def text_layout_def)

lemma write_subject_Inr_iff: "write_subject s = Inr a \<longleftrightarrow> subject_ok s \<and> a = subject_layout s"
  by (auto simp: write_subject_def subject_ok_def subject_layout_def write_text_Inr_iff res_bind_Inr_iff)

lemma write_rule_Inr_iff:
  "write_rule r = Inr a \<longleftrightarrow> (subject_ok (rule_first r) \<and> subject_ok (rule_second r)) \<and> a = rule_layout r"
  by (auto simp: write_rule_def rule_layout_def write_subject_Inr_iff res_bind_Inr_iff)

lemma write_member_Inr_iff: "write_member known m = Inr a \<longleftrightarrow> member_ok known m \<and> a = member_layout m"
  by (auto simp: write_member_def member_ok_def member_layout_def write_text_Inr_iff res_bind_Inr_iff)

lemma write_gateway_Inr_iff: "write_gateway g = Inr a \<longleftrightarrow> gateway_device g \<noteq> no_device \<and> a = gateway_layout g"
  by (auto simp: write_gateway_def gateway_layout_def)

lemma write_routes_Inr_iff:
  "write_routes p (known_groups p) earlier rs = Inr a \<longleftrightarrow>
     list_all (route_ok p) rs \<and> sorted_wrt routes_apart rs \<and>
     (\<forall>q\<in>set earlier. list_all (routes_apart q) rs) \<and> a = concat (map route_layout rs)"
proof (induction rs arbitrary: earlier a)
  case (Cons r rs)
  show ?case
    by (auto simp: res_bind_Inr_iff Cons.IH write_text_Inr_iff route_ok_def route_layout_def
        routes_apart_def list_all_iff)
qed auto

lemmas policy_writers =
  write_list_Inr_iff [OF write_text_Inr_iff] write_list_Inr_iff [OF write_rule_Inr_iff]
  write_list_Inr_iff [OF write_member_Inr_iff] write_list_Inr_iff [OF write_gateway_Inr_iff]
  write_routes_Inr_iff

lemma encode_network_policy_Inr_iff:
  "encode_network_policy p = Inr bs \<longleftrightarrow> policy_valid p \<and> bs = policy_layout p"
  unfolding encode_network_policy_def policy_valid_def policy_layout_def
  by (auto simp: policy_writers res_bind_Inr_iff)

section \<open>Reading back a policy document\<close>

lemma read_text_append [parse_intros]: "text_ok v \<Longrightarrow> read_text (text_layout v @ rest) = Inr (v, rest)"
  by (simp add: read_text_def text_layout_def text_ok_def parse_intros unat_of_nat_size del: put_byte)

lemma read_text_dest [parse_dests]: "read_text r = Inr (v, rest) \<Longrightarrow> r = text_layout v @ rest"
  by (auto simp: read_text_def text_layout_def pbind_Inr_iff simp del: put_byte
      dest!: reader_get_dest reader_bytes_dest)

lemma read_subject_append [parse_intros]:
  "subject_typed s \<Longrightarrow> subject_ok s \<Longrightarrow> read_subject (subject_layout s @ rest) = Inr (s, rest)"
  by (simp add: read_subject_def subject_layout_def subject_typed_def subject_ok_def parse_intros)

lemma read_subject_dest [parse_dests]:
  "read_subject r = Inr (s, rest) \<Longrightarrow> r = subject_layout s @ rest \<and> subject_typed s"
  by (auto simp: read_subject_def subject_layout_def subject_typed_def pbind_Inr_iff
      dest!: reader_array_dest read_text_dest)

lemma read_rule_append [parse_intros]:
  assumes "subject_typed (rule_first x) \<and> subject_typed (rule_second x)"
    and "subject_ok (rule_first x) \<and> subject_ok (rule_second x)"
  shows "read_rule (rule_layout x @ rest) = Inr (x, rest)"
  using assms by (simp add: read_rule_def rule_layout_def parse_intros)

lemma read_rule_dest [parse_dests]:
  "read_rule r = Inr (x, rest) \<Longrightarrow>
     r = rule_layout x @ rest \<and> (subject_typed (rule_first x) \<and> subject_typed (rule_second x))"
  by (auto simp: read_rule_def rule_layout_def pbind_Inr_iff dest!: read_subject_dest read_flag_dest)

lemma role_raw_of_raw [simp]: "role_raw (role_of_raw b) = b"
  by (simp add: role_of_raw_def)

lemma topology_raw_of_raw [simp]: "topology_raw (topology_of_raw b) = b"
  by (simp add: topology_of_raw_def)

lemma read_member_append [parse_intros]:
  assumes "length (member_device m) = 32 \<and> role_of_raw (role_raw (member_role m)) = member_role m"
    and "member_ok known m"
  shows "read_member (member_layout m @ rest) = Inr (m, rest)"
  using assms by (simp add: read_member_def member_layout_def member_ok_def parse_intros del: put_byte)

lemma read_member_dest [parse_dests]:
  "read_member r = Inr (m, rest) \<Longrightarrow> r = member_layout m @ rest \<and>
     (length (member_device m) = 32 \<and> role_of_raw (role_raw (member_role m)) = member_role m)"
  by (auto simp: read_member_def member_layout_def pbind_Inr_iff simp del: put_byte
      dest!: reader_array_dest read_text_dest reader_get_dest)

lemma read_gateway_append [parse_intros]:
  "length (gateway_device g) = 32 \<Longrightarrow> read_gateway (gateway_layout g @ rest) = Inr (g, rest)"
  by (simp add: read_gateway_def gateway_layout_def parse_intros)

lemma read_gateway_dest [parse_dests]:
  "read_gateway r = Inr (g, rest) \<Longrightarrow> r = gateway_layout g @ rest \<and> length (gateway_device g) = 32"
  by (auto simp: read_gateway_def gateway_layout_def pbind_Inr_iff dest!: reader_array_dest read_flag_dest)

lemma read_route_append [parse_intros]:
  assumes "length (route_gateway x) = 32" and "route_ok p x"
  shows "read_route (route_layout x @ rest) = Inr (x, rest)"
  using assms by (simp add: read_route_def route_layout_def route_ok_def parse_intros del: put_byte)

lemma read_route_dest [parse_dests]:
  "read_route r = Inr (x, rest) \<Longrightarrow> r = route_layout x @ rest \<and> length (route_gateway x) = 32"
  by (auto simp: read_route_def route_layout_def pbind_Inr_iff simp del: put_byte
      dest!: reader_array_dest read_text_dest reader_get_dest)


text \<open>The largest document: every list full, every name of 32 bytes.\<close>

lemma length_put_bool [simp]: "length (put_bool b) = 1"
  by (simp add: put_bool_def)

lemma length_text_layout: "text_ok v \<Longrightarrow> length (text_layout v) \<le> 33"
  by (simp add: text_layout_def text_ok_def)

lemma layout_lengths:
  "subject_typed s \<Longrightarrow> subject_ok s \<Longrightarrow> length (subject_layout s) \<le> 65"
  "subject_typed (rule_first x) \<and> subject_typed (rule_second x) \<Longrightarrow>
     subject_ok (rule_first x) \<and> subject_ok (rule_second x) \<Longrightarrow> length (rule_layout x) \<le> 131"
  "length (member_device m) = 32 \<Longrightarrow> member_ok known m \<Longrightarrow> length (member_layout m) \<le> 66"
  "length (route_gateway r) = 32 \<Longrightarrow> route_ok p r \<Longrightarrow> length (route_layout r) \<le> 70"
  "length (gateway_device g) = 32 \<Longrightarrow> length (gateway_layout g) \<le> 33"
proof -
  have subject: "length (subject_layout s) \<le> 65" if "subject_typed s" "subject_ok s" for s
    using that length_text_layout [of "subject_group s"]
    by (simp add: subject_layout_def subject_typed_def subject_ok_def)
  show "subject_typed s \<Longrightarrow> subject_ok s \<Longrightarrow> length (subject_layout s) \<le> 65" by (rule subject)
  show "length (rule_layout x) \<le> 131"
    if "subject_typed (rule_first x) \<and> subject_typed (rule_second x)"
      "subject_ok (rule_first x) \<and> subject_ok (rule_second x)"
    using that subject [of "rule_first x"] subject [of "rule_second x"] by (simp add: rule_layout_def)
  show "length (member_layout m) \<le> 66" if "length (member_device m) = 32" "member_ok known m"
    using that length_text_layout [of "member_group m"] by (simp add: member_layout_def member_ok_def)
  show "length (route_layout r) \<le> 70" if "length (route_gateway r) = 32" "route_ok p r"
    using that length_text_layout [of "route_group r"] by (simp add: route_layout_def route_ok_def)
  show "length (gateway_device g) = 32 \<Longrightarrow> length (gateway_layout g) \<le> 33"
    by (simp add: gateway_layout_def)
qed

lemma length_concat_bound:
  assumes "list_all (\<lambda>x. length (enc x) \<le> k) xs" and "length xs \<le> n"
  shows "length (concat (map enc xs)) \<le> n * k"
  using length_concat_le [OF assms(1)] assms(2) mult_le_mono1 le_trans by blast

lemma policy_layout_length:
  assumes "policy_typed p" and "policy_valid p"
  shows "length (policy_layout p) \<le> 29486"
proof -
  have "list_all (\<lambda>x. length (id x) \<le> 32) (hubs p)"
    using assms(1) by (auto simp: policy_typed_def list_all_iff)
  then have "length (concat (map id (hubs p))) \<le> 32 * 32"
    by (rule length_concat_bound) (use assms(2) in \<open>simp add: policy_valid_def\<close>)
  moreover have "list_all (\<lambda>x. length (rule_layout x) \<le> 131) (rules p)"
    using assms by (auto simp: policy_typed_def policy_valid_def list_all_iff intro: layout_lengths(2))
  then have "length (concat (map rule_layout (rules p))) \<le> 64 * 131"
    by (rule length_concat_bound) (use assms(2) in \<open>simp add: policy_valid_def\<close>)
  moreover have "list_all (\<lambda>x. length (text_layout x) \<le> 33) (groups p)"
    using assms by (auto simp: policy_valid_def list_all_iff intro: length_text_layout)
  then have "length (concat (map text_layout (groups p))) \<le> 16 * 33"
    by (rule length_concat_bound) (use assms(2) in \<open>simp add: policy_valid_def\<close>)
  moreover have "list_all (\<lambda>x. length (member_layout x) \<le> 66) (members p)"
    using assms by (auto simp: policy_typed_def policy_valid_def list_all_iff intro!: layout_lengths(3))
  then have "length (concat (map member_layout (members p))) \<le> 254 * 66"
    by (rule length_concat_bound) (use assms(2) in \<open>simp add: policy_valid_def\<close>)
  moreover have "list_all (\<lambda>x. length (gateway_layout x) \<le> 33) (gateways p)"
    using assms by (auto simp: policy_typed_def policy_valid_def list_all_iff intro!: layout_lengths(5))
  then have "length (concat (map gateway_layout (gateways p))) \<le> 16 * 33"
    by (rule length_concat_bound) (use assms(2) in \<open>simp add: policy_valid_def\<close>)
  moreover have "list_all (\<lambda>x. length (route_layout x) \<le> 70) (routes p)"
    using assms by (auto simp: policy_typed_def policy_valid_def list_all_iff intro!: layout_lengths(4))
  then have "length (concat (map route_layout (routes p))) \<le> 32 * 70"
    by (rule length_concat_bound) (use assms(2) in \<open>simp add: policy_valid_def\<close>)
  ultimately show ?thesis unfolding policy_layout_def by simp
qed

lemma decode_policy_layout:
  assumes "policy_typed p" and "policy_valid p"
  shows "decode_network_policy (policy_layout p) = Inr p"
proof -
  have len: "length (policy_layout p) \<le> 32768" using policy_layout_length [OF assms] by simp
  have enc: "encode_network_policy p = Inr (policy_layout p)"
    using assms(2) by (simp add: encode_network_policy_Inr_iff)
  have hs: "read_counted policy_error 32 (reader_array 32)
      (put (word_of_nat (length (hubs p)) :: byte) @ concat (map id (hubs p)) @ rest) = Inr (hubs p, rest)" for rest
    by (rule read_counted_append)
      (use assms in \<open>auto simp: policy_typed_def policy_valid_def list_all_iff intro: reader_array_append\<close>)
  have rs: "read_counted policy_error 64 read_rule
      (put (word_of_nat (length (rules p)) :: byte) @ concat (map rule_layout (rules p)) @ rest) = Inr (rules p, rest)" for rest
    by (rule read_counted_append)
      (use assms in \<open>auto simp: policy_typed_def policy_valid_def list_all_iff intro!: read_rule_append\<close>)
  have gs: "read_counted policy_error 16 read_text
      (put (word_of_nat (length (groups p)) :: byte) @ concat (map text_layout (groups p)) @ rest) = Inr (groups p, rest)" for rest
    by (rule read_counted_append)
      (use assms in \<open>auto simp: policy_valid_def list_all_iff intro!: read_text_append\<close>)
  have ms: "prepeat (length (members p)) read_member (concat (map member_layout (members p)) @ rest) = Inr (members p, rest)" for rest
    by (rule prepeat_append)
      (use assms in \<open>auto simp: policy_typed_def policy_valid_def list_all_iff intro!: read_member_append\<close>)
  have gws: "read_counted policy_error 16 read_gateway
      (put (word_of_nat (length (gateways p)) :: byte) @ concat (map gateway_layout (gateways p)) @ rest) = Inr (gateways p, rest)" for rest
    by (rule read_counted_append)
      (use assms in \<open>auto simp: policy_typed_def policy_valid_def list_all_iff intro!: read_gateway_append\<close>)
  have rts: "read_counted policy_error 32 read_route
      (put (word_of_nat (length (routes p)) :: byte) @ concat (map route_layout (routes p)) @ rest) = Inr (routes p, rest)" for rest
    by (rule read_counted_append)
      (use assms in \<open>auto simp: policy_typed_def policy_valid_def list_all_iff intro!: read_route_append\<close>)
  have mcount: "length (members p) \<le> 254" "unat (word_of_nat (length (members p)) :: 16 word) = length (members p)"
    using assms(2) by (simp_all add: policy_valid_def unat_of_nat_size)
  have topo: "topology_of_raw (topology_raw (topology p)) = topology p"
    using assms(1) by (simp add: policy_typed_def)
  have whole: "\<lparr>revision = revision p, managed = managed p, topology = topology p, hubs = hubs p, rules = rules p,
      groups = groups p, members = members p, gateways = gateways p, routes = routes p\<rparr> = p" by simp
  note steps = pbind_step reader_get_append read_flag_append hs [unfolded list.map_id] rs gs ms gws rts [of "[]", unfolded append_Nil2]
  show ?thesis
    unfolding decode_network_policy_def res_bind_require parse_all_Inr_iff if_P [OF len]
    unfolding policy_layout_def
    by (simp add: steps mcount topo enc whole Let_def del: put_byte)
qed

lemma decode_policy_dest:
  assumes "decode_network_policy bs = Inr p"
  shows "policy_typed p \<and> encode_network_policy p = Inr bs"
proof -
  from assms obtain r0 r1 r2 r3 r4 r5 r6 r7 r8 r9 r10 and version :: byte and topo and count :: "16 word"
    where reads: "reader_get bs = Inr (version, r0)" "version = 1"
      "reader_get r0 = Inr (revision p, r1)" "read_flag policy_error r1 = Inr (managed p, r2)"
      "reader_get r2 = Inr (topo, r3)" "topology p = topology_of_raw topo"
      "read_counted policy_error 32 (reader_array 32) r3 = Inr (hubs p, r4)"
      "read_counted policy_error 64 read_rule r4 = Inr (rules p, r5)"
      "read_counted policy_error 16 read_text r5 = Inr (groups p, r6)"
      "reader_get r6 = Inr (count, r7)" "prepeat (unat count) read_member r7 = Inr (members p, r8)"
      "read_counted policy_error 16 read_gateway r8 = Inr (gateways p, r9)"
      "read_counted policy_error 32 read_route r9 = Inr (routes p, r10)" "r10 = []"
    and enc: "\<exists>e. encode_network_policy p = Inr e"
    by (auto simp: decode_network_policy_def parse_all_Inr_iff pbind_Inr_iff Let_def split: if_splits)
  have hubs: "r3 = put (word_of_nat (length (hubs p)) :: byte) @ concat (map id (hubs p)) @ r4 \<and>
      length (hubs p) \<le> 32 \<and> list_all (\<lambda>d. length d = 32) (hubs p)"
    by (rule read_counted_dest [OF reads(7)]) (auto dest: reader_array_dest)
  have groups: "r5 = put (word_of_nat (length (groups p)) :: byte) @ concat (map text_layout (groups p)) @ r6 \<and>
      length (groups p) \<le> 16 \<and> list_all (\<lambda>d. True) (groups p)"
    by (rule read_counted_dest [OF reads(9)]) (auto dest: read_text_dest)
  note rest = read_counted_dest [OF reads(8) read_rule_dest] prepeat_dest [OF reads(11) read_member_dest]
    read_counted_dest [OF reads(12) read_gateway_dest] read_counted_dest [OF reads(13) read_route_dest]
  have typed: "policy_typed p"
    using hubs rest reads(6) by (simp add: policy_typed_def)
  have "bs = policy_layout p"
    using hubs groups rest reads(2,6,14) reader_get_dest [OF reads(1)] reader_get_dest [OF reads(3)]
      read_flag_dest [OF reads(4)] reader_get_dest [OF reads(5)] reader_get_dest [OF reads(10)]
    by (simp add: policy_layout_def del: put_byte)
  with enc typed show ?thesis by (auto simp: encode_network_policy_Inr_iff)
qed

interpretation policy_codec: wire_codec encode_network_policy decode_network_policy policy_typed
proof unfold_locales
  show "policy_typed p \<Longrightarrow> encode_network_policy p = Inr bs \<Longrightarrow> decode_network_policy bs = Inr p" for p bs
    using decode_policy_layout by (auto simp: encode_network_policy_Inr_iff)
qed (rule decode_policy_dest)

section \<open>What the decisions mean\<close>

lemma rules_allow_iff:
  "rules_allow p a b rs allowed \<longleftrightarrow>
     (allowed \<or> (\<exists>r\<in>set rs. rule_applies p a b r)) \<and> (\<forall>r\<in>set rs. rule_applies p a b r \<longrightarrow> rule_allow r)"
  by (induction rs arbitrary: allowed) auto

lemma rule_applies_commute: "rule_applies p a b r = rule_applies p b a r"
  by (auto simp: rule_applies_def)

lemma policy_allows_commute: "policy_allows p a b = policy_allows p b a"
  by (auto simp: policy_allows_def rules_allow_iff rule_applies_commute [of p a b])

lemma policy_fanout_allows_commute: "policy_fanout_allows p a b = policy_fanout_allows p b a"
  by (auto simp: policy_fanout_allows_def policy_allows_commute [of p a b])

definition policy_sample :: NetworkPolicy where
  "policy_sample = default_policy\<lparr>managed := True, rules :=
     [\<lparr>rule_first = \<lparr>subject_device = no_device, subject_group = []\<rparr>,
       rule_second = \<lparr>subject_device = no_device, subject_group = str ''members''\<rparr>, rule_allow = True\<rparr>,
      \<lparr>rule_first = \<lparr>subject_device = replicate 32 1, subject_group = []\<rparr>,
       rule_second = \<lparr>subject_device = replicate 32 2, subject_group = []\<rparr>, rule_allow = False\<rparr>]\<rparr>"

text \<open>
  C5. The access decision of a network: two devices may talk when they are two different real
  devices and the policy is unmanaged, or the hub-and-spoke topology does not keep two spokes
  apart, some rule applies to the pair, and every rule that applies allows it (a deny rule wins
  wherever it stands). The decision does not depend on which of the two is the sender.
\<close>

theorem policy_allows_iff:
  "(policy_allows p a b \<longleftrightarrow>
     a \<noteq> b \<and> a \<noteq> no_device \<and> b \<noteq> no_device \<and>
     (\<not> managed p \<or>
       (topology p = Topology_hub_spoke \<longrightarrow> a \<in> set (hubs p) \<or> b \<in> set (hubs p)) \<and>
       (\<exists>r\<in>set (rules p). rule_applies p a b r) \<and>
       (\<forall>r\<in>set (rules p). rule_applies p a b r \<longrightarrow> rule_allow r)))
   \<and> policy_allows p a b = policy_allows p b a
   \<and> policy_fanout_allows p a b = policy_fanout_allows p b a"
  using policy_allows_commute [of p a b] policy_fanout_allows_commute [of p a b]
  by (auto simp: policy_allows_def rules_allow_iff)

theorem policy_allows_iff_witness:
  "policy_allows policy_sample (replicate 32 1) (replicate 32 3) \<and>
   \<not> policy_allows policy_sample (replicate 32 2) (replicate 32 1)"
  unfolding policy_allows_iff [of policy_sample "replicate 32 1" "replicate 32 3", THEN conjunct1]
    policy_allows_iff [of policy_sample "replicate 32 2" "replicate 32 1", THEN conjunct1]
  by (simp add: policy_sample_def default_policy_def rule_applies_def matches_def policy_group_def
      no_device_def replicate_eq_replicate)

lemma prefix_mask_and:
  assumes "q \<le> p" and "p \<le> 32"
  shows "prefix_mask p AND prefix_mask q = prefix_mask q"
proof (rule bit_word_eqI)
  fix i assume "i < LENGTH(32)"
  moreover have "unat q \<le> unat p" using assms(1) by (simp add: word_le_nat_alt)
  moreover have ones: "(0xffffffff :: 32 word) = mask 32" by (simp add: mask_eq_exp_minus_1)
  ultimately show "bit (prefix_mask p AND prefix_mask q) i = bit (prefix_mask q) i"
    unfolding prefix_mask_def ones by (auto simp only: bit_and_iff bit_push_bit_iff bit_mask_iff) simp_all
qed

lemma subnet_contains_shorter:
  assumes "subnet_contains s p x" and "0 < q" and "q \<le> p"
  shows "s AND prefix_mask q = x AND prefix_mask q"
proof -
  from assms(1) have "p \<le> 32" and s: "s = x AND prefix_mask p" by (auto simp: subnet_contains_def)
  then have "s AND prefix_mask q = x AND (prefix_mask p AND prefix_mask q)" by (simp add: and.assoc)
  with prefix_mask_and [OF assms(3) \<open>p \<le> 32\<close>] show ?thesis by simp
qed

lemma subnets_overlap_iff:
  assumes "subnet_contains s p s" and "subnet_contains t q t"
  shows "subnets_overlap s p t q \<longleftrightarrow> (\<exists>x. subnet_contains s p x \<and> subnet_contains t q x)"
proof
  have pq: "0 < p" "p \<le> 32" "0 < q" "q \<le> 32" "s AND prefix_mask p = s" "t AND prefix_mask q = t"
    using assms by (simp_all add: subnet_contains_def)
  assume "subnets_overlap s p t q"
  then have same: "s AND prefix_mask (min p q) = t AND prefix_mask (min p q)"
    using pq by (simp add: subnets_overlap_def Let_def not_less [symmetric] word_gt_0)
  show "\<exists>x. subnet_contains s p x \<and> subnet_contains t q x"
  proof (cases "p \<le> q")
    case True
    with same pq have "subnet_contains s p t" by (simp add: min_def subnet_contains_def)
    with assms(2) show ?thesis by blast
  next
    case False
    with same pq have "subnet_contains t q s" by (simp add: min_def subnet_contains_def)
    with assms(1) show ?thesis by blast
  qed
next
  assume "\<exists>x. subnet_contains s p x \<and> subnet_contains t q x"
  then obtain x where x: "subnet_contains s p x" "subnet_contains t q x" by blast
  then have pos: "0 < p" "0 < q" "p \<le> 32" "q \<le> 32" by (simp_all add: subnet_contains_def)
  have "0 < min p q" using pos by (simp add: min_def)
  from subnet_contains_shorter [OF x(1) this] subnet_contains_shorter [OF x(2) this]
  show "subnets_overlap s p t q"
    using pos by (auto simp: subnets_overlap_def Let_def)
qed

lemma private_routed_subnet_canonical: "private_routed_subnet a p \<Longrightarrow> subnet_contains a p a"
  by (simp add: private_routed_subnet_def split: if_splits)

text \<open>
  C24. Routed subnets of a policy the encoder accepts are disjoint as sets of addresses: an
  address lies in at most one of them, so that a destination has at most one gateway.
\<close>

theorem policy_routes_disjoint:
  assumes "encode_network_policy p = Inr bs"
    and "q \<in> set (routes p)" and "r \<in> set (routes p)"
    and "subnet_contains (route_address q) (route_prefix q) x"
    and "subnet_contains (route_address r) (route_prefix r) x"
  shows "q = r"
proof (rule ccontr)
  assume "q \<noteq> r"
  from assms(1) have v: "list_all (route_ok p) (routes p)" "sorted_wrt routes_apart (routes p)"
    by (simp_all add: encode_network_policy_Inr_iff policy_valid_def)
  then have canon: "subnet_contains (route_address q) (route_prefix q) (route_address q)"
      "subnet_contains (route_address r) (route_prefix r) (route_address r)"
    using assms(2,3) by (auto simp: list_all_iff route_ok_def intro: private_routed_subnet_canonical)
  from assms(2,3) obtain i j where ij: "i < length (routes p)" "j < length (routes p)"
    "routes p ! i = q" "routes p ! j = r" by (auto simp: in_set_conv_nth)
  with \<open>q \<noteq> r\<close> have "i < j \<or> j < i" by (metis nat_neq_iff)
  with v(2) ij have "routes_apart q r \<or> routes_apart r q" by (auto simp: sorted_wrt_iff_nth_less)
  with subnets_overlap_iff [OF canon] subnets_overlap_iff [OF canon(2,1)] assms(4,5) show False
    by (auto simp: routes_apart_def)
qed

definition route_sample :: NetworkPolicy where
  "route_sample = default_policy\<lparr>managed := True,
     gateways := [\<lparr>gateway_device = replicate 32 1, gateway_approved = True\<rparr>],
     routes := [\<lparr>route_gateway = replicate 32 1, route_address = 0x0a010000, route_prefix = 16, route_group = []\<rparr>,
       \<lparr>route_gateway = replicate 32 1, route_address = 0x0a020000, route_prefix = 16, route_group = []\<rparr>]\<rparr>"

theorem policy_routes_disjoint_witness:
  "\<not> subnet_contains 0x0a020000 16 0x0a010203"
proof
  assume c: "subnet_contains 0x0a020000 16 0x0a010203"
  have e: "encode_network_policy route_sample = Inr (policy_layout route_sample)"
    unfolding encode_network_policy_Inr_iff
    by (simp add: policy_valid_def route_sample_def default_policy_def known_groups_def str_def route_ok_def
        private_routed_subnet_def subnet_contains_def prefix_mask_def text_ok_def routes_apart_def
        subnets_overlap_def no_device_def replicate_eq_replicate)
  have "routes route_sample ! 0 = routes route_sample ! 1"
    by (rule policy_routes_disjoint [OF e, where x = "0x0a010203"])
      (use c in \<open>simp_all add: route_sample_def default_policy_def subnet_contains_def prefix_mask_def\<close>)
  then show False by (simp add: route_sample_def default_policy_def)
qed

end
