(* ===== verification/Network_Management.thy ===== *)
theory Network_Management
  imports Network_Messages Network_Policy
begin

text \<open>
  \<open>audit_event.hpp/.cpp\<close> and \<open>network_management.hpp/.cpp\<close>: audit events, and the requests with
  which the owner or an administrator inspects and replaces the policy of a network.
\<close>

section \<open>Audit events\<close>

datatype AuditKind =
    AK_network_create | AK_network_join | AK_network_leave | AK_member_invite | AK_member_approve
  | AK_member_kick | AK_password_change | AK_invite_issue | AK_invite_revoke | AK_account_create
  | AK_device_enroll | AK_device_revoke | AK_gateway_request | AK_policy_change | AK_enrollment_issue
  | AK_unlisted byte

fun audit_kind_raw :: "AuditKind \<Rightarrow> byte" where
  "audit_kind_raw AK_network_create = 1"
| "audit_kind_raw AK_network_join = 2"
| "audit_kind_raw AK_network_leave = 3"
| "audit_kind_raw AK_member_invite = 4"
| "audit_kind_raw AK_member_approve = 5"
| "audit_kind_raw AK_member_kick = 6"
| "audit_kind_raw AK_password_change = 7"
| "audit_kind_raw AK_invite_issue = 8"
| "audit_kind_raw AK_invite_revoke = 9"
| "audit_kind_raw AK_account_create = 10"
| "audit_kind_raw AK_device_enroll = 11"
| "audit_kind_raw AK_device_revoke = 12"
| "audit_kind_raw AK_gateway_request = 13"
| "audit_kind_raw AK_policy_change = 14"
| "audit_kind_raw AK_enrollment_issue = 15"
| "audit_kind_raw (AK_unlisted raw) = raw"

definition audit_kind_of_raw :: "byte \<Rightarrow> AuditKind" where
  "audit_kind_of_raw raw =
     (if raw = 1 then AK_network_create else if raw = 2 then AK_network_join
      else if raw = 3 then AK_network_leave else if raw = 4 then AK_member_invite
      else if raw = 5 then AK_member_approve else if raw = 6 then AK_member_kick
      else if raw = 7 then AK_password_change else if raw = 8 then AK_invite_issue
      else if raw = 9 then AK_invite_revoke else if raw = 10 then AK_account_create
      else if raw = 11 then AK_device_enroll else if raw = 12 then AK_device_revoke
      else if raw = 13 then AK_gateway_request else if raw = 14 then AK_policy_change
      else if raw = 15 then AK_enrollment_issue else AK_unlisted raw)"

fun audit_kind_name :: "AuditKind \<Rightarrow> string" where
  "audit_kind_name AK_network_create = ''Network created''"
| "audit_kind_name AK_network_join = ''Member joined or requested access''"
| "audit_kind_name AK_network_leave = ''Member left''"
| "audit_kind_name AK_member_invite = ''Member invited''"
| "audit_kind_name AK_member_approve = ''Member approved''"
| "audit_kind_name AK_member_kick = ''Member removed''"
| "audit_kind_name AK_password_change = ''Network password changed''"
| "audit_kind_name AK_invite_issue = ''Invitation link issued''"
| "audit_kind_name AK_invite_revoke = ''Invitation links revoked''"
| "audit_kind_name AK_account_create = ''Account created''"
| "audit_kind_name AK_device_enroll = ''Device enrolled''"
| "audit_kind_name AK_device_revoke = ''Device revoked''"
| "audit_kind_name AK_gateway_request = ''Gateway requested''"
| "audit_kind_name AK_policy_change = ''Network policy changed''"
| "audit_kind_name AK_enrollment_issue = ''Device enrollment code issued''"
| "audit_kind_name (AK_unlisted raw) = ''Unknown event''"

record AuditEvent =
  audit_sequence :: "64 word"
  audit_timestamp_ms :: "64 word"
  audit_network :: NetworkId
  audit_actor :: DeviceId
  audit_target :: DeviceId
  audit_kind :: AuditKind
  audit_result :: NetworkResultCode
  audit_policy_revision :: "64 word"

definition int64_max :: "64 word" where
  "int64_max = 0x7fffffffffffffff"

definition audit_event_ok :: "AuditEvent \<Rightarrow> bool" where
  "audit_event_ok e \<longleftrightarrow>
     \<not> (audit_actor e = no_device \<or> audit_kind_raw (audit_kind e) < audit_kind_raw AK_network_create \<or>
        audit_kind_raw (audit_kind e) > audit_kind_raw AK_enrollment_issue \<or>
        \<not> is_known_network_result_code (audit_result e) \<or>
        audit_timestamp_ms e > int64_max \<or> audit_policy_revision e > int64_max)"

definition encode_audit_event :: "AuditEvent \<Rightarrow> bytes res" where
  "encode_audit_event e = res_bind (require (Invalid_argument ''invalid audit event'') (audit_event_ok e)) (\<lambda>_.
     Inr (put (audit_sequence e) @ put (audit_timestamp_ms e) @ audit_network e @ audit_actor e @ audit_target e
       @ put (audit_kind_raw (audit_kind e)) @ put (network_result_code_raw (audit_result e))
       @ put (audit_policy_revision e)))"

definition decode_audit_event :: "bytes \<Rightarrow> AuditEvent res" where
  "decode_audit_event = parse_all (
     pbind reader_get (\<lambda>sequence. pbind reader_get (\<lambda>timestamp. pbind (reader_array 16) (\<lambda>network.
     pbind (reader_array 32) (\<lambda>actor. pbind (reader_array 32) (\<lambda>target. pbind reader_get (\<lambda>kind.
     pbind reader_get (\<lambda>code. pbind reader_get (\<lambda>rev. pbind reader_finish (\<lambda>_.
     let e = \<lparr>audit_sequence = sequence, audit_timestamp_ms = timestamp, audit_network = network,
              audit_actor = actor, audit_target = target, audit_kind = audit_kind_of_raw kind,
              audit_result = network_result_code_of_raw code, audit_policy_revision = rev\<rparr> in
     pbind (plift (encode_audit_event e)) (\<lambda>_. preturn e)))))))))))"

section \<open>Management requests and results\<close>

datatype ManagementAction = MA_inspect | MA_replace_policy | MA_request_gateway | MA_unlisted byte

fun management_action_raw :: "ManagementAction \<Rightarrow> byte" where
  "management_action_raw MA_inspect = 1"
| "management_action_raw MA_replace_policy = 2"
| "management_action_raw MA_request_gateway = 3"
| "management_action_raw (MA_unlisted raw) = raw"

definition management_action_of_raw :: "byte \<Rightarrow> ManagementAction" where
  "management_action_of_raw raw = (if raw = 1 then MA_inspect else if raw = 2 then MA_replace_policy
     else if raw = 3 then MA_request_gateway else MA_unlisted raw)"

record ManagementRequest =
  manage_action :: ManagementAction
  manage_network :: NetworkId
  manage_policy :: NetworkPolicy

record ManagementResult =
  managed_action :: ManagementAction
  managed_network :: NetworkId
  managed_code :: NetworkResultCode
  managed_pending :: "DeviceId list"
  managed_audit_events :: "AuditEvent list"
  managed_audit_write_failures :: "64 word"
  managed_policy :: NetworkPolicy

definition no_network :: NetworkId where
  "no_network = replicate 16 0"

definition management_id_ok :: "ManagementAction \<Rightarrow> NetworkId \<Rightarrow> bool" where
  "management_id_ok a network \<longleftrightarrow> \<not> (management_action_raw a < management_action_raw MA_inspect \<or>
     management_action_raw a > management_action_raw MA_request_gateway \<or> network = no_network)"

definition validate_management :: "ManagementAction \<Rightarrow> NetworkId \<Rightarrow> unit res" where
  "validate_management a network = require (Invalid_argument ''invalid management request'') (management_id_ok a network)"

definition write_policy :: "NetworkPolicy \<Rightarrow> bytes res" where
  "write_policy p = res_bind (encode_network_policy p) (\<lambda>bytes. Inr (put (word_of_nat (length bytes) :: 32 word) @ bytes))"

definition read_policy_field :: "NetworkPolicy parser" where
  "read_policy_field = pbind reader_get (\<lambda>n :: 32 word. pbind (reader_bytes (unat n)) (\<lambda>b. plift (decode_network_policy b)))"

definition encode_management_request :: "ManagementRequest \<Rightarrow> bytes res" where
  "encode_management_request q =
     res_bind (validate_management (manage_action q) (manage_network q)) (\<lambda>_.
     res_bind (write_policy (manage_policy q)) (\<lambda>p.
       Inr (put (1 :: byte) @ put (management_action_raw (manage_action q)) @ manage_network q @ p)))"

definition decode_management_request :: "bytes \<Rightarrow> ManagementRequest res" where
  "decode_management_request = parse_all (
     pbind reader_get (\<lambda>version :: byte.
     pbind (prequire (Invalid_argument ''unknown management version'') (version = 1)) (\<lambda>_.
     pbind reader_get (\<lambda>action. pbind (reader_array 16) (\<lambda>network.
     pbind read_policy_field (\<lambda>p. pbind reader_finish (\<lambda>_.
     let q = \<lparr>manage_action = management_action_of_raw action, manage_network = network, manage_policy = p\<rparr> in
     pbind (plift (encode_management_request q)) (\<lambda>_. preturn q))))))))"

definition encode_management_result :: "ManagementResult \<Rightarrow> bytes res" where
  "encode_management_result q =
     res_bind (validate_management (managed_action q) (managed_network q)) (\<lambda>_.
     res_bind (require (Invalid_argument ''invalid management result'') (is_known_network_result_code (managed_code q))) (\<lambda>_.
     res_bind (write_policy (managed_policy q)) (\<lambda>p.
     res_bind (require (Invalid_argument ''too many pending requests'')
       (\<not> length (managed_pending q) > max_network_peer_entries)) (\<lambda>_.
     res_bind (require (Invalid_argument ''too many audit events'') (\<not> length (managed_audit_events q) > 64)) (\<lambda>_.
     res_bind (write_list encode_audit_event (managed_audit_events q)) (\<lambda>events.
       Inr (put (1 :: byte) @ put (management_action_raw (managed_action q)) @ managed_network q
         @ put (network_result_code_raw (managed_code q)) @ p
         @ put (word_of_nat (length (managed_pending q)) :: 16 word) @ concat (managed_pending q)
         @ put (word_of_nat (length (managed_audit_events q)) :: byte) @ events
         @ put (managed_audit_write_failures q))))))))"

definition decode_management_result :: "bytes \<Rightarrow> ManagementResult res" where
  "decode_management_result = parse_all (
     pbind reader_get (\<lambda>version :: byte.
     pbind (prequire (Invalid_argument ''unknown management version'') (version = 1)) (\<lambda>_.
     pbind reader_get (\<lambda>action. pbind (reader_array 16) (\<lambda>network. pbind reader_get (\<lambda>code.
     pbind read_policy_field (\<lambda>p.
     pbind reader_get (\<lambda>count :: 16 word.
     pbind (prequire (Invalid_argument ''too many pending requests'') (\<not> unat count > max_network_peer_entries)) (\<lambda>_.
     pbind (prepeat (unat count) (reader_array 32)) (\<lambda>pending.
     pbind (read_counted (Invalid_argument ''too many audit events'') 64
       (pbind (reader_bytes 107) (\<lambda>b. plift (decode_audit_event b)))) (\<lambda>events.
     pbind reader_get (\<lambda>failures. pbind reader_finish (\<lambda>_.
     let q = \<lparr>managed_action = management_action_of_raw action, managed_network = network,
              managed_code = network_result_code_of_raw code, managed_pending = pending,
              managed_audit_events = events, managed_audit_write_failures = failures, managed_policy = p\<rparr> in
     pbind (plift (encode_management_result q)) (\<lambda>_. preturn q))))))))))))))"

section \<open>Canonical encodings\<close>

lemma management_raw_of_raw [simp]:
  "audit_kind_raw (audit_kind_of_raw b) = b"
  "management_action_raw (management_action_of_raw b) = b"
  by (simp_all add: audit_kind_of_raw_def management_action_of_raw_def)

definition audit_typed :: "AuditEvent \<Rightarrow> bool" where
  "audit_typed e \<longleftrightarrow> length (audit_network e) = 16 \<and> length (audit_actor e) = 32 \<and> length (audit_target e) = 32 \<and>
     audit_kind_of_raw (audit_kind_raw (audit_kind e)) = audit_kind e"

definition audit_layout :: "AuditEvent \<Rightarrow> bytes" where
  "audit_layout e = put (audit_sequence e) @ put (audit_timestamp_ms e) @ audit_network e @ audit_actor e @ audit_target e
     @ put (audit_kind_raw (audit_kind e)) @ put (network_result_code_raw (audit_result e)) @ put (audit_policy_revision e)"

lemma encode_audit_event_iff: "encode_audit_event e = Inr a \<longleftrightarrow> audit_event_ok e \<and> a = audit_layout e"
  by (auto simp: encode_audit_event_def audit_layout_def)

lemma audit_event_eta [simp]:
  "\<lparr>audit_sequence = audit_sequence e, audit_timestamp_ms = audit_timestamp_ms e, audit_network = audit_network e,
     audit_actor = audit_actor e, audit_target = audit_target e, audit_kind = audit_kind e,
     audit_result = audit_result e, audit_policy_revision = audit_policy_revision e\<rparr> = e"
  by simp

interpretation audit_codec: wire_codec encode_audit_event decode_audit_event audit_typed
proof unfold_locales
  fix x :: AuditEvent and bs
  assume typed: "audit_typed x" and enc: "encode_audit_event x = Inr bs"
  then have "is_known_network_result_code (audit_result x)" and bs: "bs = audit_layout x"
    by (simp_all add: encode_audit_event_iff audit_event_ok_def)
  with typed enc show "decode_audit_event bs = Inr x"
    by (simp add: decode_audit_event_def bs audit_layout_def audit_typed_def wire_steps Let_def)
next
  fix x :: AuditEvent and bs
  assume "decode_audit_event bs = Inr x"
  then obtain kind bs' where "encode_audit_event x = Inr bs'" "audit_kind x = audit_kind_of_raw kind"
    "length (audit_network x) = 16" "length (audit_actor x) = 32" "length (audit_target x) = 32" "bs = audit_layout x"
    by (auto simp: decode_audit_event_def wire_reads Let_def audit_layout_def)
  then show "audit_typed x \<and> encode_audit_event x = Inr bs"
    by (simp add: audit_typed_def encode_audit_event_iff)
qed

definition policy_field :: "NetworkPolicy \<Rightarrow> bytes" where
  "policy_field p = put (word_of_nat (length (policy_layout p)) :: 32 word) @ policy_layout p"

lemma write_policy_iff: "write_policy p = Inr a \<longleftrightarrow> policy_valid p \<and> a = policy_field p"
  by (auto simp: write_policy_def policy_field_def res_bind_Inr_iff encode_network_policy_Inr_iff)

lemma decode_policy_iff:
  "decode_network_policy b = Inr p \<longleftrightarrow> policy_typed p \<and> policy_valid p \<and> b = policy_layout p"
  by (simp add: policy_codec.dec_iff encode_network_policy_Inr_iff)

lemma read_policy_field_iff:
  "read_policy_field r = Inr (p, rest) \<longleftrightarrow> r = policy_field p @ rest \<and> policy_typed p \<and> policy_valid p"
proof
  assume "read_policy_field r = Inr (p, rest)"
  then show "r = policy_field p @ rest \<and> policy_typed p \<and> policy_valid p"
    by (auto simp: read_policy_field_def wire_reads decode_policy_iff policy_field_def)
next
  assume r: "r = policy_field p @ rest \<and> policy_typed p \<and> policy_valid p"
  then have "unat (word_of_nat (length (policy_layout p)) :: 32 word) = length (policy_layout p)"
    using policy_layout_length [of p] by (simp add: unat_of_nat_size)
  moreover have "decode_network_policy (policy_layout p) = Inr p" using r by (simp add: decode_policy_iff)
  ultimately show "read_policy_field r = Inr (p, rest)"
    using r by (simp add: read_policy_field_def policy_field_def wire_steps)
qed

definition management_request_typed :: "ManagementRequest \<Rightarrow> bool" where
  "management_request_typed q \<longleftrightarrow> length (manage_network q) = 16 \<and> policy_typed (manage_policy q) \<and>
     management_action_of_raw (management_action_raw (manage_action q)) = manage_action q"

interpretation management_request_codec: wire_codec encode_management_request decode_management_request
  management_request_typed
proof unfold_locales
  fix x :: ManagementRequest and bs
  assume typed: "management_request_typed x" and enc: "encode_management_request x = Inr bs"
  then have field: "read_policy_field (policy_field (manage_policy x)) = Inr (manage_policy x, [])"
    and bs: "bs = 1 # management_action_raw (manage_action x) # manage_network x @ policy_field (manage_policy x)"
    by (auto simp: encode_management_request_def res_bind_Inr_iff write_policy_iff read_policy_field_iff
        management_request_typed_def)
  have eta: "\<lparr>manage_action = manage_action x, manage_network = manage_network x, manage_policy = manage_policy x\<rparr> = x"
    by simp
  from typed enc show "decode_management_request bs = Inr x"
    by (simp add: decode_management_request_def bs wire_steps field management_request_typed_def Let_def eta)
next
  fix x :: ManagementRequest and bs
  assume "decode_management_request bs = Inr x"
  then obtain action bs' where "encode_management_request x = Inr bs'"
    "manage_action x = management_action_of_raw action" "length (manage_network x) = 16"
    "policy_typed (manage_policy x)" "policy_valid (manage_policy x)"
    "bs = 1 # management_action_raw (manage_action x) # manage_network x @ policy_field (manage_policy x)"
    by (auto simp: decode_management_request_def wire_reads read_policy_field_iff Let_def split: if_splits)
  then show "management_request_typed x \<and> encode_management_request x = Inr bs"
    by (auto simp: management_request_typed_def encode_management_request_def res_bind_Inr_iff write_policy_iff)
qed

definition management_result_typed :: "ManagementResult \<Rightarrow> bool" where
  "management_result_typed q \<longleftrightarrow> length (managed_network q) = 16 \<and> policy_typed (managed_policy q) \<and>
     management_action_of_raw (management_action_raw (managed_action q)) = managed_action q \<and>
     list_all (\<lambda>d. length d = 32) (managed_pending q) \<and> list_all audit_typed (managed_audit_events q)"

definition management_result_layout :: "ManagementResult \<Rightarrow> bytes" where
  "management_result_layout q = management_action_raw (managed_action q) # managed_network q
     @ put (network_result_code_raw (managed_code q)) @ policy_field (managed_policy q)
     @ put (word_of_nat (length (managed_pending q)) :: 16 word) @ concat (managed_pending q)
     @ put (word_of_nat (length (managed_audit_events q)) :: byte) @ concat (map audit_layout (managed_audit_events q))
     @ put (managed_audit_write_failures q)"

lemma encode_management_result_iff:
  "encode_management_result q = Inr bs \<longleftrightarrow> management_id_ok (managed_action q) (managed_network q) \<and>
     is_known_network_result_code (managed_code q) \<and> policy_valid (managed_policy q) \<and>
     length (managed_pending q) \<le> 253 \<and> length (managed_audit_events q) \<le> 64 \<and>
     list_all audit_event_ok (managed_audit_events q) \<and> bs = 1 # management_result_layout q"
  by (auto simp: encode_management_result_def res_bind_Inr_iff validate_management_def write_policy_iff
      write_list_Inr_iff [OF encode_audit_event_iff] network_sizes management_result_layout_def)

lemma read_audit_field_iff:
  "pbind (reader_bytes 107) (\<lambda>b. plift (decode_audit_event b)) r = Inr (e, rest) \<longleftrightarrow>
     r = audit_layout e @ rest \<and> (audit_typed e \<and> audit_event_ok e)"
proof -
  have "audit_typed e \<Longrightarrow> length (audit_layout e) = 107" for e
    by (simp add: audit_typed_def audit_layout_def)
  then show ?thesis by (auto simp: wire_reads audit_codec.dec_iff encode_audit_event_iff)
qed

lemma read_pending_iff:
  "prepeat n (reader_array 32) r = Inr (xs, rest) \<longleftrightarrow>
     r = concat xs @ rest \<and> length xs = n \<and> list_all (\<lambda>d. length d = 32) xs"
  using prepeat_iff [where p = "reader_array 32" and enc = id and P = "\<lambda>d. length d = 32", of n r xs rest]
  by (simp add: reader_array_iff)

interpretation management_result_codec: wire_codec encode_management_result decode_management_result
  management_result_typed
proof unfold_locales
  fix x :: ManagementResult and bs
  assume typed: "management_result_typed x" and enc: "encode_management_result x = Inr bs"
  note e = enc [unfolded encode_management_result_iff]
  have bs: "bs = 1 # management_result_layout x" using e by simp
  have field: "read_policy_field (policy_field (managed_policy x) @ rest) = Inr (managed_policy x, rest)" for rest
    using typed e by (simp add: read_policy_field_iff management_result_typed_def)
  have pending: "prepeat (length (managed_pending x)) (reader_array 32) (concat (managed_pending x) @ rest)
      = Inr (managed_pending x, rest)" for rest
    using typed by (simp add: read_pending_iff management_result_typed_def)
  have events: "read_counted err 64 (pbind (reader_bytes 107) (\<lambda>b. plift (decode_audit_event b)))
      (word_of_nat (length (managed_audit_events x)) # concat (map audit_layout (managed_audit_events x)) @ rest)
      = Inr (managed_audit_events x, rest)" for err rest
    using typed e by (simp add: read_counted_iff [OF read_audit_field_iff] management_result_typed_def list_all_iff)
  have eta: "\<lparr>managed_action = managed_action x, managed_network = managed_network x, managed_code = managed_code x,
      managed_pending = managed_pending x, managed_audit_events = managed_audit_events x,
      managed_audit_write_failures = managed_audit_write_failures x, managed_policy = managed_policy x\<rparr> = x"
    by simp
  show "decode_management_result bs = Inr x"
    using typed enc e
    by (simp add: decode_management_result_def bs management_result_layout_def wire_steps field pending events
        management_result_typed_def network_sizes unat_of_nat_size Let_def eta)
next
  fix x :: ManagementResult and bs
  assume "decode_management_result bs = Inr x"
  then obtain action bs' and count :: "16 word" where valid: "encode_management_result x = Inr bs'"
    and "managed_action x = management_action_of_raw action" "length (managed_network x) = 16"
      "policy_typed (managed_policy x)" "list_all (\<lambda>d. length d = 32) (managed_pending x)"
      "list_all (\<lambda>e. audit_typed e \<and> audit_event_ok e) (managed_audit_events x)"
    and "bs = 1 # management_result_layout x"
    by (auto simp: decode_management_result_def wire_reads read_policy_field_iff read_pending_iff Let_def
        read_counted_iff [OF read_audit_field_iff] management_result_layout_def split: if_splits)
  then show "management_result_typed x \<and> encode_management_result x = Inr bs"
    by (simp add: management_result_typed_def encode_management_result_iff list_all_iff)
qed

text \<open>
  Audit events, management requests and management results are canonical: a payload decodes
  to a message exactly when it is that message's encoding, including the embedded policy document,
  the pending requests and the audit events.
\<close>

lemma management_messages_roundtrip:
  "(decode_audit_event b1 = Inr m1 \<longleftrightarrow> audit_typed m1 \<and> encode_audit_event m1 = Inr b1) \<and>
   (decode_management_request b2 = Inr m2 \<longleftrightarrow> management_request_typed m2 \<and> encode_management_request m2 = Inr b2) \<and>
   (decode_management_result b3 = Inr m3 \<longleftrightarrow> management_result_typed m3 \<and> encode_management_result m3 = Inr b3)"
  by (simp only: simp_thms audit_codec.dec_iff management_request_codec.dec_iff management_result_codec.dec_iff)

end
