(* ===== verification/Relay_Store.thy ===== *)
theory Relay_Store
  imports User_Access Network_Management "HOL-Library.List_Lexorder" "HOL-Library.Product_Lexorder"
begin

text \<open>
  \<open>storage/relay_store.hpp\<close> and \<open>src/storage/relay_store.cpp\<close>: the relay's database. A table is
  the list of its rows in insertion order; a method is a function from the store to its value and
  the new store, or to the exception it throws, after which the store is unchanged (a failed
  statement has no effect and \<open>Transaction\<close> rolls back on every exit without \<open>commit\<close>). Each
  \<open>INSERT\<close> checks what the schema of \<open>migrate_to_v1\<close>..\<open>v3\<close> and \<open>migrate\<close> demands: primary keys and
  unique columns, \<open>CHECK\<close> clauses, foreign keys, and the triggers; \<open>DELETE\<close> cascades along the
  foreign keys. Failures of SQLite itself (I/O, locking, a corrupt file) are outside the model.
  Timestamps are mathematical integers.
\<close>

section \<open>Records and tables\<close>

record AccountRecord =
  account_id :: DeviceId
  account_owner :: DeviceId
  account_name :: bytes

record DeviceRecord =
  device_id :: DeviceId
  first_seen_at_ms :: int
  last_seen_at_ms :: int

record NetworkRecord =
  network_id :: NetworkId
  network_name :: bytes
  owner_device_id :: DeviceId
  created_at_ms :: int

datatype MembershipRole = MR_member | MR_owner

record MembershipRecord =
  member_network :: NetworkId
  member_id :: DeviceId
  membership_role :: MembershipRole
  joined_at_ms :: int

record NetworkSubnetRecord =
  subnet_network :: NetworkId
  subnet_address :: "32 word"
  subnet_prefix :: byte

record VirtualIpv4LeaseRecord =
  lease_network :: NetworkId
  lease_device :: DeviceId
  lease_address :: "32 word"

record InvitationRecord =
  invited_network :: NetworkId
  invited_device :: DeviceId
  invited_at_ms :: int

record JoinRequestRecord =
  requested_network :: NetworkId
  requested_device :: DeviceId
  requested_at_ms :: int

record PasswordVerifier =
  password_salt :: bytes
  password_digest :: bytes
  password_require_approval :: bool

text \<open>The rows of the tables that have no struct of their own.\<close>

record AccountDeviceRow =
  enrolled_device :: DeviceId
  enrolled_account :: DeviceId
  enrolled_label :: bytes
  enrolled_revoked :: bool

record EnrollmentRow =
  enrollment_account :: DeviceId
  enrollment_digest :: bytes
  enrollment_expires_ms :: int

record InvitationLinkRow =
  link_digest :: bytes
  link_network :: NetworkId
  link_expires_ms :: int
  link_remaining :: nat

record RelayState =
  state_devices :: "DeviceRecord list"
  state_networks :: "NetworkRecord list"
  state_memberships :: "MembershipRecord list"
  state_invitations :: "InvitationRecord list"
  state_join_requests :: "JoinRequestRecord list"
  state_subnets :: "NetworkSubnetRecord list"
  state_leases :: "VirtualIpv4LeaseRecord list"

record RelayStore =
  db_devices :: "DeviceRecord list"
  db_networks :: "NetworkRecord list"
  db_memberships :: "MembershipRecord list"
  db_invitations :: "InvitationRecord list"
  db_join_requests :: "JoinRequestRecord list"
  db_subnets :: "NetworkSubnetRecord list"
  db_leases :: "VirtualIpv4LeaseRecord list"
  db_accounts :: "AccountRecord list"
  db_account_devices :: "AccountDeviceRow list"
  db_enrollment :: "EnrollmentRow list"
  db_access :: "(NetworkId \<times> PasswordVerifier) list"
  db_links :: "InvitationLinkRow list"
  db_policies :: "(NetworkId \<times> bytes) list"
  db_audit :: "AuditEvent list"
  db_audit_last :: nat

definition empty_store :: RelayStore where
  "empty_store = \<lparr>db_devices = [], db_networks = [], db_memberships = [], db_invitations = [],
     db_join_requests = [], db_subnets = [], db_leases = [], db_accounts = [], db_account_devices = [],
     db_enrollment = [], db_access = [], db_links = [], db_policies = [], db_audit = [], db_audit_last = 0\<rparr>"

definition virtual_ipv4_pool_first :: "32 word" where "virtual_ipv4_pool_first = 0x0a400000"
definition virtual_ipv4_pool_end :: "32 word" where "virtual_ipv4_pool_end = 0x0a800000"
definition virtual_ipv4_subnet_size :: "32 word" where "virtual_ipv4_subnet_size = 256"
definition virtual_ipv4_prefix_length :: byte where "virtual_ipv4_prefix_length = 24"

lemmas pool_defs = virtual_ipv4_pool_first_def virtual_ipv4_pool_end_def virtual_ipv4_subnet_size_def
  virtual_ipv4_prefix_length_def

type_synonym 'a store_op = "RelayStore \<Rightarrow> ('a \<times> RelayStore) res"

section \<open>Guards\<close>

definition require_device_id :: "DeviceId \<Rightarrow> unit res" where
  "require_device_id d = require (Invalid_argument ''device id must not be zero'') (\<not> is_zero d)"

definition require_network_id :: "NetworkId \<Rightarrow> unit res" where
  "require_network_id n = require (Invalid_argument ''network id must not be zero'') (\<not> is_zero n)"

definition require_timestamp :: "int \<Rightarrow> unit res" where
  "require_timestamp t = require (Invalid_argument ''timestamp must not be negative'') (\<not> t < 0)"

definition require_network_name :: "bytes \<Rightarrow> unit res" where
  "require_network_name name =
     (if name = [] \<or> length name > max_network_name_size
      then Inl (Invalid_argument ''network name must contain 1 to 128 bytes'')
      else require (Invalid_argument ''network name contains a control character'')
        (\<not> list_ex (\<lambda>c. c < 0x20 \<or> c = 0x7f) name))"

lemma require_guards_iff [simp]:
  "require_device_id d = Inr u \<longleftrightarrow> \<not> is_zero d"
  "require_network_id n = Inr u \<longleftrightarrow> \<not> is_zero n"
  "require_timestamp t = Inr u \<longleftrightarrow> \<not> t < 0"
  by (simp_all add: require_device_id_def require_network_id_def require_timestamp_def)

text \<open>A violated constraint or \<open>RAISE(ABORT)\<close> surfaces through \<open>throw_sqlite\<close>.\<close>

definition constraint_failed :: exn where
  "constraint_failed = Runtime_error ''executing SQLite statement failed''"

text \<open>SQL \<open>length\<close> of a text: characters before the first NUL.\<close>

function (sequential) sql_length :: "bytes \<Rightarrow> nat" where
  "sql_length [] = 0"
| "sql_length (c # rest) =
     (if c = 0 then 0
      else if c \<ge> 0xc0 then Suc (sql_length (dropWhile (\<lambda>b. b AND 0xc0 = 0x80) rest))
      else Suc (sql_length rest))"
  by pat_completeness auto
termination by (relation "measure length") (auto simp: le_imp_less_Suc length_dropWhile_le)

section \<open>Rows and constraints\<close>

definition has_device :: "RelayStore \<Rightarrow> DeviceId \<Rightarrow> bool" where
  "has_device db d \<longleftrightarrow> list_ex (\<lambda>r. device_id r = d) (db_devices db)"

definition has_network :: "RelayStore \<Rightarrow> NetworkId \<Rightarrow> bool" where
  "has_network db n \<longleftrightarrow> list_ex (\<lambda>r. network_id r = n) (db_networks db)"

definition has_account :: "RelayStore \<Rightarrow> DeviceId \<Rightarrow> bool" where
  "has_account db a \<longleftrightarrow> list_ex (\<lambda>r. account_id r = a) (db_accounts db)"

definition is_member :: "RelayStore \<Rightarrow> NetworkId \<Rightarrow> DeviceId \<Rightarrow> bool" where
  "is_member db n d \<longleftrightarrow> list_ex (\<lambda>m. member_network m = n \<and> member_id m = d) (db_memberships db)"

definition has_invitation :: "RelayStore \<Rightarrow> NetworkId \<Rightarrow> DeviceId \<Rightarrow> bool" where
  "has_invitation db n d \<longleftrightarrow> list_ex (\<lambda>i. invited_network i = n \<and> invited_device i = d) (db_invitations db)"

definition has_join_request :: "RelayStore \<Rightarrow> NetworkId \<Rightarrow> DeviceId \<Rightarrow> bool" where
  "has_join_request db n d \<longleftrightarrow> list_ex (\<lambda>j. requested_network j = n \<and> requested_device j = d) (db_join_requests db)"

definition insert_network_row :: "NetworkRecord \<Rightarrow> RelayStore \<Rightarrow> RelayStore res" where
  "insert_network_row n db =
     (if has_network db (network_id n) \<or> \<not> has_device db (owner_device_id n) \<or>
         sql_length (network_name n) < 1 \<or> sql_length (network_name n) > 128 \<or> created_at_ms n < 0
      then Inl constraint_failed else Inr (db\<lparr>db_networks := db_networks db @ [n]\<rparr>))"

text \<open>The trigger \<open>membership_clears_pending_access\<close>.\<close>

definition clear_pending :: "NetworkId \<Rightarrow> DeviceId \<Rightarrow> RelayStore \<Rightarrow> RelayStore" where
  "clear_pending n d db = db\<lparr>
     db_invitations := filter (\<lambda>i. \<not> (invited_network i = n \<and> invited_device i = d)) (db_invitations db),
     db_join_requests := filter (\<lambda>j. \<not> (requested_network j = n \<and> requested_device j = d)) (db_join_requests db)\<rparr>"

text \<open>
  An \<open>INSERT\<close> into \<open>memberships\<close>. \<open>Inr None\<close>: a row with this key (or a second owner) exists, which
  \<open>INSERT OR IGNORE\<close> skips and a plain \<open>INSERT\<close> reports; a foreign key violation and the trigger
  \<open>membership_owner_matches_network\<close> are errors for both.
\<close>

definition insert_membership_row :: "MembershipRecord \<Rightarrow> RelayStore \<Rightarrow> RelayStore option res" where
  "insert_membership_row m db =
     (if membership_role m = MR_owner \<and>
         \<not> list_ex (\<lambda>n. network_id n = member_network m \<and> owner_device_id n = member_id m) (db_networks db)
      then Inl constraint_failed
      else if is_member db (member_network m) (member_id m) \<or> joined_at_ms m < 0 \<or>
         (membership_role m = MR_owner \<and>
          list_ex (\<lambda>r. member_network r = member_network m \<and> membership_role r = MR_owner) (db_memberships db))
      then Inr None
      else if \<not> has_network db (member_network m) \<or> \<not> has_device db (member_id m)
      then Inl constraint_failed
      else Inr (Some (clear_pending (member_network m) (member_id m)
        (db\<lparr>db_memberships := db_memberships db @ [m]\<rparr>))))"

definition insert_subnet_row :: "NetworkSubnetRecord \<Rightarrow> RelayStore \<Rightarrow> RelayStore res" where
  "insert_subnet_row s db =
     (if list_ex (\<lambda>r. subnet_network r = subnet_network s \<or> subnet_address r = subnet_address s) (db_subnets db) \<or>
         subnet_address s < 171966464 \<or> subnet_address s \<ge> 176160768 \<or> subnet_address s mod 256 \<noteq> 0 \<or>
         \<not> has_network db (subnet_network s)
      then Inl constraint_failed else Inr (db\<lparr>db_subnets := db_subnets db @ [s]\<rparr>))"

definition insert_lease_row :: "VirtualIpv4LeaseRecord \<Rightarrow> RelayStore \<Rightarrow> RelayStore res" where
  "insert_lease_row l db =
     (if \<not> list_ex (\<lambda>s. subnet_network s = lease_network l \<and>
            subnet_address s = lease_address l - lease_address l mod 256) (db_subnets db)
      then Inl constraint_failed
      else if list_ex (\<lambda>r. (lease_network r = lease_network l \<and> lease_device r = lease_device l) \<or>
              lease_address r = lease_address l) (db_leases db) \<or>
         lease_address l < 171966464 \<or> lease_address l \<ge> 176160768 \<or>
         \<not> (1 \<le> lease_address l mod 256 \<and> lease_address l mod 256 \<le> 254) \<or>
         \<not> is_member db (lease_network l) (lease_device l)
      then Inl constraint_failed else Inr (db\<lparr>db_leases := db_leases db @ [l]\<rparr>))"

text \<open>
  A row of \<open>network_invitations\<close>; \<open>Inr None\<close> when the key exists. A failed \<open>CHECK\<close> is skipped by
  \<open>INSERT OR IGNORE\<close> and reported by \<open>ON CONFLICT(...) DO NOTHING\<close>.
\<close>

definition insert_invitation_row :: "bool \<Rightarrow> InvitationRecord \<Rightarrow> RelayStore \<Rightarrow> RelayStore option res" where
  "insert_invitation_row or_ignore i db =
     (if is_member db (invited_network i) (invited_device i) \<or> has_join_request db (invited_network i) (invited_device i)
      then Inl constraint_failed
      else if invited_at_ms i < 0 then if or_ignore then Inr None else Inl constraint_failed
      else if has_invitation db (invited_network i) (invited_device i) then Inr None
      else if \<not> has_network db (invited_network i) \<or> \<not> has_device db (invited_device i) then Inl constraint_failed
      else Inr (Some (db\<lparr>db_invitations := db_invitations db @ [i]\<rparr>)))"

definition insert_join_request_row :: "JoinRequestRecord \<Rightarrow> RelayStore \<Rightarrow> RelayStore option res" where
  "insert_join_request_row j db =
     (if is_member db (requested_network j) (requested_device j) \<or> has_invitation db (requested_network j) (requested_device j)
      then Inl constraint_failed
      else if requested_at_ms j < 0 then Inl constraint_failed
      else if has_join_request db (requested_network j) (requested_device j) then Inr None
      else if \<not> has_network db (requested_network j) \<or> \<not> has_device db (requested_device j) then Inl constraint_failed
      else Inr (Some (db\<lparr>db_join_requests := db_join_requests db @ [j]\<rparr>)))"

section \<open>Virtual addresses\<close>

definition read_virtual_address :: "32 word \<Rightarrow> 32 word res" where
  "read_virtual_address raw =
     (if raw < virtual_ipv4_pool_first \<or> raw \<ge> virtual_ipv4_pool_end
      then Inl (Runtime_error ''SQLite row contains an invalid virtual IPv4 address'') else Inr raw)"

text \<open>
  The loop over the occupied addresses in ascending order, with its \<open>break\<close>: \<open>candidate\<close> moves
  by \<open>step\<close> past every occupied address it meets.
\<close>

fun first_free :: "32 word \<Rightarrow> 32 word \<Rightarrow> 32 word list \<Rightarrow> 32 word res" where
  "first_free step candidate [] = Inr candidate"
| "first_free step candidate (raw # rest) = res_bind (read_virtual_address raw) (\<lambda>address.
     if address > candidate then Inr candidate
     else if address = candidate then first_free step (candidate + step) rest
     else first_free step candidate rest)"

definition insert_subnet :: "NetworkId \<Rightarrow> RelayStore \<Rightarrow> RelayStore res" where
  "insert_subnet n db =
     res_bind (first_free virtual_ipv4_subnet_size virtual_ipv4_pool_first (sort (map subnet_address (db_subnets db)))) (\<lambda>candidate.
     if candidate \<ge> virtual_ipv4_pool_end then Inl (Length_error ''virtual IPv4 subnet pool is exhausted'')
     else insert_subnet_row \<lparr>subnet_network = n, subnet_address = candidate,
       subnet_prefix = virtual_ipv4_prefix_length\<rparr> db)"

definition insert_lease :: "NetworkId \<Rightarrow> DeviceId \<Rightarrow> RelayStore \<Rightarrow> RelayStore res" where
  "insert_lease n d db =
     (case find (\<lambda>s. subnet_network s = n) (db_subnets db) of
        None \<Rightarrow> Inl (Runtime_error ''virtual IPv4 subnet is missing'')
      | Some s \<Rightarrow> res_bind (read_virtual_address (subnet_address s)) (\<lambda>base.
          res_bind (first_free 1 (base + 1)
            (sort (map lease_address (filter (\<lambda>l. lease_network l = n) (db_leases db))))) (\<lambda>candidate.
          if candidate \<ge> base + virtual_ipv4_subnet_size - 1
          then Inl (Length_error ''virtual IPv4 subnet has no available host addresses'')
          else insert_lease_row \<lparr>lease_network = n, lease_device = d, lease_address = candidate\<rparr> db)))"

section \<open>Reading rows\<close>

definition read_subnet :: "NetworkSubnetRecord \<Rightarrow> NetworkSubnetRecord res" where
  "read_subnet r = res_bind (read_virtual_address (subnet_address r)) (\<lambda>address.
     if address mod virtual_ipv4_subnet_size \<noteq> 0
     then Inl (Runtime_error ''SQLite row contains an unaligned virtual subnet'') else Inr r)"

definition read_lease :: "VirtualIpv4LeaseRecord \<Rightarrow> VirtualIpv4LeaseRecord res" where
  "read_lease r = res_bind (read_virtual_address (lease_address r)) (\<lambda>address.
     let host = address mod virtual_ipv4_subnet_size in
     if host = 0 \<or> host = virtual_ipv4_subnet_size - 1
     then Inl (Runtime_error ''SQLite row contains a reserved virtual IPv4 address'') else Inr r)"

text \<open>The loop \<open>while (statement.step_row()) result.push_back(read(statement))\<close>.\<close>

fun read_rows :: "('r \<Rightarrow> 'r res) \<Rightarrow> 'r list \<Rightarrow> 'r list res" where
  "read_rows rd [] = Inr []"
| "read_rows rd (r # rest) = res_bind (rd r) (\<lambda>x. res_bind (read_rows rd rest) (\<lambda>xs. Inr (x # xs)))"

text \<open>A query by key: no row, one row, or the exception for duplicates.\<close>

definition query_unique :: "string \<Rightarrow> ('r \<Rightarrow> bool) \<Rightarrow> 'r list \<Rightarrow> 'r option res" where
  "query_unique what P rows =
     (case filter P rows of [] \<Rightarrow> Inr None | [r] \<Rightarrow> Inr (Some r) | _ \<Rightarrow> Inl (Runtime_error what))"

section \<open>Devices and networks\<close>

fun upsert_device :: "DeviceId \<Rightarrow> int \<Rightarrow> DeviceRecord list \<Rightarrow> DeviceRecord list" where
  "upsert_device d seen [] = [\<lparr>device_id = d, first_seen_at_ms = seen, last_seen_at_ms = seen\<rparr>]"
| "upsert_device d seen (r # rest) =
     (if device_id r = d
      then r\<lparr>first_seen_at_ms := min (first_seen_at_ms r) seen, last_seen_at_ms := max (last_seen_at_ms r) seen\<rparr> # rest
      else r # upsert_device d seen rest)"

definition record_device :: "DeviceId \<Rightarrow> int \<Rightarrow> unit store_op" where
  "record_device d seen db = res_bind (require_device_id d) (\<lambda>_. res_bind (require_timestamp seen) (\<lambda>_.
     Inr ((), db\<lparr>db_devices := upsert_device d seen (db_devices db)\<rparr>)))"

definition find_device :: "DeviceId \<Rightarrow> RelayStore \<Rightarrow> DeviceRecord option res" where
  "find_device d db = res_bind (require_device_id d) (\<lambda>_.
     query_unique ''device query returned duplicate rows'' (\<lambda>r. device_id r = d) (db_devices db))"

definition create_network :: "NetworkRecord \<Rightarrow> PasswordVerifier option \<Rightarrow> unit store_op" where
  "create_network n password db =
     res_bind (require_network_id (network_id n)) (\<lambda>_.
     res_bind (require_network_name (network_name n)) (\<lambda>_.
     res_bind (require_device_id (owner_device_id n)) (\<lambda>_.
     res_bind (require_timestamp (created_at_ms n)) (\<lambda>_.
     res_bind (insert_network_row n db) (\<lambda>db1.
     res_bind (insert_subnet (network_id n) db1) (\<lambda>db2.
     res_bind (insert_membership_row \<lparr>member_network = network_id n, member_id = owner_device_id n,
       membership_role = MR_owner, joined_at_ms = created_at_ms n\<rparr> db2) (\<lambda>inserted.
     case inserted of None \<Rightarrow> Inl constraint_failed
     | Some db3 \<Rightarrow> res_bind (insert_lease (network_id n) (owner_device_id n) db3) (\<lambda>db4.
         case password of None \<Rightarrow> Inr ((), db4)
         | Some pw \<Rightarrow> if list_ex (\<lambda>r. fst r = network_id n) (db_access db4) then Inl constraint_failed
             else Inr ((), db4\<lparr>db_access := db_access db4 @ [(network_id n, pw)]\<rparr>)))))))))"

definition find_network :: "NetworkId \<Rightarrow> RelayStore \<Rightarrow> NetworkRecord option res" where
  "find_network n db = res_bind (require_network_id n) (\<lambda>_.
     query_unique ''network query returned duplicate rows'' (\<lambda>r. network_id r = n) (db_networks db))"

text \<open>\<open>DELETE FROM networks\<close> and the cascades \<open>ON DELETE CASCADE\<close>.\<close>

definition cascade_network :: "NetworkId \<Rightarrow> RelayStore \<Rightarrow> RelayStore" where
  "cascade_network n db = db\<lparr>
     db_networks := filter (\<lambda>r. network_id r \<noteq> n) (db_networks db),
     db_memberships := filter (\<lambda>r. member_network r \<noteq> n) (db_memberships db),
     db_invitations := filter (\<lambda>r. invited_network r \<noteq> n) (db_invitations db),
     db_join_requests := filter (\<lambda>r. requested_network r \<noteq> n) (db_join_requests db),
     db_subnets := filter (\<lambda>r. subnet_network r \<noteq> n) (db_subnets db),
     db_leases := filter (\<lambda>r. lease_network r \<noteq> n) (db_leases db),
     db_access := filter (\<lambda>r. fst r \<noteq> n) (db_access db),
     db_links := filter (\<lambda>r. link_network r \<noteq> n) (db_links db),
     db_policies := filter (\<lambda>r. fst r \<noteq> n) (db_policies db)\<rparr>"

definition delete_network :: "NetworkId \<Rightarrow> bool store_op" where
  "delete_network n db = res_bind (require_network_id n) (\<lambda>_.
     Inr (length (filter (\<lambda>r. network_id r = n) (db_networks db)) = 1, cascade_network n db))"

section \<open>Policies\<close>

definition read_policy :: "NetworkId \<Rightarrow> RelayStore \<Rightarrow> NetworkPolicy res" where
  "read_policy n db =
     (case find (\<lambda>r. fst r = n) (db_policies db) of
        None \<Rightarrow> Inr default_policy
      | Some r \<Rightarrow> if snd r = [] \<or> length (snd r) > 32768 then Inl (Runtime_error ''invalid policy document'')
          else decode_network_policy (snd r))"

definition network_policy :: "NetworkId \<Rightarrow> RelayStore \<Rightarrow> NetworkPolicy res" where
  "network_policy n db = read_policy n db"

text \<open>The rows of \<open>network_policies\<close> after \<open>INSERT ... ON CONFLICT(network_id) DO UPDATE\<close>.\<close>

fun upsert_row :: "'k \<Rightarrow> 'v \<Rightarrow> ('k \<times> 'v) list \<Rightarrow> ('k \<times> 'v) list" where
  "upsert_row k v [] = [(k, v)]"
| "upsert_row k v (r # rest) = (if fst r = k then (k, v) # rest else r # upsert_row k v rest)"

section \<open>Members\<close>

definition add_member :: "NetworkId \<Rightarrow> DeviceId \<Rightarrow> int \<Rightarrow> bool store_op" where
  "add_member n d joined db =
     res_bind (require_network_id n) (\<lambda>_. res_bind (require_device_id d) (\<lambda>_. res_bind (require_timestamp joined) (\<lambda>_.
     res_bind (insert_membership_row \<lparr>member_network = n, member_id = d, membership_role = MR_member,
       joined_at_ms = joined\<rparr> db) (\<lambda>inserted.
     case inserted of None \<Rightarrow> Inr (False, db)
     | Some db1 \<Rightarrow> res_bind (insert_lease n d db1) (\<lambda>db2. Inr (True, db2))))))"

text \<open>\<open>std::erase\<close> and \<open>std::erase_if\<close> of everything that names a device that left.\<close>

definition scrub_policy :: "DeviceId \<Rightarrow> NetworkPolicy \<Rightarrow> NetworkPolicy" where
  "scrub_policy d p = p\<lparr>
     hubs := filter (\<lambda>h. h \<noteq> d) (hubs p),
     members := filter (\<lambda>m. \<not> (member_device m = d \<and> member_role m \<noteq> Role_restricted)) (members p),
     gateways := filter (\<lambda>g. gateway_device g \<noteq> d) (gateways p),
     routes := filter (\<lambda>r. route_gateway r \<noteq> d) (routes p),
     rules := filter (\<lambda>r. \<not> (subject_device (rule_first r) = d \<or> subject_device (rule_second r) = d)) (rules p)\<rparr>"

definition uint64_max :: "64 word" where
  "uint64_max = 0xffffffffffffffff"

text \<open>\<open>DELETE FROM memberships\<close> with the cascade into \<open>virtual_ipv4_leases\<close>.\<close>

definition delete_membership :: "NetworkId \<Rightarrow> DeviceId \<Rightarrow> RelayStore \<Rightarrow> RelayStore" where
  "delete_membership n d db = db\<lparr>
     db_memberships := filter (\<lambda>m. \<not> (member_network m = n \<and> member_id m = d \<and> membership_role m = MR_member)) (db_memberships db),
     db_leases := filter (\<lambda>l. \<not> (lease_network l = n \<and> lease_device l = d)) (db_leases db)\<rparr>"

definition remove_member :: "NetworkId \<Rightarrow> DeviceId \<Rightarrow> bool store_op" where
  "remove_member n d db =
     res_bind (require_network_id n) (\<lambda>_. res_bind (require_device_id d) (\<lambda>_.
     if length (filter (\<lambda>m. member_network m = n \<and> member_id m = d \<and> membership_role m = MR_member) (db_memberships db)) \<noteq> 1
     then Inr (False, db)
     else let db1 = delete_membership n d db in
       res_bind (read_policy n db1) (\<lambda>previous.
       let p = scrub_policy d previous in
       if p \<noteq> previous
       then if revision p = uint64_max then Inl (Overflow_error ''policy revision exhausted'')
         else let p1 = p\<lparr>revision := revision p + 1\<rparr> in
           res_bind (encode_network_policy p1) (\<lambda>doc.
           Inr (True, db1\<lparr>db_policies := map (\<lambda>r. if fst r = n then (n, doc) else r) (db_policies db1)\<rparr>))
       else Inr (True, db1))))"

definition list_members :: "NetworkId \<Rightarrow> RelayStore \<Rightarrow> MembershipRecord list res" where
  "list_members n db = res_bind (require_network_id n) (\<lambda>_.
     Inr (sort_key (\<lambda>m. (if membership_role m = MR_owner then 0 else 1 :: nat, member_id m))
       (filter (\<lambda>m. member_network m = n) (db_memberships db))))"

definition list_networks_for_device :: "DeviceId \<Rightarrow> RelayStore \<Rightarrow> NetworkRecord list res" where
  "list_networks_for_device d db = res_bind (require_device_id d) (\<lambda>_.
     Inr (sort_key (\<lambda>n. (created_at_ms n, network_id n))
       (filter (\<lambda>n. is_member db (network_id n) d) (db_networks db))))"

definition find_subnet :: "NetworkId \<Rightarrow> RelayStore \<Rightarrow> NetworkSubnetRecord option res" where
  "find_subnet n db = res_bind (require_network_id n) (\<lambda>_.
     case find (\<lambda>s. subnet_network s = n) (db_subnets db) of None \<Rightarrow> Inr None
     | Some s \<Rightarrow> res_bind (read_subnet s) (\<lambda>r. Inr (Some r)))"

definition find_virtual_ipv4_lease :: "NetworkId \<Rightarrow> DeviceId \<Rightarrow> RelayStore \<Rightarrow> VirtualIpv4LeaseRecord option res" where
  "find_virtual_ipv4_lease n d db = res_bind (require_network_id n) (\<lambda>_. res_bind (require_device_id d) (\<lambda>_.
     case find (\<lambda>l. lease_network l = n \<and> lease_device l = d) (db_leases db) of None \<Rightarrow> Inr None
     | Some l \<Rightarrow> res_bind (read_lease l) (\<lambda>r. Inr (Some r))))"

definition list_virtual_ipv4_leases :: "NetworkId \<Rightarrow> RelayStore \<Rightarrow> VirtualIpv4LeaseRecord list res" where
  "list_virtual_ipv4_leases n db = res_bind (require_network_id n) (\<lambda>_.
     read_rows read_lease (sort_key lease_address (filter (\<lambda>l. lease_network l = n) (db_leases db))))"

section \<open>Invitations and join requests\<close>

text \<open>
  \<open>INSERT ... SELECT ... WHERE NOT EXISTS(...) ... ON CONFLICT DO NOTHING\<close>: nothing is inserted for
  a member, for a device with a pending request of the other kind, or when the row exists.
\<close>

definition add_invitation :: "NetworkId \<Rightarrow> DeviceId \<Rightarrow> int \<Rightarrow> bool store_op" where
  "add_invitation n d invited db =
     res_bind (require_network_id n) (\<lambda>_. res_bind (require_device_id d) (\<lambda>_. res_bind (require_timestamp invited) (\<lambda>_.
     if is_member db n d \<or> has_join_request db n d then Inr (False, db)
     else res_bind (insert_invitation_row False
         \<lparr>invited_network = n, invited_device = d, invited_at_ms = invited\<rparr> db) (\<lambda>inserted.
       case inserted of None \<Rightarrow> Inr (False, db) | Some db1 \<Rightarrow> Inr (True, db1)))))"

definition remove_invitation :: "NetworkId \<Rightarrow> DeviceId \<Rightarrow> bool store_op" where
  "remove_invitation n d db =
     res_bind (require_network_id n) (\<lambda>_. res_bind (require_device_id d) (\<lambda>_.
     Inr (length (filter (\<lambda>i. invited_network i = n \<and> invited_device i = d) (db_invitations db)) = 1,
       db\<lparr>db_invitations := filter (\<lambda>i. \<not> (invited_network i = n \<and> invited_device i = d)) (db_invitations db)\<rparr>)))"

definition find_invitation :: "NetworkId \<Rightarrow> DeviceId \<Rightarrow> RelayStore \<Rightarrow> InvitationRecord option res" where
  "find_invitation n d db = res_bind (require_network_id n) (\<lambda>_. res_bind (require_device_id d) (\<lambda>_.
     query_unique ''invitation query returned duplicate rows''
       (\<lambda>i. invited_network i = n \<and> invited_device i = d) (db_invitations db)))"

definition list_invitations_for_network :: "NetworkId \<Rightarrow> RelayStore \<Rightarrow> InvitationRecord list res" where
  "list_invitations_for_network n db = res_bind (require_network_id n) (\<lambda>_.
     Inr (sort_key (\<lambda>i. (invited_at_ms i, invited_device i)) (filter (\<lambda>i. invited_network i = n) (db_invitations db))))"

definition list_invitations_for_device :: "DeviceId \<Rightarrow> RelayStore \<Rightarrow> InvitationRecord list res" where
  "list_invitations_for_device d db = res_bind (require_device_id d) (\<lambda>_.
     Inr (sort_key (\<lambda>i. (invited_at_ms i, invited_network i)) (filter (\<lambda>i. invited_device i = d) (db_invitations db))))"

definition add_join_request :: "NetworkId \<Rightarrow> DeviceId \<Rightarrow> int \<Rightarrow> bool store_op" where
  "add_join_request n d requested db =
     res_bind (require_network_id n) (\<lambda>_. res_bind (require_device_id d) (\<lambda>_. res_bind (require_timestamp requested) (\<lambda>_.
     if is_member db n d \<or> has_invitation db n d then Inr (False, db)
     else res_bind (insert_join_request_row
         \<lparr>requested_network = n, requested_device = d, requested_at_ms = requested\<rparr> db) (\<lambda>inserted.
       case inserted of None \<Rightarrow> Inr (False, db) | Some db1 \<Rightarrow> Inr (True, db1)))))"

definition remove_join_request :: "NetworkId \<Rightarrow> DeviceId \<Rightarrow> bool store_op" where
  "remove_join_request n d db =
     res_bind (require_network_id n) (\<lambda>_. res_bind (require_device_id d) (\<lambda>_.
     Inr (length (filter (\<lambda>j. requested_network j = n \<and> requested_device j = d) (db_join_requests db)) = 1,
       db\<lparr>db_join_requests := filter (\<lambda>j. \<not> (requested_network j = n \<and> requested_device j = d)) (db_join_requests db)\<rparr>)))"

definition find_join_request :: "NetworkId \<Rightarrow> DeviceId \<Rightarrow> RelayStore \<Rightarrow> JoinRequestRecord option res" where
  "find_join_request n d db = res_bind (require_network_id n) (\<lambda>_. res_bind (require_device_id d) (\<lambda>_.
     query_unique ''join request query returned duplicate rows''
       (\<lambda>j. requested_network j = n \<and> requested_device j = d) (db_join_requests db)))"

definition list_join_requests_for_network :: "NetworkId \<Rightarrow> RelayStore \<Rightarrow> JoinRequestRecord list res" where
  "list_join_requests_for_network n db = res_bind (require_network_id n) (\<lambda>_.
     Inr (sort_key (\<lambda>j. (requested_at_ms j, requested_device j)) (filter (\<lambda>j. requested_network j = n) (db_join_requests db))))"

definition list_join_requests_for_device :: "DeviceId \<Rightarrow> RelayStore \<Rightarrow> JoinRequestRecord list res" where
  "list_join_requests_for_device d db = res_bind (require_device_id d) (\<lambda>_.
     Inr (sort_key (\<lambda>j. (requested_at_ms j, requested_network j)) (filter (\<lambda>j. requested_device j = d) (db_join_requests db))))"

section \<open>Invitation links and passwords\<close>

definition issue_invite_link :: "NetworkId \<Rightarrow> bytes \<Rightarrow> int \<Rightarrow> int \<Rightarrow> 16 word \<Rightarrow> unit store_op" where
  "issue_invite_link n digest now expires max_uses db =
     (if expires \<le> now \<or> expires - now > 86400000 \<or> max_uses = 0 \<or> max_uses > 100
      then Inl (Invalid_argument ''invalid invitation policy'')
      else let live = filter (\<lambda>l. \<not> (link_expires_ms l \<le> now \<or> link_remaining l = 0)) (db_links db) in
        if length (filter (\<lambda>l. link_network l = n) live) \<ge> 64 then Inl (Length_error ''invitation limit reached'')
        else if list_ex (\<lambda>l. link_digest l = digest) live \<or> \<not> has_network db n then Inl constraint_failed
        else Inr ((), db\<lparr>db_links := live @ [\<lparr>link_digest = digest, link_network = n, link_expires_ms = expires,
          link_remaining = unat max_uses\<rparr>]\<rparr>))"

definition redeem_invite_link :: "NetworkId \<Rightarrow> bytes \<Rightarrow> DeviceId \<Rightarrow> int \<Rightarrow> bool store_op" where
  "redeem_invite_link n digest actor now db =
     (if \<not> list_ex (\<lambda>l. link_network l = n \<and> link_digest l = digest \<and> link_expires_ms l > now \<and> link_remaining l > 0) (db_links db)
      then Inr (False, db)
      else let db1 = db\<lparr>db_join_requests :=
             filter (\<lambda>j. \<not> (requested_network j = n \<and> requested_device j = actor)) (db_join_requests db)\<rparr> in
        res_bind (insert_invitation_row True \<lparr>invited_network = n, invited_device = actor, invited_at_ms = now\<rparr> db1) (\<lambda>inserted.
        let db2 = (case inserted of None \<Rightarrow> db1 | Some db' \<Rightarrow> db') in
        Inr (True, db2\<lparr>db_links := map (\<lambda>l. if link_digest l = digest then l\<lparr>link_remaining := link_remaining l - 1\<rparr> else l) (db_links db2)\<rparr>)))"

definition revoke_invite_links :: "NetworkId \<Rightarrow> unit store_op" where
  "revoke_invite_links n db = Inr ((), db\<lparr>db_links := filter (\<lambda>l. link_network l \<noteq> n) (db_links db)\<rparr>)"

definition network_password :: "NetworkId \<Rightarrow> RelayStore \<Rightarrow> PasswordVerifier option" where
  "network_password n db = map_option snd (find (\<lambda>r. fst r = n) (db_access db))"

definition set_network_password :: "NetworkId \<Rightarrow> PasswordVerifier option \<Rightarrow> unit store_op" where
  "set_network_password n password db =
     (case password of
        None \<Rightarrow> Inr ((), db\<lparr>db_access := filter (\<lambda>r. fst r \<noteq> n) (db_access db)\<rparr>)
      | Some pw \<Rightarrow> if \<not> has_network db n then Inl constraint_failed
          else Inr ((), db\<lparr>db_access := upsert_row n pw (db_access db)\<rparr>))"

section \<open>Accounts\<close>

definition device_revoked :: "DeviceId \<Rightarrow> RelayStore \<Rightarrow> bool" where
  "device_revoked d db = (case find (\<lambda>r. enrolled_device r = d) (db_account_devices db) of
     None \<Rightarrow> False | Some r \<Rightarrow> enrolled_revoked r)"

definition account_for_device :: "DeviceId \<Rightarrow> RelayStore \<Rightarrow> AccountRecord option" where
  "account_for_device d db =
     (case find (\<lambda>r. enrolled_device r = d \<and> \<not> enrolled_revoked r) (db_account_devices db) of
        None \<Rightarrow> None | Some r \<Rightarrow> find (\<lambda>a. account_id a = enrolled_account r) (db_accounts db))"

definition account_devices :: "DeviceId \<Rightarrow> RelayStore \<Rightarrow> AccountDevice list" where
  "account_devices account db =
     map (\<lambda>r. \<lparr>account_device_id = enrolled_device r, account_device_label = enrolled_label r,
        account_device_revoked = enrolled_revoked r\<rparr>)
       (take 64 (sort_key enrolled_device (filter (\<lambda>r. enrolled_account r = account) (db_account_devices db))))"

definition create_account :: "AccountRecord \<Rightarrow> int \<Rightarrow> unit store_op" where
  "create_account a now db =
     res_bind (require_device_id (account_id a)) (\<lambda>_. res_bind (require_device_id (account_owner a)) (\<lambda>_.
     res_bind (require_timestamp now) (\<lambda>_.
     res_bind (require (Invalid_argument ''invalid account name'') (\<not> (account_name a = [] \<or> length (account_name a) > 128))) (\<lambda>_.
     if has_account db (account_id a) \<or> list_ex (\<lambda>r. account_owner r = account_owner a) (db_accounts db) \<or>
        \<not> has_device db (account_owner a) \<or> sql_length (account_name a) < 1 \<or> sql_length (account_name a) > 128 \<or>
        list_ex (\<lambda>r. enrolled_device r = account_owner a) (db_account_devices db)
     then Inl constraint_failed
     else Inr ((), db\<lparr>db_accounts := db_accounts db @ [a],
       db_account_devices := db_account_devices db @ [\<lparr>enrolled_device = account_owner a,
         enrolled_account = account_id a, enrolled_label = account_name a, enrolled_revoked = False\<rparr>]\<rparr>)))))"

definition issue_enrollment :: "DeviceId \<Rightarrow> bytes \<Rightarrow> int \<Rightarrow> unit store_op" where
  "issue_enrollment account digest expires db =
     (if list_ex (\<lambda>r. enrollment_account r \<noteq> account \<and> enrollment_digest r = digest) (db_enrollment db) \<or>
         \<not> has_account db account
      then Inl constraint_failed
      else Inr ((), db\<lparr>db_enrollment :=
        (if list_ex (\<lambda>r. enrollment_account r = account) (db_enrollment db)
         then map (\<lambda>r. if enrollment_account r = account
                then r\<lparr>enrollment_digest := digest, enrollment_expires_ms := expires\<rparr> else r) (db_enrollment db)
         else db_enrollment db @ [\<lparr>enrollment_account = account, enrollment_digest = digest,
                enrollment_expires_ms = expires\<rparr>])\<rparr>))"

fun upsert_account_device :: "DeviceId \<Rightarrow> DeviceId \<Rightarrow> bytes \<Rightarrow> AccountDeviceRow list \<Rightarrow> AccountDeviceRow list" where
  "upsert_account_device d account label [] = [\<lparr>enrolled_device = d, enrolled_account = account,
     enrolled_label = label, enrolled_revoked = False\<rparr>]"
| "upsert_account_device d account label (r # rest) =
     (if enrolled_device r = d then r\<lparr>enrolled_label := label, enrolled_revoked := False\<rparr> # rest
      else r # upsert_account_device d account label rest)"

definition enroll_device :: "bytes \<Rightarrow> DeviceId \<Rightarrow> bytes \<Rightarrow> int \<Rightarrow> bool store_op" where
  "enroll_device digest d label now db =
     res_bind (require_device_id d) (\<lambda>_. res_bind (require_timestamp now) (\<lambda>_.
     res_bind (require (Invalid_argument ''invalid device label'') (\<not> (label = [] \<or> length label > 128))) (\<lambda>_.
     case find (\<lambda>r. enrollment_digest r = digest \<and> enrollment_expires_ms r > now) (db_enrollment db) of
       None \<Rightarrow> Inr (False, db)
     | Some e \<Rightarrow> let account = enrollment_account e in
         if (case find (\<lambda>r. enrolled_device r = d) (db_account_devices db) of None \<Rightarrow> False
             | Some r \<Rightarrow> enrolled_account r \<noteq> account \<or> \<not> enrolled_revoked r)
         then Inr (False, db)
         else if length (filter (\<lambda>r. enrolled_account r = account) (db_account_devices db)) \<ge> 64 then Inr (False, db)
         else if \<not> has_device db d \<or> \<not> has_account db account then Inl constraint_failed
         else Inr (True, db\<lparr>db_account_devices := upsert_account_device d account label (db_account_devices db),
           db_enrollment := filter (\<lambda>r. enrollment_digest r \<noteq> digest) (db_enrollment db)\<rparr>))))"

definition revoke_account_device :: "DeviceId \<Rightarrow> DeviceId \<Rightarrow> unit store_op" where
  "revoke_account_device account d db = Inr ((), db\<lparr>db_account_devices :=
     map (\<lambda>r. if enrolled_account r = account \<and> enrolled_device r = d \<and>
                \<not> list_ex (\<lambda>a. account_owner a = d) (db_accounts db)
              then r\<lparr>enrolled_revoked := True\<rparr> else r) (db_account_devices db)\<rparr>)"

section \<open>Audit log\<close>

definition audit_age_limit :: int where
  "audit_age_limit = 30 * 24 * 60 * 60 * 1000"

text \<open>Rows are in the order of \<open>sequence\<close>: the newest \<open>n\<close> are the last \<open>n\<close>.\<close>

definition newest :: "nat \<Rightarrow> 'a list \<Rightarrow> 'a list" where
  "newest n xs = drop (length xs - n) xs"

definition append_audit_locked :: "AuditEvent \<Rightarrow> RelayStore \<Rightarrow> RelayStore res" where
  "append_audit_locked e db =
     res_bind (encode_audit_event e) (\<lambda>_.
     if db_audit_last db \<ge> unat int64_max then Inl constraint_failed
     else let sequence = Suc (db_audit_last db);
            rows = db_audit db @ [e\<lparr>audit_sequence := word_of_nat sequence\<rparr>];
            kept = newest 256 (filter (\<lambda>r. audit_network r = audit_network e) rows);
            per_network = filter (\<lambda>r. audit_network r \<noteq> audit_network e \<or>
              list_ex (\<lambda>k. audit_sequence k = audit_sequence r) kept) rows;
            young = filter (\<lambda>r. \<not> sint (audit_timestamp_ms r) < max 0 (sint (audit_timestamp_ms e) - audit_age_limit)) per_network
          in Inr (db\<lparr>db_audit := newest 10000 young, db_audit_last := sequence\<rparr>))"

definition append_audit :: "AuditEvent \<Rightarrow> unit store_op" where
  "append_audit e db = res_bind (append_audit_locked e db) (\<lambda>db1. Inr ((), db1))"

definition audit_events :: "NetworkId \<Rightarrow> int \<Rightarrow> nat \<Rightarrow> RelayStore \<Rightarrow> AuditEvent list res" where
  "audit_events n now limit db =
     (if now < 0 \<or> limit > 256 then Inl (Invalid_argument ''invalid audit query'')
      else read_rows (\<lambda>e. res_bind (encode_audit_event e) (\<lambda>_. Inr e))
        (take limit (rev (filter (\<lambda>e. audit_network e = n \<and>
           sint (audit_timestamp_ms e) \<ge> max 0 (now - audit_age_limit)) (db_audit db)))))"

definition save_network_policy :: "NetworkId \<Rightarrow> NetworkPolicy \<Rightarrow> 64 word \<Rightarrow> AuditEvent option \<Rightarrow> bool store_op" where
  "save_network_policy n p expected audit db =
     res_bind (encode_network_policy p) (\<lambda>doc.
     if expected = uint64_max \<or> revision p \<noteq> expected + 1 then Inl (Invalid_argument ''invalid policy revision'')
     else res_bind (read_policy n db) (\<lambda>stored.
       if revision stored \<noteq> expected then Inr (False, db)
       else if \<not> has_network db n \<or> length doc < 1 \<or> length doc > 32768 then Inl constraint_failed
       else let db1 = db\<lparr>db_policies := upsert_row n doc (db_policies db)\<rparr> in
         case audit of None \<Rightarrow> Inr (True, db1)
         | Some e \<Rightarrow> res_bind (append_audit_locked e db1) (\<lambda>db2. Inr (True, db2))))"

section \<open>The whole state\<close>

definition load_state :: "RelayStore \<Rightarrow> RelayState res" where
  "load_state db =
     res_bind (read_rows read_subnet (sort_key subnet_network (db_subnets db))) (\<lambda>subnets.
     res_bind (read_rows read_lease (sort_key (\<lambda>l. (lease_network l, lease_address l)) (db_leases db))) (\<lambda>leases.
     Inr \<lparr>state_devices = sort_key device_id (db_devices db),
       state_networks = sort_key network_id (db_networks db),
       state_memberships = sort_key (\<lambda>m. (member_network m, if membership_role m = MR_owner then 0 else 1 :: nat, member_id m))
         (db_memberships db),
       state_invitations = sort_key (\<lambda>i. (invited_network i, invited_device i)) (db_invitations db),
       state_join_requests = sort_key (\<lambda>j. (requested_network j, requested_device j)) (db_join_requests db),
       state_subnets = subnets, state_leases = leases\<rparr>))"

end
