(* ===== verification/Store_Invariant.thy ===== *)
theory Store_Invariant
  imports Relay_Store
begin

text \<open>
  The integrity of the relay's database: what the constructor of \<open>RelayStore::Impl\<close> checks with
  SQL when it opens a file (every network has a subnet, every membership a lease) and what the
  schema promises, as an invariant of every method of the class.
\<close>

section \<open>The invariant\<close>

abbreviation member_keys :: "RelayStore \<Rightarrow> (NetworkId \<times> DeviceId) list" where
  "member_keys db \<equiv> map (\<lambda>m. (member_network m, member_id m)) (db_memberships db)"

abbreviation lease_keys :: "RelayStore \<Rightarrow> (NetworkId \<times> DeviceId) list" where
  "lease_keys db \<equiv> map (\<lambda>l. (lease_network l, lease_device l)) (db_leases db)"

abbreviation invitation_keys :: "RelayStore \<Rightarrow> (NetworkId \<times> DeviceId) list" where
  "invitation_keys db \<equiv> map (\<lambda>i. (invited_network i, invited_device i)) (db_invitations db)"

abbreviation join_request_keys :: "RelayStore \<Rightarrow> (NetworkId \<times> DeviceId) list" where
  "join_request_keys db \<equiv> map (\<lambda>j. (requested_network j, requested_device j)) (db_join_requests db)"

abbreviation network_ids :: "RelayStore \<Rightarrow> NetworkId set" where
  "network_ids db \<equiv> network_id ` set (db_networks db)"

abbreviation device_ids :: "RelayStore \<Rightarrow> DeviceId set" where
  "device_ids db \<equiv> device_id ` set (db_devices db)"

text \<open>Networks, members and addresses.\<close>

definition networks_ok :: "RelayStore \<Rightarrow> bool" where
  "networks_ok db \<longleftrightarrow>
     distinct (map device_id (db_devices db)) \<and> distinct (map network_id (db_networks db)) \<and>
     distinct (member_keys db) \<and>
     (\<forall>n\<in>set (db_networks db). owner_device_id n \<in> device_ids db) \<and>
     (\<forall>m\<in>set (db_memberships db). member_network m \<in> network_ids db \<and> member_id m \<in> device_ids db) \<and>
     (\<forall>n\<in>set (db_networks db). \<exists>m\<in>set (db_memberships db).
        member_network m = network_id n \<and> member_id m = owner_device_id n \<and> membership_role m = MR_owner) \<and>
     (\<forall>m\<in>set (db_memberships db). membership_role m = MR_owner \<longrightarrow>
        (\<exists>n\<in>set (db_networks db). network_id n = member_network m \<and> owner_device_id n = member_id m))"

definition addresses_ok :: "RelayStore \<Rightarrow> bool" where
  "addresses_ok db \<longleftrightarrow>
     distinct (map subnet_network (db_subnets db)) \<and> distinct (map subnet_address (db_subnets db)) \<and>
     subnet_network ` set (db_subnets db) = network_ids db \<and>
     (\<forall>s\<in>set (db_subnets db). 0x0a400000 \<le> subnet_address s \<and> subnet_address s < 0x0a800000 \<and>
        subnet_address s mod 256 = 0 \<and> subnet_prefix s = 24) \<and>
     distinct (lease_keys db) \<and> distinct (map lease_address (db_leases db)) \<and>
     set (lease_keys db) = set (member_keys db) \<and>
     (\<forall>l\<in>set (db_leases db). 0x0a400000 \<le> lease_address l \<and> lease_address l < 0x0a800000 \<and>
        lease_address l mod 256 \<noteq> 0 \<and> lease_address l mod 256 \<le> 254 \<and>
        (\<exists>s\<in>set (db_subnets db). subnet_network s = lease_network l \<and>
           subnet_address s = lease_address l - lease_address l mod 256))"

text \<open>Invitations and join requests exclude each other and membership.\<close>

definition pending_ok :: "RelayStore \<Rightarrow> bool" where
  "pending_ok db \<longleftrightarrow>
     distinct (invitation_keys db) \<and> distinct (join_request_keys db) \<and>
     (\<forall>i\<in>set (db_invitations db). invited_network i \<in> network_ids db \<and> invited_device i \<in> device_ids db \<and>
        (invited_network i, invited_device i) \<notin> set (member_keys db) \<and>
        (invited_network i, invited_device i) \<notin> set (join_request_keys db)) \<and>
     (\<forall>j\<in>set (db_join_requests db). requested_network j \<in> network_ids db \<and> requested_device j \<in> device_ids db \<and>
        (requested_network j, requested_device j) \<notin> set (member_keys db))"

text \<open>Passwords, links and policies belong to networks, and every policy document is readable.\<close>

definition access_ok :: "RelayStore \<Rightarrow> bool" where
  "access_ok db \<longleftrightarrow>
     distinct (map fst (db_access db)) \<and> (\<forall>r\<in>set (db_access db). fst r \<in> network_ids db) \<and>
     distinct (map link_digest (db_links db)) \<and> (\<forall>l\<in>set (db_links db). link_network l \<in> network_ids db) \<and>
     (\<forall>l\<in>set (db_links db). link_remaining l \<le> 100) \<and>
     distinct (map fst (db_policies db)) \<and> (\<forall>r\<in>set (db_policies db). fst r \<in> network_ids db) \<and>
     (\<forall>r\<in>set (db_policies db). \<exists>p. policy_typed p \<and> encode_network_policy p = Inr (snd r))"

text \<open>Accounts; the owner's device is enrolled and not revoked.\<close>

definition accounts_ok :: "RelayStore \<Rightarrow> bool" where
  "accounts_ok db \<longleftrightarrow>
     distinct (map account_id (db_accounts db)) \<and> distinct (map account_owner (db_accounts db)) \<and>
     distinct (map enrolled_device (db_account_devices db)) \<and>
     (\<forall>r\<in>set (db_account_devices db). enrolled_device r \<in> device_ids db \<and>
        enrolled_account r \<in> account_id ` set (db_accounts db)) \<and>
     (\<forall>a\<in>set (db_accounts db). \<exists>r\<in>set (db_account_devices db).
        enrolled_device r = account_owner a \<and> enrolled_account r = account_id a \<and> \<not> enrolled_revoked r) \<and>
     distinct (map enrollment_account (db_enrollment db)) \<and> distinct (map enrollment_digest (db_enrollment db)) \<and>
     (\<forall>r\<in>set (db_enrollment db). enrollment_account r \<in> account_id ` set (db_accounts db))"

definition store_ok :: "RelayStore \<Rightarrow> bool" where
  "store_ok db \<longleftrightarrow> networks_ok db \<and> addresses_ok db \<and> pending_ok db \<and> access_ok db \<and> accounts_ok db"

lemma store_okI [intro]:
  "networks_ok db \<Longrightarrow> addresses_ok db \<Longrightarrow> pending_ok db \<Longrightarrow> access_ok db \<Longrightarrow> accounts_ok db \<Longrightarrow> store_ok db"
  by (simp add: store_ok_def)

lemma empty_store_ok: "store_ok empty_store"
  by (simp add: store_ok_def networks_ok_def addresses_ok_def pending_ok_def access_ok_def accounts_ok_def empty_store_def)

lemma has_row_iff [simp]:
  "has_device db d \<longleftrightarrow> d \<in> device_ids db"
  "has_network db n \<longleftrightarrow> n \<in> network_ids db"
  "has_account db a \<longleftrightarrow> a \<in> account_id ` set (db_accounts db)"
  "is_member db n d \<longleftrightarrow> (n, d) \<in> set (member_keys db)"
  "has_invitation db n d \<longleftrightarrow> (n, d) \<in> set (invitation_keys db)"
  "has_join_request db n d \<longleftrightarrow> (n, d) \<in> set (join_request_keys db)"
  by (auto simp: has_device_def has_network_def has_account_def is_member_def has_invitation_def
      has_join_request_def list_ex_iff)

section \<open>Which tables a part of the invariant reads\<close>

lemma networks_ok_cong:
  "db_devices db' = db_devices db \<Longrightarrow> db_networks db' = db_networks db \<Longrightarrow>
   db_memberships db' = db_memberships db \<Longrightarrow> networks_ok db' = networks_ok db"
  by (simp add: networks_ok_def)

lemma addresses_ok_cong:
  "db_networks db' = db_networks db \<Longrightarrow> db_memberships db' = db_memberships db \<Longrightarrow>
   db_subnets db' = db_subnets db \<Longrightarrow> db_leases db' = db_leases db \<Longrightarrow> addresses_ok db' = addresses_ok db"
  by (simp add: addresses_ok_def)

lemma pending_ok_cong:
  "db_devices db' = db_devices db \<Longrightarrow> db_networks db' = db_networks db \<Longrightarrow> db_memberships db' = db_memberships db \<Longrightarrow>
   db_invitations db' = db_invitations db \<Longrightarrow> db_join_requests db' = db_join_requests db \<Longrightarrow>
   pending_ok db' = pending_ok db"
  by (simp add: pending_ok_def)

lemma access_ok_cong:
  "db_networks db' = db_networks db \<Longrightarrow> db_access db' = db_access db \<Longrightarrow> db_links db' = db_links db \<Longrightarrow>
   db_policies db' = db_policies db \<Longrightarrow> access_ok db' = access_ok db"
  by (simp add: access_ok_def)

lemma accounts_ok_cong:
  "db_devices db' = db_devices db \<Longrightarrow> db_accounts db' = db_accounts db \<Longrightarrow>
   db_account_devices db' = db_account_devices db \<Longrightarrow> db_enrollment db' = db_enrollment db \<Longrightarrow>
   accounts_ok db' = accounts_ok db"
  by (simp add: accounts_ok_def)

lemmas part_congs = networks_ok_cong addresses_ok_cong pending_ok_cong access_ok_cong accounts_ok_cong

section \<open>Preservation\<close>

lemma upsert_device_ids: "device_id ` set (upsert_device d seen ds) = insert d (device_id ` set ds)"
  by (induction ds) auto

lemma upsert_device_distinct:
  "distinct (map device_id ds) \<Longrightarrow> distinct (map device_id (upsert_device d seen ds))"
  by (induction ds) (auto simp: upsert_device_ids)

lemma devices_extend:
  assumes ok: "store_ok db" and d: "distinct (map device_id ds)" and sub: "device_ids db \<subseteq> device_id ` set ds"
  shows "store_ok (db\<lparr>db_devices := ds\<rparr>)"
proof
  note sub' = subsetD [OF sub]
  show "networks_ok (db\<lparr>db_devices := ds\<rparr>)"
    using ok d by (simp add: store_ok_def networks_ok_def sub')
  show "pending_ok (db\<lparr>db_devices := ds\<rparr>)"
    using ok by (simp add: store_ok_def pending_ok_def sub')
  show "accounts_ok (db\<lparr>db_devices := ds\<rparr>)"
    using ok by (simp add: store_ok_def accounts_ok_def sub')
  show "addresses_ok (db\<lparr>db_devices := ds\<rparr>)"
    using ok by (simp add: store_ok_def addresses_ok_def)
  show "access_ok (db\<lparr>db_devices := ds\<rparr>)"
    using ok by (simp add: store_ok_def access_ok_def)
qed

lemma record_device_ok:
  assumes "store_ok db" and "record_device d seen db = Inr (u, db')"
  shows "store_ok db'"
proof -
  have "db' = db\<lparr>db_devices := upsert_device d seen (db_devices db)\<rparr>"
    using assms(2) by (auto simp: record_device_def res_bind_Inr_iff)
  moreover have "distinct (map device_id (db_devices db))"
    using assms(1) by (simp add: store_ok_def networks_ok_def)
  ultimately show ?thesis
    using devices_extend [OF assms(1) upsert_device_distinct] by (simp add: upsert_device_ids subset_insertI)
qed

text \<open>Deleting a network removes every row that refers to it.\<close>

lemma distinct_map_filterI: "distinct (map f xs) \<Longrightarrow> distinct (map f (filter P xs))"
  by (simp add: distinct_map inj_on_def)

lemma image_filter_key: "f ` {x \<in> A. f x \<noteq> n} = f ` A - {n}"
  by auto

lemma image_filter_pair:
  "(\<lambda>x. (f x, g x)) ` {x \<in> A. f x \<noteq> n} = {k \<in> (\<lambda>x. (f x, g x)) ` A. fst k \<noteq> n}"
  by (force simp: image_iff)

lemma cascade_network_ok:
  assumes "store_ok db"
  shows "store_ok (cascade_network n db)"
proof
  note parts = assms [unfolded store_ok_def]
  show "networks_ok (cascade_network n db)"
    unfolding networks_ok_def
  proof (intro conjI)
    have owner: "\<forall>n\<in>set (db_networks db). \<exists>m\<in>set (db_memberships db).
        member_network m = network_id n \<and> member_id m = owner_device_id n \<and> membership_role m = MR_owner"
      and matches: "\<forall>m\<in>set (db_memberships db). membership_role m = MR_owner \<longrightarrow>
        (\<exists>n\<in>set (db_networks db). network_id n = member_network m \<and> owner_device_id n = member_id m)"
      using parts by (simp_all add: networks_ok_def)
    show "\<forall>r\<in>set (db_networks (cascade_network n db)). \<exists>m\<in>set (db_memberships (cascade_network n db)).
        member_network m = network_id r \<and> member_id m = owner_device_id r \<and> membership_role m = MR_owner"
      using owner by (fastforce simp: cascade_network_def)
    show "\<forall>m\<in>set (db_memberships (cascade_network n db)). membership_role m = MR_owner \<longrightarrow>
        (\<exists>r\<in>set (db_networks (cascade_network n db)). network_id r = member_network m \<and> owner_device_id r = member_id m)"
      using matches by (fastforce simp: cascade_network_def)
  qed (use parts in \<open>simp_all add: cascade_network_def networks_ok_def distinct_map_filterI image_filter_key\<close>)
  show "accounts_ok (cascade_network n db)"
    using parts by (simp add: cascade_network_def accounts_ok_def)
  show "access_ok (cascade_network n db)"
    using parts by (simp add: access_ok_def cascade_network_def distinct_map_filterI image_filter_key)
  show "pending_ok (cascade_network n db)"
    using parts by (auto simp: pending_ok_def cascade_network_def distinct_map_filterI image_filter_key)
  show "addresses_ok (cascade_network n db)"
    unfolding addresses_ok_def
  proof (intro conjI)
    have same: "subnet_network ` set (db_subnets db) = network_ids db" "set (lease_keys db) = set (member_keys db)"
      using parts by (simp_all add: addresses_ok_def)
    show "subnet_network ` set (db_subnets (cascade_network n db)) = network_ids (cascade_network n db)"
      using same(1) by (simp add: cascade_network_def image_filter_key)
    show "set (lease_keys (cascade_network n db)) = set (member_keys (cascade_network n db))"
      using same(2) by (simp add: cascade_network_def image_filter_pair)
    show "\<forall>l\<in>set (db_leases (cascade_network n db)). 0x0a400000 \<le> lease_address l \<and> lease_address l < 0x0a800000 \<and>
        lease_address l mod 256 \<noteq> 0 \<and> lease_address l mod 256 \<le> 254 \<and>
        (\<exists>s\<in>set (db_subnets (cascade_network n db)). subnet_network s = lease_network l \<and>
           subnet_address s = lease_address l - lease_address l mod 256)"
    proof
      fix l assume "l \<in> set (db_leases (cascade_network n db))"
      then have l: "l \<in> set (db_leases db)" "lease_network l \<noteq> n" by (simp_all add: cascade_network_def)
      then have row: "0x0a400000 \<le> lease_address l \<and> lease_address l < 0x0a800000 \<and>
          lease_address l mod 256 \<noteq> 0 \<and> lease_address l mod 256 \<le> 254 \<and>
          (\<exists>s\<in>set (db_subnets db). subnet_network s = lease_network l \<and>
             subnet_address s = lease_address l - lease_address l mod 256)"
        using parts by (simp add: addresses_ok_def)
      then obtain s where "s \<in> set (db_subnets db)" "subnet_network s = lease_network l"
        "subnet_address s = lease_address l - lease_address l mod 256" by blast
      with l(2) have "\<exists>s\<in>set (db_subnets (cascade_network n db)). subnet_network s = lease_network l \<and>
          subnet_address s = lease_address l - lease_address l mod 256"
        by (intro bexI [of _ s]) (simp_all add: cascade_network_def)
      with row show "0x0a400000 \<le> lease_address l \<and> lease_address l < 0x0a800000 \<and>
          lease_address l mod 256 \<noteq> 0 \<and> lease_address l mod 256 \<le> 254 \<and>
          (\<exists>s\<in>set (db_subnets (cascade_network n db)). subnet_network s = lease_network l \<and>
             subnet_address s = lease_address l - lease_address l mod 256)"
        by simp
    qed
  qed (use parts in \<open>simp_all add: cascade_network_def addresses_ok_def distinct_map_filterI\<close>)
qed

text \<open>What a successful \<open>INSERT\<close> of a lease or a subnet has checked.\<close>

lemma insert_lease_row_dest:
  "insert_lease_row l db = Inr db' \<Longrightarrow> db' = db\<lparr>db_leases := db_leases db @ [l]\<rparr> \<and>
     (lease_network l, lease_device l) \<notin> set (lease_keys db) \<and> lease_address l \<notin> lease_address ` set (db_leases db) \<and>
     (lease_network l, lease_device l) \<in> set (member_keys db) \<and>
     0x0a400000 \<le> lease_address l \<and> lease_address l < 0x0a800000 \<and>
     lease_address l mod 256 \<noteq> 0 \<and> lease_address l mod 256 \<le> 254 \<and>
     (\<exists>s\<in>set (db_subnets db). subnet_network s = lease_network l \<and>
        subnet_address s = lease_address l - lease_address l mod 256)"
  by (auto simp: insert_lease_row_def list_ex_iff not_less not_le split: if_splits)

lemma insert_lease_dest:
  assumes "insert_lease n d db = Inr db'"
  obtains a where "insert_lease_row \<lparr>lease_network = n, lease_device = d, lease_address = a\<rparr> db = Inr db'"
  using assms by (auto simp: insert_lease_def res_bind_Inr_iff split: option.splits if_splits)

lemma insert_subnet_dest:
  assumes "insert_subnet n db = Inr db'"
  obtains a where "db' = db\<lparr>db_subnets := db_subnets db @ [\<lparr>subnet_network = n, subnet_address = a, subnet_prefix = 24\<rparr>]\<rparr>"
    "n \<notin> subnet_network ` set (db_subnets db)" "a \<notin> subnet_address ` set (db_subnets db)"
    "0x0a400000 \<le> a" "a < 0x0a800000" "a mod 256 = 0"
proof -
  from assms obtain a where row: "insert_subnet_row \<lparr>subnet_network = n, subnet_address = a, subnet_prefix = 24\<rparr> db = Inr db'"
    by (auto simp: insert_subnet_def res_bind_Inr_iff pool_defs split: if_splits)
  show thesis
    by (rule that [of a]) (use row in \<open>auto simp: insert_subnet_row_def list_ex_iff not_less not_le split: if_splits\<close>)
qed

lemma insert_membership_dest:
  "insert_membership_row m db = Inr (Some db') \<Longrightarrow>
     db' = clear_pending (member_network m) (member_id m) (db\<lparr>db_memberships := db_memberships db @ [m]\<rparr>) \<and>
     (member_network m, member_id m) \<notin> set (member_keys db) \<and>
     member_network m \<in> network_ids db \<and> member_id m \<in> device_ids db \<and>
     (membership_role m = MR_owner \<longrightarrow>
        (\<exists>n\<in>set (db_networks db). network_id n = member_network m \<and> owner_device_id n = member_id m))"
  by (auto simp: insert_membership_row_def list_ex_iff split: if_splits)

text \<open>A new member with its lease.\<close>

definition with_member :: "MembershipRecord \<Rightarrow> 32 word \<Rightarrow> RelayStore \<Rightarrow> RelayStore" where
  "with_member m a db =
     (clear_pending (member_network m) (member_id m) (db\<lparr>db_memberships := db_memberships db @ [m]\<rparr>))
       \<lparr>db_leases := db_leases db @ [\<lparr>lease_network = member_network m, lease_device = member_id m, lease_address = a\<rparr>]\<rparr>"

lemma with_member_simps [simp]:
  "db_devices (with_member m a db) = db_devices db" "db_networks (with_member m a db) = db_networks db"
  "db_memberships (with_member m a db) = db_memberships db @ [m]"
  "db_subnets (with_member m a db) = db_subnets db"
  "db_leases (with_member m a db) = db_leases db @ [\<lparr>lease_network = member_network m, lease_device = member_id m, lease_address = a\<rparr>]"
  "db_access (with_member m a db) = db_access db" "db_links (with_member m a db) = db_links db"
  "db_policies (with_member m a db) = db_policies db" "db_accounts (with_member m a db) = db_accounts db"
  "db_account_devices (with_member m a db) = db_account_devices db"
  "db_enrollment (with_member m a db) = db_enrollment db"
  "db_invitations (with_member m a db) =
     filter (\<lambda>i. \<not> (invited_network i = member_network m \<and> invited_device i = member_id m)) (db_invitations db)"
  "db_join_requests (with_member m a db) =
     filter (\<lambda>j. \<not> (requested_network j = member_network m \<and> requested_device j = member_id m)) (db_join_requests db)"
  by (simp_all add: with_member_def clear_pending_def)

lemma with_member_pending_ok:
  assumes "pending_ok db"
  shows "pending_ok (with_member m a db)"
  using assms by (auto simp: pending_ok_def distinct_map_filterI)

lemma with_member_addresses_ok:
  assumes "addresses_ok db" and "(member_network m, member_id m) \<notin> set (member_keys db)"
    and "a \<notin> lease_address ` set (db_leases db)" and "0x0a400000 \<le> a" "a < 0x0a800000"
    and "a mod 256 \<noteq> 0" "a mod 256 \<le> 254"
    and "\<exists>s\<in>set (db_subnets db). subnet_network s = member_network m \<and> subnet_address s = a - a mod 256"
  shows "addresses_ok (with_member m a db)"
  using assms by (simp add: addresses_ok_def)

lemma with_member_networks_ok:
  assumes "networks_ok db" and "(member_network m, member_id m) \<notin> set (member_keys db)"
    and "member_network m \<in> network_ids db" "member_id m \<in> device_ids db"
    and "membership_role m = MR_owner \<longrightarrow>
        (\<exists>n\<in>set (db_networks db). network_id n = member_network m \<and> owner_device_id n = member_id m)"
  shows "networks_ok (with_member m a db)"
  using assms by (simp add: networks_ok_def)

lemma add_member_dest:
  assumes "add_member n d joined db = Inr (b, db')"
  shows "(\<not> b \<and> db' = db) \<or> (\<exists>a. b \<and>
     db' = with_member \<lparr>member_network = n, member_id = d, membership_role = MR_member, joined_at_ms = joined\<rparr> a db \<and>
     (n, d) \<notin> set (member_keys db) \<and> n \<in> network_ids db \<and> d \<in> device_ids db \<and>
     a \<notin> lease_address ` set (db_leases db) \<and> 0x0a400000 \<le> a \<and> a < 0x0a800000 \<and>
     a mod 256 \<noteq> 0 \<and> a mod 256 \<le> 254 \<and>
     (\<exists>s\<in>set (db_subnets db). subnet_network s = n \<and> subnet_address s = a - a mod 256))"
proof -
  let ?m = "\<lparr>member_network = n, member_id = d, membership_role = MR_member, joined_at_ms = joined\<rparr>"
  from assms consider "\<not> b" "db' = db"
    | db1 where "insert_membership_row ?m db = Inr (Some db1)" "insert_lease n d db1 = Inr db'" b
    by (auto simp: add_member_def res_bind_Inr_iff split: option.splits)
  then show ?thesis
  proof cases
    case 2
    obtain a where row: "insert_lease_row \<lparr>lease_network = n, lease_device = d, lease_address = a\<rparr> db1 = Inr db'"
      using insert_lease_dest [OF 2(2)] .
    have db1: "db1 = clear_pending n d (db\<lparr>db_memberships := db_memberships db @ [?m]\<rparr>)"
      using insert_membership_dest [OF 2(1)] by simp
    have "db' = with_member ?m a db"
      using insert_lease_row_dest [OF row] by (simp add: db1 with_member_def clear_pending_def)
    then show ?thesis
      by (intro disjI2 exI [of _ a] conjI)
        (use 2(3) insert_membership_dest [OF 2(1)] insert_lease_row_dest [OF row] in
          \<open>simp_all add: db1 clear_pending_def\<close>)
  qed simp
qed

lemma add_member_ok:
  assumes ok: "store_ok db" and add: "add_member n d joined db = Inr (b, db')"
  shows "store_ok db'"
  using add_member_dest [OF add]
proof (elim disjE exE conjE)
  fix a
  let ?m = "\<lparr>member_network = n, member_id = d, membership_role = MR_member, joined_at_ms = joined\<rparr>"
  assume db': "db' = with_member ?m a db"
    and new: "(n, d) \<notin> set (member_keys db)" "n \<in> network_ids db" "d \<in> device_ids db"
    and a: "a \<notin> lease_address ` set (db_leases db)" "0x0a400000 \<le> a" "a < 0x0a800000"
      "a mod 256 \<noteq> 0" "a mod 256 \<le> 254"
      "\<exists>s\<in>set (db_subnets db). subnet_network s = n \<and> subnet_address s = a - a mod 256"
  note parts = ok [unfolded store_ok_def]
  show ?thesis
    unfolding db'
  proof
    show "networks_ok (with_member ?m a db)" using parts new by (intro with_member_networks_ok) auto
    show "addresses_ok (with_member ?m a db)" using parts new a by (intro with_member_addresses_ok) auto
    show "pending_ok (with_member ?m a db)" using parts by (intro with_member_pending_ok) simp
    show "access_ok (with_member ?m a db)" using parts by (simp add: access_ok_def)
    show "accounts_ok (with_member ?m a db)" using parts by (simp add: accounts_ok_def)
  qed
qed (use ok in simp)

text \<open>A new network: its row, its subnet, its owner's membership and lease, its password.\<close>

lemma create_network_dest:
  assumes "create_network n password db = Inr (u, db')"
  obtains b a where
    "db' = (with_member \<lparr>member_network = network_id n, member_id = owner_device_id n, membership_role = MR_owner,
         joined_at_ms = created_at_ms n\<rparr> a
       (db\<lparr>db_networks := db_networks db @ [n],
           db_subnets := db_subnets db @ [\<lparr>subnet_network = network_id n, subnet_address = b, subnet_prefix = 24\<rparr>]\<rparr>))
       \<lparr>db_access := db_access db @ (case password of None \<Rightarrow> [] | Some pw \<Rightarrow> [(network_id n, pw)])\<rparr>"
    "network_id n \<notin> network_ids db" "owner_device_id n \<in> device_ids db"
    "b \<notin> subnet_address ` set (db_subnets db)" "0x0a400000 \<le> b" "b < 0x0a800000" "b mod 256 = 0"
    "a \<notin> lease_address ` set (db_leases db)" "0x0a400000 \<le> a" "a < 0x0a800000"
    "a mod 256 \<noteq> 0" "a mod 256 \<le> 254"
    "\<exists>s\<in>set (db_subnets db @ [\<lparr>subnet_network = network_id n, subnet_address = b, subnet_prefix = 24\<rparr>]).
       subnet_network s = network_id n \<and> subnet_address s = a - a mod 256"
    "network_id n \<notin> fst ` set (db_access db) \<or> password = None"
proof -
  let ?m = "\<lparr>member_network = network_id n, member_id = owner_device_id n, membership_role = MR_owner,
    joined_at_ms = created_at_ms n\<rparr>"
  from assms obtain db1 db2 db3 db4 where steps: "insert_network_row n db = Inr db1"
    "insert_subnet (network_id n) db1 = Inr db2" "insert_membership_row ?m db2 = Inr (Some db3)"
    "insert_lease (network_id n) (owner_device_id n) db3 = Inr db4"
    and pw: "(case password of None \<Rightarrow> Inr ((), db4)
         | Some pw \<Rightarrow> if list_ex (\<lambda>r. fst r = network_id n) (db_access db4) then Inl constraint_failed
             else Inr ((), db4\<lparr>db_access := db_access db4 @ [(network_id n, pw)]\<rparr>)) = Inr (u, db')"
    by (auto simp: create_network_def res_bind_Inr_iff split: option.splits)
  have row: "db1 = db\<lparr>db_networks := db_networks db @ [n]\<rparr>" "network_id n \<notin> network_ids db"
    "owner_device_id n \<in> device_ids db"
    using steps(1) by (auto simp: insert_network_row_def split: if_splits)
  obtain b where subnet: "db2 = db1\<lparr>db_subnets := db_subnets db1 @
        [\<lparr>subnet_network = network_id n, subnet_address = b, subnet_prefix = 24\<rparr>]\<rparr>"
      "b \<notin> subnet_address ` set (db_subnets db1)" "0x0a400000 \<le> b" "b < 0x0a800000" "b mod 256 = 0"
    using insert_subnet_dest [OF steps(2)] by metis
  obtain a where "insert_lease_row \<lparr>lease_network = network_id n, lease_device = owner_device_id n,
      lease_address = a\<rparr> db3 = Inr db4"
    using insert_lease_dest [OF steps(4)] .
  note lease = insert_lease_row_dest [OF this]
  have db3: "db3 = clear_pending (network_id n) (owner_device_id n) (db2\<lparr>db_memberships := db_memberships db2 @ [?m]\<rparr>)"
    using insert_membership_dest [OF steps(3)] by simp
  have db4: "db4 = with_member ?m a db2" using lease by (simp add: db3 with_member_def clear_pending_def)
  have access: "db' = db4\<lparr>db_access := db_access db4 @ (case password of None \<Rightarrow> [] | Some pw \<Rightarrow> [(network_id n, pw)])\<rparr>"
    "network_id n \<notin> fst ` set (db_access db4) \<or> password = None"
    using pw by (auto simp: list_ex_iff split: option.splits if_splits)
  show thesis
    by (rule that [of a b]) (use access row subnet lease in \<open>simp_all add: db4 db3 clear_pending_def\<close>)
qed

lemma create_network_ok:
  assumes ok: "store_ok db" and create: "create_network n password db = Inr (u, db')"
  shows "store_ok db'"
proof -
  note parts = ok [unfolded store_ok_def]
  obtain b a where db': "db' = (with_member \<lparr>member_network = network_id n, member_id = owner_device_id n,
         membership_role = MR_owner, joined_at_ms = created_at_ms n\<rparr> a
       (db\<lparr>db_networks := db_networks db @ [n],
           db_subnets := db_subnets db @ [\<lparr>subnet_network = network_id n, subnet_address = b, subnet_prefix = 24\<rparr>]\<rparr>))
       \<lparr>db_access := db_access db @ (case password of None \<Rightarrow> [] | Some pw \<Rightarrow> [(network_id n, pw)])\<rparr>"
    and new: "network_id n \<notin> network_ids db" "owner_device_id n \<in> device_ids db"
    and b: "b \<notin> subnet_address ` set (db_subnets db)" "0x0a400000 \<le> b" "b < 0x0a800000" "b mod 256 = 0"
    and a: "a \<notin> lease_address ` set (db_leases db)" "0x0a400000 \<le> a" "a < 0x0a800000"
      "a mod 256 \<noteq> 0" "a mod 256 \<le> 254"
      "\<exists>s\<in>set (db_subnets db @ [\<lparr>subnet_network = network_id n, subnet_address = b, subnet_prefix = 24\<rparr>]).
         subnet_network s = network_id n \<and> subnet_address s = a - a mod 256"
    and pw: "network_id n \<notin> fst ` set (db_access db) \<or> password = None"
    by (rule create_network_dest [OF create])
  have fresh: "(network_id n, d) \<notin> set (member_keys db)" for d
    using parts new by (auto simp: networks_ok_def)
  show ?thesis
  proof
    show "networks_ok db'"
      using parts new fresh unfolding db' by (auto simp: networks_ok_def)
    show "addresses_ok db'"
      using parts new fresh a b unfolding db' by (simp add: addresses_ok_def)
    show "pending_ok db'"
      using parts new unfolding db' by (auto simp: pending_ok_def distinct_map_filterI)
    show "access_ok db'"
      using parts new pw unfolding db' by (auto simp: access_ok_def split: option.splits)
    show "accounts_ok db'"
      using parts unfolding db' by (simp add: accounts_ok_def)
  qed
qed

end
