(* ===== verification/Store_Operations.thy ===== *)
theory Store_Operations
  imports Store_Invariant
begin

text \<open>
  The remaining methods of \<open>RelayStore\<close> keep the invariant of \<open>Store_Invariant\<close>; all mutating
  methods together form the step relation \<open>store_step\<close>, and the invariant holds in every store
  that is reachable from the empty database.
\<close>

section \<open>Removing a member\<close>

lemma scrub_policy_typed: "policy_typed p \<Longrightarrow> policy_typed (scrub_policy d p)"
  by (simp add: policy_typed_def scrub_policy_def list_all_iff)

lemma sorted_wrt_filterI: "sorted_wrt P xs \<Longrightarrow> sorted_wrt P (filter Q xs)"
  by (induction xs) auto

lemma length_filter_leI: "length xs \<le> n \<Longrightarrow> length (filter P xs) \<le> n"
  using length_filter_le le_trans by blast

lemma scrub_policy_valid:
  assumes "policy_valid p"
  shows "policy_valid (scrub_policy d p)"
proof -
  have groups: "known_groups (scrub_policy d p) = known_groups p"
    by (simp add: scrub_policy_def known_groups_def)
  have "route_ok (scrub_policy d p) r" if "route_ok p r" "route_gateway r \<noteq> d" for r
    using that by (auto simp: route_ok_def groups) (auto simp: scrub_policy_def list_ex_iff)
  moreover have "list_all (route_ok p) (routes p)" using assms by (simp add: policy_valid_def)
  ultimately have routes: "list_all (route_ok (scrub_policy d p)) (routes (scrub_policy d p))"
    by (simp add: scrub_policy_def list_all_iff)
  have "sorted_wrt routes_apart (routes (scrub_policy d p))"
    using assms by (simp add: scrub_policy_def policy_valid_def sorted_wrt_filterI)
  with assms routes show ?thesis
    unfolding policy_valid_def groups
    by (auto simp: scrub_policy_def list_all_iff length_filter_leI distinct_map_filterI)
qed

lemma policy_valid_revision [simp]:
  "policy_valid (p\<lparr>revision := r\<rparr>) = policy_valid p" "policy_typed (p\<lparr>revision := r\<rparr>) = policy_typed p"
proof -
  have "route_ok (p\<lparr>revision := r\<rparr>) = route_ok p" "known_groups (p\<lparr>revision := r\<rparr>) = known_groups p"
    by (auto simp: route_ok_def known_groups_def fun_eq_iff)
  then show "policy_valid (p\<lparr>revision := r\<rparr>) = policy_valid p" by (simp add: policy_valid_def)
  show "policy_typed (p\<lparr>revision := r\<rparr>) = policy_typed p" by (simp add: policy_typed_def)
qed

lemma default_policy_valid: "policy_valid default_policy" "policy_typed default_policy"
  by (simp_all add: policy_valid_def policy_typed_def default_policy_def known_groups_def topology_of_raw_def str_def)

lemma find_in_set: "find P xs = Some x \<Longrightarrow> x \<in> set xs \<and> P x"
  by (induction xs) (auto split: if_splits)

text \<open>Every stored policy can be read.\<close>

lemma read_policy_readable:
  assumes "access_ok db"
  shows "\<exists>p. read_policy n db = Inr p \<and> policy_typed p \<and> policy_valid p"
proof (cases "find (\<lambda>r. fst r = n) (db_policies db)")
  case None
  then show ?thesis by (simp add: read_policy_def default_policy_valid)
next
  case (Some r)
  then have "r \<in> set (db_policies db)" using find_in_set by metis
  with assms obtain p where p: "policy_typed p" "encode_network_policy p = Inr (snd r)"
    by (auto simp: access_ok_def)
  then have "policy_valid p" "snd r = policy_layout p" "length (snd r) \<le> 29486"
    using policy_layout_length [of p] by (auto simp: encode_network_policy_Inr_iff)
  moreover have "policy_layout p \<noteq> []" by (simp add: policy_layout_def)
  moreover have "decode_network_policy (snd r) = Inr p" using p policy_codec.enc_dec by blast
  ultimately show ?thesis using Some p by (simp add: read_policy_def)
qed

lemma delete_membership_ok:
  assumes ok: "store_ok db"
    and one: "length (filter (\<lambda>m. member_network m = n \<and> member_id m = d \<and> membership_role m = MR_member)
      (db_memberships db)) = 1"
  shows "store_ok (delete_membership n d db)"
proof -
  note parts = ok [unfolded store_ok_def]
  from one have "filter (\<lambda>m. member_network m = n \<and> member_id m = d \<and> membership_role m = MR_member)
      (db_memberships db) \<noteq> []" by auto
  then obtain m0 where m0: "m0 \<in> set (db_memberships db)" "member_network m0 = n" "member_id m0 = d"
    "membership_role m0 = MR_member" by (auto simp: filter_empty_conv)
  have inj: "inj_on (\<lambda>m. (member_network m, member_id m)) (set (db_memberships db))"
    using parts by (simp add: networks_ok_def distinct_map)
  have only: "membership_role m = MR_member" if "m \<in> set (db_memberships db)" "member_network m = n" "member_id m = d" for m
    using inj_onD [OF inj, of m m0] that m0 by simp
  then have ms: "db_memberships (delete_membership n d db) =
      filter (\<lambda>m. \<not> (member_network m = n \<and> member_id m = d)) (db_memberships db)"
    by (auto simp: delete_membership_def intro!: filter_cong)
  have keys: "set (map (\<lambda>x. (f x, g x)) (filter (\<lambda>x. \<not> (f x = n \<and> g x = d)) xs)) =
      set (map (\<lambda>x. (f x, g x)) xs) - {(n, d)}" for f :: "'x \<Rightarrow> NetworkId" and g :: "'x \<Rightarrow> DeviceId" and xs
    by (force simp: image_iff)
  show ?thesis
  proof
    show "networks_ok (delete_membership n d db)"
      using parts by (fastforce simp: networks_ok_def delete_membership_def distinct_map_filterI)
    have lk: "set (lease_keys (delete_membership n d db)) = set (lease_keys db) - {(n, d)}"
      unfolding keys [symmetric] by (simp add: delete_membership_def)
    have mk: "set (member_keys (delete_membership n d db)) = set (member_keys db) - {(n, d)}"
      unfolding keys [symmetric] ms ..
    show "addresses_ok (delete_membership n d db)"
      unfolding addresses_ok_def lk mk
      using parts by (simp add: addresses_ok_def distinct_map_filterI) (simp add: delete_membership_def distinct_map_filterI)
    show "pending_ok (delete_membership n d db)"
      unfolding pending_ok_def mk using parts by (auto simp: pending_ok_def delete_membership_def)
    show "access_ok (delete_membership n d db)" "accounts_ok (delete_membership n d db)"
      using parts by (simp_all add: access_ok_def accounts_ok_def delete_membership_def)
  qed
qed

text \<open>
  What \<open>remove_member\<close> does on an intact store: nothing for a device that is no plain member;
  otherwise the row and its lease go, and the policy document is rewritten without the device under
  the next revision when it named it. Reading and encoding the policy never fail; the only
  exception left is the exhausted revision counter.
\<close>

definition with_policy :: "NetworkId \<Rightarrow> bytes \<Rightarrow> RelayStore \<Rightarrow> RelayStore" where
  "with_policy n doc db = db\<lparr>db_policies := map (\<lambda>r. if fst r = n then (n, doc) else r) (db_policies db)\<rparr>"

lemma with_policy_ok:
  assumes "store_ok db" and "policy_typed p" and "encode_network_policy p = Inr doc"
  shows "store_ok (with_policy n doc db)"
proof
  have keys: "map fst (db_policies (with_policy n doc db)) = map fst (db_policies db)"
    by (simp add: with_policy_def comp_def)
  show "access_ok (with_policy n doc db)"
    using assms unfolding access_ok_def keys by (auto simp: with_policy_def store_ok_def access_ok_def)
qed (use assms(1) in \<open>simp_all add: store_ok_def networks_ok_def addresses_ok_def pending_ok_def accounts_ok_def with_policy_def\<close>)

lemma distinct_replicate_le: "distinct (replicate k x) \<Longrightarrow> k \<le> 1"
  by (cases k) (auto simp: set_replicate_conv_if split: if_splits)

lemma remove_member_cases:
  assumes ok: "store_ok db" and ids: "\<not> is_zero n" "\<not> is_zero d"
  obtains
    (absent) "\<nexists>m. m \<in> set (db_memberships db) \<and> member_network m = n \<and> member_id m = d \<and> membership_role m = MR_member"
      "remove_member n d db = Inr (False, db)"
  | (unchanged) p where "read_policy n db = Inr p" "scrub_policy d p = p"
      "remove_member n d db = Inr (True, delete_membership n d db)" "store_ok (delete_membership n d db)"
  | (exhausted) p where "read_policy n db = Inr p" "scrub_policy d p \<noteq> p" "revision p = uint64_max"
      "remove_member n d db = Inl (Overflow_error ''policy revision exhausted'')"
  | (scrubbed) p doc where "read_policy n db = Inr p" "scrub_policy d p \<noteq> p" "revision p \<noteq> uint64_max"
      "policy_typed p" "encode_network_policy ((scrub_policy d p)\<lparr>revision := revision p + 1\<rparr>) = Inr doc"
      "remove_member n d db = Inr (True, with_policy n doc (delete_membership n d db))"
      "store_ok (with_policy n doc (delete_membership n d db))"
proof (cases "length (filter (\<lambda>m. member_network m = n \<and> member_id m = d \<and> membership_role m = MR_member)
      (db_memberships db)) = 1")
  case False
  let ?P = "\<lambda>m. member_network m = n \<and> member_id m = d \<and> membership_role m = MR_member"
  have "distinct (map (\<lambda>m. (member_network m, member_id m)) (filter ?P (db_memberships db)))"
    using ok by (simp add: store_ok_def networks_ok_def distinct_map_filterI)
  moreover have "map (\<lambda>m. (member_network m, member_id m)) (filter ?P (db_memberships db)) =
      replicate (length (filter ?P (db_memberships db))) (n, d)"
    by (rule nth_equalityI) (auto dest: nth_mem)
  ultimately have "length (filter ?P (db_memberships db)) \<le> 1"
    by (simp only: distinct_replicate_le)
  with False have "filter ?P (db_memberships db) = []" by (simp add: le_Suc_eq)
  then have none: "\<nexists>m. m \<in> set (db_memberships db) \<and> ?P m" by (auto simp: filter_empty_conv)
  have "remove_member n d db = Inr (False, db)"
    using False ids by (simp add: remove_member_def require_network_id_def require_device_id_def)
  with none show thesis by (rule absent)
next
  case True
  define db1 where "db1 = delete_membership n d db"
  have ok1: "store_ok db1" unfolding db1_def using ok True by (rule delete_membership_ok)
  then have "access_ok db1" by (simp add: store_ok_def)
  from read_policy_readable [OF this, of n] obtain p where
    p: "read_policy n db1 = Inr p" "policy_typed p" "policy_valid p" by blast
  have read: "read_policy n db = Inr p" using p(1) by (simp add: db1_def delete_membership_def read_policy_def)
  have run: "remove_member n d db =
      (let q = scrub_policy d p in
       if q \<noteq> p
       then if revision q = uint64_max then Inl (Overflow_error ''policy revision exhausted'')
         else let p1 = q\<lparr>revision := revision q + 1\<rparr> in
           res_bind (encode_network_policy p1) (\<lambda>doc. Inr (True, with_policy n doc db1))
       else Inr (True, db1))"
    using True ids p(1)
    by (simp add: remove_member_def require_network_id_def require_device_id_def db1_def Let_def with_policy_def)
  have rev: "revision (scrub_policy d p) = revision p" by (simp add: scrub_policy_def)
  let ?q = "(scrub_policy d p)\<lparr>revision := revision p + 1\<rparr>"
  have enc: "encode_network_policy ?q = Inr (policy_layout ?q)"
    using p by (simp add: encode_network_policy_Inr_iff scrub_policy_valid)
  have typed: "policy_typed ?q" using p by (simp add: scrub_policy_typed)
  consider "scrub_policy d p = p" | "scrub_policy d p \<noteq> p" "revision p = uint64_max"
    | "scrub_policy d p \<noteq> p" "revision p \<noteq> uint64_max" by blast
  then show thesis
  proof cases
    case 1
    with run read ok1 show ?thesis by (intro unchanged [of p]) (simp_all add: db1_def)
  next
    case 2
    with run read rev show ?thesis by (intro exhausted [of p]) simp_all
  next
    case 3
    have "store_ok (with_policy n (policy_layout ?q) (delete_membership n d db))"
      using with_policy_ok [OF ok1 typed enc] by (simp add: db1_def)
    with 3 run read rev enc p show ?thesis
      by (intro scrubbed [of p "policy_layout ?q"]) (simp_all add: db1_def Let_def)
  qed
qed

lemma remove_member_ok:
  assumes ok: "store_ok db" and remove: "remove_member n d db = Inr (b, db')"
  shows "store_ok db'"
proof -
  have ids: "\<not> is_zero n" "\<not> is_zero d"
    using remove by (auto simp: remove_member_def res_bind_Inr_iff)
  from remove_member_cases [OF ok ids] remove ok show ?thesis by cases auto
qed

section \<open>Pending access\<close>

lemma pending_update_ok:
  assumes "store_ok db" and "pending_ok (db\<lparr>db_invitations := is, db_join_requests := js\<rparr>)"
  shows "store_ok (db\<lparr>db_invitations := is, db_join_requests := js\<rparr>)"
  using assms
  by (simp add: store_ok_def networks_ok_def addresses_ok_def access_ok_def accounts_ok_def)

lemma pending_filter_ok:
  assumes "store_ok db"
  shows "store_ok (db\<lparr>db_invitations := filter P (db_invitations db), db_join_requests := filter Q (db_join_requests db)\<rparr>)"
  using assms by (intro pending_update_ok) (auto simp: store_ok_def pending_ok_def distinct_map_filterI)

lemma insert_invitation_ok:
  assumes "store_ok db" and "insert_invitation_row or_ignore i db = Inr (Some db')"
  shows "store_ok db'"
proof -
  from assms(2) have db': "db' = db\<lparr>db_invitations := db_invitations db @ [i], db_join_requests := db_join_requests db\<rparr>"
    and new: "(invited_network i, invited_device i) \<notin> set (member_keys db)"
      "(invited_network i, invited_device i) \<notin> set (join_request_keys db)"
      "(invited_network i, invited_device i) \<notin> set (invitation_keys db)"
      "invited_network i \<in> network_ids db" "invited_device i \<in> device_ids db"
    by (simp_all add: insert_invitation_row_def split: if_splits)
  have "pending_ok db" using assms(1) by (simp add: store_ok_def)
  then have "pending_ok db'" using new unfolding db' pending_ok_def by simp
  then show ?thesis unfolding db' by (rule pending_update_ok [OF assms(1)])
qed

lemma insert_join_request_ok:
  assumes "store_ok db" and "insert_join_request_row j db = Inr (Some db')"
  shows "store_ok db'"
proof -
  from assms(2) have db': "db' = db\<lparr>db_invitations := db_invitations db, db_join_requests := db_join_requests db @ [j]\<rparr>"
    and new: "(requested_network j, requested_device j) \<notin> set (member_keys db)"
      "(requested_network j, requested_device j) \<notin> set (join_request_keys db)"
      "(requested_network j, requested_device j) \<notin> set (invitation_keys db)"
      "requested_network j \<in> network_ids db" "requested_device j \<in> device_ids db"
    by (simp_all add: insert_join_request_row_def split: if_splits)
  have "pending_ok db" using assms(1) by (simp add: store_ok_def)
  moreover have "\<forall>i\<in>set (db_invitations db). invited_network i = requested_network j \<longrightarrow> invited_device i \<noteq> requested_device j"
    using new(3) by force
  ultimately have "pending_ok db'" using new unfolding db' pending_ok_def by simp
  then show ?thesis unfolding db' by (rule pending_update_ok [OF assms(1)])
qed

lemma add_invitation_ok:
  assumes "store_ok db" and "add_invitation n d t db = Inr (b, db')"
  shows "store_ok db'"
  using assms insert_invitation_ok [OF assms(1)]
  by (auto simp: add_invitation_def res_bind_Inr_iff simp del: has_row_iff split: if_splits option.splits)

lemma add_join_request_ok:
  assumes "store_ok db" and "add_join_request n d t db = Inr (b, db')"
  shows "store_ok db'"
  using assms insert_join_request_ok [OF assms(1)]
  by (auto simp: add_join_request_def res_bind_Inr_iff simp del: has_row_iff split: if_splits option.splits)

lemma remove_invitation_ok:
  assumes "store_ok db" and "remove_invitation n d db = Inr (b, db')"
  shows "store_ok db'"
proof -
  have "db' = db\<lparr>db_invitations := filter (\<lambda>i. \<not> (invited_network i = n \<and> invited_device i = d)) (db_invitations db),
      db_join_requests := filter (\<lambda>_. True) (db_join_requests db)\<rparr>"
    using assms(2) by (auto simp: remove_invitation_def res_bind_Inr_iff)
  then show ?thesis by (rule ssubst) (rule pending_filter_ok [OF assms(1)])
qed

lemma remove_join_request_ok:
  assumes "store_ok db" and "remove_join_request n d db = Inr (b, db')"
  shows "store_ok db'"
proof -
  have "db' = db\<lparr>db_invitations := filter (\<lambda>_. True) (db_invitations db),
      db_join_requests := filter (\<lambda>j. \<not> (requested_network j = n \<and> requested_device j = d)) (db_join_requests db)\<rparr>"
    using assms(2) by (auto simp: remove_join_request_def res_bind_Inr_iff)
  then show ?thesis by (rule ssubst) (rule pending_filter_ok [OF assms(1)])
qed

section \<open>Links, passwords and policies\<close>

lemma access_update_ok:
  assumes "store_ok db" and "access_ok (db\<lparr>db_access := as, db_links := ls, db_policies := ps\<rparr>)"
  shows "store_ok (db\<lparr>db_access := as, db_links := ls, db_policies := ps\<rparr>)"
  using assms
  by (simp add: store_ok_def networks_ok_def addresses_ok_def pending_ok_def accounts_ok_def)

lemma links_update_ok:
  assumes "store_ok db" and "distinct (map link_digest ls)" and "\<forall>l\<in>set ls. link_network l \<in> network_ids db"
    and "\<forall>l\<in>set ls. link_remaining l \<le> 100"
  shows "store_ok (db\<lparr>db_links := ls\<rparr>)"
  using access_update_ok [OF assms(1), where as = "db_access db" and ls = ls and ps = "db_policies db"] assms
  by (simp add: store_ok_def access_ok_def)

lemma issue_invite_link_ok:
  assumes ok: "store_ok db" and issue: "issue_invite_link n digest now expires uses db = Inr (u, db')"
  shows "store_ok db'"
proof -
  define live where "live = filter (\<lambda>l. \<not> (link_expires_ms l \<le> now \<or> link_remaining l = 0)) (db_links db)"
  have db': "db' = db\<lparr>db_links := live @ [\<lparr>link_digest = digest, link_network = n, link_expires_ms = expires,
      link_remaining = unat uses\<rparr>]\<rparr>" and new: "\<not> list_ex (\<lambda>l. link_digest l = digest) live" "n \<in> network_ids db"
    and uses: "\<not> uses > 100"
    using issue by (auto simp: issue_invite_link_def live_def Let_def split: if_splits)
  have "unat uses \<le> 100" using uses by (simp add: not_less word_le_nat_alt)
  with ok new show ?thesis
    unfolding db'
    by (intro links_update_ok) (auto simp: store_ok_def access_ok_def live_def list_ex_iff distinct_map_filterI)
qed

lemma redeem_invite_link_ok:
  assumes ok: "store_ok db" and redeem: "redeem_invite_link n digest actor now db = Inr (b, db')"
  shows "store_ok db'"
proof (cases "db' = db")
  case False
  define db1 where "db1 = db\<lparr>db_join_requests :=
      filter (\<lambda>j. \<not> (requested_network j = n \<and> requested_device j = actor)) (db_join_requests db)\<rparr>"
  from redeem False obtain inserted where
    row: "insert_invitation_row True \<lparr>invited_network = n, invited_device = actor, invited_at_ms = now\<rparr> db1 = Inr inserted"
    and db': "db' = (let db2 = (case inserted of None \<Rightarrow> db1 | Some x \<Rightarrow> x) in db2\<lparr>db_links :=
      map (\<lambda>l. if link_digest l = digest then l\<lparr>link_remaining := link_remaining l - 1\<rparr> else l) (db_links db2)\<rparr>)"
    unfolding db1_def by (simp only: redeem_invite_link_def Let_def res_bind_Inr_iff split: if_splits) auto
  have "store_ok (db\<lparr>db_invitations := filter (\<lambda>_. True) (db_invitations db), db_join_requests :=
      filter (\<lambda>j. \<not> (requested_network j = n \<and> requested_device j = actor)) (db_join_requests db)\<rparr>)"
    by (rule pending_filter_ok [OF ok])
  then have "store_ok db1" unfolding db1_def by simp
  then have ok2: "store_ok (case inserted of None \<Rightarrow> db1 | Some x \<Rightarrow> x)"
    using row insert_invitation_ok by (cases inserted) auto
  have digests: "map link_digest (map (\<lambda>l. if link_digest l = digest then l\<lparr>link_remaining := link_remaining l - 1\<rparr> else l) ls)
      = map link_digest ls" for ls by (induction ls) auto
  show ?thesis
    unfolding db' Let_def
    by (rule links_update_ok [OF ok2], unfold digests)
      (use ok2 in \<open>auto simp: store_ok_def access_ok_def le_diff_conv\<close>)
qed (use ok in simp)

lemma revoke_invite_links_ok:
  assumes "store_ok db" and "revoke_invite_links n db = Inr (u, db')"
  shows "store_ok db'"
  using assms links_update_ok [OF assms(1), of "filter (\<lambda>l. link_network l \<noteq> n) (db_links db)"]
  by (auto simp: revoke_invite_links_def store_ok_def access_ok_def distinct_map_filterI)

lemma upsert_row_keys: "fst ` set (upsert_row k v rows) = insert k (fst ` set rows)"
  by (induction rows) auto

lemma upsert_row_distinct: "distinct (map fst rows) \<Longrightarrow> distinct (map fst (upsert_row k v rows))"
  by (induction rows) (auto simp: upsert_row_keys)

lemma upsert_row_set: "r \<in> set (upsert_row k v rows) \<Longrightarrow> r = (k, v) \<or> r \<in> set rows"
  by (induction rows) (auto split: if_splits)

lemma set_network_password_ok:
  assumes ok: "store_ok db" and run: "set_network_password n pw db = Inr (u, db')"
  shows "store_ok db'"
proof -
  have access: "access_ok db" using ok by (simp add: store_ok_def)
  from run consider "db' = db\<lparr>db_access := filter (\<lambda>r. fst r \<noteq> n) (db_access db)\<rparr>"
    | v where "n \<in> network_ids db" "db' = db\<lparr>db_access := upsert_row n v (db_access db)\<rparr>"
    by (auto simp: set_network_password_def split: option.splits if_splits)
  then obtain rows where db': "db' = db\<lparr>db_access := rows\<rparr>" and rows: "distinct (map fst rows)" "\<forall>r\<in>set rows. fst r \<in> network_ids db"
  proof cases
    case 1
    then show ?thesis by (rule that) (use access in \<open>auto simp: access_ok_def distinct_map_filterI\<close>)
  next
    case 2
    show ?thesis
      by (rule that [OF 2(2)]) (use access 2(1) in \<open>auto simp: access_ok_def upsert_row_distinct dest: upsert_row_set\<close>)
  qed
  have "access_ok (db\<lparr>db_access := rows, db_links := db_links db, db_policies := db_policies db\<rparr>)"
    using access rows by (simp add: access_ok_def)
  from access_update_ok [OF ok this] show ?thesis by (simp add: db')
qed

text \<open>The audit log is outside the invariant: its rows refer to networks that may be gone.\<close>

lemma audit_update_ok: "store_ok (db\<lparr>db_audit := rows, db_audit_last := k\<rparr>) = store_ok db"
  by (simp add: store_ok_def networks_ok_def addresses_ok_def pending_ok_def access_ok_def accounts_ok_def)

lemma append_audit_locked_ok:
  assumes "store_ok db" and "append_audit_locked e db = Inr db'"
  shows "store_ok db'"
  using assms by (auto simp: append_audit_locked_def res_bind_Inr_iff Let_def audit_update_ok split: if_splits)

lemma append_audit_ok:
  assumes "store_ok db" and "append_audit e db = Inr (u, db')"
  shows "store_ok db'"
  using assms append_audit_locked_ok by (auto simp: append_audit_def res_bind_Inr_iff)

lemma save_network_policy_ok:
  assumes ok: "store_ok db" and typed: "policy_typed p"
    and save: "save_network_policy n p expected audit db = Inr (b, db')"
  shows "store_ok db'"
proof (cases "db' = db")
  case False
  from save False obtain doc db1 where doc: "encode_network_policy p = Inr doc" "n \<in> network_ids db"
    and db1: "db1 = db\<lparr>db_policies := upsert_row n doc (db_policies db)\<rparr>"
    and db': "db' = db1 \<or> (\<exists>e. append_audit_locked e db1 = Inr db')"
    by (auto simp: save_network_policy_def res_bind_Inr_iff Let_def split: if_splits option.splits)
  have access: "access_ok db" using ok by (simp add: store_ok_def)
  have "access_ok (db\<lparr>db_access := db_access db, db_links := db_links db, db_policies := upsert_row n doc (db_policies db)\<rparr>)"
    using access doc typed by (auto simp: access_ok_def upsert_row_distinct dest!: upsert_row_set)
  from access_update_ok [OF ok this] have "store_ok db1" by (simp add: db1)
  with db' append_audit_locked_ok show ?thesis by blast
qed (use ok in simp)

section \<open>Accounts\<close>

lemma accounts_update_ok:
  assumes "store_ok db" and "accounts_ok (db\<lparr>db_accounts := as, db_account_devices := ds, db_enrollment := es\<rparr>)"
  shows "store_ok (db\<lparr>db_accounts := as, db_account_devices := ds, db_enrollment := es\<rparr>)"
  using assms
  by (simp add: store_ok_def networks_ok_def addresses_ok_def pending_ok_def access_ok_def)

lemma create_account_ok:
  assumes ok: "store_ok db" and run: "create_account a now db = Inr (u, db')"
  shows "store_ok db'"
proof -
  let ?r = "\<lparr>enrolled_device = account_owner a, enrolled_account = account_id a, enrolled_label = account_name a,
    enrolled_revoked = False\<rparr>"
  have new: "account_id a \<notin> account_id ` set (db_accounts db)" "account_owner a \<notin> account_owner ` set (db_accounts db)"
    "account_owner a \<in> device_ids db" "account_owner a \<notin> enrolled_device ` set (db_account_devices db)"
    and db': "db' = db\<lparr>db_accounts := db_accounts db @ [a], db_account_devices := db_account_devices db @ [?r],
      db_enrollment := db_enrollment db\<rparr>"
    using run by (auto simp: create_account_def res_bind_Inr_iff list_ex_iff split: if_splits)
  have "accounts_ok db" using ok by (simp add: store_ok_def)
  then have "accounts_ok db'" using new unfolding db' accounts_ok_def by simp
  then show ?thesis unfolding db' by (rule accounts_update_ok [OF ok])
qed

lemma issue_enrollment_ok:
  assumes ok: "store_ok db" and run: "issue_enrollment account digest expires db = Inr (u, db')"
  shows "store_ok db'"
proof -
  have accounts: "accounts_ok db" using ok by (simp add: store_ok_def)
  have other: "\<forall>r\<in>set (db_enrollment db). enrollment_account r \<noteq> account \<longrightarrow> enrollment_digest r \<noteq> digest"
    and known: "account \<in> account_id ` set (db_accounts db)"
    using run by (auto simp: issue_enrollment_def list_ex_iff split: if_splits)
  define es where "es = (if list_ex (\<lambda>r. enrollment_account r = account) (db_enrollment db)
         then map (\<lambda>r. if enrollment_account r = account
                then r\<lparr>enrollment_digest := digest, enrollment_expires_ms := expires\<rparr> else r) (db_enrollment db)
         else db_enrollment db @ [\<lparr>enrollment_account = account, enrollment_digest = digest,
                enrollment_expires_ms = expires\<rparr>])"
  have db': "db' = db\<lparr>db_accounts := db_accounts db, db_account_devices := db_account_devices db, db_enrollment := es\<rparr>"
    using run by (simp add: issue_enrollment_def es_def split: if_splits)
  have "accounts_ok db'"
  proof (cases "list_ex (\<lambda>r. enrollment_account r = account) (db_enrollment db)")
    case True
    have "map enrollment_digest es =
        map (\<lambda>r. if enrollment_account r = account then digest else enrollment_digest r) (db_enrollment db)"
      using True by (simp add: es_def)
    then have "distinct (map enrollment_digest es)"
      using accounts other by (auto simp: accounts_ok_def distinct_map inj_on_def)
    moreover have "map enrollment_account es = map enrollment_account (db_enrollment db)"
      using True by (simp add: es_def)
    moreover have "\<forall>r\<in>set es. enrollment_account r \<in> account_id ` set (db_accounts db)"
      using accounts True by (auto simp: es_def accounts_ok_def)
    ultimately show ?thesis
      using accounts unfolding db' by (simp add: accounts_ok_def)
  next
    case False
    then show ?thesis
      using accounts other known unfolding db' accounts_ok_def by (auto simp: es_def list_ex_iff)
  qed
  then show ?thesis unfolding db' by (rule accounts_update_ok [OF ok])
qed

lemma upsert_account_device_devices:
  "enrolled_device ` set (upsert_account_device d account label rows) = insert d (enrolled_device ` set rows)"
  by (induction rows) auto

lemma upsert_account_device_distinct:
  "distinct (map enrolled_device rows) \<Longrightarrow> distinct (map enrolled_device (upsert_account_device d account label rows))"
  by (induction rows) (auto simp: upsert_account_device_devices)

lemma upsert_account_device_row:
  assumes "r \<in> set (upsert_account_device d account label rows)"
  shows "r \<in> set rows \<or> (enrolled_device r = d \<and>
    (enrolled_account r = account \<or> (\<exists>r'\<in>set rows. enrolled_account r = enrolled_account r' \<and> enrolled_device r' = d)))"
  using assms by (induction rows) (auto split: if_splits)

lemma upsert_account_device_keeps:
  assumes "r \<in> set rows" and "enrolled_device r \<noteq> d"
  shows "r \<in> set (upsert_account_device d account label rows)"
  using assms by (induction rows) auto

lemma enroll_device_dest:
  assumes "enroll_device digest d label now db = Inr (b, db')"
  obtains (refused) "\<not> b" "db' = db"
  | (enrolled) e where "e \<in> set (db_enrollment db)" "enrollment_digest e = digest" "enrollment_expires_ms e > now"
      "d \<in> device_ids db" "b"
      "db' = db\<lparr>db_accounts := db_accounts db,
         db_account_devices := upsert_account_device d (enrollment_account e) label (db_account_devices db),
         db_enrollment := filter (\<lambda>r. enrollment_digest r \<noteq> digest) (db_enrollment db)\<rparr>"
      "\<forall>r. find (\<lambda>r. enrolled_device r = d) (db_account_devices db) = Some r \<longrightarrow>
         enrolled_account r = enrollment_account e \<and> enrolled_revoked r"
      "length (filter (\<lambda>r. enrolled_account r = enrollment_account e) (db_account_devices db)) < 64"
proof -
  let ?taken = "\<lambda>account. case find (\<lambda>r. enrolled_device r = d) (db_account_devices db) of None \<Rightarrow> False
             | Some r \<Rightarrow> enrolled_account r \<noteq> account \<or> \<not> enrolled_revoked r"
  show thesis
  proof (cases "find (\<lambda>r. enrollment_digest r = digest \<and> enrollment_expires_ms r > now) (db_enrollment db)")
    case None
    then show thesis using assms refused by (simp add: enroll_device_def res_bind_Inr_iff split: if_splits)
  next
    case (Some e)
    note e = find_in_set [OF this]
    let ?n = "length (filter (\<lambda>r. enrolled_account r = enrollment_account e) (db_account_devices db))"
    show thesis
    proof (cases "?taken (enrollment_account e) \<or> ?n \<ge> 64")
      case True
      then have "\<not> b \<and> db' = db"
        using assms Some by (simp add: enroll_device_def res_bind_Inr_iff Let_def split: if_splits)
      then show thesis using refused by simp
    next
      case False
      then have run: "\<not> (\<not> has_device db d \<or> \<not> has_account db (enrollment_account e))" "b"
          "db' = db\<lparr>db_account_devices := upsert_account_device d (enrollment_account e) label (db_account_devices db),
             db_enrollment := filter (\<lambda>r. enrollment_digest r \<noteq> digest) (db_enrollment db)\<rparr>"
        using assms Some by (simp_all add: enroll_device_def res_bind_Inr_iff Let_def del: has_row_iff split: if_splits)
      show thesis
        by (rule enrolled [of e]) (use e run False in \<open>simp_all split: option.splits\<close>)
    qed
  qed
qed

lemma find_unique_key:
  assumes "distinct (map f xs)" and "x \<in> set xs"
  shows "find (\<lambda>r. f r = f x) xs = Some x"
  using assms by (induction xs) force+

lemma enroll_device_ok:
  assumes ok: "store_ok db" and run: "enroll_device digest d label now db = Inr (b, db')"
  shows "store_ok db'"
  using run
proof (cases rule: enroll_device_dest)
  case (enrolled e)
  have accounts: "accounts_ok db" using ok by (simp add: store_ok_def)
  let ?ds = "upsert_account_device d (enrollment_account e) label (db_account_devices db)"
  have known: "enrollment_account e \<in> account_id ` set (db_accounts db)"
    using accounts enrolled(1) by (simp add: accounts_ok_def)
  have rows: "enrolled_device r \<in> device_ids db \<and> enrolled_account r \<in> account_id ` set (db_accounts db)" if "r \<in> set ?ds" for r
    using upsert_account_device_row [OF that] accounts known enrolled(4) by (auto simp: accounts_ok_def)
  have owners: "\<exists>r\<in>set ?ds. enrolled_device r = account_owner a \<and> enrolled_account r = account_id a \<and> \<not> enrolled_revoked r"
    if a: "a \<in> set (db_accounts db)" for a
  proof -
    obtain r where r: "r \<in> set (db_account_devices db)" "enrolled_device r = account_owner a"
      "enrolled_account r = account_id a" "\<not> enrolled_revoked r"
      using accounts a by (auto simp: accounts_ok_def)
    have "distinct (map enrolled_device (db_account_devices db))" using accounts by (simp add: accounts_ok_def)
    from find_unique_key [OF this r(1)] have "enrolled_device r \<noteq> d" using enrolled(7) r(4) by auto
    with r upsert_account_device_keeps show ?thesis by blast
  qed
  have "accounts_ok db'"
    using accounts rows owners unfolding enrolled(6)
    by (simp add: accounts_ok_def upsert_account_device_distinct distinct_map_filterI)
  then show ?thesis unfolding enrolled(6) by (rule accounts_update_ok [OF ok])
qed (use ok in simp)

lemma revoke_account_device_ok:
  assumes ok: "store_ok db" and run: "revoke_account_device account d db = Inr (u, db')"
  shows "store_ok db'"
proof -
  define f :: "AccountDeviceRow \<Rightarrow> AccountDeviceRow" where "f r = (if enrolled_account r = account \<and> enrolled_device r = d \<and>
      \<not> list_ex (\<lambda>a. account_owner a = d) (db_accounts db) then r\<lparr>enrolled_revoked := True\<rparr> else r)" for r
  have keeps: "enrolled_device (f r) = enrolled_device r" "enrolled_account (f r) = enrolled_account r"
    "a \<in> set (db_accounts db) \<Longrightarrow> enrolled_device r = account_owner a \<Longrightarrow> enrolled_revoked (f r) = enrolled_revoked r" for r a
    by (auto simp: f_def list_ex_iff)
  have db': "db' = db\<lparr>db_accounts := db_accounts db, db_account_devices := map f (db_account_devices db),
      db_enrollment := db_enrollment db\<rparr>"
    using run by (auto simp: revoke_account_device_def f_def [abs_def])
  have accounts: "accounts_ok db" using ok by (simp add: store_ok_def)
  moreover have "\<exists>r\<in>set (map f (db_account_devices db)). enrolled_device r = account_owner a \<and>
      enrolled_account r = account_id a \<and> \<not> enrolled_revoked r" if "a \<in> set (db_accounts db)" for a
  proof -
    obtain r where "r \<in> set (db_account_devices db)" "enrolled_device r = account_owner a"
      "enrolled_account r = account_id a" "\<not> enrolled_revoked r"
      using accounts \<open>a \<in> set (db_accounts db)\<close> by (auto simp: accounts_ok_def)
    with that show ?thesis by (intro bexI [of _ "f r"]) (simp_all add: keeps)
  qed
  moreover have "map enrolled_device (map f rows) = map enrolled_device rows" for rows
    by (simp add: keeps)
  ultimately have "accounts_ok db'" unfolding db' accounts_ok_def by (simp add: keeps comp_def)
  then show ?thesis unfolding db' by (rule accounts_update_ok [OF ok])
qed

lemma delete_network_ok:
  assumes "store_ok db" and "delete_network n db = Inr (b, db')"
  shows "store_ok db'"
  using assms cascade_network_ok by (auto simp: delete_network_def res_bind_Inr_iff)

end
