(* ===== verification/Forwarding_Quota.thy ===== *)
theory Forwarding_Quota
  imports Complex_Main Store_Operations
begin

text \<open>
  \<open>relay/forwarding_quota.hpp/.cpp\<close>: token buckets that limit what a device, a network and the whole
  relay may forward. Instants of the steady clock are integers in nanoseconds; the \<open>double\<close>s are
  exact rational numbers (rounding is not modelled); a \<open>std::map\<close> is an association list with
  distinct keys, assigned to with \<open>upsert_row\<close>.
\<close>

record ForwardingLimits =
  device_bytes_per_second :: "64 word"
  network_bytes_per_second :: "64 word"
  device_deliveries_per_second :: "32 word"
  network_deliveries_per_second :: "32 word"
  control_per_second :: "32 word"
  authority_bytes_per_second :: "64 word"
  authority_deliveries_per_second :: "32 word"

definition default_limits :: ForwardingLimits where
  "default_limits = \<lparr>device_bytes_per_second = 8 * 1024 * 1024, network_bytes_per_second = 32 * 1024 * 1024,
     device_deliveries_per_second = 8192, network_deliveries_per_second = 32768, control_per_second = 32,
     authority_bytes_per_second = 64 * 1024 * 1024, authority_deliveries_per_second = 65536\<rparr>"

record ForwardingMetrics =
  admitted_deliveries :: "64 word"
  admitted_bytes :: "64 word"
  quota_rejections :: "64 word"
  control_rejections :: "64 word"

record Bucket =
  bucket_bytes :: rat
  bucket_deliveries :: rat
  bucket_controls :: rat
  bucket_updated :: int
  bucket_initialized :: bool

definition new_bucket :: Bucket where
  "new_bucket = \<lparr>bucket_bytes = 0, bucket_deliveries = 0, bucket_controls = 0, bucket_updated = 0, bucket_initialized = False\<rparr>"

record ForwardingQuota =
  quota_limits :: ForwardingLimits
  quota_metrics :: ForwardingMetrics
  quota_devices :: "(DeviceId \<times> Bucket) list"
  quota_networks :: "(NetworkId \<times> Bucket) list"
  quota_next_prune :: int
  quota_aggregate :: Bucket

definition new_quota :: ForwardingQuota where
  "new_quota = \<lparr>quota_limits = default_limits,
     quota_metrics = \<lparr>admitted_deliveries = 0, admitted_bytes = 0, quota_rejections = 0, control_rejections = 0\<rparr>,
     quota_devices = [], quota_networks = [], quota_next_prune = 0, quota_aggregate = new_bucket\<rparr>"

section \<open>Operations\<close>

definition limits_ok :: "ForwardingLimits \<Rightarrow> bool" where
  "limits_ok l \<longleftrightarrow>
     \<not> (device_bytes_per_second l = 0 \<or> device_bytes_per_second l > 1024 * 1024 * 1024 \<or>
        network_bytes_per_second l = 0 \<or> network_bytes_per_second l > 1024 * 1024 * 1024 \<or>
        device_deliveries_per_second l = 0 \<or> device_deliveries_per_second l > 1000000 \<or>
        network_deliveries_per_second l = 0 \<or> network_deliveries_per_second l > 1000000 \<or>
        authority_bytes_per_second l = 0 \<or> authority_bytes_per_second l > 1024 * 1024 * 1024 \<or>
        authority_deliveries_per_second l = 0 \<or> authority_deliveries_per_second l > 1000000 \<or>
        control_per_second l = 0 \<or> control_per_second l > 10000)"

definition configure :: "ForwardingLimits \<Rightarrow> ForwardingQuota \<Rightarrow> ForwardingQuota res" where
  "configure l q = (if \<not> limits_ok l then Inl (Invalid_argument ''invalid forwarding quota'')
     else Inr (q\<lparr>quota_limits := l, quota_devices := [], quota_networks := [], quota_aggregate := new_bucket\<rparr>))"

text \<open>\<open>static_cast<double>\<close> of an unsigned integer.\<close>

definition as_double :: "'a::len word \<Rightarrow> rat" where
  "as_double w = of_nat (unat w)"

lemma as_double_nonneg [simp]: "0 \<le> as_double w"
  unfolding as_double_def by (rule of_nat_0_le_iff)

definition seconds_between :: "int \<Rightarrow> int \<Rightarrow> rat" where
  "seconds_between earlier later = of_int (later - earlier) / 1000000000"

definition refill :: "Bucket \<Rightarrow> 64 word \<Rightarrow> 32 word \<Rightarrow> 32 word \<Rightarrow> int \<Rightarrow> Bucket" where
  "refill b bytes deliveries controls now =
     (if \<not> bucket_initialized b
      then \<lparr>bucket_bytes = as_double bytes * 2, bucket_deliveries = as_double deliveries * 2,
        bucket_controls = as_double controls * 2, bucket_updated = now, bucket_initialized = True\<rparr>
      else if now \<le> bucket_updated b then b
      else let seconds = seconds_between (bucket_updated b) now in
        b\<lparr>bucket_bytes := min (as_double bytes * 2) (bucket_bytes b + seconds * as_double bytes),
          bucket_deliveries := min (as_double deliveries * 2) (bucket_deliveries b + seconds * as_double deliveries),
          bucket_controls := min (as_double controls * 2) (bucket_controls b + seconds * as_double controls),
          bucket_updated := now\<rparr>)"

definition expired :: "int \<Rightarrow> 'k \<times> Bucket \<Rightarrow> bool" where
  "expired now item \<longleftrightarrow> now > bucket_updated (snd item) \<and> now - bucket_updated (snd item) > 300 * 1000000000"

definition prune :: "int \<Rightarrow> ForwardingQuota \<Rightarrow> ForwardingQuota" where
  "prune now q =
     (if now < quota_next_prune q then q
      else q\<lparr>quota_devices := filter (\<lambda>e. \<not> expired now e) (quota_devices q),
             quota_networks := filter (\<lambda>e. \<not> expired now e) (quota_networks q),
             quota_next_prune := now + 30 * 1000000000\<rparr>)"

definition bucket_at :: "('k \<times> Bucket) list \<Rightarrow> 'k \<Rightarrow> Bucket" where
  "bucket_at m k = (case map_of m k of None \<Rightarrow> new_bucket | Some b \<Rightarrow> b)"

definition count_control_rejection :: "ForwardingQuota \<Rightarrow> ForwardingQuota" where
  "count_control_rejection q = q\<lparr>quota_metrics := (quota_metrics q)\<lparr>control_rejections := control_rejections (quota_metrics q) + 1\<rparr>\<rparr>"

definition count_quota_rejection :: "ForwardingQuota \<Rightarrow> ForwardingQuota" where
  "count_quota_rejection q = q\<lparr>quota_metrics := (quota_metrics q)\<lparr>quota_rejections := quota_rejections (quota_metrics q) + 1\<rparr>\<rparr>"

definition control :: "DeviceId \<Rightarrow> int \<Rightarrow> ForwardingQuota \<Rightarrow> bool \<times> ForwardingQuota" where
  "control actor now q0 =
     (let q = prune now q0; l = quota_limits q in
      if map_of (quota_devices q) actor = None \<and> length (quota_devices q) \<ge> 4096
      then (False, count_control_rejection q)
      else let device = refill (bucket_at (quota_devices q) actor) (device_bytes_per_second l)
                 (device_deliveries_per_second l) (control_per_second l) now in
        if bucket_controls device < 1
        then (False, count_control_rejection (q\<lparr>quota_devices := upsert_row actor device (quota_devices q)\<rparr>))
        else (True, q\<lparr>quota_devices :=
          upsert_row actor (device\<lparr>bucket_controls := bucket_controls device - 1\<rparr>) (quota_devices q)\<rparr>))"

text \<open>What is deducted from a bucket that pays for a packet.\<close>

definition charge :: "64 word \<Rightarrow> 32 word \<Rightarrow> Bucket \<Rightarrow> Bucket" where
  "charge bytes recipients b = b\<lparr>bucket_bytes := bucket_bytes b - as_double bytes,
     bucket_deliveries := bucket_deliveries b - as_double recipients\<rparr>"

definition admit :: "DeviceId \<Rightarrow> NetworkId \<Rightarrow> 64 word \<Rightarrow> 32 word \<Rightarrow> int \<Rightarrow> ForwardingQuota \<Rightarrow> bool \<times> ForwardingQuota" where
  "admit actor network sz recipients now q0 =
     (let q = prune now q0; l = quota_limits q in
      if sz = 0 \<or> recipients = 0 \<or> recipients > 4096 \<or> sz > 0xffffffffffffffff div ucast recipients \<or>
         (map_of (quota_devices q) actor = None \<and> length (quota_devices q) \<ge> 4096) \<or>
         (map_of (quota_networks q) network = None \<and> length (quota_networks q) \<ge> 4096)
      then (False, count_quota_rejection q)
      else let
        device = refill (bucket_at (quota_devices q) actor) (device_bytes_per_second l)
          (device_deliveries_per_second l) (control_per_second l) now;
        shared = refill (bucket_at (quota_networks q) network) (network_bytes_per_second l)
          (network_deliveries_per_second l) (control_per_second l) now;
        aggregate = refill (quota_aggregate q) (authority_bytes_per_second l)
          (authority_deliveries_per_second l) (control_per_second l) now;
        bytes = sz * ucast recipients
      in if bucket_bytes device < as_double bytes \<or> bucket_bytes shared < as_double bytes \<or>
            bucket_deliveries device < as_double recipients \<or> bucket_deliveries shared < as_double recipients \<or>
            bucket_bytes aggregate < as_double bytes \<or> bucket_deliveries aggregate < as_double recipients
         then (False, count_quota_rejection (q\<lparr>quota_devices := upsert_row actor device (quota_devices q),
           quota_networks := upsert_row network shared (quota_networks q), quota_aggregate := aggregate\<rparr>))
         else (True, q\<lparr>quota_devices := upsert_row actor (charge bytes recipients device) (quota_devices q),
           quota_networks := upsert_row network (charge bytes recipients shared) (quota_networks q),
           quota_aggregate := charge bytes recipients aggregate,
           quota_metrics := (quota_metrics q)\<lparr>admitted_deliveries := admitted_deliveries (quota_metrics q) + ucast recipients,
             admitted_bytes := admitted_bytes (quota_metrics q) + bytes\<rparr>\<rparr>))"

definition metrics :: "ForwardingQuota \<Rightarrow> ForwardingMetrics" where
  "metrics q = quota_metrics q"

section \<open>Rate limiters\<close>

text \<open>What the successful operations of a run cost.\<close>

fun spent :: "('op \<Rightarrow> 'q \<Rightarrow> bool \<times> 'q) \<Rightarrow> ('op \<Rightarrow> rat) \<Rightarrow> 'op list \<Rightarrow> 'q \<Rightarrow> rat" where
  "spent run cost [] q = 0"
| "spent run cost (op # ops) q = (case run op q of (ok, q') \<Rightarrow> (if ok then cost op else 0) + spent run cost ops q')"

text \<open>
  The contract of a token bucket: an operation pays out of the level of its own instant, and the
  level rises at no more than the rate.
\<close>

locale rate_limiter =
  fixes good :: "'q \<Rightarrow> int \<Rightarrow> bool"
    and level :: "'q \<Rightarrow> int \<Rightarrow> rat"
    and run :: "'op \<Rightarrow> 'q \<Rightarrow> bool \<times> 'q"
    and instant :: "'op \<Rightarrow> int"
    and cost :: "'op \<Rightarrow> rat"
    and rate :: rat
  assumes step: "good q t \<Longrightarrow> t \<le> instant op \<Longrightarrow> run op q = (ok, q') \<Longrightarrow>
      good q' (instant op) \<and> level q' (instant op) + (if ok then cost op else 0) \<le> level q (instant op)"
    and drift: "good q t \<Longrightarrow> t \<le> t' \<Longrightarrow> level q t' \<le> level q t + seconds_between t t' * rate"
    and level_nonneg: "good q t \<Longrightarrow> 0 \<le> level q t"
begin

lemma spent_bound:
  assumes "good q t" and "sorted (t # map instant ops)"
  shows "spent run cost ops q \<le> level q t + seconds_between t (last (t # map instant ops)) * rate"
  using assms
proof (induction ops arbitrary: q t)
  case Nil
  then show ?case using level_nonneg by (simp add: seconds_between_def)
next
  case (Cons op ops)
  obtain ok q' where run: "run op q = (ok, q')" by force
  have le: "t \<le> instant op" using Cons.prems(2) by simp
  note paid = step [OF Cons.prems(1) le run]
  have "spent run cost ops q' \<le> level q' (instant op) +
      seconds_between (instant op) (last (instant op # map instant ops)) * rate"
    using Cons.IH [of q' "instant op"] paid Cons.prems(2) by simp
  moreover have "level q (instant op) \<le> level q t + seconds_between t (instant op) * rate"
    by (rule drift [OF Cons.prems(1) le])
  moreover have "seconds_between t (instant op) * rate +
      seconds_between (instant op) (last (instant op # map instant ops)) * rate =
      seconds_between t (last (instant op # map instant ops)) * rate"
    by (simp add: seconds_between_def diff_divide_distrib algebra_simps)
  ultimately show ?case using run paid by simp
qed

end

section \<open>Buckets over time\<close>

text \<open>What a bucket would hold after a refill at instant \<open>t\<close>, in one of its three fields.\<close>

definition avail :: "(Bucket \<Rightarrow> rat) \<Rightarrow> rat \<Rightarrow> Bucket \<Rightarrow> int \<Rightarrow> rat" where
  "avail field rate b t = (if \<not> bucket_initialized b then rate * 2 else if t \<le> bucket_updated b then field b
     else min (rate * 2) (field b + seconds_between (bucket_updated b) t * rate))"

lemma refill_avail:
  "bucket_bytes (refill b r1 r2 r3 t) = avail bucket_bytes (as_double r1) b t"
  "bucket_deliveries (refill b r1 r2 r3 t) = avail bucket_deliveries (as_double r2) b t"
  "bucket_controls (refill b r1 r2 r3 t) = avail bucket_controls (as_double r3) b t"
  "bucket_initialized (refill b r1 r2 r3 t)"
  "(\<not> bucket_initialized b \<longrightarrow> bucket_updated (refill b r1 r2 r3 t) = t) \<and>
   (bucket_initialized b \<longrightarrow> bucket_updated (refill b r1 r2 r3 t) = max (bucket_updated b) t)"
  by (auto simp: refill_def avail_def Let_def)

definition bucket_good :: "int \<Rightarrow> Bucket \<Rightarrow> bool" where
  "bucket_good t b \<longleftrightarrow> bucket_initialized b \<and> bucket_updated b \<le> t \<and>
     0 \<le> bucket_bytes b \<and> 0 \<le> bucket_deliveries b \<and> 0 \<le> bucket_controls b"

definition buckets_good :: "int \<Rightarrow> ('k \<times> Bucket) list \<Rightarrow> bool" where
  "buckets_good t m \<longleftrightarrow> distinct (map fst m) \<and> (\<forall>e\<in>set m. bucket_good t (snd e))"

lemma seconds_between_nonneg: "t \<le> t' \<Longrightarrow> 0 \<le> seconds_between t t'"
  by (simp add: seconds_between_def)

lemma avail_nonneg: "0 \<le> rate \<Longrightarrow> 0 \<le> field b \<Longrightarrow> 0 \<le> avail field rate b t"
  by (simp add: avail_def seconds_between_nonneg)

lemma map_of_upsert_row: "map_of (upsert_row k v m) k' = (if k' = k then Some v else map_of m k')"
  by (induction m) auto

lemma map_of_filter_unexpired:
  assumes "distinct (map fst m)"
  shows "map_of (filter (\<lambda>e. \<not> expired now e) m) k =
    (case map_of m k of None \<Rightarrow> None | Some b \<Rightarrow> if expired now (k, b) then None else Some b)"
  using assms
proof (induction m)
  case (Cons e m)
  obtain k' b' where e: "e = (k', b')" by force
  have "map_of m k' = None" using Cons.prems e by (simp add: map_of_eq_None_iff)
  with Cons e show ?case by auto
qed simp

text \<open>One field of the buckets of a map, for one key.\<close>

locale token_meter =
  fixes field :: "Bucket \<Rightarrow> rat" and rate :: rat
  assumes rate_nonneg: "0 \<le> rate"
    and field_nonneg: "bucket_good t b \<Longrightarrow> 0 \<le> field b"
    and field_updated [simp]: "field (b\<lparr>bucket_updated := u\<rparr>) = field b"
begin

definition meter :: "('k \<times> Bucket) list \<Rightarrow> 'k \<Rightarrow> int \<Rightarrow> rat" where
  "meter m k t = avail field rate (bucket_at m k) t"

lemma meter_nonneg:
  assumes "buckets_good t m"
  shows "0 \<le> meter m k t'"
proof (cases "map_of m k")
  case None
  then show ?thesis using rate_nonneg by (simp add: meter_def bucket_at_def avail_def new_bucket_def)
next
  case (Some b)
  then have "bucket_good t b" using assms by (force simp: buckets_good_def dest: map_of_SomeD)
  then show ?thesis using Some rate_nonneg field_nonneg avail_nonneg by (simp add: meter_def bucket_at_def)
qed

lemma avail_drift:
  assumes "\<not> bucket_initialized b \<or> bucket_updated b \<le> t" and "t \<le> t'"
  shows "avail field rate b t' \<le> avail field rate b t + seconds_between t t' * rate"
proof -
  have nn: "0 \<le> seconds_between t t' * rate" using assms(2) rate_nonneg by (simp add: seconds_between_nonneg)
  have "seconds_between (bucket_updated b) t' * rate = seconds_between (bucket_updated b) t * rate + seconds_between t t' * rate"
    by (simp add: seconds_between_def diff_divide_distrib algebra_simps)
  moreover have "seconds_between u u = 0" for u by (simp add: seconds_between_def)
  ultimately show ?thesis using assms nn by (auto simp: avail_def min_def)
qed

lemma meter_drift:
  assumes "buckets_good t m" and "t \<le> t'"
  shows "meter m k t' \<le> meter m k t + seconds_between t t' * rate"
proof -
  have "\<not> bucket_initialized (bucket_at m k) \<or> bucket_updated (bucket_at m k) \<le> t"
  proof (cases "map_of m k")
    case (Some b)
    then have "bucket_good t b" using assms by (force simp: buckets_good_def dest: map_of_SomeD)
    then show ?thesis using Some by (simp add: bucket_at_def bucket_good_def)
  qed (simp add: bucket_at_def new_bucket_def)
  then show ?thesis using avail_drift assms(2) by (simp add: meter_def)
qed

text \<open>A bucket that has been idle for five minutes is full: forgetting it is not observable.\<close>

lemma meter_unexpired:
  assumes good: "buckets_good t m" and "t \<le> now"
  shows "meter (filter (\<lambda>e. \<not> expired now e) m) k now = meter m k now"
proof (cases "map_of m k")
  case None
  then show ?thesis
    using good by (simp add: meter_def bucket_at_def map_of_filter_unexpired buckets_good_def)
next
  case (Some b)
  have b: "bucket_good t b" using good Some by (force simp: buckets_good_def dest: map_of_SomeD)
  show ?thesis
  proof (cases "expired now (k, b)")
    case True
    then have idle: "bucket_updated b < now" "300 \<le> seconds_between (bucket_updated b) now"
      by (auto simp: expired_def seconds_between_def field_simps of_int_less_iff [symmetric, where 'a = rat] simp del: of_int_less_iff)
    then have "300 * rate \<le> seconds_between (bucket_updated b) now * rate"
      using rate_nonneg by (intro mult_right_mono)
    then have "avail field rate b now = rate * 2"
      using b idle field_nonneg [OF b] rate_nonneg by (auto simp: avail_def bucket_good_def min_def)
    then show ?thesis
      using Some True good
      by (simp add: meter_def bucket_at_def map_of_filter_unexpired buckets_good_def avail_def new_bucket_def)
  next
    case False
    then show ?thesis
      using Some good by (simp add: meter_def bucket_at_def map_of_filter_unexpired buckets_good_def)
  qed
qed

lemma meter_upsert:
  assumes "bucket_initialized b" and "now \<le> bucket_updated b"
  shows "meter (upsert_row k' b m) k now = (if k = k' then field b else meter m k now)"
  using assms by (simp add: meter_def bucket_at_def map_of_upsert_row avail_def)

end

interpretation byte_meter: token_meter bucket_bytes "as_double (r :: 64 word)" for r
  by unfold_locales (simp_all add: bucket_good_def)

interpretation delivery_meter: token_meter bucket_deliveries "as_double (r :: 32 word)" for r
  by unfold_locales (simp_all add: bucket_good_def)

interpretation control_meter: token_meter bucket_controls "as_double (r :: 32 word)" for r
  by unfold_locales (simp_all add: bucket_good_def)

section \<open>Runs of the quota\<close>

datatype QuotaOp =
    QO_admit DeviceId NetworkId "64 word" "32 word" int
  | QO_control DeviceId int

fun quota_run :: "QuotaOp \<Rightarrow> ForwardingQuota \<Rightarrow> bool \<times> ForwardingQuota" where
  "quota_run (QO_admit a n sz r t) q = admit a n sz r t q"
| "quota_run (QO_control a t) q = control a t q"

fun quota_instant :: "QuotaOp \<Rightarrow> int" where
  "quota_instant (QO_admit a n sz r t) = t"
| "quota_instant (QO_control a t) = t"

fun device_byte_cost :: "DeviceId \<Rightarrow> QuotaOp \<Rightarrow> rat" where
  "device_byte_cost d (QO_admit a n sz r t) = (if a = d then of_nat (unat sz * unat r) else 0)"
| "device_byte_cost d (QO_control a t) = 0"

fun network_byte_cost :: "NetworkId \<Rightarrow> QuotaOp \<Rightarrow> rat" where
  "network_byte_cost k (QO_admit a n sz r t) = (if n = k then of_nat (unat sz * unat r) else 0)"
| "network_byte_cost k (QO_control a t) = 0"

fun control_cost :: "DeviceId \<Rightarrow> QuotaOp \<Rightarrow> rat" where
  "control_cost d (QO_admit a n sz r t) = 0"
| "control_cost d (QO_control a t) = (if a = d then 1 else 0)"

definition quota_good :: "ForwardingLimits \<Rightarrow> ForwardingQuota \<Rightarrow> int \<Rightarrow> bool" where
  "quota_good l q t \<longleftrightarrow> quota_limits q = l \<and> buckets_good t (quota_devices q) \<and> buckets_good t (quota_networks q) \<and>
     (bucket_initialized (quota_aggregate q) \<longrightarrow> bucket_good t (quota_aggregate q))"

lemma bucket_good_later: "bucket_good t b \<Longrightarrow> t \<le> t' \<Longrightarrow> bucket_good t' b"
  by (auto simp: bucket_good_def)

lemma buckets_good_later: "buckets_good t m \<Longrightarrow> t \<le> t' \<Longrightarrow> buckets_good t' m"
  by (auto simp: buckets_good_def intro: bucket_good_later)

lemma buckets_good_filter: "buckets_good t m \<Longrightarrow> buckets_good t (filter P m)"
  by (simp add: buckets_good_def distinct_map_filterI)

lemma buckets_good_upsert:
  assumes "buckets_good t m" and "bucket_good t b"
  shows "buckets_good t (upsert_row k b m)"
proof -
  have "\<forall>e\<in>set (upsert_row k b m). bucket_good t (snd e)"
    using assms upsert_row_set [of _ k b m] by (fastforce simp: buckets_good_def)
  then show ?thesis using assms(1) by (simp add: buckets_good_def upsert_row_distinct)
qed

lemma bucket_at_good:
  "buckets_good t m \<Longrightarrow> bucket_initialized (bucket_at m k) \<Longrightarrow> bucket_good t (bucket_at m k)"
  by (auto simp: buckets_good_def bucket_at_def new_bucket_def dest!: map_of_SomeD split: option.splits)

lemma refill_good:
  assumes "bucket_initialized b \<Longrightarrow> bucket_good now b"
  shows "bucket_good now (refill b r1 r2 r3 now)" "bucket_updated (refill b r1 r2 r3 now) = now"
    "bucket_initialized (refill b r1 r2 r3 now)"
proof -
  have nn: "0 \<le> avail f (as_double r) b now" if "bucket_initialized b \<Longrightarrow> 0 \<le> f b" for f and r :: "'w::len word"
  proof (cases "bucket_initialized b")
    case True
    then show ?thesis using that by (intro avail_nonneg) simp_all
  qed (simp add: avail_def)
  have "0 \<le> avail bucket_bytes (as_double r1) b now" "0 \<le> avail bucket_deliveries (as_double r2) b now"
    "0 \<le> avail bucket_controls (as_double r3) b now"
    using assms by (auto simp: bucket_good_def intro!: nn)
  moreover show upd: "bucket_updated (refill b r1 r2 r3 now) = now"
    using assms refill_avail(5) [of b r1 r2 r3 now] by (cases "bucket_initialized b") (auto simp: bucket_good_def)
  ultimately show "bucket_good now (refill b r1 r2 r3 now)" by (simp add: bucket_good_def refill_avail)
  show "bucket_initialized (refill b r1 r2 r3 now)" by (rule refill_avail(4))
qed

lemma prune_good:
  assumes "quota_good l q t" and "t \<le> now"
  shows "quota_good l (prune now q) now"
  using assms by (auto simp: quota_good_def prune_def intro: buckets_good_filter buckets_good_later bucket_good_later)

lemma prune_meters:
  assumes "quota_good l q t" and "t \<le> now"
  shows "byte_meter.meter r (quota_devices (prune now q)) d now = byte_meter.meter r (quota_devices q) d now"
    "byte_meter.meter r (quota_networks (prune now q)) n now = byte_meter.meter r (quota_networks q) n now"
    "control_meter.meter r' (quota_devices (prune now q)) d now = control_meter.meter r' (quota_devices q) d now"
  using assms byte_meter.meter_unexpired control_meter.meter_unexpired by (auto simp: prune_def quota_good_def)

text \<open>The guard of \<open>admit\<close> excludes overflow of \<open>size * recipients\<close>.\<close>

lemma product_fits:
  fixes sz :: "64 word" and r :: "32 word"
  assumes "\<not> sz > 0xffffffffffffffff div ucast r" and "r \<noteq> 0"
  shows "unat (sz * ucast r) = unat sz * unat r"
proof -
  have "unat r < 2 ^ 64" using unsigned_less [of r, where 'a = nat] by simp
  then have u: "unat (ucast r :: 64 word) = unat r" by (simp add: unsigned_ucast_eq take_bit_nat_eq_self)
  have "unat sz \<le> unat (0xffffffffffffffff div ucast r :: 64 word)" using assms(1) by (simp add: not_less word_le_nat_alt)
  also have "\<dots> = 0xffffffffffffffff div unat r" by (simp add: unat_div u)
  finally have "unat sz * unat r \<le> 0xffffffffffffffff div unat r * unat r" by (rule mult_le_mono1)
  also have "\<dots> \<le> 0xffffffffffffffff" by (rule div_times_less_eq_dividend)
  finally have "unat sz * unat r < 2 ^ 64" by simp
  then show ?thesis using unat_mult_lem [of sz "ucast r"] by (simp add: u)
qed

lemma refill_meters:
  "bucket_bytes (refill (bucket_at m k) r1 r2 r3 now) = byte_meter.meter r1 m k now"
  "bucket_controls (refill (bucket_at m k) r1 r2 r3 now) = control_meter.meter r3 m k now"
  by (simp_all add: refill_avail byte_meter.meter_def control_meter.meter_def)

definition levels :: "ForwardingLimits \<Rightarrow> DeviceId \<Rightarrow> NetworkId \<Rightarrow> ForwardingQuota \<Rightarrow> int \<Rightarrow> rat \<times> rat \<times> rat" where
  "levels l d n q t = (byte_meter.meter (device_bytes_per_second l) (quota_devices q) d t,
     byte_meter.meter (network_bytes_per_second l) (quota_networks q) n t,
     control_meter.meter (control_per_second l) (quota_devices q) d t)"

lemma prune_levels: "quota_good l q t \<Longrightarrow> t \<le> now \<Longrightarrow> levels l d n (prune now q) now = levels l d n q now"
  by (simp add: levels_def prune_meters)

lemma rejection_counts [simp]:
  "quota_good l (count_control_rejection q) t = quota_good l q t" "levels l d n (count_control_rejection q) t = levels l d n q t"
  "quota_good l (count_quota_rejection q) t = quota_good l q t" "levels l d n (count_quota_rejection q) t = levels l d n q t"
  by (simp_all add: count_control_rejection_def count_quota_rejection_def quota_good_def levels_def)

lemma control_step:
  assumes good: "quota_good l q t" and "t \<le> now" and run: "control a now q = (ok, q')"
  shows "quota_good l q' now \<and> levels l d n q' now =
    (case levels l d n q now of (x, y, z) \<Rightarrow> (x, y, z - (if ok \<and> a = d then 1 else 0)))"
proof -
  define q1 where "q1 = prune now q"
  have good1: "quota_good l q1 now" unfolding q1_def using good assms(2) by (rule prune_good)
  have lev1: "levels l d n q1 now = levels l d n q now" unfolding q1_def using good assms(2) by (rule prune_levels)
  have l: "quota_limits q1 = l" and devs: "buckets_good now (quota_devices q1)" using good1 by (simp_all add: quota_good_def)
  define D where "D = refill (bucket_at (quota_devices q1) a) (device_bytes_per_second l) (device_deliveries_per_second l)
    (control_per_second l) now"
  have D: "bucket_good now D" "bucket_updated D = now" "bucket_initialized D"
    unfolding D_def using refill_good bucket_at_good [OF devs] by auto
  have lev: "levels l d n (q1\<lparr>quota_devices := upsert_row a (D\<lparr>bucket_controls := bucket_controls D - c\<rparr>) (quota_devices q1)\<rparr>) now =
      (case levels l d n q now of (x, y, z) \<Rightarrow> (x, y, z - (if a = d then c else 0)))" for c
    using D lev1 [symmetric]
    by (auto simp: levels_def byte_meter.meter_upsert control_meter.meter_upsert D_def refill_meters)
  have keep: "quota_good l (q1\<lparr>quota_devices := upsert_row a (D\<lparr>bucket_controls := bucket_controls D - c\<rparr>) (quota_devices q1)\<rparr>) now"
    if "c \<le> bucket_controls D" for c
  proof -
    have "bucket_good now (D\<lparr>bucket_controls := bucket_controls D - c\<rparr>)" using D(1) that by (simp add: bucket_good_def)
    then show ?thesis using good1 by (simp add: quota_good_def buckets_good_upsert)
  qed
  have "D\<lparr>bucket_controls := bucket_controls D - 0\<rparr> = D" by simp
  then have "quota_good l (q1\<lparr>quota_devices := upsert_row a D (quota_devices q1)\<rparr>) now"
    "levels l d n (q1\<lparr>quota_devices := upsert_row a D (quota_devices q1)\<rparr>) now = levels l d n q now"
    using keep [of 0] lev [of 0] D(1) by (auto simp: bucket_good_def split: prod.splits)
  moreover have "ok = (\<not> (map_of (quota_devices q1) a = None \<and> length (quota_devices q1) \<ge> 4096) \<and> \<not> bucket_controls D < 1)"
    and "q' = (if map_of (quota_devices q1) a = None \<and> length (quota_devices q1) \<ge> 4096 then count_control_rejection q1
       else if bucket_controls D < 1 then count_control_rejection (q1\<lparr>quota_devices := upsert_row a D (quota_devices q1)\<rparr>)
       else q1\<lparr>quota_devices := upsert_row a (D\<lparr>bucket_controls := bucket_controls D - 1\<rparr>) (quota_devices q1)\<rparr>)"
    using run unfolding control_def q1_def [symmetric] Let_def l D_def [symmetric] by (auto split: if_splits)
  ultimately show ?thesis using good1 lev1 keep [of 1] lev [of 1] by (auto split: prod.splits)
qed

lemma charge_good:
  assumes "bucket_good t b" and "\<not> bucket_bytes b < as_double x" and "\<not> bucket_deliveries b < as_double r"
  shows "bucket_good t (charge x r b)"
  using assms by (simp add: bucket_good_def charge_def)

lemma charge_simps [simp]:
  "bucket_bytes (charge x r b) = bucket_bytes b - as_double x" "bucket_controls (charge x r b) = bucket_controls b"
  "bucket_updated (charge x r b) = bucket_updated b" "bucket_initialized (charge x r b) = bucket_initialized b"
  by (simp_all add: charge_def)

lemma admit_step:
  assumes good: "quota_good l q t" and "t \<le> now" and run: "admit a k sz r now q = (ok, q')"
  shows "quota_good l q' now \<and> levels l d n q' now =
    (case levels l d n q now of (x, y, z) \<Rightarrow>
       (x - (if ok \<and> a = d then of_nat (unat sz * unat r) else 0), y - (if ok \<and> k = n then of_nat (unat sz * unat r) else 0), z))"
proof -
  define q1 where "q1 = prune now q"
  have good1: "quota_good l q1 now" unfolding q1_def using good assms(2) by (rule prune_good)
  have lev1: "levels l d n q1 now = levels l d n q now" unfolding q1_def using good assms(2) by (rule prune_levels)
  have l: "quota_limits q1 = l" and maps: "buckets_good now (quota_devices q1)" "buckets_good now (quota_networks q1)"
    "bucket_initialized (quota_aggregate q1) \<Longrightarrow> bucket_good now (quota_aggregate q1)"
    using good1 by (simp_all add: quota_good_def)
  define D where "D = refill (bucket_at (quota_devices q1) a) (device_bytes_per_second l) (device_deliveries_per_second l)
    (control_per_second l) now"
  define S where "S = refill (bucket_at (quota_networks q1) k) (network_bytes_per_second l) (network_deliveries_per_second l)
    (control_per_second l) now"
  define G where "G = refill (quota_aggregate q1) (authority_bytes_per_second l) (authority_deliveries_per_second l)
    (control_per_second l) now"
  have D: "bucket_good now D" "bucket_updated D = now" "bucket_initialized D"
    unfolding D_def using refill_good bucket_at_good [OF maps(1)] by auto
  have S: "bucket_good now S" "bucket_updated S = now" "bucket_initialized S"
    unfolding S_def using refill_good bucket_at_good [OF maps(2)] by auto
  have G: "bucket_good now G" unfolding G_def using refill_good maps(3) by auto
  define put where "put D' S' G' mt = q1\<lparr>quota_devices := upsert_row a D' (quota_devices q1),
      quota_networks := upsert_row k S' (quota_networks q1), quota_aggregate := G', quota_metrics := mt\<rparr>" for D' S' G' mt
  have put_good: "quota_good l (put D' S' G' mt) now" if "bucket_good now D'" "bucket_good now S'" "bucket_good now G'" for D' S' G' mt
    using that maps good1 by (simp add: put_def quota_good_def buckets_good_upsert)
  have lev: "levels l d n (put D S G mt) now = levels l d n q now"
    "levels l d n (put (charge x r D) (charge x r S) G' mt) now =
      (case levels l d n q now of (u, v, w) \<Rightarrow> (u - (if a = d then as_double x else 0), v - (if k = n then as_double x else 0), w))"
    for x :: "64 word" and G' mt
    using D S lev1 [symmetric]
    by (auto simp: levels_def put_def byte_meter.meter_upsert control_meter.meter_upsert D_def S_def refill_meters)
  let ?bad = "sz = 0 \<or> r = 0 \<or> r > 4096 \<or> sz > 0xffffffffffffffff div ucast r \<or>
         (map_of (quota_devices q1) a = None \<and> length (quota_devices q1) \<ge> 4096) \<or>
         (map_of (quota_networks q1) k = None \<and> length (quota_networks q1) \<ge> 4096)"
  let ?x = "sz * ucast r"
  let ?short = "bucket_bytes D < as_double ?x \<or> bucket_bytes S < as_double ?x \<or> bucket_deliveries D < as_double r \<or>
    bucket_deliveries S < as_double r \<or> bucket_bytes G < as_double ?x \<or> bucket_deliveries G < as_double r"
  have run': "(ok, q') = (if ?bad then (False, count_quota_rejection q1)
     else if ?short then (False, count_quota_rejection (put D S G (quota_metrics q1)))
     else (True, put (charge ?x r D) (charge ?x r S) (charge ?x r G)
       ((quota_metrics q1)\<lparr>admitted_deliveries := admitted_deliveries (quota_metrics q1) + ucast r,
             admitted_bytes := admitted_bytes (quota_metrics q1) + ?x\<rparr>)))"
    using run [symmetric] unfolding admit_def q1_def [symmetric] Let_def l D_def [symmetric] S_def [symmetric] G_def [symmetric] put_def
    by simp
  consider (bad) ?bad | (short) "\<not> ?bad" ?short | (paid) "\<not> ?bad" "\<not> ?short" by blast
  then show ?thesis
  proof cases
    case bad
    from run' [unfolded if_P [OF bad]] show ?thesis using good1 lev1 by (simp split: prod.splits)
  next
    case short
    from run' [unfolded if_not_P [OF short(1)] if_P [OF short(2)]] show ?thesis
      using put_good [OF D(1) S(1) G] lev(1) by (simp split: prod.splits)
  next
    case paid
    define C :: rat where "C = of_nat (unat sz * unat r)"
    have "unat ?x = unat sz * unat r" using paid(1) by (intro product_fits) blast+
    then have cost: "as_double ?x = C" by (simp only: as_double_def C_def)
    have "bucket_good now (charge ?x r D)" "bucket_good now (charge ?x r S)" "bucket_good now (charge ?x r G)"
      using D(1) S(1) G paid(2) by (simp_all add: charge_good)
    then show ?thesis
      using run' [unfolded if_not_P [OF paid(1)] if_not_P [OF paid(2)]] put_good lev(2) [of ?x]
      unfolding cost C_def [symmetric] by (auto split: prod.splits)
  qed
qed

text \<open>The two maps and the control tokens as rate limiters.\<close>

lemma levels_drift:
  assumes "quota_good l q t" and "t \<le> t'"
  shows "fst (levels l d n q t') \<le> fst (levels l d n q t) + seconds_between t t' * as_double (device_bytes_per_second l)"
    "fst (snd (levels l d n q t')) \<le> fst (snd (levels l d n q t)) + seconds_between t t' * as_double (network_bytes_per_second l)"
    "snd (snd (levels l d n q t')) \<le> snd (snd (levels l d n q t)) + seconds_between t t' * as_double (control_per_second l)"
    "0 \<le> fst (levels l d n q t)" "0 \<le> fst (snd (levels l d n q t))" "0 \<le> snd (snd (levels l d n q t))"
  using assms byte_meter.meter_drift control_meter.meter_drift byte_meter.meter_nonneg control_meter.meter_nonneg
  by (auto simp: levels_def quota_good_def)

lemma quota_step:
  assumes "quota_good l q t" and "t \<le> quota_instant op" and "quota_run op q = (ok, q')"
  shows "quota_good l q' (quota_instant op) \<and>
    fst (levels l d n q' (quota_instant op)) + (if ok then device_byte_cost d op else 0) = fst (levels l d n q (quota_instant op)) \<and>
    fst (snd (levels l d n q' (quota_instant op))) + (if ok then network_byte_cost n op else 0) = fst (snd (levels l d n q (quota_instant op))) \<and>
    snd (snd (levels l d n q' (quota_instant op))) + (if ok then control_cost d op else 0) = snd (snd (levels l d n q (quota_instant op)))"
proof (cases op)
  case (QO_admit a k sz r now)
  then show ?thesis using admit_step [OF assms(1), of now a k sz r ok q' d n] assms(2,3) by (auto split: prod.splits)
next
  case (QO_control a now)
  then show ?thesis using control_step [OF assms(1), of now a ok q' d n] assms(2,3) by (auto split: prod.splits)
qed

interpretation device_limiter: rate_limiter "quota_good l" "\<lambda>q t. fst (levels l d [] q t)" quota_run quota_instant
    "device_byte_cost d" "as_double (device_bytes_per_second l)" for l d
  by unfold_locales (use quota_step levels_drift in \<open>fastforce+\<close>)

interpretation network_limiter: rate_limiter "quota_good l" "\<lambda>q t. fst (snd (levels l [] n q t))" quota_run quota_instant
    "network_byte_cost n" "as_double (network_bytes_per_second l)" for l n
  by unfold_locales (use quota_step levels_drift in \<open>fastforce+\<close>)

interpretation control_limiter: rate_limiter "quota_good l" "\<lambda>q t. snd (snd (levels l d [] q t))" quota_run quota_instant
    "control_cost d" "as_double (control_per_second l)" for l d
  by unfold_locales (use quota_step levels_drift in \<open>fastforce+\<close>)

lemma configured_quota:
  assumes "configure l q0 = Inr q"
  shows "quota_good l q t" "levels l d n q t =
    (as_double (device_bytes_per_second l) * 2, as_double (network_bytes_per_second l) * 2, as_double (control_per_second l) * 2)"
proof -
  have "quota_limits q = l" "quota_devices q = []" "quota_networks q = []" "quota_aggregate q = new_bucket"
    using assms by (auto simp: configure_def split: if_splits)
  then show "quota_good l q t" "levels l d n q t =
    (as_double (device_bytes_per_second l) * 2, as_double (network_bytes_per_second l) * 2, as_double (control_per_second l) * 2)"
    by (simp_all add: quota_good_def buckets_good_def new_bucket_def levels_def byte_meter.meter_def control_meter.meter_def
        avail_def bucket_at_def)
qed



end
