(* ===== verification/Join_Target.thy ===== *)
theory Join_Target
  imports Network_Types
begin

text \<open>
  \<open>protocol/join_target.hpp/.cpp\<close>: invitation links, invitation codes and network ids as text.
  Strings are byte lists.
\<close>

section \<open>Hexadecimal\<close>

definition hex_digit :: "byte \<Rightarrow> byte" where
  "hex_digit v = str ''0123456789abcdef'' ! unat v"

definition hex :: "bytes \<Rightarrow> bytes" where
  "hex bs = concat (map (\<lambda>b. [hex_digit (drop_bit 4 b), hex_digit (b AND 15)]) bs)"

definition digit :: "byte \<Rightarrow> byte res" where
  "digit c =
     (if c \<ge> 0x30 \<and> c \<le> 0x39 then Inr (c - 0x30)
      else if c \<ge> 0x61 \<and> c \<le> 0x66 then Inr (c - 0x61 + 10)
      else if c \<ge> 0x41 \<and> c \<le> 0x46 then Inr (c - 0x41 + 10)
      else Inl (Invalid_argument ''invalid join identifier''))"

fun res_map :: "('a \<Rightarrow> 'b res) \<Rightarrow> 'a list \<Rightarrow> 'b list res" where
  "res_map f [] = Inr []"
| "res_map f (x # xs) = res_bind (f x) (\<lambda>y. res_bind (res_map f xs) (\<lambda>ys. Inr (y # ys)))"

section \<open>Join targets\<close>

record JoinTarget =
  join_network :: NetworkId
  join_invitation :: bytes

definition is_blank :: "byte \<Rightarrow> bool" where
  "is_blank c \<longleftrightarrow> c = 0x20 \<or> c = 0x0d \<or> c = 0x0a \<or> c = 0x09"

definition trim :: "bytes \<Rightarrow> bytes" where
  "trim text = rev (dropWhile is_blank (rev (dropWhile is_blank text)))"

text \<open>The scheme that was recognised, as its separator (0: none), and the text after it.\<close>

definition split_scheme :: "bytes \<Rightarrow> byte \<times> bytes" where
  "split_scheme text =
     (if take 15 text = str ''lanlink://join/'' then (0x2f, drop 15 text)
      else if take 4 text = str ''LL1.'' then (0x2e, drop 4 text)
      else (0, text))"

definition network_byte :: "bytes \<Rightarrow> nat \<Rightarrow> byte res" where
  "network_byte text i = res_bind (digit (text ! (i * 2))) (\<lambda>high.
     res_bind (digit (text ! (i * 2 + 1))) (\<lambda>low. Inr (push_bit 4 high OR low)))"

definition parse_join_target :: "bytes \<Rightarrow> JoinTarget res" where
  "parse_join_target input =
     (case split_scheme (trim input) of (separator, text) \<Rightarrow>
        if (separator = 0 \<and> length text \<noteq> 32) \<or> (separator \<noteq> 0 \<and> (length text \<noteq> 73 \<or> text ! 32 \<noteq> separator))
        then Inl (Invalid_argument ''Enter a network ID, LanLink invitation link or invitation code.'')
        else res_bind (res_map (network_byte text) [0..<16]) (\<lambda>network.
          if is_zero network then Inl (Invalid_argument ''zero network ID'')
          else if separator \<noteq> 0
          then res_bind (res_map (\<lambda>c. res_bind (digit c) (\<lambda>v. Inr (hex_digit v))) (drop 33 text)) (\<lambda>invitation.
            Inr \<lparr>join_network = network, join_invitation = invitation\<rparr>)
          else Inr \<lparr>join_network = network, join_invitation = []\<rparr>))"

definition make_invite_link :: "NetworkId \<Rightarrow> bytes \<Rightarrow> bytes res" where
  "make_invite_link network secret =
     (let result = str ''lanlink://join/'' @ hex network @ str ''/'' @ secret in
      res_bind (parse_join_target result) (\<lambda>_. Inr result))"

definition make_invite_code :: "NetworkId \<Rightarrow> bytes \<Rightarrow> bytes res" where
  "make_invite_code network secret =
     (let result = str ''LL1.'' @ hex network @ str ''.'' @ secret in
      res_bind (parse_join_target result) (\<lambda>_. Inr result))"

section \<open>Lemmas\<close>

lemma res_map_Inr_iff:
  "res_map f xs = Inr ys \<longleftrightarrow> length ys = length xs \<and> (\<forall>i<length xs. f (xs ! i) = Inr (ys ! i))"
proof (induction xs arbitrary: ys)
  case (Cons x xs)
  show ?case
  proof (cases ys)
    case (Cons y zs)
    have "(\<forall>i<Suc (length xs). f ((x # xs) ! i) = Inr ((y # zs) ! i)) \<longleftrightarrow>
        f x = Inr y \<and> (\<forall>i<length xs. f (xs ! i) = Inr (zs ! i))"
      by (simp add: All_less_Suc2)
    then show ?thesis using Cons.IH [of zs] Cons by (auto simp: res_bind_Inr_iff)
  qed (auto simp: res_bind_Inr_iff)
qed auto

lemma digit_cases:
  assumes "unat (v :: byte) < 16"
  shows "v \<in> {0, 1, 2, 3, 4, 5, 6, 7, 8, 9, 10, 11, 12, 13, 14, 15}"
proof -
  have "v = word_of_nat (unat v)" by simp
  moreover from assms have "unat v \<in> {0, 1, 2, 3, 4, 5, 6, 7, 8, 9, 10, 11, 12, 13, 14, 15}"
    by simp presburger
  ultimately show ?thesis by (auto simp: word_unat_eq_iff)
qed

lemma hex_table: "str ''0123456789abcdef'' = [0x30, 0x31, 0x32, 0x33, 0x34, 0x35, 0x36, 0x37, 0x38, 0x39,
    0x61, 0x62, 0x63, 0x64, 0x65, 0x66]"
  by (simp add: str_def)

lemma digit_hex_digit:
  assumes "unat v < 16"
  shows "digit (hex_digit v) = Inr v"
  using digit_cases [OF assms] unfolding hex_digit_def hex_table digit_def by (elim insertE emptyE) simp_all

lemma nibbles [simp]: "unat (drop_bit 4 (b :: byte)) < 16" "unat (b AND 15) < 16"
proof -
  have "unat (drop_bit 4 b) = unat b div 16" by (simp add: drop_bit_eq_div unat_div)
  then show "unat (drop_bit 4 b) < 16" using unsigned_less [of b, where 'a = nat] by simp
  have "b AND 15 = take_bit 4 b" by (simp add: take_bit_eq_mask mask_eq_exp_minus_1 and.commute)
  then have "unat (b AND 15) = unat b mod 16" by (simp add: take_bit_eq_mod unat_mod)
  then show "unat (b AND 15) < 16" by simp
qed

lemma join_nibbles: "push_bit 4 (drop_bit 4 b) OR (b AND 15) = (b :: byte)"
proof (rule bit_word_eqI)
  fix i assume "i < LENGTH(8)"
  have m: "(15 :: byte) = mask 4" by (simp add: mask_eq_exp_minus_1)
  show "bit (push_bit 4 (drop_bit 4 b) OR (b AND 15)) i \<longleftrightarrow> bit b i"
    unfolding m using \<open>i < LENGTH(8)\<close> by (auto simp only: bit_or_iff bit_and_iff bit_push_bit_iff bit_drop_bit_eq bit_mask_iff possible_bit_word le_add_diff_inverse comp_apply not_less)
qed

lemma length_hex [simp]: "length (hex bs) = 2 * length bs"
  by (induction bs) (auto simp: hex_def)

lemma hex_nth:
  assumes "i < length bs"
  shows "hex bs ! (2 * i) = hex_digit (drop_bit 4 (bs ! i))" "hex bs ! (2 * i + 1) = hex_digit (bs ! i AND 15)"
proof -
  have "hex bs ! (2 * i) = hex_digit (drop_bit 4 (bs ! i)) \<and> hex bs ! (2 * i + 1) = hex_digit (bs ! i AND 15)"
    using assms
  proof (induction bs arbitrary: i)
    case (Cons b bs)
    then show ?case by (cases i) (auto simp: hex_def)
  qed simp
  then show "hex bs ! (2 * i) = hex_digit (drop_bit 4 (bs ! i))" "hex bs ! (2 * i + 1) = hex_digit (bs ! i AND 15)"
    by simp_all
qed

lemma parse_hex_network:
  assumes "length network = 16"
  shows "res_map (network_byte (hex network @ rest)) [0..<16] = Inr network"
proof -
  have "network_byte (hex network @ rest) i = Inr (network ! i)" if "i < 16" for i
    using that assms hex_nth [of i network]
    by (simp add: network_byte_def nth_append digit_hex_digit join_nibbles mult.commute)
  then show ?thesis using assms by (simp add: res_map_Inr_iff)
qed

definition lower_hex :: "bytes \<Rightarrow> bool" where
  "lower_hex code \<longleftrightarrow> list_all (\<lambda>c. (0x30 \<le> c \<and> c \<le> 0x39) \<or> (0x61 \<le> c \<and> c \<le> 0x66)) code"

lemma hex_digit_of_digit:
  assumes "digit c = Inr v" and "(0x30 \<le> c \<and> c \<le> 0x39) \<or> (0x61 \<le> c \<and> c \<le> 0x66)"
  shows "hex_digit v = c"
proof -
  have "c \<in> {0x30, 0x31, 0x32, 0x33, 0x34, 0x35, 0x36, 0x37, 0x38, 0x39, 0x61, 0x62, 0x63, 0x64, 0x65, 0x66}"
  proof -
    have "unat c \<in> {0x30, 0x31, 0x32, 0x33, 0x34, 0x35, 0x36, 0x37, 0x38, 0x39, 0x61, 0x62, 0x63, 0x64, 0x65, 0x66}"
      using assms(2) by (simp add: word_le_nat_alt) presburger
    then show ?thesis by (simp add: word_unat_eq_iff)
  qed
  with assms(1) show ?thesis
    unfolding hex_digit_def hex_table digit_def by (elim insertE emptyE) auto
qed

lemma lower_hex_digits:
  assumes "lower_hex code"
  shows "res_map (\<lambda>c. res_bind (digit c) (\<lambda>v. Inr (hex_digit v))) code = Inr code"
  using assms
proof (induction code)
  case (Cons c code)
  then have c: "(0x30 \<le> c \<and> c \<le> 0x39) \<or> (0x61 \<le> c \<and> c \<le> 0x66)" by (simp add: lower_hex_def)
  then obtain v where v: "digit c = Inr v" unfolding digit_def by (cases "0x30 \<le> c \<and> c \<le> 0x39") auto
  with c Cons hex_digit_of_digit [OF v] show ?case by (simp add: lower_hex_def)
qed simp

lemma hex_digit_not_blank:
  assumes "unat v < 16"
  shows "\<not> is_blank (hex_digit v)"
  using digit_cases [OF assms] unfolding hex_digit_def hex_table is_blank_def by (elim insertE emptyE) simp_all

lemma trim_solid:
  assumes "xs \<noteq> []" and "\<not> is_blank (hd xs)" and "\<not> is_blank (last xs)"
  shows "trim xs = xs"
proof -
  have "dropWhile is_blank xs = xs" using assms(1,2) by (cases xs) auto
  moreover have "dropWhile is_blank (rev xs) = rev xs"
    using assms(1,3) by (cases xs rule: rev_cases) auto
  ultimately show ?thesis by (simp add: trim_def)
qed

lemma lower_hex_last: "lower_hex code \<Longrightarrow> code \<noteq> [] \<Longrightarrow> \<not> is_blank (last code)"
  by (cases code rule: rev_cases) (auto simp: lower_hex_def is_blank_def)

lemma schemes: "str ''lanlink://join/'' = [108, 97, 110, 108, 105, 110, 107, 58, 47, 47, 106, 111, 105, 110, 47]"
  "str ''LL1.'' = [76, 76, 49, 46]" "str ''/'' = [47]" "str ''.'' = [46]"
  by (simp_all add: str_def)

text \<open>The text after a scheme, or a plain id, is what the parser sees.\<close>

lemma parse_with_scheme:
  assumes "split_scheme (trim input) = (separator, hex network @ [separator] @ code)" and "separator \<noteq> 0"
    and "length network = 16" "\<not> is_zero network" "lower_hex code" "length code = 40"
  shows "parse_join_target input = Inr \<lparr>join_network = network, join_invitation = code\<rparr>"
  using assms parse_hex_network [of network "separator # code"] lower_hex_digits [of code]
  by (simp add: parse_join_target_def nth_append)

lemma hex_not_scheme:
  assumes "length network = 16"
  shows "split_scheme (hex network) = (0, hex network)"
proof -
  obtain b network' where b: "network = b # network'" using assms by (cases network) auto
  have "hex_digit (drop_bit 4 b) \<noteq> 108" "hex_digit (drop_bit 4 b) \<noteq> 76"
    using digit_cases [of "drop_bit 4 b"] unfolding hex_digit_def hex_table by auto
  then show ?thesis by (simp add: b hex_def split_scheme_def schemes)
qed

text \<open>
  Invitation links, invitation codes and network ids round-trip: for a network id of 16 bytes that
  is not zero and an invitation of 40 lower-case hexadecimal digits, both makers succeed, and the
  parser recovers the id and the invitation from the link and from the code, and the id with no
  invitation from its plain hexadecimal form.
\<close>

lemma join_target_roundtrip:
  assumes n: "length network = 16" "\<not> is_zero network" and code: "lower_hex code" "length code = 40"
  shows "make_invite_link network code = Inr (str ''lanlink://join/'' @ hex network @ str ''/'' @ code) \<and>
    make_invite_code network code = Inr (str ''LL1.'' @ hex network @ str ''.'' @ code) \<and>
    parse_join_target (str ''lanlink://join/'' @ hex network @ str ''/'' @ code) =
      Inr \<lparr>join_network = network, join_invitation = code\<rparr> \<and>
    parse_join_target (str ''LL1.'' @ hex network @ str ''.'' @ code) =
      Inr \<lparr>join_network = network, join_invitation = code\<rparr> \<and>
    parse_join_target (hex network) = Inr \<lparr>join_network = network, join_invitation = []\<rparr>"
proof -
  have "code \<noteq> []" using code(2) by auto
  note ends = lower_hex_last [OF code(1) this] this
  have link: "parse_join_target (str ''lanlink://join/'' @ hex network @ str ''/'' @ code) =
      Inr \<lparr>join_network = network, join_invitation = code\<rparr>"
  proof (rule parse_with_scheme)
    show "split_scheme (trim (str ''lanlink://join/'' @ hex network @ str ''/'' @ code)) = (0x2f, hex network @ [0x2f] @ code)"
      using ends by (subst trim_solid) (simp_all add: schemes is_blank_def split_scheme_def)
  qed (use n code in simp_all)
  have short: "parse_join_target (str ''LL1.'' @ hex network @ str ''.'' @ code) =
      Inr \<lparr>join_network = network, join_invitation = code\<rparr>"
  proof (rule parse_with_scheme)
    show "split_scheme (trim (str ''LL1.'' @ hex network @ str ''.'' @ code)) = (0x2e, hex network @ [0x2e] @ code)"
      using ends by (subst trim_solid) (simp_all add: schemes is_blank_def split_scheme_def)
  qed (use n code in simp_all)
  have "trim (hex network) = hex network"
  proof (rule trim_solid)
    obtain b rest where "network = b # rest" using n by (cases network) auto
    then show "hex network \<noteq> []" "\<not> is_blank (hd (hex network))" by (simp_all add: hex_def hex_digit_not_blank)
    obtain init b where "network = init @ [b]" using n by (cases network rule: rev_cases) auto
    then show "\<not> is_blank (last (hex network))" by (simp add: hex_def hex_digit_not_blank)
  qed
  then have "parse_join_target (hex network) = Inr \<lparr>join_network = network, join_invitation = []\<rparr>"
    using n hex_not_scheme [OF n(1)] parse_hex_network [OF n(1), of "[]"] by (simp add: parse_join_target_def)
  then show ?thesis using link short by (simp add: make_invite_link_def make_invite_code_def)
qed

lemma join_target_roundtrip_demo:
  "parse_join_target (hex (1 # replicate 15 0)) = Inr \<lparr>join_network = 1 # replicate 15 0, join_invitation = []\<rparr> \<and>
   make_invite_code (1 # replicate 15 0) (replicate 40 0x61) =
     Inr (str ''LL1.'' @ hex (1 # replicate 15 0) @ str ''.'' @ replicate 40 0x61)"
  using join_target_roundtrip [of "1 # replicate 15 0" "replicate 40 0x61"]
  by (simp add: is_zero_def lower_hex_def list_all_iff)

end
