(* ===== verification/Peer_Messages.thy ===== *)
theory Peer_Messages
  imports Network_Messages Network_Policy
begin

text \<open>
  \<open>src/protocol/network_messages.cpp\<close>, second half: the peer state a relay sends to a member
  (addresses, peers, key epoch, policy), its revocation, and the envelopes in which the owner
  sends the network key to each member.
\<close>

section \<open>Data\<close>

record SignedDeviceKey =
  key_identity :: bytes
  key_encryption :: bytes
  key_client_nonce :: bytes
  key_server_nonce :: bytes
  key_signature :: bytes

record NetworkPeer =
  peer_device :: NetworkDeviceId
  peer_address :: "32 word"
  peer_key :: "SignedDeviceKey option"

record NetworkPeerState =
  state_network :: NetworkId
  state_revision :: "64 word"
  state_subnet :: "32 word"
  state_prefix :: byte
  state_own :: "32 word"
  state_peers :: "NetworkPeer list"
  state_owner :: NetworkDeviceId
  state_epoch :: "64 word"
  state_policy :: "NetworkPolicy option"

record NetworkPeerRevocation =
  revoked_network :: NetworkId
  revoked_revision :: "64 word"

record NetworkKeyEnvelope =
  env_network :: NetworkId
  env_epoch :: "64 word"
  env_owner :: NetworkDeviceId
  env_recipient :: NetworkDeviceId
  env_owner_key :: bytes
  env_recipient_key :: bytes
  env_nonce :: bytes
  env_ciphertext :: bytes
  env_tag :: bytes
  env_signature :: bytes

record NetworkKeyPublishRequest =
  envelopes :: "NetworkKeyEnvelope list"

definition peer_pool_first :: "32 word" where "peer_pool_first = 0x0a400000"
definition peer_pool_end :: "32 word" where "peer_pool_end = 0x0a800000"
definition peer_subnet_size :: "32 word" where "peer_subnet_size = 256"

text \<open>16 + 8 + 2 * 32 + 2 * 32 + 12 + 32 + 16 + 64.\<close>

definition key_envelope_size :: nat where
  "key_envelope_size = network_id_size + 8 + 2 * network_device_id_size + 2 * 32 + 12 + 32 + 16 + 64"

section \<open>Peer state\<close>

text \<open>The loop over the peers, with the sets of devices and addresses already seen.\<close>

fun valid_peers :: "32 word \<Rightarrow> NetworkDeviceId list \<Rightarrow> 32 word list \<Rightarrow> NetworkPeer list \<Rightarrow> bool" where
  "valid_peers subnet device_ids addresses [] = True"
| "valid_peers subnet device_ids addresses (peer # rest) =
     (if is_zero (peer_device peer) \<or> peer_address peer \<le> subnet \<or>
         peer_address peer \<ge> subnet + peer_subnet_size - 1 \<or>
         peer_device peer \<in> set device_ids \<or> peer_address peer \<in> set addresses
      then False
      else valid_peers subnet (peer_device peer # device_ids) (peer_address peer # addresses) rest)"

definition valid_peer_state :: "NetworkPeerState \<Rightarrow> bool" where
  "valid_peer_state s =
     (if is_zero (state_network s) \<or> state_prefix s \<noteq> 24 \<or>
         (is_zero (state_owner s) \<noteq> (state_epoch s = 0)) \<or>
         state_subnet s < peer_pool_first \<or> state_subnet s \<ge> peer_pool_end \<or>
         state_subnet s mod peer_subnet_size \<noteq> 0 \<or>
         state_own s \<le> state_subnet s \<or> state_own s \<ge> state_subnet s + peer_subnet_size - 1 \<or>
         length (state_peers s) > max_network_peer_entries
      then False
      else valid_peers (state_subnet s) [] [state_own s] (state_peers s))"

definition encode_peer :: "NetworkPeer \<Rightarrow> bytes" where
  "encode_peer peer = peer_device peer @ put (peer_address peer) @
     (case peer_key peer of None \<Rightarrow> put (0 :: byte)
      | Some key \<Rightarrow> put (1 :: byte) @ key_identity key @ key_encryption key @ key_client_nonce key
          @ key_server_nonce key @ key_signature key)"

definition encode_network_peer_state :: "NetworkPeerState \<Rightarrow> bytes res" where
  "encode_network_peer_state s =
     res_bind (require (Invalid_argument ''network peer state contains invalid addresses or peers'') (valid_peer_state s)) (\<lambda>_.
     res_bind (case state_policy s of None \<Rightarrow> Inr [] | Some p \<Rightarrow> encode_network_policy p) (\<lambda>extension.
       Inr (state_network s @ put (state_revision s) @ put (state_subnet s) @ put (state_prefix s)
         @ put (state_own s) @ put (word_of_nat (length (state_peers s)) :: 16 word)
         @ concat (map encode_peer (state_peers s)) @ state_owner s @ put (state_epoch s) @ extension)))"

definition read_signed_key :: "SignedDeviceKey parser" where
  "read_signed_key =
     pbind (net_array 32) (\<lambda>identity. pbind (net_array 32) (\<lambda>encryption.
     pbind (net_array 32) (\<lambda>client. pbind (net_array 32) (\<lambda>server.
     pbind (net_array 64) (\<lambda>signature.
     preturn \<lparr>key_identity = identity, key_encryption = encryption, key_client_nonce = client,
              key_server_nonce = server, key_signature = signature\<rparr>)))))"

definition read_peer :: "NetworkPeer parser" where
  "read_peer =
     pbind (net_array network_device_id_size) (\<lambda>device_id.
     pbind net_integer (\<lambda>address.
     pbind net_integer (\<lambda>has_key :: byte.
     pbind (prequire (Runtime_error ''network peer key flag is invalid'') (\<not> has_key > 1)) (\<lambda>_.
     if has_key = 1
     then pbind read_signed_key (\<lambda>key.
       preturn \<lparr>peer_device = device_id, peer_address = address, peer_key = Some key\<rparr>)
     else preturn \<lparr>peer_device = device_id, peer_address = address, peer_key = None\<rparr>))))"

text \<open>\<open>remaining()\<close> is parsed as a policy when there is anything left.\<close>

definition read_policy_extension :: "NetworkPolicy option parser" where
  "read_policy_extension r =
     (if r \<noteq> [] then map_sum id (\<lambda>p. (Some p, [])) (decode_network_policy r)
      else pbind require_finished (\<lambda>_. preturn None) r)"

definition decode_network_peer_state :: "bytes \<Rightarrow> NetworkPeerState res" where
  "decode_network_peer_state = parse_all (
     pbind (net_array network_id_size) (\<lambda>network_id.
     pbind net_integer (\<lambda>rev.
     pbind net_integer (\<lambda>subnet.
     pbind net_integer (\<lambda>prefix.
     pbind net_integer (\<lambda>own.
     pbind net_integer (\<lambda>count :: 16 word.
     pbind (prequire (Runtime_error ''network peer state contains too many peers'')
       (\<not> unat count > max_network_peer_entries)) (\<lambda>_.
     pbind (prepeat (unat count) read_peer) (\<lambda>peers.
     pbind (net_array network_device_id_size) (\<lambda>owner.
     pbind net_integer (\<lambda>epoch.
     pbind read_policy_extension (\<lambda>extension.
     let s = \<lparr>state_network = network_id, state_revision = rev, state_subnet = subnet, state_prefix = prefix,
              state_own = own, state_peers = peers, state_owner = owner, state_epoch = epoch,
              state_policy = extension\<rparr> in
     pbind (prequire (Runtime_error ''network peer state contains invalid addresses or peers'')
       (valid_peer_state s)) (\<lambda>_. preturn s)))))))))))))"

definition encode_network_peer_revocation :: "NetworkPeerRevocation \<Rightarrow> bytes res" where
  "encode_network_peer_revocation r =
     res_bind (require_network_id_for_encode (revoked_network r)) (\<lambda>_.
       Inr (revoked_network r @ put (revoked_revision r)))"

definition decode_network_peer_revocation :: "bytes \<Rightarrow> NetworkPeerRevocation res" where
  "decode_network_peer_revocation = parse_all (
     pbind (net_array network_id_size) (\<lambda>network_id.
     pbind net_integer (\<lambda>rev.
     pbind require_finished (\<lambda>_.
     pbind (plift (require_network_id_for_decode network_id)) (\<lambda>_.
     preturn \<lparr>revoked_network = network_id, revoked_revision = rev\<rparr>)))))"

section \<open>Key envelopes\<close>

definition encode_network_key_envelope :: "NetworkKeyEnvelope \<Rightarrow> bytes res" where
  "encode_network_key_envelope e =
     (if is_zero (env_network e) \<or> env_epoch e = 0 \<or> is_zero (env_owner e) \<or> is_zero (env_recipient e) \<or>
         env_owner e = env_recipient e \<or> is_zero (env_owner_key e) \<or> is_zero (env_recipient_key e)
      then Inl (Invalid_argument ''network key envelope has invalid identities or epoch'')
      else Inr (env_network e @ put (env_epoch e) @ env_owner e @ env_recipient e @ env_owner_key e
        @ env_recipient_key e @ env_nonce e @ env_ciphertext e @ env_tag e @ env_signature e))"

text \<open>The \<open>try\<close> block that turns the encoder's \<open>invalid_argument\<close> into a \<open>runtime_error\<close>.\<close>

definition rethrow_invalid_argument :: "exn \<Rightarrow> 'a res \<Rightarrow> 'a res" where
  "rethrow_invalid_argument e m =
     (case m of Inl err \<Rightarrow> (case err of Invalid_argument what \<Rightarrow> Inl e | _ \<Rightarrow> Inl err) | Inr x \<Rightarrow> Inr x)"

definition decode_network_key_envelope :: "bytes \<Rightarrow> NetworkKeyEnvelope res" where
  "decode_network_key_envelope =
     sized (Runtime_error ''network key envelope has invalid size'') key_envelope_size (
     pbind (net_array network_id_size) (\<lambda>network_id. pbind net_integer (\<lambda>epoch.
     pbind (net_array network_device_id_size) (\<lambda>owner. pbind (net_array network_device_id_size) (\<lambda>recipient.
     pbind (net_array 32) (\<lambda>owner_key. pbind (net_array 32) (\<lambda>recipient_key.
     pbind (net_array 12) (\<lambda>nonce. pbind (net_array 32) (\<lambda>ciphertext.
     pbind (net_array 16) (\<lambda>tag. pbind (net_array 64) (\<lambda>signature.
     pbind require_finished (\<lambda>_.
     let e = \<lparr>env_network = network_id, env_epoch = epoch, env_owner = owner, env_recipient = recipient,
              env_owner_key = owner_key, env_recipient_key = recipient_key, env_nonce = nonce,
              env_ciphertext = ciphertext, env_tag = tag, env_signature = signature\<rparr> in
     pbind (plift (rethrow_invalid_argument
       (Runtime_error ''network key envelope has invalid identities or epoch'')
       (encode_network_key_envelope e))) (\<lambda>_. preturn e)))))))))))))"

definition encode_network_key_publish_request :: "NetworkKeyPublishRequest \<Rightarrow> bytes res" where
  "encode_network_key_publish_request request =
     res_bind (require (Invalid_argument ''network key publish has invalid recipient count'')
       (\<not> (envelopes request = [] \<or> length (envelopes request) > max_network_peer_entries))) (\<lambda>_.
     res_bind (write_list encode_network_key_envelope (envelopes request)) (\<lambda>body.
       Inr (put (word_of_nat (length (envelopes request)) :: 16 word) @ body)))"

text \<open>The loop that decodes \<open>payload.subspan(2 + index * size, size)\<close> for each index.\<close>

fun decode_envelopes :: "bytes \<Rightarrow> nat \<Rightarrow> nat \<Rightarrow> NetworkKeyEnvelope list res" where
  "decode_envelopes data index 0 = Inr []"
| "decode_envelopes data index (Suc n) =
     res_bind (decode_network_key_envelope (take key_envelope_size (drop (2 + index * key_envelope_size) data))) (\<lambda>e.
     res_bind (decode_envelopes data (Suc index) n) (\<lambda>rest. Inr (e # rest)))"

definition decode_network_key_publish_request :: "bytes \<Rightarrow> NetworkKeyPublishRequest res" where
  "decode_network_key_publish_request data =
     (if length data < 2 then Inl (Runtime_error ''network key publish is truncated'')
      else let count = unat (be_value (take 2 data) :: 16 word) in
        if count = 0 \<or> count > max_network_peer_entries \<or> length data \<noteq> 2 + count * key_envelope_size
        then Inl (Runtime_error ''network key publish has invalid size'')
        else res_bind (decode_envelopes data 0 count) (\<lambda>es. Inr \<lparr>envelopes = es\<rparr>))"

section \<open>Canonical encodings\<close>

lemma peer_record_eta [simp]:
  "\<lparr>state_network = state_network s, state_revision = state_revision s, state_subnet = state_subnet s,
     state_prefix = state_prefix s, state_own = state_own s, state_peers = state_peers s,
     state_owner = state_owner s, state_epoch = state_epoch s, state_policy = state_policy s\<rparr> = s"
  "\<lparr>env_network = env_network e, env_epoch = env_epoch e, env_owner = env_owner e, env_recipient = env_recipient e,
     env_owner_key = env_owner_key e, env_recipient_key = env_recipient_key e, env_nonce = env_nonce e,
     env_ciphertext = env_ciphertext e, env_tag = env_tag e, env_signature = env_signature e\<rparr> = e"
  by simp_all

definition key_typed :: "SignedDeviceKey \<Rightarrow> bool" where
  "key_typed k \<longleftrightarrow> length (key_identity k) = 32 \<and> length (key_encryption k) = 32 \<and>
     length (key_client_nonce k) = 32 \<and> length (key_server_nonce k) = 32 \<and> length (key_signature k) = 64"

definition peer_typed :: "NetworkPeer \<Rightarrow> bool" where
  "peer_typed p \<longleftrightarrow> length (peer_device p) = 32 \<and> (case peer_key p of None \<Rightarrow> True | Some k \<Rightarrow> key_typed k)"

definition peer_state_typed :: "NetworkPeerState \<Rightarrow> bool" where
  "peer_state_typed s \<longleftrightarrow> length (state_network s) = 16 \<and> length (state_owner s) = 32 \<and>
     list_all peer_typed (state_peers s) \<and> (case state_policy s of None \<Rightarrow> True | Some p \<Rightarrow> policy_typed p)"

definition envelope_typed :: "NetworkKeyEnvelope \<Rightarrow> bool" where
  "envelope_typed e \<longleftrightarrow> length (env_network e) = 16 \<and> length (env_owner e) = 32 \<and> length (env_recipient e) = 32 \<and>
     length (env_owner_key e) = 32 \<and> length (env_recipient_key e) = 32 \<and> length (env_nonce e) = 12 \<and>
     length (env_ciphertext e) = 32 \<and> length (env_tag e) = 16 \<and> length (env_signature e) = 64"

definition key_layout :: "SignedDeviceKey \<Rightarrow> bytes" where
  "key_layout key = key_identity key @ key_encryption key @ key_client_nonce key
     @ key_server_nonce key @ key_signature key"

lemma read_signed_key_iff:
  "read_signed_key r = Inr (k, rest) \<longleftrightarrow> r = key_layout k @ rest \<and> key_typed k"
proof
  assume "read_signed_key r = Inr (k, rest)"
  then show "r = key_layout k @ rest \<and> key_typed k"
    by (auto simp: read_signed_key_def net_read_iff key_layout_def key_typed_def)
next
  assume "r = key_layout k @ rest \<and> key_typed k"
  then show "read_signed_key r = Inr (k, rest)"
    by (simp add: read_signed_key_def net_steps key_layout_def key_typed_def)
qed

lemma byte_not_gt_1: "\<not> (1 :: byte) < b \<longleftrightarrow> b = 0 \<or> b = 1"
  by (simp add: not_less byte_le_1)

lemma read_peer_iff: "read_peer r = Inr (p, rest) \<longleftrightarrow> r = encode_peer p @ rest \<and> peer_typed p"
proof
  assume "read_peer r = Inr (p, rest)"
  then show "r = encode_peer p @ rest \<and> peer_typed p"
    by (auto simp: read_peer_def net_read_iff encode_peer_def peer_typed_def byte_not_gt_1 read_signed_key_iff
        key_layout_def split: if_splits)
next
  assume r: "r = encode_peer p @ rest \<and> peer_typed p"
  show "read_peer r = Inr (p, rest)"
  proof (cases "peer_key p")
    case None
    with r show ?thesis by (simp add: read_peer_def net_steps encode_peer_def peer_typed_def)
  next
    case (Some k)
    with r have "read_signed_key (key_layout k @ rest) = Inr (k, rest)"
      by (simp add: read_signed_key_iff peer_typed_def)
    with Some r show ?thesis
      by (simp add: read_peer_def net_steps encode_peer_def peer_typed_def key_layout_def)
  qed
qed

lemma policy_layout_nonempty [simp]: "policy_layout p \<noteq> []"
  by (simp add: policy_layout_def)

lemma read_policy_extension_iff:
  "read_policy_extension r = Inr (x, rest) \<longleftrightarrow> rest = [] \<and>
     (case x of None \<Rightarrow> r = [] | Some p \<Rightarrow> policy_typed p \<and> encode_network_policy p = Inr r)"
proof (cases "decode_network_policy r")
  case (Inl e)
  then have "\<not> (policy_typed p \<and> encode_network_policy p = Inr r)" for p
    using policy_codec.dec_iff [of r p] by simp
  with Inl show ?thesis
    by (auto simp: read_policy_extension_def require_finished_def pbind_Inr_iff split: option.splits)
next
  case (Inr q)
  then have "r \<noteq> []" using policy_codec.dec_enc [OF Inr] by (auto simp: encode_network_policy_Inr_iff)
  moreover have "policy_typed p \<and> encode_network_policy p = Inr r \<longleftrightarrow> p = q" for p
    using Inr policy_codec.dec_iff [of r p] by auto
  ultimately show ?thesis using Inr
    by (auto simp: read_policy_extension_def split: option.splits)
qed

lemma decode_peer_state_encode:
  assumes typed: "peer_state_typed s" and enc: "encode_network_peer_state s = Inr bs"
  shows "decode_network_peer_state bs = Inr s"
proof -
  from enc obtain extension where valid: "valid_peer_state s"
    and ext: "(case state_policy s of None \<Rightarrow> Inr [] | Some p \<Rightarrow> encode_network_policy p) = Inr extension"
    and bs: "bs = state_network s @ put (state_revision s) @ put (state_subnet s) @ put (state_prefix s)
         @ put (state_own s) @ put (word_of_nat (length (state_peers s)) :: 16 word)
         @ concat (map encode_peer (state_peers s)) @ state_owner s @ put (state_epoch s) @ extension"
    by (auto simp: encode_network_peer_state_def res_bind_Inr_iff split: if_splits)
  have peers: "prepeat (length (state_peers s)) read_peer (concat (map encode_peer (state_peers s)) @ rest)
      = Inr (state_peers s, rest)" for rest
    using typed by (simp add: prepeat_iff [OF read_peer_iff] peer_state_typed_def)
  have small: "length (state_peers s) \<le> 253"
    using valid by (simp add: valid_peer_state_def network_sizes split: if_splits)
  have policy: "read_policy_extension extension = Inr (state_policy s, [])"
    using ext typed by (auto simp: read_policy_extension_iff peer_state_typed_def split: option.splits)
  have arrays: "length (state_network s) = 16" "length (state_owner s) = 32"
    using typed by (simp_all add: peer_state_typed_def)
  show ?thesis
    using small valid
    by (simp add: decode_network_peer_state_def bs net_steps peers policy arrays unat_of_nat_size Let_def)
qed

lemma decode_peer_state_dest:
  assumes "decode_network_peer_state bs = Inr s"
  shows "peer_state_typed s \<and> encode_network_peer_state s = Inr bs"
proof -
  from assms obtain r0 r1 r2 r3 r4 r5 r6 r7 r8 r9 and count :: "16 word" where
    reads: "net_array 16 bs = Inr (state_network s, r0)" "net_integer r0 = Inr (state_revision s, r1)"
      "net_integer r1 = Inr (state_subnet s, r2)" "net_integer r2 = Inr (state_prefix s, r3)"
      "net_integer r3 = Inr (state_own s, r4)" "net_integer r4 = Inr (count, r5)"
      "prepeat (unat count) read_peer r5 = Inr (state_peers s, r6)"
      "net_array 32 r6 = Inr (state_owner s, r7)" "net_integer r7 = Inr (state_epoch s, r8)"
      "read_policy_extension r8 = Inr (state_policy s, r9)"
    and valid: "valid_peer_state s"
    unfolding decode_network_peer_state_def parse_all_Inr_iff
    by (auto simp: pbind_Inr_iff Let_def network_sizes split: if_splits)
  note facts = reads [unfolded net_reader_defs wire_iff prepeat_iff [OF read_peer_iff] read_policy_extension_iff]
  have typed: "peer_state_typed s"
    using facts(1,7,8,10) by (cases "state_policy s") (simp_all add: peer_state_typed_def)
  have count: "count = word_of_nat (length (state_peers s))" using facts(7) by simp
  have extension: "(case state_policy s of None \<Rightarrow> Inr [] | Some p \<Rightarrow> encode_network_policy p) = Inr r8"
    using facts(10) by (cases "state_policy s") simp_all
  have "bs = state_network s @ put (state_revision s) @ put (state_subnet s) @ put (state_prefix s)
      @ put (state_own s) @ put (word_of_nat (length (state_peers s)) :: 16 word)
      @ concat (map encode_peer (state_peers s)) @ state_owner s @ put (state_epoch s) @ r8"
    using facts(1-6,8,9) facts(7) [THEN conjunct1] unfolding count by simp
  with valid extension have "encode_network_peer_state s = Inr bs"
    by (simp add: encode_network_peer_state_def)
  with typed show ?thesis by simp
qed

interpretation peer_state_codec: wire_codec encode_network_peer_state decode_network_peer_state peer_state_typed
  by unfold_locales (fact decode_peer_state_encode decode_peer_state_dest)+

interpretation revocation_codec: wire_codec encode_network_peer_revocation decode_network_peer_revocation
  "\<lambda>x. length (revoked_network x) = 16"
proof unfold_locales
  fix x :: NetworkPeerRevocation and bs
  show "length (revoked_network x) = 16 \<Longrightarrow> encode_network_peer_revocation x = Inr bs \<Longrightarrow>
      decode_network_peer_revocation bs = Inr x"
    by (auto simp: encode_network_peer_revocation_def decode_network_peer_revocation_def net_steps)
qed (auto simp: encode_network_peer_revocation_def decode_network_peer_revocation_def net_read_iff)

lemma rethrow_Inr_iff [simp]: "rethrow_invalid_argument e m = Inr x \<longleftrightarrow> m = Inr x"
  by (auto simp: rethrow_invalid_argument_def split: sum.splits exn.splits)

lemma rethrow_Inr [simp]: "rethrow_invalid_argument e (Inr x) = Inr x"
  by simp

interpretation envelope_codec: wire_codec encode_network_key_envelope decode_network_key_envelope envelope_typed
proof unfold_locales
  fix x :: NetworkKeyEnvelope and bs
  assume "envelope_typed x" and "encode_network_key_envelope x = Inr bs"
  then show "decode_network_key_envelope bs = Inr x"
    by (auto simp: encode_network_key_envelope_def decode_network_key_envelope_def net_steps
        key_envelope_size_def envelope_typed_def Let_def split: if_splits)
next
  fix x :: NetworkKeyEnvelope and bs
  assume "decode_network_key_envelope bs = Inr x"
  then show "envelope_typed x \<and> encode_network_key_envelope x = Inr bs"
    by (auto simp: encode_network_key_envelope_def decode_network_key_envelope_def net_read_iff
        envelope_typed_def Let_def split: if_splits)
qed

definition envelope_layout :: "NetworkKeyEnvelope \<Rightarrow> bytes" where
  "envelope_layout e = env_network e @ put (env_epoch e) @ env_owner e @ env_recipient e @ env_owner_key e
     @ env_recipient_key e @ env_nonce e @ env_ciphertext e @ env_tag e @ env_signature e"

definition envelope_valid :: "NetworkKeyEnvelope \<Rightarrow> bool" where
  "envelope_valid e \<longleftrightarrow> \<not> (is_zero (env_network e) \<or> env_epoch e = 0 \<or> is_zero (env_owner e) \<or>
     is_zero (env_recipient e) \<or> env_owner e = env_recipient e \<or> is_zero (env_owner_key e) \<or>
     is_zero (env_recipient_key e))"

lemma encode_envelope_iff: "encode_network_key_envelope e = Inr a \<longleftrightarrow> envelope_valid e \<and> a = envelope_layout e"
  by (auto simp: encode_network_key_envelope_def envelope_valid_def envelope_layout_def)

lemma decode_envelope_iff:
  "decode_network_key_envelope a = Inr e \<longleftrightarrow> envelope_typed e \<and> envelope_valid e \<and> a = envelope_layout e"
  by (simp add: envelope_codec.dec_iff encode_envelope_iff)

lemma length_envelope_layout: "envelope_typed e \<Longrightarrow> length (envelope_layout e) = key_envelope_size"
  by (simp add: envelope_typed_def envelope_layout_def key_envelope_size_def network_sizes)

lemma length_envelopes:
  "list_all envelope_typed es \<Longrightarrow> length (concat (map envelope_layout es)) = length es * key_envelope_size"
  by (induction es) (simp_all add: length_envelope_layout)

lemma decode_envelopes_iff:
  assumes "length data = 2 + (index + n) * key_envelope_size"
  shows "decode_envelopes data index n = Inr es \<longleftrightarrow>
    length es = n \<and> list_all (\<lambda>e. envelope_typed e \<and> envelope_valid e) es \<and>
    drop (2 + index * key_envelope_size) data = concat (map envelope_layout es)"
  using assms
proof (induction n arbitrary: index es)
  case 0
  then show ?case by auto
next
  case (Suc n)
  define w where "w = drop (2 + index * key_envelope_size) data"
  have w: "drop (2 + Suc index * key_envelope_size) data = drop key_envelope_size w"
    by (simp add: w_def algebra_simps)
  have IH: "decode_envelopes data (Suc index) n = Inr rest \<longleftrightarrow>
      length rest = n \<and> list_all (\<lambda>e. envelope_typed e \<and> envelope_valid e) rest \<and>
      drop key_envelope_size w = concat (map envelope_layout rest)" for rest
    using Suc.IH [of "Suc index" rest] Suc.prems unfolding w by simp
  have "decode_envelopes data index (Suc n) = Inr es \<longleftrightarrow>
      (\<exists>e rest. es = e # rest \<and> envelope_typed e \<and> envelope_valid e \<and> take key_envelope_size w = envelope_layout e \<and>
        length rest = n \<and> list_all (\<lambda>e. envelope_typed e \<and> envelope_valid e) rest \<and>
        drop key_envelope_size w = concat (map envelope_layout rest))"
    unfolding decode_envelopes.simps w_def [symmetric]
    by (auto simp only: res_bind_Inr_iff decode_envelope_iff IH sum.inject)
  also have "\<dots> \<longleftrightarrow> length es = Suc n \<and> list_all (\<lambda>e. envelope_typed e \<and> envelope_valid e) es \<and>
      w = concat (map envelope_layout es)"
    by (cases es) (auto simp: length_envelope_layout intro: append_take_drop_id [of key_envelope_size w, symmetric, THEN trans])
  finally show ?case unfolding w_def .
qed

interpretation key_publish_codec: wire_codec encode_network_key_publish_request decode_network_key_publish_request
  "\<lambda>x. list_all envelope_typed (envelopes x)"
proof unfold_locales
  fix x :: NetworkKeyPublishRequest and bs
  assume typed: "list_all envelope_typed (envelopes x)" and enc: "encode_network_key_publish_request x = Inr bs"
  define es where "es = envelopes x"
  have small: "es \<noteq> []" "length es \<le> 253" and valid: "list_all envelope_valid es"
    and bs: "bs = put (word_of_nat (length es) :: 16 word) @ concat (map envelope_layout es)"
    using enc by (auto simp: encode_network_key_publish_request_def res_bind_Inr_iff es_def network_sizes
        write_list_Inr_iff [OF encode_envelope_iff] split: if_splits)
  have len: "length bs = 2 + length es * key_envelope_size"
    using typed by (simp add: bs length_envelopes es_def)
  have "decode_envelopes bs 0 (length es) = Inr es"
    using decode_envelopes_iff [of bs 0 "length es" es] len typed valid by (simp add: bs es_def list_all_iff)
  with small len show "decode_network_key_publish_request bs = Inr x"
    by (simp add: decode_network_key_publish_request_def bs be_value_put unat_of_nat_size network_sizes) (simp add: es_def)
next
  fix x :: NetworkKeyPublishRequest and bs
  assume dec: "decode_network_key_publish_request bs = Inr x"
  define count where "count = (be_value (take 2 bs) :: 16 word)"
  have two: "2 \<le> length bs" and count: "unat count \<noteq> 0" "unat count \<le> 253"
    and len: "length bs = 2 + (0 + unat count) * key_envelope_size"
    and es: "decode_envelopes bs 0 (unat count) = Inr (envelopes x)"
    using dec by (auto simp: decode_network_key_publish_request_def count_def Let_def res_bind_Inr_iff
        network_sizes split: if_splits)
  note body = es [unfolded decode_envelopes_iff [OF len]]
  have "take 2 bs = put count" using two by (simp add: count_def put_be_value)
  moreover have "count = word_of_nat (length (envelopes x))" using body by simp
  moreover have "bs = take 2 bs @ drop 2 bs" by simp
  ultimately have "bs = put (word_of_nat (length (envelopes x)) :: 16 word) @ concat (map envelope_layout (envelopes x))"
    using body [THEN conjunct2, THEN conjunct2] by (simp only: mult_0 add_0_right)
  with body count show "list_all envelope_typed (envelopes x) \<and> encode_network_key_publish_request x = Inr bs"
    by (auto simp: encode_network_key_publish_request_def res_bind_Inr_iff list_all_iff network_sizes
        write_list_Inr_iff [OF encode_envelope_iff])
qed

text \<open>
  Peer states (with the policy extension), revocations, key envelopes and key publications:
  a payload decodes to a message exactly when it is the encoding of that message.
\<close>

lemma peer_messages_roundtrip:
  "(decode_network_peer_state b1 = Inr m1 \<longleftrightarrow> peer_state_typed m1 \<and> encode_network_peer_state m1 = Inr b1) \<and>
   (decode_network_peer_revocation b2 = Inr m2 \<longleftrightarrow>
     length (revoked_network m2) = 16 \<and> encode_network_peer_revocation m2 = Inr b2) \<and>
   (decode_network_key_envelope b3 = Inr m3 \<longleftrightarrow> envelope_typed m3 \<and> encode_network_key_envelope m3 = Inr b3) \<and>
   (decode_network_key_publish_request b4 = Inr m4 \<longleftrightarrow>
     list_all envelope_typed (envelopes m4) \<and> encode_network_key_publish_request m4 = Inr b4)"
  by (simp only: simp_thms peer_state_codec.dec_iff revocation_codec.dec_iff envelope_codec.dec_iff
      key_publish_codec.dec_iff)

lemma valid_peers_iff:
  "valid_peers subnet ids addresses peers \<longleftrightarrow>
     list_all (\<lambda>p. \<not> is_zero (peer_device p)) peers \<and>
     set (map peer_address peers) \<subseteq> {subnet <..< subnet + 255} \<and>
     distinct (map peer_device peers) \<and> set ids \<inter> set (map peer_device peers) = {} \<and>
     distinct (map peer_address peers) \<and> set addresses \<inter> set (map peer_address peers) = {}"
  by (induction peers arbitrary: ids addresses) (auto simp: peer_subnet_size_def not_le add.commute [of 255])

text \<open>
  What \<open>valid_peer_state\<close> accepts: a /24 of the pool 10.64.0.0/10, the own address and the
  addresses of all peers pairwise different host addresses of that subnet (neither the network nor
  the broadcast address), pairwise different real devices, and an owner exactly when there is a
  key epoch.
\<close>

theorem valid_peer_state_iff:
  "valid_peer_state s \<longleftrightarrow>
     \<not> is_zero (state_network s) \<and> state_prefix s = 24 \<and>
     (is_zero (state_owner s) \<longleftrightarrow> state_epoch s = 0) \<and>
     0x0a400000 \<le> state_subnet s \<and> state_subnet s < 0x0a800000 \<and> state_subnet s mod 256 = 0 \<and>
     set (state_own s # map peer_address (state_peers s)) \<subseteq> {state_subnet s <..< state_subnet s + 255} \<and>
     distinct (state_own s # map peer_address (state_peers s)) \<and>
     distinct (map peer_device (state_peers s)) \<and>
     list_all (\<lambda>p. \<not> is_zero (peer_device p)) (state_peers s) \<and> length (state_peers s) \<le> 253"
  by (auto simp: valid_peer_state_def valid_peers_iff peer_pool_first_def peer_pool_end_def peer_subnet_size_def
      network_sizes not_less not_le add.commute [of 255])

end
