(* ===== verification/Auth_Identity.thy ===== *)
theory Auth_Identity
  imports Join_Target Relay_Store Peer_Messages
begin

text \<open>
  The authentication helpers of \<open>src/auth\<close>: \<open>identity.cpp\<close> (digests, signatures, transcripts,
  tokens), \<open>access_secret.cpp\<close> (passwords and access codes) and the verifiers of
  \<open>device_keys.cpp\<close> and \<open>network_keys.cpp\<close>. OpenSSL is a parameter: a record \<open>Crypto\<close> of the
  functions the code calls, \<open>None\<close> being the failure that the code turns into an exception.
  Random bytes are an argument of the function that draws them. Secrets are byte lists; wiping
  memory is not modelled.
\<close>

record Crypto =
  crypto_sha256 :: "bytes \<Rightarrow> bytes option"
  crypto_hmac_sha256 :: "bytes \<Rightarrow> bytes \<Rightarrow> bytes option"
  crypto_ed25519_verify :: "bytes \<Rightarrow> bytes \<Rightarrow> bytes \<Rightarrow> bool option"
  crypto_scrypt :: "bytes \<Rightarrow> bytes \<Rightarrow> bytes option"
  crypto_random :: "nat \<Rightarrow> nat \<Rightarrow> bytes option"

definition from_option :: "exn \<Rightarrow> 'a option \<Rightarrow> 'a res" where
  "from_option e x = (case x of None \<Rightarrow> Inl e | Some y \<Rightarrow> Inr y)"

lemma from_option_simps [simp]: "from_option e None = Inl e" "from_option e (Some y) = Inr y"
  by (simp_all add: from_option_def)

lemma from_option_Inr_iff [simp]: "from_option e x = Inr y \<longleftrightarrow> x = Some y"
  by (cases x) simp_all

section \<open>Identities\<close>

definition sha256 :: "Crypto \<Rightarrow> bytes \<Rightarrow> bytes res" where
  "sha256 c input = from_option (Runtime_error ''SHA-256 failed'') (crypto_sha256 c input)"

text \<open>An unusable key and a failed setup are errors; a wrong signature is \<open>False\<close>.\<close>

definition verify_signature :: "Crypto \<Rightarrow> bytes \<Rightarrow> bytes \<Rightarrow> bytes \<Rightarrow> bool res" where
  "verify_signature c public_key message signature =
     from_option (Runtime_error ''signature verification setup failed'') (crypto_ed25519_verify c public_key message signature)"

definition make_device_id :: "Crypto \<Rightarrow> bytes \<Rightarrow> DeviceId res" where
  "make_device_id c public_key = sha256 c public_key"

definition transcript_prefix :: bytes where
  "transcript_prefix = str ''lanlink-auth-v2''"

definition make_auth_transcript :: "bytes \<Rightarrow> bytes \<Rightarrow> bytes \<Rightarrow> bytes \<Rightarrow> bytes" where
  "make_auth_transcript public_key encryption_public_key client_nonce server_nonce =
     transcript_prefix @ public_key @ encryption_public_key @ client_nonce @ server_nonce"

fun hex_encode :: "bytes \<Rightarrow> bytes" where
  "hex_encode [] = []"
| "hex_encode (b # rest) = hex_digit (drop_bit 4 b) # hex_digit (b AND 0x0f) # hex_encode rest"

section \<open>Tokens\<close>

definition maximum_token_size :: nat where "maximum_token_size = 4096"

text \<open>\<open>AuthToken::load\<close> on the bytes of the file: strip the line end, check, digest.\<close>

definition token_load :: "Crypto \<Rightarrow> bytes \<Rightarrow> bytes res" where
  "token_load c file =
     (let token = rev (dropWhile (\<lambda>b. b = 0x0a \<or> b = 0x0d) (rev file)) in
      if length token < 32 then Inl (Runtime_error ''authentication token must contain at least 32 bytes'')
      else if 0 \<in> set token \<or> 0x0a \<in> set token \<or> 0x0d \<in> set token
      then Inl (Runtime_error ''authentication token contains invalid characters'')
      else sha256 c token)"

definition token_from_secret :: "Crypto \<Rightarrow> bytes \<Rightarrow> bytes res" where
  "token_from_secret c secret =
     (if length secret < 32 \<or> length secret > maximum_token_size
      then Inl (Invalid_argument ''authentication token must contain 32 to 4096 bytes'') else sha256 c secret)"

definition token_proof :: "Crypto \<Rightarrow> bytes \<Rightarrow> bytes \<Rightarrow> bytes res" where
  "token_proof c key message = from_option (Runtime_error ''authentication token proof failed'') (crypto_hmac_sha256 c key message)"

definition token_verify :: "Crypto \<Rightarrow> bytes \<Rightarrow> bytes \<Rightarrow> bytes \<Rightarrow> bool res" where
  "token_verify c key message proof_value = res_bind (token_proof c key message) (\<lambda>expected. Inr (expected = proof_value))"

section \<open>Passwords and access codes\<close>

definition derive :: "Crypto \<Rightarrow> bytes \<Rightarrow> bytes \<Rightarrow> bytes res" where
  "derive c password salt =
     (if length password < 8 \<or> length password > 128
      then Inl (Invalid_argument ''password must contain 8 to 128 bytes'')
      else from_option (Runtime_error ''password derivation failed'') (crypto_scrypt c password salt))"

definition protect_password :: "Crypto \<Rightarrow> bytes \<Rightarrow> bytes \<Rightarrow> bool \<Rightarrow> PasswordVerifier res" where
  "protect_password c nonce password require_approval = res_bind (derive c password nonce) (\<lambda>digest.
     Inr \<lparr>password_salt = nonce, password_digest = digest, password_require_approval = require_approval\<rparr>)"

definition password_matches :: "Crypto \<Rightarrow> bytes \<Rightarrow> PasswordVerifier \<Rightarrow> bool res" where
  "password_matches c password verifier =
     res_bind (derive c password (password_salt verifier)) (\<lambda>derived. Inr (derived = password_digest verifier))"

definition access_digest :: "Crypto \<Rightarrow> bytes \<Rightarrow> bytes res" where
  "access_digest c secret = from_option (Runtime_error ''access digest failed'') (crypto_sha256 c secret)"

definition random_access_code :: "bytes \<Rightarrow> bytes" where
  "random_access_code nonce = hex_encode (take 20 nonce)"

section \<open>Signed keys\<close>

definition verify_signed_device_key :: "Crypto \<Rightarrow> SignedDeviceKey \<Rightarrow> DeviceId \<Rightarrow> bool res" where
  "verify_signed_device_key c key expected =
     (if is_zero expected \<or> is_zero (key_encryption key) then Inr False
      else res_bind (make_device_id c (key_identity key)) (\<lambda>device.
        if device \<noteq> expected then Inr False
        else verify_signature c (key_identity key)
          (make_auth_transcript (key_identity key) (key_encryption key) (key_client_nonce key) (key_server_nonce key))
          (key_signature key)))"

definition signature_domain :: bytes where
  "signature_domain = str ''lanlink-network-key-envelope-v1''"

definition signed_transcript :: "NetworkKeyEnvelope \<Rightarrow> bytes res" where
  "signed_transcript e = res_bind (encode_network_key_envelope e) (\<lambda>wire.
     Inr (signature_domain @ take (length wire - 64) wire))"

definition catch_invalid_argument :: "'a \<Rightarrow> 'a res \<Rightarrow> 'a res" where
  "catch_invalid_argument fallback r = (case r of Inl (Invalid_argument _) \<Rightarrow> Inr fallback | _ \<Rightarrow> r)"

definition verify_network_key_envelope :: "Crypto \<Rightarrow> NetworkKeyEnvelope \<Rightarrow> bytes \<Rightarrow> bool res" where
  "verify_network_key_envelope c e owner_key = res_bind (make_device_id c owner_key) (\<lambda>device.
     if device \<noteq> env_owner e then Inr False
     else catch_invalid_argument False (res_bind (signed_transcript e) (\<lambda>transcript.
       verify_signature c owner_key transcript (env_signature e))))"

section \<open>Lemmas\<close>

lemma length_hex_encode [simp]: "length (hex_encode bs) = 2 * length bs"
  by (induction bs) auto

lemma hex_digit_lower:
  assumes "unat v < 16"
  shows "(0x30 \<le> hex_digit v \<and> hex_digit v \<le> 0x39) \<or> (0x61 \<le> hex_digit v \<and> hex_digit v \<le> 0x66)"
  using digit_cases [OF assms] unfolding hex_digit_def hex_table by (elim insertE emptyE) simp_all

lemma lower_hex_encode [simp]: "lower_hex (hex_encode bs)"
  by (induction bs) (auto simp: lower_hex_def hex_digit_lower)

text \<open>An access code is what the invitation parser accepts.\<close>

lemma random_access_code_ok:
  assumes "length nonce = 32"
  shows "lower_hex (random_access_code nonce)" "length (random_access_code nonce) = 40"
  using assms by (simp_all add: random_access_code_def)

text \<open>
  Secrets. A password verifier made from a password of 8 to 128 bytes accepts exactly the passwords
  of that length whose derivation with the stored salt gives the stored digest, so the password
  itself; a token accepts exactly the proof it computes; and a device key verifies only for the
  device id that is the digest of its identity key, under a signature over a transcript that
  determines all four of its fixed-size fields.
\<close>

lemma secrets_verify:
  assumes "8 \<le> length password" "length password \<le> 128" "crypto_scrypt c password nonce = Some digest"
    and "crypto_hmac_sha256 c key message = Some mac"
    and "length pk = 32" "length pk' = 32" "length ek = 32" "length ek' = 32" "length cn = 32" "length cn' = 32"
    and "verify_signed_device_key c k device = Inr True"
  shows "(\<exists>v. protect_password c nonce password approval = Inr v \<and> password_matches c password v = Inr True \<and>
      (\<forall>other. password_matches c other v = Inr True \<longleftrightarrow>
         8 \<le> length other \<and> length other \<le> 128 \<and> crypto_scrypt c other nonce = Some digest)) \<and>
    (\<forall>p. token_verify c key message p = Inr (p = mac)) \<and>
    (make_auth_transcript pk ek cn sn = make_auth_transcript pk' ek' cn' sn' \<longleftrightarrow> (pk, ek, cn, sn) = (pk', ek', cn', sn')) \<and>
    crypto_sha256 c (key_identity k) = Some device"
proof (intro conjI)
  show "\<exists>v. protect_password c nonce password approval = Inr v \<and> password_matches c password v = Inr True \<and>
      (\<forall>other. password_matches c other v = Inr True \<longleftrightarrow>
         8 \<le> length other \<and> length other \<le> 128 \<and> crypto_scrypt c other nonce = Some digest)"
    using assms(1-3) by (auto simp: protect_password_def password_matches_def derive_def res_bind_Inr_iff)
qed (use assms in \<open>auto simp: token_verify_def token_proof_def make_auth_transcript_def verify_signed_device_key_def
    make_device_id_def sha256_def res_bind_Inr_iff split: if_splits\<close>)

text \<open>A crypto library for demonstrations: it pads, and accepts a signature that repeats the message's first byte.\<close>

definition demo_crypto :: Crypto where
  "demo_crypto = \<lparr>crypto_sha256 = (\<lambda>b. Some (take 32 (b @ replicate 32 0))),
     crypto_hmac_sha256 = (\<lambda>k m. Some (take 32 (k @ m @ replicate 32 0))),
     crypto_ed25519_verify = (\<lambda>k m s. Some (take 1 s = take 1 m)),
     crypto_scrypt = (\<lambda>p s. Some (take 32 (p @ s @ replicate 32 0))),
     crypto_random = (\<lambda>k n. Some (map (\<lambda>i. word_of_nat (k + i + 1)) [0..<n]))\<rparr>"

definition demo_key :: "DeviceId \<Rightarrow> SignedDeviceKey" where
  "demo_key d = \<lparr>key_identity = d, key_encryption = d, key_client_nonce = replicate 32 3,
     key_server_nonce = replicate 32 4, key_signature = 108 # replicate 63 0\<rparr>"

lemma demo_key_verifies:
  assumes "length d = 32" "\<not> is_zero d"
  shows "verify_signed_device_key demo_crypto (demo_key d) d = Inr True"
  using assms
  by (simp add: verify_signed_device_key_def demo_key_def make_device_id_def sha256_def demo_crypto_def
      verify_signature_def make_auth_transcript_def transcript_prefix_def str_def)

lemma secrets_verify_demo:
  "(\<exists>v. protect_password demo_crypto (replicate 32 7) (replicate 8 1) True = Inr v \<and>
     password_matches demo_crypto (replicate 8 1) v = Inr True) \<and>
   crypto_sha256 demo_crypto (replicate 32 1) = Some (replicate 32 1)"
proof -
  have "verify_signed_device_key demo_crypto (demo_key (replicate 32 1)) (replicate 32 1) = Inr True"
    by (rule demo_key_verifies) (simp_all add: is_zero_def list_all_iff)
  from secrets_verify [OF _ _ _ _ _ _ _ _ _ _ this, of "replicate 8 1" "replicate 32 7" _ "[]" "[]" _
      "replicate 32 1" "replicate 32 1" "replicate 32 1" "replicate 32 1" "replicate 32 1" "replicate 32 1" True]
  show ?thesis by (force simp: demo_crypto_def demo_key_def)
qed

end
