(* ===== verification/Ipv4_Fanout.thy ===== *)
theory Ipv4_Fanout
  imports Network_Policy
begin

text \<open>\<open>protocol/ipv4_fanout.hpp\<close>: subnets, hosts, and the destinations that go to every member.\<close>

definition is_ipv4_subnet :: "32 word \<Rightarrow> byte \<Rightarrow> bool" where
  "is_ipv4_subnet subnet prefix \<longleftrightarrow> prefix > 0 \<and> prefix \<le> 30 \<and> subnet AND NOT (prefix_mask prefix) = 0"

definition is_ipv4_host :: "32 word \<Rightarrow> 32 word \<Rightarrow> byte \<Rightarrow> bool" where
  "is_ipv4_host address subnet prefix =
     (if \<not> is_ipv4_subnet subnet prefix then False
      else let m = prefix_mask prefix in
        address \<noteq> subnet \<and> address \<noteq> subnet OR NOT m \<and> address < 0xe0000000 \<and> address AND m = subnet)"

definition is_ipv4_multicast :: "32 word \<Rightarrow> bool" where
  "is_ipv4_multicast address \<longleftrightarrow> address AND 0xf0000000 = 0xe0000000"

definition is_ipv4_scoped_multicast :: "32 word \<Rightarrow> bool" where
  "is_ipv4_scoped_multicast address \<longleftrightarrow>
     address AND 0xff000000 = 0xef000000 \<or> address = 0xe00000fb \<or> address = 0xe00000fc"

definition is_ipv4_fanout_destination :: "32 word \<Rightarrow> 32 word \<Rightarrow> byte \<Rightarrow> bool" where
  "is_ipv4_fanout_destination destination subnet prefix =
     (if \<not> is_ipv4_subnet subnet prefix then False
      else let m = prefix_mask prefix in
        destination = 0xffffffff \<or> is_ipv4_scoped_multicast destination \<or> destination = subnet OR NOT m)"

section \<open>Masks as arithmetic\<close>

lemma prefix_mask_not: "prefix_mask p = NOT (mask (32 - unat p))"
proof (rule bit_word_eqI)
  fix i assume i: "i < LENGTH(32)"
  have ones: "(0xffffffff :: 32 word) = mask 32" by (simp add: mask_eq_exp_minus_1)
  have "bit (mask k :: 32 word) i \<longleftrightarrow> i < k" for k using i by (simp add: bit_mask_iff)
  then show "bit (prefix_mask p) i = bit (NOT (mask (32 - unat p)) :: 32 word) i"
    using i unfolding prefix_mask_def ones by (auto simp: bit_not_iff bit_push_bit_iff bit_mask_iff)
qed

lemma unat_low_bits: "unat (x AND mask k) = unat x mod 2 ^ k" for x :: "32 word"
  by (simp only: take_bit_eq_mask [symmetric] unsigned_take_bit_eq) (simp add: take_bit_eq_mod)

lemma unat_high_bits: "unat (x AND NOT (mask k)) = unat x - unat x mod 2 ^ k" for x :: "32 word"
proof -
  have "push_bit k (drop_bit k x) = x AND NOT (mask k)"
    by (rule bit_word_eqI) (auto simp: bit_push_bit_iff bit_drop_bit_eq bit_and_iff bit_not_iff bit_mask_iff)
  then have "(x AND NOT (mask k)) + (x AND mask k) = x"
    using bits_ident [of k x] by (simp add: take_bit_eq_mask)
  then have "x AND NOT (mask k) = x - (x AND mask k)" by (simp add: eq_diff_eq)
  moreover have "x AND mask k \<le> x" unfolding word_le_nat_alt unat_low_bits by simp
  ultimately show ?thesis by (simp add: unat_sub unat_low_bits)
qed

text \<open>A subnet is an aligned block of \<open>2 ^ (32 - prefix)\<close> addresses.\<close>

lemma is_ipv4_subnet_iff:
  "is_ipv4_subnet s p \<longleftrightarrow> p > 0 \<and> p \<le> 30 \<and> unat s mod 2 ^ (32 - unat p) = 0"
proof -
  have "s AND mask k = 0 \<longleftrightarrow> unat s mod 2 ^ k = 0" for k
    by (simp only: word_unat_eq_iff unat_low_bits unsigned_0)
  then show ?thesis by (simp add: is_ipv4_subnet_def prefix_mask_not)
qed

lemma block_last:
  assumes "is_ipv4_subnet s p"
  shows "unat (s OR NOT (prefix_mask p)) = unat s + (2 ^ (32 - unat p) - 1)" "unat s + (2 ^ (32 - unat p) - 1) < 2 ^ 32"
proof -
  let ?k = "32 - unat p"
  have al: "unat s mod 2 ^ ?k = 0" and p: "p > 0" using assms by (simp_all add: is_ipv4_subnet_iff)
  then have "unat p > 0" by (simp add: word_less_nat_alt)
  then have k: "?k < 32" by simp
  obtain q where q: "unat s = 2 ^ ?k * q" using al by fastforce
  have "(2 :: nat) ^ 32 = 2 ^ ?k * 2 ^ (32 - ?k)" using k by (simp flip: power_add)
  moreover have "unat s < 2 ^ 32" using unsigned_less [of s, where 'a = nat] by simp
  ultimately have "2 ^ ?k * q < 2 ^ ?k * 2 ^ (32 - ?k)" unfolding q by (simp only:)
  then have "q < 2 ^ (32 - ?k)" by (simp only: mult_less_cancel1)
  then have "2 ^ ?k * (q + 1) \<le> 2 ^ ?k * 2 ^ (32 - ?k)" by (intro mult_le_mono2) simp
  then have fit: "unat s + 2 ^ ?k \<le> 2 ^ 32" using \<open>(2 :: nat) ^ 32 = _\<close> q by simp
  moreover have "(2 :: nat) ^ ?k > 0" by simp
  ultimately show lt: "unat s + (2 ^ ?k - 1) < 2 ^ 32" by linarith
  have "s AND mask ?k = 0" by (simp only: word_unat_eq_iff unat_low_bits unsigned_0 al)
  then have "s OR mask ?k = s + mask ?k" by (rule disjunctive_add_eq_or [symmetric])
  moreover have "unat (mask ?k :: 32 word) = 2 ^ ?k - 1"
  proof -
    have "mask ?k = (word_of_nat (2 ^ ?k - 1) :: 32 word)" by (simp add: mask_eq_exp_minus_1 of_nat_diff)
    moreover have "(2 :: nat) ^ ?k - 1 < 2 ^ 32" using fit \<open>(2 :: nat) ^ ?k > 0\<close> by linarith
    ultimately show ?thesis by (simp only: unat_of_nat) (simp add: take_bit_nat_eq_self)
  qed
  ultimately show "unat (s OR NOT (prefix_mask p)) = unat s + (2 ^ ?k - 1)"
    using lt by (simp add: prefix_mask_not unat_plus_if')
qed

lemma block_member:
  assumes "is_ipv4_subnet s p"
  shows "a AND prefix_mask p = s \<longleftrightarrow> unat s \<le> unat a \<and> unat a < unat s + 2 ^ (32 - unat p)"
proof -
  let ?k = "32 - unat p"
  have al: "unat s mod 2 ^ ?k = 0" using assms by (simp add: is_ipv4_subnet_iff)
  then obtain q where q: "unat s = 2 ^ ?k * q" by fastforce
  have "a AND prefix_mask p = s \<longleftrightarrow> unat a - unat a mod 2 ^ ?k = unat s"
    by (simp only: word_unat_eq_iff prefix_mask_not unat_high_bits)
  also have "\<dots> \<longleftrightarrow> 2 ^ ?k * (unat a div 2 ^ ?k) = 2 ^ ?k * q"
    by (simp add: q minus_mod_eq_mult_div)
  also have "\<dots> \<longleftrightarrow> unat a div 2 ^ ?k = q" by simp
  also have "\<dots> \<longleftrightarrow> unat s \<le> unat a \<and> unat a < unat s + 2 ^ ?k"
  proof
    assume "unat a div 2 ^ ?k = q"
    then show "unat s \<le> unat a \<and> unat a < unat s + 2 ^ ?k"
      using times_div_less_eq_dividend [of "2 ^ ?k" "unat a"] dividend_less_times_div [of "2 ^ ?k" "unat a"]
      by (auto simp: q)
  next
    assume "unat s \<le> unat a \<and> unat a < unat s + 2 ^ ?k"
    then show "unat a div 2 ^ ?k = q" by (intro div_nat_eqI) (simp_all add: q)
  qed
  finally show ?thesis .
qed

text \<open>
  Hosts and fan-out destinations of a subnet. A prefix of 1 to 30 and an aligned base address name a
  block of \<open>2 ^ (32 - prefix)\<close> addresses that does not wrap; its unicast hosts are the addresses strictly
  between the base and the last address; the last address is the directed broadcast, which with the
  limited broadcast and the scoped multicast groups is what goes to every member; and no host is a
  fan-out destination.
\<close>

lemma ipv4_hosts_and_fanout:
  "(is_ipv4_subnet s p \<longleftrightarrow> 1 \<le> unat p \<and> unat p \<le> 30 \<and> 2 ^ (32 - unat p) dvd unat s) \<and>
   (is_ipv4_host a s p \<longleftrightarrow> is_ipv4_subnet s p \<and> unat s < unat a \<and> unat a < unat s + 2 ^ (32 - unat p) - 1 \<and> a < 0xe0000000) \<and>
   (is_ipv4_fanout_destination a s p \<longleftrightarrow> is_ipv4_subnet s p \<and>
      (a = 0xffffffff \<or> is_ipv4_scoped_multicast a \<or> unat a = unat s + 2 ^ (32 - unat p) - 1)) \<and>
   \<not> (is_ipv4_host a s p \<and> is_ipv4_fanout_destination a s p)"
proof -
  have subnet: "is_ipv4_subnet s p \<longleftrightarrow> 1 \<le> unat p \<and> unat p \<le> 30 \<and> 2 ^ (32 - unat p) dvd unat s"
    by (auto simp: is_ipv4_subnet_iff word_less_nat_alt word_le_nat_alt dvd_eq_mod_eq_0)
  have broadcast: "a = s OR NOT (prefix_mask p) \<longleftrightarrow> unat a = unat s + 2 ^ (32 - unat p) - 1" if "is_ipv4_subnet s p"
    using block_last(1) [OF that] by (simp add: word_unat_eq_iff)
  have host: "is_ipv4_host a s p \<longleftrightarrow> is_ipv4_subnet s p \<and> unat s < unat a \<and> unat a < unat s + 2 ^ (32 - unat p) - 1 \<and> a < 0xe0000000"
  proof (cases "is_ipv4_subnet s p")
    case True
    then show ?thesis
      using broadcast [OF True] block_member [OF True, of a]
      by (auto simp: is_ipv4_host_def Let_def word_unat_eq_iff [of a s])
  qed (simp add: is_ipv4_host_def)
  have fanout: "is_ipv4_fanout_destination a s p \<longleftrightarrow> is_ipv4_subnet s p \<and>
      (a = 0xffffffff \<or> is_ipv4_scoped_multicast a \<or> unat a = unat s + 2 ^ (32 - unat p) - 1)"
    using broadcast by (auto simp: is_ipv4_fanout_destination_def Let_def)
  have "\<not> a < 0xe0000000" if "is_ipv4_scoped_multicast a"
  proof -
    have "a AND 0xff000000 \<le> a" by (rule word_and_le2)
    with that show ?thesis by (auto simp: is_ipv4_scoped_multicast_def dest: order_le_less_trans)
  qed
  then show ?thesis using subnet host fanout by auto
qed

end
