(* ===== verification/Packet_Messages.thy ===== *)
theory Packet_Messages
  imports Network_Messages
begin

text \<open>
  \<open>src/protocol/packet_messages.cpp\<close>: encrypted packets as a client sends them to the relay and
  as the relay forwards them, with the identity of the sender in front.
\<close>

definition min_virtual_ipv4_packet_size :: nat where "min_virtual_ipv4_packet_size = 20"
definition max_virtual_ipv4_packet_size :: nat where "max_virtual_ipv4_packet_size = 65535"
definition packet_nonce_size :: nat where "packet_nonce_size = 12"
definition packet_tag_size :: nat where "packet_tag_size = 16"

definition encrypted_packet_header_size :: nat where
  "encrypted_packet_header_size = network_id_size + 4 + 8 + 4 + packet_nonce_size + 2"

definition fixed_size :: nat where
  "fixed_size = encrypted_packet_header_size + packet_tag_size"

lemmas packet_sizes = network_sizes min_virtual_ipv4_packet_size_def max_virtual_ipv4_packet_size_def
  packet_nonce_size_def packet_tag_size_def encrypted_packet_header_size_def fixed_size_def

record EncryptedNetworkPacket =
  packet_network :: NetworkId
  packet_destination :: "32 word"
  packet_epoch :: "64 word"
  packet_sequence :: "32 word"
  packet_nonce :: bytes
  packet_ciphertext :: bytes
  packet_tag :: bytes

record ForwardedNetworkPacket =
  forwarded_sender :: bytes
  forwarded_packet :: EncryptedNetworkPacket

text \<open>
  \<open>valid_packet\<close>; its loop compares \<open>nonce[8 + index]\<close> with the byte
  \<open>sequence >> ((3 - index) * 8)\<close> for the four indices.
\<close>

definition valid_packet :: "EncryptedNetworkPacket \<Rightarrow> bool" where
  "valid_packet p =
     (if \<not> list_ex (\<lambda>b. b \<noteq> 0) (packet_network p) \<or> packet_destination p = 0 \<or>
         (packet_destination p \<ge> 0xf0000000 \<and> packet_destination p \<noteq> 0xffffffff) \<or> packet_epoch p = 0 \<or>
         packet_sequence p = 0 \<or> length (packet_ciphertext p) < min_virtual_ipv4_packet_size \<or>
         length (packet_ciphertext p) > max_virtual_ipv4_packet_size
      then False
      else list_all (\<lambda>index. packet_nonce p ! (8 + index) = ucast (drop_bit ((3 - index) * 8) (packet_sequence p)))
        [0, 1, 2, 3])"

definition encode_encrypted_network_packet_header :: "EncryptedNetworkPacket \<Rightarrow> bytes res" where
  "encode_encrypted_network_packet_header p =
     (if \<not> valid_packet p then Inl (Invalid_argument ''encrypted packet header or length is invalid'')
      else Inr (packet_network p @ put (packet_destination p) @ put (packet_epoch p) @ put (packet_sequence p)
        @ packet_nonce p @ put (word_of_nat (length (packet_ciphertext p)) :: 16 word)))"

definition encode_encrypted_network_packet :: "EncryptedNetworkPacket \<Rightarrow> bytes res" where
  "encode_encrypted_network_packet p =
     res_bind (encode_encrypted_network_packet_header p) (\<lambda>header. Inr (header @ packet_ciphertext p @ packet_tag p))"

definition read_integer_at :: "bytes \<Rightarrow> nat \<Rightarrow> 'a::len word res" where
  "read_integer_at data offset =
     (if offset > length data \<or> LENGTH('a) div 8 > length data - offset
      then Inl (Runtime_error ''encrypted packet is truncated'')
      else Inr (be_value (take (LENGTH('a) div 8) (drop offset data))))"

definition decode_encrypted_network_packet :: "bytes \<Rightarrow> EncryptedNetworkPacket res" where
  "decode_encrypted_network_packet data =
     (if length data < fixed_size + min_virtual_ipv4_packet_size \<or>
         length data > fixed_size + max_virtual_ipv4_packet_size
      then Inl (Runtime_error ''encrypted packet size is invalid'')
      else res_bind (read_integer_at data (encrypted_packet_header_size - 2)) (\<lambda>count :: 16 word.
        if length data \<noteq> fixed_size + unat count
        then Inl (Runtime_error ''encrypted packet length does not match payload'')
        else res_bind (read_integer_at data network_id_size) (\<lambda>destination.
          res_bind (read_integer_at data (network_id_size + 4)) (\<lambda>epoch.
          res_bind (read_integer_at data (network_id_size + 12)) (\<lambda>sequence.
          let p = \<lparr>packet_network = take network_id_size data, packet_destination = destination,
                   packet_epoch = epoch, packet_sequence = sequence,
                   packet_nonce = take packet_nonce_size (drop (network_id_size + 16) data),
                   packet_ciphertext = take (unat count) (drop encrypted_packet_header_size data),
                   packet_tag = take packet_tag_size (drop (encrypted_packet_header_size + unat count) data)\<rparr> in
          if \<not> valid_packet p then Inl (Runtime_error ''encrypted packet header or length is invalid'')
          else Inr p)))))"

definition encode_forwarded_network_packet :: "ForwardedNetworkPacket \<Rightarrow> bytes res" where
  "encode_forwarded_network_packet f =
     (if is_zero (forwarded_sender f) then Inl (Invalid_argument ''forwarded packet sender is empty'')
      else res_bind (encode_encrypted_network_packet (forwarded_packet f)) (\<lambda>encrypted.
        Inr (forwarded_sender f @ encrypted)))"

definition decode_forwarded_network_packet :: "bytes \<Rightarrow> ForwardedNetworkPacket res" where
  "decode_forwarded_network_packet data =
     (if length data < network_device_id_size + fixed_size + min_virtual_ipv4_packet_size
      then Inl (Runtime_error ''forwarded packet is truncated'')
      else let sender = take network_device_id_size data in
        if is_zero sender then Inl (Runtime_error ''forwarded packet sender is empty'')
        else res_bind (decode_encrypted_network_packet (drop network_device_id_size data)) (\<lambda>p.
          Inr \<lparr>forwarded_sender = sender, forwarded_packet = p\<rparr>))"

section \<open>Canonical encodings\<close>

definition packet_typed :: "EncryptedNetworkPacket \<Rightarrow> bool" where
  "packet_typed p \<longleftrightarrow> length (packet_network p) = 16 \<and> length (packet_nonce p) = 12 \<and> length (packet_tag p) = 16"

lemma read_integer_at_append:
  assumes "8 dvd LENGTH('a::len)" and "length a = n"
  shows "read_integer_at (a @ put (w :: 'a word) @ b) n = Inr w"
  using assms by (simp add: read_integer_at_def be_value_put)

lemma packet_record_eta [simp]:
  "\<lparr>packet_network = packet_network p, packet_destination = packet_destination p, packet_epoch = packet_epoch p,
     packet_sequence = packet_sequence p, packet_nonce = packet_nonce p, packet_ciphertext = packet_ciphertext p,
     packet_tag = packet_tag p\<rparr> = p"
  by simp

lemma valid_packet_sizes:
  "valid_packet p \<Longrightarrow> 20 \<le> length (packet_ciphertext p) \<and> length (packet_ciphertext p) \<le> 65535"
  by (simp add: valid_packet_def packet_sizes split: if_splits)

lemma decode_encrypted_encode:
  assumes typed: "packet_typed p" and enc: "encode_encrypted_network_packet p = Inr bs"
  shows "decode_encrypted_network_packet bs = Inr p"
proof -
  define n where "n = length (packet_ciphertext p)"
  have valid: "valid_packet p" and bs: "bs = packet_network p @ put (packet_destination p) @ put (packet_epoch p)
      @ put (packet_sequence p) @ packet_nonce p @ put (word_of_nat n :: 16 word) @ packet_ciphertext p @ packet_tag p"
    using enc by (auto simp: encode_encrypted_network_packet_def encode_encrypted_network_packet_header_def n_def
        split: if_splits)
  have n: "20 \<le> n" "n \<le> 65535" using valid_packet_sizes [OF valid] by (simp_all add: n_def)
  have arrays: "length (packet_network p) = 16" "length (packet_nonce p) = 12" "length (packet_tag p) = 16"
    using typed by (simp_all add: packet_typed_def)
  have count: "read_integer_at bs 44 = Inr (word_of_nat n :: 16 word)"
    using read_integer_at_append [where 'a = 16, of "packet_network p @ put (packet_destination p) @ put (packet_epoch p)
      @ put (packet_sequence p) @ packet_nonce p"] arrays by (simp add: bs)
  have destination: "read_integer_at bs 16 = Inr (packet_destination p)"
    using read_integer_at_append [where 'a = 32, of "packet_network p"] arrays by (simp add: bs)
  have epoch: "read_integer_at bs 20 = Inr (packet_epoch p)"
    using read_integer_at_append [where 'a = 64, of "packet_network p @ put (packet_destination p)"] arrays by (simp add: bs)
  have sequence: "read_integer_at bs 28 = Inr (packet_sequence p)"
    using read_integer_at_append [where 'a = 32, of "packet_network p @ put (packet_destination p) @ put (packet_epoch p)"]
      arrays by (simp add: bs)
  have len: "length bs = 62 + n" using arrays by (simp add: bs n_def)
  have parts: "take 16 bs = packet_network p" "take 12 (drop 32 bs) = packet_nonce p"
    "take n (drop 46 bs) = packet_ciphertext p" "take 16 (drop (46 + n) bs) = packet_tag p"
    using arrays by (simp_all add: bs n_def)
  show ?thesis
    unfolding decode_encrypted_network_packet_def packet_sizes
    using n valid by (simp add: len count destination epoch sequence parts unat_of_nat_size)
qed

lemma read_integer_at_dest:
  "read_integer_at data n = Inr (w :: 'a::len word) \<Longrightarrow> put w = take (LENGTH('a) div 8) (drop n data)"
  by (auto simp: read_integer_at_def put_be_value not_less split: if_splits)

lemma drop_split: "drop n bs = take k (drop n bs) @ drop (n + k) bs"
  by (metis append_take_drop_id drop_drop add.commute)

lemma decode_encrypted_dest:
  assumes "decode_encrypted_network_packet bs = Inr p"
  shows "packet_typed p \<and> encode_encrypted_network_packet p = Inr bs"
proof -
  from assms obtain count :: "16 word" where bounds: "82 \<le> length bs" "length bs = 62 + unat count"
    and count: "read_integer_at bs 44 = Inr count"
    and words: "read_integer_at bs 16 = Inr (packet_destination p)" "read_integer_at bs 20 = Inr (packet_epoch p)"
      "read_integer_at bs 28 = Inr (packet_sequence p)"
    and parts: "packet_network p = take 16 bs" "packet_nonce p = take 12 (drop 32 bs)"
      "packet_ciphertext p = take (unat count) (drop 46 bs)" "packet_tag p = take 16 (drop (46 + unat count) bs)"
    and valid: "valid_packet p"
    by (auto simp: decode_encrypted_network_packet_def packet_sizes res_bind_Inr_iff Let_def not_less split: if_splits)
  have typed: "packet_typed p" using bounds by (simp add: packet_typed_def parts)
  have n: "length (packet_ciphertext p) = unat count" using bounds by (simp add: parts)
  note w = words [THEN read_integer_at_dest, simplified] count [THEN read_integer_at_dest, simplified]
  have tag: "drop (46 + unat count) bs = packet_tag p" using bounds by (simp add: parts)
  have "bs = packet_network p @ drop 16 bs" by (simp add: parts)
  also have "drop 16 bs = put (packet_destination p) @ drop 20 bs" using drop_split [of 16 bs 4] by (simp add: w)
  also have "drop 20 bs = put (packet_epoch p) @ drop 28 bs" using drop_split [of 20 bs 8] by (simp add: w)
  also have "drop 28 bs = put (packet_sequence p) @ drop 32 bs" using drop_split [of 28 bs 4] by (simp add: w)
  also have "drop 32 bs = packet_nonce p @ drop 44 bs" using drop_split [of 32 bs 12] by (simp add: parts)
  also have "drop 44 bs = put count @ drop 46 bs" using drop_split [of 44 bs 2] by (simp add: w)
  also have "drop 46 bs = packet_ciphertext p @ packet_tag p"
    using drop_split [of 46 bs "unat count"] by (simp only: parts(3) tag)
  finally show ?thesis
    using valid typed n by (simp add: encode_encrypted_network_packet_def encode_encrypted_network_packet_header_def)
qed

interpretation packet_codec: wire_codec encode_encrypted_network_packet decode_encrypted_network_packet packet_typed
  by unfold_locales (fact decode_encrypted_encode decode_encrypted_dest)+

lemma length_encrypted:
  assumes "packet_typed p" and "encode_encrypted_network_packet p = Inr bs"
  shows "82 \<le> length bs"
  using assms valid_packet_sizes [of p]
  by (auto simp: encode_encrypted_network_packet_def encode_encrypted_network_packet_header_def packet_typed_def
      split: if_splits)

interpretation forwarded_codec: wire_codec encode_forwarded_network_packet decode_forwarded_network_packet
  "\<lambda>f. length (forwarded_sender f) = 32 \<and> packet_typed (forwarded_packet f)"
proof unfold_locales
  fix f :: ForwardedNetworkPacket and bs
  assume typed: "length (forwarded_sender f) = 32 \<and> packet_typed (forwarded_packet f)"
    and "encode_forwarded_network_packet f = Inr bs"
  then obtain e where "\<not> is_zero (forwarded_sender f)" "encode_encrypted_network_packet (forwarded_packet f) = Inr e"
    "bs = forwarded_sender f @ e"
    by (auto simp: encode_forwarded_network_packet_def res_bind_Inr_iff split: if_splits)
  with typed length_encrypted [of "forwarded_packet f" e] packet_codec.enc_dec [of "forwarded_packet f" e]
  show "decode_forwarded_network_packet bs = Inr f"
    by (simp add: decode_forwarded_network_packet_def packet_sizes)
next
  fix f :: ForwardedNetworkPacket and bs
  assume "decode_forwarded_network_packet bs = Inr f"
  then show "(length (forwarded_sender f) = 32 \<and> packet_typed (forwarded_packet f)) \<and>
      encode_forwarded_network_packet f = Inr bs"
    by (auto simp: decode_forwarded_network_packet_def encode_forwarded_network_packet_def packet_sizes Let_def
        res_bind_Inr_iff packet_codec.dec_iff split: if_splits)
qed

lemma ucast_low_byte: "(ucast (w AND 255) :: byte) = ucast (w :: 'a::len word)"
  using bit_low_byte [of w] by (intro bit_word_eqI) (auto simp: bit_ucast_iff simp del: bit_unsigned_iff)

lemma valid_packet_nonce:
  assumes "length (packet_nonce p) = 12" and "valid_packet p"
  shows "drop 8 (packet_nonce p) = put (packet_sequence p)"
proof -
  have "drop 8 (packet_nonce p) = [packet_nonce p ! 8, packet_nonce p ! 9, packet_nonce p ! 10, packet_nonce p ! 11]"
    using assms(1) by (intro nth_equalityI) (auto simp: less_Suc_eq numeral_eq_Suc)
  then show ?thesis
    using assms(2) by (simp add: valid_packet_def put_eval ucast_low_byte split: if_splits)
qed

definition packet_sample :: EncryptedNetworkPacket where
  "packet_sample = \<lparr>packet_network = replicate 16 1, packet_destination = 0x0a400002, packet_epoch = 1,
     packet_sequence = 258, packet_nonce = replicate 8 0 @ [0, 0, 1, 2], packet_ciphertext = replicate 20 0,
     packet_tag = replicate 16 0\<rparr>"

text \<open>
  Encrypted packets and forwarded packets: the offset-based decoder accepts a payload exactly
  when it is the encoding of the packet it returns, and every accepted packet carries its sequence
  number, big-endian, in the last four bytes of its nonce (so that two packets of one key epoch
  and sender prefix with different sequence numbers never share a nonce).
\<close>

lemma packet_messages_roundtrip:
  "(decode_encrypted_network_packet b1 = Inr p1 \<longleftrightarrow> packet_typed p1 \<and> encode_encrypted_network_packet p1 = Inr b1) \<and>
   (decode_forwarded_network_packet b2 = Inr f2 \<longleftrightarrow>
     (length (forwarded_sender f2) = 32 \<and> packet_typed (forwarded_packet f2)) \<and>
     encode_forwarded_network_packet f2 = Inr b2) \<and>
   (packet_typed p3 \<and> valid_packet p3 \<longrightarrow> drop 8 (packet_nonce p3) = put (packet_sequence p3))"
  using packet_codec.dec_iff [of b1 p1] forwarded_codec.dec_iff [of b2 f2] valid_packet_nonce [of p3]
  by (simp add: packet_typed_def)

lemma packet_messages_sample:
  "valid_packet packet_sample \<and> drop 8 (packet_nonce packet_sample) = put (258 :: 32 word)"
proof -
  have "valid_packet packet_sample"
    by (simp add: valid_packet_def packet_sample_def packet_sizes nth_append list_ex_iff)
  then show ?thesis
    using packet_messages_roundtrip [of "[]" packet_sample "[]" undefined packet_sample]
    by (simp add: packet_typed_def packet_sample_def)
qed

end
