(* ===== verification/Store_Steps.thy ===== *)
theory Store_Steps
  imports Store_Operations
begin

text \<open>
  The relay's database as a state machine: \<open>store_step\<close> has one rule per mutating method of
  \<open>RelayStore\<close>, and the integrity invariant and the bounds of the audit log hold in every
  reachable store. Then the address allocator (first fit) and the optimistic concurrency of policy
  documents.
\<close>

section \<open>Steps and reachable stores\<close>

inductive store_step :: "RelayStore \<Rightarrow> RelayStore \<Rightarrow> bool" where
  step_record_device: "record_device d seen db = Inr (u, db') \<Longrightarrow> store_step db db'"
| step_create_network: "create_network r pw db = Inr (u, db') \<Longrightarrow> store_step db db'"
| step_delete_network: "delete_network n db = Inr (b, db') \<Longrightarrow> store_step db db'"
| step_add_member: "add_member n d t db = Inr (b, db') \<Longrightarrow> store_step db db'"
| step_remove_member: "remove_member n d db = Inr (b, db') \<Longrightarrow> store_step db db'"
| step_add_invitation: "add_invitation n d t db = Inr (b, db') \<Longrightarrow> store_step db db'"
| step_remove_invitation: "remove_invitation n d db = Inr (b, db') \<Longrightarrow> store_step db db'"
| step_add_join_request: "add_join_request n d t db = Inr (b, db') \<Longrightarrow> store_step db db'"
| step_remove_join_request: "remove_join_request n d db = Inr (b, db') \<Longrightarrow> store_step db db'"
| step_issue_invite_link: "issue_invite_link n digest now expires uses db = Inr (u, db') \<Longrightarrow> store_step db db'"
| step_redeem_invite_link: "redeem_invite_link n digest d now db = Inr (b, db') \<Longrightarrow> store_step db db'"
| step_revoke_invite_links: "revoke_invite_links n db = Inr (u, db') \<Longrightarrow> store_step db db'"
| step_set_network_password: "set_network_password n pw db = Inr (u, db') \<Longrightarrow> store_step db db'"
| step_create_account: "create_account a now db = Inr (u, db') \<Longrightarrow> store_step db db'"
| step_issue_enrollment: "issue_enrollment account digest expires db = Inr (u, db') \<Longrightarrow> store_step db db'"
| step_enroll_device: "enroll_device digest d label now db = Inr (b, db') \<Longrightarrow> store_step db db'"
| step_revoke_account_device: "revoke_account_device account d db = Inr (u, db') \<Longrightarrow> store_step db db'"
| step_append_audit: "append_audit e db = Inr (u, db') \<Longrightarrow> store_step db db'"
| step_save_network_policy: "policy_typed p \<Longrightarrow> save_network_policy n p expected audit db = Inr (b, db') \<Longrightarrow> store_step db db'"

inductive store_reachable :: "RelayStore \<Rightarrow> bool" where
  reach_empty: "store_reachable empty_store"
| reach_step: "store_reachable db \<Longrightarrow> store_step db db' \<Longrightarrow> store_reachable db'"

lemmas operations_ok = record_device_ok create_network_ok delete_network_ok add_member_ok remove_member_ok
  add_invitation_ok remove_invitation_ok add_join_request_ok remove_join_request_ok issue_invite_link_ok
  redeem_invite_link_ok revoke_invite_links_ok set_network_password_ok create_account_ok issue_enrollment_ok
  enroll_device_ok revoke_account_device_ok append_audit_ok save_network_policy_ok

lemma store_step_ok: "store_step db db' \<Longrightarrow> store_ok db \<Longrightarrow> store_ok db'"
  by (induction rule: store_step.induct) (blast intro: operations_ok)+

section \<open>The audit log\<close>

text \<open>
  Rows carry strictly increasing sequence numbers up to the \<open>AUTOINCREMENT\<close> counter; a network has
  at most 256 of them and the log at most 10000.
\<close>

definition audit_ok :: "RelayStore \<Rightarrow> bool" where
  "audit_ok db \<longleftrightarrow>
     sorted_wrt (\<lambda>a b. audit_sequence a < audit_sequence b) (db_audit db) \<and>
     (\<forall>r\<in>set (db_audit db). 1 \<le> unat (audit_sequence r) \<and> unat (audit_sequence r) \<le> db_audit_last db) \<and>
     db_audit_last db \<le> unat int64_max \<and>
     length (db_audit db) \<le> 10000 \<and>
     (\<forall>n. length (filter (\<lambda>r. audit_network r = n) (db_audit db)) \<le> 256)"

lemma newest_length [simp]: "length (newest k xs) \<le> k"
  by (simp add: newest_def)

lemma newest_set: "set (newest k xs) \<subseteq> set xs"
  by (simp add: newest_def set_drop_subset)

lemma sorted_wrt_newest: "sorted_wrt P xs \<Longrightarrow> sorted_wrt P (newest k xs)"
  by (simp add: newest_def sorted_wrt_drop)

lemma filter_newest_length: "length (filter P (newest k xs)) \<le> length (filter P xs)"
proof -
  have "filter P xs = filter P (take (length xs - k) xs) @ filter P (newest k xs)"
    unfolding newest_def by (metis append_take_drop_id filter_append)
  then show ?thesis by simp
qed

lemma length_filter_filter_le: "length (filter P (filter Q xs)) \<le> length (filter P xs)"
  by (induction xs) auto

lemma filter_by_key_length:
  fixes f :: "'x \<Rightarrow> 'k::linorder"
  assumes "sorted_wrt (\<lambda>a b. f a < f b) xs" and "set ks \<subseteq> set xs"
  shows "length (filter (\<lambda>x. list_ex (\<lambda>k. f k = f x) ks) xs) \<le> length ks"
proof -
  have d: "distinct (map f xs)" using assms(1) by (induction xs) auto
  then have "distinct (map f (filter (\<lambda>x. list_ex (\<lambda>k. f k = f x) ks) xs))"
    by (simp add: distinct_map inj_on_def)
  from distinct_card [OF this] have "length (filter (\<lambda>x. list_ex (\<lambda>k. f k = f x) ks) xs) =
      card (f ` {x \<in> set xs. list_ex (\<lambda>k. f k = f x) ks})"
    by simp
  also have "\<dots> \<le> card (f ` set ks)" by (rule card_mono) (auto simp: list_ex_iff intro: rev_image_eqI)
  also have "\<dots> \<le> length ks" using card_length [of "map f ks"] by simp
  finally show ?thesis .
qed

lemma append_audit_locked_audit_ok:
  assumes ok: "audit_ok db" and run: "append_audit_locked e db = Inr db'"
  shows "audit_ok db'"
proof -
  define new where "new = e\<lparr>audit_sequence := word_of_nat (Suc (db_audit_last db))\<rparr>"
  define rows where "rows = db_audit db @ [new]"
  define kept where "kept = newest 256 (filter (\<lambda>r. audit_network r = audit_network e) rows)"
  define per where "per = filter (\<lambda>r. audit_network r \<noteq> audit_network e \<or>
              list_ex (\<lambda>k. audit_sequence k = audit_sequence r) kept) rows"
  define young where "young = filter (\<lambda>r. \<not> sint (audit_timestamp_ms r) < max 0 (sint (audit_timestamp_ms e) - audit_age_limit)) per"
  have last: "db_audit_last db < unat int64_max"
    and db': "db' = db\<lparr>db_audit := newest 10000 young, db_audit_last := Suc (db_audit_last db)\<rparr>"
    using run by (auto simp: append_audit_locked_def res_bind_Inr_iff Let_def new_def rows_def kept_def per_def young_def
        split: if_splits)
  have small: "Suc (db_audit_last db) < 2 ^ 64" using last by (simp add: int64_max_def)
  have seq: "unat (audit_sequence new) = Suc (db_audit_last db)"
    using small by (simp add: new_def unat_of_nat take_bit_nat_eq_self del: of_nat_Suc)
  have bounds: "1 \<le> unat (audit_sequence r) \<and> unat (audit_sequence r) \<le> Suc (db_audit_last db)" if "r \<in> set rows" for r
    using that ok seq by (auto simp: rows_def audit_ok_def le_SucI)
  have sorted: "sorted_wrt (\<lambda>a b. audit_sequence a < audit_sequence b) rows"
    using ok seq by (auto simp: rows_def audit_ok_def sorted_wrt_append word_less_nat_alt le_imp_less_Suc)
  have sub: "set kept \<subseteq> set rows" using newest_set by (fastforce simp: kept_def)
  have "length (filter (\<lambda>r. audit_network r = n) per) \<le> 256" for n
  proof (cases "n = audit_network e")
    case True
    have "filter (\<lambda>r. audit_network r = n) per =
        filter (\<lambda>r. audit_network r = n) (filter (\<lambda>r. list_ex (\<lambda>k. audit_sequence k = audit_sequence r) kept) rows)"
      by (auto simp: per_def True intro!: filter_cong)
    then have "length (filter (\<lambda>r. audit_network r = n) per) \<le>
        length (filter (\<lambda>r. list_ex (\<lambda>k. audit_sequence k = audit_sequence r) kept) rows)"
      by (metis length_filter_le)
    also have "\<dots> \<le> length kept" using sorted sub by (rule filter_by_key_length)
    also have "\<dots> \<le> 256" by (simp add: kept_def)
    finally show ?thesis .
  next
    case False
    then have "filter (\<lambda>r. audit_network r = n) rows = filter (\<lambda>r. audit_network r = n) (db_audit db)"
      by (simp add: rows_def new_def)
    then show ?thesis using length_filter_filter_le [of _ _ rows] ok
      by (metis (no_types, lifting) audit_ok_def le_trans per_def)
  qed
  then have "length (filter (\<lambda>r. audit_network r = n) (newest 10000 young)) \<le> 256" for n
    by (metis (no_types, lifting) filter_newest_length le_trans length_filter_filter_le young_def)
  moreover have "set (newest 10000 young) \<subseteq> set rows"
    using newest_set by (fastforce simp: young_def per_def)
  moreover have "sorted_wrt (\<lambda>a b. audit_sequence a < audit_sequence b) (newest 10000 young)"
    unfolding young_def per_def by (intro sorted_wrt_newest sorted_wrt_filterI sorted)
  ultimately show ?thesis
    using bounds last unfolding db' audit_ok_def by auto
qed

text \<open>Every other method leaves the log alone.\<close>

definition log_of :: "RelayStore \<Rightarrow> AuditEvent list \<times> nat" where
  "log_of db = (db_audit db, db_audit_last db)"

lemma insert_membership_row_log: "insert_membership_row m db = Inr (Some db') \<Longrightarrow> log_of db' = log_of db"
  by (auto simp: insert_membership_row_def log_of_def clear_pending_def split: if_splits)

lemma add_member_log: "add_member n d t db = Inr (b, db') \<Longrightarrow> log_of db' = log_of db"
  by (auto dest!: add_member_dest simp: log_of_def with_member_def clear_pending_def)

lemma create_network_log: "create_network r pw db = Inr (u, db') \<Longrightarrow> log_of db' = log_of db"
  by (erule create_network_dest) (simp add: log_of_def with_member_def clear_pending_def)

lemma remove_member_log:
  assumes run: "remove_member n d db = Inr (b, db')"
  shows "log_of db' = log_of db"
proof -
  define db1 where "db1 = delete_membership n d db"
  have log1: "log_of db1 = log_of db" "log_of (db1\<lparr>db_policies := x\<rparr>) = log_of db" for x
    by (simp_all add: db1_def delete_membership_def log_of_def)
  have ids: "\<not> is_zero n" "\<not> is_zero d" using run by (auto simp: remove_member_def res_bind_Inr_iff)
  show ?thesis
  proof (cases "read_policy n db1")
    case (Inl e)
    with run ids show ?thesis
      by (simp add: remove_member_def res_bind_Inr_iff db1_def split: if_splits)
  next
    case (Inr p)
    define q where "q = scrub_policy d p"
    from run ids Inr have "db' = db \<or> db' = db1 \<or> (\<exists>x. db' = db1\<lparr>db_policies := x\<rparr>)"
      unfolding remove_member_def Let_def db1_def [symmetric]
      by (simp add: res_bind_Inr_iff q_def [symmetric] split: if_splits) (auto simp: res_bind_Inr_iff split: if_splits)
    with log1 show ?thesis by auto
  qed
qed

lemma insert_invitation_row_log: "insert_invitation_row f i db = Inr (Some db') \<Longrightarrow> log_of db' = log_of db"
  by (auto simp: insert_invitation_row_def log_of_def split: if_splits)

lemma redeem_invite_link_log:
  assumes "redeem_invite_link n digest d now db = Inr (b, db')"
  shows "log_of db' = log_of db"
proof -
  define db1 where "db1 = db\<lparr>db_join_requests :=
      filter (\<lambda>j. \<not> (requested_network j = n \<and> requested_device j = d)) (db_join_requests db)\<rparr>"
  have log1: "log_of db1 = log_of db" by (simp add: db1_def log_of_def)
  define ins where "ins = insert_invitation_row True \<lparr>invited_network = n, invited_device = d, invited_at_ms = now\<rparr> db1"
  from assms have "db' = db \<or> (\<exists>x. ins = Inr x \<and> log_of db' = log_of (case x of None \<Rightarrow> db1 | Some y \<Rightarrow> y))"
    unfolding redeem_invite_link_def Let_def db1_def [symmetric] ins_def [symmetric]
    by (auto simp: res_bind_Inr_iff log_of_def split: if_splits)
  then show ?thesis using log1 insert_invitation_row_log by (auto simp: ins_def split: option.splits)
qed

lemma plain_steps_log:
  "record_device d t db = Inr (u, db') \<Longrightarrow> log_of db' = log_of db"
  "delete_network n db = Inr (b, db') \<Longrightarrow> log_of db' = log_of db"
  "remove_invitation n d db = Inr (b, db') \<Longrightarrow> log_of db' = log_of db"
  "remove_join_request n d db = Inr (b, db') \<Longrightarrow> log_of db' = log_of db"
  "issue_invite_link n digest t t' uses db = Inr (u, db') \<Longrightarrow> log_of db' = log_of db"
  "revoke_invite_links n db = Inr (u, db') \<Longrightarrow> log_of db' = log_of db"
  "issue_enrollment d digest t db = Inr (u, db') \<Longrightarrow> log_of db' = log_of db"
  "revoke_account_device d d' db = Inr (u, db') \<Longrightarrow> log_of db' = log_of db"
  by (auto simp: record_device_def delete_network_def cascade_network_def remove_invitation_def remove_join_request_def
      issue_invite_link_def revoke_invite_links_def issue_enrollment_def revoke_account_device_def
      res_bind_Inr_iff log_of_def Let_def split: if_splits)

lemma account_steps_log:
  "create_account a t db = Inr (u, db') \<Longrightarrow> log_of db' = log_of db"
  "set_network_password n pw db = Inr (u, db') \<Longrightarrow> log_of db' = log_of db"
  by (auto simp: create_account_def set_network_password_def res_bind_Inr_iff log_of_def split: if_splits option.splits)

lemma enroll_device_log: "enroll_device digest d label t db = Inr (b, db') \<Longrightarrow> log_of db' = log_of db"
  by (erule enroll_device_dest) (simp_all add: log_of_def)

lemma pending_steps_log:
  "add_invitation n d t db = Inr (b, db') \<Longrightarrow> log_of db' = log_of db"
  "add_join_request n d t db = Inr (b, db') \<Longrightarrow> log_of db' = log_of db"
  by (auto simp: add_invitation_def add_join_request_def insert_invitation_row_def insert_join_request_row_def
      res_bind_Inr_iff log_of_def simp del: has_row_iff split: if_splits option.splits)

lemmas steps_log = plain_steps_log account_steps_log enroll_device_log pending_steps_log redeem_invite_link_log
  remove_member_log create_network_log add_member_log

lemma audit_ok_log: "log_of db' = log_of db \<Longrightarrow> audit_ok db \<Longrightarrow> audit_ok db'"
  by (simp add: audit_ok_def log_of_def)

lemma save_network_policy_audit_ok:
  assumes "audit_ok db" and "save_network_policy n p expected audit db = Inr (b, db')"
  shows "audit_ok db'"
proof -
  have same: "audit_ok (db\<lparr>db_policies := x\<rparr>)" for x
    using assms(1) by (rule audit_ok_log [rotated]) (simp add: log_of_def)
  from assms(2) consider "db' = db" | x where "db' = db\<lparr>db_policies := x\<rparr>"
    | x e where "append_audit_locked e (db\<lparr>db_policies := x\<rparr>) = Inr db'"
    by (auto simp: save_network_policy_def res_bind_Inr_iff Let_def split: if_splits option.splits)
  then show ?thesis using assms(1) same append_audit_locked_audit_ok by cases auto
qed

lemma append_audit_audit_ok: "append_audit e db = Inr (u, db') \<Longrightarrow> audit_ok db \<Longrightarrow> audit_ok db'"
  by (auto simp: append_audit_def res_bind_Inr_iff intro: append_audit_locked_audit_ok)

lemma store_step_audit_ok:
  assumes "store_step db db'" and "audit_ok db"
  shows "audit_ok db'"
  using assms by cases (auto intro: audit_ok_log dest: steps_log append_audit_audit_ok save_network_policy_audit_ok)

lemma empty_store_audit_ok: "audit_ok empty_store"
  by (simp add: audit_ok_def empty_store_def)

lemma reachable_store_ok: "store_reachable db \<Longrightarrow> store_ok db"
  by (induction rule: store_reachable.induct) (blast intro: empty_store_ok store_step_ok)+

lemma reachable_audit_ok: "store_reachable db \<Longrightarrow> audit_ok db"
  by (induction rule: store_reachable.induct) (blast intro: empty_store_audit_ok store_step_audit_ok)+

text \<open>
  C2.
  Every store that the methods of \<open>RelayStore\<close> can produce from an empty database is intact: keys are
  unique and foreign keys resolve; each network has one owner, who is a member, and one /24 of the
  pool; each member has exactly one lease, unique in the relay and inside its network's subnet;
  invitations and join requests exclude each other and membership; each stored policy is the
  encoding of a valid policy; an account's owner is enrolled and not revoked; and the audit log
  keeps its bounds.
\<close>

theorem reachable_store_intact:
  assumes "store_reachable db"
  shows "store_ok db \<and> audit_ok db"
  using reachable_store_ok [OF assms] reachable_audit_ok [OF assms] by simp

definition demo_device :: "byte \<Rightarrow> DeviceId" where
  "demo_device k = k # replicate 31 0"

definition demo_network :: NetworkRecord where
  "demo_network = \<lparr>network_id = 1 # replicate 15 0, network_name = [0x6c, 0x61, 0x6e],
     owner_device_id = demo_device 1, created_at_ms = 5\<rparr>"

definition demo_db :: RelayStore where
  "demo_db = empty_store\<lparr>db_devices := [\<lparr>device_id = demo_device 1, first_seen_at_ms = 3, last_seen_at_ms = 3\<rparr>],
     db_networks := [demo_network],
     db_memberships := [\<lparr>member_network = network_id demo_network, member_id = demo_device 1, membership_role = MR_owner, joined_at_ms = 5\<rparr>],
     db_subnets := [\<lparr>subnet_network = network_id demo_network, subnet_address = 0x0a400000, subnet_prefix = 24\<rparr>],
     db_leases := [\<lparr>lease_network = network_id demo_network, lease_device = demo_device 1, lease_address = 0x0a400001\<rparr>]\<rparr>"

lemma demo_db_reachable: "store_reachable demo_db"
proof -
  define db1 where "db1 = empty_store\<lparr>db_devices := [\<lparr>device_id = demo_device 1, first_seen_at_ms = 3, last_seen_at_ms = 3\<rparr>]\<rparr>"
  have "record_device (demo_device 1) 3 empty_store = Inr ((), db1)"
    by (simp add: record_device_def db1_def empty_store_def demo_device_def require_device_id_def require_timestamp_def is_zero_def)
  then have "store_reachable db1" by (blast intro: reach_empty reach_step step_record_device)
  moreover have "create_network demo_network None db1 = Inr ((), demo_db)"
    unfolding db1_def demo_db_def by code_simp
  ultimately show ?thesis by (blast intro: reach_step step_create_network)
qed

theorem reachable_store_intact_witness: "store_ok demo_db \<and> audit_ok demo_db"
  by (rule reachable_store_intact [OF demo_db_reachable])

end
