(* ===== verification/Address_Pool.thy ===== *)
theory Address_Pool
  imports Store_Steps
begin

text \<open>
  The allocator of virtual addresses (\<open>insert_subnet\<close>, \<open>insert_lease\<close>): the loop over the occupied
  addresses finds the lowest free one, and on an intact store the row it inserts is always accepted.
\<close>

section \<open>The search loop\<close>

lemma first_free_spec:
  assumes "sorted xs" and "\<forall>x\<in>set xs. 0x0a400000 \<le> x \<and> x < 0x0a800000"
    and "unat c \<le> 0x0a800000 + 256" and "0 < unat step" "unat step \<le> 256"
  shows "\<exists>k r. first_free step c xs = Inr r \<and> unat r = unat c + k * unat step \<and> r \<notin> set xs \<and>
    (\<forall>i<k. \<exists>x\<in>set xs. unat x = unat c + i * unat step)"
  using assms
proof (induction xs arbitrary: c)
  case Nil
  then show ?case by (intro exI [of _ 0] exI [of _ c]) simp
next
  case (Cons a xs)
  have pool: "read_virtual_address a = Inr a"
    using Cons.prems(2) by (auto simp: read_virtual_address_def pool_defs)
  consider "a > c" | "a = c" | "a < c" by (rule linorder_cases)
  then show ?case
  proof cases
    case 1
    then have "c \<notin> set (a # xs)" using Cons.prems(1) by (auto simp: not_le [symmetric])
    with 1 pool show ?thesis by (intro exI [of _ 0] exI [of _ c]) simp
  next
    case 2
    have "unat a < 0x0a800000" using Cons.prems(2) by (simp add: word_less_nat_alt)
    then have next_c: "unat (c + step) = unat c + unat step"
      using 2 Cons.prems(5) by (subst unat_plus_if') simp
    moreover have "unat (c + step) \<le> 0x0a800000 + 256"
      using next_c 2 Cons.prems(5) \<open>unat a < 0x0a800000\<close> by simp
    ultimately obtain k r where k: "first_free step (c + step) xs = Inr r" "unat r = unat c + unat step + k * unat step"
      "r \<notin> set xs" "\<forall>i<k. \<exists>x\<in>set xs. unat x = unat c + unat step + i * unat step"
      using Cons.IH [of "c + step"] Cons.prems by auto
    have "r \<noteq> a" using k(2) 2 Cons.prems(4) by auto
    moreover have "\<exists>x\<in>set (a # xs). unat x = unat c + i * unat step" if "i < Suc k" for i
      using that k(4) 2 by (cases i) (auto simp: add.assoc)
    ultimately show ?thesis
      using 2 pool k by (intro exI [of _ "Suc k"] exI [of _ r]) (simp add: add.assoc)
  next
    case 3
    obtain k r where k: "first_free step c xs = Inr r" "unat r = unat c + k * unat step"
      "r \<notin> set xs" "\<forall>i<k. \<exists>x\<in>set xs. unat x = unat c + i * unat step"
      using Cons.IH [of c] Cons.prems by auto
    have "r \<noteq> a" using k(2) 3 by (auto simp: word_less_nat_alt)
    with 3 pool k show ?thesis by (intro exI [of _ k] exI [of _ r]) auto
  qed
qed

section \<open>Leases\<close>

text \<open>Host \<open>h\<close> of the subnet at \<open>base\<close> is leased in network \<open>n\<close>.\<close>

definition host_taken :: "RelayStore \<Rightarrow> NetworkId \<Rightarrow> 32 word \<Rightarrow> nat \<Rightarrow> bool" where
  "host_taken db n base h \<longleftrightarrow> (\<exists>l\<in>set (db_leases db). lease_network l = n \<and> unat (lease_address l) = unat base + h)"

lemma host_arith:
  fixes base a :: "32 word"
  assumes "0x0a400000 \<le> base" "base < 0x0a800000" "base mod 256 = 0" and a: "unat a = unat base + h" and "h \<le> 255"
  shows "a mod 256 = word_of_nat h" "a - a mod 256 = base" "0x0a400000 \<le> a" "a < 0x0a800000"
    "a = base + word_of_nat h"
proof -
  have "unat base mod 256 = 0" using unat_mod [of base 256] assms(3) by simp
  then obtain q where q: "unat base = 256 * q" by fastforce
  have b: "0x0a400000 \<le> unat base" "unat base < 0x0a800000"
    using assms(1,2) by (simp_all add: word_le_nat_alt word_less_nat_alt)
  have m: "unat a mod 256 = h" using a assms(5) by (simp add: q)
  have "q \<le> 0xa7fff" using b q by simp
  then have hi: "unat base + h < 0x0a800000" using q assms(5) by simp
  have h: "unat (word_of_nat h :: 32 word) = h" using assms(5) by (simp add: unat_of_nat take_bit_nat_eq_self)
  show "a mod 256 = word_of_nat h" by (simp only: word_unat_eq_iff) (simp add: unat_mod m h)
  then show "a - a mod 256 = base"
    by (simp only: word_unat_eq_iff) (simp add: unat_sub h a word_le_nat_alt)
  show "0x0a400000 \<le> a" "a < 0x0a800000" using a b hi by (simp_all add: word_le_nat_alt word_less_nat_alt)
  show "a = base + word_of_nat h"
    by (simp only: word_unat_eq_iff) (use a hi h in \<open>simp add: unat_plus_if'\<close>)
qed


lemma network_subnet:
  assumes "store_ok db" and "s \<in> set (db_subnets db)"
  shows "find (\<lambda>r. subnet_network r = subnet_network s) (db_subnets db) = Some s"
  using assms by (intro find_unique_key) (simp_all add: store_ok_def addresses_ok_def)

text \<open>What \<open>insert_lease\<close> finds: the lowest host without a lease.\<close>

lemma lease_search:
  assumes ok: "store_ok db" and s: "s \<in> set (db_subnets db)" "subnet_network s = n"
  obtains h where "h \<ge> 1" "\<forall>i. 1 \<le> i \<and> i < h \<longrightarrow> host_taken db n (subnet_address s) i"
    "\<not> host_taken db n (subnet_address s) h"
    "h \<le> 254 \<longrightarrow> first_free 1 (subnet_address s + 1)
       (sort (map lease_address (filter (\<lambda>l. lease_network l = n) (db_leases db)))) = Inr (subnet_address s + word_of_nat h)"
    "h > 254 \<longrightarrow> (\<exists>r. first_free 1 (subnet_address s + 1)
       (sort (map lease_address (filter (\<lambda>l. lease_network l = n) (db_leases db)))) = Inr r \<and> unat r \<ge> unat (subnet_address s) + 255)"
proof -
  let ?xs = "sort (map lease_address (filter (\<lambda>l. lease_network l = n) (db_leases db)))"
  let ?b = "subnet_address s"
  have base: "0x0a400000 \<le> ?b" "?b < 0x0a800000" "?b mod 256 = 0"
    using ok s by (simp_all add: store_ok_def addresses_ok_def)
  have small: "unat ?b < 0x0a800000" using base(2) by (simp add: word_less_nat_alt)
  then have one: "unat (?b + 1) = unat ?b + 1" by (simp add: unat_plus_if')
  have "\<exists>k r. first_free 1 (?b + 1) ?xs = Inr r \<and> unat r = unat (?b + 1) + k * unat (1 :: 32 word) \<and> r \<notin> set ?xs \<and>
    (\<forall>i<k. \<exists>x\<in>set ?xs. unat x = unat (?b + 1) + i * unat (1 :: 32 word))"
    by (rule first_free_spec) (use ok small one in \<open>auto simp: store_ok_def addresses_ok_def\<close>)
  then obtain k r where r: "first_free 1 (?b + 1) ?xs = Inr r" "unat r = unat ?b + Suc k" "r \<notin> set ?xs"
    and below: "\<forall>i<k. \<exists>x\<in>set ?xs. unat x = unat ?b + Suc i"
    by (auto simp: one)
  show thesis
  proof (rule that [of "Suc k"])
    show "\<forall>i. 1 \<le> i \<and> i < Suc k \<longrightarrow> host_taken db n ?b i"
    proof (intro allI impI)
      fix i assume "1 \<le> i \<and> i < Suc k"
      then obtain j where "i = Suc j" "j < k" by (cases i) auto
      with below show "host_taken db n ?b i" by (auto simp: host_taken_def)
    qed
    show "\<not> host_taken db n ?b (Suc k)"
    proof
      assume "host_taken db n ?b (Suc k)"
      then obtain l where l: "l \<in> set (db_leases db)" "lease_network l = n" "unat (lease_address l) = unat r"
        by (auto simp: host_taken_def r(2))
      then have "lease_address l = r" by (simp only: word_unat_eq_iff)
      with l(1,2) r(3) show False by auto
    qed
    show "Suc k \<le> 254 \<longrightarrow> first_free 1 (?b + 1) ?xs = Inr (?b + word_of_nat (Suc k))"
      using host_arith(5) [OF base r(2)] r(1) by simp
    show "Suc k > 254 \<longrightarrow> (\<exists>r. first_free 1 (?b + 1) ?xs = Inr r \<and> unat r \<ge> unat ?b + 255)"
      using r by auto
  qed simp
qed

text \<open>A free host of the network's own subnet is free in the whole relay, so the row is accepted.\<close>

lemma free_host_accepted:
  assumes ok: "store_ok db" and s: "s \<in> set (db_subnets db)" "subnet_network s = n"
    and new: "(n, d) \<notin> set (member_keys db)"
    and h: "1 \<le> h" "h \<le> 254" "\<not> host_taken db n (subnet_address s) h"
  shows "insert_lease_row \<lparr>lease_network = n, lease_device = d, lease_address = subnet_address s + word_of_nat h\<rparr>
      (clear_pending n d (db\<lparr>db_memberships := db_memberships db @ [\<lparr>member_network = n, member_id = d,
         membership_role = r, joined_at_ms = t\<rparr>]\<rparr>)) =
    Inr (with_member \<lparr>member_network = n, member_id = d, membership_role = r, joined_at_ms = t\<rparr>
      (subnet_address s + word_of_nat h) db)"
proof -
  let ?a = "subnet_address s + word_of_nat h"
  have addresses: "addresses_ok db" using ok by (simp add: store_ok_def)
  then have base: "0x0a400000 \<le> subnet_address s" "subnet_address s < 0x0a800000" "subnet_address s mod 256 = 0"
    using s by (simp_all add: addresses_ok_def)
  have small: "unat (subnet_address s) < 0x0a800000" using base(2) by (simp add: word_less_nat_alt)
  have hh: "unat (word_of_nat h :: 32 word) = h" using h(2) by (simp add: unat_of_nat take_bit_nat_eq_self)
  have a: "unat ?a = unat (subnet_address s) + h" using small h(2) hh by (simp add: unat_plus_if')
  note arith = host_arith [OF base a]
  have host: "?a mod 256 \<noteq> 0" "?a mod 256 \<le> 254" "?a - ?a mod 256 = subnet_address s"
      "0x0a400000 \<le> ?a" "?a < 0x0a800000"
    using arith h hh by (simp_all add: word_unat_eq_iff word_le_nat_alt)
  have free: "lease_address l \<noteq> ?a" if l: "l \<in> set (db_leases db)" for l
  proof
    assume eq: "lease_address l = ?a"
    from addresses l obtain s' where s': "s' \<in> set (db_subnets db)" "subnet_network s' = lease_network l"
      "subnet_address s' = lease_address l - lease_address l mod 256" by (auto simp: addresses_ok_def)
    have "inj_on subnet_address (set (db_subnets db))" using addresses by (simp add: addresses_ok_def distinct_map)
    from inj_onD [OF this, of s' s] have "s' = s" using s' s eq host(3) by simp
    with l eq a s s'(2) h(3) show False by (auto simp: host_taken_def)
  qed
  have fresh: "\<not> (lease_network l = n \<and> lease_device l = d)" if "l \<in> set (db_leases db)" for l
  proof -
    have "(n, d) \<notin> set (lease_keys db)" using addresses new by (simp add: addresses_ok_def)
    with that show ?thesis by force
  qed
  have "insert_lease_row \<lparr>lease_network = n, lease_device = d, lease_address = ?a\<rparr> db2 =
      Inr (db2\<lparr>db_leases := db_leases db2 @ [\<lparr>lease_network = n, lease_device = d, lease_address = ?a\<rparr>]\<rparr>)"
    if "db_subnets db2 = db_subnets db" "db_leases db2 = db_leases db" "(n, d) \<in> set (member_keys db2)" for db2
  proof -
    have "list_ex (\<lambda>s. subnet_network s = n \<and> subnet_address s = ?a - ?a mod 256) (db_subnets db2)"
      using that(1) s host(3) by (auto simp: list_ex_iff)
    moreover have "\<not> list_ex (\<lambda>r. (lease_network r = n \<and> lease_device r = d) \<or> lease_address r = ?a) (db_leases db2)"
      using that(2) free fresh by (auto simp: list_ex_iff)
    ultimately show ?thesis
      using that(3) host unfolding insert_lease_row_def by (simp add: not_less not_le)
  qed
  then show ?thesis by (simp add: clear_pending_def with_member_def)
qed

lemma insert_lease_first_fit:
  assumes ok: "store_ok db" and s: "s \<in> set (db_subnets db)" "subnet_network s = n"
    and new: "(n, d) \<notin> set (member_keys db)"
  shows "insert_lease n d (clear_pending n d (db\<lparr>db_memberships := db_memberships db @ [\<lparr>member_network = n, member_id = d,
         membership_role = r, joined_at_ms = t\<rparr>]\<rparr>)) =
    (if \<forall>h\<in>{1..254}. host_taken db n (subnet_address s) h
     then Inl (Length_error ''virtual IPv4 subnet has no available host addresses'')
     else Inr (with_member \<lparr>member_network = n, member_id = d, membership_role = r, joined_at_ms = t\<rparr>
       (subnet_address s + word_of_nat (LEAST h. 1 \<le> h \<and> \<not> host_taken db n (subnet_address s) h)) db))"
  (is "insert_lease n d ?db1 = _")
proof -
  let ?b = "subnet_address s"
  have base: "0x0a400000 \<le> ?b" "?b < 0x0a800000"
    using ok s by (simp_all add: store_ok_def addresses_ok_def)
  have small: "unat ?b < 0x0a800000" using base(2) by (simp add: word_less_nat_alt)
  have limit: "unat (?b + 255) = unat ?b + 255" using small by (simp add: unat_plus_if')
  have same: "db_subnets ?db1 = db_subnets db" "db_leases ?db1 = db_leases db" by (simp_all add: clear_pending_def)
  have found: "find (\<lambda>r. subnet_network r = n) (db_subnets db) = Some s" using network_subnet [OF ok s(1)] s(2) by simp
  have read: "read_virtual_address ?b = Inr ?b" using base by (simp add: read_virtual_address_def pool_defs not_less not_le)
  obtain h where h: "h \<ge> 1" "\<forall>i. 1 \<le> i \<and> i < h \<longrightarrow> host_taken db n ?b i" "\<not> host_taken db n ?b h"
    and le: "h \<le> 254 \<longrightarrow> first_free 1 (?b + 1)
       (sort (map lease_address (filter (\<lambda>l. lease_network l = n) (db_leases db)))) = Inr (?b + word_of_nat h)"
    and gt: "h > 254 \<longrightarrow> (\<exists>r. first_free 1 (?b + 1)
       (sort (map lease_address (filter (\<lambda>l. lease_network l = n) (db_leases db)))) = Inr r \<and> unat r \<ge> unat ?b + 255)"
    by (rule lease_search [OF ok s])
  have least: "(LEAST h. 1 \<le> h \<and> \<not> host_taken db n ?b h) = h"
    using h by (intro Least_equality) (auto simp: not_less [symmetric])
  show ?thesis
  proof (cases "h \<le> 254")
    case True
    then have "\<not> (\<forall>h\<in>{1..254}. host_taken db n ?b h)" using h by auto
    moreover have "unat (?b + word_of_nat h) = unat ?b + h"
      using True small by (simp add: unat_plus_if' unat_of_nat take_bit_nat_eq_self)
    then have "\<not> ?b + word_of_nat h \<ge> ?b + virtual_ipv4_subnet_size - 1"
      using True limit by (simp add: pool_defs word_le_nat_alt add.commute)
    ultimately show ?thesis
      using found read le True free_host_accepted [OF ok s new h(1) True h(3)]
      by (simp add: insert_lease_def same least [unfolded One_nat_def])
  next
    case False
    then obtain r where r: "first_free 1 (?b + 1)
       (sort (map lease_address (filter (\<lambda>l. lease_network l = n) (db_leases db)))) = Inr r" "unat r \<ge> unat ?b + 255"
      using gt by auto
    then have "r \<ge> ?b + virtual_ipv4_subnet_size - 1" using limit by (simp add: pool_defs word_le_nat_alt add.commute)
    moreover have "\<forall>h\<in>{1..254}. host_taken db n ?b h" using h(2) False by auto
    ultimately show ?thesis using found read r(1) by (simp add: insert_lease_def same)
  qed
qed

text \<open>
  C11.
  Admission to a network of an intact store: for a known device that is no member, \<open>add_member\<close>
  succeeds with the lowest host address 1..254 of the network's subnet that has no lease, clears the
  device's invitation and join request, and changes nothing else; it fails, with
  \<open>length_error\<close>, exactly when all 254 hosts are leased.
\<close>

theorem add_member_first_fit:
  assumes "store_ok db" and "s \<in> set (db_subnets db)" and "subnet_network s = n"
    and "\<not> is_zero n" and "\<not> is_zero d" and "0 \<le> t" and "d \<in> device_ids db" and "\<not> is_member db n d"
  shows "add_member n d t db =
    (if \<forall>h\<in>{1..254}. host_taken db n (subnet_address s) h
     then Inl (Length_error ''virtual IPv4 subnet has no available host addresses'')
     else Inr (True, with_member \<lparr>member_network = n, member_id = d, membership_role = MR_member, joined_at_ms = t\<rparr>
       (subnet_address s + word_of_nat (LEAST h. 1 \<le> h \<and> \<not> host_taken db n (subnet_address s) h)) db))"
proof -
  let ?m = "\<lparr>member_network = n, member_id = d, membership_role = MR_member, joined_at_ms = t\<rparr>"
  have n: "has_network db n" using assms(1-3) by (auto simp: store_ok_def addresses_ok_def)
  have d: "has_device db d" using assms(7) by simp
  have "insert_membership_row ?m db = Inr (Some (clear_pending n d (db\<lparr>db_memberships := db_memberships db @ [?m]\<rparr>)))"
    using n d assms(6,8) by (simp add: insert_membership_row_def del: has_row_iff)
  moreover have "(n, d) \<notin> set (member_keys db)" using assms(8) unfolding has_row_iff .
  ultimately show ?thesis
    using insert_lease_first_fit [OF assms(1-3), of d MR_member t] assms(4-6)
    by (simp add: add_member_def require_network_id_def require_device_id_def require_timestamp_def)
qed

text \<open>A second member of the demonstration network gets host 2.\<close>

theorem add_member_first_fit_witness:
  "\<exists>db. add_member (network_id demo_network) (demo_device 2) 9
      (demo_db\<lparr>db_devices := upsert_device (demo_device 2) 8 (db_devices demo_db)\<rparr>) = Inr (True, db) \<and>
    map lease_address (db_leases db) = [0x0a400001, 0x0a400002]"
proof -
  let ?db = "demo_db\<lparr>db_devices := upsert_device (demo_device 2) 8 (db_devices demo_db)\<rparr>"
  let ?s = "\<lparr>subnet_network = network_id demo_network, subnet_address = 0x0a400000, subnet_prefix = 24\<rparr>"
  have "record_device (demo_device 2) 8 demo_db = Inr ((), ?db)"
    by (simp add: record_device_def require_device_id_def require_timestamp_def is_zero_def demo_device_def)
  then have ok: "store_ok ?db" using record_device_ok demo_db_reachable reachable_store_ok by blast
  have taken: "host_taken ?db (network_id demo_network) (subnet_address ?s) h \<longleftrightarrow> h = 1" for h
    by (auto simp: host_taken_def demo_db_def)
  then have least: "(LEAST h. 1 \<le> h \<and> \<not> host_taken ?db (network_id demo_network) (subnet_address ?s) h) = 2"
    by (intro Least_equality) auto
  have "\<not> (\<forall>h\<in>{1..254}. host_taken ?db (network_id demo_network) (subnet_address ?s) h)"
    unfolding taken by (intro notI) (drule bspec [of _ _ 2], simp_all)
  moreover have "\<not> is_member ?db (network_id demo_network) (demo_device 2)"
    by (simp add: demo_db_def demo_device_def)
  ultimately have "add_member (network_id demo_network) (demo_device 2) 9 ?db =
      Inr (True, with_member \<lparr>member_network = network_id demo_network, member_id = demo_device 2,
        membership_role = MR_member, joined_at_ms = 9\<rparr> (subnet_address ?s + word_of_nat 2) ?db)"
    using add_member_first_fit [OF ok, of ?s "network_id demo_network" "demo_device 2" 9] least [unfolded One_nat_def]
    by (simp add: demo_db_def demo_network_def demo_device_def is_zero_def)
  then show ?thesis by (simp add: demo_db_def)
qed

end
