(* ===== verification/Store_Contract.thy ===== *)
theory Store_Contract
  imports Address_Pool
begin

text \<open>
  What the relay service relies on: policy documents as a register with optimistic concurrency
  (locale \<open>versioned_register\<close>, interpreted on \<open>network_policy\<close> and \<open>save_network_policy\<close>), and
  what removing a member leaves behind.
\<close>

section \<open>Versioned registers\<close>

locale versioned_register =
  fixes invar :: "'s \<Rightarrow> bool"
    and current :: "'s \<Rightarrow> 'v"
    and version :: "'v \<Rightarrow> nat"
    and accepts :: "'v \<Rightarrow> bool"
    and save :: "'v \<Rightarrow> nat \<Rightarrow> 's \<Rightarrow> (bool \<times> 's) option"
  assumes saved: "invar s \<Longrightarrow> accepts v \<Longrightarrow> save v e s = Some (True, s') \<Longrightarrow>
      current s' = v \<and> invar s' \<and> version (current s) = e \<and> version v = Suc e"
    and stale: "invar s \<Longrightarrow> accepts v \<Longrightarrow> save v e s = Some (False, s') \<Longrightarrow> s' = s \<and> version (current s) \<noteq> e"
begin

text \<open>Of two writers that read the same version, the second is told to retry.\<close>

lemma no_lost_update:
  assumes "invar s" "accepts v" "accepts w" and "save v e s = Some (True, s1)" and "save w e s1 = Some (b, s2)"
  shows "\<not> b \<and> s2 = s1"
proof -
  have "invar s1" "version (current s1) = Suc e" using saved assms(1,2,4) by auto
  then show ?thesis using saved [of s1 w e s2] stale [of s1 w e s2] assms(3,5) by (cases b) auto
qed

lemma save_version:
  assumes "invar s" "accepts v" and "save v e s = Some (b, s')"
  shows "invar s' \<and> version (current s') = version (current s) + (if b then 1 else 0)"
  using saved [OF assms(1,2)] stale [OF assms(1,2)] assms by (cases b) force+

fun saves :: "('v \<times> nat) list \<Rightarrow> 's \<Rightarrow> (nat \<times> 's) option" where
  "saves [] s = Some (0, s)"
| "saves ((v, e) # rest) s = (case save v e s of None \<Rightarrow> None | Some (b, s1) \<Rightarrow>
     (case saves rest s1 of None \<Rightarrow> None | Some (k, s2) \<Rightarrow> Some ((if b then Suc k else k), s2)))"

text \<open>The version counts the accepted writes.\<close>

lemma saves_version:
  assumes "invar s" and "\<forall>x\<in>set ws. accepts (fst x)" and "saves ws s = Some (k, s')"
  shows "invar s' \<and> version (current s') = version (current s) + k"
  using assms
proof (induction ws arbitrary: s k)
  case (Cons x ws)
  obtain v e where x: "x = (v, e)" by force
  from Cons.prems(3) x obtain b s1 j where run: "save v e s = Some (b, s1)" "saves ws s1 = Some (j, s')"
    "k = (if b then Suc j else j)"
    by (auto split: option.splits prod.splits)
  have "invar s1 \<and> version (current s1) = version (current s) + (if b then 1 else 0)"
    using save_version run(1) Cons.prems x by auto
  moreover from this have "invar s' \<and> version (current s') = version (current s1) + j"
    using Cons.IH run(2) Cons.prems(2) by auto
  ultimately show ?case using run(3) by auto
qed simp

end

section \<open>Policy documents\<close>

lemma find_upsert_row:
  "find (\<lambda>r. fst r = k) (upsert_row n v rows) = (if k = n then Some (n, v) else find (\<lambda>r. fst r = k) rows)"
  by (induction rows) auto

lemma stored_layout_nonempty: "policy_layout p \<noteq> []"
  by (simp add: policy_layout_def)

lemma read_policy_stored:
  assumes "policy_typed p" and "encode_network_policy p = Inr doc"
    and "find (\<lambda>r. fst r = n) (db_policies db) = Some (n, doc)"
  shows "read_policy n db = Inr p"
proof -
  have "doc = policy_layout p" "length doc \<le> 29486"
    using assms(1,2) policy_layout_length [of p] by (auto simp: encode_network_policy_Inr_iff)
  moreover have "decode_network_policy doc = Inr p" using assms(1,2) policy_codec.enc_dec by blast
  ultimately show ?thesis using assms(3) stored_layout_nonempty [of p] by (simp add: read_policy_def)
qed

lemma append_audit_locked_policies: "append_audit_locked e db = Inr db' \<Longrightarrow> db_policies db' = db_policies db"
  by (auto simp: append_audit_locked_def res_bind_Inr_iff Let_def split: if_splits)

lemma save_network_policy_dest:
  assumes typed: "policy_typed p" and run: "save_network_policy n p expected audit db = Inr (b, db')"
    and read: "read_policy n db = Inr stored"
  shows "expected \<noteq> uint64_max \<and> revision p = expected + 1 \<and> b = (revision stored = expected) \<and>
    (if b then read_policy n db' = Inr p \<and> (\<forall>k. k \<noteq> n \<longrightarrow> read_policy k db' = read_policy k db) else db' = db)"
proof -
  from run obtain doc where doc: "encode_network_policy p = Inr doc"
    by (auto simp: save_network_policy_def res_bind_Inr_iff)
  let ?db1 = "db\<lparr>db_policies := upsert_row n doc (db_policies db)\<rparr>"
  from run read doc have guards: "expected \<noteq> uint64_max" "revision p = expected + 1" "b = (revision stored = expected)"
    "\<not> b \<longrightarrow> db' = db" "b \<longrightarrow> db' = ?db1 \<or> (\<exists>e. append_audit_locked e ?db1 = Inr db')"
    by (auto simp: save_network_policy_def res_bind_Inr_iff Let_def split: if_splits option.splits)
  have "read_policy n db' = Inr p" "\<forall>k. k \<noteq> n \<longrightarrow> read_policy k db' = read_policy k db" if b
  proof -
    have p: "db_policies db' = upsert_row n doc (db_policies db)"
      using guards(5) that append_audit_locked_policies by force
    show "read_policy n db' = Inr p"
      using typed doc by (rule read_policy_stored) (simp add: p find_upsert_row)
    show "\<forall>k. k \<noteq> n \<longrightarrow> read_policy k db' = read_policy k db"
      by (simp add: read_policy_def p find_upsert_row)
  qed
  with guards show ?thesis by auto
qed

text \<open>The stored policy, and the save as a partial function: \<open>None\<close> is an exception.\<close>

definition current_policy :: "NetworkId \<Rightarrow> RelayStore \<Rightarrow> NetworkPolicy" where
  "current_policy n db = (case read_policy n db of Inl _ \<Rightarrow> default_policy | Inr p \<Rightarrow> p)"

definition try_save :: "NetworkId \<Rightarrow> NetworkPolicy \<Rightarrow> nat \<Rightarrow> RelayStore \<Rightarrow> (bool \<times> RelayStore) option" where
  "try_save n p e db = (if e < 2 ^ 64 then
     (case save_network_policy n p (word_of_nat e) None db of Inl _ \<Rightarrow> None | Inr r \<Rightarrow> Some r) else None)"

interpretation policy_register: versioned_register store_ok "current_policy n" "\<lambda>p. unat (revision p)" policy_typed "try_save n"
  for n
proof unfold_locales
  fix db db' v e
  assume ok: "store_ok db" and typed: "policy_typed v"
  from ok read_policy_readable obtain stored where read: "read_policy n db = Inr stored"
    by (meson store_ok_def)
  then have cur: "current_policy n db = stored" by (simp add: current_policy_def)
  {
    fix b assume run: "try_save n v e db = Some (b, db')"
    then have e: "e < 2 ^ 64" and save: "save_network_policy n v (word_of_nat e) None db = Inr (b, db')"
      by (auto simp: try_save_def split: if_splits sum.splits)
    then have u: "unat (word_of_nat e :: 64 word) = e" by (simp add: unat_of_nat take_bit_nat_eq_self)
    note save_network_policy_dest [OF typed save read] save_network_policy_ok [OF ok typed save] u e
  } note facts = this
  {
    assume run: "try_save n v e db = Some (True, db')"
    from facts(1) [OF run] have a: "word_of_nat e \<noteq> uint64_max" "revision v = word_of_nat e + 1"
        "revision stored = word_of_nat e" "read_policy n db' = Inr v" by auto
    have "unat (revision v) = Suc e"
      using a(1,2) facts(3,4) [OF run] by (auto simp: unat_plus_if' uint64_max_def word_unat_eq_iff split: if_splits)
    with a facts(2,3) [OF run] cur
    show "current_policy n db' = v \<and> store_ok db' \<and> unat (revision (current_policy n db)) = e \<and> unat (revision v) = Suc e"
      by (simp add: current_policy_def)
  next
    assume run: "try_save n v e db = Some (False, db')"
    from facts(1,3) [OF run] cur show "db' = db \<and> unat (revision (current_policy n db)) \<noteq> e"
      by (auto simp: word_unat_eq_iff)
  }
qed

lemma save_network_policy_runs:
  assumes "store_ok db" and "n \<in> network_ids db" and "policy_typed p" and "encode_network_policy p = Inr doc"
    and "revision p = e + 1" and "e \<noteq> uint64_max" and "read_policy n db = Inr stored"
  shows "save_network_policy n p e None db =
    (if revision stored = e then Inr (True, db\<lparr>db_policies := upsert_row n doc (db_policies db)\<rparr>) else Inr (False, db))"
proof -
  have "doc = policy_layout p" "length doc \<le> 29486"
    using assms(3,4) policy_layout_length [of p] by (auto simp: encode_network_policy_Inr_iff)
  then show ?thesis
    using assms stored_layout_nonempty [of p] by (simp add: save_network_policy_def Suc_le_eq)
qed



section \<open>Leaving a network\<close>

text \<open>A policy document no longer names a device, except as a restricted member.\<close>

definition policy_forgets :: "DeviceId \<Rightarrow> NetworkPolicy \<Rightarrow> bool" where
  "policy_forgets d p \<longleftrightarrow> d \<notin> set (hubs p) \<and> (\<forall>m\<in>set (members p). member_device m = d \<longrightarrow> member_role m = Role_restricted) \<and>
     (\<forall>g\<in>set (gateways p). gateway_device g \<noteq> d) \<and> (\<forall>r\<in>set (routes p). route_gateway r \<noteq> d) \<and>
     (\<forall>r\<in>set (rules p). subject_device (rule_first r) \<noteq> d \<and> subject_device (rule_second r) \<noteq> d)"

lemma scrub_policy_forgets [simp]: "policy_forgets d (scrub_policy d p)"
  by (auto simp: policy_forgets_def scrub_policy_def)

lemma policy_forgets_revision [simp]: "policy_forgets d (p\<lparr>revision := r\<rparr>) = policy_forgets d p"
  by (simp add: policy_forgets_def)

lemma find_with_policy:
  "find (\<lambda>r. fst r = n) (db_policies (with_policy n doc db)) =
   map_option (\<lambda>_. (n, doc)) (find (\<lambda>r. fst r = n) (db_policies db))"
proof -
  have "find (\<lambda>r. fst r = n) (map (\<lambda>r. if fst r = n then (n, doc) else r) rows) =
      map_option (\<lambda>_. (n, doc)) (find (\<lambda>r. fst r = n) rows)" for rows
    by (induction rows) auto
  then show ?thesis by (simp add: with_policy_def)
qed

lemma delete_membership_members:
  assumes "store_ok db" and "m \<in> set (db_memberships db)" "member_network m = n" "member_id m = d" "membership_role m = MR_member"
  shows "is_member (delete_membership n d db) k x \<longleftrightarrow> is_member db k x \<and> (k, x) \<noteq> (n, d)"
proof -
  have "inj_on (\<lambda>m. (member_network m, member_id m)) (set (db_memberships db))"
    using assms(1) by (simp add: store_ok_def networks_ok_def distinct_map)
  from inj_onD [OF this, of _ m] have "m' = m" if "m' \<in> set (db_memberships db)" "member_network m' = n" "member_id m' = d" for m'
    using that assms by simp
  then show ?thesis using assms(5) by (auto simp: is_member_def delete_membership_def list_ex_iff simp del: has_row_iff)
qed

lemma default_policy_scrub [simp]: "scrub_policy d default_policy = default_policy"
  by (simp add: scrub_policy_def default_policy_def)

lemma scrubbed_policy_stored:
  assumes "read_policy n db = Inr p" and "scrub_policy d p \<noteq> p"
  shows "\<exists>r. find (\<lambda>r. fst r = n) (db_policies db) = Some r"
  using assms by (auto simp: read_policy_def split: option.splits)

lemma read_policy_delete_membership [simp]: "read_policy n (delete_membership k d db) = read_policy n db"
  by (simp add: read_policy_def delete_membership_def)

lemma delete_membership_no_lease:
  "l \<in> set (db_leases (delete_membership n d db)) \<Longrightarrow> \<not> (lease_network l = n \<and> lease_device l = d)"
  by (simp add: delete_membership_def)



end
