(* ===== verification/Service_State.thy ===== *)
theory Service_State
  imports Forwarding_Quota Auth_Identity Ipv4_Fanout Packet_Messages Store_Contract
begin

text \<open>
  The state of \<open>relay::NetworkService\<close> (\<open>relay/network_service.hpp/.cpp\<close>) and what its methods
  share. A method is a function from the state to a result and a new state: an exception is a
  result too, and the state keeps what was done before it was thrown. Every method holds the mutex
  from its first access to the state to its end, so methods are atomic. A \<open>std::map\<close> is an
  association list with distinct keys. Outside the program are the steady clock, the generator of
  network ids and OpenSSL: the record \<open>Environment\<close>, whose functions are indexed by how often they
  have been called.
\<close>

section \<open>Outcomes\<close>

record RoutedNetworkEvent =
  event_recipient :: DeviceId
  event_body :: NetworkEvent

record RoutedPeerStateChange =
  change_recipient :: DeviceId
  change_state :: "NetworkPeerState option"
  change_revocation :: NetworkPeerRevocation

record NetworkOperationOutcome =
  outcome_result :: NetworkOperationResult
  outcome_events :: "RoutedNetworkEvent list"
  outcome_changes :: "RoutedPeerStateChange list"

record NetworkPeerStateOutcome =
  peer_outcome_code :: NetworkResultCode
  peer_outcome_state :: "NetworkPeerState option"

record NetworkListOutcome =
  list_outcome_code :: NetworkResultCode
  list_outcome_result :: NetworkListResult

record NetworkKeyPublishOutcome =
  publish_code :: NetworkResultCode
  publish_network :: NetworkId
  publish_envelopes :: "NetworkKeyEnvelope list"

record RoutedEncryptedPacket =
  packet_recipient :: DeviceId
  packet_delivery :: ForwardedNetworkPacket

section \<open>State\<close>

record ActiveKey =
  active_session :: bytes
  active_signed_key :: SignedDeviceKey

record FanoutBucket =
  fanout_tokens :: rat
  fanout_updated :: int
  fanout_initialized :: bool

record FanoutReplay =
  replay_epoch :: "64 word"
  replay_session_key :: bytes
  replay_nonce_prefix :: bytes
  replay_highest :: "32 word"
  replay_seen :: "64 word"

record AccessWindow =
  window_start :: int
  window_attempts :: "32 word"

record NetworkService =
  svc_store :: RelayStore
  svc_quota :: ForwardingQuota
  svc_revisions :: "(NetworkId \<times> 64 word) list"
  svc_key_epochs :: "(NetworkId \<times> 64 word) list"
  svc_active_keys :: "(DeviceId \<times> ActiveKey) list"
  svc_sender_fanout :: "((NetworkId \<times> DeviceId) \<times> FanoutBucket) list"
  svc_network_fanout :: "(NetworkId \<times> FanoutBucket) list"
  svc_fanout_replay :: "((NetworkId \<times> DeviceId) \<times> FanoutReplay) list"
  svc_access_attempts :: "((NetworkId \<times> DeviceId) \<times> AccessWindow) list"
  svc_audit_denials :: "(DeviceId \<times> int) list"
  svc_audit_write_failures :: "64 word"
  svc_management_capable :: "DeviceId set"
  svc_ticks :: nat
  svc_draws :: nat
  svc_generated :: nat

record Environment =
  env_crypto :: Crypto
  env_clock :: "nat \<Rightarrow> int"
  env_network_id :: "nat \<Rightarrow> NetworkId res"

text \<open>The constructor, on an open store.\<close>

definition new_service :: "RelayStore \<Rightarrow> NetworkService" where
  "new_service db = \<lparr>svc_store = db, svc_quota = new_quota, svc_revisions = [], svc_key_epochs = [], svc_active_keys = [],
     svc_sender_fanout = [], svc_network_fanout = [], svc_fanout_replay = [], svc_access_attempts = [],
     svc_audit_denials = [], svc_audit_write_failures = 0, svc_management_capable = {}, svc_ticks = 0, svc_draws = 0,
     svc_generated = 0\<rparr>"

section \<open>Methods\<close>

type_synonym 'a svc = "NetworkService \<Rightarrow> 'a res \<times> NetworkService"

definition sreturn :: "'a \<Rightarrow> 'a svc" where "sreturn x s = (Inr x, s)"

definition sthrow :: "exn \<Rightarrow> 'a svc" where "sthrow e s = (Inl e, s)"

definition sbind :: "'a svc \<Rightarrow> ('a \<Rightarrow> 'b svc) \<Rightarrow> 'b svc" where
  "sbind m f s = (case m s of (Inl e, s') \<Rightarrow> (Inl e, s') | (Inr x, s') \<Rightarrow> f x s')"

text \<open>\<open>try { m } catch\<close>: the handler sees the state at the throw.\<close>

definition scatch :: "'a svc \<Rightarrow> (exn \<Rightarrow> 'a svc) \<Rightarrow> 'a svc" where
  "scatch m h s = (case m s of (Inl e, s') \<Rightarrow> h e s' | (Inr x, s') \<Rightarrow> (Inr x, s'))"

text \<open>A query, an update of the members, a call of a method of the store.\<close>

definition squery :: "(NetworkService \<Rightarrow> 'a res) \<Rightarrow> 'a svc" where "squery f s = (f s, s)"

definition smodify :: "(NetworkService \<Rightarrow> NetworkService) \<Rightarrow> unit svc" where "smodify f s = (Inr (), f s)"

definition sstore :: "'a store_op \<Rightarrow> 'a svc" where
  "sstore op s = (case op (svc_store s) of Inl e \<Rightarrow> (Inl e, s) | Inr (x, db) \<Rightarrow> (Inr x, s\<lparr>svc_store := db\<rparr>))"

definition sread :: "(RelayStore \<Rightarrow> 'a res) \<Rightarrow> 'a svc" where "sread f = squery (\<lambda>s. f (svc_store s))"

fun smap :: "('a \<Rightarrow> 'b svc) \<Rightarrow> 'a list \<Rightarrow> 'b list svc" where
  "smap f [] = sreturn []"
| "smap f (x # xs) = sbind (f x) (\<lambda>y. sbind (smap f xs) (\<lambda>ys. sreturn (y # ys)))"

text \<open>\<open>time_source_()\<close> and the random bytes drawn through OpenSSL.\<close>

definition time_source :: "Environment \<Rightarrow> int svc" where
  "time_source env s = (Inr (env_clock env (svc_ticks s)), s\<lparr>svc_ticks := Suc (svc_ticks s)\<rparr>)"

definition random_nonce :: "Environment \<Rightarrow> bytes svc" where
  "random_nonce env s = (from_option (Runtime_error ''secure random generation failed'')
     (crypto_random (env_crypto env) (svc_draws s) 32), s\<lparr>svc_draws := Suc (svc_draws s)\<rparr>)"

definition next_network_id :: "Environment \<Rightarrow> NetworkId svc" where
  "next_network_id env s = (env_network_id env (svc_generated s), s\<lparr>svc_generated := Suc (svc_generated s)\<rparr>)"

section \<open>Helpers\<close>

definition network_id_generation_attempts :: nat where "network_id_generation_attempts = 32"

definition require_actor_and_time :: "DeviceId \<Rightarrow> int \<Rightarrow> unit res" where
  "require_actor_and_time actor now_ms =
     (if is_zero actor then Inl (Invalid_argument ''network operation requires an authenticated device'')
      else if now_ms < 0 then Inl (Invalid_argument ''network operation timestamp must not be negative'')
      else Inr ())"

definition require_selection_request :: "NetworkSelectionRequest \<Rightarrow> unit res" where
  "require_selection_request request = res_bind (encode_network_selection_request request) (\<lambda>_. Inr ())"

definition valid_member_request :: "NetworkMemberRequest \<Rightarrow> bool res" where
  "valid_member_request request =
     res_bind (require_selection_request \<lparr>selection_network = target_network request\<rparr>) (\<lambda>_.
     catch_invalid_argument False (res_bind (encode_network_member_request request) (\<lambda>_. Inr True)))"

definition operation_outcome :: "NetworkOperation \<Rightarrow> NetworkResultCode \<Rightarrow> NetworkId \<Rightarrow> NetworkOperationOutcome" where
  "operation_outcome operation code network =
     \<lparr>outcome_result = \<lparr>result_operation = operation, result_code = code, result_network = network\<rparr>,
      outcome_events = [], outcome_changes = []\<rparr>"

definition list_outcome :: "NetworkResultCode \<Rightarrow> NetworkListOutcome" where
  "list_outcome code = \<lparr>list_outcome_code = code, list_outcome_result = \<lparr>listed_networks = []\<rparr>\<rparr>"

definition find_member :: "MembershipRecord list \<Rightarrow> DeviceId \<Rightarrow> MembershipRecord option" where
  "find_member ms device = find (\<lambda>m. member_id m = device) ms"

definition routed_event :: "DeviceId \<Rightarrow> NetworkEventKind \<Rightarrow> NetworkId \<Rightarrow> DeviceId \<Rightarrow> RoutedNetworkEvent" where
  "routed_event recipient kind network subject =
     \<lparr>event_recipient = recipient, event_body = \<lparr>event_kind = kind, event_network = network, event_device = subject\<rparr>\<rparr>"

definition events_for_members :: "MembershipRecord list \<Rightarrow> DeviceId option \<Rightarrow> NetworkEventKind \<Rightarrow> NetworkId \<Rightarrow>
    DeviceId \<Rightarrow> RoutedNetworkEvent list" where
  "events_for_members ms excluded kind network subject =
     map (\<lambda>m. routed_event (member_id m) kind network subject)
       (filter (\<lambda>m. excluded = None \<or> Some (member_id m) \<noteq> excluded) ms)"

definition network_limit_reached :: "RelayStore \<Rightarrow> DeviceId \<Rightarrow> bool res" where
  "network_limit_reached db device = res_bind (list_networks_for_device device db) (\<lambda>networks.
     Inr (length networks \<ge> max_network_list_entries))"

definition make_summary :: "NetworkRecord \<Rightarrow> DeviceId \<Rightarrow> MembershipRecord list \<Rightarrow> NetworkSummary res" where
  "make_summary network actor ms =
     (case find_member ms actor of
        None \<Rightarrow> Inl (Runtime_error ''network membership state is inconsistent'')
      | Some m \<Rightarrow>
          if ms = [] \<or> length ms > 4294967295 then Inl (Runtime_error ''network membership state is inconsistent'')
          else Inr \<lparr>summary_network = network_id network, summary_owner = owner_device_id network,
            summary_role = (if membership_role m = MR_owner then NR_owner else NR_member),
            summary_created_at_ms = word_of_int (created_at_ms network),
            summary_member_count = word_of_nat (length ms), summary_name = network_name network\<rparr>)"

definition assemble_peer_state :: "NetworkSubnetRecord \<Rightarrow> VirtualIpv4LeaseRecord list \<Rightarrow> DeviceId \<Rightarrow> 64 word \<Rightarrow> DeviceId \<Rightarrow>
    64 word \<Rightarrow> (DeviceId \<times> ActiveKey) list \<Rightarrow> NetworkPeerState res" where
  "assemble_peer_state subnet leases actor rvn owner epoch active =
     (case find (\<lambda>l. lease_device l = actor) leases of
        None \<Rightarrow> Inl (Runtime_error ''network virtual IPv4 membership state is inconsistent'')
      | Some own \<Rightarrow>
          if length leases > max_network_peer_entries + 1
          then Inl (Runtime_error ''network virtual IPv4 membership state is inconsistent'')
          else Inr \<lparr>state_network = subnet_network subnet, state_revision = rvn, state_subnet = subnet_address subnet,
            state_prefix = subnet_prefix subnet, state_own = lease_address own,
            state_peers = map (\<lambda>l. \<lparr>peer_device = lease_device l, peer_address = lease_address l,
               peer_key = map_option active_signed_key (map_of active (lease_device l))\<rparr>)
               (filter (\<lambda>l. lease_device l \<noteq> actor) leases),
            state_owner = owner, state_epoch = epoch, state_policy = None\<rparr>)"

section \<open>Revisions, epochs and peer states\<close>

definition revision_for :: "NetworkService \<Rightarrow> NetworkId \<Rightarrow> 64 word" where
  "revision_for s n = (case map_of (svc_revisions s) n of None \<Rightarrow> 0 | Some r \<Rightarrow> r)"

definition advance_revision :: "NetworkId \<Rightarrow> 64 word svc" where
  "advance_revision n s =
     (let rvn = (case map_of (svc_revisions s) n of None \<Rightarrow> 0 | Some r \<Rightarrow> r) in
      if rvn = uint64_max then (Inl (Overflow_error ''network peer state revision exhausted''), s)
      else (Inr (rvn + 1), s\<lparr>svc_revisions := upsert_row n (rvn + 1) (svc_revisions s)\<rparr>))"

definition key_epoch_for :: "NetworkService \<Rightarrow> NetworkId \<Rightarrow> 64 word" where
  "key_epoch_for s n = (case map_of (svc_key_epochs s) n of None \<Rightarrow> 1 | Some e \<Rightarrow> e)"

definition advance_key_epoch :: "NetworkId \<Rightarrow> unit svc" where
  "advance_key_epoch n s =
     (let epoch = (case map_of (svc_key_epochs s) n of None \<Rightarrow> 0 | Some e \<Rightarrow> e) in
      if epoch = uint64_max then (Inl (Overflow_error ''network key epoch exhausted''), s)
      else (Inr (), s\<lparr>svc_key_epochs := upsert_row n (epoch + 1) (svc_key_epochs s)\<rparr>))"

definition make_peer_state :: "NetworkService \<Rightarrow> NetworkId \<Rightarrow> DeviceId \<Rightarrow> 64 word \<Rightarrow> NetworkPeerState res" where
  "make_peer_state s n actor rvn =
     res_bind (find_subnet n (svc_store s)) (\<lambda>subnet. res_bind (find_network n (svc_store s)) (\<lambda>network.
     case (subnet, network) of
       (Some sub, Some net) \<Rightarrow>
         res_bind (list_virtual_ipv4_leases n (svc_store s)) (\<lambda>leases.
         res_bind (assemble_peer_state sub leases actor rvn (owner_device_id net) (key_epoch_for s n) (svc_active_keys s)) (\<lambda>state.
         res_bind (network_policy n (svc_store s)) (\<lambda>policy.
         Inr (if managed policy
           then state\<lparr>state_policy := Some policy, state_peers := map (\<lambda>p.
             if peer_device p \<notin> svc_management_capable s then p\<lparr>peer_key := None\<rparr> else p) (state_peers state)\<rparr>
           else state))))
     | _ \<Rightarrow> Inl (Runtime_error ''network virtual IPv4 subnet is missing'')))"

definition no_revocation :: NetworkPeerRevocation where
  "no_revocation = \<lparr>revoked_network = no_network, revoked_revision = 0\<rparr>"

definition revocation_change :: "DeviceId \<Rightarrow> NetworkId \<Rightarrow> 64 word \<Rightarrow> RoutedPeerStateChange" where
  "revocation_change device n rvn = \<lparr>change_recipient = device, change_state = None,
     change_revocation = \<lparr>revoked_network = n, revoked_revision = rvn\<rparr>\<rparr>"

definition changes_for_members :: "NetworkId \<Rightarrow> 64 word \<Rightarrow> NetworkService \<Rightarrow> RoutedPeerStateChange list res" where
  "changes_for_members n rvn s =
     res_bind (find_subnet n (svc_store s)) (\<lambda>subnet. res_bind (find_network n (svc_store s)) (\<lambda>network.
     if subnet = None \<or> network = None then Inl (Runtime_error ''network virtual IPv4 subnet is missing'')
     else res_bind (list_virtual_ipv4_leases n (svc_store s)) (\<lambda>leases.
       res_map (\<lambda>l. res_bind (make_peer_state s n (lease_device l) rvn) (\<lambda>state.
         Inr \<lparr>change_recipient = lease_device l, change_state = Some state, change_revocation = no_revocation\<rparr>)) leases)))"

text \<open>\<open>changes_for_members(n, advance_revision(n))\<close>.\<close>

definition announce :: "NetworkId \<Rightarrow> RoutedPeerStateChange list svc" where
  "announce n = sbind (advance_revision n) (\<lambda>rvn. squery (changes_for_members n rvn))"

section \<open>Permissions\<close>

definition device_allowed :: "NetworkService \<Rightarrow> DeviceId \<Rightarrow> bool" where
  "device_allowed s actor \<longleftrightarrow> \<not> device_revoked actor (svc_store s)"

definition can_manage_network :: "NetworkId \<Rightarrow> DeviceId \<Rightarrow> NetworkService \<Rightarrow> bool res" where
  "can_manage_network n actor s =
     res_bind (find_network n (svc_store s)) (\<lambda>network.
     case network of None \<Rightarrow> Inr False
     | Some net \<Rightarrow>
         if \<not> device_allowed s actor then Inr False
         else if owner_device_id net = actor then Inr True
         else res_bind (network_policy n (svc_store s)) (\<lambda>policy.
           if \<not> managed policy \<or> actor \<notin> svc_management_capable s then Inr False
           else res_bind (find_virtual_ipv4_lease n actor (svc_store s)) (\<lambda>lease.
             Inr (lease \<noteq> None \<and> policy_role policy actor = Role_administrator))))"

definition traffic_allowed :: "NetworkService \<Rightarrow> NetworkId \<Rightarrow> DeviceId \<Rightarrow> DeviceId \<Rightarrow> bool \<Rightarrow> bool res" where
  "traffic_allowed s n a b fanout =
     res_bind (network_policy n (svc_store s)) (\<lambda>policy.
     Inr ((\<not> managed policy \<or> (a \<in> svc_management_capable s \<and> b \<in> svc_management_capable s)) \<and>
       (if fanout then policy_fanout_allows policy a b else policy_allows policy a b)))"

section \<open>Audit\<close>

definition second :: int where "second = 1000000000"
definition minute :: int where "minute = 60 * 1000000000"

definition write_audit :: "AuditEvent \<Rightarrow> unit svc" where
  "write_audit e = scatch (sstore (append_audit e)) (\<lambda>_. smodify (\<lambda>s.
     s\<lparr>svc_audit_write_failures := svc_audit_write_failures s + 1\<rparr>))"

definition audit_locked :: "Environment \<Rightarrow> AuditKind \<Rightarrow> DeviceId \<Rightarrow> DeviceId \<Rightarrow> NetworkId \<Rightarrow> NetworkResultCode \<Rightarrow> int \<Rightarrow>
    64 word \<Rightarrow> unit svc" where
  "audit_locked env kind actor target n code now_ms rvn =
     (let event = \<lparr>audit_sequence = 0, audit_timestamp_ms = word_of_int now_ms, audit_network = n, audit_actor = actor,
            audit_target = target, audit_kind = kind, audit_result = code, audit_policy_revision = rvn\<rparr> in
      if code \<noteq> RC_success \<and> code \<noteq> RC_pending_approval
      then sbind (time_source env) (\<lambda>now.
        sbind (smodify (\<lambda>s. s\<lparr>svc_audit_denials := filter (\<lambda>e. \<not> now - snd e \<ge> minute) (svc_audit_denials s)\<rparr>)) (\<lambda>_.
        sbind (squery (\<lambda>s. Inr (map_of (svc_audit_denials s) actor, length (svc_audit_denials s)))) (\<lambda>(prior, denials).
        if (case prior of None \<Rightarrow> False | Some t \<Rightarrow> now - t < second) then sreturn ()
        else if prior = None \<and> denials \<ge> 256 then sreturn ()
        else sbind (smodify (\<lambda>s. s\<lparr>svc_audit_denials := upsert_row actor now (svc_audit_denials s)\<rparr>)) (\<lambda>_.
          write_audit event))))
      else write_audit event)"

fun audit_kind_of_operation :: "NetworkOperation \<Rightarrow> AuditKind option" where
  "audit_kind_of_operation Op_create = Some AK_network_create"
| "audit_kind_of_operation Op_join = Some AK_network_join"
| "audit_kind_of_operation Op_leave = Some AK_network_leave"
| "audit_kind_of_operation Op_invite = Some AK_member_invite"
| "audit_kind_of_operation Op_approve = Some AK_member_approve"
| "audit_kind_of_operation Op_kick = Some AK_member_kick"
| "audit_kind_of_operation _ = None"

definition audit_network_outcome :: "Environment \<Rightarrow> DeviceId \<Rightarrow> NetworkOperationOutcome \<Rightarrow> int \<Rightarrow> unit svc" where
  "audit_network_outcome env actor out now_ms =
     (case audit_kind_of_operation (result_operation (outcome_result out)) of None \<Rightarrow> sreturn ()
      | Some kind \<Rightarrow> audit_locked env kind actor
          (case outcome_events out of [] \<Rightarrow> actor | e # _ \<Rightarrow> event_device (event_body e))
          (result_network (outcome_result out)) (result_code (outcome_result out)) now_ms 0)"

text \<open>\<open>audit_network_outcome(actor,outcome,now_ms);return outcome;\<close>\<close>

definition audited :: "Environment \<Rightarrow> DeviceId \<Rightarrow> int \<Rightarrow> NetworkOperationOutcome \<Rightarrow> NetworkOperationOutcome svc" where
  "audited env actor now_ms out = sbind (audit_network_outcome env actor out now_ms) (\<lambda>_. sreturn out)"

end
