(* ===== verification/Candidates.thy ===== *)
theory Candidates
  imports Network_Types Binary
begin

text \<open>\<open>p2p/candidates.hpp/.cpp\<close>: the candidate exchange by which two peers set up a direct path.\<close>

datatype CandidateKind = CK_host | CK_server_reflexive | CK_unlisted byte

fun candidate_kind_raw :: "CandidateKind \<Rightarrow> byte" where
  "candidate_kind_raw CK_host = 1"
| "candidate_kind_raw CK_server_reflexive = 2"
| "candidate_kind_raw (CK_unlisted raw) = raw"

definition candidate_kind_of_raw :: "byte \<Rightarrow> CandidateKind" where
  "candidate_kind_of_raw raw = (if raw = 1 then CK_host else if raw = 2 then CK_server_reflexive else CK_unlisted raw)"

record Endpoint =
  endpoint_ipv4 :: "32 word"
  endpoint_port :: "16 word"

record Candidate =
  candidate_endpoint :: Endpoint
  candidate_kind :: CandidateKind
  candidate_priority :: "32 word"

definition max_candidates :: nat where "max_candidates = 8"

record CandidateExchange =
  exchange_network :: NetworkId
  exchange_sender :: bytes
  exchange_recipient :: bytes
  exchange_sender_session :: bytes
  exchange_recipient_session :: bytes
  exchange_epoch :: "64 word"
  exchange_generation :: "64 word"
  exchange_response_to :: "64 word"
  exchange_lifetime_ms :: "32 word"
  exchange_candidates :: "Candidate list"

definition usable_endpoint :: "Endpoint \<Rightarrow> bool \<Rightarrow> bool" where
  "usable_endpoint e loopback \<longleftrightarrow>
     (let first = drop_bit 24 (endpoint_ipv4 e) in
      endpoint_port e \<noteq> 0 \<and> first \<noteq> 0 \<and> first < 224 \<and> (loopback \<or> first \<noteq> 127) \<and>
      endpoint_ipv4 e AND 0xffff0000 \<noteq> 0xa9fe0000 \<and> endpoint_ipv4 e \<noteq> 0xffffffff)"

text \<open>The loop over the candidates with the set of endpoints seen.\<close>

fun valid_candidates :: "Endpoint list \<Rightarrow> Candidate list \<Rightarrow> bool" where
  "valid_candidates seen [] = True"
| "valid_candidates seen (c # rest) =
     (if \<not> usable_endpoint (candidate_endpoint c) True \<or> candidate_priority c = 0 \<or>
         (candidate_kind c \<noteq> CK_host \<and> candidate_kind c \<noteq> CK_server_reflexive) \<or> candidate_endpoint c \<in> set seen
      then False else valid_candidates (candidate_endpoint c # seen) rest)"

definition validate_exchange :: "CandidateExchange \<Rightarrow> unit res" where
  "validate_exchange v =
     (if is_zero (exchange_network v) \<or> is_zero (exchange_sender v) \<or> is_zero (exchange_recipient v) \<or>
         exchange_sender v = exchange_recipient v \<or> is_zero (exchange_sender_session v) \<or>
         is_zero (exchange_recipient_session v) \<or> exchange_epoch v = 0 \<or> exchange_generation v = 0 \<or>
         exchange_lifetime_ms v < 1000 \<or> exchange_lifetime_ms v > 30000 \<or> exchange_candidates v = [] \<or>
         length (exchange_candidates v) > max_candidates
      then Inl (Invalid_argument ''invalid peer candidate exchange'')
      else require (Invalid_argument ''invalid peer candidate'') (valid_candidates [] (exchange_candidates v)))"

definition encode_candidate :: "Candidate \<Rightarrow> bytes" where
  "encode_candidate c = put (endpoint_ipv4 (candidate_endpoint c)) @ put (endpoint_port (candidate_endpoint c))
     @ put (candidate_kind_raw (candidate_kind c)) @ put (candidate_priority c)"

definition encode_candidates :: "CandidateExchange \<Rightarrow> bytes res" where
  "encode_candidates v = res_bind (validate_exchange v) (\<lambda>_.
     Inr (put (2 :: byte) @ exchange_network v @ exchange_sender v @ exchange_recipient v @ exchange_sender_session v
       @ exchange_recipient_session v @ put (exchange_epoch v) @ put (exchange_generation v) @ put (exchange_response_to v)
       @ put (exchange_lifetime_ms v) @ put (word_of_nat (length (exchange_candidates v)) :: byte)
       @ concat (map encode_candidate (exchange_candidates v))))"

definition read_candidate :: "Candidate parser" where
  "read_candidate = pbind reader_get (\<lambda>ipv4. pbind reader_get (\<lambda>port. pbind reader_get (\<lambda>kind. pbind reader_get (\<lambda>priority.
     preturn \<lparr>candidate_endpoint = \<lparr>endpoint_ipv4 = ipv4, endpoint_port = port\<rparr>,
       candidate_kind = candidate_kind_of_raw kind, candidate_priority = priority\<rparr>))))"

definition decode_candidates :: "bytes \<Rightarrow> CandidateExchange res" where
  "decode_candidates = parse_all (
     pbind reader_get (\<lambda>schema :: byte.
     pbind (prequire (Invalid_argument ''unknown candidate schema'') (schema = 2)) (\<lambda>_.
     pbind (reader_array 16) (\<lambda>network. pbind (reader_array 32) (\<lambda>sender. pbind (reader_array 32) (\<lambda>recipient.
     pbind (reader_array 32) (\<lambda>sender_session. pbind (reader_array 32) (\<lambda>recipient_session.
     pbind reader_get (\<lambda>epoch. pbind reader_get (\<lambda>generation. pbind reader_get (\<lambda>response. pbind reader_get (\<lambda>lifetime.
     pbind (read_counted (Invalid_argument ''too many candidates'') max_candidates read_candidate) (\<lambda>cs.
     pbind reader_finish (\<lambda>_.
     let v = \<lparr>exchange_network = network, exchange_sender = sender, exchange_recipient = recipient,
              exchange_sender_session = sender_session, exchange_recipient_session = recipient_session,
              exchange_epoch = epoch, exchange_generation = generation, exchange_response_to = response,
              exchange_lifetime_ms = lifetime, exchange_candidates = cs\<rparr> in
     pbind (plift (validate_exchange v)) (\<lambda>_. preturn v)))))))))))))))"

section \<open>Canonical encodings\<close>

lemma candidate_raw_of_raw [simp]: "candidate_kind_raw (candidate_kind_of_raw b) = b"
  by (simp add: candidate_kind_of_raw_def)

definition candidate_canonical :: "Candidate \<Rightarrow> bool" where
  "candidate_canonical c \<longleftrightarrow> candidate_kind_of_raw (candidate_kind_raw (candidate_kind c)) = candidate_kind c"

lemma read_candidate_iff:
  "read_candidate r = Inr (c, rest) \<longleftrightarrow> r = encode_candidate c @ rest \<and> candidate_canonical c"
proof
  assume "read_candidate r = Inr (c, rest)"
  then show "r = encode_candidate c @ rest \<and> candidate_canonical c"
    by (auto simp: read_candidate_def wire_reads encode_candidate_def candidate_canonical_def)
next
  assume "r = encode_candidate c @ rest \<and> candidate_canonical c"
  moreover have "\<lparr>candidate_endpoint = \<lparr>endpoint_ipv4 = endpoint_ipv4 (candidate_endpoint c),
      endpoint_port = endpoint_port (candidate_endpoint c)\<rparr>, candidate_kind = candidate_kind c,
      candidate_priority = candidate_priority c\<rparr> = c" by simp
  ultimately show "read_candidate r = Inr (c, rest)"
    by (simp add: read_candidate_def encode_candidate_def candidate_canonical_def wire_steps)
qed

definition exchange_typed :: "CandidateExchange \<Rightarrow> bool" where
  "exchange_typed v \<longleftrightarrow> length (exchange_network v) = 16 \<and> length (exchange_sender v) = 32 \<and>
     length (exchange_recipient v) = 32 \<and> length (exchange_sender_session v) = 32 \<and>
     length (exchange_recipient_session v) = 32 \<and> list_all candidate_canonical (exchange_candidates v)"

lemma validate_exchange_length: "validate_exchange v = Inr u \<Longrightarrow> length (exchange_candidates v) \<le> 8"
  by (simp add: validate_exchange_def max_candidates_def split: if_splits)

interpretation candidates_codec: wire_codec encode_candidates decode_candidates exchange_typed
proof unfold_locales
  fix v :: CandidateExchange and bs
  assume typed: "exchange_typed v" and enc: "encode_candidates v = Inr bs"
  then have valid: "validate_exchange v = Inr ()" by (auto simp: encode_candidates_def res_bind_Inr_iff)
  have cs: "read_counted e max_candidates read_candidate (put (word_of_nat (length (exchange_candidates v)) :: byte)
      @ concat (map encode_candidate (exchange_candidates v))) = Inr (exchange_candidates v, [])" for e
    using typed validate_exchange_length [OF valid]
    by (simp add: read_counted_iff [OF read_candidate_iff] max_candidates_def exchange_typed_def)
  have eta: "\<lparr>exchange_network = exchange_network v, exchange_sender = exchange_sender v,
      exchange_recipient = exchange_recipient v, exchange_sender_session = exchange_sender_session v,
      exchange_recipient_session = exchange_recipient_session v, exchange_epoch = exchange_epoch v,
      exchange_generation = exchange_generation v, exchange_response_to = exchange_response_to v,
      exchange_lifetime_ms = exchange_lifetime_ms v, exchange_candidates = exchange_candidates v\<rparr> = v" by simp
  from enc valid have bs: "bs = 2 # exchange_network v @ exchange_sender v @ exchange_recipient v @ exchange_sender_session v
       @ exchange_recipient_session v @ put (exchange_epoch v) @ put (exchange_generation v) @ put (exchange_response_to v)
       @ put (exchange_lifetime_ms v) @ put (word_of_nat (length (exchange_candidates v)) :: byte)
       @ concat (map encode_candidate (exchange_candidates v))"
    by (auto simp: encode_candidates_def)
  show "decode_candidates bs = Inr v"
    using typed valid
    by (simp add: decode_candidates_def bs wire_steps cs [simplified] exchange_typed_def Let_def eta)
next
  fix v :: CandidateExchange and bs
  assume "decode_candidates bs = Inr v"
  then show "exchange_typed v \<and> encode_candidates v = Inr bs"
    by (auto simp: decode_candidates_def wire_reads Let_def encode_candidates_def exchange_typed_def
        read_counted_iff [OF read_candidate_iff] max_candidates_def split: if_splits)
qed

lemma valid_candidates_iff:
  "valid_candidates seen cs \<longleftrightarrow>
     list_all (\<lambda>c. usable_endpoint (candidate_endpoint c) True \<and> candidate_priority c \<noteq> 0 \<and>
       candidate_kind c \<in> {CK_host, CK_server_reflexive}) cs \<and>
     distinct (map candidate_endpoint cs) \<and> set (map candidate_endpoint cs) \<inter> set seen = {}"
  by (induction cs arbitrary: seen) auto

text \<open>
  Candidate exchanges are canonical on the wire, and every exchange that decodes joins two different
  non-zero devices with non-zero sessions, key epoch and generation, a lifetime of 1 to 30 seconds,
  and 1 to 8 distinct endpoints, each with a port and a unicast address that is not link-local.
\<close>

lemma candidates_roundtrip:
  "(decode_candidates bs = Inr v \<longleftrightarrow> exchange_typed v \<and> encode_candidates v = Inr bs) \<and>
   (decode_candidates bs = Inr v \<longrightarrow>
     exchange_sender v \<noteq> exchange_recipient v \<and> exchange_epoch v \<noteq> 0 \<and> exchange_generation v \<noteq> 0 \<and>
     1000 \<le> exchange_lifetime_ms v \<and> exchange_lifetime_ms v \<le> 30000 \<and>
     exchange_candidates v \<noteq> [] \<and> length (exchange_candidates v) \<le> 8 \<and>
     distinct (map candidate_endpoint (exchange_candidates v)) \<and>
     list_all (\<lambda>c. usable_endpoint (candidate_endpoint c) True) (exchange_candidates v))"
proof -
  have "decode_candidates bs = Inr v \<longrightarrow> validate_exchange v = Inr ()"
    unfolding candidates_codec.dec_iff by (auto simp: encode_candidates_def res_bind_Inr_iff)
  then show ?thesis
    using candidates_codec.dec_iff [of bs v]
    by (auto simp: validate_exchange_def valid_candidates_iff max_candidates_def list_all_iff split: if_splits)
qed

definition demo_exchange :: CandidateExchange where
  "demo_exchange = \<lparr>exchange_network = replicate 16 1, exchange_sender = replicate 32 2, exchange_recipient = replicate 32 3,
     exchange_sender_session = replicate 32 4, exchange_recipient_session = replicate 32 5, exchange_epoch = 1,
     exchange_generation = 1, exchange_response_to = 0, exchange_lifetime_ms = 30000,
     exchange_candidates = [\<lparr>candidate_endpoint = \<lparr>endpoint_ipv4 = 0x08080808, endpoint_port = 9000\<rparr>,
       candidate_kind = CK_host, candidate_priority = 7\<rparr>]\<rparr>"

lemma candidates_sample:
  "\<exists>bs. encode_candidates demo_exchange = Inr bs \<and> decode_candidates bs = Inr demo_exchange \<and>
     distinct (map candidate_endpoint (exchange_candidates demo_exchange))"
proof -
  have "validate_exchange demo_exchange = Inr ()"
    by (simp add: validate_exchange_def demo_exchange_def is_zero_def list_all_iff max_candidates_def usable_endpoint_def)
  then obtain bs where bs: "encode_candidates demo_exchange = Inr bs" by (auto simp: encode_candidates_def)
  moreover have "exchange_typed demo_exchange"
    by (simp add: exchange_typed_def demo_exchange_def candidate_canonical_def candidate_kind_of_raw_def)
  ultimately show ?thesis using candidates_roundtrip [of bs demo_exchange] by blast
qed

end
