(* ===== verification/Network_Service.thy ===== *)
theory Network_Service
  imports Service_State Candidates Join_Target
begin

text \<open>
  The methods of \<open>relay::NetworkService\<close> on networks and members: creating, listing, joining and
  leaving networks, inviting, approving and kicking members, the keys of devices and networks, and
  the peer states. Each method is the whole handler: the checks in their order, every call of the
  store, the updates of the service's own maps, the exceptions it catches.
\<close>

section \<open>Exception handlers\<close>

text \<open>\<open>catch (length_error) limit_reached; catch (exception) internal_error\<close>, and the plain form.\<close>

definition limit_or_internal :: "NetworkOperation \<Rightarrow> NetworkId \<Rightarrow> NetworkOperationOutcome svc \<Rightarrow> NetworkOperationOutcome svc" where
  "limit_or_internal operation n body = scatch body (\<lambda>e. sreturn (operation_outcome operation
     (case e of Length_error _ \<Rightarrow> RC_limit_reached | _ \<Rightarrow> RC_internal_error) n))"

definition internal_on_error :: "NetworkOperation \<Rightarrow> NetworkId \<Rightarrow> NetworkOperationOutcome svc \<Rightarrow> NetworkOperationOutcome svc" where
  "internal_on_error operation n body = scatch body (\<lambda>e. sreturn (operation_outcome operation RC_internal_error n))"

definition slift :: "'a res \<Rightarrow> 'a svc" where "slift r = squery (\<lambda>_. r)"

text \<open>\<open>return operation_outcome(operation, code, network_id);\<close>\<close>

definition refuse :: "NetworkOperation \<Rightarrow> NetworkId \<Rightarrow> NetworkResultCode \<Rightarrow> NetworkOperationOutcome svc" where
  "refuse operation n code = sreturn (operation_outcome operation code n)"

section \<open>Creating networks\<close>

text \<open>\<open>store_.create_network\<close> in its \<open>try\<close>: False is \<open>continue\<close>.\<close>

definition try_create :: "NetworkRecord \<Rightarrow> PasswordVerifier option \<Rightarrow> bool svc" where
  "try_create r password =
     scatch (sbind (sstore (create_network r password)) (\<lambda>_. sreturn True))
       (\<lambda>e. sbind (sread (find_network (network_id r))) (\<lambda>again. if again \<noteq> None then sreturn False else sthrow e))"

text \<open>What follows the creation of a network.\<close>

definition created_network :: "Environment \<Rightarrow> DeviceId \<Rightarrow> int \<Rightarrow> NetworkId \<Rightarrow> NetworkOperationOutcome svc" where
  "created_network env actor now_ms n =
     sbind (advance_key_epoch n) (\<lambda>_. sbind (announce n) (\<lambda>changes.
     audited env actor now_ms ((operation_outcome Op_create RC_success n)\<lparr>outcome_changes := changes\<rparr>)))"

fun create_attempts :: "Environment \<Rightarrow> nat \<Rightarrow> DeviceId \<Rightarrow> bytes \<Rightarrow> int \<Rightarrow> PasswordVerifier option \<Rightarrow> NetworkOperationOutcome svc" where
  "create_attempts env 0 actor name now_ms password = refuse Op_create no_network RC_conflict"
| "create_attempts env (Suc attempts) actor name now_ms password =
     sbind (next_network_id env) (\<lambda>n.
     if is_zero n then create_attempts env attempts actor name now_ms password
     else sbind (sread (find_network n)) (\<lambda>found.
     if found \<noteq> None then create_attempts env attempts actor name now_ms password
     else sbind (try_create \<lparr>network_id = n, network_name = name, owner_device_id = actor, created_at_ms = now_ms\<rparr> password) (\<lambda>made.
     if made then created_network env actor now_ms n
     else create_attempts env attempts actor name now_ms password)))"

definition create_network_locked :: "Environment \<Rightarrow> DeviceId \<Rightarrow> NetworkCreateRequest \<Rightarrow> int \<Rightarrow> PasswordVerifier option \<Rightarrow>
    NetworkOperationOutcome svc" where
  "create_network_locked env actor request now_ms password =
     limit_or_internal Op_create no_network
       (sbind (sstore (record_device actor now_ms)) (\<lambda>_.
        sbind (sread (\<lambda>db. network_limit_reached db actor)) (\<lambda>full.
        if full then refuse Op_create no_network RC_limit_reached
        else create_attempts env network_id_generation_attempts actor (create_name request) now_ms password)))"

definition service_create_network :: "Environment \<Rightarrow> DeviceId \<Rightarrow> NetworkCreateRequest \<Rightarrow> int \<Rightarrow> NetworkOperationOutcome svc" where
  "service_create_network env actor request now_ms =
     sbind (slift (require_actor_and_time actor now_ms)) (\<lambda>_.
     sbind (slift (catch_invalid_argument False (res_bind (encode_network_create_request request) (\<lambda>_. Inr True)))) (\<lambda>valid.
     if \<not> valid then refuse Op_create no_network RC_invalid_request
     else create_network_locked env actor request now_ms None))"

definition service_list_networks :: "DeviceId \<Rightarrow> int \<Rightarrow> NetworkListOutcome svc" where
  "service_list_networks actor now_ms =
     sbind (slift (require_actor_and_time actor now_ms)) (\<lambda>_.
     scatch
       (sbind (sstore (record_device actor now_ms)) (\<lambda>_.
        sbind (sread (list_networks_for_device actor)) (\<lambda>networks.
        if length networks > max_network_list_entries then sreturn (list_outcome RC_limit_reached)
        else sbind (smap (\<lambda>n. sread (\<lambda>db. res_bind (list_members (network_id n) db) (make_summary n actor))) networks) (\<lambda>summaries.
          sreturn \<lparr>list_outcome_code = RC_success, list_outcome_result = \<lparr>listed_networks = summaries\<rparr>\<rparr>))))
       (\<lambda>e. sreturn (list_outcome RC_internal_error)))"

section \<open>Joining and leaving\<close>

text \<open>A new member: the epoch, the events to the members but \<open>excluded\<close>, the new peer states.\<close>

definition admitted :: "Environment \<Rightarrow> NetworkOperation \<Rightarrow> NetworkId \<Rightarrow> DeviceId \<Rightarrow> DeviceId \<Rightarrow> int \<Rightarrow> NetworkOperationOutcome svc" where
  "admitted env operation n actor subject now_ms =
     sbind (advance_key_epoch n) (\<lambda>_.
     sbind (sread (list_members n)) (\<lambda>ms.
     sbind (announce n) (\<lambda>changes.
     audited env actor now_ms ((operation_outcome operation RC_success n)\<lparr>
       outcome_events := events_for_members ms (Some actor) EK_member_joined n subject, outcome_changes := changes\<rparr>))))"

definition join_network_locked :: "Environment \<Rightarrow> DeviceId \<Rightarrow> NetworkId \<Rightarrow> int \<Rightarrow> bool \<Rightarrow> NetworkOperationOutcome svc" where
  "join_network_locked env actor n now_ms credential_verified =
     limit_or_internal Op_join n
       (sbind (sstore (record_device actor now_ms)) (\<lambda>_.
        sbind (sread (find_network n)) (\<lambda>network.
        case network of None \<Rightarrow> refuse Op_join n RC_not_found
        | Some net \<Rightarrow>
        sbind (sread (list_members n)) (\<lambda>ms.
        if find_member ms actor \<noteq> None then refuse Op_join n RC_already_exists
        else sbind (sread (\<lambda>db. network_limit_reached db actor)) (\<lambda>full.
        if full then refuse Op_join n RC_limit_reached
        else sbind (sread (\<lambda>db. Inr (network_password n db))) (\<lambda>password.
        sbind (sread (find_invitation n actor)) (\<lambda>invitation.
        if password \<noteq> None \<and> \<not> credential_verified \<and> invitation = None then refuse Op_join n RC_invite_required
        else if invitation \<noteq> None \<or>
          (credential_verified \<and> (case password of None \<Rightarrow> False | Some pw \<Rightarrow> \<not> password_require_approval pw))
        then sbind (sstore (add_member n actor now_ms)) (\<lambda>added.
          if \<not> added then refuse Op_join n RC_conflict else admitted env Op_join n actor actor now_ms)
        else sbind (sread (find_join_request n actor)) (\<lambda>pending.
        if pending \<noteq> None then refuse Op_join n RC_pending_approval
        else sbind (sstore (add_join_request n actor now_ms)) (\<lambda>requested.
        if \<not> requested then refuse Op_join n RC_conflict
        else audited env actor now_ms ((operation_outcome Op_join RC_pending_approval n)\<lparr>
          outcome_events := [routed_event (owner_device_id net) EK_join_requested n actor]\<rparr>))))))))))"

definition join_network :: "Environment \<Rightarrow> DeviceId \<Rightarrow> NetworkSelectionRequest \<Rightarrow> int \<Rightarrow> NetworkOperationOutcome svc" where
  "join_network env actor request now_ms =
     sbind (slift (require_actor_and_time actor now_ms)) (\<lambda>_.
     sbind (slift (require_selection_request request)) (\<lambda>_.
     join_network_locked env actor (selection_network request) now_ms False))"

text \<open>A member is gone: \<open>peer_changes\<close> ends with its revocation.\<close>

definition departed :: "NetworkId \<Rightarrow> DeviceId \<Rightarrow> RoutedPeerStateChange list svc" where
  "departed n subject =
     sbind (advance_revision n) (\<lambda>rvn. sbind (squery (changes_for_members n rvn)) (\<lambda>changes.
     sreturn (changes @ [revocation_change subject n rvn])))"

definition leave_network :: "Environment \<Rightarrow> DeviceId \<Rightarrow> NetworkSelectionRequest \<Rightarrow> int \<Rightarrow> NetworkOperationOutcome svc" where
  "leave_network env actor request now_ms =
     (let n = selection_network request in
      sbind (slift (require_actor_and_time actor now_ms)) (\<lambda>_.
      sbind (slift (require_selection_request request)) (\<lambda>_.
      internal_on_error Op_leave n
        (sbind (sstore (record_device actor now_ms)) (\<lambda>_.
         sbind (sread (find_network n)) (\<lambda>network.
         case network of None \<Rightarrow> refuse Op_leave n RC_not_found
         | Some net \<Rightarrow>
         if owner_device_id net = actor then refuse Op_leave n RC_permission_denied
         else sbind (sread (list_members n)) (\<lambda>ms.
         if find_member ms actor = None then refuse Op_leave n RC_not_member
         else sbind (sstore (remove_member n actor)) (\<lambda>removed.
         if \<not> removed then refuse Op_leave n RC_conflict
         else sbind (advance_key_epoch n) (\<lambda>_.
         sbind (sread (list_members n)) (\<lambda>rest.
         sbind (departed n actor) (\<lambda>changes.
         audited env actor now_ms ((operation_outcome Op_leave RC_success n)\<lparr>
           outcome_events := events_for_members rest None EK_member_left n actor, outcome_changes := changes\<rparr>))))))))))))"

section \<open>Managing members\<close>

text \<open>
  \<open>invite_member\<close>, \<open>approve_member\<close> and \<open>kick_member\<close> begin alike: validate the request, record the
  actor, find the network, check the right to manage it, find the target device.
\<close>

definition managed_target :: "NetworkOperation \<Rightarrow> DeviceId \<Rightarrow> NetworkMemberRequest \<Rightarrow> int \<Rightarrow>
    (NetworkRecord \<Rightarrow> NetworkOperationOutcome svc) \<Rightarrow> NetworkOperationOutcome svc" where
  "managed_target operation actor request now_ms body =
     (let n = target_network request in
      sbind (sstore (record_device actor now_ms)) (\<lambda>_.
      sbind (sread (find_network n)) (\<lambda>network.
      case network of None \<Rightarrow> refuse operation n RC_not_found
      | Some net \<Rightarrow>
      sbind (squery (can_manage_network n actor)) (\<lambda>allowed.
      if \<not> allowed then refuse operation n RC_permission_denied
      else sbind (sread (find_device (target_device request))) (\<lambda>device.
      if device = None then refuse operation n RC_target_not_found else body net)))))"

definition invite_target :: "Environment \<Rightarrow> DeviceId \<Rightarrow> NetworkId \<Rightarrow> DeviceId \<Rightarrow> int \<Rightarrow> NetworkOperationOutcome svc" where
  "invite_target env actor n d now_ms =
     sbind (sread (list_members n)) (\<lambda>ms.
     sbind (if find_member ms d \<noteq> None then sreturn True
            else sread (\<lambda>db. res_bind (find_invitation n d db) (\<lambda>i. Inr (i \<noteq> None)))) (\<lambda>known.
     if known then refuse Op_invite n RC_already_exists
     else sbind (sread (find_join_request n d)) (\<lambda>pending.
     if pending \<noteq> None then refuse Op_invite n RC_conflict
     else sbind (sread (\<lambda>db. network_limit_reached db d)) (\<lambda>full.
     if full then refuse Op_invite n RC_limit_reached
     else sbind (sstore (add_invitation n d now_ms)) (\<lambda>added.
     if \<not> added then refuse Op_invite n RC_conflict
     else audited env actor now_ms ((operation_outcome Op_invite RC_success n)\<lparr>
       outcome_events := [routed_event d EK_invited n d]\<rparr>))))))"

definition invite_member :: "Environment \<Rightarrow> DeviceId \<Rightarrow> NetworkMemberRequest \<Rightarrow> int \<Rightarrow> NetworkOperationOutcome svc" where
  "invite_member env actor request now_ms =
     (let n = target_network request; d = target_device request in
      sbind (slift (require_actor_and_time actor now_ms)) (\<lambda>_.
      sbind (slift (valid_member_request request)) (\<lambda>valid.
      if \<not> valid then refuse Op_invite n RC_invalid_request
      else internal_on_error Op_invite n
        (managed_target Op_invite actor request now_ms (\<lambda>net. invite_target env actor n d now_ms)))))"

definition approve_target :: "Environment \<Rightarrow> DeviceId \<Rightarrow> NetworkId \<Rightarrow> DeviceId \<Rightarrow> int \<Rightarrow> NetworkOperationOutcome svc" where
  "approve_target env actor n d now_ms =
     sbind (sread (list_members n)) (\<lambda>ms.
     if find_member ms d \<noteq> None then refuse Op_approve n RC_already_exists
     else sbind (sread (find_join_request n d)) (\<lambda>pending.
     if pending = None then refuse Op_approve n RC_not_found
     else sbind (sread (\<lambda>db. network_limit_reached db d)) (\<lambda>full.
     if full then refuse Op_approve n RC_limit_reached
     else sbind (sstore (add_member n d now_ms)) (\<lambda>added.
     if \<not> added then refuse Op_approve n RC_conflict
     else admitted env Op_approve n actor d now_ms))))"

definition approve_member :: "Environment \<Rightarrow> DeviceId \<Rightarrow> NetworkMemberRequest \<Rightarrow> int \<Rightarrow> NetworkOperationOutcome svc" where
  "approve_member env actor request now_ms =
     (let n = target_network request; d = target_device request in
      sbind (slift (require_actor_and_time actor now_ms)) (\<lambda>_.
      sbind (slift (valid_member_request request)) (\<lambda>valid.
      if \<not> valid then refuse Op_approve n RC_invalid_request
      else limit_or_internal Op_approve n
        (managed_target Op_approve actor request now_ms (\<lambda>net. approve_target env actor n d now_ms)))))"

definition kick_target :: "Environment \<Rightarrow> DeviceId \<Rightarrow> NetworkId \<Rightarrow> DeviceId \<Rightarrow> int \<Rightarrow> NetworkRecord \<Rightarrow> NetworkOperationOutcome svc" where
  "kick_target env actor n d now_ms net =
     sbind (if d = owner_device_id net then sreturn True
            else if actor \<noteq> owner_device_id net
            then sread (\<lambda>db. res_bind (network_policy n db) (\<lambda>p. Inr (policy_role p d = Role_administrator)))
            else sreturn False) (\<lambda>protected.
     if protected then refuse Op_kick n RC_permission_denied
     else sbind (sread (list_members n)) (\<lambda>ms.
     if find_member ms d = None then refuse Op_kick n RC_not_member
     else sbind (sstore (remove_member n d)) (\<lambda>removed.
     if \<not> removed then refuse Op_kick n RC_conflict
     else sbind (advance_key_epoch n) (\<lambda>_.
     sbind (sread (list_members n)) (\<lambda>rest.
     sbind (departed n d) (\<lambda>changes.
     audited env actor now_ms ((operation_outcome Op_kick RC_success n)\<lparr>
       outcome_events := routed_event d EK_member_kicked n d # events_for_members rest (Some actor) EK_member_kicked n d,
       outcome_changes := changes\<rparr>)))))))"

definition kick_member :: "Environment \<Rightarrow> DeviceId \<Rightarrow> NetworkMemberRequest \<Rightarrow> int \<Rightarrow> NetworkOperationOutcome svc" where
  "kick_member env actor request now_ms =
     (let n = target_network request; d = target_device request in
      sbind (slift (require_actor_and_time actor now_ms)) (\<lambda>_.
      sbind (slift (valid_member_request request)) (\<lambda>valid.
      if \<not> valid then refuse Op_kick n RC_invalid_request
      else internal_on_error Op_kick n (managed_target Op_kick actor request now_ms (kick_target env actor n d now_ms)))))"

section \<open>Devices, their keys and the peer states\<close>

definition set_management_capable :: "DeviceId \<Rightarrow> bool \<Rightarrow> RoutedPeerStateChange list svc" where
  "set_management_capable actor capable =
     sbind (smodify (\<lambda>s. s\<lparr>svc_management_capable :=
       (if capable then insert actor (svc_management_capable s) else svc_management_capable s - {actor})\<rparr>)) (\<lambda>_.
     sbind (sread (list_networks_for_device actor)) (\<lambda>networks.
     sbind (smap (\<lambda>n. sbind (sread (network_policy (network_id n))) (\<lambda>policy.
       if managed policy then announce (network_id n) else sreturn [])) networks) (\<lambda>changes.
     sreturn (concat changes))))"

definition record_authenticated_device :: "DeviceId \<Rightarrow> int \<Rightarrow> unit svc" where
  "record_authenticated_device actor now_ms =
     sbind (slift (require_actor_and_time actor now_ms)) (\<lambda>_.
     sbind (squery (\<lambda>s. Inr (device_allowed s actor))) (\<lambda>allowed.
     if \<not> allowed then sthrow (Runtime_error ''device enrollment revoked'')
     else sstore (record_device actor now_ms)))"

text \<open>The loop of \<open>publish_device_key\<close> and \<open>remove_device_key\<close>: an owner's key also opens a new epoch.\<close>

definition announce_networks :: "DeviceId \<Rightarrow> RoutedPeerStateChange list svc" where
  "announce_networks actor =
     sbind (sread (list_networks_for_device actor)) (\<lambda>networks.
     sbind (smap (\<lambda>n. sbind (if owner_device_id n = actor then advance_key_epoch (network_id n) else sreturn ()) (\<lambda>_.
       announce (network_id n))) networks) (\<lambda>changes.
     sreturn (concat changes)))"

definition publish_device_key :: "Environment \<Rightarrow> DeviceId \<Rightarrow> bytes \<Rightarrow> SignedDeviceKey \<Rightarrow> int \<Rightarrow> RoutedPeerStateChange list svc" where
  "publish_device_key env actor session_id signed_key now_ms =
     sbind (slift (require_actor_and_time actor now_ms)) (\<lambda>_.
     sbind (if is_zero session_id then sreturn False
            else slift (verify_signed_device_key (env_crypto env) signed_key actor)) (\<lambda>valid.
     if \<not> valid then sthrow (Invalid_argument ''authenticated device key is invalid'')
     else sbind (sstore (record_device actor now_ms)) (\<lambda>_.
     sbind (squery (\<lambda>s. Inr (device_allowed s actor))) (\<lambda>allowed.
     if \<not> allowed then sthrow (Runtime_error ''device enrollment revoked'')
     else sbind (smodify (\<lambda>s. s\<lparr>svc_active_keys := upsert_row actor
         \<lparr>active_session = session_id, active_signed_key = signed_key\<rparr> (svc_active_keys s)\<rparr>)) (\<lambda>_.
     announce_networks actor)))))"

definition remove_device_key :: "DeviceId \<Rightarrow> bytes \<Rightarrow> RoutedPeerStateChange list svc" where
  "remove_device_key actor session_id =
     sbind (squery (\<lambda>s. Inr (map_of (svc_active_keys s) actor))) (\<lambda>found.
     case found of None \<Rightarrow> sreturn []
     | Some key \<Rightarrow>
     if active_session key \<noteq> session_id then sreturn []
     else sbind (smodify (\<lambda>s. s\<lparr>svc_active_keys := filter (\<lambda>e. fst e \<noteq> actor) (svc_active_keys s),
         svc_management_capable := svc_management_capable s - {actor},
         svc_sender_fanout := filter (\<lambda>e. snd (fst e) \<noteq> actor) (svc_sender_fanout s),
         svc_fanout_replay := filter (\<lambda>e. snd (fst e) \<noteq> actor) (svc_fanout_replay s)\<rparr>)) (\<lambda>_.
       announce_networks actor))"

text \<open>The loop of \<open>publish_network_keys\<close>: the first failing envelope decides.\<close>

fun check_envelopes :: "Environment \<Rightarrow> NetworkService \<Rightarrow> NetworkId \<Rightarrow> DeviceId \<Rightarrow> SignedDeviceKey \<Rightarrow> NetworkPolicy \<Rightarrow> DeviceId list \<Rightarrow>
    NetworkKeyEnvelope list \<Rightarrow> NetworkResultCode res" where
  "check_envelopes env s n actor owner_key policy recipients [] = Inr RC_success"
| "check_envelopes env s n actor owner_key policy recipients (e # rest) =
     (if env_network e \<noteq> n \<or> env_owner e \<noteq> actor \<or> env_recipient e = actor \<or> env_recipient e \<in> set recipients \<or>
         key_encryption owner_key \<noteq> env_owner_key e then Inr RC_invalid_request
      else res_bind (verify_network_key_envelope (env_crypto env) e (key_identity owner_key)) (\<lambda>genuine.
        if \<not> genuine then Inr RC_invalid_request
        else if env_epoch e \<noteq> key_epoch_for s n then Inr RC_conflict
        else if managed policy \<and> env_recipient e \<notin> svc_management_capable s then Inr RC_permission_denied
        else res_bind (find_virtual_ipv4_lease n (env_recipient e) (svc_store s)) (\<lambda>lease.
          if lease = None \<or> (case map_of (svc_active_keys s) (env_recipient e) of None \<Rightarrow> True
              | Some key \<Rightarrow> key_encryption (active_signed_key key) \<noteq> env_recipient_key e)
          then Inr RC_target_not_found
          else check_envelopes env s n actor owner_key policy (env_recipient e # recipients) rest)))"

definition publish_network_keys :: "Environment \<Rightarrow> DeviceId \<Rightarrow> NetworkKeyPublishRequest \<Rightarrow> NetworkKeyPublishOutcome svc" where
  "publish_network_keys env actor request = squery (\<lambda>s.
     if is_zero actor \<or> length (envelopes request) > max_network_peer_entries
     then Inr \<lparr>publish_code = RC_invalid_request, publish_network = no_network, publish_envelopes = []\<rparr>
     else case envelopes request of [] \<Rightarrow> Inr \<lparr>publish_code = RC_invalid_request, publish_network = no_network, publish_envelopes = []\<rparr>
     | first # rest \<Rightarrow>
       let n = env_network first;
           denied = (\<lambda>code. Inr \<lparr>publish_code = code, publish_network = n, publish_envelopes = []\<rparr>) in
       res_bind (find_network n (svc_store s)) (\<lambda>network.
       case network of None \<Rightarrow> denied RC_not_found
       | Some net \<Rightarrow>
       res_bind (network_policy n (svc_store s)) (\<lambda>policy.
       if managed policy \<and> actor \<notin> svc_management_capable s then denied RC_permission_denied
       else case map_of (svc_active_keys s) actor of None \<Rightarrow> denied RC_permission_denied
       | Some owner_key \<Rightarrow>
       if owner_device_id net \<noteq> actor then denied RC_permission_denied
       else res_bind (check_envelopes env s n actor (active_signed_key owner_key) policy [] (envelopes request)) (\<lambda>code.
         if code = RC_success
         then Inr \<lparr>publish_code = RC_success, publish_network = n, publish_envelopes = envelopes request\<rparr>
         else denied code))))"

definition peer_state :: "DeviceId \<Rightarrow> NetworkSelectionRequest \<Rightarrow> int \<Rightarrow> NetworkPeerStateOutcome svc" where
  "peer_state actor request now_ms =
     (let n = selection_network request;
          failed = (\<lambda>code. sreturn \<lparr>peer_outcome_code = code, peer_outcome_state = None\<rparr>) in
      sbind (slift (require_actor_and_time actor now_ms)) (\<lambda>_.
      sbind (slift (require_selection_request request)) (\<lambda>_.
      scatch
        (sbind (sstore (record_device actor now_ms)) (\<lambda>_.
         sbind (sread (find_network n)) (\<lambda>network.
         if network = None then failed RC_not_found
         else sbind (sread (find_virtual_ipv4_lease n actor)) (\<lambda>lease.
         if lease = None then failed RC_not_member
         else sbind (squery (\<lambda>s. make_peer_state s n actor (revision_for s n))) (\<lambda>state.
         sreturn \<lparr>peer_outcome_code = RC_success, peer_outcome_state = Some state\<rparr>)))))
        (\<lambda>e. failed RC_internal_error))))"

definition peer_states_for_device :: "DeviceId \<Rightarrow> RoutedPeerStateChange list svc" where
  "peer_states_for_device actor =
     (if is_zero actor then sthrow (Invalid_argument ''peer state requires an authenticated device'')
      else sbind (sread (list_networks_for_device actor)) (\<lambda>networks.
      smap (\<lambda>n. sbind (squery (\<lambda>s. make_peer_state s (network_id n) actor (revision_for s (network_id n)))) (\<lambda>state.
        sreturn \<lparr>change_recipient = actor, change_state = Some state, change_revocation = no_revocation\<rparr>)) networks))"

section \<open>Quotas\<close>

definition admit_control :: "Environment \<Rightarrow> DeviceId \<Rightarrow> bool svc" where
  "admit_control env actor = sbind (time_source env) (\<lambda>now s.
     (case control actor now (svc_quota s) of (ok, q) \<Rightarrow> (Inr ok, s\<lparr>svc_quota := q\<rparr>)))"

definition set_forwarding_limits :: "ForwardingLimits \<Rightarrow> unit svc" where
  "set_forwarding_limits limits s =
     (case configure limits (svc_quota s) of Inl e \<Rightarrow> (Inl e, s) | Inr q \<Rightarrow> (Inr (), s\<lparr>svc_quota := q\<rparr>))"

definition forwarding_metrics :: "NetworkService \<Rightarrow> ForwardingMetrics" where
  "forwarding_metrics s = metrics (svc_quota s)"

end
