(* ===== verification/Packet_Routing.thy ===== *)
theory Packet_Routing
  imports Network_Service
begin

text \<open>
  \<open>NetworkService::route_encrypted_packet\<close> and \<open>authorize_peer_exchange\<close>: which encrypted packets the
  relay forwards, to whom, how often. Token counts are rationals: the rounding of \<open>double\<close> is not
  modelled.
\<close>

section \<open>The replay window of a sender\<close>

definition new_replay :: FanoutReplay where
  "new_replay = \<lparr>replay_epoch = 0, replay_session_key = replicate 32 0, replay_nonce_prefix = replicate 8 0,
     replay_highest = 0, replay_seen = 0\<rparr>"

text \<open>The entry of the map after the check of epoch and session.\<close>

definition current_replay :: "64 word \<Rightarrow> bytes \<Rightarrow> FanoutReplay option \<Rightarrow> FanoutReplay" where
  "current_replay epoch session_key entry =
     (let replay = (case entry of None \<Rightarrow> new_replay | Some r \<Rightarrow> r) in
      if replay_epoch replay \<noteq> epoch \<or> replay_session_key replay \<noteq> session_key
      then \<lparr>replay_epoch = epoch, replay_session_key = session_key, replay_nonce_prefix = replicate 8 0,
            replay_highest = 0, replay_seen = 0\<rparr>
      else replay)"

definition replayed :: "FanoutReplay \<Rightarrow> EncryptedNetworkPacket \<Rightarrow> bool" where
  "replayed replay packet \<longleftrightarrow> replay_highest replay \<noteq> 0 \<and>
     (replay_nonce_prefix replay \<noteq> take 8 (packet_nonce packet) \<or>
      (packet_sequence packet \<le> replay_highest replay \<and>
       (replay_highest replay - packet_sequence packet \<ge> 64 \<or>
        replay_seen replay AND push_bit (unat (replay_highest replay - packet_sequence packet)) 1 \<noteq> 0)))"

definition mark_seen :: "EncryptedNetworkPacket \<Rightarrow> FanoutReplay \<Rightarrow> FanoutReplay" where
  "mark_seen packet replay0 =
     (let replay = (if replay_highest replay0 = 0 then replay0\<lparr>replay_nonce_prefix := take 8 (packet_nonce packet)\<rparr> else replay0);
          sequence = packet_sequence packet in
      if sequence > replay_highest replay
      then let distance = sequence - replay_highest replay in
        replay\<lparr>replay_seen := (if distance \<ge> 64 then 1 else push_bit (unat distance) (replay_seen replay) OR 1),
          replay_highest := sequence\<rparr>
      else replay\<lparr>replay_seen := replay_seen replay OR push_bit (unat (replay_highest replay - sequence)) 1\<rparr>)"

section \<open>Fan-out tokens\<close>

definition new_fanout_bucket :: FanoutBucket where
  "new_fanout_bucket = \<lparr>fanout_tokens = 0, fanout_updated = 0, fanout_initialized = False\<rparr>"

definition replenish :: "int \<Rightarrow> rat \<Rightarrow> rat \<Rightarrow> FanoutBucket \<Rightarrow> FanoutBucket" where
  "replenish now capacity per_second bucket =
     (if \<not> fanout_initialized bucket then bucket\<lparr>fanout_tokens := capacity, fanout_initialized := True, fanout_updated := now\<rparr>
      else if now > fanout_updated bucket
      then bucket\<lparr>fanout_tokens := min capacity (fanout_tokens bucket + seconds_between (fanout_updated bucket) now * per_second),
        fanout_updated := now\<rparr>
      else bucket\<lparr>fanout_updated := now\<rparr>)"

definition fanout_at :: "('k \<times> FanoutBucket) list \<Rightarrow> 'k \<Rightarrow> FanoutBucket" where
  "fanout_at m k = (case map_of m k of None \<Rightarrow> new_fanout_bucket | Some b \<Rightarrow> b)"

definition spend_tokens :: "rat \<Rightarrow> FanoutBucket \<Rightarrow> FanoutBucket" where
  "spend_tokens k b = b\<lparr>fanout_tokens := fanout_tokens b - k\<rparr>"

section \<open>Routing\<close>

definition routed :: "DeviceId \<Rightarrow> EncryptedNetworkPacket \<Rightarrow> DeviceId \<Rightarrow> RoutedEncryptedPacket" where
  "routed actor packet recipient = \<lparr>packet_recipient = recipient,
     packet_delivery = \<lparr>forwarded_sender = actor, forwarded_packet = packet\<rparr>\<rparr>"

text \<open>The recipients of a fan-out packet among the leases of the network.\<close>

fun fanout_deliveries :: "NetworkService \<Rightarrow> DeviceId \<Rightarrow> EncryptedNetworkPacket \<Rightarrow> VirtualIpv4LeaseRecord list \<Rightarrow>
    RoutedEncryptedPacket list res" where
  "fanout_deliveries s actor packet [] = Inr []"
| "fanout_deliveries s actor packet (l # rest) =
     (if lease_device l = actor \<or> map_of (svc_active_keys s) (lease_device l) = None then fanout_deliveries s actor packet rest
      else res_bind (traffic_allowed s (packet_network packet) actor (lease_device l) True) (\<lambda>allowed.
        res_bind (fanout_deliveries s actor packet rest) (\<lambda>deliveries.
        Inr (if allowed then routed actor packet (lease_device l) # deliveries else deliveries))))"

text \<open>\<open>quota_.admit(actor, network, size, recipients, now)\<close> with the size of the forwarded packet.\<close>

definition quota_admit :: "DeviceId \<Rightarrow> EncryptedNetworkPacket \<Rightarrow> nat \<Rightarrow> int \<Rightarrow> bool svc" where
  "quota_admit actor packet recipients now =
     sbind (slift (encode_forwarded_network_packet \<lparr>forwarded_sender = actor, forwarded_packet = packet\<rparr>)) (\<lambda>wire s.
     case admit actor (packet_network packet) (word_of_nat (length wire)) (word_of_nat recipients) now (svc_quota s) of
       (ok, q) \<Rightarrow> (Inr ok, s\<lparr>svc_quota := q\<rparr>))"

text \<open>From the clock to the end: the tokens, the quota, the replay window.\<close>

definition send_fanout :: "Environment \<Rightarrow> DeviceId \<Rightarrow> EncryptedNetworkPacket \<Rightarrow> FanoutReplay \<Rightarrow> RoutedEncryptedPacket list \<Rightarrow>
    RoutedEncryptedPacket list svc" where
  "send_fanout env actor packet replay deliveries =
     (let n = packet_network packet; k = (n, actor) in
      sbind (time_source env) (\<lambda>now.
      sbind (squery (\<lambda>s. Inr (replenish now 16 8 (fanout_at (svc_sender_fanout s) k),
            replenish now 256 128 (fanout_at (svc_network_fanout s) n)))) (\<lambda>(sender_bucket, network_bucket).
      sbind (smodify (\<lambda>s. s\<lparr>svc_sender_fanout := upsert_row k sender_bucket (svc_sender_fanout s),
            svc_network_fanout := upsert_row n network_bucket (svc_network_fanout s)\<rparr>)) (\<lambda>_.
      if fanout_tokens sender_bucket < 1 \<or> fanout_tokens network_bucket < of_nat (length deliveries) then sreturn []
      else sbind (quota_admit actor packet (length deliveries) now) (\<lambda>ok.
      if \<not> ok then sreturn []
      else sbind (smodify (\<lambda>s. s\<lparr>svc_sender_fanout := upsert_row k (spend_tokens 1 sender_bucket) (svc_sender_fanout s),
            svc_network_fanout := upsert_row n (spend_tokens (of_nat (length deliveries)) network_bucket) (svc_network_fanout s),
            svc_fanout_replay := upsert_row k (mark_seen packet replay) (svc_fanout_replay s)\<rparr>)) (\<lambda>_.
      sreturn deliveries))))))"

definition route_fanout :: "Environment \<Rightarrow> DeviceId \<Rightarrow> ActiveKey \<Rightarrow> EncryptedNetworkPacket \<Rightarrow> VirtualIpv4LeaseRecord list \<Rightarrow>
    RoutedEncryptedPacket list svc" where
  "route_fanout env actor key packet leases =
     (let k = (packet_network packet, actor) in
      if length (packet_ciphertext packet) > 1400 then sreturn []
      else sbind (squery (\<lambda>s. Inr (current_replay (packet_epoch packet) (key_encryption (active_signed_key key))
            (map_of (svc_fanout_replay s) k)))) (\<lambda>replay.
      sbind (smodify (\<lambda>s. s\<lparr>svc_fanout_replay := upsert_row k replay (svc_fanout_replay s)\<rparr>)) (\<lambda>_.
      if replayed replay packet then sreturn []
      else sbind (squery (\<lambda>s. fanout_deliveries s actor packet leases)) (\<lambda>deliveries.
      if deliveries = [] then sreturn [] else send_fanout env actor packet replay deliveries))))"

definition route_unicast :: "Environment \<Rightarrow> DeviceId \<Rightarrow> EncryptedNetworkPacket \<Rightarrow> VirtualIpv4LeaseRecord list \<Rightarrow>
    RoutedEncryptedPacket list svc" where
  "route_unicast env actor packet leases =
     (case find (\<lambda>l. lease_address l = packet_destination packet) leases of
        None \<Rightarrow> sreturn []
      | Some l \<Rightarrow>
      sbind (squery (\<lambda>s. if map_of (svc_active_keys s) (lease_device l) = None then Inr False
        else traffic_allowed s (packet_network packet) actor (lease_device l) False)) (\<lambda>allowed.
      if \<not> allowed then sreturn []
      else sbind (time_source env) (\<lambda>now. sbind (quota_admit actor packet 1 now) (\<lambda>ok.
      if \<not> ok then sreturn [] else sreturn [routed actor packet (lease_device l)]))))"

definition route_encrypted_packet :: "Environment \<Rightarrow> DeviceId \<Rightarrow> EncryptedNetworkPacket \<Rightarrow> RoutedEncryptedPacket list svc" where
  "route_encrypted_packet env actor packet =
     (let n = packet_network packet in
      sbind (squery (\<lambda>s. Inr (is_zero actor \<or> \<not> device_allowed s actor))) (\<lambda>unknown.
      if unknown then sreturn []
      else sbind (slift (encode_encrypted_network_packet packet)) (\<lambda>_.
      sbind (sread (find_network n)) (\<lambda>network.
      sbind (squery (\<lambda>s. Inr (key_epoch_for s n, map_of (svc_active_keys s) actor))) (\<lambda>(epoch, active).
      case (network, active) of (Some _, Some key) \<Rightarrow>
        if packet_epoch packet \<noteq> epoch then sreturn []
        else sbind (sread (find_virtual_ipv4_lease n actor)) (\<lambda>sender.
        case sender of None \<Rightarrow> sreturn []
        | Some own \<Rightarrow>
          if lease_address own = packet_destination packet then sreturn []
          else sbind (sread (find_subnet n)) (\<lambda>subnet.
          case subnet of None \<Rightarrow> sreturn []
          | Some sub \<Rightarrow> sbind (sread (list_virtual_ipv4_leases n)) (\<lambda>leases.
            if is_ipv4_fanout_destination (packet_destination packet) (subnet_address sub) (subnet_prefix sub)
            then route_fanout env actor key packet leases
            else route_unicast env actor packet leases)))
      | _ \<Rightarrow> sreturn [])))))"

definition authorize_peer_exchange :: "DeviceId \<Rightarrow> CandidateExchange \<Rightarrow> NetworkService \<Rightarrow> bool res" where
  "authorize_peer_exchange actor x s =
     (let n = exchange_network x; peer = exchange_recipient x in
      if \<not> device_allowed s actor \<or> \<not> device_allowed s peer \<or> actor \<noteq> exchange_sender x \<or> actor = peer then Inr False
      else res_bind (traffic_allowed s n actor peer False) (\<lambda>allowed. if \<not> allowed then Inr False
      else res_bind (find_virtual_ipv4_lease n actor (svc_store s)) (\<lambda>own. if own = None then Inr False
      else res_bind (find_virtual_ipv4_lease n peer (svc_store s)) (\<lambda>other.
        if other = None \<or> key_epoch_for s n \<noteq> exchange_epoch x then Inr False
        else Inr (case (map_of (svc_active_keys s) actor, map_of (svc_active_keys s) peer) of
            (Some a, Some b) \<Rightarrow> key_encryption (active_signed_key a) = exchange_sender_session x \<and>
               key_encryption (active_signed_key b) = exchange_recipient_session x
          | _ \<Rightarrow> False)))))"

end
