(* ===== verification/Management_Service.thy ===== *)
theory Management_Service
  imports Network_Service
begin

text \<open>
  \<open>NetworkService::manage_network\<close>: inspecting and replacing the policy of a network, and asking to
  become a gateway. The checks of a new policy form a pipeline in which the first failure decides.
\<close>

section \<open>Checks\<close>

fun first_failure :: "('a \<Rightarrow> NetworkResultCode option res) \<Rightarrow> 'a list \<Rightarrow> NetworkResultCode option res" where
  "first_failure check [] = Inr None"
| "first_failure check (x # rest) = res_bind (check x) (\<lambda>failure.
     case failure of None \<Rightarrow> first_failure check rest | Some code \<Rightarrow> Inr (Some code))"

definition fail_if :: "NetworkResultCode \<Rightarrow> bool \<Rightarrow> NetworkResultCode option" where
  "fail_if code bad = (if bad then Some code else None)"

text \<open>The lambda \<open>member\<close>.\<close>

definition member_or_none :: "NetworkId \<Rightarrow> RelayStore \<Rightarrow> DeviceId \<Rightarrow> bool res" where
  "member_or_none n db d = (if d = no_device then Inr True
     else res_bind (find_virtual_ipv4_lease n d db) (\<lambda>lease. Inr (lease \<noteq> None)))"

definition check_hub :: "NetworkId \<Rightarrow> RelayStore \<Rightarrow> DeviceId \<Rightarrow> NetworkResultCode option res" where
  "check_hub n db hub = res_bind (member_or_none n db hub) (\<lambda>known. Inr (fail_if RC_target_not_found (\<not> known)))"

definition check_rule :: "NetworkId \<Rightarrow> RelayStore \<Rightarrow> AccessRule \<Rightarrow> NetworkResultCode option res" where
  "check_rule n db rule = res_bind (member_or_none n db (subject_device (rule_first rule))) (\<lambda>first.
     if \<not> first then Inr (Some RC_target_not_found)
     else res_bind (member_or_none n db (subject_device (rule_second rule))) (\<lambda>other.
       Inr (fail_if RC_target_not_found (\<not> other))))"

definition check_gateway :: "NetworkId \<Rightarrow> RelayStore \<Rightarrow> ManagementAction \<Rightarrow> DeviceId \<Rightarrow> NetworkPolicy \<Rightarrow> NetworkPolicy \<Rightarrow>
    GatewayNode \<Rightarrow> NetworkResultCode option res" where
  "check_gateway n db action actor current next gateway =
     res_bind (member_or_none n db (gateway_device gateway)) (\<lambda>known.
     if \<not> known \<or> policy_role next (gateway_device gateway) = Role_restricted then Inr (Some RC_target_not_found)
     else let requested = list_ex (\<lambda>old. gateway_device old = gateway_device gateway) (gateways current) in
       Inr (fail_if RC_permission_denied (\<not> requested \<and>
         (action \<noteq> MA_request_gateway \<or> gateway_device gateway \<noteq> actor \<or> gateway_approved gateway))))"

definition check_assignment :: "NetworkId \<Rightarrow> RelayStore \<Rightarrow> DeviceId \<Rightarrow> MemberPolicy \<Rightarrow> NetworkResultCode option res" where
  "check_assignment n db owner assignment =
     res_bind (member_or_none n db (member_device assignment)) (\<lambda>known.
     res_bind (if known then Inr True
       else if member_role assignment = Role_restricted
       then res_bind (find_device (member_device assignment) db) (\<lambda>device. Inr (device \<noteq> None)) else Inr False) (\<lambda>acceptable.
     Inr (fail_if RC_invalid_request
       (\<not> acceptable \<or> (member_device assignment = owner \<and> member_role assignment \<noteq> Role_member)))))"

text \<open>An administrator cannot change, remove or grant roles, including its own.\<close>

definition keeps_roles :: "NetworkPolicy \<Rightarrow> NetworkPolicy \<Rightarrow> bool" where
  "keeps_roles current next \<longleftrightarrow> managed next \<and>
     list_all (\<lambda>a. member_role a = policy_role current (member_device a)) (members next) \<and>
     list_all (\<lambda>a. member_role a = policy_role next (member_device a)) (members current)"

text \<open>A routed subnet avoids the overlay pool, the network's own subnet and every other network's routes.\<close>

definition check_foreign :: "NetworkId \<Rightarrow> RelayStore \<Rightarrow> RoutedSubnet \<Rightarrow> NetworkRecord \<Rightarrow> NetworkResultCode option res" where
  "check_foreign n db route other = (if network_id other = n then Inr None
     else res_bind (network_policy (network_id other) db) (\<lambda>policy.
       Inr (fail_if RC_conflict (list_ex (\<lambda>existing. subnets_overlap (route_address route) (route_prefix route)
         (route_address existing) (route_prefix existing)) (routes policy)))))"

definition check_route :: "NetworkId \<Rightarrow> RelayStore \<Rightarrow> NetworkSubnetRecord option \<Rightarrow> RoutedSubnet \<Rightarrow> NetworkResultCode option res" where
  "check_route n db subnet route =
     (if subnets_overlap (route_address route) (route_prefix route) virtual_ipv4_pool_first 10 then Inr (Some RC_conflict)
      else res_bind (member_or_none n db (route_gateway route)) (\<lambda>known.
      if \<not> known then Inr (Some RC_target_not_found)
      else if (case subnet of None \<Rightarrow> False
        | Some sub \<Rightarrow> subnets_overlap (route_address route) (route_prefix route) (subnet_address sub) (subnet_prefix sub))
      then Inr (Some RC_conflict)
      else res_bind (load_state db) (\<lambda>all. first_failure (check_foreign n db route) (state_networks all))))"

text \<open>The whole pipeline, from the hubs to the routes.\<close>

definition or_else :: "NetworkResultCode option res \<Rightarrow> NetworkResultCode option res \<Rightarrow> NetworkResultCode option res" where
  "or_else a b = res_bind a (\<lambda>failure. case failure of None \<Rightarrow> b | Some code \<Rightarrow> Inr (Some code))"

definition check_policy :: "NetworkId \<Rightarrow> RelayStore \<Rightarrow> ManagementAction \<Rightarrow> DeviceId \<Rightarrow> DeviceId \<Rightarrow> NetworkPolicy \<Rightarrow>
    NetworkPolicy \<Rightarrow> NetworkPolicy \<Rightarrow> NetworkResultCode option res" where
  "check_policy n db action actor owner requested current next =
     or_else (first_failure (check_hub n db) (hubs requested))
    (or_else (first_failure (check_rule n db) (rules requested))
    (or_else (first_failure (check_gateway n db action actor current next) (gateways next))
    (or_else (first_failure (check_assignment n db owner) (members next))
    (or_else (Inr (fail_if RC_permission_denied (actor \<noteq> owner \<and> action = MA_replace_policy \<and> \<not> keeps_roles current next)))
     (res_bind (find_subnet n db) (\<lambda>subnet.
      or_else (first_failure (check_route n db subnet) (routes next))
        (Inr (fail_if RC_conflict (revision next \<noteq> revision current \<or> revision next = uint64_max)))))))))"

section \<open>The handler\<close>

definition management_outcome :: "ManagementRequest \<Rightarrow> NetworkResultCode \<Rightarrow> NetworkPolicy \<Rightarrow> ManagementResult" where
  "management_outcome request code policy = \<lparr>managed_action = manage_action request, managed_network = manage_network request,
     managed_code = code, managed_pending = [], managed_audit_events = [], managed_audit_write_failures = 0,
     managed_policy = policy\<rparr>"

definition management_audit_kind :: "ManagementAction \<Rightarrow> AuditKind" where
  "management_audit_kind action = (if action = MA_request_gateway then AK_gateway_request else AK_policy_change)"

definition inspect_network :: "DeviceId \<Rightarrow> ManagementRequest \<Rightarrow> int \<Rightarrow> NetworkPolicy \<Rightarrow> NetworkService \<Rightarrow> ManagementResult res" where
  "inspect_network actor request now_ms policy s =
     (let n = manage_network request; out = management_outcome request RC_success policy in
      res_bind (can_manage_network n actor s) (\<lambda>allowed.
      if \<not> allowed then Inr out
      else res_bind (list_join_requests_for_network n (svc_store s)) (\<lambda>pending.
        res_bind (audit_events n now_ms 64 (svc_store s)) (\<lambda>events.
        Inr (out\<lparr>managed_pending := map requested_device (take max_network_peer_entries pending),
          managed_audit_events := events, managed_audit_write_failures := svc_audit_write_failures s\<rparr>)))))"

text \<open>What a request may do at all, and the policy it asks for.\<close>

definition proposed_policy :: "DeviceId \<Rightarrow> ManagementRequest \<Rightarrow> NetworkPolicy \<Rightarrow> NetworkService \<Rightarrow>
    (NetworkResultCode + NetworkPolicy) res" where
  "proposed_policy actor request current s =
     (if actor \<notin> svc_management_capable s then Inr (Inl RC_permission_denied)
      else if manage_action request = MA_request_gateway
      then if \<not> managed current \<or> policy_role current actor = Role_restricted then Inr (Inl RC_permission_denied)
        else if revision (manage_policy request) \<noteq> revision current then Inr (Inl RC_conflict)
        else if list_ex (\<lambda>g. gateway_device g = actor) (gateways current) then Inr (Inl RC_already_exists)
        else if length (gateways current) \<ge> 16 then Inr (Inl RC_limit_reached)
        else Inr (Inr (current\<lparr>gateways := gateways current @ [\<lparr>gateway_device = actor, gateway_approved = False\<rparr>]\<rparr>))
      else res_bind (can_manage_network (manage_network request) actor s) (\<lambda>allowed.
        Inr (if allowed then Inr (manage_policy request) else Inl RC_permission_denied)))"

definition malformed_proposal :: "ManagementAction \<Rightarrow> NetworkPolicy \<Rightarrow> bool" where
  "malformed_proposal action next \<longleftrightarrow> (action \<noteq> MA_replace_policy \<and> action \<noteq> MA_request_gateway) \<or>
     (topology next = Topology_hub_spoke \<and> hubs next = [])"

text \<open>From the policy as stored to the result; the second component is \<open>*changes\<close>.\<close>

definition replace_policy :: "DeviceId \<Rightarrow> ManagementRequest \<Rightarrow> int \<Rightarrow> NetworkRecord \<Rightarrow> NetworkPolicy \<Rightarrow>
    (ManagementResult \<times> RoutedPeerStateChange list) svc" where
  "replace_policy actor request now_ms net current =
     (let n = manage_network request; action = manage_action request;
          failed = (\<lambda>code. sreturn (management_outcome request code current, [])) in
      sbind (squery (proposed_policy actor request current)) (\<lambda>proposal.
      case proposal of Inl code \<Rightarrow> failed code
      | Inr next \<Rightarrow>
      if malformed_proposal action next then failed RC_invalid_request
      else sbind (sread (\<lambda>db. check_policy n db action actor (owner_device_id net) (manage_policy request) current next)) (\<lambda>failure.
      case failure of Some code \<Rightarrow> failed code
      | None \<Rightarrow>
      (let saved = next\<lparr>revision := revision next + 1\<rparr> in
       sbind (sstore (save_network_policy n saved (revision current) (Some \<lparr>audit_sequence = 0,
         audit_timestamp_ms = word_of_int now_ms, audit_network = n, audit_actor = actor, audit_target = actor,
         audit_kind = management_audit_kind action, audit_result = RC_success,
         audit_policy_revision = revision saved\<rparr>))) (\<lambda>stored.
       if \<not> stored then failed RC_conflict
       else sbind (advance_key_epoch n) (\<lambda>_. sbind (announce n) (\<lambda>changes.
         sreturn (management_outcome request RC_success saved, changes))))))))"

definition manage_body :: "DeviceId \<Rightarrow> ManagementRequest \<Rightarrow> int \<Rightarrow> (ManagementResult \<times> RoutedPeerStateChange list) svc" where
  "manage_body actor request now_ms =
     (let n = manage_network request;
          failed = (\<lambda>code. sreturn (management_outcome request code default_policy, [])) in
      sbind (sread (find_network n)) (\<lambda>network.
      case network of None \<Rightarrow> failed RC_not_found
      | Some net \<Rightarrow>
      sbind (squery (\<lambda>s. if \<not> device_allowed s actor then Inr None else find_virtual_ipv4_lease n actor (svc_store s))) (\<lambda>lease.
      if lease = None then failed RC_not_member
      else sbind (sread (network_policy n)) (\<lambda>current.
      if manage_action request = MA_inspect
      then sbind (squery (inspect_network actor request now_ms current)) (\<lambda>out. sreturn (out, []))
      else replace_policy actor request now_ms net current))))"

text \<open>
  \<open>AuditAtExit denied\<close> runs when the method returns; a request that throws leaves \<open>out.code\<close> at
  \<open>success\<close>, so it writes nothing then.
\<close>

definition service_manage_network :: "Environment \<Rightarrow> DeviceId \<Rightarrow> ManagementRequest \<Rightarrow> int \<Rightarrow>
    (ManagementResult \<times> RoutedPeerStateChange list) svc" where
  "service_manage_network env actor request now_ms =
     sbind (slift (require_actor_and_time actor now_ms)) (\<lambda>_.
     sbind (slift (encode_management_request request)) (\<lambda>_.
     sbind (manage_body actor request now_ms) (\<lambda>(out, changes).
     sbind (if manage_action request \<noteq> MA_inspect \<and> managed_code out \<noteq> RC_success
       then audit_locked env (management_audit_kind (manage_action request)) actor actor (manage_network request)
         (managed_code out) now_ms (revision (managed_policy out))
       else sreturn ()) (\<lambda>_.
     sreturn (out, changes)))))"

end
