(* ===== verification/Access_Service.thy ===== *)
theory Access_Service
  imports Network_Service
begin

text \<open>
  \<open>NetworkService::access_request\<close>: accounts and their devices, network passwords, invitation links,
  and the limiter \<open>allow_access_attempt\<close> in front of every guess of a secret.
\<close>

section \<open>The limiter\<close>

definition attempt_keys :: "DeviceId \<Rightarrow> NetworkId \<Rightarrow> (NetworkId \<times> DeviceId) list" where
  "attempt_keys actor n = [(n, actor), (no_network, actor), (n, no_device), (no_network, no_device)]"

definition attempt_limits :: "32 word list" where "attempt_limits = [5, 10, 20, 40]"

definition window_of :: "((NetworkId \<times> DeviceId) \<times> AccessWindow) list \<Rightarrow> int \<Rightarrow> NetworkId \<times> DeviceId \<Rightarrow> AccessWindow" where
  "window_of m now k = (case map_of m k of None \<Rightarrow> \<lparr>window_start = now, window_attempts = 0\<rparr> | Some w \<Rightarrow> w)"

text \<open>The first loop: \<open>try_emplace\<close> each window, stop at the first that is exhausted.\<close>

fun open_windows :: "int \<Rightarrow> ((NetworkId \<times> DeviceId) \<times> 32 word) list \<Rightarrow> ((NetworkId \<times> DeviceId) \<times> AccessWindow) list \<Rightarrow>
    bool \<times> ((NetworkId \<times> DeviceId) \<times> AccessWindow) list" where
  "open_windows now [] m = (True, m)"
| "open_windows now ((k, limit) # rest) m =
     (let m1 = upsert_row k (window_of m now k) m in
      if window_attempts (window_of m now k) \<ge> limit then (False, m1) else open_windows now rest m1)"

text \<open>The second loop: count the attempt in each window.\<close>

fun count_attempts :: "int \<Rightarrow> (NetworkId \<times> DeviceId) list \<Rightarrow> ((NetworkId \<times> DeviceId) \<times> AccessWindow) list \<Rightarrow>
    ((NetworkId \<times> DeviceId) \<times> AccessWindow) list" where
  "count_attempts now [] m = m"
| "count_attempts now (k # rest) m = count_attempts now rest (upsert_row k
     ((window_of m now k)\<lparr>window_attempts := window_attempts (window_of m now k) + 1\<rparr>) m)"

definition attempt_at :: "int \<Rightarrow> DeviceId \<Rightarrow> NetworkId \<Rightarrow> ((NetworkId \<times> DeviceId) \<times> AccessWindow) list \<Rightarrow>
    bool \<times> ((NetworkId \<times> DeviceId) \<times> AccessWindow) list" where
  "attempt_at now actor n m =
     (let live = filter (\<lambda>e. \<not> now - window_start (snd e) \<ge> minute) m in
      if length live > 4092 then (False, live)
      else case open_windows now (zip (attempt_keys actor n) attempt_limits) live of
        (False, m1) \<Rightarrow> (False, m1)
      | (True, m1) \<Rightarrow> (True, count_attempts now (attempt_keys actor n) m1))"

definition allow_access_attempt :: "Environment \<Rightarrow> DeviceId \<Rightarrow> NetworkId \<Rightarrow> bool svc" where
  "allow_access_attempt env actor n = sbind (time_source env) (\<lambda>now s.
     (case attempt_at now actor n (svc_access_attempts s) of (ok, m) \<Rightarrow> (Inr ok, s\<lparr>svc_access_attempts := m\<rparr>)))"

section \<open>Results\<close>

type_synonym access_outcome = "AccessResult \<times> RoutedPeerStateChange list \<times> RoutedNetworkEvent list"

definition access_outcome_of :: "AccessRequest \<Rightarrow> NetworkResultCode \<Rightarrow> NetworkId \<Rightarrow> AccessResult" where
  "access_outcome_of request code n = \<lparr>access_action = request_action request, access_code = code, access_account = no_device,
     access_network = n, access_text = [], access_secret = [], access_devices = []\<rparr>"

definition answer :: "AccessRequest \<Rightarrow> NetworkResultCode \<Rightarrow> NetworkId \<Rightarrow> access_outcome svc" where
  "answer request code n = sreturn (access_outcome_of request code n, [], [])"

text \<open>\<open>protect_password\<close> draws its salt first.\<close>

definition protect :: "Environment \<Rightarrow> AccessRequest \<Rightarrow> PasswordVerifier svc" where
  "protect env request = sbind (random_nonce env) (\<lambda>nonce.
     slift (protect_password (env_crypto env) nonce (request_secret request) (request_require_approval request)))"

section \<open>Revoking a device\<close>

text \<open>The loop over the networks of the device.\<close>

definition expel :: "DeviceId \<Rightarrow> NetworkRecord \<Rightarrow> RoutedPeerStateChange list svc" where
  "expel d n =
     sbind (sstore (remove_member (network_id n) d)) (\<lambda>_.
     sbind (advance_key_epoch (network_id n)) (\<lambda>_.
     sbind (advance_revision (network_id n)) (\<lambda>rvn.
     sbind (squery (changes_for_members (network_id n) rvn)) (\<lambda>updates.
     sreturn (updates @ [revocation_change d (network_id n) rvn])))))"

definition device_revoke :: "DeviceId \<Rightarrow> AccessRequest \<Rightarrow> access_outcome svc" where
  "device_revoke actor request =
     (let d = request_device request in
      sbind (sread (\<lambda>db. Inr (account_for_device actor db, account_for_device d db))) (\<lambda>(account, target).
      case (account, target) of
        (Some a, Some t) \<Rightarrow>
          if account_owner a \<noteq> actor \<or> account_id t \<noteq> account_id a \<or> d = actor then answer request RC_permission_denied no_network
          else sbind (sread (list_networks_for_device d)) (\<lambda>networks.
          if list_ex (\<lambda>n. owner_device_id n = d) networks then answer request RC_conflict no_network
          else sbind (sstore (revoke_account_device (account_id a) d)) (\<lambda>_.
          sbind (smap (expel d) networks) (\<lambda>changes.
          sbind (smodify (\<lambda>s. s\<lparr>svc_active_keys := filter (\<lambda>e. fst e \<noteq> d) (svc_active_keys s)\<rparr>)) (\<lambda>_.
          sreturn ((access_outcome_of request RC_success no_network)\<lparr>access_account := account_id a\<rparr>, concat changes, [])))))
      | _ \<Rightarrow> answer request RC_permission_denied no_network))"

section \<open>Networks behind a password\<close>

definition create_protected :: "Environment \<Rightarrow> DeviceId \<Rightarrow> AccessRequest \<Rightarrow> int \<Rightarrow> access_outcome svc" where
  "create_protected env actor request now_ms =
     (let creation = \<lparr>create_name = request_text request\<rparr> in
      sbind (slift (encode_network_create_request creation)) (\<lambda>_.
      sbind (allow_access_attempt env actor no_network) (\<lambda>allowed.
      if \<not> allowed then answer request RC_limit_reached no_network
      else sbind (protect env request) (\<lambda>verifier.
      sbind (create_network_locked env actor creation now_ms (Some verifier)) (\<lambda>created.
      sreturn (access_outcome_of request (result_code (outcome_result created)) (result_network (outcome_result created)),
        outcome_changes created, outcome_events created))))))"

text \<open>\<open>join_network_locked\<close> and what \<open>access_request\<close> takes from its outcome.\<close>

definition join_with_credential :: "Environment \<Rightarrow> DeviceId \<Rightarrow> AccessRequest \<Rightarrow> int \<Rightarrow> bool \<Rightarrow> access_outcome svc" where
  "join_with_credential env actor request now_ms credential_verified =
     sbind (join_network_locked env actor (request_network request) now_ms credential_verified) (\<lambda>joined.
     sreturn (access_outcome_of request (result_code (outcome_result joined)) (request_network request),
       outcome_changes joined, outcome_events joined))"

definition password_request :: "Environment \<Rightarrow> DeviceId \<Rightarrow> AccessRequest \<Rightarrow> int \<Rightarrow> access_outcome svc" where
  "password_request env actor request now_ms =
     (let n = request_network request in
      sbind (allow_access_attempt env actor n) (\<lambda>allowed.
      if \<not> allowed then answer request RC_limit_reached n
      else sbind (sread (find_network n)) (\<lambda>network.
      if request_action request = AA_password_set
      then sbind (if network = None then sreturn False else squery (can_manage_network n actor)) (\<lambda>manager.
        if \<not> manager then answer request RC_permission_denied n
        else if request_secret request = []
        then sbind (sstore (set_network_password n None)) (\<lambda>_. answer request RC_success n)
        else sbind (protect env request) (\<lambda>verifier.
          sbind (sstore (set_network_password n (Some verifier))) (\<lambda>_. answer request RC_success n)))
      else sbind (sread (\<lambda>db. Inr (network_password n db))) (\<lambda>verifier.
        sbind (slift (password_matches (env_crypto env) (request_secret request)
          (case verifier of None \<Rightarrow> \<lparr>password_salt = replicate 32 0, password_digest = replicate 32 0,
             password_require_approval = False\<rparr> | Some v \<Rightarrow> v))) (\<lambda>good.
        if network = None \<or> verifier = None \<or> \<not> good then answer request RC_permission_denied n
        else join_with_credential env actor request now_ms True)))))"

section \<open>Invitation links\<close>

definition issue_link :: "Environment \<Rightarrow> AccessRequest \<Rightarrow> int \<Rightarrow> access_outcome svc" where
  "issue_link env request now_ms =
     (let n = request_network request in
      if request_lifetime_seconds request < 60 \<or> request_lifetime_seconds request > 86400 \<or>
         request_max_uses request = 0 \<or> request_max_uses request > 100
      then answer request RC_invalid_request n
      else sbind (random_nonce env) (\<lambda>nonce.
      let code = random_access_code nonce in
      sbind (slift (access_digest (env_crypto env) code)) (\<lambda>digest.
      sbind (sstore (issue_invite_link n digest now_ms (now_ms + int (unat (request_lifetime_seconds request)) * 1000)
        (request_max_uses request))) (\<lambda>_.
      sbind (slift (make_invite_link n code)) (\<lambda>link.
      sbind (slift (make_invite_code n code)) (\<lambda>short.
      sreturn ((access_outcome_of request RC_success n)\<lparr>access_secret := link, access_text := short\<rparr>, [], [])))))))"

definition redeem_link :: "Environment \<Rightarrow> DeviceId \<Rightarrow> AccessRequest \<Rightarrow> int \<Rightarrow> NetworkRecord option \<Rightarrow> access_outcome svc" where
  "redeem_link env actor request now_ms network =
     (let n = request_network request in
      if network = None \<or> length (request_secret request) \<noteq> 40 then answer request RC_permission_denied n
      else sbind (sread (find_virtual_ipv4_lease n actor)) (\<lambda>lease.
      if lease \<noteq> None then answer request RC_already_exists n
      else sbind (sread (\<lambda>db. res_bind (network_limit_reached db actor) (\<lambda>full. if full then Inr True
        else res_bind (list_members n db) (\<lambda>ms. Inr (length ms \<ge> max_network_peer_entries + 1))))) (\<lambda>full.
      if full then answer request RC_limit_reached n
      else sbind (slift (access_digest (env_crypto env) (request_secret request))) (\<lambda>digest.
      sbind (sstore (redeem_invite_link n digest actor now_ms)) (\<lambda>redeemed.
      if \<not> redeemed then answer request RC_permission_denied n
      else join_with_credential env actor request now_ms False)))))"

definition invitation_request :: "Environment \<Rightarrow> DeviceId \<Rightarrow> AccessRequest \<Rightarrow> int \<Rightarrow> access_outcome svc" where
  "invitation_request env actor request now_ms =
     (let n = request_network request in
      sbind (allow_access_attempt env actor n) (\<lambda>allowed.
      if \<not> allowed then answer request RC_limit_reached n
      else sbind (sread (find_network n)) (\<lambda>network.
      if request_action request \<noteq> AA_invite_redeem
      then sbind (if network = None then sreturn False else squery (can_manage_network n actor)) (\<lambda>manager.
        if \<not> manager then answer request RC_permission_denied n
        else if request_action request = AA_invite_revoke
        then sbind (sstore (revoke_invite_links n)) (\<lambda>_. answer request RC_success n)
        else issue_link env request now_ms)
      else redeem_link env actor request now_ms network)))"

section \<open>Accounts\<close>

text \<open>The end of the handler: the account and its devices, or \<open>not_found\<close>.\<close>

definition account_answer :: "AccessRequest \<Rightarrow> bytes \<Rightarrow> AccountRecord option \<Rightarrow> access_outcome svc" where
  "account_answer request secret account =
     (case account of
        None \<Rightarrow> sreturn ((access_outcome_of request RC_not_found no_network)\<lparr>access_secret := secret\<rparr>, [], [])
      | Some a \<Rightarrow> sbind (sread (\<lambda>db. Inr (account_devices (account_id a) db))) (\<lambda>devices.
          sreturn ((access_outcome_of request RC_success no_network)\<lparr>access_account := account_id a, access_text := account_name a,
            access_secret := secret, access_devices := devices\<rparr>, [], [])))"

definition account_request :: "Environment \<Rightarrow> DeviceId \<Rightarrow> AccessRequest \<Rightarrow> int \<Rightarrow> access_outcome svc" where
  "account_request env actor request now_ms =
     sbind (sread (\<lambda>db. Inr (account_for_device actor db))) (\<lambda>account.
     case request_action request of
       AA_account_create \<Rightarrow>
         if account \<noteq> None then answer request RC_already_exists no_network
         else if request_text request = [] then answer request RC_invalid_request no_network
         else sbind (random_nonce env) (\<lambda>nonce.
           sbind (sstore (create_account \<lparr>account_id = nonce, account_owner = actor, account_name = request_text request\<rparr> now_ms)) (\<lambda>_.
           sbind (sread (\<lambda>db. Inr (account_for_device actor db))) (account_answer request [])))
     | AA_account_status \<Rightarrow> account_answer request [] account
     | AA_enrollment_issue \<Rightarrow>
         (case account of None \<Rightarrow> answer request RC_permission_denied no_network
          | Some a \<Rightarrow> if account_owner a \<noteq> actor then answer request RC_permission_denied no_network
            else sbind (random_nonce env) (\<lambda>nonce. let code = random_access_code nonce in
              sbind (slift (access_digest (env_crypto env) code)) (\<lambda>digest.
              sbind (sstore (issue_enrollment (account_id a) digest (now_ms + 300000))) (\<lambda>_.
              account_answer request code account))))
     | AA_device_enroll \<Rightarrow>
         if length (request_secret request) \<noteq> 40 then answer request RC_permission_denied no_network
         else sbind (slift (access_digest (env_crypto env) (request_secret request))) (\<lambda>digest.
           sbind (sstore (enroll_device digest actor (request_text request) now_ms)) (\<lambda>enrolled.
           if \<not> enrolled then answer request RC_permission_denied no_network
           else sbind (sread (\<lambda>db. Inr (account_for_device actor db))) (account_answer request [])))
     | _ \<Rightarrow> answer request RC_invalid_request no_network)"

section \<open>The handler\<close>

definition access_body :: "Environment \<Rightarrow> DeviceId \<Rightarrow> AccessRequest \<Rightarrow> int \<Rightarrow> access_outcome svc" where
  "access_body env actor request now_ms =
     sbind (squery (\<lambda>s. Inr (device_allowed s actor))) (\<lambda>allowed.
     if \<not> allowed then answer request RC_permission_denied no_network
     else sbind (sstore (record_device actor now_ms)) (\<lambda>_.
     if request_action request = AA_device_revoke then device_revoke actor request
     else if request_action request = AA_network_create_protected then create_protected env actor request now_ms
     else if access_action_raw (request_action request) \<ge> access_action_raw AA_invite_issue
     then invitation_request env actor request now_ms
     else if request_action request = AA_password_set \<or> request_action request = AA_password_join
     then password_request env actor request now_ms
     else account_request env actor request now_ms))"

fun access_audit_kind :: "AccessAction \<Rightarrow> AuditKind option" where
  "access_audit_kind AA_account_create = Some AK_account_create"
| "access_audit_kind AA_enrollment_issue = Some AK_enrollment_issue"
| "access_audit_kind AA_device_enroll = Some AK_device_enroll"
| "access_audit_kind AA_device_revoke = Some AK_device_revoke"
| "access_audit_kind AA_password_set = Some AK_password_change"
| "access_audit_kind AA_invite_issue = Some AK_invite_issue"
| "access_audit_kind AA_invite_revoke = Some AK_invite_revoke"
| "access_audit_kind _ = None"

text \<open>
  \<open>const AuditAtExit audit\<close>: the destructor runs on a return and on an exception, and then
  \<open>result.code\<close> still is \<open>success\<close>.
\<close>

definition audit_at_exit :: "Environment \<Rightarrow> DeviceId \<Rightarrow> AccessRequest \<Rightarrow> int \<Rightarrow> NetworkResultCode \<Rightarrow> unit svc" where
  "audit_at_exit env actor request now_ms code =
     (case access_audit_kind (request_action request) of None \<Rightarrow> sreturn ()
      | Some kind \<Rightarrow> audit_locked env kind actor
          (if request_device request = no_device then actor else request_device request)
          (request_network request) code now_ms 0)"

definition access_request :: "Environment \<Rightarrow> DeviceId \<Rightarrow> AccessRequest \<Rightarrow> int \<Rightarrow> access_outcome svc" where
  "access_request env actor request now_ms =
     sbind (slift (require_actor_and_time actor now_ms)) (\<lambda>_.
     sbind (slift (encode_access_request request)) (\<lambda>_.
     sbind (scatch (access_body env actor request now_ms)
       (\<lambda>e. sbind (audit_at_exit env actor request now_ms RC_success) (\<lambda>_. sthrow e))) (\<lambda>out.
     sbind (audit_at_exit env actor request now_ms (access_code (fst out))) (\<lambda>_.
     sreturn out))))"

end
