(* ===== verification/Service_Steps.thy ===== *)
theory Service_Steps
  imports Packet_Routing Management_Service Access_Service
begin

text \<open>
  The network service as a state machine. A relation between states that is reflexive and
  transitive and holds across every elementary update holds across every method: the locale
  \<open>service_relation\<close> proves that once, for all methods, and is interpreted twice, with "the store is
  changed only by methods of \<open>RelayStore\<close>" and with "revisions and epochs never go back".
\<close>

lemma read_policy_typed:
  assumes "network_policy n db = Inr p"
  shows "policy_typed p"
proof -
  have "policy_typed default_policy"
    by (simp add: default_policy_def policy_typed_def topology_of_raw_def)
  with assms show ?thesis
    by (auto simp: network_policy_def read_policy_def policy_codec.dec_iff split: option.splits if_splits)
qed

lemma proposed_policy_typed:
  assumes "proposed_policy actor request current s = Inr (Inr p)"
    and "policy_typed (manage_policy request)" and "policy_typed current" and "length actor = 32"
  shows "policy_typed p"
  using assms by (auto simp: proposed_policy_def policy_typed_def res_bind_Inr_iff split: if_splits)

section \<open>Relations kept by every method\<close>

locale service_relation =
  fixes R :: "NetworkService \<Rightarrow> NetworkService \<Rightarrow> bool"
  assumes R_refl: "R s s"
    and R_trans: "R s t \<Longrightarrow> R t u \<Longrightarrow> R s u"
    and R_store: "store_step (svc_store s) db \<Longrightarrow> R s (s\<lparr>svc_store := db\<rparr>)"
    and R_revision: "map_of (svc_revisions s) n = r \<Longrightarrow> (case r of None \<Rightarrow> 0 | Some v \<Rightarrow> v) \<noteq> uint64_max \<Longrightarrow>
      R s (s\<lparr>svc_revisions := upsert_row n ((case r of None \<Rightarrow> 0 | Some v \<Rightarrow> v) + 1) (svc_revisions s)\<rparr>)"
    and R_epoch: "map_of (svc_key_epochs s) n = r \<Longrightarrow> (case r of None \<Rightarrow> 0 | Some v \<Rightarrow> v) \<noteq> uint64_max \<Longrightarrow>
      R s (s\<lparr>svc_key_epochs := upsert_row n ((case r of None \<Rightarrow> 0 | Some v \<Rightarrow> v) + 1) (svc_key_epochs s)\<rparr>)"
    and R_quota: "R s (s\<lparr>svc_quota := q\<rparr>)"
    and R_keys: "R s (s\<lparr>svc_active_keys := k\<rparr>)"
    and R_capable: "R s (s\<lparr>svc_management_capable := c\<rparr>)"
    and R_removed: "R s (s\<lparr>svc_active_keys := k, svc_management_capable := c, svc_sender_fanout := a, svc_fanout_replay := p\<rparr>)"
    and R_replay: "R s (s\<lparr>svc_fanout_replay := p\<rparr>)"
    and R_fanout: "R s (s\<lparr>svc_sender_fanout := a, svc_network_fanout := b\<rparr>)"
    and R_delivered: "R s (s\<lparr>svc_sender_fanout := a, svc_network_fanout := b, svc_fanout_replay := p\<rparr>)"
    and R_attempts: "R s (s\<lparr>svc_access_attempts := w\<rparr>)"
    and R_denials: "R s (s\<lparr>svc_audit_denials := l\<rparr>)"
    and R_failures: "R s (s\<lparr>svc_audit_write_failures := f\<rparr>)"
    and R_ticks: "R s (s\<lparr>svc_ticks := i\<rparr>)"
    and R_draws: "R s (s\<lparr>svc_draws := i\<rparr>)"
    and R_generated: "R s (s\<lparr>svc_generated := i\<rparr>)"
begin

definition keeps :: "'x svc \<Rightarrow> bool" where
  "keeps m \<longleftrightarrow> (\<forall>s. R s (snd (m s)))"

lemma keepsI: "(\<And>s. R s (snd (m s))) \<Longrightarrow> keeps m"
  by (simp add: keeps_def)

lemma keepsD: "keeps m \<Longrightarrow> R s (snd (m s))"
  by (simp add: keeps_def)

lemma keeps_bind_result:
  assumes "keeps m" and "\<And>s x s'. m s = (Inr x, s') \<Longrightarrow> keeps (f x)"
  shows "keeps (sbind m f)"
proof (rule keepsI)
  fix s
  obtain r s' where m: "m s = (r, s')" by (cases "m s")
  have "R s s'" using keepsD [OF assms(1), of s] m by simp
  then show "R s (snd (sbind m f s))"
    using m R_trans [OF _ keepsD [OF assms(2)]] by (cases r) (auto simp: sbind_def)
qed

lemma keeps_bind: "keeps m \<Longrightarrow> (\<And>x. keeps (f x)) \<Longrightarrow> keeps (sbind m f)"
  by (rule keeps_bind_result)

lemma keeps_catch:
  assumes "keeps m" and "\<And>e. keeps (h e)"
  shows "keeps (scatch m h)"
proof (rule keepsI)
  fix s
  obtain r s' where m: "m s = (r, s')" by (cases "m s")
  have "R s s'" using keepsD [OF assms(1), of s] m by simp
  then show "R s (snd (scatch m h s))"
    using m R_trans keepsD [OF assms(2)] by (cases r) (auto simp: scatch_def)
qed

lemma keeps_pure: "keeps (sreturn x)" "keeps (sthrow e)" "keeps (squery q)" "keeps (sread rd)" "keeps (slift r)"
  by (simp_all add: keeps_def sreturn_def sthrow_def squery_def sread_def slift_def R_refl)

lemma keeps_branches:
  "keeps a \<Longrightarrow> keeps b \<Longrightarrow> keeps (if c then a else b)"
  "keeps a \<Longrightarrow> (\<And>y. keeps (g y)) \<Longrightarrow> keeps (case x of None \<Rightarrow> a | Some y \<Rightarrow> g y)"
  "(\<And>y z. keeps (h y z)) \<Longrightarrow> keeps (case p of (y, z) \<Rightarrow> h y z)"
  "(\<And>y. keeps (k y)) \<Longrightarrow> (\<And>y. keeps (l y)) \<Longrightarrow> keeps (case v of Inl y \<Rightarrow> k y | Inr y \<Rightarrow> l y)"
  by (auto split: option.splits prod.splits sum.splits)

lemma keeps_smap: "(\<And>x. keeps (f x)) \<Longrightarrow> keeps (smap f xs)"
  by (induction xs) (simp_all add: keeps_pure keeps_bind)

lemma keeps_smodify: "(\<And>s. R s (g s)) \<Longrightarrow> keeps (smodify g)"
  by (simp add: keeps_def smodify_def)

lemma keeps_sstore: "(\<And>db x db'. op db = Inr (x, db') \<Longrightarrow> store_step db db') \<Longrightarrow> keeps (sstore op)"
  by (rule keepsI) (auto simp: sstore_def R_refl intro!: R_store split: sum.splits)

lemma keeps_store_calls:
  "keeps (sstore (record_device d t))" "keeps (sstore (create_network r pw))" "keeps (sstore (add_member n d t))"
  "keeps (sstore (remove_member n d))" "keeps (sstore (add_invitation n d t))" "keeps (sstore (add_join_request n d t))"
  "keeps (sstore (issue_invite_link n dg t t' u))" "keeps (sstore (redeem_invite_link n dg d t))"
  "keeps (sstore (revoke_invite_links n))" "keeps (sstore (set_network_password n pw))" "keeps (sstore (create_account a t))"
  "keeps (sstore (issue_enrollment d dg t))" "keeps (sstore (enroll_device dg d l t))"
  "keeps (sstore (revoke_account_device d d'))" "keeps (sstore (append_audit e))"
  by (rule keeps_sstore, erule store_step.intros)+

lemma keeps_save_policy: "policy_typed p \<Longrightarrow> keeps (sstore (save_network_policy n p v a))"
  by (rule keeps_sstore) (rule step_save_network_policy)

lemma keeps_counters:
  "keeps (time_source env)" "keeps (random_nonce env)" "keeps (next_network_id env)"
  "keeps (advance_revision n)" "keeps (advance_key_epoch n)"
  by (auto simp: keeps_def time_source_def random_nonce_def next_network_id_def advance_revision_def advance_key_epoch_def
      Let_def R_refl intro: R_ticks R_draws R_generated R_revision [OF refl] R_epoch [OF refl])

lemmas keeps_intros = keeps_bind keeps_catch keeps_pure keeps_branches keeps_smap keeps_store_calls keeps_counters
lemmas keeps_updates = R_quota R_keys R_capable R_removed R_replay R_fanout R_delivered R_attempts R_denials R_failures

lemma keeps_announce: "keeps (announce n)"
  unfolding announce_def by (intro keeps_intros)

lemma keeps_audit: "keeps (audit_locked env kind actor target n code now_ms rvn)"
  unfolding audit_locked_def write_audit_def Let_def
  by (intro keeps_intros keeps_smodify keeps_updates)

lemma keeps_audited: "keeps (audited env actor now_ms out)"
  unfolding audited_def audit_network_outcome_def by (intro keeps_intros keeps_audit)

lemma keeps_refuse: "keeps (refuse operation n code)"
  unfolding refuse_def by (rule keeps_pure)

lemmas keeps_shared = keeps_intros keeps_announce keeps_audit keeps_audited keeps_refuse

lemma keeps_try_create: "keeps (try_create r pw)"
  unfolding try_create_def by (intro keeps_shared)

lemma keeps_create_attempts: "keeps (create_attempts env k actor name now_ms pw)"
proof (induction k)
  case 0
  then show ?case by (simp add: keeps_refuse)
next
  case (Suc k)
  show ?case unfolding create_attempts.simps created_network_def
    by (intro keeps_shared keeps_try_create Suc.IH)
qed

lemma keeps_handlers:
  "keeps m \<Longrightarrow> keeps (limit_or_internal operation n m)" "keeps m \<Longrightarrow> keeps (internal_on_error operation n m)"
  unfolding limit_or_internal_def internal_on_error_def by (intro keeps_shared, assumption)+

lemma keeps_create_network_locked: "keeps (create_network_locked env actor request now_ms pw)"
  unfolding create_network_locked_def by (intro keeps_shared keeps_handlers keeps_create_attempts)

lemma keeps_admitted: "keeps (admitted env operation n actor subject now_ms)"
  unfolding admitted_def by (intro keeps_shared)

lemma keeps_departed: "keeps (departed n subject)"
  unfolding departed_def by (intro keeps_shared)

lemma keeps_join_network_locked: "keeps (join_network_locked env actor n now_ms verified)"
  unfolding join_network_locked_def by (intro keeps_shared keeps_handlers keeps_admitted)

lemma keeps_managed_target: "(\<And>net. keeps (body net)) \<Longrightarrow> keeps (managed_target operation actor request now_ms body)"
  unfolding managed_target_def Let_def by (intro keeps_shared) assumption

lemma keeps_announce_networks: "keeps (announce_networks actor)"
  unfolding announce_networks_def by (intro keeps_shared)

lemmas keeps_parts = keeps_shared keeps_handlers keeps_create_network_locked keeps_admitted keeps_departed
  keeps_join_network_locked keeps_managed_target keeps_announce_networks

lemma keeps_member_methods:
  "keeps (service_create_network env actor creation now_ms)"
  "keeps (service_list_networks actor now_ms)"
  "keeps (join_network env actor selection now_ms)"
  "keeps (leave_network env actor selection now_ms)"
  "keeps (invite_member env actor target now_ms)"
  "keeps (approve_member env actor target now_ms)"
  "keeps (kick_member env actor target now_ms)"
  unfolding service_create_network_def service_list_networks_def join_network_def leave_network_def invite_member_def
    approve_member_def kick_member_def invite_target_def approve_target_def kick_target_def Let_def
  by (intro keeps_parts)+

lemma keeps_device_methods:
  "keeps (set_management_capable actor capable)"
  "keeps (record_authenticated_device actor now_ms)"
  "keeps (publish_device_key env actor session signed_key now_ms)"
  "keeps (remove_device_key actor session)"
  "keeps (publish_network_keys env actor publication)"
  "keeps (peer_state actor selection now_ms)"
  "keeps (peer_states_for_device actor)"
  unfolding set_management_capable_def record_authenticated_device_def publish_device_key_def remove_device_key_def
    publish_network_keys_def peer_state_def peer_states_for_device_def Let_def
  by (intro keeps_parts keeps_smodify keeps_updates)+

lemma keeps_quota_methods: "keeps (admit_control env actor)" "keeps (set_forwarding_limits limits)"
  unfolding admit_control_def
  by (intro keeps_bind keeps_counters, auto simp: keeps_def set_forwarding_limits_def R_quota R_refl split: prod.splits sum.splits)

lemma keeps_quota_admit: "keeps (quota_admit actor packet k now)"
  unfolding quota_admit_def by (intro keeps_bind keeps_pure) (auto simp: keeps_def R_quota split: prod.splits)

lemma keeps_route: "keeps (route_encrypted_packet env actor packet)"
  unfolding route_encrypted_packet_def route_fanout_def send_fanout_def route_unicast_def Let_def
  by (intro keeps_parts keeps_smodify keeps_updates keeps_quota_admit)

lemma keeps_allow_access_attempt: "keeps (allow_access_attempt env actor n)"
  unfolding allow_access_attempt_def
  by (intro keeps_bind keeps_counters) (auto simp: keeps_def R_attempts split: prod.splits)

lemma keeps_answer: "keeps (answer request code n)"
  unfolding answer_def by (rule keeps_pure)

lemmas keeps_access_parts = keeps_parts keeps_allow_access_attempt keeps_answer

lemma keeps_protect: "keeps (protect env request)"
  unfolding protect_def by (intro keeps_access_parts)

lemma keeps_device_revoke: "keeps (device_revoke actor request)"
  unfolding device_revoke_def expel_def Let_def by (intro keeps_access_parts keeps_smodify keeps_updates)

lemma keeps_join_with_credential: "keeps (join_with_credential env actor request now_ms verified)"
  unfolding join_with_credential_def by (intro keeps_access_parts)

lemma keeps_account_answer: "keeps (account_answer request secret account)"
  unfolding account_answer_def by (intro keeps_access_parts)

lemma keeps_create_protected: "keeps (create_protected env actor request now_ms)"
  unfolding create_protected_def Let_def by (intro keeps_access_parts keeps_protect)

lemma keeps_password_request: "keeps (password_request env actor request now_ms)"
  unfolding password_request_def Let_def by (intro keeps_access_parts keeps_protect keeps_join_with_credential)

lemma keeps_invitation_request: "keeps (invitation_request env actor request now_ms)"
  unfolding invitation_request_def issue_link_def redeem_link_def Let_def
  by (intro keeps_access_parts keeps_join_with_credential)

lemma keeps_action:
  "keeps a1 \<Longrightarrow> keeps a2 \<Longrightarrow> keeps a3 \<Longrightarrow> keeps a4 \<Longrightarrow> keeps b \<Longrightarrow> keeps (case action of AA_account_create \<Rightarrow> a1
     | AA_account_status \<Rightarrow> a2 | AA_enrollment_issue \<Rightarrow> a3 | AA_device_enroll \<Rightarrow> a4 | _ \<Rightarrow> b)"
  by (cases action) simp_all

lemma keeps_account_request: "keeps (account_request env actor request now_ms)"
  unfolding account_request_def Let_def by (intro keeps_bind keeps_action keeps_access_parts keeps_account_answer)

lemma keeps_access_request: "keeps (access_request env actor request now_ms)"
  unfolding access_request_def access_body_def audit_at_exit_def
  by (intro keeps_access_parts keeps_device_revoke keeps_create_protected keeps_password_request
      keeps_invitation_request keeps_account_request)

lemma keeps_manage_network:
  assumes "policy_typed (manage_policy request)" and "length actor = 32"
  shows "keeps (service_manage_network env actor request now_ms)"
proof -
  have replace: "keeps (replace_policy actor request now_ms net current)" if "policy_typed current" for net current
  proof -
    have "policy_typed (p\<lparr>revision := r\<rparr>)" if "proposed_policy actor request current s = Inr (Inr p)" for s p r
      using proposed_policy_typed [OF that assms(1) \<open>policy_typed current\<close> assms(2)] by (simp add: policy_typed_def)
    then show ?thesis
      unfolding replace_policy_def Let_def
      by (intro keeps_bind_result [OF keeps_pure(3)])
        (auto simp: squery_def split: sum.splits intro!: keeps_shared keeps_save_policy)
  qed
  have looks: "keeps (sbind (sread (network_policy n)) (\<lambda>current. if inspecting then look current
      else replace_policy actor request now_ms net current))" if "\<And>c. keeps (look c)" for n inspecting look net
    by (rule keeps_bind_result [OF keeps_pure(4)])
      (auto simp: sread_def squery_def that intro: replace dest: read_policy_typed)
  have "keeps (manage_body actor request now_ms)"
    unfolding manage_body_def Let_def
    by (rule keeps_bind [OF keeps_pure(4)], rule keeps_branches(2), rule keeps_pure, rule keeps_bind [OF keeps_pure(3)],
        rule keeps_branches(1), rule keeps_pure, rule looks, intro keeps_bind keeps_pure)
  then show ?thesis
    unfolding service_manage_network_def by (intro keeps_shared)
qed

end

section \<open>The step relation\<close>

text \<open>One rule per method; an exception is a step too, to the state it leaves.\<close>

inductive service_step :: "Environment \<Rightarrow> NetworkService \<Rightarrow> NetworkService \<Rightarrow> bool" for env where
  step_service_create: "service_step env s (snd (service_create_network env actor creation now_ms s))"
| step_service_list: "service_step env s (snd (service_list_networks actor now_ms s))"
| step_service_join: "service_step env s (snd (join_network env actor selection now_ms s))"
| step_service_leave: "service_step env s (snd (leave_network env actor selection now_ms s))"
| step_service_invite: "service_step env s (snd (invite_member env actor target now_ms s))"
| step_service_approve: "service_step env s (snd (approve_member env actor target now_ms s))"
| step_service_kick: "service_step env s (snd (kick_member env actor target now_ms s))"
| step_service_capable: "service_step env s (snd (set_management_capable actor capable s))"
| step_service_record: "service_step env s (snd (record_authenticated_device actor now_ms s))"
| step_service_publish: "service_step env s (snd (publish_device_key env actor session signed_key now_ms s))"
| step_service_remove: "service_step env s (snd (remove_device_key actor session s))"
| step_service_keys: "service_step env s (snd (publish_network_keys env actor publication s))"
| step_service_peer_state: "service_step env s (snd (peer_state actor selection now_ms s))"
| step_service_peer_states: "service_step env s (snd (peer_states_for_device actor s))"
| step_service_route: "service_step env s (snd (route_encrypted_packet env actor packet s))"
| step_service_control: "service_step env s (snd (admit_control env actor s))"
| step_service_limits: "service_step env s (snd (set_forwarding_limits limits s))"
| step_service_manage: "policy_typed (manage_policy management) \<Longrightarrow> length actor = 32 \<Longrightarrow>
    service_step env s (snd (service_manage_network env actor management now_ms s))"
| step_service_access: "service_step env s (snd (access_request env actor access now_ms s))"

inductive service_reachable :: "Environment \<Rightarrow> NetworkService \<Rightarrow> bool" for env where
  reach_new_service: "store_reachable db \<Longrightarrow> service_reachable env (new_service db)"
| reach_service_step: "service_reachable env s \<Longrightarrow> service_step env s s' \<Longrightarrow> service_reachable env s'"

context service_relation
begin

lemma step_related: "service_step env s s' \<Longrightarrow> R s s'"
  by (induction rule: service_step.induct)
    (rule keepsD, rule keeps_member_methods keeps_device_methods keeps_quota_methods keeps_route keeps_access_request
      keeps_manage_network; assumption?)+

end

interpretation store_moves: service_relation "\<lambda>s s'. store_step\<^sup>*\<^sup>* (svc_store s) (svc_store s')"
  by unfold_locales (auto intro: rtranclp_trans)

lemma below_max:
  assumes "(v :: 64 word) \<noteq> uint64_max"
  shows "v \<le> v + 1"
proof -
  have "unat v < 2 ^ 64" using unsigned_less [of v, where 'a = nat] by simp
  moreover have "unat v \<noteq> 2 ^ 64 - 1" using assms by (simp add: uint64_max_def word_unat_eq_iff)
  ultimately show ?thesis by (simp add: word_le_nat_alt unat_plus_if')
qed

definition counters_le :: "NetworkService \<Rightarrow> NetworkService \<Rightarrow> bool" where
  "counters_le s s' \<longleftrightarrow> (\<forall>n. revision_for s n \<le> revision_for s' n \<and> key_epoch_for s n \<le> key_epoch_for s' n)"

lemma counters_le_trans: "counters_le s t \<Longrightarrow> counters_le t u \<Longrightarrow> counters_le s u"
  unfolding counters_le_def by (blast intro: order_trans)

interpretation counters: service_relation counters_le
proof unfold_locales
  show "counters_le s u" if "counters_le s t" "counters_le t u" for s t u
    using that by (rule counters_le_trans)
qed (auto simp: counters_le_def revision_for_def key_epoch_for_def map_of_upsert_row below_max split: option.splits)

text \<open>The audit log, for evaluation: the counter is compared as an integer.\<close>

definition log_full :: "RelayStore \<Rightarrow> bool" where "log_full db \<longleftrightarrow> int (db_audit_last db) \<ge> 9223372036854775807"
lemma append_audit_locked_code [code]:
  "append_audit_locked e db =
     res_bind (encode_audit_event e) (\<lambda>_.
     if log_full db then Inl constraint_failed
     else let sequence = Suc (db_audit_last db);
            rows = db_audit db @ [e\<lparr>audit_sequence := word_of_nat sequence\<rparr>];
            kept = newest 256 (filter (\<lambda>r. audit_network r = audit_network e) rows);
            per_network = filter (\<lambda>r. audit_network r \<noteq> audit_network e \<or>
              list_ex (\<lambda>k. audit_sequence k = audit_sequence r) kept) rows;
            young = filter (\<lambda>r. \<not> sint (audit_timestamp_ms r) < max 0 (sint (audit_timestamp_ms e) - audit_age_limit)) per_network
          in Inr (db\<lparr>db_audit := newest 10000 young, db_audit_last := sequence\<rparr>))"
proof -
  have "unat int64_max = 9223372036854775807" by (simp add: int64_max_def)
  then have "db_audit_last db \<ge> unat int64_max \<longleftrightarrow> log_full db" unfolding log_full_def by linarith
  then show ?thesis unfolding append_audit_locked_def by simp
qed

lemma newest_code [code]: "newest k xs = (if length xs \<le> k then xs else drop (length xs - k) xs)"
  by (simp add: newest_def)

lemma reachable_store: "service_reachable env s \<Longrightarrow> store_reachable (svc_store s)"
proof (induction rule: service_reachable.induct)
  case (reach_new_service db)
  then show ?case by (simp add: new_service_def)
next
  case (reach_service_step s s')
  from store_moves.step_related [OF reach_service_step.hyps(2)] reach_service_step.IH
  show ?case by (induction rule: rtranclp_induct) (auto intro: reach_step)
qed


definition demo_environment :: Environment where
  "demo_environment = \<lparr>env_crypto = demo_crypto, env_clock = (\<lambda>i. int i), env_network_id = (\<lambda>i. Inr (word_of_nat (i + 2) # replicate 15 0))\<rparr>"

lemma demo_service_reachable: "service_reachable demo_environment (new_service demo_db)"
  by (rule reach_new_service) (rule demo_db_reachable)


text \<open>
  C25.
  The revision of a network's peer states and its key epoch never go back, whatever method runs and
  however it ends, so a client may discard any peer state that is older than the one it has.
\<close>

theorem counters_never_decrease:
  assumes "service_step env s s'"
  shows "revision_for s n \<le> revision_for s' n \<and> key_epoch_for s n \<le> key_epoch_for s' n"
  using counters.step_related [OF assms] by (simp add: counters_le_def)

theorem counters_never_decrease_witness:
  "let s = new_service demo_db; s' = snd (set_management_capable (demo_device 1) True s)
   in revision_for s (network_id demo_network) \<le> revision_for s' (network_id demo_network) \<and>
      key_epoch_for s (network_id demo_network) \<le> key_epoch_for s' (network_id demo_network)"
  using counters_never_decrease [OF step_service_capable] unfolding Let_def by blast

end
