(* ===== verification/Replay_Window.thy ===== *)
theory Replay_Window
  imports Prelude
begin

text \<open>
  The sliding window that both the relay (for fan-out packets) and a client's packet cipher keep of
  the sequence numbers of a sender: the highest one, and a bitmap of the 64 up to it. The interface
  \<open>replay_guard\<close> is what a window promises; a sequence number passes at most once.
\<close>

section \<open>The bitmap\<close>

definition covered :: "32 word \<Rightarrow> 64 word \<Rightarrow> 32 word \<Rightarrow> bool" where
  "covered highest seen q \<longleftrightarrow> q \<le> highest \<and> (highest - q \<ge> 64 \<or> bit seen (unat (highest - q)))"

lemma single_bit: "w AND push_bit k 1 \<noteq> 0 \<longleftrightarrow> bit (w :: 64 word) k"
proof -
  have "bit (w AND push_bit k 1) i \<longleftrightarrow> i = k \<and> bit w k" for i
    by (auto simp: bit_and_iff bit_exp_iff dest: bit_imp_le_length)
  note bits = this
  show ?thesis
  proof
    assume "w AND push_bit k 1 \<noteq> 0"
    then obtain i where "bit (w AND push_bit k 1) i" by (auto simp: bit_eq_iff [of _ 0])
    then show "bit w k" unfolding bits by simp
  next
    assume "bit w k"
    then have "bit (w AND push_bit k 1) k" unfolding bits by simp
    then show "w AND push_bit k 1 \<noteq> 0" by auto
  qed
qed

lemma window_distance:
  assumes "q \<le> h" and "h < (x :: 32 word)"
  shows "unat (x - q) = unat (x - h) + unat (h - q)"
  using assms by (simp add: word_le_nat_alt word_less_nat_alt unat_sub_if')

lemma covered_advance:
  assumes q: "covered h w q" and x: "h < x"
  shows "covered x (if 64 \<le> x - h then 1 else push_bit (unat (x - h)) w OR 1) q"
proof (cases "64 \<le> x - q")
  case True
  then show ?thesis using assms by (auto simp: covered_def)
next
  case False
  then have near: "unat (x - q) < 64" by (simp add: word_le_nat_alt not_le)
  have d: "unat (x - q) = unat (x - h) + unat (h - q)" using q x by (intro window_distance) (simp_all add: covered_def)
  with near q have "\<not> 64 \<le> x - h" "bit w (unat (h - q))" by (auto simp: covered_def word_le_nat_alt)
  with d near q x show ?thesis by (auto simp: covered_def bit_or_iff bit_push_bit_iff)
qed

lemma covered_top: "covered x (if 64 \<le> x - h then 1 else push_bit (unat (x - h)) w OR 1) x"
  by (simp add: covered_def bit_or_iff)

lemma covered_more: "covered h w q \<Longrightarrow> covered h (w OR v) q"
  by (auto simp: covered_def bit_or_iff)

lemma covered_set:
  assumes "x \<le> h" and "\<not> 64 \<le> h - x"
  shows "covered h (w OR 2 ^ unat (h - x)) x"
  using assms by (simp add: covered_def bit_or_iff bit_exp_iff word_le_nat_alt not_le)

section \<open>The interface\<close>

locale replay_guard =
  fixes fit :: "'q \<Rightarrow> bool"
    and accepts :: "'w \<Rightarrow> 'q \<Rightarrow> bool"
    and mark :: "'q \<Rightarrow> 'w \<Rightarrow> 'w"
    and covers :: "'w \<Rightarrow> 'q \<Rightarrow> bool"
  assumes refused: "covers w q \<Longrightarrow> \<not> accepts w q"
    and marks: "fit q \<Longrightarrow> accepts w q \<Longrightarrow> covers (mark q w) q"
    and grows: "covers w q \<Longrightarrow> covers (mark x w) q"
begin

fun passed :: "'w \<Rightarrow> 'q list \<Rightarrow> 'q list" where
  "passed w [] = []"
| "passed w (q # qs) = (if accepts w q then q # passed (mark q w) qs else passed w qs)"

lemma covered_never_passes: "covers w q \<Longrightarrow> q \<notin> set (passed w qs)"
  by (induction qs arbitrary: w) (auto dest: refused grows)

lemma passes_once: "\<forall>q\<in>set qs. fit q \<Longrightarrow> distinct (passed w qs)"
  by (induction qs arbitrary: w) (auto dest: marks covered_never_passes)

end

end
