(* ===== verification/Routing_Safety.thy ===== *)
theory Routing_Safety
  imports Service_Steps Replay_Window
begin

text \<open>
  What \<open>route_encrypted_packet\<close> guarantees: who receives a packet, and that the relay fans a packet
  out at most once. The first section has the rules for runs of methods that return normally; the
  service's other properties use them too.
\<close>

section \<open>Runs that return\<close>

named_theorems svc_run \<open>what a method that returned normally did\<close>

lemma sbind_returns [svc_run]: "sbind m f s = (Inr y, t) \<longleftrightarrow> (\<exists>x u. m s = (Inr x, u) \<and> f x u = (Inr y, t))"
  by (auto simp: sbind_def split: prod.splits sum.splits)

lemma primitive_returns [svc_run]:
  "sreturn x s = (Inr y, t) \<longleftrightarrow> y = x \<and> t = s"
  "sthrow e s = (Inr z, t) \<longleftrightarrow> False"
  "squery q s = (Inr v, t) \<longleftrightarrow> q s = Inr v \<and> t = s"
  "sread rd s = (Inr w, t) \<longleftrightarrow> rd (svc_store s) = Inr w \<and> t = s"
  "slift r s = (Inr c, t) \<longleftrightarrow> r = Inr c \<and> t = s"
  "smodify g s = (Inr u, t) \<longleftrightarrow> t = g s"
  "sstore op s = (Inr d, t) \<longleftrightarrow> (\<exists>db. op (svc_store s) = Inr (d, db) \<and> t = s\<lparr>svc_store := db\<rparr>)"
  "time_source env s = (Inr now, t) \<longleftrightarrow> now = env_clock env (svc_ticks s) \<and> t = s\<lparr>svc_ticks := Suc (svc_ticks s)\<rparr>"
  by (auto simp: sreturn_def sthrow_def squery_def sread_def slift_def smodify_def sstore_def time_source_def split: sum.splits)

lemma branch_returns [svc_run]:
  "(if c then a else b) s = (Inr y, t) \<longleftrightarrow> c \<and> a s = (Inr y, t) \<or> \<not> c \<and> b s = (Inr y, t)"
  "(case x of None \<Rightarrow> a | Some z \<Rightarrow> f z) s = (Inr y, t) \<longleftrightarrow>
     x = None \<and> a s = (Inr y, t) \<or> (\<exists>z. x = Some z \<and> f z s = (Inr y, t))"
  "(case p of (v, w) \<Rightarrow> g v w) s = (Inr y, t) \<longleftrightarrow> (\<exists>v w. p = (v, w) \<and> g v w s = (Inr y, t))"
  by (auto split: option.splits prod.splits)

text \<open>All runs of a method, also those that throw.\<close>

named_theorems svc_any \<open>what a method did, however it ended\<close>

lemma sbind_any [svc_any]: "sbind m f s = (r, t) \<longleftrightarrow>
    (\<exists>e. m s = (Inl e, t) \<and> r = Inl e) \<or> (\<exists>x u. m s = (Inr x, u) \<and> f x u = (r, t))"
  by (auto simp: sbind_def split: prod.splits sum.splits)

lemma primitive_any [svc_any]:
  "sreturn x s = (r, t) \<longleftrightarrow> r = Inr x \<and> t = s"
  "squery q s = (v, t) \<longleftrightarrow> q s = v \<and> t = s"
  "sread rd s = (w, t) \<longleftrightarrow> rd (svc_store s) = w \<and> t = s"
  "slift c s = (c', t) \<longleftrightarrow> c = c' \<and> t = s"
  "time_source env s = (n, t) \<longleftrightarrow> Inr (env_clock env (svc_ticks s)) = n \<and> t = s\<lparr>svc_ticks := Suc (svc_ticks s)\<rparr>"
  by (auto simp: sreturn_def squery_def sread_def slift_def time_source_def)

lemma branch_any [svc_any]:
  "(if c then a else b) s = (r, t) \<longleftrightarrow> c \<and> a s = (r, t) \<or> \<not> c \<and> b s = (r, t)"
  "(case x of None \<Rightarrow> a | Some z \<Rightarrow> f z) s = (r, t) \<longleftrightarrow> x = None \<and> a s = (r, t) \<or> (\<exists>z. x = Some z \<and> f z s = (r, t))"
  "(case p of (v, w) \<Rightarrow> g v w) s = (r, t) \<longleftrightarrow> (\<exists>v w. p = (v, w) \<and> g v w s = (r, t))"
  by (auto split: option.splits prod.splits)

section \<open>Rows and queries\<close>

lemma read_lease_row: "read_lease l = Inr l' \<Longrightarrow> l' = l"
  by (auto simp: read_lease_def res_bind_Inr_iff read_virtual_address_def Let_def split: if_splits)

lemma read_rows_rows: "read_rows read_lease rows = Inr out \<Longrightarrow> out = rows"
  by (induction rows arbitrary: out) (auto simp: res_bind_Inr_iff dest: read_lease_row)

lemma listed_leases:
  "list_virtual_ipv4_leases n db = Inr leases \<Longrightarrow> set leases = {l \<in> set (db_leases db). lease_network l = n}"
  by (auto simp: list_virtual_ipv4_leases_def res_bind_Inr_iff dest!: read_rows_rows)

lemma found_lease:
  assumes "find_virtual_ipv4_lease n d db = Inr (Some l)"
  shows "l \<in> set (db_leases db) \<and> lease_network l = n \<and> lease_device l = d"
  using assms by (auto simp: find_virtual_ipv4_lease_def res_bind_Inr_iff find_Some_iff in_set_conv_nth split: option.splits dest!: read_lease_row)

lemma lease_unique:
  assumes "store_ok db" and "l \<in> set (db_leases db)" and "l' \<in> set (db_leases db)"
    and "lease_network l = lease_network l'" and "lease_device l = lease_device l'"
  shows "l = l'"
proof -
  have "inj_on (\<lambda>l. (lease_network l, lease_device l)) (set (db_leases db))"
    using assms(1) by (simp add: store_ok_def addresses_ok_def distinct_map)
  then show ?thesis using assms(2-5) by (auto dest: inj_onD)
qed

section \<open>Recipients\<close>

lemma fanout_recipients:
  assumes "fanout_deliveries s actor packet leases = Inr deliveries" and "r \<in> set deliveries"
  shows "\<exists>l\<in>set leases. r = routed actor packet (lease_device l) \<and> lease_device l \<noteq> actor \<and>
    map_of (svc_active_keys s) (lease_device l) \<noteq> None \<and>
    traffic_allowed s (packet_network packet) actor (lease_device l) True = Inr True"
  using assms by (induction leases arbitrary: deliveries) (auto simp: res_bind_Inr_iff split: if_splits)

lemma quota_admit_frame:
  assumes "quota_admit actor packet k now s = (r, t)"
  shows "\<exists>q. t = s\<lparr>svc_quota := q\<rparr>"
  using assms by (auto simp: quota_admit_def sbind_def slift_def squery_def split: sum.splits prod.splits)
    (metis NetworkService.surjective NetworkService.update_convs(2))+

section \<open>Who receives a packet\<close>

text \<open>The packet goes to the broadcast or multicast groups of the network's subnet.\<close>

definition goes_to_all :: "RelayStore \<Rightarrow> EncryptedNetworkPacket \<Rightarrow> bool" where
  "goes_to_all db packet \<longleftrightarrow> (\<exists>sub\<in>set (db_subnets db). subnet_network sub = packet_network packet \<and>
     is_ipv4_fanout_destination (packet_destination packet) (subnet_address sub) (subnet_prefix sub))"

text \<open>What the policy of the network says about traffic from one device to another.\<close>

definition policy_admits :: "NetworkService \<Rightarrow> NetworkId \<Rightarrow> DeviceId \<Rightarrow> DeviceId \<Rightarrow> bool \<Rightarrow> bool" where
  "policy_admits s n a b to_all \<longleftrightarrow> (\<exists>p. network_policy n (svc_store s) = Inr p \<and>
     (managed p \<longrightarrow> {a, b} \<subseteq> svc_management_capable s) \<and>
     (if to_all then policy_fanout_allows p a b else policy_allows p a b))"

definition online_member :: "NetworkService \<Rightarrow> NetworkId \<Rightarrow> DeviceId \<Rightarrow> bool" where
  "online_member s n d \<longleftrightarrow> (n, d) \<in> set (lease_keys (svc_store s)) \<and> d \<in> dom (map_of (svc_active_keys s))"

lemma traffic_allowed_policy: "traffic_allowed s n a b to_all = Inr True \<longleftrightarrow> policy_admits s n a b to_all"
  by (auto simp: traffic_allowed_def policy_admits_def res_bind_Inr_iff)

lemma lease_key: "l \<in> set (db_leases db) \<Longrightarrow> (lease_network l, lease_device l) \<in> set (lease_keys db)"
  by auto

lemma found_subnet:
  assumes "find_subnet n db = Inr (Some sub)"
  shows "sub \<in> set (db_subnets db) \<and> subnet_network sub = n"
  using assms
  by (auto simp: find_subnet_def read_subnet_def res_bind_Inr_iff find_Some_iff in_set_conv_nth Let_def
      split: option.splits if_splits)

lemma subnet_unique:
  assumes "store_ok db" and "a \<in> set (db_subnets db)" and "b \<in> set (db_subnets db)" and "subnet_network a = subnet_network b"
  shows "a = b"
proof -
  have "inj_on subnet_network (set (db_subnets db))"
    using assms(1) by (simp add: store_ok_def addresses_ok_def distinct_map)
  then show ?thesis using assms(2-4) by (auto dest: inj_onD)
qed

lemma route_fanout_sound:
  assumes "route_fanout env actor key packet leases s = (Inr deliveries, s')" and "r \<in> set deliveries"
  shows "\<exists>l\<in>set leases. r = routed actor packet (lease_device l) \<and> lease_device l \<noteq> actor \<and>
    lease_device l \<in> dom (map_of (svc_active_keys s)) \<and> policy_admits s (packet_network packet) actor (lease_device l) True"
proof -
  obtain p d where "fanout_deliveries (s\<lparr>svc_fanout_replay := p\<rparr>) actor packet leases = Inr d" and "r \<in> set d"
    using assms by (auto simp: route_fanout_def send_fanout_def Let_def svc_run)
  from fanout_recipients [OF this] show ?thesis
    by (auto simp: traffic_allowed_policy policy_admits_def domIff)
qed

lemma route_unicast_sound:
  assumes "route_unicast env actor packet leases s = (Inr deliveries, s')" and "r \<in> set deliveries"
  shows "\<exists>l\<in>set leases. r = routed actor packet (lease_device l) \<and> lease_address l = packet_destination packet \<and>
    lease_device l \<in> dom (map_of (svc_active_keys s)) \<and> policy_admits s (packet_network packet) actor (lease_device l) False"
proof -
  obtain l where l: "find (\<lambda>l. lease_address l = packet_destination packet) leases = Some l" and "r = routed actor packet (lease_device l)"
    and "map_of (svc_active_keys s) (lease_device l) \<noteq> None"
    and "traffic_allowed s (packet_network packet) actor (lease_device l) False = Inr True"
    using assms by (auto simp: route_unicast_def svc_run split: if_splits)
  moreover have "l \<in> set leases \<and> lease_address l = packet_destination packet"
    using l by (auto simp: find_Some_iff in_set_conv_nth)
  ultimately show ?thesis by (auto simp: traffic_allowed_policy)
qed

lemma route_cases:
  assumes "route_encrypted_packet env actor packet s = (Inr deliveries, s')" and "deliveries \<noteq> []"
  obtains key own sub leases where
    "\<not> is_zero actor" "\<not> device_revoked actor (svc_store s)" "valid_packet packet"
    "packet_epoch packet = key_epoch_for s (packet_network packet)"
    "map_of (svc_active_keys s) actor = Some key"
    "find_virtual_ipv4_lease (packet_network packet) actor (svc_store s) = Inr (Some own)"
    "lease_address own \<noteq> packet_destination packet"
    "find_subnet (packet_network packet) (svc_store s) = Inr (Some sub)"
    "list_virtual_ipv4_leases (packet_network packet) (svc_store s) = Inr leases"
    "(if is_ipv4_fanout_destination (packet_destination packet) (subnet_address sub) (subnet_prefix sub)
      then route_fanout env actor key packet leases s else route_unicast env actor packet leases s) = (Inr deliveries, s')"
proof -
  have "encode_encrypted_network_packet packet = Inr w \<Longrightarrow> valid_packet packet" for w
    by (auto simp: encode_encrypted_network_packet_def encode_encrypted_network_packet_header_def res_bind_Inr_iff split: if_splits)
  with assms show ?thesis
    by (auto simp: route_encrypted_packet_def Let_def svc_run device_allowed_def intro: that)
qed

text \<open>
  C1.
  Whoever the relay sends a packet to is entitled to it: the packet is passed on unchanged under the
  name of its sender; the sender's device is not revoked, it is a member of the network with a
  published key and used the current key epoch; the recipient is another member of the same network
  with a published key; the network's policy admits the traffic (in a managed network only between
  devices that enforce policies); and a packet that is not for the subnet's broadcast or multicast
  groups reaches only the holder of its destination address.
\<close>

theorem packets_reach_entitled_members:
  assumes "store_ok (svc_store s)" and "route_encrypted_packet env actor packet s = (Inr deliveries, s')"
    and "r \<in> set deliveries"
  shows "packet_delivery r = \<lparr>forwarded_sender = actor, forwarded_packet = packet\<rparr> \<and>
    \<not> device_revoked actor (svc_store s) \<and> packet_epoch packet = key_epoch_for s (packet_network packet) \<and>
    packet_recipient r \<noteq> actor \<and> online_member s (packet_network packet) actor \<and>
    online_member s (packet_network packet) (packet_recipient r) \<and>
    policy_admits s (packet_network packet) actor (packet_recipient r) (goes_to_all (svc_store s) packet) \<and>
    (goes_to_all (svc_store s) packet \<or> (\<exists>l\<in>set (db_leases (svc_store s)). lease_device l = packet_recipient r \<and>
      lease_network l = packet_network packet \<and> lease_address l = packet_destination packet))"
proof -
  let ?n = "packet_network packet"
  from assms(3) have "deliveries \<noteq> []" by auto
  then obtain key own sub leases where "\<not> is_zero actor"
    and sender: "\<not> device_revoked actor (svc_store s)" "valid_packet packet" "packet_epoch packet = key_epoch_for s ?n"
      "map_of (svc_active_keys s) actor = Some key"
    and own: "find_virtual_ipv4_lease ?n actor (svc_store s) = Inr (Some own)" "lease_address own \<noteq> packet_destination packet"
    and sub: "find_subnet ?n (svc_store s) = Inr (Some sub)" and leases: "list_virtual_ipv4_leases ?n (svc_store s) = Inr leases"
    and run: "(if is_ipv4_fanout_destination (packet_destination packet) (subnet_address sub) (subnet_prefix sub)
      then route_fanout env actor key packet leases s else route_unicast env actor packet leases s) = (Inr deliveries, s')"
    by (rule route_cases [OF assms(2)])
  have all: "goes_to_all (svc_store s) packet \<longleftrightarrow>
      is_ipv4_fanout_destination (packet_destination packet) (subnet_address sub) (subnet_prefix sub)"
    using found_subnet [OF sub] subnet_unique [OF assms(1), of sub] unfolding goes_to_all_def by metis
  have on: "online_member s ?n actor"
    using found_lease [OF own(1)] sender(4) lease_key [of own "svc_store s"] by (auto simp: online_member_def)
  obtain l where l: "l \<in> set leases" "r = routed actor packet (lease_device l)" "lease_device l \<noteq> actor"
    "lease_device l \<in> dom (map_of (svc_active_keys s))" "policy_admits s ?n actor (lease_device l) (goes_to_all (svc_store s) packet)"
    "goes_to_all (svc_store s) packet \<or> lease_address l = packet_destination packet"
  proof (cases "goes_to_all (svc_store s) packet")
    case True
    with run all route_fanout_sound [OF _ assms(3), of env actor key packet leases s s'] that show ?thesis by auto
  next
    case False
    with run all route_unicast_sound [OF _ assms(3), of env actor packet leases s s'] obtain l where
      l: "l \<in> set leases" "r = routed actor packet (lease_device l)" "lease_address l = packet_destination packet"
      "lease_device l \<in> dom (map_of (svc_active_keys s))" "policy_admits s ?n actor (lease_device l) False"
      by auto
    have "lease_device l \<noteq> actor"
      using lease_unique [OF assms(1), of l own] l(1,3) listed_leases [OF leases] found_lease [OF own(1)] own(2) by auto
    with l False that show ?thesis by auto
  qed
  have "l \<in> set (db_leases (svc_store s))" "lease_network l = ?n"
    using l(1) listed_leases [OF leases] by auto
  then show ?thesis
    using l sender on lease_key [of l "svc_store s"] by (auto simp: routed_def online_member_def)
qed

section \<open>Fan-out happens once\<close>

lemma upsert_row_map: "map_of (upsert_row k v m) = (map_of m)(k \<mapsto> v)"
  by (rule ext) (simp add: map_of_upsert_row)

text \<open>Everything that decides about a later packet, except the replay window.\<close>

definition same_standing :: "NetworkService \<Rightarrow> NetworkService \<Rightarrow> bool" where
  "same_standing s s' \<longleftrightarrow> svc_store s' = svc_store s \<and> svc_active_keys s' = svc_active_keys s \<and> svc_key_epochs s' = svc_key_epochs s"

definition window_step :: "FanoutReplay \<Rightarrow> EncryptedNetworkPacket \<Rightarrow> bool \<Rightarrow> FanoutReplay \<Rightarrow> bool" where
  "window_step replay packet delivered replay' \<longleftrightarrow>
     (if delivered then \<not> replayed replay packet \<and> replay' = mark_seen packet replay else replay' = replay)"

lemma quota_admit_standing:
  assumes "quota_admit actor packet k now s = (r, t)"
  shows "same_standing s t \<and> svc_fanout_replay t = svc_fanout_replay s"
  using quota_admit_frame [OF assms] by (auto simp: same_standing_def)

lemma send_fanout_window:
  assumes "send_fanout env actor packet replay deliveries s = (r, s')"
  shows "same_standing s s' \<and>
    (\<not> (\<exists>d. r = Inr d \<and> d \<noteq> []) \<and> svc_fanout_replay s' = svc_fanout_replay s \<or>
     r = Inr deliveries \<and> map_of (svc_fanout_replay s') =
       (map_of (svc_fanout_replay s))((packet_network packet, actor) \<mapsto> mark_seen packet replay))"
proof -
  define now where "now = env_clock env (svc_ticks s)"
  define a where "a = replenish now 16 8 (fanout_at (svc_sender_fanout s) (packet_network packet, actor))"
  define b where "b = replenish now 256 128 (fanout_at (svc_network_fanout s) (packet_network packet))"
  define t where "t = s\<lparr>svc_ticks := Suc (svc_ticks s),
    svc_sender_fanout := upsert_row (packet_network packet, actor) a (svc_sender_fanout s),
    svc_network_fanout := upsert_row (packet_network packet) b (svc_network_fanout s)\<rparr>"
  obtain ok u where q: "quota_admit actor packet (length deliveries) now t = (ok, u)" by (cases "quota_admit actor packet (length deliveries) now t")
  have t: "same_standing s t" "svc_fanout_replay t = svc_fanout_replay s" by (simp_all add: t_def same_standing_def)
  have "send_fanout env actor packet replay deliveries s =
    (if fanout_tokens a < 1 \<or> fanout_tokens b < of_nat (length deliveries) then (Inr [], t)
     else case ok of Inl e \<Rightarrow> (Inl e, u) | Inr yes \<Rightarrow> if \<not> yes then (Inr [], u)
       else (Inr deliveries, u\<lparr>svc_sender_fanout := upsert_row (packet_network packet, actor) (spend_tokens 1 a) (svc_sender_fanout u),
         svc_network_fanout := upsert_row (packet_network packet) (spend_tokens (of_nat (length deliveries)) b) (svc_network_fanout u),
         svc_fanout_replay := upsert_row (packet_network packet, actor) (mark_seen packet replay) (svc_fanout_replay u)\<rparr>))"
    using q by (simp add: send_fanout_def Let_def sbind_def squery_def smodify_def sreturn_def time_source_def now_def [symmetric]
      a_def [symmetric] b_def [symmetric] t_def [symmetric] split: sum.splits)
  with assms t quota_admit_standing [OF q] show ?thesis
    by (auto simp: same_standing_def upsert_row_map split: if_splits sum.splits)
qed

lemma route_fanout_window:
  fixes env actor key packet leases s
  defines "cur \<equiv> current_replay (packet_epoch packet) (key_encryption (active_signed_key key))
    (map_of (svc_fanout_replay s) (packet_network packet, actor))"
  assumes run: "route_fanout env actor key packet leases s = (r, s')"
  shows "same_standing s s' \<and>
    (r = Inr [] \<and> map_of (svc_fanout_replay s') = map_of (svc_fanout_replay s) \<or>
     (\<exists>w. window_step cur packet (\<exists>d. r = Inr d \<and> d \<noteq> []) w \<and>
       map_of (svc_fanout_replay s') = (map_of (svc_fanout_replay s))((packet_network packet, actor) \<mapsto> w)))"
proof (cases "length (packet_ciphertext packet) > 1400")
  case True
  then show ?thesis using run by (auto simp: route_fanout_def Let_def sreturn_def same_standing_def)
next
  case False
  define k where "k = (packet_network packet, actor)"
  define s1 where "s1 = s\<lparr>svc_fanout_replay := upsert_row k cur (svc_fanout_replay s)\<rparr>"
  have keep: "svc_store s1 = svc_store s" "svc_active_keys s1 = svc_active_keys s" "svc_key_epochs s1 = svc_key_epochs s"
    "map_of (svc_fanout_replay s1) = (map_of (svc_fanout_replay s))(k \<mapsto> cur)"
    by (simp_all add: s1_def upsert_row_map)
  have eq: "route_fanout env actor key packet leases s =
    (if replayed cur packet then (Inr [], s1)
     else case fanout_deliveries s1 actor packet leases of Inl e \<Rightarrow> (Inl e, s1)
     | Inr d \<Rightarrow> if d = [] then (Inr [], s1) else send_fanout env actor packet cur d s1)"
    using False by (simp add: route_fanout_def Let_def sbind_def squery_def smodify_def sreturn_def cur_def s1_def k_def split: sum.splits)
  have stay: ?thesis if "s' = s1" and "\<not> (\<exists>d. r = Inr d \<and> d \<noteq> [])"
    using that keep by (auto simp: same_standing_def window_step_def k_def)
  obtain D where D: "fanout_deliveries s1 actor packet leases = D" by blast
  consider "s' = s1" "\<not> (\<exists>d. r = Inr d \<and> d \<noteq> [])"
    | d where "\<not> replayed cur packet" "d \<noteq> []" "send_fanout env actor packet cur d s1 = (r, s')"
    using run unfolding eq D by (cases D) (auto split: if_splits)
  then show ?thesis
  proof cases
    case 1
    then show ?thesis by (rule stay)
  next
    case 2
    from send_fanout_window [OF 2(3)] show ?thesis
    proof (elim conjE disjE)
      assume "same_standing s1 s'" "\<not> (\<exists>d. r = Inr d \<and> d \<noteq> [])" "svc_fanout_replay s' = svc_fanout_replay s1"
      with keep show ?thesis by (auto simp: same_standing_def window_step_def k_def)
    next
      assume "same_standing s1 s'" "r = Inr d"
        "map_of (svc_fanout_replay s') = (map_of (svc_fanout_replay s1))((packet_network packet, actor) \<mapsto> mark_seen packet cur)"
      with keep 2 show ?thesis by (auto simp: same_standing_def window_step_def k_def)
    qed
  qed
qed

text \<open>The window as a set of sequence numbers.\<close>

definition in_window :: "FanoutReplay \<Rightarrow> 32 word \<Rightarrow> bool" where
  "in_window r q \<longleftrightarrow> replay_highest r \<noteq> 0 \<and> q \<le> replay_highest r \<and>
     (replay_highest r - q \<ge> 64 \<or> bit (replay_seen r) (unat (replay_highest r - q)))"

lemma replayed_window: "in_window r (packet_sequence p) \<Longrightarrow> replayed r p"
  unfolding in_window_def replayed_def single_bit by blast

lemma in_window_covered: "in_window r q \<longleftrightarrow> replay_highest r \<noteq> 0 \<and> covered (replay_highest r) (replay_seen r) q"
  by (auto simp: in_window_def covered_def)

lemma window_grows:
  assumes "in_window r q"
  shows "in_window (mark_seen p r) q"
  using assms by (auto simp: in_window_covered mark_seen_def Let_def covered_more dest: covered_advance)

lemma window_marks:
  assumes "packet_sequence p \<noteq> 0" and "\<not> replayed r p"
  shows "in_window (mark_seen p r) (packet_sequence p)"
proof (cases "packet_sequence p > replay_highest r")
  case True
  then show ?thesis using assms covered_top by (auto simp: in_window_covered mark_seen_def Let_def)
next
  case False
  then have "replay_highest r \<noteq> 0" using assms(1) by (auto simp: word_gt_0)
  with False assms(2) have near: "\<not> replay_highest r - packet_sequence p \<ge> 64" by (auto simp: replayed_def)
  with False \<open>replay_highest r \<noteq> 0\<close> show ?thesis
    by (simp add: in_window_covered mark_seen_def Let_def covered_set)
qed

interpretation fanout_window: replay_guard "\<lambda>p. packet_sequence p \<noteq> 0" "\<lambda>r p. \<not> replayed r p" mark_seen "\<lambda>r p. in_window r (packet_sequence p)"
  by unfold_locales (auto intro: replayed_window window_marks window_grows)

lemma route_unicast_standing:
  assumes "route_unicast env actor packet leases s = (r, s')"
  shows "same_standing s s' \<and> svc_fanout_replay s' = svc_fanout_replay s"
  using assms
  by (auto simp: route_unicast_def svc_any same_standing_def dest!: quota_admit_standing split: option.splits)

definition delivers :: "RoutedEncryptedPacket list res \<Rightarrow> bool" where
  "delivers r \<longleftrightarrow> (case r of Inl _ \<Rightarrow> False | Inr d \<Rightarrow> d \<noteq> [])"

lemma delivers_iff: "delivers r \<longleftrightarrow> (\<exists>d. r = Inr d \<and> d \<noteq> [])"
  by (cases r) (simp_all add: delivers_def)

lemma route_window:
  assumes ok: "store_ok (svc_store s)" and run: "route_encrypted_packet env actor packet s = (r, s')"
  shows "same_standing s s' \<and>
    (map_of (svc_fanout_replay s') = map_of (svc_fanout_replay s) \<and> \<not> (goes_to_all (svc_store s) packet \<and> delivers r) \<or>
     (\<exists>key w. map_of (svc_active_keys s) actor = Some key \<and> packet_epoch packet = key_epoch_for s (packet_network packet) \<and>
        valid_packet packet \<and>
        window_step (current_replay (packet_epoch packet) (key_encryption (active_signed_key key))
            (map_of (svc_fanout_replay s) (packet_network packet, actor))) packet (delivers r) w \<and>
        map_of (svc_fanout_replay s') = (map_of (svc_fanout_replay s))((packet_network packet, actor) \<mapsto> w)))"
proof -
  have valid: "encode_encrypted_network_packet packet = Inr w \<Longrightarrow> valid_packet packet" for w
    by (auto simp: encode_encrypted_network_packet_def encode_encrypted_network_packet_header_def res_bind_Inr_iff split: if_splits)
  consider "s' = s" "\<not> delivers r"
    | key sub leases where "find_subnet (packet_network packet) (svc_store s) = Inr (Some sub)" "valid_packet packet"
        "map_of (svc_active_keys s) actor = Some key" "packet_epoch packet = key_epoch_for s (packet_network packet)"
        "if is_ipv4_fanout_destination (packet_destination packet) (subnet_address sub) (subnet_prefix sub)
         then route_fanout env actor key packet leases s = (r, s') else route_unicast env actor packet leases s = (r, s')"
    using run by (auto simp: route_encrypted_packet_def Let_def svc_any delivers_iff valid split: option.splits)
  then show ?thesis
  proof cases
    case 1
    then show ?thesis by (simp add: same_standing_def)
  next
    case 2
    have all: "goes_to_all (svc_store s) packet \<longleftrightarrow>
        is_ipv4_fanout_destination (packet_destination packet) (subnet_address sub) (subnet_prefix sub)"
      using found_subnet [OF 2(1)] subnet_unique [OF ok, of sub] unfolding goes_to_all_def by metis
    show ?thesis
    proof (cases "goes_to_all (svc_store s) packet")
      case True
      with 2 all route_fanout_window [of env actor key packet leases s r s'] show ?thesis
        by (auto simp: delivers_iff)
    next
      case False
      with 2 all route_unicast_standing [of env actor packet leases s r s'] show ?thesis by auto
    qed
  qed
qed

definition fanned_before :: "NetworkService \<Rightarrow> NetworkId \<times> DeviceId \<times> 32 word \<Rightarrow> bool" where
  "fanned_before s = (\<lambda>(n, a, q). \<exists>key r. map_of (svc_active_keys s) a = Some key \<and> map_of (svc_fanout_replay s) (n, a) = Some r \<and>
     replay_epoch r = key_epoch_for s n \<and> replay_session_key r = key_encryption (active_signed_key key) \<and> in_window r q)"

text \<open>The fan-out deliveries of a sequence of calls: network, sender, sequence number.\<close>

fun fanned_out :: "Environment \<Rightarrow> (DeviceId \<times> EncryptedNetworkPacket) list \<Rightarrow> NetworkService \<Rightarrow> (NetworkId \<times> DeviceId \<times> 32 word) list" where
  "fanned_out env [] s = []"
| "fanned_out env ((actor, packet) # rest) s =
     (case route_encrypted_packet env actor packet s of (r, s') \<Rightarrow>
        (if goes_to_all (svc_store s) packet \<and> delivers r then [(packet_network packet, actor, packet_sequence packet)] else [])
        @ fanned_out env rest s')"

lemma current_replay_same:
  "current_replay e k (Some r) = r \<longleftrightarrow> replay_epoch r = e \<and> replay_session_key r = k \<or>
     r = \<lparr>replay_epoch = e, replay_session_key = k, replay_nonce_prefix = replicate 8 0, replay_highest = 0, replay_seen = 0\<rparr>"
  by (auto simp: current_replay_def)

lemma current_replay_key: "replay_epoch (current_replay e k x) = e \<and> replay_session_key (current_replay e k x) = k"
  by (auto simp: current_replay_def Let_def split: option.splits)

lemma mark_seen_key: "replay_epoch (mark_seen p r) = replay_epoch r \<and> replay_session_key (mark_seen p r) = replay_session_key r"
  by (simp add: mark_seen_def Let_def)

lemma standing_epoch: "same_standing s s' \<Longrightarrow> key_epoch_for s' n = key_epoch_for s n"
  by (simp add: same_standing_def key_epoch_for_def)

lemma fanned_stays:
  assumes ok: "store_ok (svc_store s)" and run: "route_encrypted_packet env actor packet s = (r, s')" and before: "fanned_before s e"
  shows "fanned_before s' e \<and> \<not> (goes_to_all (svc_store s) packet \<and> delivers r \<and> e = (packet_network packet, actor, packet_sequence packet))"
proof -
  obtain n a q where e: "e = (n, a, q)" by (cases e)
  obtain key w where w: "map_of (svc_active_keys s) a = Some key" "map_of (svc_fanout_replay s) (n, a) = Some w"
    "replay_epoch w = key_epoch_for s n" "replay_session_key w = key_encryption (active_signed_key key)" "in_window w q"
    using before by (auto simp: fanned_before_def e)
  note rw = route_window [OF ok run]
  then have st: "same_standing s s'" by simp
  from rw show ?thesis
  proof (elim conjE disjE exE)
    assume "map_of (svc_fanout_replay s') = map_of (svc_fanout_replay s)" "\<not> (goes_to_all (svc_store s) packet \<and> delivers r)"
    with w st standing_epoch [OF st] show ?thesis by (auto simp: fanned_before_def e same_standing_def)
  next
    fix key' w'
    assume a: "map_of (svc_active_keys s) actor = Some key'" "packet_epoch packet = key_epoch_for s (packet_network packet)"
      and ws: "window_step (current_replay (packet_epoch packet) (key_encryption (active_signed_key key'))
        (map_of (svc_fanout_replay s) (packet_network packet, actor))) packet (delivers r) w'"
      and upd: "map_of (svc_fanout_replay s') = (map_of (svc_fanout_replay s))((packet_network packet, actor) \<mapsto> w')"
    show ?thesis
    proof (cases "(n, a) = (packet_network packet, actor)")
      case True
      with a w have cur: "current_replay (packet_epoch packet) (key_encryption (active_signed_key key'))
          (map_of (svc_fanout_replay s) (packet_network packet, actor)) = w" by (auto simp: current_replay_same)
      then have "in_window w' q" "replay_epoch w' = replay_epoch w" "replay_session_key w' = replay_session_key w"
        "delivers r \<Longrightarrow> \<not> replayed w packet"
        using ws w(5) window_grows mark_seen_key by (auto simp: window_step_def split: if_splits)
      moreover have "delivers r \<Longrightarrow> q \<noteq> packet_sequence packet"
        using calculation(4) w(5) replayed_window by blast
      ultimately show ?thesis
        using w upd True st standing_epoch [OF st] by (auto simp: fanned_before_def e same_standing_def)
    next
      case False
      with w upd st standing_epoch [OF st] show ?thesis by (auto simp: fanned_before_def e same_standing_def)
    qed
  qed
qed

lemma fanned_marks:
  assumes ok: "store_ok (svc_store s)" and run: "route_encrypted_packet env actor packet s = (r, s')"
    and sent: "goes_to_all (svc_store s) packet" "delivers r"
  shows "fanned_before s' (packet_network packet, actor, packet_sequence packet)"
proof -
  obtain key w where a: "same_standing s s'" "map_of (svc_active_keys s) actor = Some key"
    "packet_epoch packet = key_epoch_for s (packet_network packet)" "valid_packet packet"
    and ws: "window_step (current_replay (packet_epoch packet) (key_encryption (active_signed_key key))
      (map_of (svc_fanout_replay s) (packet_network packet, actor))) packet True w"
    and upd: "map_of (svc_fanout_replay s') = (map_of (svc_fanout_replay s))((packet_network packet, actor) \<mapsto> w)"
    using route_window [OF ok run] sent by auto
  have "packet_sequence packet \<noteq> 0" using a(4) by (auto simp: valid_packet_def split: if_splits)
  with ws window_marks mark_seen_key current_replay_key have "in_window w (packet_sequence packet)"
    "replay_epoch w = packet_epoch packet" "replay_session_key w = key_encryption (active_signed_key key)"
    by (auto simp: window_step_def)
  with a upd standing_epoch [OF a(1)] show ?thesis by (auto simp: fanned_before_def same_standing_def)
qed

lemma fanned_never_again:
  assumes "store_ok (svc_store s)" and "fanned_before s e"
  shows "e \<notin> set (fanned_out env calls s)"
  using assms
proof (induction calls arbitrary: s)
  case (Cons c calls)
  obtain actor packet where c: "c = (actor, packet)" by (cases c)
  obtain r s' where run: "route_encrypted_packet env actor packet s = (r, s')" by (cases "route_encrypted_packet env actor packet s")
  have "store_ok (svc_store s')" using route_window [OF Cons.prems(1) run] Cons.prems(1) by (simp add: same_standing_def)
  with Cons.IH fanned_stays [OF Cons.prems(1) run Cons.prems(2)] run show ?case by (auto simp: c)
qed simp

text \<open>
  C9.
  The relay fans a packet out at most once: however a sequence of packets of any senders is
  interleaved, no two of those that reached someone as broadcast or multicast have the same
  network, sender and sequence number, as long as the senders' session keys and the key epochs stay.
\<close>

theorem fanout_at_most_once:
  assumes "store_ok (svc_store s)"
  shows "distinct (fanned_out env calls s)"
  using assms
proof (induction calls arbitrary: s)
  case (Cons c calls)
  obtain actor packet where c: "c = (actor, packet)" by (cases c)
  obtain r s' where run: "route_encrypted_packet env actor packet s = (r, s')" by (cases "route_encrypted_packet env actor packet s")
  have "store_ok (svc_store s')" using route_window [OF Cons.prems run] Cons.prems by (simp add: same_standing_def)
  with Cons.IH fanned_marks [OF Cons.prems run] run fanned_never_again show ?case by (auto simp: c)
qed simp

section \<open>A network with two members online\<close>

definition demo_two :: RelayStore where
  "demo_two = demo_db\<lparr>db_devices := db_devices demo_db @ [\<lparr>device_id = demo_device 2, first_seen_at_ms = 6, last_seen_at_ms = 6\<rparr>],
     db_memberships := db_memberships demo_db @ [\<lparr>member_network = network_id demo_network, member_id = demo_device 2, membership_role = MR_member, joined_at_ms = 7\<rparr>],
     db_leases := db_leases demo_db @ [\<lparr>lease_network = network_id demo_network, lease_device = demo_device 2, lease_address = 0x0a400002\<rparr>]\<rparr>"

lemma demo_two_reachable: "store_reachable demo_two"
proof -
  define db1 where "db1 = demo_db\<lparr>db_devices := db_devices demo_db @ [\<lparr>device_id = demo_device 2, first_seen_at_ms = 6, last_seen_at_ms = 6\<rparr>]\<rparr>"
  have "record_device (demo_device 2) 6 demo_db = Inr ((), db1)"
    unfolding db1_def by code_simp
  then have "store_reachable db1" by (blast intro: demo_db_reachable reach_step step_record_device)
  moreover have "add_member (network_id demo_network) (demo_device 2) 7 db1 = Inr (True, demo_two)"
    unfolding db1_def demo_two_def by code_simp
  ultimately show ?thesis by (blast intro: reach_step step_add_member)
qed

definition demo_online :: NetworkService where
  "demo_online = (new_service demo_two)\<lparr>svc_active_keys :=
     [(demo_device 1, \<lparr>active_session = [1], active_signed_key = demo_key (demo_device 1)\<rparr>),
      (demo_device 2, \<lparr>active_session = [2], active_signed_key = demo_key (demo_device 2)\<rparr>)]\<rparr>"

definition demo_packet :: "32 word \<Rightarrow> EncryptedNetworkPacket" where
  "demo_packet destination = \<lparr>packet_network = network_id demo_network, packet_destination = destination, packet_epoch = 1,
     packet_sequence = 7, packet_nonce = [0, 0, 0, 0, 0, 0, 0, 0, 0, 0, 0, 7], packet_ciphertext = replicate 20 0, packet_tag = replicate 16 0\<rparr>"


lemma ucast_one: "ucast (1::32 word) = (1::64 word)" by simp
lemma one_fits: "\<not> (114::64 word) > 0xffffffffffffffff div 1" by simp
lemma demo_doubles: "as_double (8388608 :: 64 word) = 8388608" "as_double (114 :: 64 word) = 114" "as_double (1 :: 32 word) = 1" "as_double (8192 :: 32 word) = 8192"
  "as_double (33554432 :: 64 word) = 33554432" "as_double (32768 :: 32 word) = 32768" "as_double (67108864 :: 64 word) = 67108864" "as_double (65536 :: 32 word) = 65536"
  by (simp_all add: as_double_def)

lemma fresh_quota_admits: "fst (admit d n 114 1 now new_quota)"
proof -
  have "prune now new_quota = new_quota\<lparr>quota_next_prune := if now < 0 then 0 else now + 30 * 1000000000\<rparr>"
    by (simp add: prune_def new_quota_def)
  then obtain z where q: "prune now new_quota = new_quota\<lparr>quota_next_prune := z\<rparr>" by blast
  show ?thesis
    unfolding admit_def q Let_def
    by (simp only: ucast_one one_fits) (simp add: new_quota_def default_limits_def refill_def bucket_at_def new_bucket_def demo_doubles)
qed
lemma demo_packets:
  "packet_network (demo_packet d) = network_id demo_network" "packet_destination (demo_packet d) = d" "packet_epoch (demo_packet d) = 1"
  "packet_sequence (demo_packet d) = 7"
  by (simp_all add: demo_packet_def)

lemma demo_wire:
  assumes "destination \<in> {0x0a400002, 0xffffffff}"
  obtains w where "encode_encrypted_network_packet (demo_packet destination) = Inr w" "length w = 82"
proof -
  have "valid_packet (demo_packet destination)"
    using assms by (auto simp: valid_packet_def demo_packet_def demo_network_def min_virtual_ipv4_packet_size_def max_virtual_ipv4_packet_size_def)
  then show ?thesis
    by (intro that) (auto simp: encode_encrypted_network_packet_def encode_encrypted_network_packet_header_def demo_packet_def demo_network_def)
qed

lemma demo_quota:
  assumes "svc_quota s = new_quota" and "destination \<in> {0x0a400002, 0xffffffff}"
  shows "fst (quota_admit (demo_device 1) (demo_packet destination) 1 now s) = Inr True"
proof -
  obtain w where w: "encode_encrypted_network_packet (demo_packet destination) = Inr w" "length w = 82"
    using demo_wire [OF assms(2)] .
  have "\<not> is_zero (demo_device 1)" "length (demo_device 1) = 32" by (simp_all add: demo_device_def is_zero_def)
  with w have "encode_forwarded_network_packet \<lparr>forwarded_sender = demo_device 1, forwarded_packet = demo_packet destination\<rparr> = Inr (demo_device 1 @ w)"
    "length (demo_device 1 @ w) = 114"
    by (simp_all add: encode_forwarded_network_packet_def)
  with assms fresh_quota_admits [of "demo_device 1" "packet_network (demo_packet destination)" now] show ?thesis
    by (auto simp: quota_admit_def sbind_def slift_def squery_def split: prod.splits)
qed

definition demo_leases :: "VirtualIpv4LeaseRecord list" where "demo_leases = db_leases demo_two"

lemma demo_route:
  assumes "destination \<in> {0x0a400002, 0xffffffff}"
  shows "route_encrypted_packet demo_environment (demo_device 1) (demo_packet destination) demo_online =
    (if destination = 0xffffffff
     then route_fanout demo_environment (demo_device 1) \<lparr>active_session = [1], active_signed_key = demo_key (demo_device 1)\<rparr>
       (demo_packet destination) demo_leases demo_online
     else route_unicast demo_environment (demo_device 1) (demo_packet destination) demo_leases demo_online)"
proof -
  have "\<not> is_zero (demo_device 1)" "device_allowed demo_online (demo_device 1)"
    "find_network (network_id demo_network) (svc_store demo_online) = Inr (Some demo_network)"
    "key_epoch_for demo_online (network_id demo_network) = 1"
    "map_of (svc_active_keys demo_online) (demo_device 1) = Some \<lparr>active_session = [1], active_signed_key = demo_key (demo_device 1)\<rparr>"
    "find_virtual_ipv4_lease (network_id demo_network) (demo_device 1) (svc_store demo_online) =
       Inr (Some \<lparr>lease_network = network_id demo_network, lease_device = demo_device 1, lease_address = 0x0a400001\<rparr>)"
    "find_subnet (network_id demo_network) (svc_store demo_online) =
       Inr (Some \<lparr>subnet_network = network_id demo_network, subnet_address = 0x0a400000, subnet_prefix = 24\<rparr>)"
    "list_virtual_ipv4_leases (network_id demo_network) (svc_store demo_online) = Inr demo_leases"
    by code_simp+
  moreover obtain w where "encode_encrypted_network_packet (demo_packet destination) = Inr w" using demo_wire [OF assms] .
  moreover have "is_ipv4_fanout_destination 0xffffffff 0x0a400000 24" "\<not> is_ipv4_fanout_destination 0x0a400002 0x0a400000 24"
    by code_simp+
  ultimately show ?thesis
    using assms by (auto simp: route_encrypted_packet_def Let_def sbind_def squery_def sread_def slift_def demo_packets)
qed

lemma demo_unicast:
  "fst (route_encrypted_packet demo_environment (demo_device 1) (demo_packet 0x0a400002) demo_online) =
   Inr [routed (demo_device 1) (demo_packet 0x0a400002) (demo_device 2)]"
proof -
  have "find (\<lambda>l. lease_address l = 0x0a400002) demo_leases =
      Some \<lparr>lease_network = network_id demo_network, lease_device = demo_device 2, lease_address = 0x0a400002\<rparr>"
    "map_of (svc_active_keys demo_online) (demo_device 2) \<noteq> None"
    "traffic_allowed demo_online (network_id demo_network) (demo_device 1) (demo_device 2) False = Inr True"
    by code_simp+
  moreover have "svc_quota (demo_online\<lparr>svc_ticks := k\<rparr>) = new_quota" for k by (simp add: demo_online_def new_service_def)
  ultimately show ?thesis
    using demo_quota [of "demo_online\<lparr>svc_ticks := Suc (svc_ticks demo_online)\<rparr>" "0x0a400002" "env_clock demo_environment (svc_ticks demo_online)"]
    by (auto simp: demo_route demo_packets route_unicast_def sbind_def squery_def time_source_def sreturn_def split: prod.splits)
qed

theorem packets_reach_entitled_members_witness:
  "online_member demo_online (network_id demo_network) (demo_device 2) \<and>
   policy_admits demo_online (network_id demo_network) (demo_device 1) (demo_device 2) (goes_to_all demo_two (demo_packet 0x0a400002))"
proof -
  have "svc_store demo_online = demo_two" by (simp add: demo_online_def new_service_def)
  then show ?thesis
    using packets_reach_entitled_members [of demo_online demo_environment "demo_device 1" "demo_packet 0x0a400002" _ _
        "routed (demo_device 1) (demo_packet 0x0a400002) (demo_device 2)"] demo_unicast reachable_store_ok [OF demo_two_reachable]
    by (simp add: demo_packets routed_def prod_eq_iff)
qed

theorem fanout_at_most_once_witness:
  "distinct (fanned_out demo_environment [(demo_device 1, demo_packet 0xffffffff), (demo_device 1, demo_packet 0xffffffff)] demo_online)"
  by (rule fanout_at_most_once) (simp add: demo_online_def new_service_def reachable_store_ok [OF demo_two_reachable])

end
