(* ===== verification/Member_Authority.thy ===== *)
theory Member_Authority
  imports Routing_Safety
begin

text \<open>
  Who may change the members of a network, and what a successful change does: inviting, approving
  and kicking need the right to manage the network, joining needs an invitation, and every change
  of members opens a new revision.
\<close>

section \<open>Success\<close>

definition succeeded :: "NetworkOperationOutcome \<Rightarrow> bool" where
  "succeeded out \<longleftrightarrow> result_code (outcome_result out) = RC_success"

lemma succeeded_outcome [simp]:
  "succeeded (operation_outcome operation code n) \<longleftrightarrow> code = RC_success"
  "succeeded (out\<lparr>outcome_events := ev\<rparr>) \<longleftrightarrow> succeeded out" "succeeded (out\<lparr>outcome_changes := ch\<rparr>) \<longleftrightarrow> succeeded out"
  by (simp_all add: succeeded_def operation_outcome_def)

lemma failure_code [simp]: "(case e of Length_error x \<Rightarrow> RC_limit_reached | _ \<Rightarrow> RC_internal_error) \<noteq> RC_success"
  by (cases e) simp_all

lemma scatch_returns [svc_run]: "scatch m h s = (Inr y, t) \<longleftrightarrow>
    m s = (Inr y, t) \<or> (\<exists>e u. m s = (Inl e, u) \<and> h e u = (Inr y, t))"
  by (auto simp: scatch_def split: prod.splits sum.splits)

lemma scatch_any [svc_any]: "scatch m h s = (r, t) \<longleftrightarrow>
    (\<exists>x. m s = (Inr x, t) \<and> r = Inr x) \<or> (\<exists>e u. m s = (Inl e, u) \<and> h e u = (r, t))"
  by (auto simp: scatch_def split: prod.splits sum.splits)

lemma handler_success:
  "internal_on_error operation n m s = (Inr out, t) \<Longrightarrow> succeeded out \<Longrightarrow> m s = (Inr out, t)"
  "limit_or_internal operation n m s = (Inr out, t) \<Longrightarrow> succeeded out \<Longrightarrow> m s = (Inr out, t)"
  by (auto simp: internal_on_error_def limit_or_internal_def svc_run)

lemma refused: "refuse operation n code s = (Inr out, t) \<Longrightarrow> succeeded out \<Longrightarrow> code = RC_success"
  by (auto simp: refuse_def svc_run)

lemma refuse_returns [svc_run]: "refuse operation n code s = (Inr out, t) \<longleftrightarrow> out = operation_outcome operation code n \<and> t = s"
  by (auto simp: refuse_def svc_run)

section \<open>What auditing leaves alone\<close>

definition unlogged :: "RelayStore \<Rightarrow> RelayStore" where
  "unlogged db = db\<lparr>db_audit := [], db_audit_last := 0\<rparr>"

text \<open>The tables and counters that decide about members.\<close>

definition standing :: "NetworkService \<Rightarrow> RelayStore \<times> (NetworkId \<Rightarrow> 64 word) \<times> (NetworkId \<Rightarrow> 64 word)" where
  "standing s = (unlogged (svc_store s), revision_for s, key_epoch_for s)"

lemma append_audit_unlogged: "append_audit e db = Inr (u, db') \<Longrightarrow> unlogged db' = unlogged db"
  by (auto simp: append_audit_def append_audit_locked_def res_bind_Inr_iff Let_def unlogged_def split: if_splits)

lemma standing_frame:
  "unlogged db = unlogged (svc_store s) \<Longrightarrow> standing (s\<lparr>svc_store := db\<rparr>) = standing s"
  "standing (s\<lparr>svc_audit_denials := x\<rparr>) = standing s" "standing (s\<lparr>svc_audit_write_failures := y\<rparr>) = standing s"
  "standing (s\<lparr>svc_ticks := z\<rparr>) = standing s"
  by (auto simp: standing_def revision_for_def key_epoch_for_def)

lemma smodify_any [svc_any]: "smodify g s = (r, t) \<longleftrightarrow> r = Inr () \<and> t = g s"
  by (auto simp: smodify_def)

lemma sstore_any [svc_any]: "sstore op s = (r, t) \<longleftrightarrow>
    (\<exists>e. op (svc_store s) = Inl e \<and> r = Inl e \<and> t = s) \<or> (\<exists>x db. op (svc_store s) = Inr (x, db) \<and> r = Inr x \<and> t = s\<lparr>svc_store := db\<rparr>)"
  by (auto simp: sstore_def split: sum.splits)

lemma write_audit_standing: "write_audit e s = (r, t) \<Longrightarrow> r = Inr () \<and> standing t = standing s"
  by (auto simp: write_audit_def svc_any standing_frame dest: append_audit_unlogged)

lemma audit_locked_standing: "audit_locked env kind actor target n code now_ms rvn s = (r, t) \<Longrightarrow> r = Inr () \<and> standing t = standing s"
  by (auto simp: audit_locked_def Let_def svc_any standing_frame dest!: write_audit_standing)

lemma audited_standing: "audited env actor now_ms out s = (r, t) \<Longrightarrow> r = Inr out \<and> standing t = standing s"
  by (auto simp: audited_def audit_network_outcome_def svc_any dest!: audit_locked_standing split: option.splits)

section \<open>The right to manage\<close>

definition manages :: "NetworkService \<Rightarrow> NetworkId \<Rightarrow> DeviceId \<Rightarrow> bool" where
  "manages s n actor \<longleftrightarrow> \<not> device_revoked actor (svc_store s) \<and>
     (\<exists>net\<in>set (db_networks (svc_store s)). network_id net = n \<and>
        (owner_device_id net = actor \<or>
         (\<exists>p. network_policy n (svc_store s) = Inr p \<and> managed p \<and> policy_role p actor = Role_administrator \<and>
            actor \<in> svc_management_capable s \<and> (n, actor) \<in> set (lease_keys (svc_store s)))))"

lemma found_network: "find_network n db = Inr (Some net) \<Longrightarrow> net \<in> set (db_networks db) \<and> network_id net = n"
  by (auto simp: find_network_def query_unique_def res_bind_Inr_iff filter_eq_Cons_iff split: list.splits if_splits)

lemma guarded_True:
  "(case x of None \<Rightarrow> Inr False | Some z \<Rightarrow> f z) = (Inr True :: bool res) \<longleftrightarrow> (\<exists>z. x = Some z \<and> f z = Inr True)"
  "(if c then Inr False else r) = (Inr True :: bool res) \<longleftrightarrow> \<not> c \<and> r = Inr True"
  "(if c then Inr True else r) = (Inr True :: bool res) \<longleftrightarrow> c \<or> r = Inr True"
  by (auto split: option.splits)

lemma can_manage_sound:
  assumes "can_manage_network n actor s = Inr True"
  shows "manages s n actor"
proof -
  from assms obtain net where net: "find_network n (svc_store s) = Inr (Some net)" "device_allowed s actor"
    and right: "owner_device_id net = actor \<or> (\<exists>p l. network_policy n (svc_store s) = Inr p \<and> managed p \<and>
      policy_role p actor = Role_administrator \<and> actor \<in> svc_management_capable s \<and>
      find_virtual_ipv4_lease n actor (svc_store s) = Inr (Some l))"
    by (auto simp: can_manage_network_def res_bind_Inr_iff guarded_True)
  from right have "owner_device_id net = actor \<or> (\<exists>p. network_policy n (svc_store s) = Inr p \<and> managed p \<and>
      policy_role p actor = Role_administrator \<and> actor \<in> svc_management_capable s \<and> (n, actor) \<in> set (lease_keys (svc_store s)))"
    using found_lease lease_key by blast
  with net found_network [OF net(1)] show ?thesis by (auto simp: manages_def device_allowed_def)
qed

lemma record_device_effect:
  "record_device d t db = Inr (u, db') \<Longrightarrow> db' = db\<lparr>db_devices := upsert_device d t (db_devices db)\<rparr>"
  by (auto simp: record_device_def res_bind_Inr_iff)

lemma manages_record [simp]: "manages (s\<lparr>svc_store := svc_store s\<lparr>db_devices := x\<rparr>\<rparr>) n actor = manages s n actor"
  by (simp add: manages_def device_revoked_def network_policy_def read_policy_def)

lemma managed_target_success:
  assumes run: "managed_target operation actor request now_ms body s = (Inr out, t)" and ok: "succeeded out"
  obtains net db1 where "body net (s\<lparr>svc_store := db1\<rparr>) = (Inr out, t)" "manages s (target_network request) actor"
    "net \<in> set (db_networks (svc_store s))" "network_id net = target_network request"
    "db1 = svc_store s\<lparr>db_devices := upsert_device actor now_ms (db_devices (svc_store s))\<rparr>"
    "record_device actor now_ms (svc_store s) = Inr ((), db1)"
proof -
  from run ok obtain net db1 where r: "record_device actor now_ms (svc_store s) = Inr ((), db1)"
    and f: "find_network (target_network request) db1 = Inr (Some net)"
    and c: "can_manage_network (target_network request) actor (s\<lparr>svc_store := db1\<rparr>) = Inr True"
    and b: "body net (s\<lparr>svc_store := db1\<rparr>) = (Inr out, t)"
    by (auto simp: managed_target_def Let_def svc_run dest: refused)
  note db1 = record_device_effect [OF r]
  show ?thesis
    by (rule that [OF b _ _ _ db1 r]) (use can_manage_sound [OF c] found_network [OF f] in \<open>simp_all add: db1\<close>)
qed

section \<open>Counters\<close>

lemma advance_key_epoch_effect:
  assumes "advance_key_epoch n s = (Inr u, t)"
  shows "svc_store t = svc_store s \<and> revision_for t = revision_for s \<and> key_epoch_for s n \<le> key_epoch_for t n"
  using assms
  by (auto simp: advance_key_epoch_def Let_def revision_for_def fun_eq_iff key_epoch_for_def map_of_upsert_row below_max
      split: if_splits option.splits)

lemma advance_revision_effect:
  assumes "advance_revision n s = (Inr v, t)"
  shows "svc_store t = svc_store s \<and> v = revision_for s n + 1 \<and> revision_for t n = v \<and> revision_for s n < v \<and>
    key_epoch_for t = key_epoch_for s"
proof -
  have "w \<noteq> uint64_max \<Longrightarrow> w < w + 1" for w :: "64 word"
    using below_max [of w] by (metis add_cancel_left_right order_less_le zero_neq_one)
  then show ?thesis
    using assms
    by (auto simp: advance_revision_def Let_def revision_for_def fun_eq_iff key_epoch_for_def map_of_upsert_row
        split: if_splits option.splits)
qed

text \<open>What every change of members announces: a new revision, and no epoch older than before.\<close>

definition new_revision :: "NetworkService \<Rightarrow> NetworkService \<Rightarrow> NetworkId \<Rightarrow> bool" where
  "new_revision s t n \<longleftrightarrow> revision_for t n = revision_for s n + 1 \<and> revision_for s n < revision_for t n \<and>
     key_epoch_for s n \<le> key_epoch_for t n"

lemma counters_store: "revision_for (s\<lparr>svc_store := x\<rparr>) = revision_for s" "key_epoch_for (s\<lparr>svc_store := x\<rparr>) = key_epoch_for s"
  by (simp_all add: fun_eq_iff revision_for_def key_epoch_for_def)

lemma new_revision_store: "new_revision (s\<lparr>svc_store := x\<rparr>) t n = new_revision s t n"
  by (simp add: new_revision_def counters_store)

lemma standing_store:
  "standing t = standing s \<Longrightarrow> unlogged (svc_store t) = unlogged (svc_store s) \<and> revision_for t = revision_for s \<and> key_epoch_for t = key_epoch_for s"
  by (simp add: standing_def)

lemma unlogged_tables:
  "unlogged a = unlogged b \<Longrightarrow> db_memberships a = db_memberships b \<and> db_invitations a = db_invitations b \<and>
     db_join_requests a = db_join_requests b \<and> db_leases a = db_leases b"
  by (cases a, cases b) (simp add: unlogged_def)

lemma admitted_effect:
  assumes "admitted env operation n actor subject now_ms s = (Inr out, t)"
  shows "unlogged (svc_store t) = unlogged (svc_store s) \<and> new_revision s t n"
proof -
  from assms obtain u v w changes final where "advance_key_epoch n s = (Inr (), u)" "announce n u = (Inr changes, v)"
    "audited env actor now_ms final v = (Inr out, t)"
    by (auto simp: admitted_def svc_run)
  moreover from this(2) obtain r where "advance_revision n u = (Inr r, v)" by (auto simp: announce_def svc_run)
  ultimately show ?thesis
    using advance_key_epoch_effect [of n s "()" u] advance_revision_effect [of n u r v] audited_standing [of env actor now_ms final v "Inr out" t]
      standing_store [of t v]
    by (auto simp: new_revision_def)
qed

lemma departed_effect:
  assumes "departed n subject s = (Inr changes, t)"
  shows "svc_store t = svc_store s \<and> key_epoch_for t = key_epoch_for s \<and> revision_for t n = revision_for s n + 1 \<and>
    revision_for s n < revision_for t n \<and> revocation_change subject n (revision_for t n) \<in> set changes"
  using assms by (auto simp: departed_def svc_run dest!: advance_revision_effect)

section \<open>Effects\<close>

lemma add_invitation_effect:
  assumes "add_invitation n d t db = Inr (True, db')"
  shows "(n, d) \<in> set (invitation_keys db') \<and> db_memberships db' = db_memberships db"
  using assms by (auto simp: add_invitation_def insert_invitation_row_def res_bind_Inr_iff simp del: has_row_iff split: if_splits option.splits)

lemma add_member_effect:
  assumes "add_member n d t db = Inr (True, db')"
  shows "set (member_keys db') = insert (n, d) (set (member_keys db)) \<and> (n, d) \<notin> set (member_keys db)"
  using add_member_dest [OF assms] by auto

lemma remove_member_effect:
  assumes "store_ok db" and "remove_member n d db = Inr (True, db')"
  shows "set (member_keys db') = set (member_keys db) - {(n, d)} \<and> (n, d) \<in> set (member_keys db)"
proof -
  have ids: "\<not> is_zero n" "\<not> is_zero d" using assms(2) by (auto simp: remove_member_def res_bind_Inr_iff)
  have keys: "distinct (member_keys db)" using assms(1) by (simp add: store_ok_def networks_ok_def)
  have one: "length (filter (\<lambda>m. member_network m = n \<and> member_id m = d \<and> membership_role m = MR_member) (db_memberships db)) = 1"
    using assms(2) ids by (auto simp: remove_member_def require_network_id_def require_device_id_def split: if_splits)
  then obtain m where m: "filter (\<lambda>m. member_network m = n \<and> member_id m = d \<and> membership_role m = MR_member) (db_memberships db) = [m]"
    by (auto simp: length_Suc_conv)
  then have mem: "m \<in> set (db_memberships db)" "member_network m = n" "member_id m = d" "membership_role m = MR_member"
    by (auto simp: filter_eq_Cons_iff)
  have "db_memberships db' = db_memberships (delete_membership n d db)"
    using remove_member_cases [OF assms(1) ids] assms(2) by cases (auto simp: with_policy_def)
  also have "set \<dots> = set (db_memberships db) - set (filter (\<lambda>m. member_network m = n \<and> member_id m = d \<and>
      membership_role m = MR_member) (db_memberships db))"
    by (auto simp: delete_membership_def)
  finally have "set (db_memberships db') = set (db_memberships db) - {m}" unfolding m by simp
  moreover have inj: "inj_on (\<lambda>m. (member_network m, member_id m)) (set (db_memberships db))"
    using keys by (simp add: distinct_map)
  ultimately have "set (member_keys db') = set (member_keys db) - {(n, d)}"
    using inj_on_image_set_diff [OF inj, of "set (db_memberships db)" "{m}"] mem by simp
  moreover have "(n, d) \<in> set (member_keys db)" using mem by (auto simp: image_iff intro: bexI [of _ m])
  ultimately show ?thesis by simp
qed

lemma unlogged_member_keys: "unlogged a = unlogged b \<Longrightarrow> member_keys a = member_keys b \<and> invitation_keys a = invitation_keys b"
  using unlogged_tables [of a b] by simp

lemma recorded_tables:
  "member_keys (db\<lparr>db_devices := x\<rparr>) = member_keys db" "join_request_keys (db\<lparr>db_devices := x\<rparr>) = join_request_keys db"
  "invitation_keys (db\<lparr>db_devices := x\<rparr>) = invitation_keys db"
  by simp_all

lemma found_join_request: "find_join_request n d db = Inr (Some j) \<Longrightarrow> (n, d) \<in> set (join_request_keys db)"
  by (auto simp: find_join_request_def query_unique_def res_bind_Inr_iff filter_eq_Cons_iff split: list.splits if_splits)

lemma invite_success:
  assumes "invite_member env actor request now_ms s = (Inr out, t)" and ok: "succeeded out"
  shows "manages s (target_network request) actor \<and>
    (target_network request, target_device request) \<in> set (invitation_keys (svc_store t)) \<and>
    member_keys (svc_store t) = member_keys (svc_store s)"
proof -
  let ?n = "target_network request" and ?d = "target_device request"
  have "managed_target Op_invite actor request now_ms (\<lambda>net. invite_target env actor ?n ?d now_ms) s = (Inr out, t)"
    using assms by (auto simp: invite_member_def Let_def svc_run dest: refused handler_success)
  then obtain net db1 where run: "invite_target env actor ?n ?d now_ms (s\<lparr>svc_store := db1\<rparr>) = (Inr out, t)" and may: "manages s ?n actor"
    and "net \<in> set (db_networks (svc_store s))" "network_id net = ?n" and db1: "db1 = svc_store s\<lparr>db_devices := upsert_device actor now_ms (db_devices (svc_store s))\<rparr>"
    and rec: "record_device actor now_ms (svc_store s) = Inr ((), db1)"
    using ok by (rule managed_target_success)
  from run ok obtain db2 final where add: "add_invitation ?n ?d now_ms db1 = Inr (True, db2)"
    and aud: "audited env actor now_ms final (s\<lparr>svc_store := db2\<rparr>) = (Inr out, t)"
    by (auto simp: invite_target_def svc_run dest: refused)
  have "unlogged (svc_store t) = unlogged db2" using audited_standing [OF aud] by (auto dest: standing_store)
  with may add_invitation_effect [OF add] show ?thesis
    using unlogged_tables [of "svc_store t" db2] by (simp add: db1)
qed

lemma approve_success:
  assumes "approve_member env actor request now_ms s = (Inr out, t)" and ok: "succeeded out"
  shows "manages s (target_network request) actor \<and>
    (target_network request, target_device request) \<in> set (join_request_keys (svc_store s)) \<and>
    new_revision s t (target_network request) \<and>
    set (member_keys (svc_store t)) = insert (target_network request, target_device request) (set (member_keys (svc_store s)))"
proof -
  let ?n = "target_network request" and ?d = "target_device request"
  have "managed_target Op_approve actor request now_ms (\<lambda>net. approve_target env actor ?n ?d now_ms) s = (Inr out, t)"
    using assms by (auto simp: approve_member_def Let_def svc_run dest: refused handler_success)
  then obtain net db1 where run: "approve_target env actor ?n ?d now_ms (s\<lparr>svc_store := db1\<rparr>) = (Inr out, t)" and may: "manages s ?n actor"
    and "net \<in> set (db_networks (svc_store s))" "network_id net = ?n" and db1: "db1 = svc_store s\<lparr>db_devices := upsert_device actor now_ms (db_devices (svc_store s))\<rparr>"
    and rec: "record_device actor now_ms (svc_store s) = Inr ((), db1)"
    using ok by (rule managed_target_success)
  from run ok obtain j db2 where pend: "find_join_request ?n ?d db1 = Inr (Some j)"
    and add: "add_member ?n ?d now_ms db1 = Inr (True, db2)"
    and adm: "admitted env Op_approve ?n actor ?d now_ms (s\<lparr>svc_store := db2\<rparr>) = (Inr out, t)"
    by (auto simp: approve_target_def svc_run dest: refused)
  have "new_revision s t ?n" using admitted_effect [OF adm] by (simp add: new_revision_store)
  moreover have "db_memberships (svc_store t) = db_memberships db2"
    using admitted_effect [OF adm] unlogged_tables [of "svc_store t" db2] by simp
  ultimately show ?thesis
    using may add_member_effect [OF add] found_join_request [OF pend] by (simp add: db1)
qed

lemma kick_success:
  assumes ok_db: "store_ok (svc_store s)" and run0: "kick_member env actor request now_ms s = (Inr out, t)" and ok: "succeeded out"
  shows "manages s (target_network request) actor \<and>
    (target_network request, target_device request) \<in> set (member_keys (svc_store s)) \<and> new_revision s t (target_network request) \<and>
    set (member_keys (svc_store t)) = set (member_keys (svc_store s)) - {(target_network request, target_device request)} \<and>
    revocation_change (target_device request) (target_network request) (revision_for t (target_network request)) \<in> set (outcome_changes out) \<and>
    (\<exists>net\<in>set (db_networks (svc_store s)). network_id net = target_network request \<and> target_device request \<noteq> owner_device_id net \<and>
      (actor = owner_device_id net \<or>
       (\<exists>p. network_policy (target_network request) (svc_store s) = Inr p \<and> policy_role p (target_device request) \<noteq> Role_administrator)))"
proof -
  let ?n = "target_network request" and ?d = "target_device request"
  have "managed_target Op_kick actor request now_ms (kick_target env actor ?n ?d now_ms) s = (Inr out, t)"
    using run0 ok by (auto simp: kick_member_def Let_def svc_run dest: refused handler_success)
  then obtain net db1 where run: "kick_target env actor ?n ?d now_ms net (s\<lparr>svc_store := db1\<rparr>) = (Inr out, t)" and may: "manages s ?n actor"
    and net: "net \<in> set (db_networks (svc_store s))" "network_id net = ?n"
    and db1: "db1 = svc_store s\<lparr>db_devices := upsert_device actor now_ms (db_devices (svc_store s))\<rparr>"
    and rec: "record_device actor now_ms (svc_store s) = Inr ((), db1)"
    using ok by (rule managed_target_success)
  from run ok obtain db2 u v changes ev where owner: "?d \<noteq> owner_device_id net"
      "actor = owner_device_id net \<or> (\<exists>p. network_policy ?n db1 = Inr p \<and> policy_role p ?d \<noteq> Role_administrator)"
    and rem: "remove_member ?n ?d db1 = Inr (True, db2)"
    and ep: "advance_key_epoch ?n (s\<lparr>svc_store := db2\<rparr>) = (Inr (), u)" and dep: "departed ?n ?d u = (Inr changes, v)"
    and aud: "audited env actor now_ms ((operation_outcome Op_kick RC_success ?n)\<lparr>outcome_events := ev, outcome_changes := changes\<rparr>) v = (Inr out, t)"
    by (auto simp: kick_target_def svc_run res_bind_Inr_iff dest: refused)
  have "new_revision s t ?n"
    using advance_key_epoch_effect [OF ep] departed_effect [OF dep] audited_standing [OF aud] standing_store [of t v]
    by (auto simp: new_revision_def counters_store)
  moreover have "db_memberships (svc_store t) = db_memberships db2"
    using advance_key_epoch_effect [OF ep] departed_effect [OF dep] audited_standing [OF aud] standing_store [of t v]
      unlogged_tables [of "svc_store t" "svc_store v"] by simp
  moreover have "revocation_change ?d ?n (revision_for t ?n) \<in> set (outcome_changes out)"
    using departed_effect [OF dep] audited_standing [OF aud] standing_store [of t v] by auto
  moreover have "store_ok db1" using ok_db rec by (rule record_device_ok)
  ultimately show ?thesis
    using may owner net remove_member_effect [OF _ rem] by (auto simp: db1 network_policy_def read_policy_def)
qed

text \<open>
  C4.
  Members are managed by those entitled to it. Inviting, approving and kicking succeed only for the
  network's owner or, in a managed network, for a member with the administrator's role on a device
  that enforces policies, and only if the device is not revoked. An approval needs a join request;
  the owner is never kicked, and an administrator only by the owner. A success has exactly its
  effect on the members; a change of members opens a new revision, and a kicked device is sent its
  revocation.
\<close>

theorem members_managed_by_authority:
  assumes "store_ok (svc_store s)" and "succeeded out"
  shows "(invite_member env actor \<lparr>target_network = n, target_device = d\<rparr> now_ms s = (Inr out, t) \<longrightarrow>
       manages s n actor \<and> (n, d) \<in> set (invitation_keys (svc_store t)) \<and>
       member_keys (svc_store t) = member_keys (svc_store s)) \<and>
    (approve_member env actor \<lparr>target_network = n, target_device = d\<rparr> now_ms s = (Inr out, t) \<longrightarrow>
       manages s n actor \<and> (n, d) \<in> set (join_request_keys (svc_store s)) \<and> new_revision s t n \<and>
       set (member_keys (svc_store t)) = insert (n, d) (set (member_keys (svc_store s)))) \<and>
    (kick_member env actor \<lparr>target_network = n, target_device = d\<rparr> now_ms s = (Inr out, t) \<longrightarrow>
       manages s n actor \<and> (n, d) \<in> set (member_keys (svc_store s)) \<and> new_revision s t n \<and>
       set (member_keys (svc_store t)) = set (member_keys (svc_store s)) - {(n, d)} \<and>
       revocation_change d n (revision_for t n) \<in> set (outcome_changes out) \<and>
       (\<exists>net\<in>set (db_networks (svc_store s)). network_id net = n \<and> d \<noteq> owner_device_id net \<and>
          (actor = owner_device_id net \<or> (\<exists>p. network_policy n (svc_store s) = Inr p \<and> policy_role p d \<noteq> Role_administrator))))"
  using invite_success [OF _ assms(2), of env actor "\<lparr>target_network = n, target_device = d\<rparr>" now_ms s t]
    approve_success [OF _ assms(2), of env actor "\<lparr>target_network = n, target_device = d\<rparr>" now_ms s t]
    kick_success [OF assms(1) _ assms(2), of env actor "\<lparr>target_network = n, target_device = d\<rparr>" now_ms t]
  by simp

lemma demo_kick:
  "case fst (kick_member demo_environment (demo_device 1) \<lparr>target_network = network_id demo_network, target_device = demo_device 2\<rparr> 9
     (new_service demo_two)) of Inl e \<Rightarrow> False | Inr out \<Rightarrow> succeeded out"
  by code_simp

theorem members_managed_by_authority_witness:
  "\<exists>out t. kick_member demo_environment (demo_device 1) \<lparr>target_network = network_id demo_network, target_device = demo_device 2\<rparr> 9
     (new_service demo_two) = (Inr out, t) \<and>
   set (member_keys (svc_store t)) = set (member_keys demo_two) - {(network_id demo_network, demo_device 2)}"
proof -
  obtain out t where run: "kick_member demo_environment (demo_device 1) \<lparr>target_network = network_id demo_network,
      target_device = demo_device 2\<rparr> 9 (new_service demo_two) = (Inr out, t)" and ok: "succeeded out"
    using demo_kick by (cases "kick_member demo_environment (demo_device 1) \<lparr>target_network = network_id demo_network,
      target_device = demo_device 2\<rparr> 9 (new_service demo_two)") (auto split: sum.splits)
  have db: "svc_store (new_service demo_two) = demo_two" by (simp add: new_service_def)
  have "store_ok (svc_store (new_service demo_two))" unfolding db by (rule reachable_store_ok [OF demo_two_reachable])
  from members_managed_by_authority [OF this ok, of demo_environment "demo_device 1" "network_id demo_network" "demo_device 2" 9 t] run
  show ?thesis unfolding db by blast
qed

section \<open>Joining\<close>

lemma join_locked_success:
  assumes "join_network_locked env actor n now_ms verified s = (Inr out, t)" and ok: "succeeded out"
  obtains db1 db2 where "db1 = svc_store s\<lparr>db_devices := upsert_device actor now_ms (db_devices (svc_store s))\<rparr>"
    "(\<exists>i. find_invitation n actor db1 = Inr (Some i)) \<or> verified \<and> (\<exists>pw. network_password n db1 = Some pw \<and> \<not> password_require_approval pw)"
    "add_member n actor now_ms db1 = Inr (True, db2)"
    "admitted env Op_join n actor actor now_ms (s\<lparr>svc_store := db2\<rparr>) = (Inr out, t)"
proof -
  have final: "audited env actor now_ms ((operation_outcome Op_join RC_pending_approval n)\<lparr>outcome_events := ev\<rparr>) u = (Inr out, t) \<Longrightarrow> False" for ev u
    using ok by (auto dest!: audited_standing)
  from handler_success(2) [OF assms [unfolded join_network_locked_def]] ok obtain db1 db2 invitation where
    rec: "record_device actor now_ms (svc_store s) = Inr ((), db1)" and inv: "find_invitation n actor db1 = Inr invitation"
    and may: "invitation \<noteq> None \<or> verified \<and> (case network_password n db1 of None \<Rightarrow> False | Some pw \<Rightarrow> \<not> password_require_approval pw)"
    and add: "add_member n actor now_ms db1 = Inr (True, db2)"
    and adm: "admitted env Op_join n actor actor now_ms (s\<lparr>svc_store := db2\<rparr>) = (Inr out, t)"
    by (auto simp: svc_run dest: final)
  from may inv have "(\<exists>i. find_invitation n actor db1 = Inr (Some i)) \<or>
      verified \<and> (\<exists>pw. network_password n db1 = Some pw \<and> \<not> password_require_approval pw)"
    by (auto split: option.splits)
  from that [OF record_device_effect [OF rec] this add adm] show ?thesis .
qed

lemma found_invitation: "find_invitation n d db = Inr (Some i) \<Longrightarrow> (n, d) \<in> set (invitation_keys db)"
  by (auto simp: find_invitation_def query_unique_def res_bind_Inr_iff filter_eq_Cons_iff split: list.splits if_splits)

lemma join_locked_effect:
  assumes "join_network_locked env actor n now_ms verified s = (Inr out, t)" and ok: "succeeded out"
  shows "set (member_keys (svc_store t)) = insert (n, actor) (set (member_keys (svc_store s))) \<and> (n, actor) \<notin> set (member_keys (svc_store s)) \<and>
    new_revision s t n \<and> ((n, actor) \<in> set (invitation_keys (svc_store s)) \<or>
      verified \<and> (\<exists>pw. network_password n (svc_store s) = Some pw \<and> \<not> password_require_approval pw))"
proof -
  from assms obtain db1 db2 where db1: "db1 = svc_store s\<lparr>db_devices := upsert_device actor now_ms (db_devices (svc_store s))\<rparr>"
    and may: "(\<exists>i. find_invitation n actor db1 = Inr (Some i)) \<or> verified \<and> (\<exists>pw. network_password n db1 = Some pw \<and> \<not> password_require_approval pw)"
    and add: "add_member n actor now_ms db1 = Inr (True, db2)"
    and adm: "admitted env Op_join n actor actor now_ms (s\<lparr>svc_store := db2\<rparr>) = (Inr out, t)"
    by (rule join_locked_success)
  have "(n, actor) \<in> set (invitation_keys (svc_store s)) \<or>
      verified \<and> (\<exists>pw. network_password n (svc_store s) = Some pw \<and> \<not> password_require_approval pw)"
    using may found_invitation [of n actor db1] by (auto simp: db1 network_password_def)
  moreover have "new_revision s t n" using admitted_effect [OF adm] by (simp add: new_revision_store)
  moreover have "db_memberships (svc_store t) = db_memberships db2"
    using admitted_effect [OF adm] unlogged_tables [of "svc_store t" db2] by simp
  ultimately show ?thesis using add_member_effect [OF add] by (simp add: db1)
qed

text \<open>
  C26.
  Joining by id alone needs an invitation: when \<open>join_network\<close> succeeds, the device had been invited
  and was no member, it is the only new member, and the members are sent a new revision.
\<close>

theorem joining_needs_invitation:
  assumes "join_network env actor \<lparr>selection_network = n\<rparr> now_ms s = (Inr out, t)" and "succeeded out"
  shows "(n, actor) \<in> set (invitation_keys (svc_store s)) \<and> (n, actor) \<notin> set (member_keys (svc_store s)) \<and>
    set (member_keys (svc_store t)) = insert (n, actor) (set (member_keys (svc_store s))) \<and> new_revision s t n"
proof -
  have "join_network_locked env actor n now_ms False s = (Inr out, t)"
    using assms(1) by (auto simp: join_network_def svc_run)
  from join_locked_effect [OF this assms(2)] show ?thesis by blast
qed

definition demo_invited :: RelayStore where
  "demo_invited = demo_db\<lparr>db_devices := db_devices demo_db @ [\<lparr>device_id = demo_device 2, first_seen_at_ms = 6, last_seen_at_ms = 6\<rparr>],
     db_invitations := [\<lparr>invited_network = network_id demo_network, invited_device = demo_device 2, invited_at_ms = 7\<rparr>]\<rparr>"

lemma demo_join:
  "case fst (join_network demo_environment (demo_device 2) \<lparr>selection_network = network_id demo_network\<rparr> 9 (new_service demo_invited)) of
     Inl e \<Rightarrow> False | Inr out \<Rightarrow> succeeded out"
  by code_simp

theorem joining_needs_invitation_witness:
  "\<exists>out t. join_network demo_environment (demo_device 2) \<lparr>selection_network = network_id demo_network\<rparr> 9 (new_service demo_invited) = (Inr out, t) \<and>
     set (member_keys (svc_store t)) = insert (network_id demo_network, demo_device 2) (set (member_keys demo_invited))"
proof -
  obtain out t where run: "join_network demo_environment (demo_device 2) \<lparr>selection_network = network_id demo_network\<rparr> 9
      (new_service demo_invited) = (Inr out, t)" and ok: "succeeded out"
    using demo_join by (cases "join_network demo_environment (demo_device 2) \<lparr>selection_network = network_id demo_network\<rparr> 9
      (new_service demo_invited)") (auto split: sum.splits)
  have "svc_store (new_service demo_invited) = demo_invited" by (simp add: new_service_def)
  with joining_needs_invitation [OF run ok] run show ?thesis by metis
qed

end
