(* ===== verification/Policy_Authority.thy ===== *)
theory Policy_Authority
  imports Member_Authority
begin

text \<open>
  What \<open>manage_network\<close> guarantees of the policies it stores: who may replace one, that an
  administrator cannot change roles, and that the new policy names members only and routes subnets
  that overlap nothing else.
\<close>

lemma first_failure_None: "first_failure check xs = Inr None \<longleftrightarrow> (\<forall>x\<in>set xs. check x = Inr None)"
  by (induction xs) (auto simp: res_bind_Inr_iff split: option.splits)

lemma or_else_None: "or_else a b = Inr None \<longleftrightarrow> a = Inr None \<and> b = Inr None"
  by (auto simp: or_else_def res_bind_Inr_iff split: option.splits)

lemma fail_if_None [simp]: "fail_if code bad = None \<longleftrightarrow> \<not> bad"
  by (simp add: fail_if_def)

text \<open>Roles are the same when each side's assignments agree with the other's.\<close>

lemma find_member_policy_Some: "find_member_policy ms d = Some m \<Longrightarrow> m \<in> set ms \<and> member_device m = d"
  by (induction ms) (auto split: if_splits)

lemma keeps_roles_same:
  assumes "keeps_roles current next"
  shows "policy_role next d = policy_role current d"
proof -
  have nx: "member_role m = policy_role current d" if "find_member_policy (members next) d = Some m" for m
    using assms find_member_policy_Some [OF that] by (auto simp: keeps_roles_def list_all_iff)
  have cu: "member_role m = policy_role next d" if "find_member_policy (members current) d = Some m" for m
    using assms find_member_policy_Some [OF that] by (auto simp: keeps_roles_def list_all_iff)
  show ?thesis
  proof (cases "find_member_policy (members next) d")
    case (Some m)
    with nx show ?thesis by (simp add: policy_role_def)
  next
    case None
    with cu show ?thesis
      by (cases "find_member_policy (members current) d") (simp_all add: policy_role_def)
  qed
qed

section \<open>Accepted policies\<close>

definition member_or_nobody :: "RelayStore \<Rightarrow> NetworkId \<Rightarrow> DeviceId \<Rightarrow> bool" where
  "member_or_nobody db n d \<longleftrightarrow> d = no_device \<or> (n, d) \<in> set (lease_keys db)"

lemma member_or_none_sound:
  assumes "member_or_none n db d = Inr True"
  shows "member_or_nobody db n d"
proof (cases "d = no_device")
  case False
  then obtain l where "find_virtual_ipv4_lease n d db = Inr (Some l)"
    using assms by (auto simp: member_or_none_def res_bind_Inr_iff)
  then show ?thesis using found_lease lease_key unfolding member_or_nobody_def by blast
qed (simp add: member_or_nobody_def)

text \<open>No routed subnet touches the overlay pool or a route of another network.\<close>

definition routes_clear :: "RelayStore \<Rightarrow> NetworkId \<Rightarrow> NetworkPolicy \<Rightarrow> bool" where
  "routes_clear db n p \<longleftrightarrow> (\<forall>r\<in>set (routes p).
     member_or_nobody db n (route_gateway r) \<and>
     \<not> subnets_overlap (route_address r) (route_prefix r) virtual_ipv4_pool_first 10 \<and>
     (\<forall>other\<in>set (db_networks db). network_id other \<noteq> n \<longrightarrow> (\<exists>q. network_policy (network_id other) db = Inr q \<and>
        (\<forall>x\<in>set (routes q). \<not> subnets_overlap (route_address r) (route_prefix r) (route_address x) (route_prefix x)))))"

lemma check_route_clear:
  assumes "check_route n db subnet r = Inr None"
  shows "member_or_nobody db n (route_gateway r) \<and>
    \<not> subnets_overlap (route_address r) (route_prefix r) virtual_ipv4_pool_first 10 \<and>
    (\<forall>other\<in>set (db_networks db). network_id other \<noteq> n \<longrightarrow> (\<exists>q. network_policy (network_id other) db = Inr q \<and>
      (\<forall>x\<in>set (routes q). \<not> subnets_overlap (route_address r) (route_prefix r) (route_address x) (route_prefix x))))"
proof -
  from assms obtain all where free: "\<not> subnets_overlap (route_address r) (route_prefix r) virtual_ipv4_pool_first 10"
    and gw: "member_or_none n db (route_gateway r) = Inr True"
    and state: "load_state db = Inr all" and foreign: "first_failure (check_foreign n db r) (state_networks all) = Inr None"
    by (auto simp: check_route_def res_bind_Inr_iff split: if_splits)
  have "set (state_networks all) = set (db_networks db)"
    using state by (auto simp: load_state_def res_bind_Inr_iff)
  with foreign have "\<forall>other\<in>set (db_networks db). check_foreign n db r other = Inr None"
    by (simp add: first_failure_None)
  then have "\<forall>other\<in>set (db_networks db). network_id other \<noteq> n \<longrightarrow> (\<exists>q. network_policy (network_id other) db = Inr q \<and>
      (\<forall>x\<in>set (routes q). \<not> subnets_overlap (route_address r) (route_prefix r) (route_address x) (route_prefix x)))"
    by (fastforce simp: check_foreign_def res_bind_Inr_iff list_ex_iff split: if_splits)
  with free member_or_none_sound [OF gw] show ?thesis by blast
qed

lemma check_policy_sound:
  assumes "check_policy n db action actor owner requested current next = Inr None"
  shows "(\<forall>h\<in>set (hubs requested). member_or_nobody db n h) \<and> routes_clear db n next \<and>
    (actor \<noteq> owner \<longrightarrow> action = MA_replace_policy \<longrightarrow> keeps_roles current next) \<and>
    (action = MA_replace_policy \<longrightarrow> (\<forall>g\<in>set (gateways next). \<exists>old\<in>set (gateways current). gateway_device old = gateway_device g)) \<and>
    revision next = revision current \<and> revision next \<noteq> uint64_max"
proof -
  from assms obtain subnet where h: "\<forall>h\<in>set (hubs requested). check_hub n db h = Inr None"
    and g: "\<forall>g\<in>set (gateways next). check_gateway n db action actor current next g = Inr None"
    and role: "\<not> (actor \<noteq> owner \<and> action = MA_replace_policy \<and> \<not> keeps_roles current next)"
    and r: "\<forall>r\<in>set (routes next). check_route n db subnet r = Inr None"
    and v: "revision next = revision current" "revision next \<noteq> uint64_max"
    by (auto simp: check_policy_def or_else_None first_failure_None res_bind_Inr_iff)
  have "\<forall>h\<in>set (hubs requested). member_or_nobody db n h"
    using h member_or_none_sound by (fastforce simp: check_hub_def res_bind_Inr_iff)
  moreover have "\<exists>old\<in>set (gateways current). gateway_device old = gateway_device x"
    if "action = MA_replace_policy" "x \<in> set (gateways next)" for x
    using g that by (force simp: check_gateway_def res_bind_Inr_iff Let_def list_ex_iff split: if_splits)
  moreover have "routes_clear db n next"
    using r check_route_clear unfolding routes_clear_def by blast
  ultimately show ?thesis using role v by blast
qed

section \<open>Replacing a policy\<close>

lemma slift_returns: "slift r s = (Inr c, t) \<longleftrightarrow> r = Inr c \<and> t = s"
  by (rule primitive_returns)

lemma management_outcome_simps [simp]:
  "managed_code (management_outcome request code policy) = code" "managed_policy (management_outcome request code policy) = policy"
  by (simp_all add: management_outcome_def)

lemma sum_returns [svc_run]:
  "(case v of Inl y \<Rightarrow> f y | Inr y \<Rightarrow> g y) s = (Inr z, t) \<longleftrightarrow>
     (\<exists>y. v = Inl y \<and> f y s = (Inr z, t)) \<or> (\<exists>y. v = Inr y \<and> g y s = (Inr z, t))"
  by (auto split: sum.splits)

lemma first_failure_Some: "first_failure check xs = Inr (Some c) \<Longrightarrow> \<exists>x\<in>set xs. check x = Inr (Some c)"
  by (induction xs) (auto simp: res_bind_Inr_iff split: option.splits)

lemma or_else_Some: "or_else a b = Inr (Some c) \<longleftrightarrow> a = Inr (Some c) \<or> a = Inr None \<and> b = Inr (Some c)"
  by (auto simp: or_else_def res_bind_Inr_iff split: option.splits)

lemma fail_if_Some [simp]: "fail_if code bad = Some c \<longleftrightarrow> bad \<and> c = code"
  by (auto simp: fail_if_def)

lemma check_route_code: "check_route n db subnet r = Inr (Some c) \<Longrightarrow> c \<noteq> RC_success"
  by (auto simp: check_route_def check_foreign_def res_bind_Inr_iff split: if_splits dest!: first_failure_Some)

lemma check_policy_code:
  "check_policy n db action actor owner requested current next = Inr (Some c) \<Longrightarrow> c \<noteq> RC_success"
  by (auto simp: check_policy_def or_else_Some res_bind_Inr_iff check_hub_def check_rule_def check_gateway_def check_assignment_def Let_def
      dest!: first_failure_Some check_route_code split: if_splits)

lemma replace_policy_success:
  assumes run: "replace_policy actor request now_ms net current s = (Inr (out, changes), t)"
    and ok: "managed_code out = RC_success" and action: "manage_action request = MA_replace_policy"
  obtains db event where "can_manage_network (manage_network request) actor s = Inr True" "actor \<in> svc_management_capable s"
    "\<not> malformed_proposal MA_replace_policy (manage_policy request)"
    "check_policy (manage_network request) (svc_store s) MA_replace_policy actor (owner_device_id net) (manage_policy request)
       current (manage_policy request) = Inr None"
    "save_network_policy (manage_network request) ((manage_policy request)\<lparr>revision := revision (manage_policy request) + 1\<rparr>)
       (revision current) (Some event) (svc_store s) = Inr (True, db)"
    "svc_store t = db" "managed_policy out = (manage_policy request)\<lparr>revision := revision (manage_policy request) + 1\<rparr>"
    "new_revision s t (manage_network request)"
proof -
  let ?n = "manage_network request" and ?saved = "(manage_policy request)\<lparr>revision := revision (manage_policy request) + 1\<rparr>"
  from run action obtain db event u where allowed: "actor \<in> svc_management_capable s" "can_manage_network ?n actor s = Inr True"
    and fine: "\<not> malformed_proposal MA_replace_policy (manage_policy request)"
    and check: "check_policy ?n (svc_store s) MA_replace_policy actor (owner_device_id net) (manage_policy request)
       current (manage_policy request) = Inr None"
    and saved: "save_network_policy ?n ?saved (revision current) (Some event) (svc_store s) = Inr (True, db)"
    and ep: "advance_key_epoch ?n (s\<lparr>svc_store := db\<rparr>) = (Inr (), u)" and an: "announce ?n u = (Inr changes, t)"
    and out: "managed_policy out = ?saved"
    using ok
    by (auto simp: replace_policy_def Let_def svc_run proposed_policy_def res_bind_Inr_iff
        dest: check_policy_code split: if_splits)
  from an obtain v where rv: "advance_revision ?n u = (Inr v, t)" by (auto simp: announce_def svc_run)
  have "svc_store t = db" "new_revision s t ?n"
    using advance_key_epoch_effect [OF ep] advance_revision_effect [OF rv] by (auto simp: new_revision_def counters_store)
  with that [OF allowed(2,1) fine check saved] out show ?thesis by blast
qed

text \<open>
  C14.
  A policy is replaced only by someone entitled to manage the network, from a device that enforces
  policies, and only as a successor of the policy it was based on: the stored policy becomes the
  requested one with the next revision. Whoever is not the owner leaves the network managed and
  changes nobody's role, not even its own. The hubs are members, a gateway must have asked to be
  one, and no route of the new policy overlaps the overlay pool or a route of another network.
\<close>

theorem policy_replaced_by_authority:
  assumes "policy_typed (manage_policy request)" and "manage_action request = MA_replace_policy"
    and "service_manage_network env actor request now_ms s = (Inr (out, changes), t)" and "managed_code out = RC_success"
  shows "\<exists>current new. network_policy (manage_network request) (svc_store s) = Inr current \<and>
    network_policy (manage_network request) (svc_store t) = Inr new \<and>
    new = (manage_policy request)\<lparr>revision := revision current + 1\<rparr> \<and> revision (manage_policy request) = revision current \<and>
    manages s (manage_network request) actor \<and> actor \<in> svc_management_capable s \<and>
    (\<exists>net\<in>set (db_networks (svc_store s)). network_id net = manage_network request \<and>
      (actor = owner_device_id net \<or> managed new \<and> (\<forall>d. policy_role new d = policy_role current d))) \<and>
    (\<forall>h\<in>set (hubs new). member_or_nobody (svc_store s) (manage_network request) h) \<and>
    (\<forall>g\<in>set (gateways new). \<exists>old\<in>set (gateways current). gateway_device old = gateway_device g) \<and>
    routes_clear (svc_store s) (manage_network request) new"
proof -
  let ?n = "manage_network request"
  from assms(2-4) obtain net current where net: "find_network ?n (svc_store s) = Inr (Some net)"
    and cur: "network_policy ?n (svc_store s) = Inr current"
    and run: "replace_policy actor request now_ms net current s = (Inr (out, changes), t)"
    by (auto simp: service_manage_network_def manage_body_def Let_def svc_run)
  from run assms(4,2) obtain db event where may: "can_manage_network ?n actor s = Inr True" "actor \<in> svc_management_capable s"
    and "\<not> malformed_proposal MA_replace_policy (manage_policy request)"
    and check: "check_policy ?n (svc_store s) MA_replace_policy actor (owner_device_id net) (manage_policy request)
       current (manage_policy request) = Inr None"
    and saved: "save_network_policy ?n ((manage_policy request)\<lparr>revision := revision (manage_policy request) + 1\<rparr>)
       (revision current) (Some event) (svc_store s) = Inr (True, db)"
    and t: "svc_store t = db" and "managed_policy out = (manage_policy request)\<lparr>revision := revision (manage_policy request) + 1\<rparr>"
    and "new_revision s t ?n"
    by (rule replace_policy_success)
  note sound = check_policy_sound [OF check]
  have typed: "policy_typed ((manage_policy request)\<lparr>revision := revision (manage_policy request) + 1\<rparr>)"
    using assms(1) by (simp add: policy_typed_def)
  have new: "network_policy ?n (svc_store t) = Inr ((manage_policy request)\<lparr>revision := revision current + 1\<rparr>)"
    using save_network_policy_dest [OF typed saved cur [unfolded network_policy_def]] sound by (simp add: t network_policy_def)
  have roles: "actor = owner_device_id net \<or> managed (manage_policy request) \<and> (\<forall>d. policy_role (manage_policy request) d = policy_role current d)"
  proof (cases "actor = owner_device_id net")
    case False
    with sound have "keeps_roles current (manage_policy request)" by blast
    then show ?thesis using keeps_roles_same keeps_roles_def by blast
  qed simp
  define new where "new = (manage_policy request)\<lparr>revision := revision current + 1\<rparr>"
  have same: "policy_role new d = policy_role (manage_policy request) d" "managed new = managed (manage_policy request)"
    "hubs new = hubs (manage_policy request)" "gateways new = gateways (manage_policy request)"
    "routes_clear db n new = routes_clear db n (manage_policy request)" for d db n
    by (simp_all add: new_def policy_role_def routes_clear_def)
  have "\<exists>net\<in>set (db_networks (svc_store s)). network_id net = ?n \<and>
      (actor = owner_device_id net \<or> managed new \<and> (\<forall>d. policy_role new d = policy_role current d))"
    unfolding same using found_network [OF net] roles by blast
  moreover have "(\<forall>h\<in>set (hubs new). member_or_nobody (svc_store s) ?n h) \<and>
      (\<forall>g\<in>set (gateways new). \<exists>old\<in>set (gateways current). gateway_device old = gateway_device g) \<and>
      routes_clear (svc_store s) ?n new"
    unfolding same using sound by blast
  ultimately show ?thesis
    using cur new [folded new_def] new_def sound can_manage_sound [OF may(1)] may(2) by metis
qed

text \<open>For evaluation: the size limit of policy documents, compared as an integer.\<close>

definition oversized :: "bytes \<Rightarrow> bool" where
  "oversized doc \<longleftrightarrow> int (length doc) > 32768"

lemma oversized_iff: "oversized doc \<longleftrightarrow> length doc > 32768"
  by (simp add: oversized_def)

lemma read_policy_code [code]:
  "read_policy n db =
     (case find (\<lambda>r. fst r = n) (db_policies db) of
        None \<Rightarrow> Inr default_policy
      | Some r \<Rightarrow> if snd r = [] \<or> oversized (snd r) then Inl (Runtime_error ''invalid policy document'')
          else decode_network_policy (snd r))"
  unfolding read_policy_def oversized_iff by (rule refl)

lemma save_network_policy_code [code]:
  "save_network_policy n p expected audit db =
     res_bind (encode_network_policy p) (\<lambda>doc.
     if expected = uint64_max \<or> revision p \<noteq> expected + 1 then Inl (Invalid_argument ''invalid policy revision'')
     else res_bind (read_policy n db) (\<lambda>stored.
       if revision stored \<noteq> expected then Inr (False, db)
       else if \<not> has_network db n \<or> doc = [] \<or> oversized doc then Inl constraint_failed
       else let db1 = db\<lparr>db_policies := upsert_row n doc (db_policies db)\<rparr> in
         case audit of None \<Rightarrow> Inr (True, db1)
         | Some e \<Rightarrow> res_bind (append_audit_locked e db1) (\<lambda>db2. Inr (True, db2))))"
proof -
  have "length doc < 1 \<longleftrightarrow> doc = []" for doc :: bytes by (simp add: less_Suc_eq_le)
  then show ?thesis unfolding save_network_policy_def oversized_iff by presburger
qed

definition demo_request :: ManagementRequest where
  "demo_request = \<lparr>manage_action = MA_replace_policy, manage_network = network_id demo_network, manage_policy = default_policy\<lparr>managed := True\<rparr>\<rparr>"

definition demo_capable :: NetworkService where
  "demo_capable = (new_service demo_db)\<lparr>svc_management_capable := {demo_device 1}\<rparr>"

lemma demo_replace:
  "case fst (service_manage_network demo_environment (demo_device 1) demo_request 9 demo_capable) of
     Inl e \<Rightarrow> False | Inr (out, changes) \<Rightarrow> managed_code out = RC_success"
  by code_simp

theorem policy_replaced_by_authority_witness:
  "\<exists>out changes t. service_manage_network demo_environment (demo_device 1) demo_request 9 demo_capable = (Inr (out, changes), t) \<and>
     (\<exists>new. network_policy (network_id demo_network) (svc_store t) = Inr new \<and> managed new)"
proof -
  obtain out changes t where run: "service_manage_network demo_environment (demo_device 1) demo_request 9 demo_capable = (Inr (out, changes), t)"
    and ok: "managed_code out = RC_success"
    using demo_replace by (cases "service_manage_network demo_environment (demo_device 1) demo_request 9 demo_capable")
      (auto split: sum.splits)
  have "policy_typed (manage_policy demo_request)" "manage_action demo_request = MA_replace_policy"
    by (simp_all add: demo_request_def policy_typed_def default_policy_def topology_of_raw_def)
  from policy_replaced_by_authority [OF this run ok] run show ?thesis
    by (auto simp: demo_request_def)
qed

end
