(* ===== verification/Access_Limits.thy ===== *)
theory Access_Limits
  imports Policy_Authority
begin

text \<open>
  The limiter \<open>allow_access_attempt\<close> bounds the rate of guesses of passwords and invitation codes, per
  device and network, per device, per network and in all: an instance of the contract
  \<open>rate_limiter\<close> of the forwarding quotas.
\<close>

section \<open>The windows of a key\<close>

lemma window_of_upsert: "window_of (upsert_row k v m) now k' = (if k' = k then v else window_of m now k')"
  by (simp add: window_of_def map_of_upsert_row)

lemma open_windows_windows: "open_windows now ks m = (ok, m') \<Longrightarrow> window_of m' now k = window_of m now k"
proof (induction ks arbitrary: m)
  case (Cons x ks)
  obtain k0 l where x: "x = (k0, l)" by (cases x)
  have "window_of (upsert_row k0 (window_of m now k0) m) now k = window_of m now k" by (simp add: window_of_upsert)
  with Cons x show ?case by (auto simp: Let_def split: if_splits)
qed simp

lemma open_windows_passed:
  "open_windows now ks m = (True, m') \<Longrightarrow> (k, l) \<in> set ks \<Longrightarrow> window_attempts (window_of m now k) < l"
proof (induction ks arbitrary: m)
  case (Cons x ks)
  obtain k0 l0 where x: "x = (k0, l0)" by (cases x)
  have same: "window_of (upsert_row k0 (window_of m now k0) m) now k = window_of m now k" by (simp add: window_of_upsert)
  have "window_attempts (window_of m now k0) < l0" "open_windows now ks (upsert_row k0 (window_of m now k0) m) = (True, m')"
    using Cons.prems(1) by (auto simp: x Let_def split: if_splits)
  with Cons.IH [OF this(2)] Cons.prems(2) same show ?case by (auto simp: x)
qed simp

lemma count_attempts_windows:
  "window_of (count_attempts now ks m) now k =
     (window_of m now k)\<lparr>window_attempts := window_attempts (window_of m now k) + word_of_nat (count_list ks k)\<rparr>"
  by (induction ks arbitrary: m) (simp_all add: window_of_upsert)

lemma open_windows_keys: "open_windows now ks m = (ok, m') \<Longrightarrow> distinct (map fst m) \<Longrightarrow> distinct (map fst m')"
proof (induction ks arbitrary: m)
  case (Cons x ks)
  obtain k0 l where x: "x = (k0, l)" by (cases x)
  with Cons upsert_row_distinct [of m k0 "window_of m now k0"] show ?case by (auto simp: Let_def split: if_splits)
qed simp

lemma count_attempts_keys: "distinct (map fst m) \<Longrightarrow> distinct (map fst (count_attempts now ks m))"
  by (induction ks arbitrary: m) (simp_all add: upsert_row_distinct)

section \<open>Levels\<close>

definition limit_of :: "NetworkId \<times> DeviceId \<Rightarrow> nat" where
  "limit_of k = (if fst k = no_network then if snd k = no_device then 40 else 10 else if snd k = no_device then 20 else 5)"

definition elapsed_part :: "AccessWindow \<Rightarrow> int \<Rightarrow> rat" where
  "elapsed_part w t = min 1 (of_int (t - window_start w) / of_int minute)"

definition attempt_level :: "NetworkId \<times> DeviceId \<Rightarrow> ((NetworkId \<times> DeviceId) \<times> AccessWindow) list \<Rightarrow> int \<Rightarrow> rat" where
  "attempt_level k m t = of_nat (limit_of k) - as_double (window_attempts (window_of m t k)) +
     of_nat (limit_of k) * elapsed_part (window_of m t k) t"

lemma as_double_le: "unat w \<le> b \<Longrightarrow> as_double w \<le> of_nat b"
  unfolding as_double_def of_nat_le_iff .

lemma elapsed_part_nonneg: "window_start w \<le> t \<Longrightarrow> 0 \<le> elapsed_part w t"
  by (simp add: elapsed_part_def minute_def)

definition windows_good :: "((NetworkId \<times> DeviceId) \<times> AccessWindow) list \<Rightarrow> int \<Rightarrow> bool" where
  "windows_good m t \<longleftrightarrow> distinct (map fst m) \<and>
     (\<forall>k w. map_of m k = Some w \<longrightarrow> window_start w \<le> t \<and> unat (window_attempts w) \<le> limit_of k)"

lemma windows_good_of:
  "windows_good m t \<Longrightarrow> window_start (window_of m t k) \<le> t \<and> unat (window_attempts (window_of m t k)) \<le> limit_of k"
  unfolding windows_good_def window_of_def by (cases "map_of m k") (auto simp del: split_paired_All)

text \<open>How often an attempt counts for a key, and what keeps it below the key's limit.\<close>

lemma counted_within_limit:
  assumes below: "\<And>k l. (k, l) \<in> set (zip (attempt_keys actor n) attempt_limits) \<Longrightarrow> g k < unat l"
    and hit: "k \<in> set (attempt_keys actor n)"
  shows "g k + count_list (attempt_keys actor n) k \<le> limit_of k"
proof -
  have b: "g (n, actor) < 5" "g (no_network, actor) < 10" "g (n, no_device) < 20" "g (no_network, no_device) < 40"
    using below [of "(n, actor)" 5] below [of "(no_network, actor)" 10] below [of "(n, no_device)" 20] below [of "(no_network, no_device)" 40]
    by (simp_all add: attempt_keys_def attempt_limits_def)
  show ?thesis
    using hit b by (cases "n = no_network"; cases "actor = no_device") (auto simp: attempt_keys_def limit_of_def)
qed

section \<open>The contract\<close>

type_synonym attempt = "int \<times> DeviceId \<times> NetworkId"

definition attempt_run :: "attempt \<Rightarrow> ((NetworkId \<times> DeviceId) \<times> AccessWindow) list \<Rightarrow> bool \<times> ((NetworkId \<times> DeviceId) \<times> AccessWindow) list" where
  "attempt_run = (\<lambda>(now, actor, n). attempt_at now actor n)"

definition attempt_cost :: "NetworkId \<times> DeviceId \<Rightarrow> attempt \<Rightarrow> rat" where
  "attempt_cost k = (\<lambda>(now, actor, n). if k \<in> set (attempt_keys actor n) then 1 else 0)"

definition live_windows :: "int \<Rightarrow> ((NetworkId \<times> DeviceId) \<times> AccessWindow) list \<Rightarrow> ((NetworkId \<times> DeviceId) \<times> AccessWindow) list" where
  "live_windows now m = filter (\<lambda>e. \<not> now - window_start (snd e) \<ge> minute) m"

lemma map_of_live:
  assumes "distinct (map fst m)"
  shows "map_of (live_windows now m) k =
    (case map_of m k of None \<Rightarrow> None | Some w \<Rightarrow> if now - window_start w \<ge> minute then None else Some w)"
  using assms
proof (induction m)
  case (Cons e m)
  obtain k' w' where e: "e = (k', w')" by (cases e)
  have "k' \<notin> fst ` set m" using Cons.prems e by simp
  then have "map_of m k' = None" by (simp add: map_of_eq_None_iff)
  with Cons e show ?case by (auto simp: live_windows_def)
qed (simp add: live_windows_def)

lemma live_good:
  assumes "windows_good m t" and "t \<le> now"
  shows "windows_good (live_windows now m) now \<and> attempt_level k (live_windows now m) now \<le> attempt_level k m now"
proof -
  have d: "distinct (map fst m)" using assms(1) by (simp add: windows_good_def)
  have "distinct (map fst (live_windows now m))" unfolding live_windows_def using d by (rule distinct_map_filterI)
  then have good: "windows_good (live_windows now m) now"
    using assms by (auto simp: windows_good_def map_of_live [OF d] split: option.splits if_splits) force+
  show ?thesis
  proof (cases "map_of m k")
    case None
    then show ?thesis using good by (simp add: attempt_level_def window_of_def map_of_live [OF d])
  next
    case (Some w)
    show ?thesis
    proof (cases "now - window_start w \<ge> minute")
      case True
      then have "elapsed_part w now = 1" by (simp add: elapsed_part_def minute_def)
      moreover have "unat (window_attempts w) \<le> limit_of k" using assms(1) Some unfolding windows_good_def by blast
      ultimately show ?thesis
        using good True Some as_double_le [of "window_attempts w" "limit_of k"] elapsed_part_def [of "\<lparr>window_start = now, window_attempts = 0\<rparr>" now]
        by (simp add: attempt_level_def window_of_def map_of_live [OF d] as_double_def [of 0])
    next
      case False
      then show ?thesis using good Some by (simp add: attempt_level_def window_of_def map_of_live [OF d])
    qed
  qed
qed

lemma attempt_step:
  assumes good: "windows_good m t" and "t \<le> now" and run: "attempt_at now actor n m = (ok, m')"
  shows "windows_good m' now \<and> attempt_level k m' now + (if ok \<and> k \<in> set (attempt_keys actor n) then 1 else 0) \<le> attempt_level k m now"
proof -
  define live where "live = live_windows now m"
  note live = live_good [OF assms(1,2), folded live_def]
  define r where "r = open_windows now (zip (attempt_keys actor n) attempt_limits) live"
  obtain passed m1 where r: "r = (passed, m1)" by (cases r)
  have same: "window_of m1 now j = window_of live now j" for j
    using open_windows_windows [OF r [unfolded r_def]] .
  have level1: "attempt_level j m1 now = attempt_level j live now" for j by (simp add: attempt_level_def same)
  have good1: "windows_good m1 now"
  proof -
    have "window_start w \<le> now \<and> unat (window_attempts w) \<le> limit_of j" if "map_of m1 j = Some w" for j w
      using windows_good_of [of live now j] live same [of j] that by (simp add: window_of_def)
    moreover have "distinct (map fst m1)"
      using open_windows_keys [OF r [unfolded r_def]] live by (simp add: windows_good_def)
    ultimately show ?thesis unfolding windows_good_def by blast
  qed
  consider "m' = live" "\<not> ok" | "m' = m1" "\<not> ok" | "passed" "ok" "m' = count_attempts now (attempt_keys actor n) m1"
    using run r by (auto simp: attempt_at_def Let_def live_windows_def [symmetric] live_def [symmetric] r_def [symmetric] split: if_splits bool.splits)
  then show ?thesis
  proof cases
    case 3
    let ?c = "count_list (attempt_keys actor n)"
    have below: "(j, l) \<in> set (zip (attempt_keys actor n) attempt_limits) \<Longrightarrow> unat (window_attempts (window_of live now j)) < unat l" for j l
      using open_windows_passed [of now _ live m1 j l] 3(1) r by (simp add: r_def word_less_nat_alt)
    have sum: "unat (window_attempts (window_of live now j) + word_of_nat (?c j)) = unat (window_attempts (window_of live now j)) + ?c j \<and>
        unat (window_attempts (window_of live now j)) + ?c j \<le> limit_of j" for j
    proof -
      have le: "unat (window_attempts (window_of live now j)) + ?c j \<le> limit_of j"
        using counted_within_limit [of actor n "\<lambda>j. unat (window_attempts (window_of live now j))" j, OF below]
          windows_good_of [of live now j] live by (cases "j \<in> set (attempt_keys actor n)") (auto simp: count_notin)
      moreover have "limit_of j < 2 ^ 32" by (simp add: limit_of_def)
      ultimately show ?thesis by (simp add: unat_plus_if' unat_of_nat take_bit_nat_eq_self)
    qed
    have w: "window_of m' now j = (window_of live now j)\<lparr>window_attempts := window_attempts (window_of live now j) + word_of_nat (?c j)\<rparr>" for j
      unfolding 3(3) count_attempts_windows same ..
    have "window_start x \<le> now \<and> unat (window_attempts x) \<le> limit_of j" if "map_of m' j = Some x" for j x
      using w [of j] sum [of j] windows_good_of [of live now j] live that by (simp add: window_of_def)
    moreover have "distinct (map fst m')"
      using good1 unfolding 3(3) windows_good_def by (blast intro: count_attempts_keys)
    ultimately have "windows_good m' now" unfolding windows_good_def by blast
    moreover have "attempt_level k m' now = attempt_level k live now - of_nat (?c k)"
    proof -
      have "as_double (window_attempts (window_of live now k) + word_of_nat (?c k)) = as_double (window_attempts (window_of live now k)) + of_nat (?c k)"
        unfolding as_double_def using sum [of k] by (simp only: of_nat_add)
      moreover have "elapsed_part (window_of m' now k) now = elapsed_part (window_of live now k) now" by (simp add: w elapsed_part_def)
      ultimately show ?thesis unfolding attempt_level_def by (simp add: w)
    qed
    moreover have "(if ok \<and> k \<in> set (attempt_keys actor n) then 1 else 0) \<le> (of_nat (?c k) :: rat)"
      using count_list_0_iff [of "attempt_keys actor n" k] by (auto simp: Suc_le_eq)
    moreover have "attempt_level k live now \<le> attempt_level k m now" using live by blast
    ultimately show ?thesis by linarith
  qed (use live level1 good1 in auto)
qed

lemma attempt_drift:
  assumes "windows_good m t" and "t \<le> t'"
  shows "attempt_level k m t' \<le> attempt_level k m t + seconds_between t t' * (of_nat (limit_of k) / 60)"
proof (cases "map_of m k")
  case None
  then show ?thesis
    using assms(2) by (simp add: attempt_level_def window_of_def elapsed_part_def seconds_between_def)
next
  case (Some w)
  have "elapsed_part w t' \<le> elapsed_part w t + of_int (t' - t) / of_int minute"
    using assms(2) by (auto simp: elapsed_part_def min_def minute_def field_simps)
  then have "of_nat (limit_of k) * elapsed_part w t' \<le> of_nat (limit_of k) * (elapsed_part w t + of_int (t' - t) / of_int minute)"
    by (intro mult_left_mono) simp_all
  moreover have "of_nat (limit_of k) * (of_int (t' - t) / of_int minute :: rat) = seconds_between t t' * (of_nat (limit_of k) / 60)"
    by (simp add: minute_def seconds_between_def)
  ultimately have "of_nat (limit_of k) * elapsed_part w t' \<le> of_nat (limit_of k) * elapsed_part w t + seconds_between t t' * (of_nat (limit_of k) / 60)"
    by (simp only: distrib_left)
  then show ?thesis unfolding attempt_level_def window_of_def Some option.case by linarith
qed

interpretation attempts: rate_limiter windows_good "attempt_level k" attempt_run fst "attempt_cost k" "of_nat (limit_of k) / 60" for k
proof
  show "windows_good q' (fst op) \<and> attempt_level k q' (fst op) + (if ok then attempt_cost k op else 0) \<le> attempt_level k q (fst op)"
    if "windows_good q t" "t \<le> fst op" "attempt_run op q = (ok, q')" for q t op ok q'
    using attempt_step [OF that(1), of "fst op" "fst (snd op)" "snd (snd op)" ok q' k] that
    by (auto simp: attempt_run_def attempt_cost_def split: prod.splits if_splits)
  show "attempt_level k q t' \<le> attempt_level k q t + seconds_between t t' * (of_nat (limit_of k) / 60)" if "windows_good q t" "t \<le> t'" for q t t'
    using that by (rule attempt_drift)
  show "0 \<le> attempt_level k q t" if "windows_good q t" for q t
    using windows_good_of [OF that, of k] as_double_le [of "window_attempts (window_of q t k)" "limit_of k"]
      elapsed_part_nonneg [of "window_of q t k" t] unfolding attempt_level_def by simp
qed

text \<open>
  C15.
  Guessing is slow: whoever makes attempts, at whatever instants, the attempts that count for a key,
  a device on a network, a device, a network or the relay as a whole, and are let through are at
  most the key's limit (5, 10, 20 or 40) plus that limit per minute that passes.
\<close>

theorem access_attempts_bounded:
  assumes "sorted (t # map fst ops)"
  shows "spent attempt_run (attempt_cost k) ops [] \<le>
    of_nat (limit_of k) + seconds_between t (last (t # map fst ops)) * (of_nat (limit_of k) / 60)"
proof -
  have "windows_good [] t" by (simp add: windows_good_def)
  from attempts.spent_bound [OF this assms, of k] show ?thesis
    by (simp add: attempt_level_def window_of_def elapsed_part_def as_double_def)
qed

theorem access_attempts_bounded_witness:
  "spent attempt_run (attempt_cost ([1], [2])) (replicate 9 (0, [2], [1])) [] \<le> 5"
  using access_attempts_bounded [of 0 "replicate 9 (0, [2], [1])" "([1], [2])"]
  by (simp add: limit_of_def no_network_def no_device_def seconds_between_def eval_nat_numeral)

section \<open>Secrets that open a network\<close>

lemma allow_access_attempt_frame:
  assumes "allow_access_attempt env actor n s = (r, t)"
  shows "svc_store t = svc_store s \<and> revision_for t = revision_for s \<and> key_epoch_for t = key_epoch_for s"
  using assms by (auto simp: allow_access_attempt_def svc_any fun_eq_iff revision_for_def key_epoch_for_def split: prod.splits)

lemma answer_returns [svc_run]: "answer request code n s = (Inr out, t) \<longleftrightarrow> out = (access_outcome_of request code n, [], []) \<and> t = s"
  by (auto simp: answer_def svc_run)

lemma access_outcome_code [simp]: "access_code (access_outcome_of request code n) = code"
  by (simp add: access_outcome_of_def)

lemma join_with_credential_success:
  assumes "join_with_credential env actor request now_ms verified s = (Inr (out, changes, events), t)" and "access_code out = RC_success"
  obtains joined where "join_network_locked env actor (request_network request) now_ms verified s = (Inr joined, t)" "succeeded joined"
  using assms by (auto simp: join_with_credential_def svc_run succeeded_def)

lemma access_request_body:
  assumes "access_request env actor request now_ms s = (Inr out, t)"
    and "access_audit_kind (request_action request) = None"
  shows "access_body env actor request now_ms s = (Inr out, t)"
  using assms by (auto simp: access_request_def audit_at_exit_def svc_run)

lemma password_join_success:
  assumes run: "access_body env actor request now_ms s = (Inr (out, changes, events), t)" and ok: "access_code out = RC_success"
    and action: "request_action request = AA_password_join"
  obtains v u joined where "network_password (request_network request) (svc_store s) = Some v"
    "password_matches (env_crypto env) (request_secret request) v = Inr True"
    "svc_store u = svc_store s\<lparr>db_devices := upsert_device actor now_ms (db_devices (svc_store s))\<rparr>"
    "join_network_locked env actor (request_network request) now_ms True u = (Inr joined, t)" "succeeded joined"
proof -
  from run action ok obtain db1 where rec: "record_device actor now_ms (svc_store s) = Inr ((), db1)"
    and pw: "password_request env actor request now_ms (s\<lparr>svc_store := db1\<rparr>) = (Inr (out, changes, events), t)"
    by (auto simp: access_body_def svc_run)
  from pw action ok obtain u v where att: "allow_access_attempt env actor (request_network request) (s\<lparr>svc_store := db1\<rparr>) = (Inr True, u)"
    and v: "network_password (request_network request) (svc_store u) = Some v"
      "password_matches (env_crypto env) (request_secret request) v = Inr True"
    and join: "join_with_credential env actor request now_ms True u = (Inr (out, changes, events), t)"
    by (auto simp: password_request_def Let_def svc_run)
  have u: "svc_store u = svc_store s\<lparr>db_devices := upsert_device actor now_ms (db_devices (svc_store s))\<rparr>"
    using allow_access_attempt_frame [OF att] record_device_effect [OF rec] by simp
  from join ok obtain joined where j: "join_network_locked env actor (request_network request) now_ms True u = (Inr joined, t)" "succeeded joined"
    by (rule join_with_credential_success)
  have "network_password (request_network request) (svc_store s) = Some v" using v(1) by (simp add: u network_password_def)
  from that [OF this v(2) u j] show ?thesis .
qed

lemma invite_redeem_success:
  assumes run: "access_body env actor request now_ms s = (Inr (out, changes, events), t)" and ok: "access_code out = RC_success"
    and action: "request_action request = AA_invite_redeem"
  obtains digest u joined where "access_digest (env_crypto env) (request_secret request) = Inr digest"
    "redeem_invite_link (request_network request) digest actor now_ms
       (svc_store s\<lparr>db_devices := upsert_device actor now_ms (db_devices (svc_store s))\<rparr>) = Inr (True, svc_store u)"
    "join_network_locked env actor (request_network request) now_ms False u = (Inr joined, t)" "succeeded joined"
proof -
  from run action ok obtain db1 where rec: "record_device actor now_ms (svc_store s) = Inr ((), db1)"
    and inv: "invitation_request env actor request now_ms (s\<lparr>svc_store := db1\<rparr>) = (Inr (out, changes, events), t)"
    by (auto simp: access_body_def svc_run)
  from inv action ok obtain u0 network where att: "allow_access_attempt env actor (request_network request) (s\<lparr>svc_store := db1\<rparr>) = (Inr True, u0)"
    and red: "redeem_link env actor request now_ms network u0 = (Inr (out, changes, events), t)"
    by (auto simp: invitation_request_def Let_def svc_run)
  from red ok obtain digest db2 where dig: "access_digest (env_crypto env) (request_secret request) = Inr digest"
    and link: "redeem_invite_link (request_network request) digest actor now_ms (svc_store u0) = Inr (True, db2)"
    and join: "join_with_credential env actor request now_ms False (u0\<lparr>svc_store := db2\<rparr>) = (Inr (out, changes, events), t)"
    by (auto simp: redeem_link_def Let_def svc_run)
  from join ok obtain joined where j: "join_network_locked env actor (request_network request) now_ms False (u0\<lparr>svc_store := db2\<rparr>) = (Inr joined, t)"
    "succeeded joined"
    by (rule join_with_credential_success)
  have "svc_store u0 = db1" using allow_access_attempt_frame [OF att] by simp
  with link record_device_effect [OF rec] have "redeem_invite_link (request_network request) digest actor now_ms
      (svc_store s\<lparr>db_devices := upsert_device actor now_ms (db_devices (svc_store s))\<rparr>) = Inr (True, svc_store (u0\<lparr>svc_store := db2\<rparr>))"
    by simp
  from that [OF dig this j] show ?thesis .
qed

lemma join_locked_links:
  assumes "join_network_locked env actor n now_ms verified s = (Inr out, t)" and "succeeded out"
  shows "db_links (svc_store t) = db_links (svc_store s)"
proof -
  from assms obtain db1 db2 where db1: "db1 = svc_store s\<lparr>db_devices := upsert_device actor now_ms (db_devices (svc_store s))\<rparr>"
    and add: "add_member n actor now_ms db1 = Inr (True, db2)"
    and adm: "admitted env Op_join n actor actor now_ms (s\<lparr>svc_store := db2\<rparr>) = (Inr out, t)"
    by (rule join_locked_success)
  have "unlogged (svc_store t) = unlogged db2" using admitted_effect [OF adm] by simp
  then have "db_links (svc_store t) = db_links db2" by (cases "svc_store t", cases db2) (simp add: unlogged_def)
  then show ?thesis using add_member_dest [OF add] by (auto simp: db1 with_member_def clear_pending_def)
qed

lemma redeem_effect:
  assumes "redeem_invite_link n digest actor now db = Inr (True, db')"
  shows "(\<exists>l\<in>set (db_links db). link_network l = n \<and> link_digest l = digest \<and> now < link_expires_ms l \<and> 0 < link_remaining l) \<and>
    member_keys db' = member_keys db \<and>
    db_links db' = map (\<lambda>l. if link_digest l = digest then l\<lparr>link_remaining := link_remaining l - 1\<rparr> else l) (db_links db)"
  using assms
  by (auto simp: redeem_invite_link_def insert_invitation_row_def res_bind_Inr_iff Let_def list_ex_iff simp del: has_row_iff split: if_splits)

lemma password_join_opens:
  assumes "access_request env actor request now_ms s = (Inr (out, changes, events), t)" and "access_code out = RC_success"
    and a: "request_action request = AA_password_join"
  shows "(\<exists>v. network_password (request_network request) (svc_store s) = Some v \<and>
        password_matches (env_crypto env) (request_secret request) v = Inr True \<and>
        ((request_network request, actor) \<in> set (invitation_keys (svc_store s)) \<or> \<not> password_require_approval v)) \<and>
      set (member_keys (svc_store t)) = insert (request_network request, actor) (set (member_keys (svc_store s)))"
proof -
  let ?n = "request_network request"
  have "access_body env actor request now_ms s = (Inr (out, changes, events), t)"
    using access_request_body [OF assms(1)] a by simp
  from this assms(2) a obtain v u joined where v: "network_password ?n (svc_store s) = Some v"
    "password_matches (env_crypto env) (request_secret request) v = Inr True"
    and u: "svc_store u = svc_store s\<lparr>db_devices := upsert_device actor now_ms (db_devices (svc_store s))\<rparr>"
    and j: "join_network_locked env actor ?n now_ms True u = (Inr joined, t)" "succeeded joined"
    by (rule password_join_success)
  from join_locked_effect [OF j] v show ?thesis by (auto simp: u network_password_def)
qed

lemma invite_redeem_opens:
  assumes "access_request env actor request now_ms s = (Inr (out, changes, events), t)" and "access_code out = RC_success"
    and a: "request_action request = AA_invite_redeem"
  shows "(\<exists>digest. access_digest (env_crypto env) (request_secret request) = Inr digest \<and>
        (\<exists>l\<in>set (db_links (svc_store s)). link_network l = request_network request \<and> link_digest l = digest \<and>
          now_ms < link_expires_ms l \<and> 0 < link_remaining l) \<and>
        db_links (svc_store t) =
          map (\<lambda>l. if link_digest l = digest then l\<lparr>link_remaining := link_remaining l - 1\<rparr> else l) (db_links (svc_store s))) \<and>
      set (member_keys (svc_store t)) = insert (request_network request, actor) (set (member_keys (svc_store s)))"
proof -
  let ?n = "request_network request"
  have "access_body env actor request now_ms s = (Inr (out, changes, events), t)"
    using access_request_body [OF assms(1)] a by simp
  from this assms(2) a obtain digest u joined where
    d: "access_digest (env_crypto env) (request_secret request) = Inr digest"
    and red: "redeem_invite_link ?n digest actor now_ms
      (svc_store s\<lparr>db_devices := upsert_device actor now_ms (db_devices (svc_store s))\<rparr>) = Inr (True, svc_store u)"
    and j: "join_network_locked env actor ?n now_ms False u = (Inr joined, t)" "succeeded joined"
    by (rule invite_redeem_success)
  have "db_links (svc_store t) = db_links (svc_store u)" using join_locked_links [OF j] .
  moreover have "set (member_keys (svc_store t)) = insert (?n, actor) (set (member_keys (svc_store u)))"
    using join_locked_effect [OF j] by blast
  ultimately show ?thesis using redeem_effect [OF red] d by (simp only: recorded_tables) auto
qed

text \<open>
  C10.
  Secrets open a network and nothing else does. When joining by password succeeds, the network has a
  password, the secret given matches its verifier, and the device had been invited unless the
  password lets members in without approval. When redeeming an invitation code succeeds, the
  database holds a link of that network with the digest of the code that is neither expired nor used
  up, and one use of it is taken. Either way the device is the one new member.
\<close>

theorem secrets_open_networks:
  assumes "access_request env actor request now_ms s = (Inr (out, changes, events), t)" and "access_code out = RC_success"
  shows "(request_action request = AA_password_join \<longrightarrow>
      (\<exists>v. network_password (request_network request) (svc_store s) = Some v \<and>
        password_matches (env_crypto env) (request_secret request) v = Inr True \<and>
        ((request_network request, actor) \<in> set (invitation_keys (svc_store s)) \<or> \<not> password_require_approval v)) \<and>
      set (member_keys (svc_store t)) = insert (request_network request, actor) (set (member_keys (svc_store s)))) \<and>
    (request_action request = AA_invite_redeem \<longrightarrow>
      (\<exists>digest. access_digest (env_crypto env) (request_secret request) = Inr digest \<and>
        (\<exists>l\<in>set (db_links (svc_store s)). link_network l = request_network request \<and> link_digest l = digest \<and>
          now_ms < link_expires_ms l \<and> 0 < link_remaining l) \<and>
        db_links (svc_store t) =
          map (\<lambda>l. if link_digest l = digest then l\<lparr>link_remaining := link_remaining l - 1\<rparr> else l) (db_links (svc_store s))) \<and>
      set (member_keys (svc_store t)) = insert (request_network request, actor) (set (member_keys (svc_store s))))"
  using password_join_opens [OF assms] invite_redeem_opens [OF assms] by blast

definition demo_locked :: RelayStore where
  "demo_locked = demo_db\<lparr>db_access := [(network_id demo_network,
     \<lparr>password_salt = replicate 32 7, password_digest = replicate 8 1 @ replicate 24 7, password_require_approval = False\<rparr>)]\<rparr>"

definition demo_guess :: AccessRequest where
  "demo_guess = \<lparr>request_action = AA_password_join, request_network = network_id demo_network, request_device = no_device,
     request_text = [], request_secret = replicate 8 1, request_lifetime_seconds = 0, request_max_uses = 0,
     request_require_approval = False\<rparr>"

lemma demo_guess_succeeds:
  "case fst (access_request demo_environment (demo_device 2) demo_guess 9 (new_service demo_locked)) of
     Inl e \<Rightarrow> False | Inr (out, rest) \<Rightarrow> access_code out = RC_success"
  by code_simp

theorem secrets_open_networks_witness:
  "\<exists>out changes events t. access_request demo_environment (demo_device 2) demo_guess 9 (new_service demo_locked) =
       (Inr (out, changes, events), t) \<and>
     set (member_keys (svc_store t)) = insert (network_id demo_network, demo_device 2) (set (member_keys demo_locked))"
proof -
  obtain out changes events t where run: "access_request demo_environment (demo_device 2) demo_guess 9 (new_service demo_locked) =
      (Inr (out, changes, events), t)" and ok: "access_code out = RC_success"
    using demo_guess_succeeds
    by (cases "access_request demo_environment (demo_device 2) demo_guess 9 (new_service demo_locked)") (auto split: sum.splits)
  have "svc_store (new_service demo_locked) = demo_locked" "request_network demo_guess = network_id demo_network"
    "request_action demo_guess = AA_password_join"
    by (simp_all add: new_service_def demo_guess_def)
  with secrets_open_networks [OF run ok] run show ?thesis by metis
qed

end
