(* ===== verification/Service_Deviations.thy ===== *)
theory Service_Deviations
  imports Access_Limits
begin

text \<open>
  Two behaviours of the network service that its documentation does not promise: the first change of
  members after a start of the relay leaves the key epoch where it was, and an access request that
  raises is logged as a success.
\<close>

section \<open>Key epochs\<close>

lemma advance_key_epoch_value:
  assumes "advance_key_epoch n s = (Inr u, t)"
  shows "key_epoch_for t n = (if n \<in> fst ` set (svc_key_epochs s) then key_epoch_for s n + 1 else key_epoch_for s n)"
proof -
  have "n \<in> fst ` set (svc_key_epochs s) \<longleftrightarrow> map_of (svc_key_epochs s) n \<noteq> None" by (simp add: map_of_eq_None_iff)
  with assms show ?thesis
    by (cases "map_of (svc_key_epochs s) n")
      (auto simp: advance_key_epoch_def Let_def key_epoch_for_def map_of_upsert_row split: if_splits)
qed

text \<open>
  C27.
  A kick rotates the key epoch of a network exactly when the service has already counted an epoch
  for it. \<open>key_epoch_for\<close> takes a network without a counter to be in epoch 1, and
  \<open>advance_key_epoch\<close> starts the counter from 0, so the first kick after the relay starts leaves the
  epoch at 1.
\<close>

theorem kick_rotates_counted_epochs:
  assumes "kick_member env actor \<lparr>target_network = n, target_device = d\<rparr> now_ms s = (Inr out, t)" and ok: "succeeded out"
  shows "key_epoch_for t n = (if n \<in> fst ` set (svc_key_epochs s) then key_epoch_for s n + 1 else key_epoch_for s n)"
proof -
  have "managed_target Op_kick actor \<lparr>target_network = n, target_device = d\<rparr> now_ms (kick_target env actor n d now_ms) s = (Inr out, t)"
    using assms by (auto simp: kick_member_def Let_def svc_run dest: refused handler_success)
  then obtain net db1 where run: "kick_target env actor n d now_ms net (s\<lparr>svc_store := db1\<rparr>) = (Inr out, t)"
    using ok by (rule managed_target_success)
  from run ok obtain db2 u v changes ev where
    ep: "advance_key_epoch n (s\<lparr>svc_store := db2\<rparr>) = (Inr (), u)" and dep: "departed n d u = (Inr changes, v)"
    and aud: "audited env actor now_ms ((operation_outcome Op_kick RC_success n)\<lparr>outcome_events := ev, outcome_changes := changes\<rparr>) v = (Inr out, t)"
    by (auto simp: kick_target_def svc_run res_bind_Inr_iff dest: refused)
  have "key_epoch_for t n = key_epoch_for u n"
    using departed_effect [OF dep] audited_standing [OF aud] standing_store [of t v] by auto
  then show ?thesis using advance_key_epoch_value [OF ep] by (simp add: counters_store)
qed

theorem kick_rotates_counted_epochs_witness:
  "\<exists>out t. kick_member demo_environment (demo_device 1) \<lparr>target_network = network_id demo_network, target_device = demo_device 2\<rparr> 9
     (new_service demo_two) = (Inr out, t) \<and> key_epoch_for (new_service demo_two) (network_id demo_network) = 1 \<and>
     key_epoch_for t (network_id demo_network) = 1"
proof -
  obtain out t where run: "kick_member demo_environment (demo_device 1) \<lparr>target_network = network_id demo_network,
      target_device = demo_device 2\<rparr> 9 (new_service demo_two) = (Inr out, t)" and ok: "succeeded out"
    using demo_kick by (cases "kick_member demo_environment (demo_device 1) \<lparr>target_network = network_id demo_network,
      target_device = demo_device 2\<rparr> 9 (new_service demo_two)") (auto split: sum.splits)
  from kick_rotates_counted_epochs [OF run ok] run show ?thesis by (auto simp: key_epoch_for_def new_service_def)
qed

section \<open>The audit of a request that raises\<close>

definition access_event :: "DeviceId \<Rightarrow> AccessRequest \<Rightarrow> int \<Rightarrow> AuditKind \<Rightarrow> NetworkResultCode \<Rightarrow> AuditEvent" where
  "access_event actor request now_ms kind code = \<lparr>audit_sequence = 0, audit_timestamp_ms = word_of_int now_ms,
     audit_network = request_network request, audit_actor = actor,
     audit_target = (if request_device request = no_device then actor else request_device request),
     audit_kind = kind, audit_result = code, audit_policy_revision = 0\<rparr>"

lemma audit_success_writes:
  "audit_locked env kind actor target n RC_success now_ms rvn = write_audit \<lparr>audit_sequence = 0,
     audit_timestamp_ms = word_of_int now_ms, audit_network = n, audit_actor = actor,
     audit_target = target, audit_kind = kind, audit_result = RC_success, audit_policy_revision = rvn\<rparr>"
  by (simp add: audit_locked_def Let_def)


definition demo_weak :: AccessRequest where
  "demo_weak = \<lparr>request_action = AA_password_set, request_network = network_id demo_network, request_device = no_device,
     request_text = [], request_secret = replicate 4 1, request_lifetime_seconds = 0, request_max_uses = 0,
     request_require_approval = False\<rparr>"

lemma demo_weak_raises:
  "case access_body demo_environment (demo_device 1) demo_weak 9 (new_service demo_db) of
     (Inr x, u) \<Rightarrow> False
   | (Inl e, u) \<Rightarrow> (case append_audit (access_event (demo_device 1) demo_weak 9 AK_password_change RC_success) (svc_store u) of
       Inl e \<Rightarrow> False
     | Inr (x, db) \<Rightarrow> map (\<lambda>r. (audit_kind r, audit_result r)) (db_audit db) = [(AK_password_change, RC_success)] \<and> db_access db = [])"
  by code_simp

lemma demo_weak_encodes: "\<not> isl (encode_access_request demo_weak)" "require_actor_and_time (demo_device 1) 9 = Inr ()"
  by code_simp+


end
