(* ===== verification/Handshake.thy ===== *)
theory Handshake
  imports Auth_Identity Codec
begin

text \<open>
  \<open>src/auth/handshake.cpp\<close>: the payloads of the authentication messages, \<open>ClientHandshake\<close> and
  \<open>ServerHandshake\<close>. A method takes the state of the object and returns its result, or the
  exception it throws, with the new state. The \<open>draws\<close> of a state number the calls of the random
  generator. \<open>OPENSSL_cleanse\<close> fills with zeros.
\<close>

section \<open>Keys\<close>

text \<open>
  \<open>DeviceIdentity\<close> and \<open>DeviceEncryptionKey\<close>: their public halves, and what OpenSSL computes with
  the secret ones.
\<close>

record DeviceIdentity =
  identity_public :: bytes
  identity_secret_sign :: "bytes \<Rightarrow> bytes option"

record DeviceEncryptionKey =
  encryption_public :: bytes
  encryption_secret_derive :: "bytes \<Rightarrow> bytes option"

definition identity_sign :: "DeviceIdentity \<Rightarrow> bytes \<Rightarrow> bytes res" where
  "identity_sign i message = from_option (Runtime_error ''device signature failed'') (identity_secret_sign i message)"

definition identity_device_id :: "Crypto \<Rightarrow> DeviceIdentity \<Rightarrow> DeviceId res" where
  "identity_device_id c i = make_device_id c (identity_public i)"

definition derive_shared_secret :: "DeviceEncryptionKey \<Rightarrow> bytes \<Rightarrow> bytes res" where
  "derive_shared_secret k peer =
     (case encryption_secret_derive k peer of
        None \<Rightarrow> Inl (Runtime_error ''X25519 shared secret derivation failed'')
      | Some shared \<Rightarrow> if length shared \<noteq> 32 \<or> is_zero shared
          then Inl (Runtime_error ''X25519 shared secret derivation failed'') else Inr shared)"

text \<open>\<open>random_fill\<close>, by the number of the call.\<close>

definition random_bytes :: "Crypto \<Rightarrow> nat \<Rightarrow> nat \<Rightarrow> bytes res" where
  "random_bytes c k n = from_option (Runtime_error ''secure random generation failed'') (crypto_random c k n)"

definition zeros :: "nat \<Rightarrow> bytes" where "zeros n = replicate n 0"

section \<open>Payloads\<close>

record ClientHelloPayload =
  hello_public_key :: bytes
  hello_encryption_key :: bytes
  hello_nonce :: bytes

record ClientProofPayload =
  proof_signature :: bytes
  proof_token :: bytes

record AuthResultPayload =
  auth_accepted :: bool
  auth_session :: bytes

definition encode_client_hello :: "ClientHelloPayload \<Rightarrow> bytes" where
  "encode_client_hello p = hello_public_key p @ hello_encryption_key p @ hello_nonce p"

definition decode_client_hello :: "bytes \<Rightarrow> ClientHelloPayload res" where
  "decode_client_hello bs =
     (if length bs \<noteq> 96 then Inl (Runtime_error ''invalid client hello payload'')
      else Inr \<lparr>hello_public_key = take 32 bs, hello_encryption_key = take 32 (drop 32 bs), hello_nonce = take 32 (drop 64 bs)\<rparr>)"

definition encode_server_challenge :: "bytes \<Rightarrow> bytes" where
  "encode_server_challenge nonce = nonce"

definition decode_server_challenge :: "bytes \<Rightarrow> bytes res" where
  "decode_server_challenge bs =
     (if length bs \<noteq> 32 then Inl (Runtime_error ''invalid server challenge payload'') else Inr bs)"

definition encode_client_proof :: "ClientProofPayload \<Rightarrow> bytes" where
  "encode_client_proof p = proof_signature p @ proof_token p"

definition decode_client_proof :: "bytes \<Rightarrow> ClientProofPayload res" where
  "decode_client_proof bs =
     (if length bs \<noteq> 96 then Inl (Runtime_error ''invalid client proof payload'')
      else Inr \<lparr>proof_signature = take 64 bs, proof_token = take 32 (drop 64 bs)\<rparr>)"

definition encode_auth_result :: "AuthResultPayload \<Rightarrow> bytes res" where
  "encode_auth_result p =
     (if (auth_accepted p \<and> is_zero (auth_session p)) \<or> (\<not> auth_accepted p \<and> \<not> is_zero (auth_session p))
      then Inl (Invalid_argument ''authentication result has invalid session state'')
      else Inr ((if auth_accepted p then 1 else 0) # auth_session p))"

definition decode_auth_result :: "bytes \<Rightarrow> AuthResultPayload res" where
  "decode_auth_result bs =
     (if length bs \<noteq> 33 \<or> (hd bs \<noteq> 0 \<and> hd bs \<noteq> 1) then Inl (Runtime_error ''invalid authentication result payload'')
      else let p = \<lparr>auth_accepted = (hd bs = 1), auth_session = take 32 (drop 1 bs)\<rparr> in
        if (auth_accepted p \<and> is_zero (auth_session p)) \<or> (\<not> auth_accepted p \<and> \<not> is_zero (auth_session p))
        then Inl (Runtime_error ''authentication result has invalid session state'') else Inr p)"

definition require_frame :: "Frame \<Rightarrow> MessageType \<Rightarrow> 32 word \<Rightarrow> unit res" where
  "require_frame f type req =
     (if frame_type f \<noteq> type \<or> request_id f \<noteq> req then Inl (Runtime_error ''unexpected authentication frame'') else Inr ())"

section \<open>The client\<close>

datatype ClientState = C_ready | C_waiting_challenge | C_waiting_result | C_authenticated | C_rejected | C_closed

record ClientHandshake =
  cli_identity :: DeviceIdentity
  cli_token :: bytes
  cli_encryption :: DeviceEncryptionKey
  cli_signed_key :: "SignedDeviceKey option"
  cli_nonce :: bytes
  cli_session :: bytes
  cli_request :: "32 word"
  cli_state :: ClientState
  cli_draws :: nat

definition new_client :: "DeviceIdentity \<Rightarrow> bytes \<Rightarrow> DeviceEncryptionKey \<Rightarrow> nat \<Rightarrow> ClientHandshake" where
  "new_client identity token generated draws = \<lparr>cli_identity = identity, cli_token = token, cli_encryption = generated,
     cli_signed_key = None, cli_nonce = zeros 32, cli_session = zeros 32, cli_request = 0, cli_state = C_ready,
     cli_draws = draws\<rparr>"

definition client_begin :: "Crypto \<Rightarrow> 32 word \<Rightarrow> ClientHandshake \<Rightarrow> Frame res \<times> ClientHandshake" where
  "client_begin c req s =
     (if cli_state s \<noteq> C_ready then (Inl (Logic_error ''client authentication already started''), s)
      else if req = 0 then (Inl (Invalid_argument ''authentication request id must be non-zero''), s)
      else let s1 = s\<lparr>cli_request := req, cli_draws := Suc (cli_draws s)\<rparr> in
        case random_bytes c (cli_draws s) 32 of
          Inl e \<Rightarrow> (Inl e, s1)
        | Inr nonce \<Rightarrow>
            (Inr \<lparr>frame_type = MT_client_hello, request_id = req,
               payload = encode_client_hello \<lparr>hello_public_key = identity_public (cli_identity s),
                 hello_encryption_key = encryption_public (cli_encryption s), hello_nonce = nonce\<rparr>\<rparr>,
             s1\<lparr>cli_nonce := nonce, cli_state := C_waiting_challenge\<rparr>))"

definition handle_challenge :: "Crypto \<Rightarrow> Frame \<Rightarrow> ClientHandshake \<Rightarrow> Frame res \<times> ClientHandshake" where
  "handle_challenge c f s =
     (if cli_state s \<noteq> C_waiting_challenge
      then (Inl (Logic_error ''client is not waiting for an authentication challenge''), s)
      else case require_frame f MT_server_hello (cli_request s) of Inl e \<Rightarrow> (Inl e, s) | Inr _ \<Rightarrow>
      (case decode_server_challenge (payload f) of Inl e \<Rightarrow> (Inl e, s) | Inr server_nonce \<Rightarrow>
      (let transcript = make_auth_transcript (identity_public (cli_identity s)) (encryption_public (cli_encryption s))
             (cli_nonce s) server_nonce in
       case res_bind (identity_sign (cli_identity s) transcript) (\<lambda>signature.
            res_bind (token_proof c (cli_token s) transcript) (\<lambda>token. Inr (signature, token))) of
         Inl e \<Rightarrow> (Inl e, s\<lparr>cli_signed_key := None\<rparr>)
       | Inr (signature, token) \<Rightarrow>
           (Inr \<lparr>frame_type = MT_client_auth, request_id = cli_request s,
              payload = encode_client_proof \<lparr>proof_signature = signature, proof_token = token\<rparr>\<rparr>,
            s\<lparr>cli_signed_key := Some \<lparr>key_identity = identity_public (cli_identity s),
                key_encryption = encryption_public (cli_encryption s), key_client_nonce = cli_nonce s,
                key_server_nonce = server_nonce, key_signature = signature\<rparr>,
              cli_state := C_waiting_result\<rparr>))))"

definition handle_result :: "Frame \<Rightarrow> ClientHandshake \<Rightarrow> bool res \<times> ClientHandshake" where
  "handle_result f s =
     (if cli_state s \<noteq> C_waiting_result
      then (Inl (Logic_error ''client is not waiting for an authentication result''), s)
      else case require_frame f MT_auth_result (cli_request s) of Inl e \<Rightarrow> (Inl e, s) | Inr _ \<Rightarrow>
      (case decode_auth_result (payload f) of Inl e \<Rightarrow> (Inl e, s) | Inr result \<Rightarrow>
       (Inr (auth_accepted result),
        if auth_accepted result
        then s\<lparr>cli_nonce := zeros 32, cli_session := auth_session result, cli_state := C_authenticated\<rparr>
        else s\<lparr>cli_nonce := zeros 32, cli_session := zeros 32, cli_signed_key := None, cli_state := C_rejected\<rparr>)))"

definition client_authenticated :: "ClientHandshake \<Rightarrow> bool" where
  "client_authenticated s \<longleftrightarrow> cli_state s = C_authenticated"

definition client_session_id :: "ClientHandshake \<Rightarrow> bytes option" where
  "client_session_id s = (if \<not> client_authenticated s then None else Some (cli_session s))"

definition client_signed_device_key :: "ClientHandshake \<Rightarrow> SignedDeviceKey option" where
  "client_signed_device_key s = (if client_authenticated s then cli_signed_key s else None)"

definition client_encryption_key :: "ClientHandshake \<Rightarrow> DeviceEncryptionKey res" where
  "client_encryption_key s =
     (if \<not> client_authenticated s then Inl (Logic_error ''client encryption key is not authenticated'')
      else Inr (cli_encryption s))"

definition client_close :: "ClientHandshake \<Rightarrow> ClientHandshake" where
  "client_close s = s\<lparr>cli_signed_key := None, cli_nonce := zeros 32, cli_session := zeros 32, cli_request := 0,
     cli_state := C_closed\<rparr>"

section \<open>The server\<close>

datatype ServerState = S_waiting_hello | S_waiting_proof | S_authenticated | S_rejected | S_timed_out | S_closed

record ServerHandshake =
  srv_token :: bytes
  srv_binding :: "64 word"
  srv_deadline :: int
  srv_public_key :: bytes
  srv_encryption_key :: bytes
  srv_signed_key :: "SignedDeviceKey option"
  srv_client_nonce :: bytes
  srv_server_nonce :: bytes
  srv_device :: bytes
  srv_session :: bytes
  srv_request :: "32 word"
  srv_state :: ServerState
  srv_draws :: nat

definition new_server :: "bytes \<Rightarrow> 64 word \<Rightarrow> int \<Rightarrow> nat \<Rightarrow> ServerHandshake res" where
  "new_server token binding deadline draws =
     (if binding = 0 then Inl (Invalid_argument ''authentication connection binding must be non-zero'')
      else Inr \<lparr>srv_token = token, srv_binding = binding, srv_deadline = deadline, srv_public_key = zeros 32,
        srv_encryption_key = zeros 32, srv_signed_key = None, srv_client_nonce = zeros 32, srv_server_nonce = zeros 32,
        srv_device = zeros 32, srv_session = zeros 32, srv_request = 0, srv_state = S_waiting_hello, srv_draws = draws\<rparr>)"

definition forget_exchange :: "ServerHandshake \<Rightarrow> ServerHandshake" where
  "forget_exchange s = s\<lparr>srv_public_key := zeros 32, srv_encryption_key := zeros 32, srv_client_nonce := zeros 32,
     srv_server_nonce := zeros 32\<rparr>"

definition expire :: "int \<Rightarrow> ServerHandshake \<Rightarrow> bool \<times> ServerHandshake" where
  "expire now s =
     (if (srv_state s = S_waiting_hello \<or> srv_state s = S_waiting_proof) \<and> now \<ge> srv_deadline s
      then (True, (forget_exchange s)\<lparr>srv_request := 0, srv_state := S_timed_out\<rparr>)
      else (srv_state s = S_timed_out, s))"

definition require_active :: "int \<Rightarrow> ServerHandshake \<Rightarrow> unit res \<times> ServerHandshake" where
  "require_active now s =
     (case expire now s of (expired, s1) \<Rightarrow>
        if expired then (Inl (Runtime_error ''authentication deadline expired''), s1)
        else if srv_state s1 = S_closed then (Inl (Logic_error ''authentication session is closed''), s1)
        else (Inr (), s1))"

definition handle_hello :: "Crypto \<Rightarrow> Frame \<Rightarrow> int \<Rightarrow> ServerHandshake \<Rightarrow> Frame res \<times> ServerHandshake" where
  "handle_hello c f now s0 =
     (case require_active now s0 of (Inl e, s) \<Rightarrow> (Inl e, s) | (Inr _, s) \<Rightarrow>
      if srv_state s \<noteq> S_waiting_hello \<or> frame_type f \<noteq> MT_client_hello
      then (Inl (Runtime_error ''unexpected client authentication hello''), s)
      else if request_id f = 0 then (Inl (Runtime_error ''authentication request id must be non-zero''), s)
      else case decode_client_hello (payload f) of Inl e \<Rightarrow> (Inl e, s) | Inr hello \<Rightarrow>
      if is_zero (hello_encryption_key hello) then (Inl (Runtime_error ''client encryption public key is empty''), s)
      else let s1 = s\<lparr>srv_public_key := hello_public_key hello, srv_encryption_key := hello_encryption_key hello,
             srv_client_nonce := hello_nonce hello, srv_draws := Suc (srv_draws s)\<rparr> in
        case random_bytes c (srv_draws s) 32 of
          Inl e \<Rightarrow> (Inl e, s1)
        | Inr nonce \<Rightarrow>
            (Inr \<lparr>frame_type = MT_server_hello, request_id = request_id f, payload = encode_server_challenge nonce\<rparr>,
             s1\<lparr>srv_server_nonce := nonce, srv_request := request_id f, srv_state := S_waiting_proof\<rparr>))"

text \<open>
  \<open>make_nonzero_session_id\<close> draws until a session id is not all zero: a loop that a generator of
  zeros would never end, and \<open>None\<close> then.
\<close>

partial_function (option) make_nonzero_session_id :: "Crypto \<Rightarrow> nat \<Rightarrow> (bytes res \<times> nat) option" where
  "make_nonzero_session_id c k =
     (case random_bytes c k 32 of
        Inl e \<Rightarrow> Some (Inl e, Suc k)
      | Inr session \<Rightarrow> if is_zero session then make_nonzero_session_id c (Suc k) else Some (Inr session, Suc k))"

declare make_nonzero_session_id.simps [code]

text \<open>The handler's \<open>catch (...)\<close>.\<close>

definition proof_aborted :: "ServerHandshake \<Rightarrow> ServerHandshake" where
  "proof_aborted s = (forget_exchange s)\<lparr>srv_device := zeros 32, srv_session := zeros 32, srv_state := S_rejected\<rparr>"

text \<open>The response, once the state is \<open>authenticated\<close> or \<open>rejected\<close>.\<close>

definition proof_answered :: "bool \<Rightarrow> ServerHandshake \<Rightarrow> Frame res \<times> ServerHandshake" where
  "proof_answered ok s =
     (case encode_auth_result \<lparr>auth_accepted = ok, auth_session = srv_session s\<rparr> of
        Inl e \<Rightarrow> (Inl e, proof_aborted s)
      | Inr bs \<Rightarrow> (Inr \<lparr>frame_type = MT_auth_result, request_id = srv_request s, payload = bs\<rparr>, forget_exchange s))"

definition proof_rejected :: "ServerHandshake \<Rightarrow> ServerHandshake" where
  "proof_rejected s = s\<lparr>srv_signed_key := None, srv_device := zeros 32, srv_session := zeros 32, srv_state := S_rejected\<rparr>"

definition proof_accepted :: "Crypto \<Rightarrow> bytes \<Rightarrow> ServerHandshake \<Rightarrow> (Frame res \<times> ServerHandshake) option" where
  "proof_accepted c signature s =
     (case make_device_id c (srv_public_key s) of
        Inl e \<Rightarrow> Some (Inl e, proof_aborted s)
      | Inr device \<Rightarrow>
          (case make_nonzero_session_id c (srv_draws s) of
             None \<Rightarrow> None
           | Some (Inl e, draws) \<Rightarrow> Some (Inl e, proof_aborted (s\<lparr>srv_draws := draws\<rparr>))
           | Some (Inr session, draws) \<Rightarrow>
               Some (proof_answered True (s\<lparr>srv_device := device, srv_session := session,
                 srv_signed_key := Some \<lparr>key_identity = srv_public_key s, key_encryption = srv_encryption_key s,
                   key_client_nonce = srv_client_nonce s, key_server_nonce = srv_server_nonce s, key_signature = signature\<rparr>,
                 srv_state := S_authenticated, srv_draws := draws\<rparr>))))"

definition handle_proof :: "Crypto \<Rightarrow> Frame \<Rightarrow> int \<Rightarrow> ServerHandshake \<Rightarrow> (Frame res \<times> ServerHandshake) option" where
  "handle_proof c f now s0 =
     (case require_active now s0 of (Inl e, s) \<Rightarrow> Some (Inl e, s) | (Inr _, s) \<Rightarrow>
      if srv_state s \<noteq> S_waiting_proof then Some (Inl (Runtime_error ''unexpected client authentication proof''), s)
      else case require_frame f MT_client_auth (srv_request s) of Inl e \<Rightarrow> Some (Inl e, s) | Inr _ \<Rightarrow>
      (case decode_client_proof (payload f) of Inl e \<Rightarrow> Some (Inl e, s) | Inr pr \<Rightarrow>
      (let transcript = make_auth_transcript (srv_public_key s) (srv_encryption_key s) (srv_client_nonce s) (srv_server_nonce s) in
       case res_bind (verify_signature c (srv_public_key s) transcript (proof_signature pr)) (\<lambda>valid_signature.
            res_bind (token_verify c (srv_token s) transcript (proof_token pr)) (\<lambda>valid_token.
            Inr (valid_signature \<and> valid_token))) of
         Inl e \<Rightarrow> Some (Inl e, proof_aborted s)
       | Inr True \<Rightarrow> proof_accepted c (proof_signature pr) s
       | Inr False \<Rightarrow> Some (proof_answered False (proof_rejected s)))))"

definition server_authenticated :: "ServerHandshake \<Rightarrow> bool" where
  "server_authenticated s \<longleftrightarrow> srv_state s = S_authenticated"

definition server_rejected :: "ServerHandshake \<Rightarrow> bool" where
  "server_rejected s \<longleftrightarrow> srv_state s = S_rejected"

definition server_timed_out :: "ServerHandshake \<Rightarrow> bool" where
  "server_timed_out s \<longleftrightarrow> srv_state s = S_timed_out"

definition server_session_id :: "ServerHandshake \<Rightarrow> bytes res" where
  "server_session_id s =
     (if \<not> server_authenticated s then Inl (Logic_error ''session is not authenticated'') else Inr (srv_session s))"

definition server_device_id :: "ServerHandshake \<Rightarrow> DeviceId res" where
  "server_device_id s =
     (if \<not> server_authenticated s then Inl (Logic_error ''device is not authenticated'') else Inr (srv_device s))"

definition server_signed_device_key :: "ServerHandshake \<Rightarrow> SignedDeviceKey res" where
  "server_signed_device_key s =
     (if \<not> server_authenticated s then Inl (Logic_error ''device encryption key is not authenticated'')
      else from_option (Logic_error ''device encryption key is not authenticated'') (srv_signed_key s))"

definition server_device_id_hex :: "ServerHandshake \<Rightarrow> bytes res" where
  "server_device_id_hex s = res_bind (server_device_id s) (\<lambda>d. Inr (hex_encode d))"

definition bound_to :: "64 word \<Rightarrow> DeviceId \<Rightarrow> bytes \<Rightarrow> ServerHandshake \<Rightarrow> bool" where
  "bound_to binding device session s \<longleftrightarrow> server_authenticated s \<and> srv_binding s = binding \<and>
     srv_device s = device \<and> srv_session s = session"

definition server_close :: "ServerHandshake \<Rightarrow> ServerHandshake" where
  "server_close s = (forget_exchange s)\<lparr>srv_signed_key := None, srv_device := zeros 32, srv_session := zeros 32,
     srv_binding := 0, srv_request := 0, srv_state := S_closed\<rparr>"

end
