(* ===== verification/Handshake_Safety.thy ===== *)
theory Handshake_Safety
  imports Handshake
begin

text \<open>
  What the handshake guarantees: whoever the server takes for authenticated has signed the
  exchange, and an honest client and server end with the same session and the same signed key.
\<close>

section \<open>Drawing a session id\<close>

lemma random_bytes_iff [simp]: "random_bytes c k n = Inr b \<longleftrightarrow> crypto_random c k n = Some b"
  by (simp add: random_bytes_def)

lemma session_id_first:
  assumes "crypto_random c j 32 = Some b" "\<not> is_zero b"
    and "k \<le> j" "\<And>i. k \<le> i \<Longrightarrow> i < j \<Longrightarrow> \<exists>z. crypto_random c i 32 = Some z \<and> is_zero z"
  shows "make_nonzero_session_id c k = Some (Inr b, Suc j)"
  using assms(3,4)
proof (induction "j - k" arbitrary: k)
  case 0
  then show ?case using assms(1,2) by (subst make_nonzero_session_id.simps) (simp add: random_bytes_def)
next
  case (Suc d)
  then obtain z where "crypto_random c k 32 = Some z" "is_zero z" by (metis le_refl zero_less_Suc zero_less_diff)
  moreover have "make_nonzero_session_id c (Suc k) = Some (Inr b, Suc j)" using Suc by simp
  ultimately show ?case by (subst make_nonzero_session_id.simps) (simp add: random_bytes_def)
qed

lemma session_id_returns:
  assumes "crypto_random c j 32 = None \<or> (\<exists>b. crypto_random c j 32 = Some b \<and> \<not> is_zero b)" and "k \<le> j"
  shows "\<exists>r. make_nonzero_session_id c k = Some r"
  using assms(2)
proof (induction "j - k" arbitrary: k)
  case 0
  then show ?case using assms(1)
    by (subst make_nonzero_session_id.simps) (auto simp: random_bytes_def)
next
  case (Suc d)
  then obtain r where "make_nonzero_session_id c (Suc k) = Some r" by (metis Suc_leI diff_Suc_Suc diff_diff_cancel diff_le_self le_Suc_eq Suc_diff_Suc Suc_inject not_less_eq_eq zero_less_Suc zero_less_diff)
  then show ?case by (subst make_nonzero_session_id.simps) (auto split: sum.splits)
qed

lemma session_id_nonzero:
  assumes "make_nonzero_session_id c k = Some (Inr b, k')"
  shows "\<not> is_zero b \<and> k < k' \<and> (\<exists>j. crypto_random c j 32 = Some b)"
proof -
  let ?P = "\<lambda>c k (x :: bytes res \<times> nat). case x of (Inl e, k') \<Rightarrow> True
    | (Inr b, k') \<Rightarrow> \<not> is_zero b \<and> k < k' \<and> (\<exists>j. crypto_random c j 32 = Some b)"
  have "?P c k (Inr b, k')"
  proof (rule make_nonzero_session_id.raw_induct [where P = ?P, OF _ assms])
    fix f c k and x :: "bytes res \<times> nat"
    assume ih: "\<And>c k y. f c k = Some y \<Longrightarrow> ?P c k y"
      and run: "(case random_bytes c k 32 of Inl e \<Rightarrow> Some (Inl e, Suc k)
        | Inr session \<Rightarrow> if is_zero session then f c (Suc k) else Some (Inr session, Suc k)) = Some x"
    show "?P c k x"
      using run ih [of c "Suc k" x] by (auto split: sum.splits if_splits prod.splits)
  qed
  then show ?thesis by simp
qed

section \<open>Calls of the server\<close>

datatype server_call = Hello Frame int | Proof Frame int | Expire int | Close

inductive server_run :: "Crypto \<Rightarrow> ServerHandshake \<Rightarrow> server_call list \<Rightarrow> ServerHandshake \<Rightarrow> bool" for c s0 where
  run_start: "server_run c s0 [] s0"
| run_hello: "server_run c s0 calls s \<Longrightarrow> handle_hello c f now s = (r, s') \<Longrightarrow> server_run c s0 (calls @ [Hello f now]) s'"
| run_proof: "server_run c s0 calls s \<Longrightarrow> handle_proof c f now s = Some (r, s') \<Longrightarrow> server_run c s0 (calls @ [Proof f now]) s'"
| run_expire: "server_run c s0 calls s \<Longrightarrow> expire now s = (b, s') \<Longrightarrow> server_run c s0 (calls @ [Expire now]) s'"
| run_close: "server_run c s0 calls s \<Longrightarrow> server_run c s0 (calls @ [Close]) (server_close s)"

text \<open>What the server keeps of a hello that it answered.\<close>

definition greeted :: "Crypto \<Rightarrow> server_call list \<Rightarrow> int \<Rightarrow> ServerHandshake \<Rightarrow> bool" where
  "greeted c calls deadline s \<longleftrightarrow> (\<exists>pre f t post hello k. calls = pre @ Hello f t # post \<and> t < deadline \<and>
     frame_type f = MT_client_hello \<and> request_id f \<noteq> 0 \<and> srv_request s = request_id f \<and>
     decode_client_hello (payload f) = Inr hello \<and> \<not> is_zero (hello_encryption_key hello) \<and>
     srv_public_key s = hello_public_key hello \<and> srv_encryption_key s = hello_encryption_key hello \<and>
     srv_client_nonce s = hello_nonce hello \<and> crypto_random c k 32 = Some (srv_server_nonce s))"

text \<open>What an authenticated state rests on.\<close>

definition proven :: "Crypto \<Rightarrow> server_call list \<Rightarrow> bytes \<Rightarrow> int \<Rightarrow> ServerHandshake \<Rightarrow> bool" where
  "proven c calls token deadline s \<longleftrightarrow> (\<exists>pre f1 t1 mid f2 t2 post hello pr k sn.
     calls = pre @ Hello f1 t1 # mid @ Proof f2 t2 # post \<and> t1 < deadline \<and> t2 < deadline \<and>
     frame_type f1 = MT_client_hello \<and> frame_type f2 = MT_client_auth \<and> request_id f1 \<noteq> 0 \<and> request_id f2 = request_id f1 \<and>
     decode_client_hello (payload f1) = Inr hello \<and> decode_client_proof (payload f2) = Inr pr \<and>
     \<not> is_zero (hello_encryption_key hello) \<and> crypto_random c k 32 = Some sn \<and>
     (let transcript = make_auth_transcript (hello_public_key hello) (hello_encryption_key hello) (hello_nonce hello) sn in
       crypto_ed25519_verify c (hello_public_key hello) transcript (proof_signature pr) = Some True \<and>
       crypto_hmac_sha256 c token transcript = Some (proof_token pr)) \<and>
     crypto_sha256 c (hello_public_key hello) = Some (srv_device s) \<and> \<not> is_zero (srv_session s) \<and>
     srv_signed_key s = Some \<lparr>key_identity = hello_public_key hello, key_encryption = hello_encryption_key hello,
       key_client_nonce = hello_nonce hello, key_server_nonce = sn, key_signature = proof_signature pr\<rparr>)"

definition server_inv :: "Crypto \<Rightarrow> bytes \<Rightarrow> int \<Rightarrow> server_call list \<Rightarrow> ServerHandshake \<Rightarrow> bool" where
  "server_inv c token deadline calls s \<longleftrightarrow> srv_token s = token \<and> srv_deadline s = deadline \<and>
     (srv_state s = S_waiting_proof \<longrightarrow> greeted c calls deadline s) \<and>
     (srv_state s = S_authenticated \<longrightarrow> proven c calls token deadline s)"

lemma greeted_later: "greeted c calls deadline s \<Longrightarrow> greeted c (calls @ [x]) deadline s"
  unfolding greeted_def by (elim exE conjE) (rule exI, rule exI, rule exI, rule exI [of _ "_ @ [x]"], fastforce)

lemma proven_later: "proven c calls token deadline s \<Longrightarrow> proven c (calls @ [x]) token deadline s"
  unfolding proven_def by (elim exE conjE) (intro exI conjI, simp, assumption+)

lemma inv_later: "server_inv c token deadline calls s \<Longrightarrow> server_inv c token deadline (calls @ [x]) s"
  by (auto simp: server_inv_def intro: greeted_later proven_later)

text \<open>A state in which nothing is claimed.\<close>

lemma inv_idle:
  "srv_state s \<noteq> S_waiting_proof \<Longrightarrow> srv_state s \<noteq> S_authenticated \<Longrightarrow> srv_token s = token \<Longrightarrow> srv_deadline s = deadline \<Longrightarrow>
    server_inv c token deadline calls s"
  by (simp add: server_inv_def)

lemma forget_exchange_simps [simp]:
  "srv_token (forget_exchange s) = srv_token s" "srv_deadline (forget_exchange s) = srv_deadline s"
  "srv_state (forget_exchange s) = srv_state s" "srv_device (forget_exchange s) = srv_device s"
  "srv_session (forget_exchange s) = srv_session s" "srv_signed_key (forget_exchange s) = srv_signed_key s"
  "srv_request (forget_exchange s) = srv_request s" "srv_binding (forget_exchange s) = srv_binding s"
  by (simp_all add: forget_exchange_def)

lemma expire_cases:
  assumes "expire now s = (b, s')"
  obtains "s' = s" "b \<longleftrightarrow> srv_state s = S_timed_out" "srv_state s \<in> {S_waiting_hello, S_waiting_proof} \<Longrightarrow> now < srv_deadline s"
  | "b" "srv_state s' = S_timed_out" "srv_token s' = srv_token s" "srv_deadline s' = srv_deadline s"
  using assms by (auto simp: expire_def split: if_splits)

lemma require_active_cases:
  assumes "require_active now s = (r, s')"
  obtains "s' = s" "r = Inr ()" "srv_state s \<in> {S_waiting_hello, S_waiting_proof} \<Longrightarrow> now < srv_deadline s"
  | e where "r = Inl e" "s' = s \<or> srv_state s' = S_timed_out \<and> srv_token s' = srv_token s \<and> srv_deadline s' = srv_deadline s"
proof -
  obtain b s1 where e: "expire now s = (b, s1)" by (cases "expire now s")
  from this show ?thesis
    by (cases rule: expire_cases) (use that assms e in \<open>auto simp: require_active_def split: if_splits\<close>)
qed

lemma inv_timed_out:
  "server_inv c token deadline calls s \<Longrightarrow> srv_state s' = S_timed_out \<Longrightarrow> srv_token s' = srv_token s \<Longrightarrow>
    srv_deadline s' = srv_deadline s \<Longrightarrow> server_inv c token deadline calls' s'"
  by (simp add: server_inv_def)

lemma expire_inv:
  assumes "server_inv c token deadline calls s" and "expire now s = (b, s')"
  shows "server_inv c token deadline (calls @ [x]) s'"
  using assms(2) by (cases rule: expire_cases) (use inv_later [OF assms(1)] inv_timed_out [OF assms(1)] in simp_all)

lemma require_active_inv:
  assumes "server_inv c token deadline calls s" and "require_active now s = (Inl e, s')"
  shows "server_inv c token deadline (calls @ [x]) s'"
  using assms(2)
  by (cases rule: require_active_cases) (use inv_later [OF assms(1)] inv_timed_out [OF assms(1)] in auto)

text \<open>What \<open>handle_hello\<close> does once the deadline has been checked.\<close>

lemma hello_cases:
  assumes "handle_hello c f now s = (r, s')" and "require_active now s = (Inr u, s)"
  shows "s' = s \<or> (srv_state s' = S_waiting_hello \<and> srv_token s' = srv_token s \<and> srv_deadline s' = srv_deadline s) \<or>
    (\<exists>hello nonce. srv_state s = S_waiting_hello \<and> frame_type f = MT_client_hello \<and> request_id f \<noteq> 0 \<and>
      decode_client_hello (payload f) = Inr hello \<and> \<not> is_zero (hello_encryption_key hello) \<and>
      crypto_random c (srv_draws s) 32 = Some nonce \<and>
      s' = s\<lparr>srv_public_key := hello_public_key hello, srv_encryption_key := hello_encryption_key hello,
        srv_client_nonce := hello_nonce hello, srv_draws := Suc (srv_draws s), srv_server_nonce := nonce,
        srv_request := request_id f, srv_state := S_waiting_proof\<rparr>)"
proof (cases "srv_state s \<noteq> S_waiting_hello \<or> frame_type f \<noteq> MT_client_hello \<or> request_id f = 0")
  case True
  then show ?thesis using assms by (auto simp: handle_hello_def split: if_splits)
next
  case False
  then show ?thesis using assms
    by (cases "decode_client_hello (payload f)"; cases "crypto_random c (srv_draws s) 32")
      (auto simp: handle_hello_def Let_def random_bytes_def split: if_splits)
qed

lemma hello_inv:
  assumes inv: "server_inv c token deadline calls s" and run: "handle_hello c f now s = (r, s')"
  shows "server_inv c token deadline (calls @ [Hello f now]) s'"
proof (cases "require_active now s")
  case (Pair a s1)
  show ?thesis
  proof (cases a)
    case (Inl e)
    then show ?thesis using require_active_inv [OF inv] Pair run by (auto simp: handle_hello_def)
  next
    case (Inr u)
    then have s1: "s1 = s" and early: "srv_state s \<in> {S_waiting_hello, S_waiting_proof} \<Longrightarrow> now < srv_deadline s"
      using Pair by (auto elim: require_active_cases)
    have keep: "srv_token s = token" "srv_deadline s = deadline" using inv by (simp_all add: server_inv_def)
    have "require_active now s = (Inr u, s)" using Pair Inr s1 by simp
    from hello_cases [OF run this] consider "s' = s"
      | "srv_state s' = S_waiting_hello" "srv_token s' = srv_token s" "srv_deadline s' = srv_deadline s"
      | hello nonce where "srv_state s = S_waiting_hello" "frame_type f = MT_client_hello" "request_id f \<noteq> 0"
        "decode_client_hello (payload f) = Inr hello" "\<not> is_zero (hello_encryption_key hello)"
        "crypto_random c (srv_draws s) 32 = Some nonce"
        "s' = s\<lparr>srv_public_key := hello_public_key hello, srv_encryption_key := hello_encryption_key hello,
           srv_client_nonce := hello_nonce hello, srv_draws := Suc (srv_draws s), srv_server_nonce := nonce,
           srv_request := request_id f, srv_state := S_waiting_proof\<rparr>"
      by blast
    then show ?thesis
    proof cases
      case 1
      then show ?thesis using inv inv_later by simp
    next
      case 2
      then show ?thesis using keep by (intro inv_idle) simp_all
    next
      case 3
      then have "greeted c (calls @ [Hello f now]) deadline s'"
        using early keep unfolding greeted_def by (intro exI [of _ calls] exI [of _ f] exI [of _ now] exI [of _ "[]"] exI [of _ hello]) auto
      then show ?thesis using 3 keep by (simp add: server_inv_def)
    qed
  qed
qed

lemma proof_aborted_inv: "srv_token s = token \<Longrightarrow> srv_deadline s = deadline \<Longrightarrow> server_inv c token deadline calls (proof_aborted s)"
  by (rule inv_idle) (simp_all add: proof_aborted_def)

lemma proof_refused_inv:
  "srv_token s = token \<Longrightarrow> srv_deadline s = deadline \<Longrightarrow> proof_answered False (proof_rejected s) = (r, s') \<Longrightarrow>
    server_inv c token deadline calls s'"
  by (auto simp: proof_answered_def proof_rejected_def split: sum.splits intro!: proof_aborted_inv inv_idle)

lemma proof_accepted_cases:
  assumes "proof_accepted c signature s = Some (r, s')"
  obtains s1 where "s' = proof_aborted s1" "srv_token s1 = srv_token s" "srv_deadline s1 = srv_deadline s"
  | device session draws where "crypto_sha256 c (srv_public_key s) = Some device" "\<not> is_zero session"
    "s' = forget_exchange (s\<lparr>srv_device := device, srv_session := session,
       srv_signed_key := Some \<lparr>key_identity = srv_public_key s, key_encryption = srv_encryption_key s,
         key_client_nonce = srv_client_nonce s, key_server_nonce = srv_server_nonce s, key_signature = signature\<rparr>,
       srv_state := S_authenticated, srv_draws := draws\<rparr>)"
  using assms
  by (auto simp: proof_accepted_def make_device_id_def sha256_def from_option_def proof_answered_def
      split: option.splits sum.splits prod.splits dest!: session_id_nonzero)

text \<open>What \<open>handle_proof\<close> does once the deadline has been checked.\<close>

lemma proof_cases:
  fixes s defines "t \<equiv> make_auth_transcript (srv_public_key s) (srv_encryption_key s) (srv_client_nonce s) (srv_server_nonce s)"
  assumes "handle_proof c f now s = Some (r, s')" and "require_active now s = (Inr u, s)"
  shows "s' = s \<or> s' = proof_aborted s \<or> proof_answered False (proof_rejected s) = (r, s') \<or>
    (\<exists>pr. srv_state s = S_waiting_proof \<and> require_frame f MT_client_auth (srv_request s) = Inr () \<and>
      decode_client_proof (payload f) = Inr pr \<and> verify_signature c (srv_public_key s) t (proof_signature pr) = Inr True \<and>
      token_verify c (srv_token s) t (proof_token pr) = Inr True \<and> proof_accepted c (proof_signature pr) s = Some (r, s'))"
proof (cases "srv_state s \<noteq> S_waiting_proof")
  case True
  then show ?thesis using assms by (auto simp: handle_proof_def)
next
  case False
  note run = assms(2) [unfolded handle_proof_def assms(3) Let_def]
  show ?thesis
  proof (cases "require_frame f MT_client_auth (srv_request s)"; cases "decode_client_proof (payload f)")
    fix x pr
    assume a: "require_frame f MT_client_auth (srv_request s) = Inr x" "decode_client_proof (payload f) = Inr pr"
    show ?thesis
      using run False a
      by (cases "verify_signature c (srv_public_key s) t (proof_signature pr)"; cases "token_verify c (srv_token s) t (proof_token pr)")
        (auto simp: t_def split: bool.splits)
  qed (use run False in auto)
qed

lemma proof_inv:
  assumes inv: "server_inv c token deadline calls s" and run: "handle_proof c f now s = Some (r, s')"
  shows "server_inv c token deadline (calls @ [Proof f now]) s'"
proof (cases "require_active now s")
  case (Pair a s1)
  show ?thesis
  proof (cases a)
    case (Inl e)
    then show ?thesis using require_active_inv [OF inv] Pair run by (auto simp: handle_proof_def)
  next
    case (Inr u)
    then have s1: "s1 = s" and early: "srv_state s \<in> {S_waiting_hello, S_waiting_proof} \<Longrightarrow> now < srv_deadline s"
      using Pair by (auto elim: require_active_cases)
    have keep: "srv_token s = token" "srv_deadline s = deadline" using inv by (simp_all add: server_inv_def)
    let ?t = "make_auth_transcript (srv_public_key s) (srv_encryption_key s) (srv_client_nonce s) (srv_server_nonce s)"
    have "require_active now s = (Inr u, s)" using Pair Inr s1 by simp
    from proof_cases [OF run this] consider "s' = s" | "s' = proof_aborted s" | "proof_answered False (proof_rejected s) = (r, s')"
      | pr where "srv_state s = S_waiting_proof" "require_frame f MT_client_auth (srv_request s) = Inr ()"
        "decode_client_proof (payload f) = Inr pr" "verify_signature c (srv_public_key s) ?t (proof_signature pr) = Inr True"
        "token_verify c (srv_token s) ?t (proof_token pr) = Inr True" "proof_accepted c (proof_signature pr) s = Some (r, s')"
      by blast
    then show ?thesis
    proof cases
      case 1
      then show ?thesis using inv inv_later by simp
    next
      case 2
      then show ?thesis using keep by (simp add: proof_aborted_inv)
    next
      case 3
      then show ?thesis using keep by (simp add: proof_refused_inv)
    next
      case 4
      from 4(6) show ?thesis
      proof (cases rule: proof_accepted_cases)
        case (1 s1)
        then show ?thesis using keep by (simp add: proof_aborted_inv)
      next
        case (2 device session draws)
        from inv 4(1) have "greeted c calls deadline s" by (simp add: server_inv_def)
        then obtain pre f1 t1 post hello k where g: "calls = pre @ Hello f1 t1 # post" "t1 < deadline"
          "frame_type f1 = MT_client_hello" "request_id f1 \<noteq> 0" "srv_request s = request_id f1"
          "decode_client_hello (payload f1) = Inr hello" "\<not> is_zero (hello_encryption_key hello)"
          "srv_public_key s = hello_public_key hello" "srv_encryption_key s = hello_encryption_key hello"
          "srv_client_nonce s = hello_nonce hello" "crypto_random c k 32 = Some (srv_server_nonce s)"
          unfolding greeted_def by blast
        have "proven c (calls @ [Proof f now]) token deadline s'"
          unfolding proven_def Let_def
          by (intro exI [of _ pre] exI [of _ f1] exI [of _ t1] exI [of _ post] exI [of _ f] exI [of _ now] exI [of _ "[]"]
              exI [of _ hello] exI [of _ pr] exI [of _ k] exI [of _ "srv_server_nonce s"])
            (use g 2 4 keep early in \<open>auto simp: require_frame_def verify_signature_def token_verify_def token_proof_def
               res_bind_Inr_iff split: if_splits\<close>)
        then show ?thesis using 2 keep by (simp add: server_inv_def)
      qed
    qed
  qed
qed

lemma server_run_inv:
  assumes "new_server token binding deadline draws = Inr s0" and "server_run c s0 calls s"
  shows "server_inv c token deadline calls s"
  using assms(2)
proof induction
  case run_start
  then show ?case using assms(1) by (auto simp: new_server_def intro!: inv_idle split: if_splits)
next
  case (run_close calls s)
  then show ?case by (intro inv_idle) (simp_all add: server_close_def server_inv_def)
qed (blast intro: hello_inv proof_inv expire_inv)+


section \<open>An honest exchange\<close>

lemma decode_client_hello_encode:
  assumes "length (hello_public_key p) = 32" "length (hello_encryption_key p) = 32" "length (hello_nonce p) = 32"
  shows "decode_client_hello (encode_client_hello p) = Inr p"
  using assms by (simp add: decode_client_hello_def encode_client_hello_def)

lemma decode_client_proof_encode:
  assumes "length (proof_signature p) = 64" "length (proof_token p) = 32"
  shows "decode_client_proof (encode_client_proof p) = Inr p"
  using assms by (simp add: decode_client_proof_def encode_client_proof_def)

lemma auth_result_accepted:
  assumes "length session = 32" "\<not> is_zero session"
  shows "encode_auth_result \<lparr>auth_accepted = True, auth_session = session\<rparr> = Inr (1 # session)"
    "decode_auth_result (1 # session) = Inr \<lparr>auth_accepted = True, auth_session = session\<rparr>"
  using assms by (simp_all add: encode_auth_result_def decode_auth_result_def)

lemma waiting_in_time: "srv_state s \<in> {S_waiting_hello, S_waiting_proof} \<Longrightarrow> now < srv_deadline s \<Longrightarrow> require_active now s = (Inr (), s)"
  by (auto simp: require_active_def expire_def)

text \<open>
  C20.
  An honest exchange completes. A client with a 32-byte identity key, an encryption key that is not
  zero and the relay's token, and a server, with the messages delivered in order before the
  deadline, go through the five steps without error, provided that OpenSSL signs, verifies what it
  signed, computes the digests and draws random bytes, among them a session id that is not zero.
  Both end authenticated with the same session id and the same signed key, the server's state is
  bound to the connection, the device and the session, and the signed key verifies for that device.
\<close>

theorem handshake_completes:
  fixes c :: Crypto and i :: DeviceIdentity and e :: DeviceEncryptionKey and cn sn :: bytes
  defines "transcript \<equiv> make_auth_transcript (identity_public i) (encryption_public e) cn sn"
  assumes "binding \<noteq> 0" "req \<noteq> 0" "t1 < deadline" "t2 < deadline"
    and "length (identity_public i) = 32" "length (encryption_public e) = 32" "\<not> is_zero (encryption_public e)"
    and "crypto_random c k 32 = Some cn" "length cn = 32" "crypto_random c m 32 = Some sn" "length sn = 32"
    and "identity_secret_sign i transcript = Some sig" "length sig = 64"
    and "crypto_ed25519_verify c (identity_public i) transcript sig = Some True"
    and "crypto_hmac_sha256 c token transcript = Some mac" "length mac = 32"
    and "crypto_sha256 c (identity_public i) = Some device" "\<not> is_zero device"
    and "crypto_random c j 32 = Some session" "length session = 32" "\<not> is_zero session" "m < j"
    and "\<forall>l. m < l \<and> l < j \<longrightarrow> (\<exists>z. crypto_random c l 32 = Some z \<and> is_zero z)"
  shows "\<exists>s0 f1 c1 f2 s1 f3 c2 f4 s2 c3 key.
    new_server token binding deadline m = Inr s0 \<and>
    client_begin c req (new_client i token e k) = (Inr f1, c1) \<and> handle_hello c f1 t1 s0 = (Inr f2, s1) \<and>
    handle_challenge c f2 c1 = (Inr f3, c2) \<and> handle_proof c f3 t2 s1 = Some (Inr f4, s2) \<and>
    handle_result f4 c2 = (Inr True, c3) \<and>
    client_session_id c3 = Some session \<and> server_session_id s2 = Inr session \<and>
    client_signed_device_key c3 = Some key \<and> server_signed_device_key s2 = Inr key \<and>
    bound_to binding device session s2 \<and> verify_signed_device_key c key device = Inr True"
proof -
  let ?hello = "\<lparr>hello_public_key = identity_public i, hello_encryption_key = encryption_public e, hello_nonce = cn\<rparr>"
  let ?proof = "\<lparr>proof_signature = sig, proof_token = mac\<rparr>"
  have dec: "decode_client_hello (encode_client_hello ?hello) = Inr ?hello" "decode_client_proof (encode_client_proof ?proof) = Inr ?proof"
    using assms by (simp_all add: decode_client_hello_encode decode_client_proof_encode)
  have draw: "make_nonzero_session_id c (Suc m) = Some (Inr session, Suc j)"
    by (rule session_id_first) (use assms in \<open>auto simp: Suc_le_eq\<close>)
  obtain s0 where s0: "new_server token binding deadline m = Inr s0" using assms(2) by (simp add: new_server_def)
  obtain f1 c1 where started: "client_begin c req (new_client i token e k) = (Inr f1, c1)"
    and f1: "f1 = \<lparr>frame_type = MT_client_hello, request_id = req, payload = encode_client_hello ?hello\<rparr>"
    and c1: "cli_identity c1 = i" "cli_token c1 = token" "cli_encryption c1 = e" "cli_nonce c1 = cn" "cli_request c1 = req"
      "cli_state c1 = C_waiting_challenge"
    using assms by (simp add: client_begin_def new_client_def random_bytes_def)
  obtain f2 s1 where hello: "handle_hello c f1 t1 s0 = (Inr f2, s1)"
    and f2: "f2 = \<lparr>frame_type = MT_server_hello, request_id = req, payload = sn\<rparr>"
    and s1: "srv_token s1 = token" "srv_deadline s1 = deadline" "srv_binding s1 = binding" "srv_public_key s1 = identity_public i"
      "srv_encryption_key s1 = encryption_public e" "srv_client_nonce s1 = cn" "srv_server_nonce s1 = sn"
      "srv_request s1 = req" "srv_state s1 = S_waiting_proof" "srv_draws s1 = Suc m"
    using s0 assms waiting_in_time [of s0 t1] dec(1)
    by (auto simp: handle_hello_def f1 new_server_def random_bytes_def encode_server_challenge_def split: if_splits)
  obtain f3 c2 key where challenge: "handle_challenge c f2 c1 = (Inr f3, c2)"
    and f3: "f3 = \<lparr>frame_type = MT_client_auth, request_id = req, payload = encode_client_proof ?proof\<rparr>"
    and c2: "cli_signed_key c2 = Some key" "cli_request c2 = req" "cli_state c2 = C_waiting_result"
    and key: "key = \<lparr>key_identity = identity_public i, key_encryption = encryption_public e, key_client_nonce = cn,
      key_server_nonce = sn, key_signature = sig\<rparr>"
    using c1 assms by (simp add: handle_challenge_def f2 require_frame_def decode_server_challenge_def identity_sign_def token_proof_def)
  obtain f4 s2 where proved: "handle_proof c f3 t2 s1 = Some (Inr f4, s2)"
    and f4: "f4 = \<lparr>frame_type = MT_auth_result, request_id = req, payload = 1 # session\<rparr>"
    and s2: "srv_state s2 = S_authenticated" "srv_session s2 = session" "srv_device s2 = device" "srv_binding s2 = binding"
      "srv_signed_key s2 = Some key"
    using s1 assms waiting_in_time [of s1 t2] dec(2) draw auth_result_accepted [of session]
    by (simp add: handle_proof_def f3 require_frame_def verify_signature_def token_verify_def token_proof_def proof_accepted_def
        make_device_id_def sha256_def proof_answered_def key)
  obtain c3 where result: "handle_result f4 c2 = (Inr True, c3)" and c3: "cli_state c3 = C_authenticated" "cli_session c3 = session"
      "cli_signed_key c3 = Some key"
    using c2 assms auth_result_accepted [of session] by (simp add: handle_result_def f4 require_frame_def)
  have "verify_signed_device_key c key device = Inr True"
    using assms by (simp add: verify_signed_device_key_def key make_device_id_def sha256_def verify_signature_def)
  moreover have "client_session_id c3 = Some session" "server_session_id s2 = Inr session"
    "client_signed_device_key c3 = Some key" "server_signed_device_key s2 = Inr key" "bound_to binding device session s2"
    using c3 s2 by (simp_all add: client_session_id_def client_authenticated_def server_session_id_def server_authenticated_def
        client_signed_device_key_def server_signed_device_key_def bound_to_def)
  ultimately show ?thesis using s0 started hello challenge proved result by blast
qed

text \<open>
  C29.
  The server's answer to a proof always comes, unless the random generator returns zeros for ever:
  if any draw from now on fails or is not all zero, \<open>handle_proof\<close> returns.
\<close>

theorem handle_proof_terminates:
  assumes "srv_draws s \<le> j" and "crypto_random c j 32 = None \<or> (\<exists>b. crypto_random c j 32 = Some b \<and> \<not> is_zero b)"
  shows "\<exists>r s'. handle_proof c f now s = Some (r, s')"
proof -
  have "srv_draws s1 = srv_draws s" if "require_active now s = (r, s1)" for r s1
    using that by (auto simp: require_active_def expire_def forget_exchange_def split: if_splits)
  then have "\<exists>x. proof_accepted c sig s1 = Some x" if "require_active now s = (r, s1)" for sig r s1
    using session_id_returns [OF assms(2), of "srv_draws s1"] assms(1) that
    by (auto simp: proof_accepted_def split: sum.splits option.splits prod.splits)
  then show ?thesis
    by (auto simp: handle_proof_def Let_def split: prod.splits sum.splits bool.splits)
qed

section \<open>A demonstration\<close>

definition demo_identity :: DeviceIdentity where
  "demo_identity = \<lparr>identity_public = replicate 32 1, identity_secret_sign = (\<lambda>m. Some (take 64 (m @ replicate 64 0)))\<rparr>"

definition demo_encryption :: DeviceEncryptionKey where
  "demo_encryption = \<lparr>encryption_public = replicate 32 2, encryption_secret_derive = (\<lambda>p. Some p)\<rparr>"

definition demo_draw :: "nat \<Rightarrow> bytes" where
  "demo_draw k = map (\<lambda>i. word_of_nat (k + i + 1)) [0..<32]"

lemma is_zero_replicate: "is_zero (replicate n b) \<longleftrightarrow> n = 0 \<or> b = 0"
  by (auto simp: is_zero_def list_all_iff)

lemma demo_draw: "crypto_random demo_crypto k 32 = Some (demo_draw k)" "length (demo_draw k) = 32"
  by (simp_all add: demo_crypto_def demo_draw_def)

lemma demo_primitives:
  "crypto_sha256 demo_crypto b = Some (take 32 (b @ replicate 32 0))"
  "crypto_hmac_sha256 demo_crypto k b = Some (take 32 (k @ b @ replicate 32 0))"
  "crypto_ed25519_verify demo_crypto k b s = Some (take 1 s = take 1 b)"
  by (simp_all add: demo_crypto_def)

lemma demo_draw_nonzero: "\<not> is_zero (demo_draw 2)"
  by code_simp

definition demo_transcript :: bytes where
  "demo_transcript = make_auth_transcript (replicate 32 1) (replicate 32 2) (demo_draw 0) (demo_draw 1)"

lemma demo_transcript_length: "length demo_transcript = 143"
  by (simp add: demo_transcript_def make_auth_transcript_def transcript_prefix_def str_def demo_draw)

lemma demo_transcript_fold:
  "make_auth_transcript (replicate 32 1) (replicate 32 2) (demo_draw 0) (demo_draw (Suc 0)) = demo_transcript"
  by (simp add: demo_transcript_def)

theorem handshake_completes_witness:
  "\<exists>s0 f1 c1 f2 s1 f3 c2 f4 s2 c3 key.
    new_server (replicate 32 3) 7 100 1 = Inr s0 \<and>
    client_begin demo_crypto 5 (new_client demo_identity (replicate 32 3) demo_encryption 0) = (Inr f1, c1) \<and>
    handle_hello demo_crypto f1 10 s0 = (Inr f2, s1) \<and>
    handle_challenge demo_crypto f2 c1 = (Inr f3, c2) \<and> handle_proof demo_crypto f3 20 s1 = Some (Inr f4, s2) \<and>
    handle_result f4 c2 = (Inr True, c3) \<and>
    client_session_id c3 = Some (demo_draw 2) \<and> server_session_id s2 = Inr (demo_draw 2) \<and>
    client_signed_device_key c3 = Some key \<and> server_signed_device_key s2 = Inr key \<and>
    bound_to 7 (replicate 32 1) (demo_draw 2) s2 \<and> verify_signed_device_key demo_crypto key (replicate 32 1) = Inr True"
  by (rule handshake_completes [where cn = "demo_draw 0" and sn = "demo_draw 1" and j = 2 and
        sig = "take 64 demo_transcript" and mac = "take 32 (replicate 32 3 @ demo_transcript @ replicate 32 0)"])
    (use demo_draw_nonzero in \<open>auto simp: demo_draw demo_identity_def demo_encryption_def demo_transcript_fold
       demo_transcript_length demo_primitives is_zero_replicate\<close>)


definition demo_hello :: Frame where
  "demo_hello = \<lparr>frame_type = MT_client_hello, request_id = 5, payload = replicate 32 1 @ replicate 32 2 @ demo_draw 0\<rparr>"

definition demo_proof :: Frame where
  "demo_proof = \<lparr>frame_type = MT_client_auth, request_id = 5, payload = take 64 demo_transcript @ replicate 32 3\<rparr>"

lemma demo_server_accepts:
  "case new_server (replicate 32 3) 7 100 1 of Inl e \<Rightarrow> False
   | Inr s0 \<Rightarrow> (case handle_hello demo_crypto demo_hello 10 s0 of (r1, s1) \<Rightarrow>
       (case handle_proof demo_crypto demo_proof 20 s1 of None \<Rightarrow> False | Some (r, s) \<Rightarrow> server_authenticated s))"
  by code_simp


theorem handle_proof_terminates_witness:
  "\<exists>r s'. handle_proof demo_crypto \<lparr>frame_type = MT_client_auth, request_id = 5, payload = replicate 96 0\<rparr> 20
     \<lparr>srv_token = replicate 32 3, srv_binding = 7, srv_deadline = 100, srv_public_key = replicate 32 1,
       srv_encryption_key = replicate 32 2, srv_signed_key = None, srv_client_nonce = demo_draw 0, srv_server_nonce = demo_draw 1,
       srv_device = zeros 32, srv_session = zeros 32, srv_request = 5, srv_state = S_waiting_proof, srv_draws = 2\<rparr> = Some (r, s')"
  by (rule handle_proof_terminates [where j = 2]) (use demo_draw_nonzero in \<open>auto simp: demo_draw\<close>)

end
