(* ===== verification/Packet_Crypto.thy ===== *)
theory Packet_Crypto
  imports Auth_Identity Packet_Messages Ipv4_Fanout Replay_Window
begin

text \<open>
  \<open>src/auth/packet_crypto.cpp\<close>: \<open>NetworkPacketCipher\<close>, which a client has for each network and key
  epoch. HKDF and AES-256-GCM are OpenSSL's and a parameter, the record \<open>CipherSuite\<close>; \<open>None\<close> is a
  failure. The \<open>std::map\<close> of peers is an association list that is only looked up and searched.
\<close>

record CipherSuite =
  suite_hkdf :: "bytes \<Rightarrow> bytes \<Rightarrow> bytes \<Rightarrow> bytes option"
  suite_seal :: "bytes \<Rightarrow> bytes \<Rightarrow> bytes \<Rightarrow> bytes \<Rightarrow> (bytes \<times> bytes) option"
  suite_open :: "bytes \<Rightarrow> bytes \<Rightarrow> bytes \<Rightarrow> bytes \<Rightarrow> bytes \<Rightarrow> bytes option"

section \<open>Helpers\<close>

definition key_domain :: bytes where "key_domain = str ''lanlink-virtual-packet-key-v1''"
definition aad_domain :: bytes where "aad_domain = str ''lanlink-virtual-packet-aad-v1''"

definition read_ipv4 :: "bytes \<Rightarrow> nat \<Rightarrow> 32 word" where
  "read_ipv4 packet offset = be_value (take 4 (drop offset packet))"

definition ipv4_addresses :: "bytes \<Rightarrow> (32 word \<times> 32 word) res" where
  "ipv4_addresses packet =
     (if length packet < min_virtual_ipv4_packet_size \<or> length packet > max_virtual_ipv4_packet_size \<or>
         drop_bit 4 (packet ! 0) \<noteq> 4
      then Inl (Invalid_argument ''virtual packet has invalid IPv4 length or version'')
      else let header_length = unat (packet ! 0 AND 0x0f) * 4;
               total_length = unat (packet ! 2) * 256 + unat (packet ! 3) in
        if header_length < min_virtual_ipv4_packet_size \<or> header_length > length packet \<or> total_length \<noteq> length packet
        then Inl (Invalid_argument ''virtual packet has an invalid IPv4 header'')
        else Inr (read_ipv4 packet 12, read_ipv4 packet 16))"

definition derive_sender_key :: "CipherSuite \<Rightarrow> bytes \<Rightarrow> NetworkId \<Rightarrow> 64 word \<Rightarrow> DeviceId \<Rightarrow> bytes \<Rightarrow> bytes res" where
  "derive_sender_key suite network_key n epoch sender session_key =
     from_option (Runtime_error ''virtual packet key derivation failed'')
       (suite_hkdf suite network_key (n @ put epoch) (key_domain @ sender @ session_key))"

definition authenticated_data :: "EncryptedNetworkPacket \<Rightarrow> DeviceId \<Rightarrow> bytes \<Rightarrow> 32 word \<Rightarrow> bytes res" where
  "authenticated_data packet sender session_key source =
     res_bind (encode_encrypted_network_packet_header packet) (\<lambda>header.
     Inr (aad_domain @ header @ sender @ session_key @ put source))"

definition encrypt_packet :: "CipherSuite \<Rightarrow> bytes \<Rightarrow> bytes \<Rightarrow> bytes \<Rightarrow> EncryptedNetworkPacket \<Rightarrow> EncryptedNetworkPacket res" where
  "encrypt_packet suite plaintext key aad packet =
     (case suite_seal suite key (packet_nonce packet) aad plaintext of
        None \<Rightarrow> Inl (Runtime_error ''virtual packet encryption failed'')
      | Some (ciphertext, tag) \<Rightarrow>
          if length ciphertext \<noteq> length (packet_ciphertext packet) \<or> length tag \<noteq> packet_tag_size
          then Inl (Runtime_error ''virtual packet encryption failed'')
          else Inr (packet\<lparr>packet_ciphertext := ciphertext, packet_tag := tag\<rparr>))"

definition decrypt_packet :: "CipherSuite \<Rightarrow> EncryptedNetworkPacket \<Rightarrow> bytes \<Rightarrow> bytes \<Rightarrow> bytes res" where
  "decrypt_packet suite packet key aad =
     (case suite_open suite key (packet_nonce packet) aad (packet_ciphertext packet) (packet_tag packet) of
        None \<Rightarrow> Inl (Runtime_error ''virtual packet authentication failed'')
      | Some plaintext \<Rightarrow>
          if length plaintext \<noteq> length (packet_ciphertext packet)
          then Inl (Runtime_error ''virtual packet authentication failed'') else Inr plaintext)"

definition accept_sequence :: "32 word \<Rightarrow> 32 word \<Rightarrow> 64 word \<Rightarrow> bool" where
  "accept_sequence sequence highest bitmap =
     (if sequence > highest then True
      else let distance = highest - sequence in distance < 64 \<and> bitmap AND push_bit (unat distance) 1 = 0)"

section \<open>The state\<close>

record PeerReceiver =
  recv_session_key :: bytes
  recv_address :: "32 word"
  recv_key :: bytes
  recv_nonce_prefix :: bytes
  recv_highest :: "32 word"
  recv_seen :: "64 word"
  recv_initialized :: bool
  recv_fanout :: bool

record NetworkPacketCipher =
  pc_network :: NetworkId
  pc_epoch :: "64 word"
  pc_key :: bytes
  pc_device :: DeviceId
  pc_session_key :: bytes
  pc_address :: "32 word"
  pc_subnet :: "32 word"
  pc_prefix :: byte
  pc_managed :: bool
  pc_outgoing_key :: bytes
  pc_nonce_prefix :: bytes
  pc_sequence :: "32 word"
  pc_peers :: "(DeviceId \<times> PeerReceiver) list"

definition new_receiver :: "bytes \<Rightarrow> 32 word \<Rightarrow> bytes \<Rightarrow> PeerReceiver" where
  "new_receiver session_key address key = \<lparr>recv_session_key = session_key, recv_address = address, recv_key = key,
     recv_nonce_prefix = replicate 8 0, recv_highest = 0, recv_seen = 0, recv_initialized = False, recv_fanout = True\<rparr>"

definition new_cipher :: "Crypto \<Rightarrow> CipherSuite \<Rightarrow> nat \<Rightarrow> NetworkId \<Rightarrow> 64 word \<Rightarrow> bytes \<Rightarrow> DeviceId \<Rightarrow> SignedDeviceKey \<Rightarrow>
    32 word \<Rightarrow> NetworkPacketCipher res" where
  "new_cipher c suite draw n epoch network_key device own_key address =
     res_bind (derive_sender_key suite network_key n epoch device (key_encryption own_key)) (\<lambda>outgoing.
     res_bind (if is_zero n \<or> epoch = 0 then Inr False else verify_signed_device_key c own_key device) (\<lambda>verified.
     if \<not> verified \<or> address = 0 \<or> address \<ge> 0xe0000000
     then Inl (Invalid_argument ''virtual packet sender is invalid'')
     else res_bind (from_option (Runtime_error ''virtual packet nonce generation failed'') (crypto_random c draw 8)) (\<lambda>prefix.
     Inr \<lparr>pc_network = n, pc_epoch = epoch, pc_key = network_key, pc_device = device, pc_session_key = key_encryption own_key,
       pc_address = address, pc_subnet = 0, pc_prefix = 0, pc_managed = False, pc_outgoing_key = outgoing,
       pc_nonce_prefix = prefix, pc_sequence = 0, pc_peers = []\<rparr>)))"

section \<open>Peers\<close>

text \<open>\<open>updated.emplace\<close> keeps an entry that is there.\<close>

definition emplace :: "'k \<Rightarrow> 'v \<Rightarrow> ('k \<times> 'v) list \<Rightarrow> ('k \<times> 'v) list" where
  "emplace k v m = (if map_of m k = None then m @ [(k, v)] else m)"

text \<open>One turn of the loop: the receiver of a peer, or \<open>None\<close> where the loop continues.\<close>

definition receiver_for :: "Crypto \<Rightarrow> CipherSuite \<Rightarrow> NetworkPacketCipher \<Rightarrow> NetworkPeerState \<Rightarrow> NetworkPeer \<Rightarrow> PeerReceiver option res" where
  "receiver_for c suite s state peer =
     (case peer_key peer of
        None \<Rightarrow> Inr None
      | Some key \<Rightarrow>
          if (case state_policy state of None \<Rightarrow> False | Some p \<Rightarrow> \<not> policy_allows p (pc_device s) (peer_device peer))
          then Inr None
          else res_bind (if peer_device peer = pc_device s then Inr False else verify_signed_device_key c key (peer_device peer)) (\<lambda>ok.
          if \<not> ok then Inl (Invalid_argument ''virtual packet peer has an invalid signed key'')
          else case map_of (pc_peers s) (peer_device peer) of
              Some previous \<Rightarrow>
                if recv_session_key previous = key_encryption key \<and> recv_address previous = peer_address peer
                then Inr (Some previous)
                else res_bind (derive_sender_key suite (pc_key s) (pc_network s) (pc_epoch s) (peer_device peer) (key_encryption key))
                  (\<lambda>k. Inr (Some (new_receiver (key_encryption key) (peer_address peer) k)))
            | None \<Rightarrow> res_bind (derive_sender_key suite (pc_key s) (pc_network s) (pc_epoch s) (peer_device peer) (key_encryption key))
                  (\<lambda>k. Inr (Some (new_receiver (key_encryption key) (peer_address peer) k)))))"

fun receivers_for :: "Crypto \<Rightarrow> CipherSuite \<Rightarrow> NetworkPacketCipher \<Rightarrow> NetworkPeerState \<Rightarrow> NetworkPeer list \<Rightarrow>
    (DeviceId \<times> PeerReceiver) list \<Rightarrow> (DeviceId \<times> PeerReceiver) list res" where
  "receivers_for c suite s state [] updated = Inr updated"
| "receivers_for c suite s state (peer # rest) updated =
     res_bind (receiver_for c suite s state peer) (\<lambda>r.
     receivers_for c suite s state rest (case r of None \<Rightarrow> updated | Some receiver \<Rightarrow> emplace (peer_device peer) receiver updated))"

definition fanout_flags :: "NetworkPacketCipher \<Rightarrow> NetworkPolicy option \<Rightarrow> (DeviceId \<times> PeerReceiver) list \<Rightarrow> (DeviceId \<times> PeerReceiver) list" where
  "fanout_flags s policy = map (\<lambda>(d, r). (d, r\<lparr>recv_fanout :=
     (case policy of None \<Rightarrow> True | Some p \<Rightarrow> policy_fanout_allows p (pc_device s) d)\<rparr>))"

definition update_peers :: "Crypto \<Rightarrow> CipherSuite \<Rightarrow> NetworkPeerState \<Rightarrow> NetworkPacketCipher \<Rightarrow> unit res \<times> NetworkPacketCipher" where
  "update_peers c suite state s =
     (if state_network state \<noteq> pc_network s \<or> state_epoch state \<noteq> pc_epoch s \<or> state_own state \<noteq> pc_address s
      then (Inl (Invalid_argument ''virtual packet peer state does not match network key''), s)
      else case res_bind (encode_network_peer_state state) (\<lambda>_. receivers_for c suite s state (state_peers state) []) of
        Inl e \<Rightarrow> (Inl e, s)
      | Inr updated \<Rightarrow> (Inr (), s\<lparr>pc_peers := fanout_flags s (state_policy state) updated,
          pc_managed := (case state_policy state of None \<Rightarrow> False | Some p \<Rightarrow> managed p),
          pc_subnet := state_subnet state, pc_prefix := state_prefix state\<rparr>))"

section \<open>Packets\<close>

definition no_packet :: EncryptedNetworkPacket where
  "no_packet = \<lparr>packet_network = replicate 16 0, packet_destination = 0, packet_epoch = 0, packet_sequence = 0,
     packet_nonce = replicate 12 0, packet_ciphertext = [], packet_tag = replicate 16 0\<rparr>"

definition encrypt :: "CipherSuite \<Rightarrow> bytes \<Rightarrow> NetworkPacketCipher \<Rightarrow> EncryptedNetworkPacket res \<times> NetworkPacketCipher" where
  "encrypt suite ipv4 s =
     (case ipv4_addresses ipv4 of
        Inl e \<Rightarrow> (Inl e, s)
      | Inr (source, destination) \<Rightarrow>
      if source \<noteq> pc_address s \<or> destination = 0 \<or> destination = pc_address s
      then (Inl (Invalid_argument ''virtual packet has an invalid source or destination''), s)
      else let fanout = is_ipv4_fanout_destination destination (pc_subnet s) (pc_prefix s) in
      if pc_managed s \<and> ((\<not> fanout \<and> \<not> list_ex (\<lambda>(d, r). recv_address r = destination) (pc_peers s)) \<or>
           (fanout \<and> \<not> list_ex (\<lambda>(d, r). recv_fanout r) (pc_peers s)))
      then (Inl (Invalid_argument ''network policy denies this destination''), s)
      else if (\<not> fanout \<and> \<not> is_ipv4_host destination (pc_subnet s) (pc_prefix s)) \<or> (fanout \<and> ipv4 ! 8 = 0)
      then (Inl (Invalid_argument ''virtual packet destination is not in the network''), s)
      else if pc_sequence s = 0xffffffff then (Inl (Overflow_error ''virtual packet sequence exhausted''), s)
      else let sequence = pc_sequence s + 1;
               s1 = s\<lparr>pc_sequence := sequence\<rparr>;
               packet = no_packet\<lparr>packet_network := pc_network s, packet_destination := destination,
                 packet_epoch := pc_epoch s, packet_sequence := sequence,
                 packet_nonce := pc_nonce_prefix s @ put sequence, packet_ciphertext := replicate (length ipv4) 0\<rparr> in
        (res_bind (authenticated_data packet (pc_device s) (pc_session_key s) (pc_address s)) (\<lambda>aad.
          encrypt_packet suite ipv4 (pc_outgoing_key s) aad packet), s1))"

text \<open>The update of the window, once the packet is accepted.\<close>

definition note_packet :: "EncryptedNetworkPacket \<Rightarrow> PeerReceiver \<Rightarrow> PeerReceiver" where
  "note_packet packet r =
     (if \<not> recv_initialized r
      then r\<lparr>recv_nonce_prefix := take 8 (packet_nonce packet), recv_highest := packet_sequence packet, recv_seen := 1,
        recv_initialized := True\<rparr>
      else if packet_sequence packet > recv_highest r
      then let distance = packet_sequence packet - recv_highest r in
        r\<lparr>recv_seen := (if distance \<ge> 64 then 1 else push_bit (unat distance) (recv_seen r) OR 1),
          recv_highest := packet_sequence packet\<rparr>
      else r\<lparr>recv_seen := recv_seen r OR push_bit (unat (recv_highest r - packet_sequence packet)) 1\<rparr>)"

text \<open>The guard in front of the decryption.\<close>

definition fresh_packet :: "PeerReceiver \<Rightarrow> EncryptedNetworkPacket \<Rightarrow> bool" where
  "fresh_packet r packet \<longleftrightarrow> \<not> (recv_initialized r \<and>
     (recv_nonce_prefix r \<noteq> take 8 (packet_nonce packet) \<or>
      \<not> accept_sequence (packet_sequence packet) (recv_highest r) (recv_seen r)))"

text \<open>The addresses inside, with the \<open>catch\<close> of an invalid header.\<close>

definition addresses_match :: "NetworkPacketCipher \<Rightarrow> PeerReceiver \<Rightarrow> EncryptedNetworkPacket \<Rightarrow> bytes \<Rightarrow> bool" where
  "addresses_match s r packet plaintext =
     (case ipv4_addresses plaintext of
        Inl e \<Rightarrow> False
      | Inr (source, destination) \<Rightarrow> source = recv_address r \<and> destination = packet_destination packet \<and>
          (\<not> is_ipv4_fanout_destination destination (pc_subnet s) (pc_prefix s) \<or> plaintext ! 8 \<noteq> 0))"

definition decrypt :: "CipherSuite \<Rightarrow> EncryptedNetworkPacket \<Rightarrow> DeviceId \<Rightarrow> NetworkPacketCipher \<Rightarrow> bytes res \<times> NetworkPacketCipher" where
  "decrypt suite packet sender s =
     (case encode_encrypted_network_packet_header packet of Inl e \<Rightarrow> (Inl e, s) | Inr _ \<Rightarrow>
      if packet_network packet \<noteq> pc_network s \<or> packet_epoch packet \<noteq> pc_epoch s
      then (Inl (Runtime_error ''virtual packet does not match current network key''), s)
      else let fanout = is_ipv4_fanout_destination (packet_destination packet) (pc_subnet s) (pc_prefix s) in
      if packet_destination packet \<noteq> pc_address s \<and> \<not> fanout
      then (Inl (Runtime_error ''virtual packet destination is outside this network''), s)
      else case map_of (pc_peers s) sender of
        None \<Rightarrow> (Inl (Runtime_error ''virtual packet sender is not an active peer''), s)
      | Some r \<Rightarrow>
          if fanout \<and> \<not> recv_fanout r then (Inl (Runtime_error ''network policy denies fanout for this member''), s)
          else if \<not> fresh_packet r packet then (Inl (Runtime_error ''virtual packet replay or sender nonce change''), s)
          else case res_bind (authenticated_data packet sender (recv_session_key r) (recv_address r)) (\<lambda>aad.
                 decrypt_packet suite packet (recv_key r) aad) of
            Inl e \<Rightarrow> (Inl e, s)
          | Inr plaintext \<Rightarrow>
              if \<not> addresses_match s r packet plaintext
              then (Inl (Runtime_error ''decrypted virtual packet addresses are invalid''), s)
              else (Inr plaintext, s\<lparr>pc_peers := map (\<lambda>(d, x). if d = sender then (d, note_packet packet x) else (d, x)) (pc_peers s)\<rparr>))"

end
