(* ===== verification/Packet_Safety.thy ===== *)
theory Packet_Safety
  imports Packet_Crypto
begin

text \<open>
  What the packet cipher guarantees: no nonce is used twice under a key, a packet is accepted at
  most once in a session, and what one member encrypts another decrypts.
\<close>

section \<open>The replay window\<close>

definition receiver_covers :: "PeerReceiver \<Rightarrow> EncryptedNetworkPacket \<Rightarrow> bool" where
  "receiver_covers r p \<longleftrightarrow> recv_initialized r \<and> covered (recv_highest r) (recv_seen r) (packet_sequence p)"

lemma covered_refused: "covered h w q \<Longrightarrow> \<not> accept_sequence q h w"
  using single_bit [of w "unat (h - q)"] by (auto simp: covered_def accept_sequence_def Let_def)

lemma accepted_near: "accept_sequence q h w \<Longrightarrow> \<not> q > h \<Longrightarrow> \<not> 64 \<le> h - q"
  by (simp add: accept_sequence_def Let_def not_le)

interpretation cipher_window: replay_guard "\<lambda>p. True" fresh_packet note_packet receiver_covers
proof
  show "\<not> fresh_packet r p" if "receiver_covers r p" for r p
    using that covered_refused by (auto simp: fresh_packet_def receiver_covers_def)
  show "receiver_covers (note_packet p r) p" if "fresh_packet r p" for r p
  proof (cases "recv_initialized r")
    case False
    then show ?thesis by (simp add: receiver_covers_def note_packet_def covered_def)
  next
    case True
    then show ?thesis
      using that accepted_near [of "packet_sequence p" "recv_highest r" "recv_seen r"] covered_top covered_set
      by (auto simp: fresh_packet_def receiver_covers_def note_packet_def Let_def not_less)
  qed
  show "receiver_covers (note_packet x r) p" if "receiver_covers r p" for r p x
    using that covered_advance by (auto simp: receiver_covers_def note_packet_def Let_def covered_more)
qed

section \<open>Calls\<close>

inductive cipher_step :: "Crypto \<Rightarrow> CipherSuite \<Rightarrow> NetworkPacketCipher \<Rightarrow> NetworkPacketCipher \<Rightarrow> bool" for c suite where
  step_update: "update_peers c suite state s = (r, s') \<Longrightarrow> cipher_step c suite s s'"
| step_encrypt: "encrypt suite ipv4 s = (p, s') \<Longrightarrow> cipher_step c suite s s'"
| step_decrypt: "decrypt suite packet sender s = (x, s') \<Longrightarrow> cipher_step c suite s s'"

lemma encrypt_packet_iff:
  "encrypt_packet suite plaintext key aad packet = Inr p \<longleftrightarrow>
     (\<exists>ct tag. suite_seal suite key (packet_nonce packet) aad plaintext = Some (ct, tag) \<and>
        length ct = length (packet_ciphertext packet) \<and> length tag = packet_tag_size \<and>
        p = packet\<lparr>packet_ciphertext := ct, packet_tag := tag\<rparr>)"
  by (auto simp: encrypt_packet_def split: option.splits)

lemma decrypt_packet_iff:
  "decrypt_packet suite packet key aad = Inr x \<longleftrightarrow>
     suite_open suite key (packet_nonce packet) aad (packet_ciphertext packet) (packet_tag packet) = Some x \<and>
     length x = length (packet_ciphertext packet)"
  by (auto simp: decrypt_packet_def split: option.splits)

lemma authenticated_data_ciphertext:
  "length ct = length (packet_ciphertext p) \<Longrightarrow>
    authenticated_data (p\<lparr>packet_ciphertext := ct, packet_tag := tag\<rparr>) d k a = authenticated_data p d k a"
  by (simp add: authenticated_data_def encode_encrypted_network_packet_header_def valid_packet_def)

lemma encrypt_cases:
  assumes "encrypt suite ipv4 s = (r, s')"
  obtains e where "r = Inl e" "s' = s \<or> s' = s\<lparr>pc_sequence := pc_sequence s + 1\<rparr> \<and> pc_sequence s \<noteq> 0xffffffff"
  | p source destination aad where "r = Inr p" "s' = s\<lparr>pc_sequence := pc_sequence s + 1\<rparr>" "pc_sequence s \<noteq> 0xffffffff"
    "ipv4_addresses ipv4 = Inr (source, destination)" "source = pc_address s" "destination \<noteq> pc_address s"
    "is_ipv4_fanout_destination destination (pc_subnet s) (pc_prefix s) \<Longrightarrow> ipv4 ! 8 \<noteq> 0"
    "packet_network p = pc_network s" "packet_destination p = destination" "packet_epoch p = pc_epoch s"
    "packet_sequence p = pc_sequence s + 1" "packet_nonce p = pc_nonce_prefix s @ put (pc_sequence s + 1)"
    "authenticated_data p (pc_device s) (pc_session_key s) (pc_address s) = Inr aad" "length (packet_ciphertext p) = length ipv4"
    "suite_seal suite (pc_outgoing_key s) (packet_nonce p) aad ipv4 = Some (packet_ciphertext p, packet_tag p)"
proof (cases "ipv4_addresses ipv4")
  case (Inl e)
  then show ?thesis using assms that(1) by (auto simp: encrypt_def)
next
  case (Inr sd)
  obtain source destination where sd: "sd = (source, destination)" by (cases sd)
  define packet where "packet = no_packet\<lparr>packet_network := pc_network s, packet_destination := destination,
    packet_epoch := pc_epoch s, packet_sequence := pc_sequence s + 1,
    packet_nonce := pc_nonce_prefix s @ put (pc_sequence s + 1), packet_ciphertext := replicate (length ipv4) 0\<rparr>"
  note run = assms [unfolded encrypt_def Inr sd Let_def sum.case prod.case, folded packet_def]
  show ?thesis
  proof (cases r)
    case (Inl e)
    then show ?thesis using run that(1) [of e] by (auto split: if_splits)
  next
    case (Inr p)
    with run have run': "s' = s\<lparr>pc_sequence := pc_sequence s + 1\<rparr>" "pc_sequence s \<noteq> 0xffffffff" "source = pc_address s"
      "destination \<noteq> pc_address s" "is_ipv4_fanout_destination destination (pc_subnet s) (pc_prefix s) \<Longrightarrow> ipv4 ! 8 \<noteq> 0"
      and sealed: "res_bind (authenticated_data packet (pc_device s) (pc_session_key s) (pc_address s)) (\<lambda>aad.
          encrypt_packet suite ipv4 (pc_outgoing_key s) aad packet) = Inr p"
      by (auto split: if_splits)
    from sealed obtain aad ct tag where aad: "authenticated_data packet (pc_device s) (pc_session_key s) (pc_address s) = Inr aad"
      and seal: "suite_seal suite (pc_outgoing_key s) (packet_nonce packet) aad ipv4 = Some (ct, tag)"
        "length ct = length (packet_ciphertext packet)" "length tag = packet_tag_size" "p = packet\<lparr>packet_ciphertext := ct, packet_tag := tag\<rparr>"
      unfolding res_bind_Inr_iff encrypt_packet_iff by blast
    have "authenticated_data p (pc_device s) (pc_session_key s) (pc_address s) = Inr aad"
      using aad seal authenticated_data_ciphertext by simp
    from that(2) [OF Inr run'(1,2) _ run'(3,4,5) _ _ _ _ _ this] seal \<open>ipv4_addresses ipv4 = Inr sd\<close> sd show ?thesis
      by (simp add: packet_def)
  qed
qed

text \<open>\<open>decrypt\<close> returns only past all of its guards; otherwise nothing changes.\<close>

definition decrypts :: "CipherSuite \<Rightarrow> EncryptedNetworkPacket \<Rightarrow> DeviceId \<Rightarrow> NetworkPacketCipher \<Rightarrow> PeerReceiver \<Rightarrow> bytes \<Rightarrow> bool" where
  "decrypts suite packet sender s r plaintext \<longleftrightarrow> valid_packet packet \<and>
     packet_network packet = pc_network s \<and> packet_epoch packet = pc_epoch s \<and>
     (packet_destination packet = pc_address s \<or> is_ipv4_fanout_destination (packet_destination packet) (pc_subnet s) (pc_prefix s)) \<and>
     map_of (pc_peers s) sender = Some r \<and>
     (is_ipv4_fanout_destination (packet_destination packet) (pc_subnet s) (pc_prefix s) \<longrightarrow> recv_fanout r) \<and>
     fresh_packet r packet \<and> addresses_match s r packet plaintext \<and>
     res_bind (authenticated_data packet sender (recv_session_key r) (recv_address r)) (\<lambda>aad.
        decrypt_packet suite packet (recv_key r) aad) = Inr plaintext"

lemma header_encodes: "(\<exists>h. encode_encrypted_network_packet_header p = Inr h) \<longleftrightarrow> valid_packet p"
  by (simp add: encode_encrypted_network_packet_header_def)

lemma decrypt_Inr_iff:
  "decrypt suite packet sender s = (Inr plaintext, s') \<longleftrightarrow> (\<exists>r. decrypts suite packet sender s r plaintext) \<and>
     s' = s\<lparr>pc_peers := map (\<lambda>(d, x). if d = sender then (d, note_packet packet x) else (d, x)) (pc_peers s)\<rparr>"
proof (cases "valid_packet packet")
  case False
  then show ?thesis by (simp add: decrypt_def decrypts_def encode_encrypted_network_packet_header_def)
next
  case True
  then obtain h where h: "encode_encrypted_network_packet_header packet = Inr h" using header_encodes by blast
  show ?thesis
  proof (cases "map_of (pc_peers s) sender")
    case None
    then show ?thesis by (simp add: decrypt_def decrypts_def h Let_def)
  next
    case (Some r)
    define D where "D = res_bind (authenticated_data packet sender (recv_session_key r) (recv_address r)) (\<lambda>aad.
                 decrypt_packet suite packet (recv_key r) aad)"
    show ?thesis using Some True
      by (cases D) (auto simp: decrypt_def decrypts_def h Let_def D_def [symmetric])
  qed
qed

lemma decrypt_Inl: "decrypt suite packet sender s = (Inl e, s') \<Longrightarrow> s' = s"
  by (simp add: decrypt_def Let_def split: if_splits sum.splits option.splits)

section \<open>What calls keep\<close>

definition identity_of :: "NetworkPacketCipher \<Rightarrow> NetworkId \<times> 64 word \<times> bytes \<times> DeviceId \<times> bytes \<times> 32 word \<times> bytes \<times> bytes" where
  "identity_of s = (pc_network s, pc_epoch s, pc_key s, pc_device s, pc_session_key s, pc_address s, pc_outgoing_key s, pc_nonce_prefix s)"

lemma update_peers_cases:
  assumes "update_peers c suite state s = (x, s')"
  obtains e where "x = Inl e" "s' = s"
  | updated where "x = Inr ()" "receivers_for c suite s state (state_peers state) [] = Inr updated"
    "pc_peers s' = fanout_flags s (state_policy state) updated" "identity_of s' = identity_of s" "pc_sequence s' = pc_sequence s"
  using assms
  by (auto simp: update_peers_def identity_of_def res_bind_def split: if_splits sum.splits)

lemma decrypt_frame:
  assumes "decrypt suite packet sender s = (x, s')"
  shows "identity_of s' = identity_of s \<and> pc_sequence s' = pc_sequence s"
  using assms by (cases x) (auto simp: decrypt_Inr_iff identity_of_def dest: decrypt_Inl)

lemma sequence_increases: "w \<noteq> 0xffffffff \<Longrightarrow> w < w + 1" for w :: "32 word"
proof -
  assume "w \<noteq> 0xffffffff"
  then have "unat w \<noteq> unat (0xffffffff :: 32 word)" by (simp add: word_unat_eq_iff)
  moreover have "unat w < 2 ^ 32" using unsigned_less [of w, where 'a = nat] by simp
  ultimately show ?thesis by (simp add: word_less_nat_alt unat_plus_if')
qed

lemma encrypt_frame:
  assumes "encrypt suite ipv4 s = (x, s')"
  shows "identity_of s' = identity_of s \<and> pc_peers s' = pc_peers s \<and> pc_sequence s \<le> pc_sequence s'"
  using assms sequence_increases [of "pc_sequence s"]
  by (cases rule: encrypt_cases) (auto simp: identity_of_def intro: less_imp_le)

lemma cipher_step_frame:
  assumes "cipher_step c suite s s'"
  shows "identity_of s' = identity_of s \<and> pc_sequence s \<le> pc_sequence s'"
  using assms
proof cases
  case (step_update state r)
  then show ?thesis by (cases rule: update_peers_cases) auto
next
  case (step_encrypt ipv4 p)
  then show ?thesis using encrypt_frame by blast
next
  case (step_decrypt packet sender x)
  then show ?thesis using decrypt_frame by force
qed

lemma cipher_steps_frame:
  assumes "(cipher_step c suite)\<^sup>*\<^sup>* s s'"
  shows "identity_of s' = identity_of s \<and> pc_sequence s \<le> pc_sequence s'"
  using assms
proof induction
  case (step t u)
  then show ?case using cipher_step_frame [OF step.hyps(2)] order_trans by auto
qed simp

lemma put_inject: "put v = put w \<longleftrightarrow> v = w" for v w :: "32 word"
proof
  assume "put v = put w"
  then have "be_value (put v) = (be_value (put w) :: 32 word)" by (rule arg_cong)
  then show "v = w" by (simp add: be_value_put)
qed simp

text \<open>
  C8.
  No nonce is used twice. Whatever happens between two packets that a cipher has encrypted, the
  later one has the greater sequence number and a different nonce; the sequence numbers end, with
  an exception, rather than wrap around.
\<close>

theorem nonces_never_repeat:
  assumes "encrypt suite a s = (Inr p, s1)" and "(cipher_step c suite)\<^sup>*\<^sup>* s1 s2" and "encrypt suite b s2 = (Inr q, s3)"
  shows "packet_sequence p < packet_sequence q \<and> packet_nonce p \<noteq> packet_nonce q"
proof -
  have p: "packet_sequence p = pc_sequence s1" "packet_nonce p = pc_nonce_prefix s1 @ put (pc_sequence s1)"
    using assms(1) by (cases rule: encrypt_cases; simp)+
  have q: "packet_sequence q = pc_sequence s2 + 1" "packet_nonce q = pc_nonce_prefix s2 @ put (pc_sequence s2 + 1)"
    "pc_sequence s2 \<noteq> 0xffffffff"
    using assms(3) by (cases rule: encrypt_cases; simp)+
  have "pc_nonce_prefix s2 = pc_nonce_prefix s1" "pc_sequence s1 \<le> pc_sequence s2"
    using cipher_steps_frame [OF assms(2)] by (simp_all add: identity_of_def)
  moreover have "pc_sequence s2 < pc_sequence s2 + 1" using q(3) by (rule sequence_increases)
  ultimately show ?thesis using p q by (auto simp: put_inject)
qed

section \<open>Sessions\<close>

lemma map_of_emplace: "map_of (emplace k v m) d = (if map_of m d = None \<and> d = k then Some v else map_of m d)"
  by (auto simp: emplace_def map_add_def split: option.splits)

lemma receivers_for_origin:
  assumes "receivers_for c suite s state peers updated = Inr m" and "map_of m d = Some r"
  shows "map_of updated d = Some r \<or> (\<exists>peer\<in>set peers. peer_device peer = d \<and> receiver_for c suite s state peer = Inr (Some r))"
  using assms
proof (induction peers arbitrary: updated)
  case (Cons peer peers)
  then obtain x where x: "receiver_for c suite s state peer = Inr x"
    and rest: "receivers_for c suite s state peers (case x of None \<Rightarrow> updated | Some y \<Rightarrow> emplace (peer_device peer) y updated) = Inr m"
    by (auto simp: res_bind_Inr_iff)
  from Cons.IH [OF rest Cons.prems(2)] x show ?case
    by (cases x) (auto simp: map_of_emplace split: if_splits)
qed simp

lemma receiver_for_session:
  assumes "receiver_for c suite s state peer = Inr (Some r)"
  shows "derive_sender_key suite (pc_key s) (pc_network s) (pc_epoch s) (peer_device peer) (recv_session_key r) = Inr (recv_key r) \<and>
      \<not> (\<exists>previous. map_of (pc_peers s) (peer_device peer) = Some previous \<and> recv_session_key previous = recv_session_key r \<and>
          recv_address previous = recv_address r) \<or>
    map_of (pc_peers s) (peer_device peer) = Some r"
  using assms
  by (auto simp: receiver_for_def res_bind_Inr_iff new_receiver_def split: option.splits if_splits)

lemma map_of_fanout_flags:
  "map_of (fanout_flags s policy m) d = map_option (\<lambda>r. r\<lparr>recv_fanout :=
     (case policy of None \<Rightarrow> True | Some p \<Rightarrow> policy_fanout_allows p (pc_device s) d)\<rparr>) (map_of m d)"
proof (induction m)
  case (Cons x m)
  then show ?case by (cases x) (auto simp: fanout_flags_def)
qed (simp add: fanout_flags_def)

text \<open>A device that is a peer under a session key and an address.\<close>

definition talks :: "NetworkPacketCipher \<Rightarrow> DeviceId \<Rightarrow> bytes \<Rightarrow> 32 word \<Rightarrow> PeerReceiver \<Rightarrow> bool" where
  "talks s d session_key address r \<longleftrightarrow> map_of (pc_peers s) d = Some r \<and> recv_session_key r = session_key \<and> recv_address r = address"

lemma update_keeps_window:
  assumes "update_peers c suite state s = (x, s')" and "talks s d sk a r" and "talks s' d sk a r'"
  shows "\<exists>b. r' = r\<lparr>recv_fanout := b\<rparr>"
  using assms(1)
proof (cases rule: update_peers_cases)
  case (1 e)
  then show ?thesis using assms(2,3) by (auto simp: talks_def intro: exI [of _ "recv_fanout r"])
next
  case (2 updated)
  with assms(3) obtain r0 b where r0: "map_of updated d = Some r0" "r' = r0\<lparr>recv_fanout := b\<rparr>"
    by (auto simp: talks_def map_of_fanout_flags)
  then obtain peer where "peer_device peer = d" "receiver_for c suite s state peer = Inr (Some r0)"
    using receivers_for_origin [OF 2(2) r0(1)] by auto
  from receiver_for_session [OF this(2)] this(1) assms(2,3) r0(2) have "r0 = r" by (auto simp: talks_def)
  with r0(2) show ?thesis by blast
qed

lemma covers_fanout_flag [simp]: "receiver_covers (r\<lparr>recv_fanout := b\<rparr>) p = receiver_covers r p"
  by (simp add: receiver_covers_def)

lemma note_packet_session [simp]: "recv_session_key (note_packet p r) = recv_session_key r" "recv_address (note_packet p r) = recv_address r"
  "recv_key (note_packet p r) = recv_key r"
  by (simp_all add: note_packet_def Let_def)

lemma map_of_note: "map_of (map (\<lambda>(d, x). if d = sender then (d, f x) else (d, x)) m) d =
    (if d = sender then map_option f (map_of m d) else map_of m d)"
  by (induction m) auto

lemma step_keeps_cover:
  assumes "cipher_step c suite s s'" and "talks s d sk a r" and "talks s' d sk a r'" and "receiver_covers r p"
  shows "receiver_covers r' p"
  using assms(1)
proof cases
  case (step_update state x)
  from update_keeps_window [OF this assms(2,3)] assms(4) show ?thesis by auto
next
  case (step_encrypt ipv4 x)
  then have "pc_peers s' = pc_peers s" using encrypt_frame by blast
  then show ?thesis using assms by (simp add: talks_def)
next
  case (step_decrypt packet sender x)
  show ?thesis
  proof (cases x)
    case (Inl e)
    then have "s' = s" using step_decrypt decrypt_Inl by blast
    then show ?thesis using assms by (simp add: talks_def)
  next
    case (Inr plaintext)
    then have "r' = r \<or> r' = note_packet packet r"
      using step_decrypt assms(2,3) by (auto simp: decrypt_Inr_iff talks_def map_of_note split: if_splits)
    then show ?thesis using assms(4) cipher_window.grows by auto
  qed
qed

inductive session_path :: "Crypto \<Rightarrow> CipherSuite \<Rightarrow> DeviceId \<Rightarrow> bytes \<Rightarrow> 32 word \<Rightarrow> NetworkPacketCipher \<Rightarrow> NetworkPacketCipher \<Rightarrow> bool"
  for c suite d sk a where
  path_start: "talks s d sk a r \<Longrightarrow> session_path c suite d sk a s s"
| path_step: "session_path c suite d sk a s t \<Longrightarrow> cipher_step c suite t u \<Longrightarrow> talks u d sk a r \<Longrightarrow> session_path c suite d sk a s u"

lemma path_keeps_cover:
  assumes "session_path c suite d sk a s s'" and "talks s d sk a r" and "receiver_covers r p"
  shows "\<exists>r'. talks s' d sk a r' \<and> receiver_covers r' p"
  using assms by induction (blast dest: step_keeps_cover)+


section \<open>From member to member\<close>

text \<open>Every key of a cipher is derived from the network key, for the sender and session it serves.\<close>

definition keys_derived :: "CipherSuite \<Rightarrow> NetworkPacketCipher \<Rightarrow> bool" where
  "keys_derived suite s \<longleftrightarrow>
     derive_sender_key suite (pc_key s) (pc_network s) (pc_epoch s) (pc_device s) (pc_session_key s) = Inr (pc_outgoing_key s) \<and>
     (\<forall>d r. map_of (pc_peers s) d = Some r \<longrightarrow>
        derive_sender_key suite (pc_key s) (pc_network s) (pc_epoch s) d (recv_session_key r) = Inr (recv_key r))"

lemma new_cipher_keys:
  assumes "new_cipher c suite draw n epoch key device own_key address = Inr s"
  shows "keys_derived suite s \<and> pc_network s = n \<and> pc_epoch s = epoch \<and> pc_key s = key \<and> pc_device s = device \<and>
    pc_session_key s = key_encryption own_key \<and> pc_address s = address"
  using assms by (auto simp: new_cipher_def res_bind_Inr_iff keys_derived_def split: if_splits)

lemma step_keys:
  assumes "cipher_step c suite s s'" and "keys_derived suite s"
  shows "keys_derived suite s'"
proof -
  have same: "identity_of s' = identity_of s" using cipher_step_frame [OF assms(1)] by blast
  have "derive_sender_key suite (pc_key s) (pc_network s) (pc_epoch s) d (recv_session_key r') = Inr (recv_key r')"
    if r': "map_of (pc_peers s') d = Some r'" for d r'
    using assms(1)
  proof cases
    case (step_update state x)
    then show ?thesis
    proof (cases rule: update_peers_cases)
      case (1 e)
      then show ?thesis using assms(2) r' by (simp add: keys_derived_def)
    next
      case (2 updated)
      with r' obtain r0 b where r0: "map_of updated d = Some r0" "r' = r0\<lparr>recv_fanout := b\<rparr>" by (auto simp: map_of_fanout_flags)
      then obtain peer where "peer_device peer = d" "receiver_for c suite s state peer = Inr (Some r0)"
        using receivers_for_origin [OF 2(2) r0(1)] by auto
      from receiver_for_session [OF this(2)] this(1) assms(2)
      have "derive_sender_key suite (pc_key s) (pc_network s) (pc_epoch s) d (recv_session_key r0) = Inr (recv_key r0)"
        by (auto simp: keys_derived_def)
      with r0(2) show ?thesis by simp
    qed
  next
    case (step_encrypt ipv4 x)
    then show ?thesis using encrypt_frame [of suite ipv4 s x s'] assms(2) r' by (simp add: keys_derived_def)
  next
    case (step_decrypt packet sender x)
    then show ?thesis
      using assms(2) r' by (cases x) (auto simp: decrypt_Inr_iff keys_derived_def map_of_note dest!: decrypt_Inl split: if_splits)
  qed
  with same assms(2) show ?thesis by (simp add: keys_derived_def identity_of_def)
qed

lemma steps_keys: "(cipher_step c suite)\<^sup>*\<^sup>* s s' \<Longrightarrow> keys_derived suite s \<Longrightarrow> keys_derived suite s'"
  by (induction rule: rtranclp_induct) (auto intro: step_keys)

lemma honest_packet_decrypts:
  assumes "new_cipher c suite k n epoch key d1 key1 a1 = Inr s0" and "(cipher_step c suite)\<^sup>*\<^sup>* s0 s"
    and "new_cipher c suite k' n epoch key d2 key2 a2 = Inr t0" and "(cipher_step c suite)\<^sup>*\<^sup>* t0 t"
    and "pc_subnet t = pc_subnet s" "pc_prefix t = pc_prefix s"
    and "encrypt suite ipv4 s = (Inr p, s')"
    and "talks t d1 (key_encryption key1) a1 r" and "fresh_packet r p"
    and "packet_destination p = a2 \<or> is_ipv4_fanout_destination (packet_destination p) (pc_subnet s) (pc_prefix s)"
    and "is_ipv4_fanout_destination (packet_destination p) (pc_subnet s) (pc_prefix s) \<Longrightarrow> recv_fanout r"
    and "\<And>key nonce aad ct tag. suite_seal suite key nonce aad ipv4 = Some (ct, tag) \<Longrightarrow> suite_open suite key nonce aad ct tag = Some ipv4"
  shows "\<exists>t'. decrypt suite p d1 t = (Inr ipv4, t')"
proof -
  note s0 = new_cipher_keys [OF assms(1)] and t0 = new_cipher_keys [OF assms(3)]
  have s: "keys_derived suite s" "identity_of s = identity_of s0"
    using s0 steps_keys [OF assms(2)] cipher_steps_frame [OF assms(2)] by simp_all
  have t: "keys_derived suite t" "identity_of t = identity_of t0"
    using t0 steps_keys [OF assms(4)] cipher_steps_frame [OF assms(4)] by simp_all
  have ids: "pc_network s = n" "pc_epoch s = epoch" "pc_key s = key" "pc_device s = d1" "pc_session_key s = key_encryption key1" "pc_address s = a1"
    "pc_network t = n" "pc_epoch t = epoch" "pc_key t = key" "pc_address t = a2"
    using s(2) t(2) s0 t0 by (simp_all add: identity_of_def)
  have r: "map_of (pc_peers t) d1 = Some r" "recv_session_key r = key_encryption key1" "recv_address r = a1"
    using assms(8) by (simp_all add: talks_def)
  have "Inr (recv_key r) = (Inr (pc_outgoing_key s) :: bytes res)"
    using s(1) t(1) r ids unfolding keys_derived_def by metis
  then have key: "recv_key r = pc_outgoing_key s" by simp
  from assms(7) show ?thesis
  proof (cases rule: encrypt_cases)
    case (2 p' source destination aad)
    then have p: "p' = p" by simp
    have "valid_packet p" using 2(13) p by (auto simp: authenticated_data_def res_bind_Inr_iff header_encodes [symmetric])
    moreover have "decrypt_packet suite p (recv_key r) aad = Inr ipv4"
      using 2(14,15) assms(12) p key by (simp add: decrypt_packet_iff)
    moreover have "addresses_match t r p ipv4"
      using 2 p ids r assms(5,6) by (auto simp: addresses_match_def)
    ultimately have "decrypts suite p d1 t r ipv4"
      using 2 p ids r assms(5,6,9,10,11) by (auto simp: decrypts_def)
    then show ?thesis by (auto simp: decrypt_Inr_iff)
  qed simp
qed

text \<open>
  C21.
  Members understand each other. Two members with the same network key and epoch, after whatever
  calls of their ciphers, agree: a packet that one encrypts is decrypted by the other to the bytes
  that went in, if the receiver knows the sender under its session key and address and has not seen
  the packet, and it is the destination, or the packet goes to all and the policy lets the sender
  do so. AES-GCM is taken to open what it sealed.
\<close>

theorem members_understand_each_other:
  assumes "new_cipher c suite k n epoch key d1 key1 a1 = Inr s0" and "(cipher_step c suite)\<^sup>*\<^sup>* s0 s"
    and "new_cipher c suite k' n epoch key d2 key2 a2 = Inr t0" and "(cipher_step c suite)\<^sup>*\<^sup>* t0 t"
    and "pc_subnet t = pc_subnet s" "pc_prefix t = pc_prefix s"
    and "encrypt suite ipv4 s = (Inr p, s')"
    and "talks t d1 (key_encryption key1) a1 r" and "fresh_packet r p"
    and "packet_destination p = a2 \<or> is_ipv4_fanout_destination (packet_destination p) (pc_subnet s) (pc_prefix s)"
    and "is_ipv4_fanout_destination (packet_destination p) (pc_subnet s) (pc_prefix s) \<Longrightarrow> recv_fanout r"
    and "\<And>key nonce aad ct tag. suite_seal suite key nonce aad ipv4 = Some (ct, tag) \<Longrightarrow> suite_open suite key nonce aad ct tag = Some ipv4"
  shows "\<exists>t'. decrypt suite p d1 t = (Inr ipv4, t')"
  using honest_packet_decrypts [OF assms] .

section \<open>A demonstration\<close>

text \<open>The bound on the size of a packet as a comparison of integers, which the code generator evaluates fast.\<close>

definition oversized_packet :: "bytes \<Rightarrow> bool" where "oversized_packet b \<longleftrightarrow> int (length b) > 65535"

lemma oversized_packet_iff: "oversized_packet b \<longleftrightarrow> length b > max_virtual_ipv4_packet_size"
  by (simp add: oversized_packet_def max_virtual_ipv4_packet_size_def)

lemma ipv4_addresses_code [code]:
  "ipv4_addresses packet =
     (if length packet < min_virtual_ipv4_packet_size \<or> oversized_packet packet \<or> drop_bit 4 (packet ! 0) \<noteq> 4
      then Inl (Invalid_argument ''virtual packet has invalid IPv4 length or version'')
      else let header_length = unat (packet ! 0 AND 0x0f) * 4;
               total_length = unat (packet ! 2) * 256 + unat (packet ! 3) in
        if header_length < min_virtual_ipv4_packet_size \<or> header_length > length packet \<or> total_length \<noteq> length packet
        then Inl (Invalid_argument ''virtual packet has an invalid IPv4 header'')
        else Inr (read_ipv4 packet 12, read_ipv4 packet 16))"
  unfolding ipv4_addresses_def oversized_packet_iff by (rule refl)

lemma valid_packet_code [code]:
  "valid_packet p =
     (if \<not> list_ex (\<lambda>b. b \<noteq> 0) (packet_network p) \<or> packet_destination p = 0 \<or>
         (packet_destination p \<ge> 0xf0000000 \<and> packet_destination p \<noteq> 0xffffffff) \<or> packet_epoch p = 0 \<or>
         packet_sequence p = 0 \<or> length (packet_ciphertext p) < min_virtual_ipv4_packet_size \<or>
         oversized_packet (packet_ciphertext p)
      then False
      else list_all (\<lambda>index. packet_nonce p ! (8 + index) = ucast (drop_bit ((3 - index) * 8) (packet_sequence p)))
        [0, 1, 2, 3])"
  unfolding valid_packet_def oversized_packet_iff by (rule refl)

definition demo_suite :: CipherSuite where
  "demo_suite = \<lparr>suite_hkdf = (\<lambda>k salt info. Some (take 32 (drop 29 info @ k))),
     suite_seal = (\<lambda>k n a pt. Some (pt, replicate 16 9)),
     suite_open = (\<lambda>k n a ct tag. if tag = replicate 16 9 then Some ct else None)\<rparr>"

definition demo_net :: NetworkId where "demo_net = replicate 16 1"
definition demo_member :: "byte \<Rightarrow> DeviceId" where "demo_member k = replicate 32 k"

definition demo_peer_state :: "byte \<Rightarrow> byte \<Rightarrow> NetworkPeerState" where
  "demo_peer_state own other = \<lparr>state_network = demo_net, state_revision = 1, state_subnet = 0x0a400000, state_prefix = 24,
     state_own = 0x0a400000 + ucast own,
     state_peers = [\<lparr>peer_device = demo_member other, peer_address = 0x0a400000 + ucast other, peer_key = Some (demo_key (demo_member other))\<rparr>],
     state_owner = demo_member 1, state_epoch = 1, state_policy = None\<rparr>"

definition demo_start :: "byte \<Rightarrow> NetworkPacketCipher res" where
  "demo_start own = new_cipher demo_crypto demo_suite 0 demo_net 1 (replicate 32 5) (demo_member own) (demo_key (demo_member own)) (0x0a400000 + ucast own)"

definition demo_ipv4 :: bytes where
  "demo_ipv4 = [0x45, 0, 0, 20, 0, 0, 0, 0, 64, 17, 0, 0, 10, 64, 0, 1, 10, 64, 0, 2]"

text \<open>Both members after their first update of the peers, and the first packet.\<close>

lemma demo_ciphers:
  "case (demo_start 1, demo_start 2) of
     (Inr s0, Inr t0) \<Rightarrow>
       (case (update_peers demo_crypto demo_suite (demo_peer_state 1 2) s0, update_peers demo_crypto demo_suite (demo_peer_state 2 1) t0) of
          ((u, s), (v, t)) \<Rightarrow> pc_subnet t = pc_subnet s \<and> pc_prefix t = pc_prefix s \<and>
            (case encrypt demo_suite demo_ipv4 s of
               (Inr p, s') \<Rightarrow> packet_destination p = 0x0a400002 \<and>
                 (case map_of (pc_peers t) (demo_member 1) of None \<Rightarrow> False
                  | Some r \<Rightarrow> recv_session_key r = demo_member 1 \<and> recv_address r = 0x0a400001 \<and> \<not> recv_initialized r \<and> recv_fanout r)
             | _ \<Rightarrow> False))
   | _ \<Rightarrow> False"
  by code_simp

text \<open>The states and the packet of the demonstration, as facts.\<close>

lemma demo_exchange_facts:
  obtains s0 t0 s t p s' r where "demo_start 1 = Inr s0" "demo_start 2 = Inr t0"
    "(cipher_step demo_crypto demo_suite)\<^sup>*\<^sup>* s0 s" "(cipher_step demo_crypto demo_suite)\<^sup>*\<^sup>* t0 t"
    "pc_subnet t = pc_subnet s" "pc_prefix t = pc_prefix s" "encrypt demo_suite demo_ipv4 s = (Inr p, s')"
    "packet_destination p = 0x0a400002" "talks t (demo_member 1) (demo_member 1) 0x0a400001 r" "fresh_packet r p" "recv_fanout r"
proof -
  obtain s0 t0 u v s t p s' r where a: "demo_start 1 = Inr s0" "demo_start 2 = Inr t0"
    "update_peers demo_crypto demo_suite (demo_peer_state 1 2) s0 = (u, s)"
    "update_peers demo_crypto demo_suite (demo_peer_state 2 1) t0 = (v, t)"
    "pc_subnet t = pc_subnet s" "pc_prefix t = pc_prefix s" "encrypt demo_suite demo_ipv4 s = (Inr p, s')"
    "packet_destination p = 0x0a400002"
    "map_of (pc_peers t) (demo_member 1) = Some r" "recv_session_key r = demo_member 1" "recv_address r = 0x0a400001"
    "\<not> recv_initialized r" "recv_fanout r"
    using demo_ciphers by (auto split: sum.splits prod.splits option.splits)
  have "(cipher_step demo_crypto demo_suite)\<^sup>*\<^sup>* s0 s" "(cipher_step demo_crypto demo_suite)\<^sup>*\<^sup>* t0 t"
    using a(3,4) by (blast intro: step_update)+
  moreover have "talks t (demo_member 1) (demo_member 1) 0x0a400001 r" "fresh_packet r p"
    using a by (simp_all add: talks_def fresh_packet_def)
  ultimately show ?thesis using that a by blast
qed

lemma demo_suite_opens: "suite_seal demo_suite k n a m = Some (ct, tag) \<Longrightarrow> suite_open demo_suite k n a ct tag = Some m"
  by (auto simp: demo_suite_def)

lemma demo_key_session: "key_encryption (demo_key d) = d"
  by (simp add: demo_key_def)

theorem members_understand_each_other_witness:
  "\<exists>t p t'. decrypt demo_suite p (demo_member 1) t = (Inr demo_ipv4, t')"
proof -
  obtain s0 t0 s t p s' r where a: "demo_start 1 = Inr s0" "demo_start 2 = Inr t0"
    "(cipher_step demo_crypto demo_suite)\<^sup>*\<^sup>* s0 s" "(cipher_step demo_crypto demo_suite)\<^sup>*\<^sup>* t0 t"
    "pc_subnet t = pc_subnet s" "pc_prefix t = pc_prefix s" "encrypt demo_suite demo_ipv4 s = (Inr p, s')"
    "packet_destination p = 0x0a400002" "talks t (demo_member 1) (demo_member 1) 0x0a400001 r" "fresh_packet r p" "recv_fanout r"
    by (rule demo_exchange_facts)
  from members_understand_each_other [OF a(1) [unfolded demo_start_def] a(3) a(2) [unfolded demo_start_def] a(4-7), of r]
    a(8-11) demo_suite_opens show ?thesis by (auto simp: demo_key_session)
qed

lemma demo_second_packet:
  "case demo_start 1 of Inl e \<Rightarrow> False | Inr s0 \<Rightarrow>
     (case update_peers demo_crypto demo_suite (demo_peer_state 1 2) s0 of (x, s) \<Rightarrow>
       (case encrypt demo_suite demo_ipv4 s of (Inl e, s1) \<Rightarrow> False | (Inr p, s1) \<Rightarrow>
         (case encrypt demo_suite demo_ipv4 s1 of (Inl e, s2) \<Rightarrow> False | (Inr q, s2) \<Rightarrow> True)))"
  by code_simp

theorem nonces_never_repeat_witness:
  "\<exists>s p s1 q s2. encrypt demo_suite demo_ipv4 s = (Inr p, s1) \<and> encrypt demo_suite demo_ipv4 s1 = (Inr q, s2) \<and>
     packet_nonce p \<noteq> packet_nonce q"
proof -
  obtain s p s1 q s2 where runs: "encrypt demo_suite demo_ipv4 s = (Inr p, s1)" "encrypt demo_suite demo_ipv4 s1 = (Inr q, s2)"
    using demo_second_packet by (auto split: sum.splits prod.splits) (metis sum.exhaust)+
  from nonces_never_repeat [OF runs(1) _ runs(2), of demo_crypto] runs show ?thesis by blast
qed


end
