(* ===== verification/Network_Keys.thy ===== *)
theory Network_Keys
  imports Handshake_Safety Packet_Safety
begin

text \<open>
  \<open>src/auth/network_keys.cpp\<close>: the network key on its way from the owner of a network to a member,
  wrapped under a key that the two derive from their session keys, and signed by the owner.
\<close>

section \<open>Sealing and opening\<close>

definition wrap_domain :: bytes where "wrap_domain = str ''lanlink-network-key-wrap-v1''"

definition authenticated_header_size :: nat where "authenticated_header_size = 16 + 8 + 2 * 32 + 2 * 32 + 12"

definition authenticated_header :: "NetworkKeyEnvelope \<Rightarrow> bytes res" where
  "authenticated_header e = res_bind (encode_network_key_envelope e) (\<lambda>wire. Inr (take authenticated_header_size wire))"

definition derive_wrapping_key :: "CipherSuite \<Rightarrow> bytes \<Rightarrow> bytes \<Rightarrow> bytes res" where
  "derive_wrapping_key suite shared header =
     from_option (Runtime_error ''network wrapping key derivation failed'') (suite_hkdf suite shared header wrap_domain)"

definition encrypt_key :: "CipherSuite \<Rightarrow> bytes \<Rightarrow> bytes \<Rightarrow> bytes \<Rightarrow> NetworkKeyEnvelope \<Rightarrow> NetworkKeyEnvelope res" where
  "encrypt_key suite key wrapping_key header e =
     (case suite_seal suite wrapping_key (env_nonce e) header key of
        None \<Rightarrow> Inl (Runtime_error ''network key encryption failed'')
      | Some (ciphertext, tag) \<Rightarrow>
          if length ciphertext \<noteq> length (env_ciphertext e) \<or> length tag \<noteq> 16
          then Inl (Runtime_error ''network key encryption failed'')
          else Inr (e\<lparr>env_ciphertext := ciphertext, env_tag := tag\<rparr>))"

definition decrypt_key :: "CipherSuite \<Rightarrow> NetworkKeyEnvelope \<Rightarrow> bytes \<Rightarrow> bytes \<Rightarrow> bytes res" where
  "decrypt_key suite e wrapping_key header =
     (case suite_open suite wrapping_key (env_nonce e) header (env_ciphertext e) (env_tag e) of
        None \<Rightarrow> Inl (Runtime_error ''network key authentication failed'')
      | Some plaintext \<Rightarrow> if length plaintext \<noteq> 32 then Inl (Runtime_error ''network key authentication failed'') else Inr plaintext)"

definition seal_network_key :: "Crypto \<Rightarrow> CipherSuite \<Rightarrow> nat \<Rightarrow> DeviceIdentity \<Rightarrow> DeviceEncryptionKey \<Rightarrow> SignedDeviceKey \<Rightarrow> DeviceId \<Rightarrow>
    NetworkId \<Rightarrow> 64 word \<Rightarrow> bytes \<Rightarrow> NetworkKeyEnvelope res" where
  "seal_network_key c suite draw owner owner_encryption recipient_key recipient n epoch network_key =
     res_bind (verify_signed_device_key c recipient_key recipient) (\<lambda>verified.
     if \<not> verified \<or> epoch = 0 then Inl (Invalid_argument ''network key recipient is invalid'')
     else res_bind (identity_device_id c owner) (\<lambda>owner_id.
     if owner_id = recipient then Inl (Invalid_argument ''network key recipient is invalid'')
     else res_bind (from_option (Runtime_error ''network key nonce generation failed'') (crypto_random c draw 12)) (\<lambda>nonce.
     let e = \<lparr>env_network = n, env_epoch = epoch, env_owner = owner_id, env_recipient = recipient,
       env_owner_key = encryption_public owner_encryption, env_recipient_key = key_encryption recipient_key,
       env_nonce = nonce, env_ciphertext = zeros 32, env_tag = zeros 16, env_signature = zeros 64\<rparr> in
     res_bind (authenticated_header e) (\<lambda>header.
     res_bind (derive_shared_secret owner_encryption (env_recipient_key e)) (\<lambda>shared.
     res_bind (derive_wrapping_key suite shared header) (\<lambda>wrapping_key.
     res_bind (encrypt_key suite network_key wrapping_key header e) (\<lambda>e1.
     res_bind (signed_transcript e1) (\<lambda>transcript.
     res_bind (identity_sign owner transcript) (\<lambda>signature.
     Inr (e1\<lparr>env_signature := signature\<rparr>))))))))))"

definition open_network_key :: "Crypto \<Rightarrow> CipherSuite \<Rightarrow> DeviceEncryptionKey \<Rightarrow> NetworkKeyEnvelope \<Rightarrow> SignedDeviceKey \<Rightarrow> DeviceId \<Rightarrow> bytes res" where
  "open_network_key c suite recipient_encryption e owner_key recipient =
     res_bind (if env_recipient e \<noteq> recipient \<or> env_recipient_key e \<noteq> encryption_public recipient_encryption then Inr False
       else res_bind (verify_signed_device_key c owner_key (env_owner e)) (\<lambda>verified.
         if \<not> verified \<or> key_encryption owner_key \<noteq> env_owner_key e then Inr False
         else verify_network_key_envelope c e (key_identity owner_key))) (\<lambda>ok.
     if \<not> ok then Inl (Runtime_error ''network key sender or recipient is invalid'')
     else res_bind (authenticated_header e) (\<lambda>header.
     res_bind (derive_shared_secret recipient_encryption (env_owner_key e)) (\<lambda>shared.
     res_bind (derive_wrapping_key suite shared header) (\<lambda>wrapping_key.
     decrypt_key suite e wrapping_key header))))"

section \<open>The way there\<close>

text \<open>The header and the signed part of an envelope with fields of their sizes.\<close>

lemma envelope_header:
  assumes "envelope_typed e" and "envelope_valid e"
  shows "authenticated_header e = Inr (env_network e @ put (env_epoch e) @ env_owner e @ env_recipient e @ env_owner_key e
      @ env_recipient_key e @ env_nonce e)"
    and "signed_transcript e = Inr (signature_domain @ env_network e @ put (env_epoch e) @ env_owner e @ env_recipient e
      @ env_owner_key e @ env_recipient_key e @ env_nonce e @ env_ciphertext e @ env_tag e)"
proof -
  have enc: "encode_network_key_envelope e = Inr (envelope_layout e)" using assms(2) by (simp add: encode_envelope_iff)
  show "authenticated_header e = Inr (env_network e @ put (env_epoch e) @ env_owner e @ env_recipient e @ env_owner_key e
      @ env_recipient_key e @ env_nonce e)"
    using assms(1) by (simp add: authenticated_header_def enc envelope_layout_def authenticated_header_size_def envelope_typed_def)
  show "signed_transcript e = Inr (signature_domain @ env_network e @ put (env_epoch e) @ env_owner e @ env_recipient e
      @ env_owner_key e @ env_recipient_key e @ env_nonce e @ env_ciphertext e @ env_tag e)"
    using assms(1) by (simp add: signed_transcript_def enc envelope_layout_def envelope_typed_def)
qed

text \<open>
  C18.
  A network key reaches the member it is sealed for. If \<open>seal_network_key\<close> returns an envelope, then
  the member whose signed session key it was sealed for opens it to the same network key, given a
  signed session key of the owner. OpenSSL is taken to verify what it signed, to open what it sealed
  and to derive the same secret on both sides; ids, keys, nonces and signatures have their sizes.
\<close>

theorem network_key_reaches_member:
  assumes run: "seal_network_key c suite draw owner owner_encryption recipient_key recipient n epoch network_key = Inr e"
    and sizes: "length n = 16" "length recipient = 32" "length (encryption_public owner_encryption) = 32"
      "length (key_encryption recipient_key) = 32" "length network_key = 32"
      "\<forall>x. crypto_random c draw 12 = Some x \<longrightarrow> length x = 12"
      "\<forall>m d. crypto_sha256 c m = Some d \<longrightarrow> length d = 32"
      "\<forall>m s. identity_secret_sign owner m = Some s \<longrightarrow> length s = 64"
    and signs: "\<forall>m s. identity_secret_sign owner m = Some s \<longrightarrow> crypto_ed25519_verify c (identity_public owner) m s = Some True"
    and opens: "\<forall>k x a m ct tag. suite_seal suite k x a m = Some (ct, tag) \<longrightarrow> suite_open suite k x a ct tag = Some m"
    and agree: "encryption_secret_derive member_encryption (encryption_public owner_encryption) =
      encryption_secret_derive owner_encryption (encryption_public member_encryption)"
    and member_key: "key_encryption recipient_key = encryption_public member_encryption"
    and owner_key: "key_identity owner_key = identity_public owner" "key_encryption owner_key = encryption_public owner_encryption"
      "verify_signed_device_key c owner_key (env_owner e) = Inr True"
  shows "open_network_key c suite member_encryption e owner_key recipient = Inr network_key"
proof -
  from run obtain owner_id nonce e0 e1 header shared wrapping transcript sig where
    owner: "crypto_sha256 c (identity_public owner) = Some owner_id" and draw: "crypto_random c draw 12 = Some nonce"
    and e0: "e0 = \<lparr>env_network = n, env_epoch = epoch, env_owner = owner_id, env_recipient = recipient,
       env_owner_key = encryption_public owner_encryption, env_recipient_key = key_encryption recipient_key,
       env_nonce = nonce, env_ciphertext = zeros 32, env_tag = zeros 16, env_signature = zeros 64\<rparr>"
    and header: "authenticated_header e0 = Inr header"
    and shared: "derive_shared_secret owner_encryption (env_recipient_key e0) = Inr shared"
    and wrapping: "derive_wrapping_key suite shared header = Inr wrapping"
    and e1: "encrypt_key suite network_key wrapping header e0 = Inr e1"
    and transcript: "signed_transcript e1 = Inr transcript"
    and sig: "identity_secret_sign owner transcript = Some sig" and e: "e = e1\<lparr>env_signature := sig\<rparr>"
    by (auto simp: seal_network_key_def res_bind_Inr_iff Let_def identity_device_id_def make_device_id_def sha256_def identity_sign_def
        split: if_splits)
  from e1 obtain ct tag where sealed: "suite_seal suite wrapping (env_nonce e0) header network_key = Some (ct, tag)"
    "length ct = 32" "length tag = 16" "e1 = e0\<lparr>env_ciphertext := ct, env_tag := tag\<rparr>"
    by (auto simp: encrypt_key_def e0 zeros_def split: option.splits if_splits)
  have valid: "envelope_valid e0" using header by (auto simp: authenticated_header_def res_bind_Inr_iff encode_envelope_iff)
  have typed: "envelope_typed e0" "envelope_typed e1" "envelope_typed e"
    using sizes draw owner sig sealed by (auto simp: envelope_typed_def e0 e zeros_def)
  have valids: "envelope_valid e1" "envelope_valid e" using valid by (simp_all add: envelope_valid_def sealed(4) e)
  have same: "authenticated_header e = Inr header" "signed_transcript e = Inr transcript"
    using header transcript envelope_header [OF typed(1) valid] envelope_header [OF typed(2) valids(1)] envelope_header [OF typed(3) valids(2)]
    by (simp_all add: e sealed(4))
  have "verify_network_key_envelope c e (key_identity owner_key) = Inr True"
    using same(2) signs sig owner by (simp add: verify_network_key_envelope_def make_device_id_def sha256_def owner_key e e0 sealed(4)
        verify_signature_def catch_invalid_argument_def)
  moreover have "derive_shared_secret member_encryption (env_owner_key e) = Inr shared"
    using shared agree by (simp add: derive_shared_secret_def e sealed(4) e0 member_key)
  moreover have "decrypt_key suite e wrapping header = Inr network_key"
    using opens sealed(1) sizes(5) by (simp add: decrypt_key_def e sealed(4) e0)
  ultimately show ?thesis
    using same(1) wrapping owner_key member_key by (simp add: open_network_key_def e sealed(4) e0)
qed

definition demo_owner :: DeviceIdentity where
  "demo_owner = \<lparr>identity_public = demo_member 1,
     identity_secret_sign = (\<lambda>m. if m = [] then None else Some (take 64 (m @ replicate 64 0)))\<rparr>"

definition demo_session :: "byte \<Rightarrow> DeviceEncryptionKey" where
  "demo_session k = \<lparr>encryption_public = demo_member k, encryption_secret_derive = (\<lambda>p. Some (replicate 32 6))\<rparr>"

lemma demo_seals:
  "case seal_network_key demo_crypto demo_suite 0 demo_owner (demo_session 1) (demo_key (demo_member 2)) (demo_member 2)
     demo_net 1 (replicate 32 5) of Inl e \<Rightarrow> False | Inr e \<Rightarrow> env_owner e = demo_member 1"
  by code_simp

theorem network_key_reaches_member_witness:
  "\<exists>e. seal_network_key demo_crypto demo_suite 0 demo_owner (demo_session 1) (demo_key (demo_member 2)) (demo_member 2)
       demo_net 1 (replicate 32 5) = Inr e \<and>
     open_network_key demo_crypto demo_suite (demo_session 2) e (demo_key (demo_member 1)) (demo_member 2) = Inr (replicate 32 5)"
proof -
  obtain e where run: "seal_network_key demo_crypto demo_suite 0 demo_owner (demo_session 1) (demo_key (demo_member 2)) (demo_member 2)
       demo_net 1 (replicate 32 5) = Inr e" and owner: "env_owner e = demo_member 1"
    using demo_seals by (auto split: sum.splits)
  have "verify_signed_device_key demo_crypto (demo_key (demo_member 1)) (demo_member 1) = Inr True"
    by (rule demo_key_verifies) (simp_all add: demo_member_def is_zero_replicate)
  then have "open_network_key demo_crypto demo_suite (demo_session 2) e (demo_key (demo_member 1)) (demo_member 2) = Inr (replicate 32 5)"
    by (intro network_key_reaches_member [OF run])
      (auto simp: owner demo_net_def demo_member_def demo_session_def demo_key_def demo_owner_def demo_primitives demo_suite_def
        demo_crypto_def [THEN arg_cong, of crypto_random] take_Suc neq_Nil_conv)
  with run show ?thesis by blast
qed

end
