(* ===== verification/Ipv4_Packets.thy ===== *)
theory Ipv4_Packets
  imports Prelude
begin

text \<open>
  \<open>src/protocol/ipv4.cpp\<close>: the checks of an IPv4 header, its checksum, fragmentation, and the ICMP
  message that asks for smaller packets. Sizes are natural numbers; the checksum's sum is a 32-bit
  word, as in the code.
\<close>

section \<open>Bytes\<close>

definition ip_get :: "bytes \<Rightarrow> nat \<Rightarrow> nat \<Rightarrow> 32 word" where
  "ip_get bs offset count = be_value (take count (drop offset bs))"

definition ip_put :: "bytes \<Rightarrow> nat \<Rightarrow> 32 word \<Rightarrow> nat \<Rightarrow> bytes" where
  "ip_put bs offset value count = take offset bs @ be_bytes count value @ drop (offset + count) bs"

text \<open>\<open>copied_options\<close>: the loop over the options, and the padding at its end.\<close>

function option_loop :: "bytes \<Rightarrow> nat \<Rightarrow> nat \<Rightarrow> bytes \<Rightarrow> bytes res" where
  "option_loop packet header offset result =
     (if offset < header then
        let type = packet ! offset in
        if type = 0 then Inr result
        else if type = 1 then option_loop packet header (offset + 1) result
        else if offset + 2 > header then Inl (Invalid_argument ''truncated IPv4 option'')
        else let sz = unat (packet ! (offset + 1)) in
          if sz < 2 \<or> sz > header - offset then Inl (Invalid_argument ''invalid IPv4 option length'')
          else option_loop packet header (offset + sz)
            (if type AND 0x80 \<noteq> 0 then result @ take sz (drop offset packet) else result)
      else Inr result)"
  by pat_completeness auto
termination
  by (relation "measure (\<lambda>(packet, header, offset, result). header - offset)") auto

definition pad_options :: "bytes \<Rightarrow> bytes" where
  "pad_options result = result @ replicate ((4 - length result mod 4) mod 4) 0"

definition copied_options :: "bytes \<Rightarrow> nat \<Rightarrow> bytes res" where
  "copied_options packet header = res_bind (option_loop packet header 20 []) (\<lambda>result. Inr (pad_options result))"

section \<open>The checksum\<close>

fun checksum_sum :: "bytes \<Rightarrow> 32 word \<Rightarrow> 32 word" where
  "checksum_sum [] acc = acc"
| "checksum_sum [a] acc = acc + push_bit 8 (ucast a)"
| "checksum_sum (a # b # rest) acc = checksum_sum rest (acc + push_bit 8 (ucast a) + ucast b)"

lemma unat_drop_16: "unat (drop_bit 16 acc) = unat acc div 65536" for acc :: "32 word"
proof -
  have "unat acc < 2 ^ 32" using unsigned_less [of acc, where 'a = nat] by simp
  then show ?thesis by (simp only: unsigned_drop_bit_eq) (simp add: drop_bit_eq_div take_bit_nat_eq_self)
qed

lemma carry_decreases:
  fixes acc :: "32 word"
  assumes "drop_bit 16 acc \<noteq> 0"
  shows "unat ((acc AND 0xffff) + drop_bit 16 acc) = unat acc mod 65536 + unat acc div 65536"
    and "unat acc mod 65536 + unat acc div 65536 < unat acc"
proof -
  have m: "(0xffff :: 32 word) = mask 16" by (simp add: mask_eq_exp_minus_1)
  have low: "unat (acc AND 0xffff) = unat acc mod 65536"
    unfolding m by (simp only: take_bit_eq_mask [symmetric] unsigned_take_bit_eq) (simp add: take_bit_eq_mod)
  have bound: "unat acc < 2 ^ 32" using unsigned_less [of acc, where 'a = nat] by simp
  note high = unat_drop_16 [of acc]
  from bound have "unat acc mod 65536 + unat acc div 65536 < 2 ^ 32" by (simp add: less_mult_imp_div_less)
  then show "unat ((acc AND 0xffff) + drop_bit 16 acc) = unat acc mod 65536 + unat acc div 65536"
    by (simp add: unat_plus_if' low high)
  have "unat acc div 65536 \<noteq> 0" using assms high by (metis unat_eq_zero)
  then show "unat acc mod 65536 + unat acc div 65536 < unat acc" using div_mult_mod_eq [of "unat acc" 65536] by linarith
qed

function fold_carry :: "32 word \<Rightarrow> 32 word" where
  "fold_carry acc = (if drop_bit 16 acc \<noteq> 0 then fold_carry ((acc AND 0xffff) + drop_bit 16 acc) else acc)"
  by pat_completeness auto
termination
proof (relation "measure unat")
  show "((acc AND 0xffff) + drop_bit 16 acc, acc) \<in> measure unat" if "drop_bit 16 acc \<noteq> 0" for acc :: "32 word"
    using carry_decreases [OF that] by (simp only: in_measure)
qed simp

declare fold_carry.simps [simp del] option_loop.simps [simp del]

definition internet_checksum :: "bytes \<Rightarrow> 16 word" where
  "internet_checksum bs = ucast (NOT (fold_carry (checksum_sum bs 0)))"

text \<open>\<open>(packet[0] & 15) * 4\<close>.\<close>

definition header_length :: "bytes \<Rightarrow> nat" where
  "header_length packet = unat (packet ! 0 AND 15) * 4"

definition update_ipv4_checksum :: "bytes \<Rightarrow> bytes res" where
  "update_ipv4_checksum packet =
     (if length packet < 20 then Inl (Invalid_argument ''short IPv4 header'')
      else let header = header_length packet in
        if header < 20 \<or> header > length packet then Inl (Invalid_argument ''invalid IPv4 header length'')
        else let cleared = packet[10 := 0, 11 := 0] in
          Inr (ip_put cleared 10 (ucast (internet_checksum (take header cleared))) 2))"

section \<open>Headers\<close>

record Ipv4Header =
  ip_header_size :: nat
  ip_source :: "32 word"
  ip_destination :: "32 word"
  ip_fragment_offset :: "16 word"
  ip_more_fragments :: bool
  ip_dont_fragment :: bool

definition inspect_ipv4 :: "bytes \<Rightarrow> Ipv4Header res" where
  "inspect_ipv4 packet =
     (if length packet < 20 \<or> length packet > 65535 \<or> drop_bit 4 (packet ! 0) \<noteq> 4
      then Inl (Invalid_argument ''invalid IPv4 packet size or version'')
      else let header = header_length packet in
      if header < 20 \<or> header > length packet \<or> unat (ip_get packet 2 2) \<noteq> length packet \<or>
         packet ! 8 = 0 \<or> internet_checksum (take header packet) \<noteq> 0
      then Inl (Invalid_argument ''invalid IPv4 header or checksum'')
      else res_bind (copied_options packet header) (\<lambda>_.
      let flags = ip_get packet 6 2;
          offset = (flags AND 0x1fff) * 8;
          more_fragments = (flags AND 0x2000 \<noteq> 0);
          df = (flags AND 0x4000 \<noteq> 0);
          payload_size = length packet - header in
      if flags AND 0x8000 \<noteq> 0 \<or> (df \<and> (more_fragments \<or> offset \<noteq> 0)) \<or> ((more_fragments \<or> offset \<noteq> 0) \<and> payload_size = 0) \<or>
         (more_fragments \<and> payload_size mod 8 \<noteq> 0) \<or> unat offset + payload_size > 65535 - header
      then Inl (Invalid_argument ''invalid IPv4 fragment bounds'')
      else Inr \<lparr>ip_header_size = header, ip_source = ip_get packet 12 4, ip_destination = ip_get packet 16 4,
        ip_fragment_offset = ucast offset, ip_more_fragments = more_fragments, ip_dont_fragment = df\<rparr>))"

section \<open>Fragments\<close>

text \<open>One fragment: its header with the fields set, before the checksum.\<close>

definition fragment_at :: "bytes \<Rightarrow> Ipv4Header \<Rightarrow> bytes \<Rightarrow> nat \<Rightarrow> nat \<Rightarrow> nat \<Rightarrow> bytes" where
  "fragment_at packet info options header offset count =
     (let remaining = length packet - ip_header_size info - offset;
          f0 = take 20 packet @ (if offset = 0 then take (ip_header_size info - 20) (drop 20 packet) else options)
            @ take count (drop (ip_header_size info + offset) packet);
          f1 = f0[0 := 0x40 OR word_of_nat (header div 4)];
          f2 = ip_put f1 2 (word_of_nat (length f1)) 2 in
      ip_put f2 6 (word_of_nat ((unat (ip_fragment_offset info) + offset) div 8) OR
        (if count < remaining \<or> ip_more_fragments info then 0x2000 else 0)) 2)"

function fragment_loop :: "bytes \<Rightarrow> nat \<Rightarrow> Ipv4Header \<Rightarrow> bytes \<Rightarrow> nat \<Rightarrow> bytes list res" where
  "fragment_loop packet mtu info options offset =
     (if offset < length packet - ip_header_size info then
        let header = (if offset = 0 then ip_header_size info else 20 + length options);
            remaining = length packet - ip_header_size info - offset;
            count = (if remaining \<le> mtu - header then remaining else ((mtu - header) div 8) * 8) in
        if count = 0 then Inl (Invalid_argument ''MTU cannot hold an IPv4 fragment'')
        else res_bind (update_ipv4_checksum (fragment_at packet info options header offset count)) (\<lambda>f.
          res_bind (fragment_loop packet mtu info options (offset + count)) (\<lambda>rest. Inr (f # rest)))
      else Inr [])"
  by pat_completeness auto
termination
  by (relation "measure (\<lambda>(packet, mtu, info, options, offset). length packet - ip_header_size info - offset)")
    (auto split: if_splits)

declare fragment_loop.simps [simp del]

definition fragment_ipv4 :: "bytes \<Rightarrow> 16 word \<Rightarrow> bytes list res" where
  "fragment_ipv4 packet mtu =
     (if mtu < 68 then Inl (Invalid_argument ''IPv4 MTU is below 68'')
      else res_bind (inspect_ipv4 packet) (\<lambda>info.
      if length packet \<le> unat mtu then Inr [packet]
      else if ip_dont_fragment info then Inl (Length_error ''IPv4 fragmentation needed'')
      else res_bind (copied_options packet (ip_header_size info)) (\<lambda>options.
        fragment_loop packet (unat mtu) info options 0)))"

section \<open>The ICMP answer\<close>

definition ipv4_fragmentation_needed :: "bytes \<Rightarrow> 32 word \<Rightarrow> 16 word \<Rightarrow> bytes option res" where
  "ipv4_fragmentation_needed original router mtu =
     res_bind (inspect_ipv4 original) (\<lambda>info.
     if \<not> ip_dont_fragment info \<or> ip_fragment_offset info \<noteq> 0 \<or> ip_source info = 0 \<or> ip_source info \<ge> 0xe0000000 \<or>
        ip_destination info \<ge> 0xe0000000 \<or> router = 0 \<or> router \<ge> 0xe0000000
     then Inr None
     else if original ! 9 = 1 \<and> length original > ip_header_size info \<and>
       original ! ip_header_size info \<in> {3, 4, 5, 11, 12}
     then Inr None
     else let quote = min (length original) (ip_header_size info + 8);
              p0 = (replicate 28 0)[0 := 0x45, 8 := 64, 9 := 1];
              p1 = ip_put (ip_put p0 12 router 4) 16 (ip_source info) 4;
              p2 = ip_put (p1[20 := 3, 21 := 4]) 26 (ucast mtu) 2;
              p3 = p2 @ take quote original;
              p4 = ip_put p3 2 (word_of_nat (length p3)) 2;
              p5 = ip_put p4 22 (ucast (internet_checksum (drop 20 p4))) 2 in
       res_bind (update_ipv4_checksum p5) (\<lambda>p. Inr (Some p)))"

end
