(* ===== verification/Ipv4_Fragments.thy ===== *)
theory Ipv4_Fragments
  imports Ipv4_Packets
begin

text \<open>
  The checksum as arithmetic modulo 65535, and what fragmentation guarantees: every fragment is a
  packet that \<open>inspect_ipv4\<close> accepts and that fits, and together they carry the payload.
\<close>

section \<open>The checksum as a number\<close>

fun pair_sum :: "bytes \<Rightarrow> nat" where
  "pair_sum [] = 0"
| "pair_sum [a] = unat a * 256"
| "pair_sum (a # b # rest) = unat a * 256 + unat b + pair_sum rest"

lemma byte_bound: "unat (a :: byte) \<le> 255"
  using unsigned_less [of a, where 'a = nat] by simp

lemma pair_sum_bound: "pair_sum bs \<le> 65535 * length bs"
proof (induction bs rule: pair_sum.induct)
  case (2 a)
  then show ?case using byte_bound [of a] by simp
next
  case (3 a b rest)
  then show ?case using byte_bound [of a] byte_bound [of b] by simp
qed simp

lemma unat_low_byte: "unat (ucast (a :: byte) :: 32 word) = unat a"
  using byte_bound [of a] by (simp add: unsigned_ucast_eq take_bit_nat_eq_self)

lemma unat_high_byte: "unat (push_bit 8 (ucast (a :: byte)) :: 32 word) = unat a * 256"
proof -
  have "unat a * 256 < 2 ^ 32" using byte_bound [of a] by simp
  then show ?thesis by (simp add: push_bit_eq_mult unat_mult_lem [THEN iffD1] unat_low_byte)
qed

lemma checksum_sum_unat: "unat acc + pair_sum bs < 2 ^ 32 \<Longrightarrow> unat (checksum_sum bs acc) = unat acc + pair_sum bs"
proof (induction bs acc rule: checksum_sum.induct)
  case (2 a acc)
  then show ?case by (simp add: unat_plus_if' unat_high_byte)
next
  case (3 a b rest acc)
  have "unat (acc + push_bit 8 (ucast a) + ucast b) = unat acc + unat a * 256 + unat b"
    using 3(2) by (simp add: unat_plus_if' unat_high_byte unat_low_byte)
  with 3 show ?case by simp
qed simp

lemma fold_carry_spec:
  "unat (fold_carry s) < 65536 \<and> unat (fold_carry s) mod 65535 = unat s mod 65535 \<and> (unat (fold_carry s) = 0 \<longleftrightarrow> unat s = 0)"
proof (induction s rule: fold_carry.induct)
  case (1 s)
  show ?case
  proof (cases "drop_bit 16 s = 0")
    case True
    then have "unat s div 65536 = 0"
      using unat_drop_16 [of s] by simp
    then show ?thesis using True by (subst (1 2 3) fold_carry.simps) (simp add: div_eq_0_iff)
  next
    case False
    let ?t = "(s AND 0xffff) + drop_bit 16 s"
    note t = carry_decreases [OF False]
    have "unat s = unat s div 65536 * 65535 + unat ?t" using t(1) div_mult_mod_eq [of "unat s" 65536] by simp
    then have "unat ?t mod 65535 = unat s mod 65535" by (metis mod_mult_self3)
    moreover have "unat ?t = 0 \<longleftrightarrow> unat s = 0" using t by auto
    moreover have "fold_carry s = fold_carry ?t" using False by (subst fold_carry.simps) simp
    ultimately show ?thesis using 1 [OF False] by metis
  qed
qed

lemma internet_checksum_unat:
  assumes "length bs \<le> 65535"
  obtains f where "unat (internet_checksum bs) = 65535 - f" "f \<le> 65535" "f mod 65535 = pair_sum bs mod 65535" "f = 0 \<longleftrightarrow> pair_sum bs = 0"
proof -
  define w where "w = fold_carry (checksum_sum bs 0)"
  have "65535 * length bs \<le> 65535 * 65535" using assms by (rule mult_le_mono2)
  then have "pair_sum bs < 2 ^ 32" using pair_sum_bound [of bs] by simp
  then have "unat (checksum_sum bs 0) = pair_sum bs" using checksum_sum_unat [of 0 bs] by simp
  then have w: "unat w < 65536" "unat w mod 65535 = pair_sum bs mod 65535" "unat w = 0 \<longleftrightarrow> pair_sum bs = 0"
    using fold_carry_spec [of "checksum_sum bs 0"] by (simp_all add: w_def)
  have "NOT w = - 1 - w" by (simp add: not_eq_complement)
  then have "unat (NOT w) = unat (- 1 :: 32 word) - unat w" by (simp only: unat_sub word_n1_ge)
  also have "\<dots> = 4294967295 - unat w" by (simp add: unsigned_minus_1_eq_mask mask_eq_exp_minus_1)
  also have "\<dots> = (65535 - unat w) + 65536 * 65535" using w(1) by simp
  finally have "unat (NOT w) mod 65536 = (65535 - unat w) mod 65536" by (metis mod_mult_self2)
  then have "unat (ucast (NOT w) :: 16 word) = 65535 - unat w"
    by (simp add: unsigned_ucast_eq take_bit_eq_mod del: bit.compl_eq_compl_iff)
  then show ?thesis using w that [of "unat w"] by (simp add: internet_checksum_def w_def)
qed

lemma checksum_zero_iff:
  assumes "length bs \<le> 65535"
  shows "internet_checksum bs = 0 \<longleftrightarrow> 0 < pair_sum bs \<and> pair_sum bs mod 65535 = 0"
proof -
  obtain f where f: "unat (internet_checksum bs) = 65535 - f" "f \<le> 65535" "f mod 65535 = pair_sum bs mod 65535" "f = 0 \<longleftrightarrow> pair_sum bs = 0"
    by (rule internet_checksum_unat [OF assms])
  have "internet_checksum bs = 0 \<longleftrightarrow> f = 65535" using f(1,2) by (simp add: unat_eq_zero [symmetric])
  also have "\<dots> \<longleftrightarrow> 0 < f \<and> f mod 65535 = 0"
  proof (cases "f = 65535")
    case False
    then have "f mod 65535 = f" using f(2) by (intro mod_less) simp
    then show ?thesis using False by auto
  qed simp
  finally show ?thesis using f(3,4) by (metis neq0_conv)
qed

lemma pair_sum_append: "even (length a) \<Longrightarrow> pair_sum (a @ b) = pair_sum a + pair_sum b"
  by (induction a rule: pair_sum.induct) auto

lemma be_bytes_pair: "be_bytes 2 (w :: 32 word) = [ucast (drop_bit 8 w AND 255), ucast (w AND 255)]"
  by (simp add: numeral_2_eq_2)

lemma pair_sum_be_bytes: "unat w < 65536 \<Longrightarrow> pair_sum (be_bytes 2 (w :: 32 word)) = unat w"
proof -
  assume w: "unat w < 65536"
  have m: "(255 :: 32 word) = mask 8" by (simp add: mask_eq_exp_minus_1)
  have low: "unat (w AND 255) = unat w mod 256"
    unfolding m by (simp only: take_bit_eq_mask [symmetric] unsigned_take_bit_eq) (simp add: take_bit_eq_mod)
  have high: "unat (drop_bit 8 w AND 255) = unat w div 256"
    unfolding m using w by (simp only: take_bit_eq_mask [symmetric] unsigned_take_bit_eq unsigned_drop_bit_eq)
      (simp add: take_bit_eq_mod drop_bit_eq_div)
  have "unat (ucast (drop_bit 8 w AND 255) :: byte) = unat w div 256" "unat (ucast (w AND 255) :: byte) = unat w mod 256"
    using w by (simp_all only: unsigned_ucast_eq low high) (simp_all add: take_bit_eq_mod)
  then show ?thesis by (simp add: be_bytes_pair)
qed

text \<open>The checksum that \<open>update_ipv4_checksum\<close> writes is the one that verifies.\<close>

lemma split_at_checksum:
  assumes "12 \<le> length p"
  shows "p[10 := a, 11 := b] = take 10 p @ [a, b] @ drop 12 p"
  using assms by (intro nth_equalityI) (auto simp: nth_append nth_list_update nth_Cons split: nat.splits intro!: arg_cong [of _ _ "(!) p"])

lemma update_checksum_verifies:
  assumes "update_ipv4_checksum p = Inr q" and "p ! 0 \<noteq> 0" and "length p \<le> 65535"
  shows "\<exists>x y. q = take 10 p @ [x, y] @ drop 12 p" and "internet_checksum (take (header_length p) q) = 0"
proof -
  let ?h = "header_length p"
  have h: "20 \<le> length p" "20 \<le> ?h" "?h \<le> length p"
    using assms(1) by (auto simp: update_ipv4_checksum_def Let_def not_less split: if_splits)
  define c where "c = internet_checksum (take ?h (p[10 := 0, 11 := 0]))"
  have "q = ip_put (p[10 := 0, 11 := 0]) 10 (ucast c) 2"
    using assms(1) h by (simp add: update_ipv4_checksum_def Let_def c_def)
  then have q: "q = take 10 p @ be_bytes 2 (ucast c :: 32 word) @ drop 12 p"
    using h by (simp add: ip_put_def split_at_checksum)
  then show "\<exists>x y. q = take 10 p @ [x, y] @ drop 12 p" by (simp add: be_bytes_pair)
  define S where "S = pair_sum (take 10 p) + pair_sum (drop 12 (take ?h p))"
  have cleared: "take ?h (p[10 := 0, 11 := 0]) = take 10 p @ [0, 0] @ drop 12 (take ?h p)"
    using h by (simp add: split_at_checksum drop_take take_Cons')
  have zero: "pair_sum (take ?h (p[10 := 0, 11 := 0])) = S"
    using h unfolding cleared by (subst pair_sum_append) (simp_all add: S_def)
  obtain f where f: "unat c = 65535 - f" "f \<le> 65535" "f mod 65535 = S mod 65535" "f = 0 \<longleftrightarrow> S = 0"
    by (rule internet_checksum_unat [of "take ?h (p[10 := 0, 11 := 0])"]) (use assms(3) zero in \<open>simp_all add: c_def\<close>)
  have "S > 0"
  proof -
    obtain a b rest where "take 10 p = a # b # rest"
      using h by (cases p; cases "tl p") auto
    moreover have "a = p ! 0" using calculation h by (metis nth_Cons_0 nth_take zero_less_numeral)
    ultimately show ?thesis using assms(2) by (simp add: S_def unat_gt_0)
  qed
  have "unat (ucast c :: 32 word) = unat c"
    using f by (simp add: unsigned_ucast_eq take_bit_nat_eq_self)
  moreover have "take ?h q = take 10 p @ be_bytes 2 (ucast c :: 32 word) @ drop 12 (take ?h p)"
    using h by (simp add: q drop_take)
  ultimately have total: "pair_sum (take ?h q) = S + unat c"
    using h f(1) by (simp add: pair_sum_append pair_sum_be_bytes S_def)
  have "(S + (65535 - f)) mod 65535 = 0"
  proof -
    have "(S + (65535 - f)) mod 65535 = (f + (65535 - f)) mod 65535" using f(3) by (metis mod_add_left_eq)
    then show ?thesis using f(2) by simp
  qed
  then show "internet_checksum (take ?h q) = 0"
    using checksum_zero_iff [of "take ?h q"] assms(3) h total f(1) \<open>S > 0\<close> by (simp add: q)
qed

section \<open>Options survive copying\<close>

text \<open>What \<open>copied_options\<close> collects is a list of whole options, each with its own length.\<close>

definition whole_option :: "bytes \<Rightarrow> bool" where
  "whole_option opt \<longleftrightarrow> 2 \<le> length opt \<and> opt ! 0 \<noteq> 0 \<and> opt ! 0 \<noteq> 1 \<and> unat (opt ! 1) = length opt"

lemma option_loop_elim:
  assumes "option_loop packet header offset result = Inr r"
  obtains (stop) "\<not> offset < header \<or> packet ! offset = 0" "r = result"
    | (nop) "offset < header" "packet ! offset \<noteq> 0" "packet ! offset = 1" "option_loop packet header (offset + 1) result = Inr r"
    | (opt) "offset < header" "packet ! offset \<noteq> 0" "packet ! offset \<noteq> 1" "\<not> offset + 2 > header"
      "\<not> (unat (packet ! (offset + 1)) < 2 \<or> unat (packet ! (offset + 1)) > header - offset)"
      "option_loop packet header (offset + unat (packet ! (offset + 1)))
        (if packet ! offset AND 0x80 \<noteq> 0 then result @ take (unat (packet ! (offset + 1))) (drop offset packet) else result) = Inr r"
  using assms by (subst (asm) option_loop.simps) (auto simp: Let_def split: if_splits)

lemma option_loop_collects:
  assumes "option_loop packet header offset result = Inr r" and "header \<le> length packet"
    and "\<exists>opts. result = concat opts \<and> list_all whole_option opts"
  shows "(\<exists>opts. r = concat opts \<and> list_all whole_option opts) \<and> length r \<le> length result + (header - offset)"
  using assms
proof (induction packet header offset result rule: option_loop.induct)
  case (1 packet header offset result)
  let ?type = "packet ! offset" and ?sz = "unat (packet ! (offset + 1))"
  from "1.prems"(1) show ?case
  proof (cases rule: option_loop_elim)
    case stop
    then show ?thesis using "1.prems"(3) by simp
  next
    case nop
    with "1.IH"(1) [OF nop(1) refl nop(2,3,4) "1.prems"(2,3)] nop(1) show ?thesis by auto
  next
    case opt
    let ?next = "if ?type AND 0x80 \<noteq> 0 then result @ take ?sz (drop offset packet) else result"
    obtain opts where opts: "result = concat opts" "list_all whole_option opts" using "1.prems"(3) by blast
    have "offset + ?sz \<le> length packet" using opt(1,5) "1.prems"(2) by linarith
    then have "length (take ?sz (drop offset packet)) = ?sz" by simp
    then have "whole_option (take ?sz (drop offset packet))"
      using opt(2,3,5) \<open>offset + ?sz \<le> length packet\<close> unfolding whole_option_def by simp
    then have "\<exists>opts. ?next = concat opts \<and> list_all whole_option opts"
      using opts by (intro exI [of _ "if ?type AND 0x80 \<noteq> 0 then opts @ [take ?sz (drop offset packet)] else opts"]) simp
    with "1.IH"(2) [OF opt(1) refl opt(2,3,4) refl opt(5) opt(6) "1.prems"(2)]
    have "(\<exists>opts. r = concat opts \<and> list_all whole_option opts) \<and> length r \<le> length ?next + (header - (offset + ?sz))"
      by blast
    moreover have "length ?next \<le> length result + ?sz" by simp
    ultimately show ?thesis using opt(5) by auto
  qed
qed

lemma option_loop_accepts:
  assumes "list_all whole_option opts" and "take header packet = pre @ concat opts @ replicate n 0"
    and "header \<le> length packet"
  shows "\<exists>r. option_loop packet header (length pre) result = Inr r"
  using assms(1,2)
proof (induction opts arbitrary: pre result)
  case Nil
  have "length pre < header \<longrightarrow> packet ! length pre = 0"
  proof
    assume less: "length pre < header"
    then have "packet ! length pre = take header packet ! length pre" by simp
    also have "\<dots> = 0"
    proof -
      have "0 < n" using less assms(3) arg_cong [OF Nil(2), of length] by simp
      then show ?thesis by (simp add: Nil(2) nth_append)
    qed
    finally show "packet ! length pre = 0" .
  qed
  then show ?case by (subst option_loop.simps) auto
next
  case (Cons opt opts)
  have opt: "2 \<le> length opt" "opt ! 0 \<noteq> 0" "opt ! 0 \<noteq> 1" "unat (opt ! 1) = length opt" and rest: "list_all whole_option opts"
    using Cons.prems(1) by (simp_all add: whole_option_def [of opt])
  have fits: "length pre + length opt \<le> header"
    using arg_cong [OF Cons.prems(2), of length] assms(3) by simp
  have at: "packet ! (length pre + i) = opt ! i" if "i < length opt" for i
  proof -
    have "packet ! (length pre + i) = take header packet ! (length pre + i)" using that fits by simp
    then show ?thesis using that by (simp add: Cons.prems(2) nth_append)
  qed
  have "\<exists>r. option_loop packet header (length (pre @ opt)) acc = Inr r" for acc
    using Cons.prems(2) by (intro Cons.IH [OF rest]) simp
  moreover have "packet ! length pre = opt ! 0" "packet ! Suc (length pre) = opt ! 1"
    using at [of 0] at [of 1] opt(1) by (cases opt, auto)
  moreover have "length pre < header" "\<not> header < length pre + 2" "\<not> length opt < 2" "\<not> header - length pre < length opt"
    using fits opt(1) by linarith+
  ultimately show ?case using opt(2,3,4) by (subst option_loop.simps) (simp add: Let_def)
qed

lemma option_loop_same:
  assumes "option_loop packet header offset result = Inr r" and "\<And>i. offset \<le> i \<Longrightarrow> i < header \<Longrightarrow> packet ! i = other ! i"
  shows "\<exists>r. option_loop other header offset result' = Inr r"
  using assms
proof (induction packet header offset result arbitrary: result' rule: option_loop.induct)
  case (1 packet header offset result)
  let ?sz = "unat (packet ! (offset + 1))"
  from "1.prems"(1) show ?case
  proof (cases rule: option_loop_elim)
    case stop
    then show ?thesis using "1.prems"(2) [of offset] by (subst option_loop.simps) auto
  next
    case nop
    have "\<exists>r. option_loop other header (offset + 1) result' = Inr r"
      by (rule "1.IH"(1) [OF nop(1) refl nop(2,3,4)]) (use "1.prems"(2) in auto)
    then show ?thesis using nop "1.prems"(2) [of offset] by (subst option_loop.simps) simp
  next
    case opt
    have "\<exists>r. option_loop other header (offset + ?sz) acc = Inr r" for acc
      by (rule "1.IH"(2) [OF opt(1) refl opt(2,3,4) refl opt(5,6)]) (use "1.prems"(2) in auto)
    moreover have "other ! offset = packet ! offset" "other ! (offset + 1) = packet ! (offset + 1)"
      using opt(4) "1.prems"(2) [of offset] "1.prems"(2) [of "offset + 1"] by simp_all
    ultimately show ?thesis using opt(1-5) by (subst option_loop.simps) (simp add: Let_def)
  qed
qed

lemma copied_options_same:
  assumes "copied_options packet header = Inr r" and "header \<le> length packet" and "header' \<le> length other" and "header' = header"
    and "drop 20 (take header' other) = drop 20 (take header packet)"
  shows "\<exists>r. copied_options other header' = Inr r"
proof -
  have "packet ! i = other ! i" if "20 \<le> i" "i < header" for i
  proof -
    have "drop 20 (take header packet) ! (i - 20) = packet ! i" "drop 20 (take header' other) ! (i - 20) = other ! i"
      using that assms(2-4) by simp_all
    with assms(5) show ?thesis by simp
  qed
  then show ?thesis
    using assms(1,4) option_loop_same [of packet header 20 "[]" _ other "[]"]
    by (auto simp: copied_options_def res_bind_Inr_iff)
qed

lemma pad_options_length:
  shows "length (pad_options r) mod 4 = 0"
    and "length r \<le> n \<Longrightarrow> n mod 4 = 0 \<Longrightarrow> length (pad_options r) \<le> n"
proof -
  obtain q t where l: "length r = 4 * q + t" "t < 4" by (metis mod_less_divisor mult_div_mod_eq zero_less_numeral)
  have "t = 0 \<or> t = 1 \<or> t = 2 \<or> t = 3" using l(2) by auto
  then show "length (pad_options r) mod 4 = 0" by (auto simp: pad_options_def l(1) mod_add_left_eq)
  assume "length r \<le> n" "n mod 4 = 0"
  then obtain k where "n = 4 * k" "4 * q + t \<le> 4 * k" using l(1) by auto
  moreover from this have "t = 0 \<or> q + 1 \<le> k" by linarith
  ultimately show "length (pad_options r) \<le> n"
    using \<open>t = 0 \<or> t = 1 \<or> t = 2 \<or> t = 3\<close> by (auto simp: pad_options_def l(1))
qed

lemma copied_options_fit:
  assumes "copied_options packet header = Inr options" and "20 \<le> header" and "header \<le> length packet" and "header mod 4 = 0"
  shows "length options mod 4 = 0" and "20 + length options \<le> header"
    and "\<And>pre rest. length pre = 20 \<Longrightarrow> \<exists>r. copied_options (pre @ options @ rest) (20 + length options) = Inr r"
proof -
  obtain r where r: "option_loop packet header 20 [] = Inr r" "options = pad_options r"
    using assms(1) by (auto simp: copied_options_def res_bind_Inr_iff)
  have "(\<exists>opts. r = concat opts \<and> list_all whole_option opts) \<and> length r \<le> length ([] :: bytes) + (header - 20)"
    by (rule option_loop_collects [OF r(1) assms(3)]) (intro exI [of _ "[]"], simp)
  then obtain opts where opts: "r = concat opts" "list_all whole_option opts" and len: "length r \<le> header - 20" by auto
  have "(header - 20) mod 4 = 0" using assms(2,4) by presburger
  then show "length options mod 4 = 0" "20 + length options \<le> header"
    using pad_options_length(1) [of r] pad_options_length(2) [OF len] assms(2) by (simp_all add: r(2))
  fix pre rest :: bytes assume pre: "length pre = 20"
  obtain n where n: "options = concat opts @ replicate n 0" by (simp add: r(2) pad_options_def opts(1))
  have "\<exists>r. option_loop (pre @ options @ rest) (20 + length options) (length pre) [] = Inr r"
    by (rule option_loop_accepts [OF opts(2)]) (use pre n in simp_all)
  then show "\<exists>r. copied_options (pre @ options @ rest) (20 + length options) = Inr r"
    by (auto simp: copied_options_def pre)
qed

section \<open>A header that is accepted\<close>

lemma take_bit_small: "unat w < 2 ^ n \<Longrightarrow> take_bit n w = w" for w :: "'a::len word"
  by (simp add: word_unat_eq_iff unsigned_take_bit_eq take_bit_nat_eq_self)

lemma be_value_pair: "unat w < 65536 \<Longrightarrow> be_value (be_bytes 2 w) = w" for w :: "32 word"
proof -
  assume "unat w < 65536"
  then have "take_bit 16 w = w" by (simp add: take_bit_small)
  then have top: "bit w i \<Longrightarrow> i < 16" for i by (metis bit_take_bit_iff)
  show ?thesis
  proof (rule bit_word_eqI)
    fix i assume i: "i < LENGTH(32)"
    show "bit (be_value (be_bytes 2 w) :: 32 word) i = bit w i"
    proof (cases "i < 16")
      case True
      then have d: "i div 8 < 2" by auto
      then have "2 - Suc (2 - Suc (i div 8)) = i div 8" by simp
      then show ?thesis using i d by (simp add: bit_be_value bit_be_bytes_nth)
    next
      case False
      then show ?thesis using top [of i] by (auto simp: bit_be_value)
    qed
  qed
qed

lemma fragment_flags:
  fixes k :: nat
  assumes "k < 8192"
  defines "w \<equiv> word_of_nat k :: 32 word"
  shows "(w OR (if m then 0x2000 else 0)) AND 0x1fff = w" and "(w OR (if m then 0x2000 else 0)) AND 0x2000 \<noteq> 0 \<longleftrightarrow> m"
    and "(w OR (if m then 0x2000 else 0)) AND 0x4000 = 0" and "(w OR (if m then 0x2000 else 0)) AND 0x8000 = 0"
    and "unat (w OR (if m then 0x2000 else 0)) < 65536"
proof -
  have u: "unat w = k" using assms by (simp add: unat_of_nat_size)
  have mask: "(0x1fff :: 32 word) = mask 13" by (simp add: mask_eq_exp_minus_1)
  have self: "w AND 0x1fff = w"
    unfolding mask take_bit_eq_mask [symmetric] by (rule take_bit_small) (use assms(1) u in simp)
  have none: "w AND x = 0" if "0x1fff AND x = 0" for x using that self by (metis and.assoc and_zero_eq)
  show "(w OR (if m then 0x2000 else 0)) AND 0x1fff = w" by (simp add: bit.conj_disj_distrib2 self)
  show "(w OR (if m then 0x2000 else 0)) AND 0x2000 \<noteq> 0 \<longleftrightarrow> m" "(w OR (if m then 0x2000 else 0)) AND 0x4000 = 0"
    "(w OR (if m then 0x2000 else 0)) AND 0x8000 = 0"
    by (simp_all add: bit.conj_disj_distrib2 none)
  have "take_bit 16 (w OR (if m then 0x2000 else 0)) = w OR (if m then 0x2000 else 0)"
    using assms(1) u take_bit_small [of w 16] by (simp add: take_bit_or)
  then show "unat (w OR (if m then 0x2000 else 0)) < 65536"
    using take_bit_nat_less_exp [of 16 "unat (w OR (if m then 0x2000 else 0))"] by (simp add: unsigned_take_bit_eq [symmetric])
qed

lemma version_nibbles:
  assumes "n \<le> 15"
  shows "drop_bit 4 (0x40 OR word_of_nat n :: byte) = 4" and "unat ((0x40 OR word_of_nat n :: byte) AND 15) = n"
    and "(0x40 OR word_of_nat n :: byte) \<noteq> 0"
proof -
  have all: "list_all (\<lambda>n. drop_bit 4 (0x40 OR word_of_nat n :: byte) = 4 \<and> unat ((0x40 OR word_of_nat n :: byte) AND 15) = n \<and>
      (0x40 OR word_of_nat n :: byte) \<noteq> 0) [0..<16]" by code_simp
  have "n \<in> set [0..<16]" using assms by simp
  with all show "drop_bit 4 (0x40 OR word_of_nat n :: byte) = 4" "unat ((0x40 OR word_of_nat n :: byte) AND 15) = n"
    "(0x40 OR word_of_nat n :: byte) \<noteq> 0" unfolding list_all_iff by blast+
qed

lemma inspect_composed:
  assumes q: "q = [0x40 OR word_of_nat n, b1] @ be_bytes 2 (word_of_nat (20 + length opts + length pl) :: 32 word) @ [b4, b5] @
      be_bytes 2 (word_of_nat k OR (if m then 0x2000 else 0) :: 32 word) @ [b8, b9, x, y, s1, s2, s3, s4, d1, d2, d3, d4] @ opts @ pl"
    and n: "length opts = 4 * n - 20" "5 \<le> n" "n \<le> 15" and b8: "b8 \<noteq> 0"
    and sum_ok: "internet_checksum (take (4 * n) q) = 0" and opts: "copied_options q (4 * n) = Inr r"
    and k: "k < 8192" and pl: "pl \<noteq> []" "m \<longrightarrow> length pl mod 8 = 0" "8 * k + length pl \<le> 65535 - 4 * n"
  shows "inspect_ipv4 q = Inr \<lparr>ip_header_size = 4 * n, ip_source = be_value [s1, s2, s3, s4],
    ip_destination = be_value [d1, d2, d3, d4], ip_fragment_offset = word_of_nat (8 * k),
    ip_more_fragments = m, ip_dont_fragment = False\<rparr>"
proof -
  let ?len = "20 + length opts + length pl" and ?flags = "word_of_nat k OR (if m then 0x2000 else 0) :: 32 word"
  note flags = fragment_flags [OF k, of m]
  have len: "length q = ?len" by (simp add: q)
  have small: "?len \<le> 65535" using n pl(3) by linarith
  have u: "unat (word_of_nat ?len :: 32 word) = ?len" using small by (intro unat_of_nat_size) simp
  have head: "header_length q = 4 * n" by (simp add: header_length_def q version_nibbles(2) [OF n(3)])
  have size_ok: "unat (ip_get q 2 2) = length q"
  proof -
    have "ip_get q 2 2 = be_value (be_bytes 2 (word_of_nat ?len :: 32 word))" by (simp add: ip_get_def q be_bytes_pair)
    then show ?thesis using u small len by (simp add: be_value_pair)
  qed
  have fl: "ip_get q 6 2 = ?flags"
  proof -
    have "ip_get q 6 2 = be_value (be_bytes 2 ?flags)" by (simp add: ip_get_def q be_bytes_pair)
    then show ?thesis using be_value_pair [OF flags(5)] by simp
  qed
  have off: "(word_of_nat k :: 32 word) * 8 = word_of_nat (8 * k)" by simp
  have uo: "unat (word_of_nat (8 * k) :: 32 word) = 8 * k" using k by (intro unat_of_nat_size) simp
  have addr: "ip_get q 12 4 = be_value [s1, s2, s3, s4]" "ip_get q 16 4 = be_value [d1, d2, d3, d4]"
    by (simp_all add: ip_get_def q be_bytes_pair)
  have "q ! 0 = 0x40 OR word_of_nat n" by (simp add: q)
  then have first: "drop_bit 4 (q ! 0) = 4" "q ! 8 = b8" using version_nibbles(1) [OF n(3)] by (simp_all only: q) (simp add: be_bytes_pair)
  have pay: "length q - 4 * n = length pl" using n by (simp add: len)
  have guard: "\<not> (length q < 20 \<or> length q > 65535 \<or> drop_bit 4 (q ! 0) \<noteq> 4)"
    "\<not> (4 * n < 20 \<or> 4 * n > length q \<or> unat (ip_get q 2 2) \<noteq> length q \<or> q ! 8 = 0 \<or> internet_checksum (take (4 * n) q) \<noteq> 0)"
    using small first size_ok sum_ok b8 n by (auto simp: len)
  have u16: "unat (word_of_nat (8 * k) :: 16 word) = 8 * k" using k by (intro unat_of_nat_size) simp
  have half: "ucast (word_of_nat (8 * k) :: 32 word) = (word_of_nat (8 * k) :: 16 word)"
    by (rule word_unat_eq_iff [THEN iffD2]) (simp only: unsigned_ucast_eq uo u16, use k in \<open>simp add: take_bit_nat_eq_self\<close>)
  show ?thesis
    unfolding inspect_ipv4_def head Let_def if_not_P [OF guard(1)] if_not_P [OF guard(2)] opts res_bind_simps fl flags(1,3,4) off uo pay addr half
    using flags(2) pl by (auto simp: not_less)
qed

text \<open>What an accepted header says of the packet.\<close>

lemma inspect_facts:
  assumes "inspect_ipv4 packet = Inr info"
  shows "20 \<le> length packet" "length packet \<le> 65535" "packet ! 8 \<noteq> 0" "ip_header_size info = header_length packet"
    "20 \<le> ip_header_size info" "ip_header_size info \<le> length packet"
    "ip_source info = ip_get packet 12 4" "ip_destination info = ip_get packet 16 4"
    "\<exists>r. copied_options packet (ip_header_size info) = Inr r"
    "unat (ip_fragment_offset info) mod 8 = 0"
    "unat (ip_fragment_offset info) + (length packet - ip_header_size info) \<le> 65535 - ip_header_size info"
    "ip_more_fragments info \<Longrightarrow> (length packet - ip_header_size info) mod 8 = 0"
proof -
  define flags where "flags = ip_get packet 6 2"
  have m: "(0x1fff :: 32 word) = mask 13" by (simp add: mask_eq_exp_minus_1)
  have "unat (flags AND 0x1fff) = unat flags mod 8192"
    unfolding m by (simp only: take_bit_eq_mask [symmetric] unsigned_take_bit_eq) (simp add: take_bit_eq_mod)
  then have o32: "unat ((flags AND 0x1fff) * 8) = unat flags mod 8192 * 8"
    by (simp add: unat_word_ariths)
  then have o16: "unat (ucast ((flags AND 0x1fff) * 8) :: 16 word) = unat flags mod 8192 * 8"
    by (simp add: unsigned_ucast_eq take_bit_nat_eq_self)
  note cases = assms [unfolded inspect_ipv4_def Let_def flags_def [symmetric]]
  show "20 \<le> length packet" "length packet \<le> 65535" "packet ! 8 \<noteq> 0" "ip_header_size info = header_length packet"
    "20 \<le> ip_header_size info" "ip_header_size info \<le> length packet"
    "ip_source info = ip_get packet 12 4" "ip_destination info = ip_get packet 16 4"
    "\<exists>r. copied_options packet (ip_header_size info) = Inr r"
    using cases by (auto simp: res_bind_Inr_iff not_less split: if_splits)
  show "unat (ip_fragment_offset info) mod 8 = 0"
    "unat (ip_fragment_offset info) + (length packet - ip_header_size info) \<le> 65535 - ip_header_size info"
    using cases o32 o16 by (auto simp: res_bind_Inr_iff not_less split: if_splits)
  show "(length packet - ip_header_size info) mod 8 = 0" if "ip_more_fragments info"
    using cases that by (auto simp: res_bind_Inr_iff not_less split: if_splits)
qed

lemma header_length_bound: "header_length packet \<le> 60" "header_length packet mod 4 = 0"
proof -
  have m: "(15 :: byte) = mask 4" by (simp add: mask_eq_exp_minus_1)
  have "unat (packet ! 0 AND 15) = unat (packet ! 0) mod 16"
    unfolding m by (simp only: take_bit_eq_mask [symmetric] unsigned_take_bit_eq) (simp add: take_bit_eq_mod)
  then show "header_length packet \<le> 60" "header_length packet mod 4 = 0" by (simp_all add: header_length_def)
qed

section \<open>One fragment\<close>

lemma twenty_bytes:
  assumes "20 \<le> length p"
  obtains b0 b1 b2 b3 b4 b5 b6 b7 b8 b9 b10 b11 s1 s2 s3 s4 d1 d2 d3 d4 tail
  where "p = [b0, b1, b2, b3, b4, b5, b6, b7, b8, b9, b10, b11, s1, s2, s3, s4, d1, d2, d3, d4] @ tail"
proof -
  have "\<exists>b0 b1 b2 b3 b4 b5 b6 b7 b8 b9 b10 b11 s1 s2 s3 s4 d1 d2 d3 d4 tail.
      p = [b0, b1, b2, b3, b4, b5, b6, b7, b8, b9, b10, b11, s1, s2, s3, s4, d1, d2, d3, d4] @ tail"
    using assms by (auto simp: numeral_eq_Suc Suc_le_length_iff)
  then show ?thesis by (elim exE) (rule that)
qed

lemma fragment_accepted:
  assumes info: "inspect_ipv4 packet = Inr info" and "\<not> ip_dont_fragment info"
    and options: "copied_options packet (ip_header_size info) = Inr options"
    and header: "header = (if offset = 0 then ip_header_size info else 20 + length options)"
    and pos: "offset mod 8 = 0" "0 < count" "offset + count \<le> length packet - ip_header_size info"
    and cut: "offset + count < length packet - ip_header_size info \<longrightarrow> count mod 8 = 0"
  defines "m \<equiv> offset + count < length packet - ip_header_size info \<or> ip_more_fragments info"
  shows "\<exists>f. update_ipv4_checksum (fragment_at packet info options header offset count) = Inr f \<and> length f = header + count \<and>
    drop header f = take count (drop (ip_header_size info + offset) packet) \<and>
    inspect_ipv4 f = Inr (info\<lparr>ip_header_size := header,
      ip_fragment_offset := word_of_nat (unat (ip_fragment_offset info) + offset), ip_more_fragments := m\<rparr>)"
proof -
  note facts = inspect_facts [OF info]
  have hs: "ip_header_size info \<le> 60" "ip_header_size info mod 4 = 0" using header_length_bound facts(4) by simp_all
  note fit = copied_options_fit [OF options facts(5,6) hs(2)]
  define opts where "opts = (if offset = 0 then take (ip_header_size info - 20) (drop 20 packet) else options)"
  define pl where "pl = take count (drop (ip_header_size info + offset) packet)"
  obtain n where n: "header = 4 * n" "5 \<le> n" "n \<le> 15"
  proof
    have "header mod 4 = 0" "20 \<le> header" "header \<le> 60"
      using header hs fit(1,2) facts(5) by (auto simp: mod_add_right_eq [symmetric])
    then show "header = 4 * (header div 4)" "5 \<le> header div 4" "header div 4 \<le> 15" by auto
  qed
  have lo: "length opts = 4 * n - 20" "20 + length opts = header"
    using n header facts(5,6) by (auto simp: opts_def)
  have lpl: "length pl = count" using pos facts(6) by (simp add: pl_def)
  define k where "k = (unat (ip_fragment_offset info) + offset) div 8"
  have k8: "8 * k = unat (ip_fragment_offset info) + offset"
    using facts(10) pos(1) by (simp add: k_def mod_add_eq [symmetric] mod_0_imp_dvd)
  have below: "8 * k + length pl \<le> 65535 - 4 * n"
    using facts(11) pos(3) header fit(2) n(1) by (auto simp: k8 lpl split: if_splits)
  then have k: "k < 8192" by linarith
  obtain b0 b1 b2 b3 b4 b5 b6 b7 b8 b9 b10 b11 s1 s2 s3 s4 d1 d2 d3 d4 tail
    where packet: "packet = [b0, b1, b2, b3, b4, b5, b6, b7, b8, b9, b10, b11, s1, s2, s3, s4, d1, d2, d3, d4] @ tail"
    by (rule twenty_bytes [OF facts(1)])
  let ?flags = "word_of_nat k OR (if m then 0x2000 else 0) :: 32 word"
  define p where "p = [0x40 OR word_of_nat n, b1] @ be_bytes 2 (word_of_nat (20 + length opts + length pl) :: 32 word) @ [b4, b5] @
      be_bytes 2 ?flags @ [b8, b9, b10, b11, s1, s2, s3, s4, d1, d2, d3, d4] @ opts @ pl"
  have p: "fragment_at packet info options header offset count = p"
  proof -
    have "count < length packet - ip_header_size info - offset \<longleftrightarrow> offset + count < length packet - ip_header_size info"
      using pos by linarith
    then show ?thesis
      unfolding fragment_at_def Let_def opts_def [symmetric] pl_def [symmetric] k_def [symmetric] m_def [symmetric]
      by (simp add: packet p_def ip_put_def n(1) be_bytes_pair m_def add.assoc)
  qed
  have head: "header_length p = 4 * n" by (simp add: header_length_def p_def version_nibbles(2) [OF n(3)])
  have lp: "length p = header + count" using lo lpl by (simp add: p_def)
  have "20 \<le> length p" "\<not> (4 * n < 20 \<or> 4 * n > length p)" "length p \<le> 65535"
    using lp n below lpl by auto
  then obtain f where f: "update_ipv4_checksum p = Inr f" by (auto simp: update_ipv4_checksum_def Let_def head)
  have nz: "p ! 0 \<noteq> 0" using version_nibbles(3) [OF n(3)] by (simp add: p_def)
  note sums = update_checksum_verifies [OF f nz \<open>length p \<le> 65535\<close>, unfolded head]
  then obtain x y where xy: "f = take 10 p @ [x, y] @ drop 12 p" and ok: "internet_checksum (take (4 * n) f) = 0" by blast
  have fq: "f = [0x40 OR word_of_nat n, b1] @ be_bytes 2 (word_of_nat (20 + length opts + length pl) :: 32 word) @ [b4, b5] @
      be_bytes 2 ?flags @ [b8, b9, x, y, s1, s2, s3, s4, d1, d2, d3, d4] @ opts @ pl"
    by (simp add: xy p_def be_bytes_pair)
  have "\<exists>r. copied_options f (4 * n) = Inr r"
  proof (cases "offset = 0")
    case True
    then have same: "4 * n = ip_header_size info" using header n(1) by simp
    show ?thesis
    proof (rule copied_options_same [OF options])
      show "ip_header_size info \<le> length packet" by (rule facts(6))
      have "take (ip_header_size info - 20) tail = opts" using True by (simp add: opts_def packet)
      then show "drop 20 (take (4 * n) f) = drop 20 (take (ip_header_size info) packet)"
        using lo by (simp add: fq packet same drop_take be_bytes_pair)
    qed (use n lp f in \<open>simp_all add: same xy lp\<close>)
  next
    case False
    have "\<exists>r. copied_options (take 20 f @ options @ pl) (20 + length options) = Inr r"
      by (rule fit(3)) (simp add: fq)
    moreover have "take 20 f @ options @ pl = f" using False by (simp add: fq opts_def be_bytes_pair)
    ultimately show ?thesis using header False n(1) by simp
  qed
  then obtain r where r: "copied_options f (4 * n) = Inr r" by blast
  have "inspect_ipv4 f = Inr \<lparr>ip_header_size = 4 * n, ip_source = be_value [s1, s2, s3, s4],
      ip_destination = be_value [d1, d2, d3, d4], ip_fragment_offset = word_of_nat (8 * k),
      ip_more_fragments = m, ip_dont_fragment = False\<rparr>"
  proof (rule inspect_composed [OF fq lo(1) n(2,3) _ ok r k _ _ below])
    show "b8 \<noteq> 0" using facts(3) by (simp add: packet)
    show "pl \<noteq> []" using lpl pos(2) by auto
    show "m \<longrightarrow> length pl mod 8 = 0"
    proof
      assume m
      show "length pl mod 8 = 0"
      proof (cases "offset + count < length packet - ip_header_size info")
        case False
        then have "ip_more_fragments info" "length packet - ip_header_size info = offset + count"
          using \<open>m\<close> pos(3) by (auto simp: m_def)
        then have "(offset + count) mod 8 = 0" using facts(12) by simp
        then show ?thesis using pos(1) lpl by presburger
      qed (use cut lpl in simp)
    qed
  qed
  also have "\<dots> = Inr (info\<lparr>ip_header_size := header,
      ip_fragment_offset := word_of_nat (unat (ip_fragment_offset info) + offset), ip_more_fragments := m\<rparr>)"
    using facts(7,8) assms(2) n(1) by (cases info) (simp add: k8 ip_get_def packet)
  finally have "inspect_ipv4 f = \<dots>" .
  moreover have "length f = header + count" using lo lpl by (simp add: fq)
  moreover have "drop header f = pl"
  proof -
    have "drop 20 f = opts @ pl" by (simp add: fq be_bytes_pair)
    then show ?thesis using drop_drop [of "length opts" 20 f] lo(2) by (simp add: add.commute)
  qed
  ultimately show ?thesis using f p pl_def by blast
qed

section \<open>All fragments\<close>

text \<open>
  The receiver's side: the fragments come from \<open>src\<close> for \<open>dst\<close>, each starts where the one before
  ends, all but the last announce more, and their payloads make up \<open>pl\<close>.
\<close>

fun reassembles :: "32 word \<Rightarrow> 32 word \<Rightarrow> bool \<Rightarrow> nat \<Rightarrow> bytes \<Rightarrow> bytes list \<Rightarrow> bool" where
  "reassembles src dst last_more offset pl [] \<longleftrightarrow> pl = []"
| "reassembles src dst last_more offset pl (f # fs) \<longleftrightarrow>
     (case inspect_ipv4 f of
        Inl _ \<Rightarrow> False
      | Inr h \<Rightarrow> let chunk = drop (ip_header_size h) f in
          ip_source h = src \<and> ip_destination h = dst \<and> unat (ip_fragment_offset h) = offset \<and>
          ip_more_fragments h = (fs \<noteq> [] \<or> last_more) \<and> take (length chunk) pl = chunk \<and>
          reassembles src dst last_more (offset + length chunk) (drop (length chunk) pl) fs)"

lemma fragment_loop_reassembles:
  assumes info: "inspect_ipv4 packet = Inr info" and df: "\<not> ip_dont_fragment info"
    and options: "copied_options packet (ip_header_size info) = Inr options"
    and mtu: "68 \<le> mtu" and "offset \<le> length packet - ip_header_size info"
    and "offset < length packet - ip_header_size info \<longrightarrow> offset mod 8 = 0"
  shows "\<exists>fs. fragment_loop packet mtu info options offset = Inr fs \<and> list_all (\<lambda>f. length f \<le> mtu) fs \<and>
    (fs = [] \<longleftrightarrow> offset = length packet - ip_header_size info) \<and>
    reassembles (ip_source info) (ip_destination info) (ip_more_fragments info) (unat (ip_fragment_offset info) + offset)
      (drop (ip_header_size info + offset) packet) fs"
  using assms(5,6)
proof (induction "length packet - ip_header_size info - offset" arbitrary: offset rule: less_induct)
  case less
  let ?total = "length packet - ip_header_size info"
  show ?case
  proof (cases "offset < ?total")
    case False
    then show ?thesis using less.prems inspect_facts(6) [OF info] by (subst fragment_loop.simps) simp
  next
    case True
    define header where "header = (if offset = 0 then ip_header_size info else 20 + length options)"
    define count where "count = (if ?total - offset \<le> mtu - header then ?total - offset else ((mtu - header) div 8) * 8)"
    note facts = inspect_facts [OF info]
    have hs: "ip_header_size info \<le> 60" "ip_header_size info mod 4 = 0" using header_length_bound facts(4) by simp_all
    have header: "header \<le> 60" using hs copied_options_fit(2) [OF options facts(5,6) hs(2)] by (simp add: header_def)
    then have "8 \<le> mtu - header" using mtu by linarith
    then have count: "0 < count" "count \<le> mtu - header" "offset + count \<le> ?total" "offset + count < ?total \<longrightarrow> count mod 8 = 0"
      using True by (auto simp: count_def div_greater_zero_iff not_le)
    have "offset mod 8 = 0" using True less.prems(2) by blast
    from fragment_accepted [OF info df options header_def this count(1,3,4)]
    obtain f where f: "update_ipv4_checksum (fragment_at packet info options header offset count) = Inr f"
      "length f = header + count" "drop header f = take count (drop (ip_header_size info + offset) packet)"
      "inspect_ipv4 f = Inr (info\<lparr>ip_header_size := header, ip_fragment_offset := word_of_nat (unat (ip_fragment_offset info) + offset),
        ip_more_fragments := offset + count < ?total \<or> ip_more_fragments info\<rparr>)"
      by (elim exE conjE) (rule that)
    have later: "?total - (offset + count) < ?total - offset" "offset + count < ?total \<longrightarrow> (offset + count) mod 8 = 0"
      using count True less.prems(2) by (auto simp: mod_add_eq [symmetric])
    obtain fs where fs: "fragment_loop packet mtu info options (offset + count) = Inr fs" "list_all (\<lambda>f. length f \<le> mtu) fs"
      "fs = [] \<longleftrightarrow> offset + count = ?total"
      "reassembles (ip_source info) (ip_destination info) (ip_more_fragments info) (unat (ip_fragment_offset info) + (offset + count))
        (drop (ip_header_size info + (offset + count)) packet) fs"
      using less.hyps [OF later(1) count(3) later(2)] by blast
    have "fragment_loop packet mtu info options offset = Inr (f # fs)"
      unfolding fragment_loop.simps [of packet mtu info options offset] Let_def header_def [symmetric] count_def [symmetric]
      using True count(1) f(1) fs(1) by simp
    moreover have "unat (ip_fragment_offset info) + offset < 65536" using facts(2,11) True by linarith
    then have "unat (word_of_nat (unat (ip_fragment_offset info) + offset) :: 16 word) = unat (ip_fragment_offset info) + offset"
      by (intro unat_of_nat_size) simp
    ultimately show ?thesis
      using f fs count True facts(6) header mtu
      by (intro exI [of _ "f # fs"]) (auto simp: Let_def ac_simps)
  qed
qed

text \<open>
  C17. An accepted packet too large for the link and marked as not to be fragmented is refused; any
  other is cut into pieces that all fit the link, are accepted in turn, carry the same addresses, and
  whose payloads, each starting where the one before ends, are the payload of the packet.
\<close>

theorem fragments_reassemble:
  assumes "inspect_ipv4 packet = Inr info" and "68 \<le> mtu"
  shows "if ip_dont_fragment info \<and> unat mtu < length packet
    then fragment_ipv4 packet mtu = Inl (Length_error ''IPv4 fragmentation needed'')
    else \<exists>fs. fragment_ipv4 packet mtu = Inr fs \<and> list_all (\<lambda>f. length f \<le> unat mtu) fs \<and>
      reassembles (ip_source info) (ip_destination info) (ip_more_fragments info) (unat (ip_fragment_offset info))
        (drop (ip_header_size info) packet) fs"
proof -
  have big: "\<not> mtu < 68" "68 \<le> unat mtu" using assms(2) by (simp_all add: not_less word_le_nat_alt)
  obtain options where options: "copied_options packet (ip_header_size info) = Inr options"
    using inspect_facts(9) [OF assms(1)] by blast
  show ?thesis
  proof (cases "length packet \<le> unat mtu")
    case True
    then show ?thesis using assms(1) big by (simp add: fragment_ipv4_def Let_def)
  next
    case False
    then show ?thesis
      using assms(1) big options fragment_loop_reassembles [OF assms(1) _ options big(2), of 0]
      by (auto simp: fragment_ipv4_def)
  qed
qed

definition demo_datagram :: bytes where
  "demo_datagram = [0x46, 0, 0, 100, 0, 7, 0, 0, 64, 17, 0xd0, 0xe1, 10, 77, 0, 1, 10, 77, 0, 2, 0x94, 4, 0, 0] @ map word_of_nat [0..<76]"

theorem fragments_reassemble_witness:
  "\<exists>fs. fragment_ipv4 demo_datagram 68 = Inr fs \<and> list_all (\<lambda>f. length f \<le> 68) fs \<and>
    reassembles 0x0a4d0001 0x0a4d0002 False 0 (drop 24 demo_datagram) fs"
proof -
  have "inspect_ipv4 demo_datagram = Inr \<lparr>ip_header_size = 24, ip_source = 0x0a4d0001, ip_destination = 0x0a4d0002,
      ip_fragment_offset = 0, ip_more_fragments = False, ip_dont_fragment = False\<rparr>"
  proof -
    have "length demo_datagram = 100" by (simp add: demo_datagram_def)
    moreover have "internet_checksum (take 24 demo_datagram) = 0" by code_simp
    moreover have "header_length demo_datagram = 24" "demo_datagram ! 8 = 64" "drop_bit 4 (demo_datagram ! 0) = 4" by code_simp+
    moreover have "ip_get demo_datagram 2 2 = 100" "ip_get demo_datagram 6 2 = 0" "ip_get demo_datagram 12 4 = 0x0a4d0001"
      "ip_get demo_datagram 16 4 = 0x0a4d0002" by code_simp+
    moreover have "copied_options demo_datagram 24 = Inr [0x94, 4, 0, 0]" by code_simp
    ultimately show ?thesis by (simp add: inspect_ipv4_def)
  qed
  from fragments_reassemble [OF this, of 68] show ?thesis by simp
qed

end
