(* ===== verification/Capabilities.thy ===== *)
theory Capabilities
  imports Codec
begin

text \<open>
  \<open>protocol/capabilities.hpp/.cpp\<close>: what a client and the relay offer each other and what they agree
  on. The formats are fixed records read at fixed offsets.
\<close>

section \<open>Data\<close>

datatype Capability =
    Cap_negotiation | Cap_structured_diagnostics | Cap_peer_candidates | Cap_direct_quic | Cap_candidate_generations
  | Cap_user_accounts | Cap_password_networks | Cap_invitation_codes | Cap_managed_networks

fun capability_raw :: "Capability \<Rightarrow> 64 word" where
  "capability_raw Cap_negotiation = 1"
| "capability_raw Cap_structured_diagnostics = 2"
| "capability_raw Cap_peer_candidates = 4"
| "capability_raw Cap_direct_quic = 8"
| "capability_raw Cap_candidate_generations = 16"
| "capability_raw Cap_user_accounts = 32"
| "capability_raw Cap_password_networks = 64"
| "capability_raw Cap_invitation_codes = 128"
| "capability_raw Cap_managed_networks = 256"

definition supported_capabilities :: "64 word" where
  "supported_capabilities = capability_raw Cap_negotiation OR capability_raw Cap_structured_diagnostics OR
     capability_raw Cap_peer_candidates OR capability_raw Cap_direct_quic OR capability_raw Cap_candidate_generations OR
     capability_raw Cap_user_accounts OR capability_raw Cap_password_networks OR capability_raw Cap_invitation_codes OR
     capability_raw Cap_managed_networks"

record CapabilityOffer =
  minimum_version :: "16 word"
  maximum_version :: "16 word"
  offer_features :: "64 word"

record NegotiatedCapabilities =
  wire_version :: "16 word"
  negotiated_features :: "64 word"
  legacy :: bool

definition default_offer :: CapabilityOffer where
  "default_offer = \<lparr>minimum_version = protocol_version, maximum_version = protocol_version, offer_features = supported_capabilities\<rparr>"

definition no_capabilities :: NegotiatedCapabilities where
  "no_capabilities = \<lparr>wire_version = protocol_version, negotiated_features = 0, legacy = True\<rparr>"

definition supports :: "NegotiatedCapabilities \<Rightarrow> Capability \<Rightarrow> bool" where
  "supports n capability \<longleftrightarrow> \<not> legacy n \<and> negotiated_features n AND capability_raw capability \<noteq> 0"

section \<open>Operations\<close>

definition capability_magic :: bytes where "capability_magic = str ''LCAP''"

definition cap_append :: "64 word \<Rightarrow> nat \<Rightarrow> bytes" where "cap_append value count = be_bytes count value"

definition cap_read :: "bytes \<Rightarrow> nat \<Rightarrow> nat \<Rightarrow> 64 word" where
  "cap_read data offset count = be_value (take count (drop offset data))"

definition validate_offer :: "CapabilityOffer \<Rightarrow> unit res" where
  "validate_offer offer =
     (if minimum_version offer = 0 \<or> minimum_version offer > maximum_version offer
      then Inl (Invalid_argument ''invalid protocol version range'') else Inr ())"

definition is_capability_payload :: "bytes \<Rightarrow> bool" where
  "is_capability_payload data \<longleftrightarrow> length data \<ge> length capability_magic \<and> take (length capability_magic) data = capability_magic"

definition encode_capability_offer :: "CapabilityOffer \<Rightarrow> bytes res" where
  "encode_capability_offer offer = res_bind (validate_offer offer) (\<lambda>_.
     Inr (capability_magic @ [1, 0] @ cap_append (ucast (minimum_version offer)) 2 @ cap_append (ucast (maximum_version offer)) 2
       @ cap_append (offer_features offer) 8))"

definition decode_capability_offer :: "bytes \<Rightarrow> CapabilityOffer res" where
  "decode_capability_offer data =
     (if \<not> is_capability_payload data \<or> length data \<noteq> 18 \<or> data ! 4 \<noteq> 1 \<or> data ! 5 \<noteq> 0
      then Inl (Invalid_argument ''invalid capability offer'')
      else let result = \<lparr>minimum_version = ucast (cap_read data 6 2), maximum_version = ucast (cap_read data 8 2),
             offer_features = cap_read data 10 8\<rparr> in
        res_bind (validate_offer result) (\<lambda>_. Inr result))"

definition negotiate_capabilities :: "CapabilityOffer \<Rightarrow> CapabilityOffer \<Rightarrow> NegotiatedCapabilities res" where
  "negotiate_capabilities own remote =
     res_bind (validate_offer own) (\<lambda>_. res_bind (validate_offer remote) (\<lambda>_.
     let low = max (minimum_version own) (minimum_version remote);
         high = min (maximum_version own) (maximum_version remote) in
     if low > high then Inr no_capabilities
     else Inr \<lparr>wire_version = high, negotiated_features = offer_features own AND offer_features remote, legacy = False\<rparr>))"

definition encode_capability_selection :: "NegotiatedCapabilities \<Rightarrow> bytes res" where
  "encode_capability_selection selection =
     (if wire_version selection = 0 \<or> (legacy selection \<and> negotiated_features selection \<noteq> 0)
      then Inl (Invalid_argument ''invalid capability selection'')
      else Inr (capability_magic @ [1, if legacy selection then 2 else 1] @ cap_append (ucast (wire_version selection)) 2
        @ cap_append (negotiated_features selection) 8))"

definition decode_capability_selection :: "bytes \<Rightarrow> NegotiatedCapabilities res" where
  "decode_capability_selection data =
     (if \<not> is_capability_payload data \<or> length data \<noteq> 16 \<or> data ! 4 \<noteq> 1 \<or> (data ! 5 \<noteq> 1 \<and> data ! 5 \<noteq> 2)
      then Inl (Invalid_argument ''invalid capability selection'')
      else let result = \<lparr>wire_version = ucast (cap_read data 6 2), negotiated_features = cap_read data 8 8, legacy = (data ! 5 = 2)\<rparr> in
        res_bind (encode_capability_selection result) (\<lambda>_. Inr result))"

section \<open>What is agreed\<close>

text \<open>A feature is agreed on only when both sides offer it and their version ranges meet.\<close>

lemma negotiated_supports:
  assumes "negotiate_capabilities own remote = Inr n" and "supports n c"
  shows "offer_features own AND capability_raw c \<noteq> 0" and "offer_features remote AND capability_raw c \<noteq> 0"
    and "minimum_version own \<le> wire_version n" and "wire_version n \<le> maximum_version own"
    and "minimum_version remote \<le> wire_version n" and "wire_version n \<le> maximum_version remote"
proof -
  have n: "n = \<lparr>wire_version = min (maximum_version own) (maximum_version remote),
      negotiated_features = offer_features own AND offer_features remote, legacy = False\<rparr>"
    and range: "max (minimum_version own) (minimum_version remote) \<le> min (maximum_version own) (maximum_version remote)"
    using assms by (auto simp: negotiate_capabilities_def res_bind_Inr_iff Let_def supports_def no_capabilities_def not_less split: if_splits)
  from n range show "minimum_version own \<le> wire_version n" "wire_version n \<le> maximum_version own"
    "minimum_version remote \<le> wire_version n" "wire_version n \<le> maximum_version remote" by auto
  have "(offer_features own AND offer_features remote) AND capability_raw c \<noteq> 0" using assms(2) n by (simp add: supports_def)
  moreover have "(a AND b) AND d = b AND (a AND d)" "(a AND b) AND d = a AND (b AND d)" for a b d :: "64 word"
    by (simp_all add: ac_simps)
  ultimately show "offer_features own AND capability_raw c \<noteq> 0" "offer_features remote AND capability_raw c \<noteq> 0"
    by (metis and_zero_eq)+
qed

text \<open>Every outcome of a negotiation can be sent.\<close>

lemma negotiated_encodes:
  assumes "negotiate_capabilities own remote = Inr n"
  shows "\<exists>bs. encode_capability_selection n = Inr bs"
proof -
  have "min (maximum_version own) (maximum_version remote) \<noteq> 0" if "validate_offer own = Inr ()" "validate_offer remote = Inr ()"
    using that by (auto simp: validate_offer_def min_def not_less split: if_splits)
  then show ?thesis
    using assms by (auto simp: negotiate_capabilities_def res_bind_Inr_iff Let_def no_capabilities_def
        encode_capability_selection_def protocol_version_def split: if_splits)
qed

section \<open>Canonical encodings\<close>

lemma cap_read_append:
  "be_value (be_bytes 8 w) = (w :: 64 word)"
  "ucast (be_value (be_bytes 2 (ucast (v :: 16 word) :: 64 word)) :: 64 word) = v"
proof -
  show "be_value (be_bytes 8 w) = w" by (rule be_value_be_bytes) simp
  show "ucast (be_value (be_bytes 2 (ucast v :: 64 word)) :: 64 word) = v"
  proof (rule bit_word_eqI)
    fix i assume i: "i < LENGTH(16)"
    then have d: "i div 8 < 2" by auto
    then have "2 - Suc (2 - Suc (i div 8)) = i div 8" by simp
    then show "bit (ucast (be_value (be_bytes 2 (ucast v :: 64 word)) :: 64 word) :: 16 word) i = bit v i"
      using i d by (simp add: bit_be_value bit_be_bytes_nth bit_ucast_iff)
  qed
qed

lemma cap_append_read:
  "length bs = 8 \<Longrightarrow> be_bytes 8 (be_value bs :: 64 word) = bs"
  "length bs = 2 \<Longrightarrow> be_bytes 2 (ucast (ucast (be_value bs :: 64 word) :: 16 word) :: 64 word) = bs"
proof -
  show "be_bytes 8 (be_value bs :: 64 word) = bs" if "length bs = 8"
    using be_bytes_be_value [where 'a = 64, of bs] that by simp
  assume l: "length bs = 2"
  have "ucast (ucast (be_value bs :: 64 word) :: 16 word) = (be_value bs :: 64 word)"
    using l by (intro bit_word_eqI) (auto simp: bit_ucast_iff bit_be_value)
  then show "be_bytes 2 (ucast (ucast (be_value bs :: 64 word) :: 16 word) :: 64 word) = bs"
    using be_bytes_be_value [where 'a = 64, of bs] l by simp
qed

lemma capability_magic_bytes: "capability_magic = [0x4c, 0x43, 0x41, 0x50]"
  by (simp add: capability_magic_def str_def)

lemma record_split:
  assumes "is_capability_payload data" and "length data = 6 + n"
  shows "data = capability_magic @ [data ! 4, data ! 5] @ drop 6 data"
proof -
  have "take 4 data = capability_magic" using assms(1) by (simp add: is_capability_payload_def capability_magic_bytes numeral_eq_Suc)
  moreover have "data = take 4 data @ [data ! 4, data ! 5] @ drop 6 data"
  proof -
    have "drop 4 data = data ! 4 # data ! 5 # drop 6 data" using assms(2) Cons_nth_drop_Suc [of 4 data] Cons_nth_drop_Suc [of 5 data] by simp
    then show ?thesis by (metis append_Cons append_Nil append_take_drop_id)
  qed
  ultimately show ?thesis by simp
qed

interpretation offer_codec: wire_codec encode_capability_offer decode_capability_offer "\<lambda>_. True"
proof
  fix x bs assume "encode_capability_offer x = Inr bs"
  then show "decode_capability_offer bs = Inr x"
    by (cases x) (auto simp: encode_capability_offer_def res_bind_Inr_iff decode_capability_offer_def is_capability_payload_def
      capability_magic_bytes cap_append_def cap_read_def cap_read_append)
next
  fix bs x assume dec: "decode_capability_offer bs = Inr x"
  then have ok: "is_capability_payload bs" "length bs = 18" "bs ! 4 = 1" "bs ! 5 = 0" "validate_offer x = Inr ()"
    and x: "x = \<lparr>minimum_version = ucast (cap_read bs 6 2), maximum_version = ucast (cap_read bs 8 2), offer_features = cap_read bs 10 8\<rparr>"
    by (auto simp: decode_capability_offer_def Let_def res_bind_Inr_iff split: if_splits)
  have "drop 6 bs = take 2 (drop 6 bs) @ take 2 (drop 8 bs) @ take 8 (drop 10 bs)"
    using append_take_drop_id [of 2 "drop 6 bs"] append_take_drop_id [of 2 "drop 8 bs"] ok(2) by simp
  then show "True \<and> encode_capability_offer x = Inr bs"
    using record_split [OF ok(1), of 12] ok by (simp add: encode_capability_offer_def x cap_append_def cap_read_def cap_append_read)
qed

interpretation selection_result_codec: wire_codec encode_capability_selection decode_capability_selection "\<lambda>_. True"
proof
  fix x bs assume "encode_capability_selection x = Inr bs"
  then have enc: "wire_version x \<noteq> 0" "\<not> (legacy x \<and> negotiated_features x \<noteq> 0)"
    and bs: "bs = capability_magic @ [1, if legacy x then 2 else 1] @ cap_append (ucast (wire_version x)) 2 @ cap_append (negotiated_features x) 8"
    by (auto simp: encode_capability_selection_def split: if_splits)
  have payload_ok: "is_capability_payload bs" "length bs = 16" "bs ! 4 = 1" "bs ! 5 = (if legacy x then 2 else 1)"
    by (simp_all add: bs is_capability_payload_def capability_magic_bytes cap_append_def)
  have "cap_read bs 6 2 = be_value (be_bytes 2 (ucast (wire_version x) :: 64 word))" "cap_read bs 8 8 = negotiated_features x"
    by (simp_all add: bs capability_magic_bytes cap_append_def cap_read_def cap_read_append)
  then show "decode_capability_selection bs = Inr x"
    using enc payload_ok by (simp add: decode_capability_selection_def Let_def cap_read_append encode_capability_selection_def)
next
  fix bs x assume dec: "decode_capability_selection bs = Inr x"
  then have ok: "is_capability_payload bs" "length bs = 16" "bs ! 4 = 1" "bs ! 5 = 1 \<or> bs ! 5 = 2"
    and x: "x = \<lparr>wire_version = ucast (cap_read bs 6 2), negotiated_features = cap_read bs 8 8, legacy = (bs ! 5 = 2)\<rparr>"
    and enc: "\<exists>b. encode_capability_selection x = Inr b"
    by (auto simp: decode_capability_selection_def Let_def res_bind_Inr_iff split: if_splits)
  have "drop 6 bs = take 2 (drop 6 bs) @ take 8 (drop 8 bs)"
    using append_take_drop_id [of 2 "drop 6 bs"] ok(2) by simp
  then have "bs = capability_magic @ [1, if legacy x then 2 else 1] @ cap_append (ucast (wire_version x)) 2 @ cap_append (negotiated_features x) 8"
    using record_split [OF ok(1), of 10] ok by (auto simp: x cap_append_def cap_read_def cap_append_read)
  then show "True \<and> encode_capability_selection x = Inr bs"
    using enc by (auto simp: encode_capability_selection_def split: if_splits)
qed

end
