(* ===== verification/Control_Channel.thy ===== *)
theory Control_Channel
  imports Service_Steps Capabilities
begin

text \<open>
  \<open>relay/network_control_channel.hpp/.cpp\<close>: the dispatcher between the authenticated connections and
  the network service. Its own state are the capabilities each connected device has negotiated and the
  generation of the last candidate exchange it sent to each peer. An exception raised inside the
  \<open>try\<close> of \<open>handle_authenticated\<close> becomes an error frame; the state keeps what was done before it.
  The arguments of a call are evaluated from left to right.
\<close>

section \<open>State\<close>

record CapabilitySession =
  cap_session :: bytes
  cap_negotiated :: NegotiatedCapabilities
  cap_generations :: "((NetworkId \<times> DeviceId) \<times> 64 word) list"

record NetworkControlChannel =
  ch_service :: NetworkService
  ch_capabilities :: "(DeviceId \<times> CapabilitySession) list"
  ch_ticks :: nat

record RoutedControlFrame =
  control_recipient :: DeviceId
  control_frame :: Frame

record ControlDispatch =
  dispatch_response :: Frame
  dispatch_events :: "RoutedControlFrame list"

text \<open>The constructor, and the default \<open>CapabilitySession\<close>.\<close>

definition new_channel :: "NetworkService \<Rightarrow> NetworkControlChannel" where
  "new_channel service = \<lparr>ch_service = service, ch_capabilities = [], ch_ticks = 0\<rparr>"

definition no_session :: CapabilitySession where
  "no_session = \<lparr>cap_session = replicate 32 0, cap_negotiated = no_capabilities, cap_generations = []\<rparr>"

section \<open>Methods\<close>

type_synonym 'a ctl = "NetworkControlChannel \<Rightarrow> 'a res \<times> NetworkControlChannel"

definition cthrow :: "exn \<Rightarrow> 'a ctl" where "cthrow e c = (Inl e, c)"

definition clift :: "'a res \<Rightarrow> 'a ctl" where "clift r c = (r, c)"

definition cbind :: "'a ctl \<Rightarrow> ('a \<Rightarrow> 'b ctl) \<Rightarrow> 'b ctl" where
  "cbind m f c = (case m c of (Inl e, c') \<Rightarrow> (Inl e, c') | (Inr x, c') \<Rightarrow> f x c')"

definition cquery :: "(NetworkControlChannel \<Rightarrow> 'a) \<Rightarrow> 'a ctl" where "cquery f c = (Inr (f c), c)"

definition cmodify :: "(NetworkControlChannel \<Rightarrow> NetworkControlChannel) \<Rightarrow> unit ctl" where "cmodify f c = (Inr (), f c)"

text \<open>A call of a method of the service.\<close>

definition call :: "'a svc \<Rightarrow> 'a ctl" where
  "call m c = (case m (ch_service c) of (r, s) \<Rightarrow> (r, c\<lparr>ch_service := s\<rparr>))"

text \<open>\<open>time_source_()\<close> is outside the program; it is numbered by its calls.\<close>

definition channel_now_ms :: "(nat \<Rightarrow> int) \<Rightarrow> int ctl" where
  "channel_now_ms clock c =
     (let result = clock (ch_ticks c); c' = c\<lparr>ch_ticks := Suc (ch_ticks c)\<rparr> in
      if result < 0 then (Inl (Runtime_error ''control channel time source returned a negative value''), c') else (Inr result, c'))"

definition capabilities :: "NetworkControlChannel \<Rightarrow> DeviceId \<Rightarrow> NegotiatedCapabilities" where
  "capabilities c actor = (case map_of (ch_capabilities c) actor of None \<Rightarrow> no_capabilities | Some session \<Rightarrow> cap_negotiated session)"

section \<open>Frames\<close>

definition error_response :: "32 word \<Rightarrow> Frame" where
  "error_response rid = \<lparr>frame_type = MT_error, request_id = rid, payload = []\<rparr>"

definition is_network_request :: "MessageType \<Rightarrow> bool" where
  "is_network_request type \<longleftrightarrow> type \<in> {MT_network_management_request, MT_user_access_request, MT_peer_candidates_send,
     MT_network_create_request, MT_network_list_request, MT_network_join_request, MT_network_leave_request,
     MT_network_invite_request, MT_network_approve_request, MT_network_kick_request, MT_network_peer_state_request,
     MT_network_key_publish_request}"

definition routed_frame :: "DeviceId \<Rightarrow> MessageType \<Rightarrow> bytes \<Rightarrow> RoutedControlFrame" where
  "routed_frame recipient type data =
     \<lparr>control_recipient = recipient, control_frame = \<lparr>frame_type = type, request_id = 0, payload = data\<rparr>\<rparr>"

definition encode_events :: "RoutedNetworkEvent list \<Rightarrow> RoutedControlFrame list res" where
  "encode_events events = res_map (\<lambda>routed. res_bind (encode_network_event (event_body routed)) (\<lambda>data.
     Inr (routed_frame (event_recipient routed) MT_network_event data))) events"

definition encode_peer_change :: "NetworkControlChannel \<Rightarrow> RoutedPeerStateChange \<Rightarrow> RoutedControlFrame res" where
  "encode_peer_change c change =
     (case change_state change of
        Some state \<Rightarrow>
          if state_policy state = None \<or> supports (capabilities c (change_recipient change)) Cap_managed_networks
          then res_bind (encode_network_peer_state state) (\<lambda>data.
            Inr (routed_frame (change_recipient change) MT_network_peer_state_update data))
          else res_bind (encode_network_peer_revocation \<lparr>revoked_network = state_network state, revoked_revision = state_revision state\<rparr>)
            (\<lambda>data. Inr (routed_frame (change_recipient change) MT_network_peer_state_revoked data))
      | None \<Rightarrow> res_bind (encode_network_peer_revocation (change_revocation change)) (\<lambda>data.
          Inr (routed_frame (change_recipient change) MT_network_peer_state_revoked data)))"

definition encode_peer_changes :: "RoutedPeerStateChange list \<Rightarrow> RoutedControlFrame list ctl" where
  "encode_peer_changes changes = cbind (cquery id) (\<lambda>c. clift (res_map (encode_peer_change c) changes))"

definition answer_frame :: "MessageType \<Rightarrow> 32 word \<Rightarrow> bytes \<Rightarrow> Frame" where
  "answer_frame type rid data = \<lparr>frame_type = type, request_id = rid, payload = data\<rparr>"

definition dispatch :: "Frame \<Rightarrow> RoutedControlFrame list \<Rightarrow> ControlDispatch ctl" where
  "dispatch response events = clift (Inr \<lparr>dispatch_response = response, dispatch_events = events\<rparr>)"

definition operation_response :: "32 word \<Rightarrow> NetworkOperationOutcome \<Rightarrow> ControlDispatch ctl" where
  "operation_response rid outcome =
     cbind (clift (encode_network_operation_result (outcome_result outcome))) (\<lambda>data.
     cbind (clift (encode_events (outcome_events outcome))) (\<lambda>events.
     cbind (encode_peer_changes (outcome_changes outcome)) (\<lambda>peer_changes.
     dispatch (answer_frame MT_network_operation_result rid data) (events @ peer_changes))))"

definition peer_state_response :: "32 word \<Rightarrow> NetworkId \<Rightarrow> NetworkPeerStateOutcome \<Rightarrow> bool \<Rightarrow> ControlDispatch ctl" where
  "peer_state_response rid n outcome managed_capable =
     (let hidden = (case peer_outcome_state outcome of None \<Rightarrow> False | Some state \<Rightarrow> state_policy state \<noteq> None \<and> \<not> managed_capable);
          state = (if hidden then None else peer_outcome_state outcome);
          code = (if hidden then RC_permission_denied else peer_outcome_code outcome) in
      case state of
        Some st \<Rightarrow>
          if code = RC_success
          then cbind (clift (encode_network_peer_state st)) (\<lambda>data. dispatch (answer_frame MT_network_peer_state_result rid data) [])
          else cbind (clift (encode_network_operation_result \<lparr>result_operation = Op_peer_state, result_code = code, result_network = n\<rparr>))
            (\<lambda>data. dispatch (answer_frame MT_network_operation_result rid data) [])
      | None \<Rightarrow> cbind (clift (encode_network_operation_result \<lparr>result_operation = Op_peer_state, result_code = code, result_network = n\<rparr>))
          (\<lambda>data. dispatch (answer_frame MT_network_operation_result rid data) []))"

definition list_response :: "32 word \<Rightarrow> NetworkListOutcome \<Rightarrow> ControlDispatch ctl" where
  "list_response rid outcome =
     (if list_outcome_code outcome = RC_success
      then cbind (clift (encode_network_list_result (list_outcome_result outcome))) (\<lambda>data.
        dispatch (answer_frame MT_network_list_result rid data) [])
      else cbind (clift (encode_network_operation_result \<lparr>result_operation = Op_list, result_code = list_outcome_code outcome,
          result_network = replicate 16 0\<rparr>)) (\<lambda>data.
        dispatch (answer_frame MT_network_operation_result rid data) []))"

definition key_publish_response :: "NetworkKeyPublishOutcome \<Rightarrow> ControlDispatch ctl" where
  "key_publish_response outcome =
     cbind (clift (encode_network_operation_result \<lparr>result_operation = Op_key_publish, result_code = publish_code outcome,
       result_network = publish_network outcome\<rparr>)) (\<lambda>data.
     if publish_code outcome = RC_success
     then cbind (clift (res_map (\<lambda>e. res_bind (encode_network_key_envelope e) (\<lambda>d.
         Inr (routed_frame (env_recipient e) MT_network_key_envelope d))) (publish_envelopes outcome))) (\<lambda>events.
       dispatch (answer_frame MT_network_operation_result 0 data) events)
     else dispatch (answer_frame MT_network_operation_result 0 data) [])"

section \<open>Connections\<close>

definition note_connected :: "(nat \<Rightarrow> int) \<Rightarrow> DeviceId \<Rightarrow> unit ctl" where
  "note_connected clock actor =
     cbind (channel_now_ms clock) (\<lambda>now. cbind (call (record_authenticated_device actor now)) (\<lambda>_.
     cmodify (\<lambda>c. c\<lparr>ch_capabilities := upsert_row actor no_session (ch_capabilities c)\<rparr>)))"

definition note_authenticated :: "Environment \<Rightarrow> (nat \<Rightarrow> int) \<Rightarrow> DeviceId \<Rightarrow> bytes \<Rightarrow> SignedDeviceKey \<Rightarrow> RoutedControlFrame list ctl" where
  "note_authenticated env clock actor session signed_key =
     cbind (cmodify (\<lambda>c. c\<lparr>ch_capabilities := upsert_row actor (no_session\<lparr>cap_session := session\<rparr>) (ch_capabilities c)\<rparr>)) (\<lambda>_.
     cbind (call (set_management_capable actor False)) (\<lambda>_.
     cbind (channel_now_ms clock) (\<lambda>now.
     cbind (call (publish_device_key env actor session signed_key now)) encode_peer_changes)))"

definition note_disconnected :: "DeviceId \<Rightarrow> bytes \<Rightarrow> RoutedControlFrame list ctl" where
  "note_disconnected actor session =
     cbind (cmodify (\<lambda>c. case map_of (ch_capabilities c) actor of
         None \<Rightarrow> c
       | Some entry \<Rightarrow> if cap_session entry = session
           then c\<lparr>ch_capabilities := filter (\<lambda>e. fst e \<noteq> actor) (ch_capabilities c)\<rparr> else c)) (\<lambda>_.
     cbind (call (remove_device_key actor session)) encode_peer_changes)"

definition initial_peer_states :: "DeviceId \<Rightarrow> RoutedControlFrame list ctl" where
  "initial_peer_states actor = cbind (call (peer_states_for_device actor)) encode_peer_changes"

section \<open>Requests\<close>

definition refused_frame :: "Frame \<Rightarrow> ControlDispatch ctl" where
  "refused_frame request = dispatch (error_response (request_id request)) []"

definition handle_management :: "Environment \<Rightarrow> (nat \<Rightarrow> int) \<Rightarrow> DeviceId \<Rightarrow> Frame \<Rightarrow> ControlDispatch ctl" where
  "handle_management env clock actor request =
     cbind (cquery (\<lambda>c. capabilities c actor)) (\<lambda>agreed.
     if \<not> supports agreed Cap_managed_networks then refused_frame request
     else cbind (clift (decode_management_request (payload request))) (\<lambda>management.
       cbind (channel_now_ms clock) (\<lambda>now.
       cbind (call (service_manage_network env actor management now)) (\<lambda>(result, changes).
       cbind (clift (encode_management_result result)) (\<lambda>data.
       cbind (encode_peer_changes changes) (\<lambda>events.
       dispatch (answer_frame MT_network_management_result (request_id request) data) events))))))"

definition required_capability :: "AccessAction \<Rightarrow> Capability" where
  "required_capability action =
     (if access_action_raw action \<ge> access_action_raw AA_invite_issue \<and> access_action_raw action \<le> access_action_raw AA_invite_revoke
      then Cap_invitation_codes
      else if access_action_raw action \<ge> access_action_raw AA_password_set then Cap_password_networks
      else Cap_user_accounts)"

definition handle_access :: "Environment \<Rightarrow> (nat \<Rightarrow> int) \<Rightarrow> DeviceId \<Rightarrow> Frame \<Rightarrow> ControlDispatch ctl" where
  "handle_access env clock actor request =
     cbind (clift (decode_access_request (payload request))) (\<lambda>access.
     cbind (cquery (\<lambda>c. capabilities c actor)) (\<lambda>agreed.
     if \<not> supports agreed (required_capability (request_action access)) then refused_frame request
     else cbind (channel_now_ms clock) (\<lambda>now.
       cbind (call (access_request env actor access now)) (\<lambda>(result, changes, network_events).
       cbind (encode_peer_changes changes) (\<lambda>events.
       cbind (clift (encode_events network_events)) (\<lambda>notifications.
       cbind (clift (encode_access_result result)) (\<lambda>data.
       dispatch (answer_frame MT_user_access_result (request_id request) data) (events @ notifications))))))))"

definition exchanges_candidates :: "CapabilitySession \<Rightarrow> bool" where
  "exchanges_candidates session \<longleftrightarrow> supports (cap_negotiated session) Cap_peer_candidates \<and>
     supports (cap_negotiated session) Cap_candidate_generations"

definition stale_generation :: "((NetworkId \<times> DeviceId) \<times> 64 word) list \<Rightarrow> CandidateExchange \<Rightarrow> bool" where
  "stale_generation generations x =
     (case map_of generations (exchange_network x, exchange_recipient x) of
        None \<Rightarrow> length generations \<ge> 128
      | Some previous \<Rightarrow> previous \<ge> exchange_generation x)"

definition handle_candidates :: "DeviceId \<Rightarrow> Frame \<Rightarrow> ControlDispatch ctl" where
  "handle_candidates actor request =
     cbind (clift (decode_candidates (payload request))) (\<lambda>x.
     cbind (call (squery (authorize_peer_exchange actor x))) (\<lambda>authorized.
     if \<not> authorized then refused_frame request
     else cbind (cquery ch_capabilities) (\<lambda>sessions.
       case (map_of sessions actor, map_of sessions (exchange_recipient x)) of
         (Some a, Some b) \<Rightarrow>
           if \<not> exchanges_candidates a \<or> \<not> exchanges_candidates b \<or> stale_generation (cap_generations a) x then refused_frame request
           else cbind (cmodify (\<lambda>c. c\<lparr>ch_capabilities := upsert_row actor (a\<lparr>cap_generations :=
                 upsert_row (exchange_network x, exchange_recipient x) (exchange_generation x) (cap_generations a)\<rparr>) sessions\<rparr>)) (\<lambda>_.
             dispatch (answer_frame MT_peer_candidates_ack (request_id request) [])
               [routed_frame (exchange_recipient x) MT_peer_candidates_forward (payload request)])
       | _ \<Rightarrow> refused_frame request)))"

definition handle_capability_offer :: "DeviceId \<Rightarrow> Frame \<Rightarrow> ControlDispatch ctl" where
  "handle_capability_offer actor request =
     cbind (clift (decode_capability_offer (payload request))) (\<lambda>offer.
     cbind (clift (negotiate_capabilities default_offer offer)) (\<lambda>negotiated.
     cbind (cquery ch_capabilities) (\<lambda>sessions.
     case map_of sessions actor of
       None \<Rightarrow> refused_frame request
     | Some session \<Rightarrow>
         cbind (cmodify (\<lambda>c. c\<lparr>ch_capabilities := upsert_row actor (session\<lparr>cap_negotiated := negotiated\<rparr>) sessions\<rparr>)) (\<lambda>_.
         cbind (call (set_management_capable actor (supports negotiated Cap_managed_networks))) (\<lambda>changes.
         cbind (clift (encode_capability_selection negotiated)) (\<lambda>data.
         cbind (encode_peer_changes changes) (\<lambda>events.
         dispatch (answer_frame MT_network_list_result (request_id request) data) events)))))))"

text \<open>The requests on networks: decode, read the clock, call the service, encode its outcome.\<close>

definition handle_operation :: "(nat \<Rightarrow> int) \<Rightarrow> (bytes \<Rightarrow> 'r res) \<Rightarrow> ('r \<Rightarrow> int \<Rightarrow> NetworkOperationOutcome svc) \<Rightarrow> Frame \<Rightarrow> ControlDispatch ctl" where
  "handle_operation clock decode method request =
     cbind (clift (decode (payload request))) (\<lambda>r. cbind (channel_now_ms clock) (\<lambda>now.
     cbind (call (method r now)) (operation_response (request_id request))))"

definition handle_list :: "(nat \<Rightarrow> int) \<Rightarrow> DeviceId \<Rightarrow> Frame \<Rightarrow> ControlDispatch ctl" where
  "handle_list clock actor request =
     cbind (clift (decode_network_list_request (payload request))) (\<lambda>_. cbind (channel_now_ms clock) (\<lambda>now.
     cbind (call (service_list_networks actor now)) (list_response (request_id request))))"

definition handle_peer_state :: "(nat \<Rightarrow> int) \<Rightarrow> DeviceId \<Rightarrow> Frame \<Rightarrow> ControlDispatch ctl" where
  "handle_peer_state clock actor request =
     cbind (clift (decode_network_selection_request (payload request))) (\<lambda>selection. cbind (channel_now_ms clock) (\<lambda>now.
     cbind (call (peer_state actor selection now)) (\<lambda>outcome.
     cbind (cquery (\<lambda>c. supports (capabilities c actor) Cap_managed_networks)) (\<lambda>capable.
     peer_state_response (request_id request) (selection_network selection) outcome capable))))"

definition handle_key_publish :: "Environment \<Rightarrow> DeviceId \<Rightarrow> Frame \<Rightarrow> ControlDispatch ctl" where
  "handle_key_publish env actor request =
     cbind (clift (decode_network_key_publish_request (payload request))) (\<lambda>publication.
     cbind (call (publish_network_keys env actor publication)) key_publish_response)"

definition handle_request :: "Environment \<Rightarrow> (nat \<Rightarrow> int) \<Rightarrow> DeviceId \<Rightarrow> Frame \<Rightarrow> ControlDispatch ctl" where
  "handle_request env clock actor request =
     cbind (cquery (\<lambda>c. device_allowed (ch_service c) actor)) (\<lambda>allowed.
     if \<not> allowed then refused_frame request
     else if frame_type request = MT_network_management_request then handle_management env clock actor request
     else if frame_type request = MT_user_access_request then handle_access env clock actor request
     else if frame_type request = MT_peer_candidates_send then handle_candidates actor request
     else if frame_type request = MT_network_list_request \<and> is_capability_payload (payload request)
       then handle_capability_offer actor request
     else case frame_type request of
       MT_network_create_request \<Rightarrow> handle_operation clock decode_network_create_request (service_create_network env actor) request
     | MT_network_list_request \<Rightarrow> handle_list clock actor request
     | MT_network_join_request \<Rightarrow> handle_operation clock decode_network_selection_request (join_network env actor) request
     | MT_network_leave_request \<Rightarrow> handle_operation clock decode_network_selection_request (leave_network env actor) request
     | MT_network_invite_request \<Rightarrow> handle_operation clock decode_network_member_request (invite_member env actor) request
     | MT_network_approve_request \<Rightarrow> handle_operation clock decode_network_member_request (approve_member env actor) request
     | MT_network_kick_request \<Rightarrow> handle_operation clock decode_network_member_request (kick_member env actor) request
     | MT_network_peer_state_request \<Rightarrow> handle_peer_state clock actor request
     | MT_network_key_publish_request \<Rightarrow> handle_key_publish env actor request
     | _ \<Rightarrow> cthrow (Runtime_error ''unexpected frame on authenticated control channel''))"

text \<open>\<open>catch\<close> of \<open>invalid_argument\<close>, \<open>length_error\<close> and \<open>runtime_error\<close>, of which \<open>overflow_error\<close> is one.\<close>

fun caught :: "exn \<Rightarrow> bool" where
  "caught (Logic_error _) = False"
| "caught _ = True"

definition catch_errors :: "Frame \<Rightarrow> ControlDispatch ctl \<Rightarrow> ControlDispatch ctl" where
  "catch_errors request m c =
     (case m c of (Inl e, c') \<Rightarrow> if caught e then refused_frame request c' else (Inl e, c') | (Inr d, c') \<Rightarrow> (Inr d, c'))"

definition handle_authenticated :: "Environment \<Rightarrow> (nat \<Rightarrow> int) \<Rightarrow> DeviceId \<Rightarrow> Frame \<Rightarrow> ControlDispatch ctl" where
  "handle_authenticated env clock actor request =
     (if is_zero actor then cthrow (Invalid_argument ''control request requires an authenticated device'')
      else if request_id request = 0 \<and> frame_type request \<noteq> MT_network_key_publish_request \<and>
        frame_type request \<noteq> MT_peer_candidates_send
      then cthrow (Invalid_argument ''control request id must be non-zero'')
      else if frame_type request = MT_network_key_publish_request \<and> request_id request \<noteq> 0
      then cthrow (Invalid_argument ''network key publication must be asynchronous'')
      else if \<not> is_network_request (frame_type request)
      then cthrow (Runtime_error ''unexpected frame on authenticated control channel'')
      else cbind (call (admit_control env actor)) (\<lambda>ok.
        if \<not> ok then refused_frame request
        else catch_errors request (handle_request env clock actor request)))"

definition channel_route_packet :: "Environment \<Rightarrow> DeviceId \<Rightarrow> bytes \<Rightarrow> RoutedEncryptedPacket list ctl" where
  "channel_route_packet env actor data =
     cbind (clift (decode_encrypted_network_packet data)) (\<lambda>packet. call (route_encrypted_packet env actor packet))"

end
