(* ===== verification/Control_Safety.thy ===== *)
theory Control_Safety
  imports Control_Channel Routing_Safety
begin

text \<open>
  What the relay's dispatcher guarantees: requests act on the service only through its methods and are
  answered under their own id, and the candidate exchanges that it forwards only move forward.
\<close>

section \<open>Relations kept by every request\<close>

locale channel_relation =
  fixes R :: "NetworkControlChannel \<Rightarrow> NetworkControlChannel \<Rightarrow> bool"
  assumes R_refl: "R c c"
    and R_trans: "R a b \<Longrightarrow> R b c \<Longrightarrow> R a c"
    and R_ticks: "R c (c\<lparr>ch_ticks := i\<rparr>)"
begin

definition holds :: "'x ctl \<Rightarrow> bool" where
  "holds m \<longleftrightarrow> (\<forall>c. R c (snd (m c)))"

lemma holdsI: "(\<And>c. R c (snd (m c))) \<Longrightarrow> holds m"
  by (simp add: holds_def)

lemma holdsD: "holds m \<Longrightarrow> m c = (r, c') \<Longrightarrow> R c c'"
  unfolding holds_def by (metis snd_conv)

lemma holds_snd: "holds m \<Longrightarrow> R c (snd (m c))"
  by (simp add: holds_def)

lemma holds_bind_result:
  assumes "holds m" and "\<And>c x c'. m c = (Inr x, c') \<Longrightarrow> R c' (snd (f x c'))"
  shows "holds (cbind m f)"
proof (rule holdsI)
  fix c
  obtain r c' where m: "m c = (r, c')" by (cases "m c")
  have "R c c'" using holdsD [OF assms(1) m] .
  then show "R c (snd (cbind m f c))"
    using m assms(2) [of c] by (cases r) (auto simp: cbind_def intro: R_trans)
qed

lemma holds_bind: "holds m \<Longrightarrow> (\<And>x. holds (f x)) \<Longrightarrow> holds (cbind m f)"
  by (rule holds_bind_result) (simp_all add: holds_def)

lemma holds_pure:
  "holds (cthrow e)" "holds (clift r)" "holds (cquery q)" "holds (dispatch fr evs)" "holds (refused_frame request)"
  "holds (channel_now_ms clock)"
  by (auto simp: holds_def cthrow_def clift_def cquery_def dispatch_def refused_frame_def channel_now_ms_def Let_def
      intro: R_refl R_ticks)

lemma holds_branches:
  "holds a \<Longrightarrow> holds b \<Longrightarrow> holds (if cond then a else b)"
  "holds a \<Longrightarrow> (\<And>y. holds (g y)) \<Longrightarrow> holds (case x of None \<Rightarrow> a | Some y \<Rightarrow> g y)"
  "(\<And>y z. holds (h y z)) \<Longrightarrow> holds (case p of (y, z) \<Rightarrow> h y z)"
  by (auto split: option.splits prod.splits)

lemma holds_encode: "holds (encode_peer_changes changes)"
  unfolding encode_peer_changes_def by (intro holds_bind holds_pure)

lemmas holds_intros = holds_bind holds_pure holds_branches holds_encode

lemma holds_responses:
  "holds (operation_response rid outcome)" "holds (peer_state_response rid n peer_outcome capable)"
  "holds (list_response rid list_result)" "holds (key_publish_response publication)"
  unfolding operation_response_def peer_state_response_def list_response_def key_publish_response_def Let_def
  by (intro holds_intros)+

lemma holds_operation:
  assumes "\<And>r now. holds (call (method r now))"
  shows "holds (handle_operation clock decode method request)"
  unfolding handle_operation_def by (intro holds_intros holds_responses assms)

lemma holds_catch: "holds m \<Longrightarrow> holds (catch_errors request m)"
  unfolding holds_def catch_errors_def refused_frame_def dispatch_def clift_def
  by (auto split: prod.splits sum.splits) (metis snd_conv)+

lemma holds_authenticated:
  assumes "holds (call (admit_control env actor))" and "holds (handle_request env clock actor request)"
  shows "holds (handle_authenticated env clock actor request)"
  unfolding handle_authenticated_def by (intro holds_intros holds_catch assms)

end

section \<open>The service is moved by its methods\<close>

interpretation moved: channel_relation "\<lambda>c c'. (service_step env)\<^sup>*\<^sup>* (ch_service c) (ch_service c')" for env
  by unfold_locales auto

abbreviation moves :: "Environment \<Rightarrow> 'x ctl \<Rightarrow> bool" where
  "moves env m \<equiv> moved.holds env m"

lemma moves_call: "(\<And>s. service_step env s (snd (m s))) \<Longrightarrow> moves env (call m)"
  by (rule moved.holdsI) (simp add: call_def split_beta r_into_rtranclp)

lemma moves_unchanged: "(\<And>s. snd (m s) = s) \<Longrightarrow> moves env (call m)"
  by (rule moved.holdsI) (simp add: call_def split_beta)

lemma moves_modify: "(\<And>c. ch_service (g c) = ch_service c) \<Longrightarrow> moves env (cmodify g)"
  by (rule moved.holdsI) (simp add: cmodify_def)

lemma moves_service_methods:
  "moves env (call (service_create_network env actor creation now_ms))" "moves env (call (service_list_networks actor now_ms))"
  "moves env (call (join_network env actor selection now_ms))" "moves env (call (leave_network env actor selection now_ms))"
  "moves env (call (invite_member env actor target now_ms))" "moves env (call (approve_member env actor target now_ms))"
  "moves env (call (kick_member env actor target now_ms))" "moves env (call (set_management_capable actor capable))"
  "moves env (call (peer_state actor selection now_ms))" "moves env (call (publish_network_keys env actor publication))"
  "moves env (call (admit_control env actor))" "moves env (call (access_request env actor access now_ms))"
  "moves env (call (squery q))"
  by (rule moves_call, rule service_step.intros)+ (rule moves_unchanged, simp add: squery_def)

lemma moves_management:
  assumes "length actor = 32"
  shows "moves env (handle_management env clock actor request)"
proof -
  have calls: "moves env (call (service_manage_network env actor management now_ms))"
    if "decode_management_request (payload request) = Inr management" for management now_ms
  proof (rule moves_call, rule step_service_manage [OF _ assms])
    show "policy_typed (manage_policy management)"
      using that by (auto dest: management_request_codec.dec_enc simp: management_request_typed_def)
  qed
  have run: "moves env (cbind (clift (decode_management_request (payload request))) (\<lambda>management. cbind (channel_now_ms clock) (\<lambda>now.
      cbind (call (service_manage_network env actor management now)) (rest management now))))"
    if "\<And>management now x. moves env (rest management now x)" for rest
  proof (rule moved.holds_bind_result [OF moved.holds_pure(2)], rule moved.holds_snd)
    fix c management c' assume "clift (decode_management_request (payload request)) c = (Inr management, c')"
    then have "decode_management_request (payload request) = Inr management" by (simp add: clift_def)
    then show "moves env (cbind (channel_now_ms clock) (\<lambda>now.
        cbind (call (service_manage_network env actor management now)) (rest management now)))"
      by (intro moved.holds_bind moved.holds_pure(6) that calls)
  qed
  show ?thesis
    unfolding handle_management_def
    by (rule moved.holds_bind [OF moved.holds_pure(3)], rule moved.holds_branches(1), rule moved.holds_pure(5), rule run) (intro moved.holds_intros)
qed

lemma moves_requests:
  "moves env (handle_access env clock actor request)" "moves env (handle_candidates actor request)"
  "moves env (handle_capability_offer actor request)" "moves env (handle_list clock actor request)"
  "moves env (handle_peer_state clock actor request)" "moves env (handle_key_publish env actor request)"
  unfolding handle_access_def handle_candidates_def handle_capability_offer_def handle_list_def handle_peer_state_def
    handle_key_publish_def
  by (intro moved.holds_intros moved.holds_responses moves_service_methods moves_modify; simp)+

lemma moves_handle_request: "length actor = 32 \<Longrightarrow> moves env (handle_request env clock actor request)"
  unfolding handle_request_def
  by (cases "frame_type request")
    (simp_all add: moved.holds_intros moved.holds_operation moves_service_methods moves_requests moves_management)

lemma moves_handle_authenticated: "length actor = 32 \<Longrightarrow> moves env (handle_authenticated env clock actor request)"
  by (intro moved.holds_authenticated moves_service_methods moves_handle_request)

section \<open>Requests are answered under their own id\<close>

definition notices :: "RoutedControlFrame list \<Rightarrow> bool" where
  "notices events \<longleftrightarrow> list_all (\<lambda>e. request_id (control_frame e) = 0) events"

definition answers :: "32 word \<Rightarrow> ControlDispatch ctl \<Rightarrow> bool" where
  "answers rid m \<longleftrightarrow> (\<forall>c d c'. m c = (Inr d, c') \<longrightarrow> request_id (dispatch_response d) = rid \<and> notices (dispatch_events d))"

lemma answers_bind:
  assumes "\<And>c x c'. m c = (Inr x, c') \<Longrightarrow> answers rid (f x)"
  shows "answers rid (cbind m f)"
  using assms unfolding answers_def by (fastforce simp: cbind_def split: prod.splits sum.splits)

lemma answers_ends:
  "request_id fr = rid \<Longrightarrow> notices evs \<Longrightarrow> answers rid (dispatch fr evs)"
  "answers rid (cthrow e)" "request_id request = rid \<Longrightarrow> answers rid (refused_frame request)"
  by (simp_all add: answers_def dispatch_def clift_def cthrow_def refused_frame_def error_response_def notices_def)

lemma answers_branches:
  "answers rid a \<Longrightarrow> answers rid b \<Longrightarrow> answers rid (if cond then a else b)"
  "answers rid a \<Longrightarrow> (\<And>y. answers rid (g y)) \<Longrightarrow> answers rid (case x of None \<Rightarrow> a | Some y \<Rightarrow> g y)"
  "(\<And>y z. answers rid (h y z)) \<Longrightarrow> answers rid (case p of (y, z) \<Rightarrow> h y z)"
  by (auto split: option.splits prod.splits)

lemma notices_res_map:
  "res_map f xs = Inr events \<Longrightarrow> (\<And>x e. f x = Inr e \<Longrightarrow> request_id (control_frame e) = 0) \<Longrightarrow> notices events"
  by (induction xs arbitrary: events) (auto simp: notices_def res_bind_Inr_iff)

lemma notices_encode_events: "encode_events events = Inr frames \<Longrightarrow> notices frames"
  unfolding encode_events_def by (erule notices_res_map) (auto simp: res_bind_Inr_iff routed_frame_def)

lemma notices_encode_changes: "encode_peer_changes changes c = (Inr frames, c') \<Longrightarrow> notices frames"
  by (auto simp: encode_peer_changes_def cbind_def cquery_def clift_def encode_peer_change_def res_bind_Inr_iff routed_frame_def
      elim!: notices_res_map split: option.splits if_splits)

lemma notices_append [simp]: "notices (a @ b) \<longleftrightarrow> notices a \<and> notices b" "notices []"
  by (simp_all add: notices_def)

lemma clift_Inr [simp]: "clift r c = (Inr x, c') \<longleftrightarrow> r = Inr x \<and> c' = c"
  by (auto simp: clift_def)

lemma answer_frame_id [simp]: "request_id (answer_frame type rid data) = rid"
  by (simp add: answer_frame_def)

lemmas answers_intros = answers_bind answers_ends answers_branches

lemma answers_responses:
  "answers rid (operation_response rid outcome)" "answers rid (peer_state_response rid n peer_outcome capable)"
  "answers rid (list_response rid list_result)" "answers 0 (key_publish_response publication)"
proof -
  show "answers rid (operation_response rid outcome)"
    unfolding operation_response_def
    by (intro answers_bind answers_ends(1)) (auto dest: notices_encode_events notices_encode_changes)
  show "answers rid (peer_state_response rid n peer_outcome capable)" "answers rid (list_response rid list_result)"
    unfolding peer_state_response_def list_response_def Let_def
    by (intro answers_intros; simp)+
  show "answers 0 (key_publish_response publication)"
    unfolding key_publish_response_def
    by (intro answers_intros) (auto elim!: notices_res_map simp: res_bind_Inr_iff routed_frame_def)
qed

lemma answers_requests:
  "answers (request_id request) (handle_management env clock actor request)"
  "answers (request_id request) (handle_access env clock actor request)"
  "answers (request_id request) (handle_candidates actor request)"
  "answers (request_id request) (handle_capability_offer actor request)"
  "answers (request_id request) (handle_list clock actor request)"
  "answers (request_id request) (handle_peer_state clock actor request)"
  "answers (request_id request) (handle_operation clock decode method request)"
  "answers 0 (handle_key_publish env actor request)"
  unfolding handle_management_def handle_access_def handle_candidates_def handle_capability_offer_def handle_list_def
    handle_peer_state_def handle_operation_def handle_key_publish_def
  by (intro answers_intros answers_responses;
      auto simp: routed_frame_def notices_def [of "[_]"] dest: notices_encode_events notices_encode_changes)+

lemma answers_catch: "answers (request_id request) m \<Longrightarrow> answers (request_id request) (catch_errors request m)"
  using answers_ends(3) [of request "request_id request"] unfolding answers_def
  by (fastforce simp: catch_errors_def split: prod.splits sum.splits if_splits)

lemma answers_handle_request:
  assumes "frame_type request = MT_network_key_publish_request \<longrightarrow> request_id request = 0"
  shows "answers (request_id request) (handle_request env clock actor request)"
  using assms answers_requests(8) [of env actor request] unfolding handle_request_def
  by (cases "frame_type request") (simp_all add: answers_intros answers_requests)

text \<open>
  C16. A request of an authenticated device on the control channel, with an id where one is needed, acts
  on the service only through its methods and is answered: under the id of the request, with notices
  for other members under id 0. An exception leaves the channel only when it is a \<open>logic_error\<close>;
  every other one becomes an answer.
\<close>

theorem requests_are_answered:
  assumes "length actor = 32" and "\<not> is_zero actor" and "is_network_request (frame_type request)"
    and "request_id request = 0 \<longrightarrow> frame_type request \<in> {MT_network_key_publish_request, MT_peer_candidates_send}"
    and "frame_type request = MT_network_key_publish_request \<longrightarrow> request_id request = 0"
    and "handle_authenticated env clock actor request c = (r, c')"
  shows "(service_step env)\<^sup>*\<^sup>* (ch_service c) (ch_service c') \<and>
    (case r of
       Inl e \<Rightarrow> \<not> caught e
     | Inr d \<Rightarrow> request_id (dispatch_response d) = request_id request \<and>
         list_all (\<lambda>e. request_id (control_frame e) = 0) (dispatch_events d))"
proof
  show "(service_step env)\<^sup>*\<^sup>* (ch_service c) (ch_service c')"
    by (rule moved.holdsD [OF moves_handle_authenticated [OF assms(1)] assms(6)])
  obtain ok c1 where admit: "call (admit_control env actor) c = (Inr ok, c1)"
    by (simp add: call_def admit_control_def sbind_def time_source_def split_beta)
  then have run: "(if \<not> ok then refused_frame request else catch_errors request (handle_request env clock actor request)) c1 = (r, c')"
    using assms(2-6) by (auto simp: handle_authenticated_def cbind_def)
  have answered: "answers (request_id request) (if \<not> ok then refused_frame request else catch_errors request (handle_request env clock actor request))"
    using assms(5) by (intro answers_branches answers_ends(3) answers_catch answers_handle_request refl)
  show "case r of Inl e \<Rightarrow> \<not> caught e
    | Inr d \<Rightarrow> request_id (dispatch_response d) = request_id request \<and> list_all (\<lambda>e. request_id (control_frame e) = 0) (dispatch_events d)"
  proof (cases r)
    case (Inl e)
    then show ?thesis
      using run by (auto simp: catch_errors_def refused_frame_def dispatch_def clift_def split: prod.splits sum.splits if_splits)
  next
    case (Inr d)
    with run answered have "request_id (dispatch_response d) = request_id request \<and> notices (dispatch_events d)"
      unfolding answers_def by blast
    then show ?thesis by (simp add: Inr notices_def)
  qed
qed

section \<open>Candidate generations\<close>

definition generation_of :: "NetworkControlChannel \<Rightarrow> DeviceId \<Rightarrow> NetworkId \<Rightarrow> DeviceId \<Rightarrow> 64 word option" where
  "generation_of c sender n recipient =
     Option.bind (map_of (ch_capabilities c) sender) (\<lambda>session. map_of (cap_generations session) (n, recipient))"

definition forward :: "NetworkControlChannel \<Rightarrow> NetworkControlChannel \<Rightarrow> bool" where
  "forward c c' \<longleftrightarrow> (\<forall>d n p g. generation_of c d n p = Some g \<longrightarrow> (\<exists>g'. generation_of c' d n p = Some g' \<and> g \<le> g'))"

lemma forward_trans: "forward a b \<Longrightarrow> forward b c \<Longrightarrow> forward a c"
  unfolding forward_def by (meson order_trans)

lemma forward_same: "ch_capabilities c' = ch_capabilities c \<Longrightarrow> forward c c'"
  by (simp add: forward_def generation_of_def)

interpretation advanced: channel_relation forward
  by unfold_locales (auto intro: forward_same forward_trans)

lemma advances_call: "advanced.holds (call m)"
  by (rule advanced.holdsI) (auto simp: call_def split_beta intro: forward_same)

lemmas advances_intros = advanced.holds_intros advanced.holds_responses advanced.holds_operation advances_call

lemma advances_plain_requests:
  "advanced.holds (handle_management env clock actor request)" "advanced.holds (handle_access env clock actor request)"
  "advanced.holds (handle_list clock actor request)" "advanced.holds (handle_peer_state clock actor request)"
  "advanced.holds (handle_key_publish env actor request)"
  unfolding handle_management_def handle_access_def handle_list_def handle_peer_state_def handle_key_publish_def
  by (intro advances_intros)+

lemma forward_session:
  assumes "map_of (ch_capabilities c) actor = Some a"
    and "\<And>k g. map_of (cap_generations a) k = Some g \<Longrightarrow> \<exists>g'. map_of (cap_generations b) k = Some g' \<and> g \<le> g'"
  shows "forward c (c\<lparr>ch_capabilities := upsert_row actor b (ch_capabilities c)\<rparr>)"
  using assms by (auto simp: forward_def generation_of_def map_of_upsert_row)

lemma advances_offer: "advanced.holds (handle_capability_offer actor request)"
proof -
  have "forward c (snd (f c))" if "map_of (ch_capabilities c) actor = Some session"
    and "f = cbind (cmodify (\<lambda>c'. c'\<lparr>ch_capabilities := upsert_row actor (session\<lparr>cap_negotiated := v\<rparr>) (ch_capabilities c)\<rparr>)) rest"
    and "\<And>x. advanced.holds (rest x)" for c session v rest and f :: "ControlDispatch ctl"
  proof -
    let ?c = "c\<lparr>ch_capabilities := upsert_row actor (session\<lparr>cap_negotiated := v\<rparr>) (ch_capabilities c)\<rparr>"
    have "forward c ?c" using that(1) by (intro forward_session) auto
    moreover have "forward ?c (snd (rest () ?c))" using that(3) unfolding advanced.holds_def by blast
    ultimately show ?thesis unfolding that(2) by (auto simp: cbind_def cmodify_def intro: forward_trans)
  qed
  note session_update = this
  show ?thesis
    unfolding handle_capability_offer_def
  proof (rule advanced.holds_bind [OF advanced.holds_pure(2)], rule advanced.holds_bind [OF advanced.holds_pure(2)],
      rule advanced.holds_bind_result [OF advanced.holds_pure(3)], goal_cases)
    case (1 offer v c sessions c')
    then have "sessions = ch_capabilities c'" by (auto simp: cquery_def)
    then show ?case
      by (cases "map_of sessions actor") (simp_all add: advanced.holds_snd [OF advanced.holds_pure(5)],
        rule session_update [OF _ refl], simp, intro advances_intros)
  qed
qed

text \<open>What handling an exchange of candidates did.\<close>

lemma handle_candidates_cases:
  assumes "handle_candidates actor request c = (r, c')"
  obtains (refused) "c' = c" "\<forall>d. r = Inr d \<longrightarrow> frame_type (dispatch_response d) = MT_error"
    | (forwarded) x a b where "decode_candidates (payload request) = Inr x" "authorize_peer_exchange actor x (ch_service c) = Inr True"
      "map_of (ch_capabilities c) actor = Some a" "map_of (ch_capabilities c) (exchange_recipient x) = Some b"
      "exchanges_candidates a" "exchanges_candidates b" "\<not> stale_generation (cap_generations a) x"
      "c' = c\<lparr>ch_capabilities := upsert_row actor (a\<lparr>cap_generations :=
         upsert_row (exchange_network x, exchange_recipient x) (exchange_generation x) (cap_generations a)\<rparr>) (ch_capabilities c)\<rparr>"
      "r = Inr \<lparr>dispatch_response = answer_frame MT_peer_candidates_ack (request_id request) [],
         dispatch_events = [routed_frame (exchange_recipient x) MT_peer_candidates_forward (payload request)]\<rparr>"
proof (cases "decode_candidates (payload request)")
  case (Inl e)
  then show ?thesis using assms by (intro refused) (auto simp: handle_candidates_def cbind_def clift_def)
next
  case x: (Inr x)
  show ?thesis
  proof (cases "authorize_peer_exchange actor x (ch_service c) = Inr True")
    case False
    then show ?thesis
      using assms x by (intro refused) (auto simp: handle_candidates_def cbind_def clift_def call_def squery_def refused_frame_def
        dispatch_def error_response_def split: sum.splits)
  next
    case True
    note run = assms [unfolded handle_candidates_def]
    show ?thesis
    proof (cases "\<exists>a b. map_of (ch_capabilities c) actor = Some a \<and> map_of (ch_capabilities c) (exchange_recipient x) = Some b \<and>
        exchanges_candidates a \<and> exchanges_candidates b \<and> \<not> stale_generation (cap_generations a) x")
      case False
      then show ?thesis
        using run x True by (intro refused) (auto simp: cbind_def clift_def call_def squery_def cquery_def refused_frame_def
          dispatch_def error_response_def split: option.splits if_splits)
    next
      case go: True
      then obtain a b where ab: "map_of (ch_capabilities c) actor = Some a" "map_of (ch_capabilities c) (exchange_recipient x) = Some b"
        "exchanges_candidates a" "exchanges_candidates b" "\<not> stale_generation (cap_generations a) x" by blast
      show ?thesis
        by (rule forwarded [OF x True ab])
          (use run x True ab in \<open>auto simp: cbind_def clift_def call_def squery_def cquery_def cmodify_def dispatch_def\<close>)
    qed
  qed
qed

lemma forwarded_generation:
  assumes "\<not> stale_generation generations x"
  shows "map_of generations (exchange_network x, exchange_recipient x) = Some g \<Longrightarrow> g < exchange_generation x"
  using assms by (simp add: stale_generation_def not_le)

lemma advances_candidates: "advanced.holds (handle_candidates actor request)"
proof (rule advanced.holdsI)
  fix c
  obtain r c' where run: "handle_candidates actor request c = (r, c')" by (cases "handle_candidates actor request c")
  then have "forward c c'"
  proof (cases rule: handle_candidates_cases)
    case refused
    then show ?thesis by (simp add: forward_same)
  next
    case (forwarded x a b)
    show ?thesis unfolding forwarded(8)
      using forwarded_generation [OF forwarded(7)]
      by (intro forward_session [OF forwarded(3)]) (auto simp: map_of_upsert_row intro: less_imp_le)
  qed
  then show "forward c (snd (handle_candidates actor request c))" by (simp add: run)
qed

lemma advances_handle_request: "advanced.holds (handle_request env clock actor request)"
  unfolding handle_request_def
  by (cases "frame_type request")
    (simp_all add: advances_intros advances_plain_requests advances_candidates advances_offer)

definition rightly_forwarded :: "DeviceId \<Rightarrow> Frame \<Rightarrow> NetworkControlChannel \<Rightarrow> NetworkControlChannel \<Rightarrow> ControlDispatch \<Rightarrow>
    CandidateExchange \<Rightarrow> bool" where
  "rightly_forwarded actor request c c' d x \<longleftrightarrow>
     decode_candidates (payload request) = Inr x \<and> exchange_sender x = actor \<and>
     authorize_peer_exchange actor x (ch_service c') = Inr True \<and>
     supports (capabilities c actor) Cap_peer_candidates \<and> supports (capabilities c (exchange_recipient x)) Cap_peer_candidates \<and>
     (\<forall>g. generation_of c actor (exchange_network x) (exchange_recipient x) = Some g \<longrightarrow> g < exchange_generation x) \<and>
     generation_of c' actor (exchange_network x) (exchange_recipient x) = Some (exchange_generation x) \<and>
     dispatch_events d = [routed_frame (exchange_recipient x) MT_peer_candidates_forward (payload request)]"

lemma authenticated_candidates:
  assumes "handle_authenticated env clock actor request c = (Inr d, c')" and "frame_type request = MT_peer_candidates_send"
    and "frame_type (dispatch_response d) \<noteq> MT_error"
  obtains c1 where "call (admit_control env actor) c = (Inr True, c1)" "handle_candidates actor request c1 = (Inr d, c')"
  using assms by (auto simp: handle_authenticated_def handle_request_def cbind_def cthrow_def refused_frame_def dispatch_def
      error_response_def clift_def catch_errors_def cquery_def split: if_splits prod.splits sum.splits)

lemma admitted_capabilities: "call m c = (r, c1) \<Longrightarrow> ch_capabilities c1 = ch_capabilities c"
  by (auto simp: call_def split: prod.splits)

lemma authorized_sender: "authorize_peer_exchange actor x s = Inr True \<Longrightarrow> exchange_sender x = actor"
  by (auto simp: authorize_peer_exchange_def Let_def split: if_splits)

text \<open>
  C19. No request makes the generation of a candidate exchange go back, and an exchange is forwarded only
  for the device it names as its sender, to one that the sender may reach, when both have negotiated
  candidate exchange, and with a generation above the one forwarded last: what the recipient gets is
  the bytes sent, and it is the only frame sent.
\<close>

theorem candidate_generations_increase:
  assumes "handle_authenticated env clock actor request c = (r, c')"
  shows "(\<forall>d n p g. generation_of c d n p = Some g \<longrightarrow> (\<exists>g'. generation_of c' d n p = Some g' \<and> g \<le> g')) \<and>
    (\<forall>d. r = Inr d \<longrightarrow> frame_type request = MT_peer_candidates_send \<longrightarrow> frame_type (dispatch_response d) \<noteq> MT_error \<longrightarrow>
      (\<exists>x. rightly_forwarded actor request c c' d x))"
proof (intro conjI)
  show "\<forall>d n p g. generation_of c d n p = Some g \<longrightarrow> (\<exists>g'. generation_of c' d n p = Some g' \<and> g \<le> g')"
    using advanced.holdsD [OF advanced.holds_authenticated [OF advances_call advances_handle_request] assms]
    by (simp add: forward_def)
next
  show "\<forall>d. r = Inr d \<longrightarrow> frame_type request = MT_peer_candidates_send \<longrightarrow> frame_type (dispatch_response d) \<noteq> MT_error \<longrightarrow>
      (\<exists>x. rightly_forwarded actor request c c' d x)"
  proof (intro allI impI)
    fix d assume d: "r = Inr d" "frame_type request = MT_peer_candidates_send" "frame_type (dispatch_response d) \<noteq> MT_error"
    obtain c1 where c1: "call (admit_control env actor) c = (Inr True, c1)" and run: "handle_candidates actor request c1 = (Inr d, c')"
      by (rule authenticated_candidates [OF assms [unfolded d(1)] d(2,3)])
    note same = admitted_capabilities [OF c1]
    from run show "\<exists>x. rightly_forwarded actor request c c' d x"
    proof (cases rule: handle_candidates_cases)
      case refused
      then show ?thesis using d(3) by simp
    next
      case (forwarded x a b)
      show ?thesis
        using forwarded authorized_sender [OF forwarded(2)] forwarded_generation [OF forwarded(7)]
        by (intro exI [of _ x]) (auto simp: rightly_forwarded_def generation_of_def capabilities_def exchanges_candidates_def map_of_upsert_row same [symmetric])
    qed
  qed
qed

section \<open>A channel with two devices\<close>

definition demo_agreed :: CapabilitySession where
  "demo_agreed = no_session\<lparr>cap_negotiated := \<lparr>wire_version = protocol_version, negotiated_features = supported_capabilities, legacy = False\<rparr>\<rparr>"

definition demo_channel :: NetworkControlChannel where
  "demo_channel = \<lparr>ch_service = demo_online, ch_capabilities = [(demo_device 1, demo_agreed), (demo_device 2, demo_agreed)], ch_ticks = 0\<rparr>"

definition demo_offer :: CandidateExchange where
  "demo_offer = demo_exchange\<lparr>exchange_network := network_id demo_network, exchange_sender := demo_device 1, exchange_recipient := demo_device 2,
     exchange_sender_session := demo_device 1, exchange_recipient_session := demo_device 2\<rparr>"

definition demo_exchange_request :: Frame where
  "demo_exchange_request = \<lparr>frame_type = MT_peer_candidates_send, request_id = 0,
     payload = (case encode_candidates demo_offer of Inl _ \<Rightarrow> [] | Inr bs \<Rightarrow> bs)\<rparr>"

lemma demo_payload: "decode_candidates (payload demo_exchange_request) = Inr demo_offer"
proof -
  have "validate_exchange demo_offer = Inr ()"
    by (simp add: validate_exchange_def demo_offer_def demo_exchange_def demo_network_def demo_device_def is_zero_def list_all_iff
        max_candidates_def usable_endpoint_def)
  then obtain bs where bs: "encode_candidates demo_offer = Inr bs" by (auto simp: encode_candidates_def)
  moreover have "exchange_typed demo_offer"
    by (simp add: exchange_typed_def demo_offer_def demo_exchange_def demo_network_def demo_device_def candidate_canonical_def
        candidate_kind_of_raw_def)
  ultimately show ?thesis by (simp add: demo_exchange_request_def candidates_codec.enc_dec)
qed

lemma fresh_control: "fst (control d now new_quota)"
proof -
  have "prune now new_quota = new_quota\<lparr>quota_next_prune := if now < 0 then 0 else now + 30 * 1000000000\<rparr>"
    by (simp add: prune_def new_quota_def)
  then obtain z where q: "prune now new_quota = new_quota\<lparr>quota_next_prune := z\<rparr>" by blast
  have "as_double (32 :: 32 word) = 32" by (simp add: as_double_def)
  then show ?thesis
    unfolding control_def q Let_def by (simp add: new_quota_def default_limits_def refill_def bucket_at_def new_bucket_def demo_doubles)
qed

lemma demo_admitted:
  obtains q where "call (admit_control demo_environment (demo_device 1)) demo_channel =
    (Inr True, demo_channel\<lparr>ch_service := demo_online\<lparr>svc_ticks := 1, svc_quota := q\<rparr>\<rparr>)"
proof -
  have "svc_quota demo_online = new_quota" "svc_ticks demo_online = 0" by (simp_all add: demo_online_def new_service_def)
  then show ?thesis
    using fresh_control [of "demo_device 1" "env_clock demo_environment 0"]
    by (intro that) (simp add: call_def demo_channel_def admit_control_def sbind_def time_source_def split_beta)
qed

lemma authorize_quota:
  "authorize_peer_exchange actor x (s\<lparr>svc_ticks := t, svc_quota := q\<rparr>) = authorize_peer_exchange actor x s"
  by (simp add: authorize_peer_exchange_def device_allowed_def traffic_allowed_def key_epoch_for_def Let_def cong: if_cong)

lemma demo_forwarded:
  obtains d c' where "handle_authenticated demo_environment (\<lambda>_. 9) (demo_device 1) demo_exchange_request demo_channel = (Inr d, c')"
    "frame_type (dispatch_response d) = MT_peer_candidates_ack"
proof -
  obtain q where admit: "call (admit_control demo_environment (demo_device 1)) demo_channel =
      (Inr True, demo_channel\<lparr>ch_service := demo_online\<lparr>svc_ticks := 1, svc_quota := q\<rparr>\<rparr>)" by (rule demo_admitted)
  have auth: "authorize_peer_exchange (demo_device 1) demo_offer (demo_online\<lparr>svc_ticks := 1, svc_quota := q\<rparr>) = Inr True"
    unfolding authorize_quota by code_simp
  have allowed: "device_allowed (demo_online\<lparr>svc_ticks := 1, svc_quota := q\<rparr>) (demo_device 1)" "\<not> is_zero (demo_device 1)"
    by (simp_all add: device_allowed_def) code_simp+
  have "exchange_recipient demo_offer = demo_device 2" "exchanges_candidates demo_agreed" "\<not> stale_generation (cap_generations demo_agreed) demo_offer"
    "demo_device 2 \<noteq> demo_device 1"
    by code_simp+
  then show ?thesis
    using admit auth allowed demo_payload
    by (intro that) (simp_all add: handle_authenticated_def demo_exchange_request_def is_network_request_def cbind_def catch_errors_def
        handle_request_def cquery_def handle_candidates_def clift_def call_def [of "squery _"] squery_def demo_channel_def cmodify_def
        dispatch_def answer_frame_def, simp)
qed

theorem requests_are_answered_witness:
  "\<exists>d c'. handle_authenticated demo_environment (\<lambda>_. 9) (demo_device 1) demo_exchange_request demo_channel = (Inr d, c') \<and>
    (service_step demo_environment)\<^sup>*\<^sup>* (ch_service demo_channel) (ch_service c') \<and>
    request_id (dispatch_response d) = 0 \<and> list_all (\<lambda>e. request_id (control_frame e) = 0) (dispatch_events d)"
proof -
  obtain d c' where run: "handle_authenticated demo_environment (\<lambda>_. 9) (demo_device 1) demo_exchange_request demo_channel = (Inr d, c')"
    by (rule demo_forwarded)
  have "length (demo_device 1) = 32" "\<not> is_zero (demo_device 1)" by code_simp+
  moreover have "is_network_request (frame_type demo_exchange_request)" "frame_type demo_exchange_request = MT_peer_candidates_send" "request_id demo_exchange_request = 0"
    by (simp_all add: demo_exchange_request_def is_network_request_def)
  ultimately show ?thesis using requests_are_answered [OF _ _ _ _ _ run] run by simp
qed

theorem candidate_generations_increase_witness:
  "\<exists>d c' x. handle_authenticated demo_environment (\<lambda>_. 9) (demo_device 1) demo_exchange_request demo_channel = (Inr d, c') \<and>
    rightly_forwarded (demo_device 1) demo_exchange_request demo_channel c' d x"
proof -
  obtain d c' where run: "handle_authenticated demo_environment (\<lambda>_. 9) (demo_device 1) demo_exchange_request demo_channel = (Inr d, c')"
    and ack: "frame_type (dispatch_response d) = MT_peer_candidates_ack"
    by (rule demo_forwarded)
  have "frame_type demo_exchange_request = MT_peer_candidates_send" by (simp add: demo_exchange_request_def)
  then show ?thesis using candidate_generations_increase [OF run] run ack by auto
qed

end
