(* ===== verification/Local_Control.thy ===== *)
theory Local_Control
  imports Network_Messages Ipv4_Fanout
begin

text \<open>
  The messages between the client service and its user interface: \<open>protocol/local_control.cpp\<close>, whose
  integers are little-endian, and \<open>protocol/game_diagnostics.cpp\<close>.
\<close>

section \<open>Little-endian integers\<close>

text \<open>Byte \<open>i\<close> is \<open>(value >> (8 * i)) & 0xff\<close>; reading ors the bytes at those places.\<close>

definition le_bytes :: "nat \<Rightarrow> 'a::len word \<Rightarrow> bytes" where
  "le_bytes n w = map (\<lambda>i. ucast (drop_bit (8 * i) w AND 255)) [0..<n]"

definition le_value :: "bytes \<Rightarrow> 'a::len word" where
  "le_value bs = foldr (\<lambda>b result. ucast b OR push_bit 8 result) bs 0"

lemma le_bytes_rev: "le_bytes n w = rev (be_bytes n w)"
proof -
  have "be_bytes n w = rev (map (\<lambda>i. ucast (drop_bit (8 * i) w AND 255)) [0..<n])"
    by (induction n) (simp_all add: mult.commute)
  then show ?thesis by (simp add: le_bytes_def)
qed

lemma le_value_rev: "le_value bs = be_value (rev bs)"
  by (simp add: le_value_def be_value_def foldr_conv_foldl or.commute)

lemma length_le_bytes [simp]: "length (le_bytes n w) = n"
  by (simp add: le_bytes_def)

lemma le_value_le_bytes: "LENGTH('a::len) \<le> n * 8 \<Longrightarrow> le_value (le_bytes n (w :: 'a word)) = w"
  by (simp add: le_value_rev le_bytes_rev be_value_be_bytes)

lemma le_bytes_le_value: "length bs * 8 \<le> LENGTH('a::len) \<Longrightarrow> le_bytes (length bs) (le_value bs :: 'a word) = bs"
  using be_bytes_be_value [of "rev bs", where 'a = 'a] by (simp add: le_value_rev le_bytes_rev)

section \<open>Messages\<close>

datatype LocalCommand = LC_status | LC_list | LC_create | LC_join | LC_leave | LC_invite | LC_approve | LC_kick | LC_stop |
  LC_diagnostics | LC_peers | LC_activity | LC_path_diagnostics | LC_game_diagnostics | LC_user_access | LC_network_management |
  LC_routing_options | LC_unlisted byte

fun local_command_raw :: "LocalCommand \<Rightarrow> byte" where
  "local_command_raw LC_status = 1" | "local_command_raw LC_list = 2" | "local_command_raw LC_create = 3" | "local_command_raw LC_join = 4"
| "local_command_raw LC_leave = 5" | "local_command_raw LC_invite = 6" | "local_command_raw LC_approve = 7" | "local_command_raw LC_kick = 8"
| "local_command_raw LC_stop = 9" | "local_command_raw LC_diagnostics = 10" | "local_command_raw LC_peers = 11"
| "local_command_raw LC_activity = 12" | "local_command_raw LC_path_diagnostics = 13" | "local_command_raw LC_game_diagnostics = 14"
| "local_command_raw LC_user_access = 15" | "local_command_raw LC_network_management = 16" | "local_command_raw LC_routing_options = 17"
| "local_command_raw (LC_unlisted b) = b"

definition local_command_of_raw :: "byte \<Rightarrow> LocalCommand" where
  "local_command_of_raw b =
     (if b = 1 then LC_status else if b = 2 then LC_list else if b = 3 then LC_create else if b = 4 then LC_join else if b = 5 then LC_leave
      else if b = 6 then LC_invite else if b = 7 then LC_approve else if b = 8 then LC_kick else if b = 9 then LC_stop
      else if b = 10 then LC_diagnostics else if b = 11 then LC_peers else if b = 12 then LC_activity
      else if b = 13 then LC_path_diagnostics else if b = 14 then LC_game_diagnostics else if b = 15 then LC_user_access
      else if b = 16 then LC_network_management else if b = 17 then LC_routing_options else LC_unlisted b)"

definition max_local_control_payload :: nat where "max_local_control_payload = 512 * 1024"
definition local_control_header_size :: nat where "local_control_header_size = 12"

record LocalMessage =
  local_command :: LocalCommand
  local_response :: bool
  local_error :: bool
  local_payload :: bytes

definition valid_command :: "LocalCommand \<Rightarrow> bool" where
  "valid_command c \<longleftrightarrow> 1 \<le> local_command_raw c \<and> local_command_raw c \<le> 17"

definition local_magic :: bytes where "local_magic = [0x4c, 0x4c, 0x43, 0x50]"

definition encode_local_message :: "LocalMessage \<Rightarrow> bytes res" where
  "encode_local_message m =
     (if \<not> valid_command (local_command m) \<or> (local_error m \<and> \<not> local_response m) \<or> length (local_payload m) > max_local_control_payload
      then Inl (Invalid_argument ''invalid local control message'')
      else Inr (local_magic @ [1, local_command_raw (local_command m), (if local_response m then 1 else 0) OR (if local_error m then 2 else 0), 0] @
        le_bytes 4 (word_of_nat (length (local_payload m)) :: 32 word) @ local_payload m))"

definition decode_local_message :: "bytes \<Rightarrow> LocalMessage res" where
  "decode_local_message bs =
     (if length bs < local_control_header_size \<or> bs ! 4 \<noteq> 1 \<or> bs ! 7 \<noteq> 0 \<or> bs ! 6 AND NOT 3 \<noteq> 0
      then Inl (Invalid_argument ''invalid local control header'')
      else if take 4 bs \<noteq> local_magic then Inl (Invalid_argument ''invalid local control magic'')
      else let len = unat (le_value (take 4 (drop 8 bs)) :: 32 word); command = local_command_of_raw (bs ! 5); flags = bs ! 6 in
      if \<not> valid_command command \<or> (bit flags 1 \<and> \<not> bit flags 0) \<or> len > max_local_control_payload \<or>
         length bs \<noteq> local_control_header_size + len
      then Inl (Invalid_argument ''invalid local control message'')
      else Inr \<lparr>local_command = command, local_response = bit flags 0, local_error = bit flags 1,
        local_payload = drop local_control_header_size bs\<rparr>)"

record LocalActivity =
  activity_device :: NetworkDeviceId
  activity_requests :: "NetworkEvent list"

definition encode_local_activity :: "LocalActivity \<Rightarrow> bytes res" where
  "encode_local_activity a =
     (if length (activity_requests a) > 128 then Inl (Invalid_argument ''too many pending requests'')
      else res_bind (write_list encode_network_event (activity_requests a)) (\<lambda>events.
        Inr (activity_device a @ [word_of_nat (length (activity_requests a))] @ events)))"

definition event_size :: nat where "event_size = 1 + 16 + 32"

fun decode_events :: "nat \<Rightarrow> bytes \<Rightarrow> NetworkEvent list res" where
  "decode_events 0 bs = Inr []"
| "decode_events (Suc k) bs = res_bind (decode_network_event (take event_size bs)) (\<lambda>e.
     res_bind (decode_events k (drop event_size bs)) (\<lambda>es. Inr (e # es)))"

definition decode_local_activity :: "bytes \<Rightarrow> LocalActivity res" where
  "decode_local_activity bs =
     (if length bs < 32 + 1 then Inl (Invalid_argument ''invalid local activity'')
      else let count = unat (bs ! 32) in
      if count > 128 \<or> length bs \<noteq> 32 + 1 + count * event_size then Inl (Invalid_argument ''invalid local activity size'')
      else res_bind (decode_events count (drop 33 bs)) (\<lambda>events.
        Inr \<lparr>activity_device = take 32 bs, activity_requests = events\<rparr>))"

datatype ClientConfigurationState = CS_configured | CS_unconfigured | CS_invalid_credentials | CS_unlisted byte

fun configuration_raw :: "ClientConfigurationState \<Rightarrow> byte" where
  "configuration_raw CS_configured = 0" | "configuration_raw CS_unconfigured = 1" | "configuration_raw CS_invalid_credentials = 2"
| "configuration_raw (CS_unlisted b) = b"

definition configuration_of_raw :: "byte \<Rightarrow> ClientConfigurationState" where
  "configuration_of_raw b = (if b = 0 then CS_configured else if b = 1 then CS_unconfigured else if b = 2 then CS_invalid_credentials else CS_unlisted b)"

record LocalDiagnostics =
  ld_connected :: bool
  ld_authenticated :: bool
  ld_tcp_fallback :: bool
  ld_configuration :: ClientConfigurationState
  ld_active_networks :: "32 word"
  ld_rtt_us :: "32 word option"
  ld_sent_bytes :: "64 word"
  ld_received_bytes :: "64 word"
  ld_reconnects :: "32 word"
  ld_last_error :: bytes

definition flag_byte :: "bool \<Rightarrow> byte" where "flag_byte b = (if b then 1 else 0)"

definition encode_local_diagnostics :: "LocalDiagnostics \<Rightarrow> bytes res" where
  "encode_local_diagnostics d =
     (if length (ld_last_error d) > 512 \<or> configuration_raw (ld_configuration d) > 2 \<or>
         (ld_configuration d \<noteq> CS_configured \<and> (ld_connected d \<or> ld_authenticated d \<or> ld_tcp_fallback d \<or> ld_active_networks d \<noteq> 0))
      then Inl (Invalid_argument ''local diagnostic error is too long'')
      else Inr ([flag_byte (ld_connected d), flag_byte (ld_authenticated d), flag_byte (ld_tcp_fallback d), configuration_raw (ld_configuration d)] @
        le_bytes 4 (ld_active_networks d) @ le_bytes 4 (case ld_rtt_us d of None \<Rightarrow> 0xffffffff | Some rtt \<Rightarrow> rtt) @
        le_bytes 8 (ld_sent_bytes d) @ le_bytes 8 (ld_received_bytes d) @ le_bytes 4 (ld_reconnects d) @
        le_bytes 2 (word_of_nat (length (ld_last_error d)) :: 16 word) @ ld_last_error d))"

definition le_read :: "bytes \<Rightarrow> nat \<Rightarrow> nat \<Rightarrow> 'a::len word" where
  "le_read bs offset count = le_value (take count (drop offset bs))"

definition decode_local_diagnostics :: "bytes \<Rightarrow> LocalDiagnostics res" where
  "decode_local_diagnostics bs =
     (if length bs < 34 \<or> bs ! 0 > 1 \<or> bs ! 1 > 1 \<or> bs ! 2 > 1 \<or> bs ! 3 > 2 \<or>
         (bs ! 3 \<noteq> 0 \<and> (bs ! 0 \<noteq> 0 \<or> bs ! 1 \<noteq> 0 \<or> bs ! 2 \<noteq> 0))
      then Inl (Invalid_argument ''invalid local diagnostics'')
      else let error_size = unat (le_read bs 32 2 :: 16 word) in
      if error_size > 512 \<or> length bs \<noteq> 34 + error_size then Inl (Invalid_argument ''invalid local diagnostic error size'')
      else let active = le_read bs 4 4; rtt = le_read bs 8 4 in
      if configuration_of_raw (bs ! 3) \<noteq> CS_configured \<and> active \<noteq> 0 then Inl (Invalid_argument ''inactive service has active networks'')
      else Inr \<lparr>ld_connected = (bs ! 0 = 1), ld_authenticated = (bs ! 1 = 1), ld_tcp_fallback = (bs ! 2 = 1),
        ld_configuration = configuration_of_raw (bs ! 3), ld_active_networks = active,
        ld_rtt_us = (if rtt \<noteq> 0xffffffff then Some rtt else None), ld_sent_bytes = le_read bs 12 8, ld_received_bytes = le_read bs 20 8,
        ld_reconnects = le_read bs 28 4, ld_last_error = drop 34 bs\<rparr>)"

section \<open>Game diagnostics\<close>

record GameNetworkStatus =
  game_network :: NetworkId
  game_address :: "32 word"
  game_subnet :: "32 word"
  game_prefix :: byte
  game_online_peers :: "32 word"
  game_discovery_sent :: "64 word"
  game_discovery_received :: "64 word"
  game_rate_limited :: "64 word"
  game_duplicates :: "64 word"
  game_invalid :: "64 word"
  game_reflections :: "64 word"

record GameDiagnostics =
  game_mtu :: "16 word"
  game_adapter_failed :: bool
  game_truncated :: bool
  game_rejected_packets :: "64 word"
  game_networks :: "GameNetworkStatus list"

definition max_game_diagnostic_networks :: nat where "max_game_diagnostic_networks = 256"

fun valid_game_networks :: "NetworkId list \<Rightarrow> GameNetworkStatus list \<Rightarrow> bool" where
  "valid_game_networks ids [] = True"
| "valid_game_networks ids (g # rest) \<longleftrightarrow> is_ipv4_host (game_address g) (game_subnet g) (game_prefix g) \<and> game_network g \<notin> set ids \<and>
     \<not> is_zero (game_network g) \<and> valid_game_networks (game_network g # ids) rest"

definition validate_game_diagnostics :: "GameDiagnostics \<Rightarrow> unit res" where
  "validate_game_diagnostics v =
     (if game_mtu v < 576 \<or> game_mtu v > 9000 \<or> length (game_networks v) > max_game_diagnostic_networks
      then Inl (Invalid_argument ''invalid game diagnostic limits'')
      else require (Invalid_argument ''invalid game diagnostic network'') (valid_game_networks [] (game_networks v)))"

definition game_layout :: "GameNetworkStatus \<Rightarrow> bytes" where
  "game_layout g = game_network g @ put (game_address g) @ put (game_subnet g) @ put (game_prefix g) @ put (game_online_peers g) @
     put (game_discovery_sent g) @ put (game_discovery_received g) @ put (game_rate_limited g) @ put (game_duplicates g) @
     put (game_invalid g) @ put (game_reflections g)"

definition encode_game_diagnostics :: "GameDiagnostics \<Rightarrow> bytes res" where
  "encode_game_diagnostics v = res_bind (validate_game_diagnostics v) (\<lambda>_.
     Inr (put (0x4c4c4744 :: 32 word) @ put (1 :: byte) @ put ((if game_adapter_failed v then 1 else 0) OR (if game_truncated v then 2 else 0) :: byte) @
       put (game_mtu v) @ put (game_rejected_packets v) @ put (word_of_nat (length (game_networks v)) :: 16 word) @
       concat (map game_layout (game_networks v))))"

definition read_game_network :: "GameNetworkStatus parser" where
  "read_game_network = pbind (reader_array 16) (\<lambda>n. pbind reader_get (\<lambda>a. pbind reader_get (\<lambda>s. pbind reader_get (\<lambda>p. pbind reader_get (\<lambda>online.
     pbind reader_get (\<lambda>sent. pbind reader_get (\<lambda>received. pbind reader_get (\<lambda>limited. pbind reader_get (\<lambda>duplicates.
     pbind reader_get (\<lambda>invalid. pbind reader_get (\<lambda>reflections.
     preturn \<lparr>game_network = n, game_address = a, game_subnet = s, game_prefix = p, game_online_peers = online, game_discovery_sent = sent,
       game_discovery_received = received, game_rate_limited = limited, game_duplicates = duplicates, game_invalid = invalid,
       game_reflections = reflections\<rparr>)))))))))))"

definition decode_game_diagnostics :: "bytes \<Rightarrow> GameDiagnostics res" where
  "decode_game_diagnostics = parse_all (pbind reader_get (\<lambda>magic :: 32 word.
     if magic \<noteq> 0x4c4c4744 then plift (Inl (Invalid_argument ''invalid game diagnostic header''))
     else pbind reader_get (\<lambda>version :: byte.
     pbind (prequire (Invalid_argument ''invalid game diagnostic header'') (version = 1)) (\<lambda>_.
     pbind reader_get (\<lambda>flags :: byte.
     pbind (prequire (Invalid_argument ''invalid game diagnostic flags'') (flags \<le> 3)) (\<lambda>_.
     pbind reader_get (\<lambda>mtu. pbind reader_get (\<lambda>rejected. pbind reader_get (\<lambda>count :: 16 word.
     pbind (prequire (Invalid_argument ''too many game diagnostic networks'') (unat count \<le> max_game_diagnostic_networks)) (\<lambda>_.
     pbind (prepeat (unat count) read_game_network) (\<lambda>networks.
     pbind reader_finish (\<lambda>_.
     let v = \<lparr>game_mtu = mtu, game_adapter_failed = bit flags 0, game_truncated = bit flags 1, game_rejected_packets = rejected,
       game_networks = networks\<rparr> in
     pbind (plift (validate_game_diagnostics v)) (\<lambda>_. preturn v)))))))))))))"

end
