(* ===== verification/Path_Diagnostics.thy ===== *)
theory Path_Diagnostics
  imports Join_Target Network_Policy Network_Types Binary
begin

text \<open>
  \<open>protocol/path_diagnostics.cpp\<close>: the state of the paths a client uses, as it is sent to the user
  interface, and the names shown there; and \<open>core/error.hpp\<close>'s error codes. An enumeration is its
  underlying byte where a cast can give it any value.
\<close>

datatype PathKind = Kind_none | Kind_relay_quic | Kind_relay_tls | Kind_direct_quic | Kind_unlisted byte
datatype PathLifecycle = Life_stopped | Life_connecting | Life_authenticated | Life_failed | Life_unlisted byte
datatype PathReason = Reason_awaiting_relay | Reason_relayed | Reason_direct_ready | Reason_direct_unreachable | Reason_udp_blocked |
  Reason_degraded | Reason_revalidating | Reason_revoked | Reason_stopped | Reason_unlisted byte
datatype ErrorCode = Error_none | Error_connection_failed | Error_authentication_failed | Error_timeout | Error_backpressure |
  Error_packet_rejected | Error_adapter_failed | Error_unsupported | Error_revoked | Error_unlisted byte

fun kind_raw :: "PathKind \<Rightarrow> byte" where
  "kind_raw Kind_none = 0" | "kind_raw Kind_relay_quic = 1" | "kind_raw Kind_relay_tls = 2" | "kind_raw Kind_direct_quic = 3"
| "kind_raw (Kind_unlisted b) = b"

definition kind_of_raw :: "byte \<Rightarrow> PathKind" where
  "kind_of_raw b = (if b = 0 then Kind_none else if b = 1 then Kind_relay_quic else if b = 2 then Kind_relay_tls
     else if b = 3 then Kind_direct_quic else Kind_unlisted b)"

fun lifecycle_raw :: "PathLifecycle \<Rightarrow> byte" where
  "lifecycle_raw Life_stopped = 0" | "lifecycle_raw Life_connecting = 1" | "lifecycle_raw Life_authenticated = 2"
| "lifecycle_raw Life_failed = 3" | "lifecycle_raw (Life_unlisted b) = b"

definition lifecycle_of_raw :: "byte \<Rightarrow> PathLifecycle" where
  "lifecycle_of_raw b = (if b = 0 then Life_stopped else if b = 1 then Life_connecting else if b = 2 then Life_authenticated
     else if b = 3 then Life_failed else Life_unlisted b)"

fun reason_raw :: "PathReason \<Rightarrow> byte" where
  "reason_raw Reason_awaiting_relay = 0" | "reason_raw Reason_relayed = 1" | "reason_raw Reason_direct_ready = 2"
| "reason_raw Reason_direct_unreachable = 3" | "reason_raw Reason_udp_blocked = 4" | "reason_raw Reason_degraded = 5"
| "reason_raw Reason_revalidating = 6" | "reason_raw Reason_revoked = 7" | "reason_raw Reason_stopped = 8"
| "reason_raw (Reason_unlisted b) = b"

definition reason_of_raw :: "byte \<Rightarrow> PathReason" where
  "reason_of_raw b = (if b = 0 then Reason_awaiting_relay else if b = 1 then Reason_relayed else if b = 2 then Reason_direct_ready
     else if b = 3 then Reason_direct_unreachable else if b = 4 then Reason_udp_blocked else if b = 5 then Reason_degraded
     else if b = 6 then Reason_revalidating else if b = 7 then Reason_revoked else if b = 8 then Reason_stopped else Reason_unlisted b)"

fun error_raw :: "ErrorCode \<Rightarrow> byte" where
  "error_raw Error_none = 0" | "error_raw Error_connection_failed = 1" | "error_raw Error_authentication_failed = 2"
| "error_raw Error_timeout = 3" | "error_raw Error_backpressure = 4" | "error_raw Error_packet_rejected = 5"
| "error_raw Error_adapter_failed = 6" | "error_raw Error_unsupported = 7" | "error_raw Error_revoked = 8"
| "error_raw (Error_unlisted b) = b"

definition error_of_raw :: "byte \<Rightarrow> ErrorCode" where
  "error_of_raw b = (if b = 0 then Error_none else if b = 1 then Error_connection_failed else if b = 2 then Error_authentication_failed
     else if b = 3 then Error_timeout else if b = 4 then Error_backpressure else if b = 5 then Error_packet_rejected
     else if b = 6 then Error_adapter_failed else if b = 7 then Error_unsupported else if b = 8 then Error_revoked else Error_unlisted b)"

record PathStatus =
  path_kind :: PathKind
  path_lifecycle :: PathLifecycle
  path_rtt_us :: "32 word option"
  path_sent_bytes :: "64 word"
  path_received_bytes :: "64 word"
  path_reason :: PathReason
  path_error :: ErrorCode
  path_sent_packets :: "64 word"
  path_received_packets :: "64 word"
  path_dropped_packets :: "64 word"
  path_lost_packets :: "64 word option"
  path_retransmitted :: "64 word option"
  path_retransmittable :: "64 word option"
  path_reconnects :: "32 word"

record PeerPathStatus =
  diag_network :: NetworkId
  diag_device :: DeviceId
  diag_ipv4 :: "32 word"
  diag_path :: PathStatus

record PathDiagnostics =
  diag_relay :: PathStatus
  diag_peers :: "PeerPathStatus list"
  diag_truncated :: bool

definition max_diagnostic_peers :: nat where "max_diagnostic_peers = 256"

definition path_ok :: "PathStatus \<Rightarrow> bool" where
  "path_ok p \<longleftrightarrow> kind_raw (path_kind p) \<le> 3 \<and> lifecycle_raw (path_lifecycle p) \<le> 3 \<and> reason_raw (path_reason p) \<le> 8 \<and>
     error_raw (path_error p) \<le> 8"

definition validate_path :: "PathStatus \<Rightarrow> unit res" where
  "validate_path p = require (Invalid_argument ''invalid path diagnostic state'') (path_ok p)"

definition option_flags :: "PathStatus \<Rightarrow> byte" where
  "option_flags p = (if path_rtt_us p \<noteq> None then 1 else 0) OR (if path_lost_packets p \<noteq> None then 2 else 0) OR
     (if path_retransmitted p \<noteq> None then 4 else 0) OR (if path_retransmittable p \<noteq> None then 8 else 0)"

definition value_or_0 :: "'a::len word option \<Rightarrow> 'a word" where
  "value_or_0 x = (case x of None \<Rightarrow> 0 | Some v \<Rightarrow> v)"

definition write_path :: "PathStatus \<Rightarrow> bytes res" where
  "write_path p = res_bind (validate_path p) (\<lambda>_. Inr (
     put (kind_raw (path_kind p)) @ put (lifecycle_raw (path_lifecycle p)) @ put (reason_raw (path_reason p)) @
     put (error_raw (path_error p)) @ put (option_flags p) @ put (value_or_0 (path_rtt_us p)) @ put (path_sent_bytes p) @
     put (path_received_bytes p) @ put (path_sent_packets p) @ put (path_received_packets p) @ put (path_dropped_packets p) @
     put (value_or_0 (path_lost_packets p)) @ put (value_or_0 (path_retransmitted p)) @ put (value_or_0 (path_retransmittable p)) @
     put (path_reconnects p)))"

definition flag_value :: "byte \<Rightarrow> nat \<Rightarrow> 'a::len word \<Rightarrow> 'a word option" where
  "flag_value flags i v = (if bit flags i then Some v else None)"

definition read_path :: "PathStatus parser" where
  "read_path = pbind reader_get (\<lambda>kind. pbind reader_get (\<lambda>life. pbind reader_get (\<lambda>reason. pbind reader_get (\<lambda>err.
     pbind reader_get (\<lambda>flags :: byte.
     pbind (prequire (Invalid_argument ''invalid path diagnostic flags'') (flags AND NOT 15 = 0)) (\<lambda>_.
     pbind reader_get (\<lambda>rtt. pbind reader_get (\<lambda>sent_octets. pbind reader_get (\<lambda>received_octets. pbind reader_get (\<lambda>sent.
     pbind reader_get (\<lambda>received. pbind reader_get (\<lambda>dropped. pbind reader_get (\<lambda>lost. pbind reader_get (\<lambda>retransmitted.
     pbind reader_get (\<lambda>retransmittable.
     pbind (prequire (Invalid_argument ''noncanonical path diagnostic value'')
       (\<not> ((\<not> bit flags 0 \<and> rtt \<noteq> 0) \<or> (\<not> bit flags 1 \<and> lost \<noteq> 0) \<or> (\<not> bit flags 2 \<and> retransmitted \<noteq> 0) \<or>
          (\<not> bit flags 3 \<and> retransmittable \<noteq> 0)))) (\<lambda>_.
     pbind reader_get (\<lambda>reconnects.
     let p = \<lparr>path_kind = kind_of_raw kind, path_lifecycle = lifecycle_of_raw life, path_rtt_us = flag_value flags 0 rtt,
        path_sent_bytes = sent_octets, path_received_bytes = received_octets, path_reason = reason_of_raw reason,
        path_error = error_of_raw err, path_sent_packets = sent, path_received_packets = received, path_dropped_packets = dropped,
        path_lost_packets = flag_value flags 1 lost, path_retransmitted = flag_value flags 2 retransmitted,
        path_retransmittable = flag_value flags 3 retransmittable, path_reconnects = reconnects\<rparr> in
     pbind (plift (validate_path p)) (\<lambda>_. preturn p))))))))))))))))))"

definition write_peer_path :: "PeerPathStatus \<Rightarrow> bytes res" where
  "write_peer_path peer = res_bind (write_path (diag_path peer)) (\<lambda>path. Inr (diag_network peer @ diag_device peer @ put (diag_ipv4 peer) @ path))"

definition encode_path_diagnostics :: "PathDiagnostics \<Rightarrow> bytes res" where
  "encode_path_diagnostics v =
     (if length (diag_peers v) > max_diagnostic_peers then Inl (Length_error ''too many diagnostic peers'')
      else res_bind (write_path (diag_relay v)) (\<lambda>relay. res_bind (write_list write_peer_path (diag_peers v)) (\<lambda>peers.
        Inr (put (0x4c4c5044 :: 32 word) @ put (1 :: byte) @ put_bool (diag_truncated v) @
          put (word_of_nat (length (diag_peers v)) :: 16 word) @ relay @ peers))))"

definition read_peer_path :: "PeerPathStatus parser" where
  "read_peer_path = pbind (reader_array 16) (\<lambda>n. pbind (reader_array 32) (\<lambda>d. pbind reader_get (\<lambda>a. pbind read_path (\<lambda>p.
     preturn \<lparr>diag_network = n, diag_device = d, diag_ipv4 = a, diag_path = p\<rparr>))))"

definition decode_path_diagnostics :: "bytes \<Rightarrow> PathDiagnostics res" where
  "decode_path_diagnostics = parse_all (pbind reader_get (\<lambda>magic :: 32 word.
     if magic \<noteq> 0x4c4c5044 then plift (Inl (Invalid_argument ''invalid path diagnostics header''))
     else pbind reader_get (\<lambda>version :: byte.
     pbind (prequire (Invalid_argument ''invalid path diagnostics header'') (version = 1)) (\<lambda>_.
     pbind reader_get (\<lambda>flags :: byte. pbind reader_get (\<lambda>count :: 16 word.
     pbind (prequire (Invalid_argument ''invalid path diagnostics size'') (flags \<le> 1 \<and> unat count \<le> max_diagnostic_peers)) (\<lambda>_.
     pbind read_path (\<lambda>relay. pbind (prepeat (unat count) read_peer_path) (\<lambda>peers.
     pbind reader_finish (\<lambda>_.
     preturn \<lparr>diag_relay = relay, diag_peers = peers, diag_truncated = (flags \<noteq> 0)\<rparr>))))))))))"

fun path_kind_name :: "PathKind \<Rightarrow> string" where
  "path_kind_name Kind_none = ''Unavailable''"
| "path_kind_name Kind_relay_quic = ''Relay QUIC''"
| "path_kind_name Kind_relay_tls = ''Relay TLS/TCP''"
| "path_kind_name Kind_direct_quic = ''Direct QUIC''"
| "path_kind_name (Kind_unlisted b) = ''Unavailable''"

fun path_reason_name :: "PathReason \<Rightarrow> string" where
  "path_reason_name Reason_awaiting_relay = ''Waiting for relay authentication''"
| "path_reason_name Reason_relayed = ''Using the relay''"
| "path_reason_name Reason_direct_ready = ''Authenticated direct path selected''"
| "path_reason_name Reason_direct_unreachable = ''Direct path unavailable''"
| "path_reason_name Reason_udp_blocked = ''Relay UDP unavailable; using TLS/TCP''"
| "path_reason_name Reason_degraded = ''Direct path quality degraded''"
| "path_reason_name Reason_revalidating = ''Network path is being revalidated''"
| "path_reason_name Reason_revoked = ''Network membership or key changed''"
| "path_reason_name Reason_stopped = ''Connection stopped''"
| "path_reason_name (Reason_unlisted b) = ''Connection stopped''"

section \<open>Canonical encodings\<close>

definition path_typed :: "PathStatus \<Rightarrow> bool" where
  "path_typed p \<longleftrightarrow> kind_of_raw (kind_raw (path_kind p)) = path_kind p \<and> lifecycle_of_raw (lifecycle_raw (path_lifecycle p)) = path_lifecycle p \<and>
     reason_of_raw (reason_raw (path_reason p)) = path_reason p \<and> error_of_raw (error_raw (path_error p)) = path_error p"

lemma path_raw_of_raw [simp]:
  "kind_raw (kind_of_raw b) = b" "lifecycle_raw (lifecycle_of_raw b) = b" "reason_raw (reason_of_raw b) = b" "error_raw (error_of_raw b) = b"
  by (simp_all add: kind_of_raw_def lifecycle_of_raw_def reason_of_raw_def error_of_raw_def)

lemma option_flags_bits:
  "bit (option_flags p) 0 \<longleftrightarrow> path_rtt_us p \<noteq> None" "bit (option_flags p) 1 \<longleftrightarrow> path_lost_packets p \<noteq> None"
  "bit (option_flags p) 2 \<longleftrightarrow> path_retransmitted p \<noteq> None" "bit (option_flags p) 3 \<longleftrightarrow> path_retransmittable p \<noteq> None"
  "option_flags p AND NOT 15 = 0"
  by (auto simp: option_flags_def)

lemma small_flags:
  fixes flags :: byte
  assumes "flags AND NOT 15 = 0"
  shows "flags \<in> {0, 1, 2, 3, 4, 5, 6, 7, 8, 9, 10, 11, 12, 13, 14, 15}"
proof -
  have "\<not> bit flags m" if "4 \<le> m" for m
  proof
    assume set: "bit flags m"
    moreover have "(15 :: byte) = mask 4" by (simp add: mask_eq_exp_minus_1)
    then have "\<not> bit (15 :: byte) m" using that by (simp only: bit_mask_iff) simp
    ultimately have "bit (flags AND NOT 15) m" by (simp only: bit_and_iff bit_not_iff possible_bit_word) (auto dest: bit_imp_le_length)
    then show False using assms by simp
  qed
  then have "take_bit 4 flags = flags" by (intro bit_eqI) (metis bit_take_bit_iff not_less)
  then have "unat flags = take_bit 4 (unat flags)" by (metis unsigned_take_bit_eq)
  moreover have "take_bit 4 (unat flags) < 2 ^ 4" by (rule take_bit_nat_less_exp)
  ultimately show ?thesis by (intro digit_cases) simp
qed

lemma flags_recovered:
  fixes flags :: byte
  assumes "flags AND NOT 15 = 0"
  shows "(if bit flags 0 then 1 else 0) OR (if bit flags 1 then 2 else 0) OR (if bit flags 2 then 4 else 0) OR (if bit flags 3 then 8 else 0) = flags"
  using small_flags [OF assms] by (elim insertE emptyE) simp_all

lemma value_flag [simp]: "(bit flags i \<or> v = 0) \<Longrightarrow> value_or_0 (flag_value flags i v) = v"
  by (auto simp: value_or_0_def flag_value_def)

lemma flag_value_None [simp]: "flag_value flags i v = None \<longleftrightarrow> \<not> bit flags i"
  by (simp add: flag_value_def)

definition path_layout :: "PathStatus \<Rightarrow> bytes" where
  "path_layout p = put (kind_raw (path_kind p)) @ put (lifecycle_raw (path_lifecycle p)) @ put (reason_raw (path_reason p)) @
     put (error_raw (path_error p)) @ put (option_flags p) @ put (value_or_0 (path_rtt_us p)) @ put (path_sent_bytes p) @
     put (path_received_bytes p) @ put (path_sent_packets p) @ put (path_received_packets p) @ put (path_dropped_packets p) @
     put (value_or_0 (path_lost_packets p)) @ put (value_or_0 (path_retransmitted p)) @ put (value_or_0 (path_retransmittable p)) @
     put (path_reconnects p)"

lemma write_path_iff: "write_path p = Inr bs \<longleftrightarrow> path_ok p \<and> bs = path_layout p"
  by (auto simp: write_path_def validate_path_def path_layout_def)

lemma read_path_dest:
  assumes "read_path r = Inr (p, rest)"
  shows "r = path_layout p @ rest \<and> path_ok p \<and> path_typed p"
proof -
  from assms obtain kind life reason err flags rtt so ro sent received dropped lost rtm rtb rec where
    r: "r = [kind, life, reason, err, flags] @ put (rtt :: 32 word) @ put (so :: 64 word) @ put (ro :: 64 word) @ put (sent :: 64 word) @
      put (received :: 64 word) @ put (dropped :: 64 word) @ put (lost :: 64 word) @ put (rtm :: 64 word) @ put (rtb :: 64 word) @
      put (rec :: 32 word) @ rest"
    and flags: "flags AND NOT 15 = 0" "bit flags 0 \<or> rtt = 0" "bit flags 1 \<or> lost = 0" "bit flags 2 \<or> rtm = 0" "bit flags 3 \<or> rtb = 0"
    and p: "p = \<lparr>path_kind = kind_of_raw kind, path_lifecycle = lifecycle_of_raw life, path_rtt_us = flag_value flags 0 rtt,
        path_sent_bytes = so, path_received_bytes = ro, path_reason = reason_of_raw reason,
        path_error = error_of_raw err, path_sent_packets = sent, path_received_packets = received, path_dropped_packets = dropped,
        path_lost_packets = flag_value flags 1 lost, path_retransmitted = flag_value flags 2 rtm,
        path_retransmittable = flag_value flags 3 rtb, path_reconnects = rec\<rparr>" and ok: "path_ok p"
    by (auto simp: read_path_def wire_reads Let_def validate_path_def split: if_splits)
  have "option_flags p = flags" using flags_recovered [OF flags(1)] by (simp add: option_flags_def p)
  then have "path_layout p = [kind, life, reason, err, flags] @ put rtt @ put so @ put ro @ put sent @ put received @ put dropped @
      put lost @ put rtm @ put rtb @ put rec"
    using flags by (simp add: path_layout_def p)
  then show ?thesis using ok r by (simp add: path_typed_def p)
qed

lemma value_of_flags [simp]:
  "flag_value (option_flags p) 0 (value_or_0 (path_rtt_us p)) = path_rtt_us p"
  "flag_value (option_flags p) (Suc 0) (value_or_0 (path_lost_packets p)) = path_lost_packets p"
  "flag_value (option_flags p) 2 (value_or_0 (path_retransmitted p)) = path_retransmitted p"
  "flag_value (option_flags p) 3 (value_or_0 (path_retransmittable p)) = path_retransmittable p"
  using option_flags_bits [of p] by (auto simp: flag_value_def value_or_0_def split: option.splits)

lemma read_path_iff [wire_iff]: "read_path r = Inr (p, rest) \<longleftrightarrow> r = path_layout p @ rest \<and> path_ok p \<and> path_typed p"
proof
  assume a: "r = path_layout p @ rest \<and> path_ok p \<and> path_typed p"
  have canonical: "\<not> ((\<not> bit (option_flags p) 0 \<and> value_or_0 (path_rtt_us p) \<noteq> 0) \<or> (\<not> bit (option_flags p) 1 \<and> value_or_0 (path_lost_packets p) \<noteq> 0) \<or>
      (\<not> bit (option_flags p) 2 \<and> value_or_0 (path_retransmitted p) \<noteq> 0) \<or> (\<not> bit (option_flags p) 3 \<and> value_or_0 (path_retransmittable p) \<noteq> 0))"
    using option_flags_bits [of p] by (auto simp: value_or_0_def)
  have eta: "\<lparr>path_kind = path_kind p, path_lifecycle = path_lifecycle p, path_rtt_us = path_rtt_us p, path_sent_bytes = path_sent_bytes p,
      path_received_bytes = path_received_bytes p, path_reason = path_reason p, path_error = path_error p,
      path_sent_packets = path_sent_packets p, path_received_packets = path_received_packets p,
      path_dropped_packets = path_dropped_packets p, path_lost_packets = path_lost_packets p, path_retransmitted = path_retransmitted p,
      path_retransmittable = path_retransmittable p, path_reconnects = path_reconnects p\<rparr> = p" by simp
  show "read_path r = Inr (p, rest)"
    using a canonical option_flags_bits(5) [of p]
    by (simp add: read_path_def path_layout_def wire_steps Let_def path_typed_def validate_path_def eta)
qed (rule read_path_dest)

definition diagnostics_typed :: "PathDiagnostics \<Rightarrow> bool" where
  "diagnostics_typed v \<longleftrightarrow> path_typed (diag_relay v) \<and>
     list_all (\<lambda>p. length (diag_network p) = 16 \<and> length (diag_device p) = 32 \<and> path_typed (diag_path p)) (diag_peers v)"

definition peer_path_layout :: "PeerPathStatus \<Rightarrow> bytes" where
  "peer_path_layout p = diag_network p @ diag_device p @ put (diag_ipv4 p) @ path_layout (diag_path p)"

lemma write_peer_path_iff: "write_peer_path p = Inr bs \<longleftrightarrow> path_ok (diag_path p) \<and> bs = peer_path_layout p"
  by (auto simp: write_peer_path_def res_bind_Inr_iff write_path_iff peer_path_layout_def)

lemma read_peer_path_iff:
  "read_peer_path r = Inr (p, rest) \<longleftrightarrow> r = peer_path_layout p @ rest \<and>
     (length (diag_network p) = 16 \<and> length (diag_device p) = 32 \<and> path_ok (diag_path p) \<and> path_typed (diag_path p))"
  by (cases p) (auto simp: read_peer_path_def peer_path_layout_def wire_reads read_path_iff)

definition diagnostics_valid :: "PathDiagnostics \<Rightarrow> bool" where
  "diagnostics_valid v \<longleftrightarrow> length (diag_peers v) \<le> max_diagnostic_peers \<and> path_ok (diag_relay v) \<and> list_all (\<lambda>p. path_ok (diag_path p)) (diag_peers v)"

definition diagnostics_layout :: "PathDiagnostics \<Rightarrow> bytes" where
  "diagnostics_layout v = put (0x4c4c5044 :: 32 word) @ [1, if diag_truncated v then 1 else 0] @
     put (word_of_nat (length (diag_peers v)) :: 16 word) @ path_layout (diag_relay v) @ concat (map peer_path_layout (diag_peers v))"

lemma encode_path_diagnostics_iff: "encode_path_diagnostics v = Inr bs \<longleftrightarrow> diagnostics_valid v \<and> bs = diagnostics_layout v"
  by (auto simp: encode_path_diagnostics_def diagnostics_valid_def diagnostics_layout_def res_bind_Inr_iff write_path_iff put_bool_eval
      write_list_Inr_iff [OF write_peer_path_iff])

interpretation diagnostics_codec: wire_codec encode_path_diagnostics decode_path_diagnostics diagnostics_typed
proof unfold_locales
  fix v bs
  assume "diagnostics_typed v" and "encode_path_diagnostics v = Inr bs"
  then have typed: "path_typed (diag_relay v)"
      "list_all (\<lambda>p. length (diag_network p) = 16 \<and> length (diag_device p) = 32 \<and> path_typed (diag_path p)) (diag_peers v)"
    and valid: "length (diag_peers v) \<le> 256" "path_ok (diag_relay v)" "list_all (\<lambda>p. path_ok (diag_path p)) (diag_peers v)"
    and bs: "bs = diagnostics_layout v"
    by (auto simp: encode_path_diagnostics_iff diagnostics_typed_def diagnostics_valid_def max_diagnostic_peers_def)
  have relay: "read_path (path_layout (diag_relay v) @ rest) = Inr (diag_relay v, rest)" for rest
    using typed(1) valid(2) by (simp add: read_path_iff)
  have peers: "prepeat (length (diag_peers v)) read_peer_path (concat (map peer_path_layout (diag_peers v))) = Inr (diag_peers v, [])"
    using typed(2) valid(3) by (auto simp: prepeat_iff [OF read_peer_path_iff] list_all_iff)
  have eta: "\<lparr>diag_relay = diag_relay v, diag_peers = diag_peers v, diag_truncated = diag_truncated v\<rparr> = v" by simp
  show "decode_path_diagnostics bs = Inr v"
    using valid(1) relay peers eta
    by (cases "diag_truncated v")
      (simp_all add: decode_path_diagnostics_def bs diagnostics_layout_def wire_steps unat_of_nat_size max_diagnostic_peers_def)
next
  fix v bs
  assume "decode_path_diagnostics bs = Inr v"
  then obtain flags :: byte and count :: "16 word" where bs: "bs = put (0x4c4c5044 :: 32 word) @ [1, flags] @ put count @
      path_layout (diag_relay v) @ concat (map peer_path_layout (diag_peers v))"
    and ok: "flags = 0 \<or> flags = 1" "unat count \<le> 256" "length (diag_peers v) = unat count" "diag_truncated v = (flags \<noteq> 0)"
      "path_ok (diag_relay v)" "path_typed (diag_relay v)"
    and peers: "list_all (\<lambda>p. length (diag_network p) = 16 \<and> length (diag_device p) = 32 \<and> path_ok (diag_path p) \<and> path_typed (diag_path p))
      (diag_peers v)"
    by (auto simp: decode_path_diagnostics_def wire_reads read_path_iff prepeat_iff [OF read_peer_path_iff] byte_le_1 max_diagnostic_peers_def
        split: if_splits)
  have "diagnostics_layout v = bs" using ok(1,3,4) by (auto simp: diagnostics_layout_def bs)
  then show "diagnostics_typed v \<and> encode_path_diagnostics v = Inr bs"
    using ok peers by (auto simp: encode_path_diagnostics_iff diagnostics_typed_def diagnostics_valid_def max_diagnostic_peers_def list_all_iff)
qed

end
