(* ===== verification/Local_Formats.thy ===== *)
theory Local_Formats
  imports Local_Control Path_Diagnostics
begin

text \<open>
  The formats of the local control channel are canonical: a payload is accepted with a result exactly when it is the
  encoding of that result, for the envelope of the commands, the pending requests, the diagnostics of the client and
  the diagnostics of games.
\<close>

section \<open>Envelopes\<close>

lemma local_command_raw_of_raw [simp]: "local_command_raw (local_command_of_raw b) = b"
  by (simp add: local_command_of_raw_def)

definition message_typed :: "LocalMessage \<Rightarrow> bool" where
  "message_typed m \<longleftrightarrow> local_command_of_raw (local_command_raw (local_command m)) = local_command m"

definition message_flags :: "LocalMessage \<Rightarrow> byte" where
  "message_flags m = (if local_response m then 1 else 0) OR (if local_error m then 2 else 0)"

lemma message_flags_bits:
  "bit (message_flags m) 0 = local_response m" "bit (message_flags m) 1 = local_error m" "message_flags m AND NOT 3 = 0"
  by (auto simp: message_flags_def)

lemma two_flags_recovered:
  fixes flags :: byte
  assumes "flags AND NOT 3 = 0"
  shows "(if bit flags 0 then 1 else 0) OR (if bit flags 1 then 2 else 0) = flags"
proof -
  have "flags AND NOT 15 = (flags AND NOT 3) AND NOT 15" by (simp add: and.assoc)
  then have small: "flags AND NOT 15 = 0" using assms by simp
  show ?thesis using small_flags [OF small] assms by (elim insertE emptyE) simp_all
qed

lemma header_layout:
  assumes "length bs \<ge> 12"
  shows "bs = take 4 bs @ [bs ! 4, bs ! 5, bs ! 6, bs ! 7] @ take 4 (drop 8 bs) @ drop 12 bs"
proof -
  have "drop 4 bs = bs ! 4 # bs ! 5 # bs ! 6 # bs ! 7 # drop 8 bs"
    using assms Cons_nth_drop_Suc [of 4 bs] Cons_nth_drop_Suc [of 5 bs] Cons_nth_drop_Suc [of 6 bs] Cons_nth_drop_Suc [of 7 bs] by simp
  moreover have "drop 8 bs = take 4 (drop 8 bs) @ drop 12 bs" by (metis append_take_drop_id drop_drop numeral_plus_numeral semiring_norm(2,3,4,6))
  ultimately show ?thesis by (metis append_Cons append_Nil append_take_drop_id)
qed

interpretation message_codec: wire_codec encode_local_message decode_local_message message_typed
proof unfold_locales
  fix m bs
  assume typed: "message_typed m" and enc: "encode_local_message m = Inr bs"
  let ?n = "length (local_payload m)"
  have ok: "valid_command (local_command m)" "local_error m \<longrightarrow> local_response m" "?n \<le> max_local_control_payload"
    and bs: "bs = local_magic @ [1, local_command_raw (local_command m), message_flags m, 0] @
      le_bytes 4 (word_of_nat ?n :: 32 word) @ local_payload m"
    using enc by (auto simp: encode_local_message_def message_flags_def split: if_splits)
  have len: "unat (le_value (le_bytes 4 (word_of_nat ?n :: 32 word)) :: 32 word) = ?n"
    using ok(3) by (simp add: le_value_le_bytes unat_of_nat max_local_control_payload_def)
  show "decode_local_message bs = Inr m"
    using typed ok len message_flags_bits [of m]
    by (simp add: decode_local_message_def bs local_magic_def local_control_header_size_def message_typed_def Let_def)
next
  fix m bs
  assume dec: "decode_local_message bs = Inr m"
  let ?len = "le_value (take 4 (drop 8 bs)) :: 32 word"
  have ok: "12 \<le> length bs" "bs ! 4 = 1" "bs ! 7 = 0" "bs ! 6 AND NOT 3 = 0" "take 4 bs = local_magic"
      "valid_command (local_command_of_raw (bs ! 5))" "bit (bs ! 6) 1 \<longrightarrow> bit (bs ! 6) 0" "unat ?len \<le> max_local_control_payload"
      "length bs = 12 + unat ?len"
    and m: "m = \<lparr>local_command = local_command_of_raw (bs ! 5), local_response = bit (bs ! 6) 0, local_error = bit (bs ! 6) 1,
        local_payload = drop 12 bs\<rparr>"
    using dec unfolding decode_local_message_def local_control_header_size_def Let_def
    by (simp_all only: not_less not_le de_Morgan_disj not_not if_True if_False sum.inject sum.distinct split: if_split_asm) blast+
  have small: "length (drop 12 bs) \<le> max_local_control_payload" using ok(8,9) by (metis add_diff_cancel_left' length_drop)
  have len: "le_bytes 4 (word_of_nat (length (drop 12 bs)) :: 32 word) = take 4 (drop 8 bs)"
  proof -
    have four: "length (take 4 (drop 8 bs)) = 4" using ok(1) by simp
    have "length (drop 12 bs) = unat ?len" using ok(9) by (metis add_diff_cancel_left' length_drop)
    then show ?thesis using le_bytes_le_value [of "take 4 (drop 8 bs)", where 'a = 32, unfolded four] by simp
  qed
  have "encode_local_message m = Inr (take 4 bs @ [bs ! 4, bs ! 5, bs ! 6, bs ! 7] @ take 4 (drop 8 bs) @ drop 12 bs)"
    using ok(2,3,5,6,7) two_flags_recovered [OF ok(4)] len small by (simp add: encode_local_message_def m)
  then show "message_typed m \<and> encode_local_message m = Inr bs"
    using header_layout [OF ok(1)] by (simp add: message_typed_def m)
qed

section \<open>Pending requests\<close>

definition activity_typed :: "LocalActivity \<Rightarrow> bool" where
  "activity_typed a \<longleftrightarrow> length (activity_device a) = 32 \<and>
     list_all (\<lambda>e. length (event_network e) = 16 \<and> length (event_device e) = 32) (activity_requests a)"

lemma encode_event_length:
  "length (event_network e) = 16 \<Longrightarrow> length (event_device e) = 32 \<Longrightarrow> encode_network_event e = Inr bs \<Longrightarrow> length bs = event_size"
  by (auto simp: encode_network_event_def event_size_def res_bind_Inr_iff split: if_splits)

lemma decode_events_iff:
  "length bs = k * event_size \<Longrightarrow>
   decode_events k bs = Inr es \<longleftrightarrow> length es = k \<and>
     list_all (\<lambda>e. length (event_network e) = 16 \<and> length (event_device e) = 32) es \<and> write_list encode_network_event es = Inr bs"
proof (induction k arbitrary: bs es)
  case 0
  then show ?case by auto
next
  case (Suc k)
  let ?a = "take event_size bs" and ?b = "drop event_size bs"
  have lens: "length ?a = event_size" "length ?b = k * event_size" using Suc.prems by simp_all
  show ?case
  proof
    assume "decode_events (Suc k) bs = Inr es"
    then obtain e es' where es: "es = e # es'" and e: "decode_network_event ?a = Inr e" and es': "decode_events k ?b = Inr es'"
      by (auto simp: res_bind_Inr_iff)
    show "length es = Suc k \<and> list_all (\<lambda>e. length (event_network e) = 16 \<and> length (event_device e) = 32) es \<and>
        write_list encode_network_event es = Inr bs"
      using event_codec.dec_enc [OF e] es' Suc.IH [OF lens(2)] by (simp add: es res_bind_Inr_iff)
  next
    assume a: "length es = Suc k \<and> list_all (\<lambda>e. length (event_network e) = 16 \<and> length (event_device e) = 32) es \<and>
        write_list encode_network_event es = Inr bs"
    then obtain e es' x y where es: "es = e # es'" and x: "encode_network_event e = Inr x" and y: "write_list encode_network_event es' = Inr y"
      and bs: "bs = x @ y" by (cases es) (auto simp: res_bind_Inr_iff)
    have "length x = event_size" using a x by (auto simp: es intro: encode_event_length)
    then have "?a = x" "?b = y" by (simp_all add: bs)
    moreover have "decode_network_event x = Inr e" using a event_codec.enc_dec [OF _ x] by (simp add: es)
    moreover have "decode_events k ?b = Inr es'" using a y Suc.IH [OF lens(2)] \<open>?b = y\<close> by (simp add: es)
    ultimately show "decode_events (Suc k) bs = Inr es" by (simp add: es)
  qed
qed

lemma write_events_length:
  "list_all (\<lambda>e. length (event_network e) = 16 \<and> length (event_device e) = 32) es \<Longrightarrow> write_list encode_network_event es = Inr bs \<Longrightarrow>
   length bs = length es * event_size"
proof (induction es arbitrary: bs)
  case (Cons e es)
  obtain x y where x: "encode_network_event e = Inr x" and y: "write_list encode_network_event es = Inr y" and bs: "bs = x @ y"
    using Cons.prems(2) by (auto simp: res_bind_Inr_iff)
  have "length x = event_size" using Cons.prems(1) by (intro encode_event_length [OF _ _ x]) simp_all
  moreover have "length y = length es * event_size" using Cons.prems(1) by (intro Cons.IH [OF _ y]) simp
  ultimately show ?case by (simp add: bs)
qed simp

interpretation activity_codec: wire_codec encode_local_activity decode_local_activity activity_typed
proof unfold_locales
  fix a bs
  assume typed: "activity_typed a" and enc: "encode_local_activity a = Inr bs"
  let ?n = "length (activity_requests a)"
  obtain events where small: "?n \<le> 128" and events: "write_list encode_network_event (activity_requests a) = Inr events"
    and bs: "bs = activity_device a @ [word_of_nat ?n] @ events"
    using enc by (auto simp: encode_local_activity_def res_bind_Inr_iff split: if_splits)
  have lens: "length (activity_device a) = 32" "length events = ?n * event_size" "unat (word_of_nat ?n :: byte) = ?n"
    using typed small write_events_length [OF _ events] by (simp_all add: activity_typed_def unat_of_nat)
  have "decode_events ?n events = Inr (activity_requests a)"
    using typed events decode_events_iff [OF lens(2)] by (simp add: activity_typed_def)
  then show "decode_local_activity bs = Inr a"
    using small lens by (simp add: decode_local_activity_def bs nth_append)
next
  fix a bs
  assume dec: "decode_local_activity bs = Inr a"
  obtain events where len: "length bs = 33 + unat (bs ! 32) * event_size" and small: "unat (bs ! 32) \<le> 128"
    and events: "decode_events (unat (bs ! 32)) (drop 33 bs) = Inr events" and a: "a = \<lparr>activity_device = take 32 bs, activity_requests = events\<rparr>"
    using dec by (auto simp: decode_local_activity_def Let_def res_bind_Inr_iff split: if_splits)
  have ok: "length events = unat (bs ! 32)" "list_all (\<lambda>e. length (event_network e) = 16 \<and> length (event_device e) = 32) events"
      "write_list encode_network_event events = Inr (drop 33 bs)"
    using events len decode_events_iff [of "drop 33 bs" "unat (bs ! 32)" events] by simp_all
  have "drop 32 bs = bs ! 32 # drop 33 bs" using len Cons_nth_drop_Suc [of 32 bs] by simp
  then have "take 32 bs @ bs ! 32 # drop 33 bs = bs" by (metis append_take_drop_id)
  then show "activity_typed a \<and> encode_local_activity a = Inr bs"
    using ok len small by (simp add: activity_typed_def encode_local_activity_def a)
qed

section \<open>Diagnostics of the client\<close>

definition local_diagnostics_typed :: "LocalDiagnostics \<Rightarrow> bool" where
  "local_diagnostics_typed d \<longleftrightarrow> configuration_of_raw (configuration_raw (ld_configuration d)) = ld_configuration d \<and> ld_rtt_us d \<noteq> Some 0xffffffff"

lemma configuration_raw_of_raw [simp]: "configuration_raw (configuration_of_raw b) = b"
  by (simp add: configuration_of_raw_def)

lemma flag_byte_simps [simp]: "\<not> flag_byte b > 1" "flag_byte b = 0 \<longleftrightarrow> \<not> b" "flag_byte b = 1 \<longleftrightarrow> b"
  by (simp_all add: flag_byte_def)

lemma flag_byte_of: "\<not> b > 1 \<Longrightarrow> flag_byte (b = 1) = b"
  using byte_le_1 [of b] by (auto simp: flag_byte_def not_less)

text \<open>The places at which the fields of the fixed part stand.\<close>

lemma le_read_places:
  assumes "bs = [x, y, z, c] @ a @ r @ s @ t @ u @ v @ e"
    and "length a = 4" "length r = 4" "length s = 8" "length t = 8" "length u = 4" "length v = 2"
  shows "le_read bs 4 4 = le_value a" "le_read bs 8 4 = le_value r" "le_read bs 12 8 = le_value s" "le_read bs 20 8 = le_value t"
    "le_read bs 28 4 = le_value u" "le_read bs 32 2 = le_value v" "drop 34 bs = e" "length bs = 34 + length e"
  using assms by (simp_all add: le_read_def)

lemma fixed_part:
  assumes "34 \<le> length bs"
  obtains x y z c a r s t u v e where "bs = [x, y, z, c] @ a @ r @ s @ t @ u @ v @ e"
    "length a = 4" "length r = 4" "length s = 8" "length t = 8" "length u = 4" "length v = 2"
proof -
  define x y z c w where head: "x = bs ! 0" "y = bs ! 1" "z = bs ! 2" "c = bs ! 3" "w = drop 4 bs"
  have w: "bs = x # y # z # c # w"
  proof -
    obtain x' y' z' c' w' where "bs = x' # y' # z' # c' # w'"
      using assms by (cases bs; cases "tl bs"; cases "tl (tl bs)"; cases "tl (tl (tl bs))") auto
    then show ?thesis by (simp add: head)
  qed
  define a r s t u v e where split: "a = take 4 w" "r = take 4 (drop 4 w)" "s = take 8 (drop 8 w)" "t = take 8 (drop 16 w)"
    "u = take 4 (drop 24 w)" "v = take 2 (drop 28 w)" "e = drop 30 w"
  have "w = a @ drop 4 w" "drop 4 w = r @ drop 8 w" "drop 8 w = s @ drop 16 w" "drop 16 w = t @ drop 24 w"
    "drop 24 w = u @ drop 28 w" "drop 28 w = v @ e"
    using append_take_drop_id [of 4 "drop 4 w"] append_take_drop_id [of 8 "drop 8 w"] append_take_drop_id [of 8 "drop 16 w"]
      append_take_drop_id [of 4 "drop 24 w"] append_take_drop_id [of 2 "drop 28 w"] by (simp_all add: split)
  then have "w = a @ r @ s @ t @ u @ v @ e" by metis
  then show thesis using assms by (intro that [of x y z c a r s t u v e]) (simp_all add: w split)
qed

lemma le_bytes_le_value_4: "length a = 4 \<Longrightarrow> le_bytes 4 (le_value a :: 32 word) = a"
  using le_bytes_le_value [of a, where 'a = 32] by simp

lemma le_bytes_le_value_8: "length a = 8 \<Longrightarrow> le_bytes 8 (le_value a :: 64 word) = a"
  using le_bytes_le_value [of a, where 'a = 64] by simp

lemma le_bytes_le_value_2: "length a = 2 \<Longrightarrow> le_bytes 2 (le_value a :: 16 word) = a"
  using le_bytes_le_value [of a, where 'a = 16] by simp

interpretation local_diagnostics_codec: wire_codec encode_local_diagnostics decode_local_diagnostics local_diagnostics_typed
proof unfold_locales
  fix d bs
  assume typed: "local_diagnostics_typed d" and enc: "encode_local_diagnostics d = Inr bs"
  let ?e = "ld_last_error d" and ?c = "ld_configuration d" and ?r = "case ld_rtt_us d of None \<Rightarrow> 0xffffffff | Some rtt \<Rightarrow> rtt"
  have ok: "length ?e \<le> 512" "\<not> configuration_raw ?c > 2"
      "?c = CS_configured \<or> \<not> (ld_connected d \<or> ld_authenticated d \<or> ld_tcp_fallback d \<or> ld_active_networks d \<noteq> 0)"
    and bs: "bs = [flag_byte (ld_connected d), flag_byte (ld_authenticated d), flag_byte (ld_tcp_fallback d), configuration_raw ?c] @
        le_bytes 4 (ld_active_networks d) @ le_bytes 4 ?r @ le_bytes 8 (ld_sent_bytes d) @ le_bytes 8 (ld_received_bytes d) @
        le_bytes 4 (ld_reconnects d) @ le_bytes 2 (word_of_nat (length ?e) :: 16 word) @ ?e"
    using enc by (auto simp: encode_local_diagnostics_def split: if_splits)
  note places = le_read_places [OF bs, simplified]
  have len: "unat (word_of_nat (length ?e) :: 16 word) = length ?e" using ok(1) by (simp add: unat_of_nat)
  have first: "bs ! 0 = flag_byte (ld_connected d)" "bs ! 1 = flag_byte (ld_authenticated d)" "bs ! 2 = flag_byte (ld_tcp_fallback d)"
    "bs ! 3 = configuration_raw ?c" by (simp_all add: bs)
  show "decode_local_diagnostics bs = Inr d"
    unfolding decode_local_diagnostics_def Let_def places first using ok typed len
    by (cases "?c = CS_configured"; cases "ld_rtt_us d") (simp_all add: local_diagnostics_typed_def le_value_le_bytes)
next
  fix d bs
  assume dec: "decode_local_diagnostics bs = Inr d"
  then have "34 \<le> length bs" by (auto simp: decode_local_diagnostics_def split: if_splits)
  then obtain x y z c a r s t u v e where bs: "bs = [x, y, z, c] @ a @ r @ s @ t @ u @ v @ e"
    and lens: "length a = 4" "length r = 4" "length s = 8" "length t = 8" "length u = 4" "length v = 2" by (rule fixed_part)
  note places = le_read_places [OF bs lens]
  let ?a = "le_value a :: 32 word" and ?r = "le_value r :: 32 word" and ?n = "le_value v :: 16 word"
  have first: "bs ! 0 = x" "bs ! 1 = y" "bs ! 2 = z" "bs ! 3 = c" by (simp_all add: bs)
  have ok: "\<not> x > 1" "\<not> y > 1" "\<not> z > 1" "\<not> c > 2" "c \<noteq> 0 \<longrightarrow> x = 0 \<and> y = 0 \<and> z = 0" "length e = unat ?n" "unat ?n \<le> 512"
      "configuration_of_raw c = CS_configured \<or> ?a = 0"
    and d: "d = \<lparr>ld_connected = (x = 1), ld_authenticated = (y = 1), ld_tcp_fallback = (z = 1), ld_configuration = configuration_of_raw c,
        ld_active_networks = ?a, ld_rtt_us = (if ?r \<noteq> 0xffffffff then Some ?r else None), ld_sent_bytes = le_value s,
        ld_received_bytes = le_value t, ld_reconnects = le_value u, ld_last_error = e\<rparr>"
    using dec unfolding decode_local_diagnostics_def Let_def places first by (auto split: if_splits)
  have zero: "configuration_of_raw c = CS_configured \<longleftrightarrow> c = 0" by (simp add: configuration_of_raw_def)
  have rtt: "(case if ?r \<noteq> 0xffffffff then Some ?r else None of None \<Rightarrow> 0xffffffff | Some rtt \<Rightarrow> rtt) = ?r" by simp
  have "encode_local_diagnostics d = Inr ([x, y, z, c] @ le_bytes 4 ?a @ le_bytes 4 ?r @ le_bytes 8 (le_value s :: 64 word) @
      le_bytes 8 (le_value t :: 64 word) @ le_bytes 4 (le_value u :: 32 word) @ le_bytes 2 ?n @ e)"
    using ok zero by (cases "c = 0") (simp_all add: encode_local_diagnostics_def d rtt flag_byte_of)
  then show "local_diagnostics_typed d \<and> encode_local_diagnostics d = Inr bs"
    by (simp add: local_diagnostics_typed_def d bs lens le_bytes_le_value_4 le_bytes_le_value_8 le_bytes_le_value_2)
qed

section \<open>Diagnostics of games\<close>

definition game_typed :: "GameDiagnostics \<Rightarrow> bool" where
  "game_typed v \<longleftrightarrow> list_all (\<lambda>g. length (game_network g) = 16) (game_networks v)"

definition game_flags :: "GameDiagnostics \<Rightarrow> byte" where
  "game_flags v = (if game_adapter_failed v then 1 else 0) OR (if game_truncated v then 2 else 0)"

lemma game_flags_bits: "bit (game_flags v) 0 = game_adapter_failed v" "bit (game_flags v) 1 = game_truncated v" "game_flags v \<le> 3"
  by (auto simp: game_flags_def)

lemma game_flags_recovered:
  fixes flags :: byte
  assumes "flags \<le> 3"
  shows "(if bit flags 0 then 1 else 0) OR (if bit flags 1 then 2 else 0) = flags"
proof -
  have "unat flags < 16" using assms by (simp add: word_le_nat_alt)
  then have "flags \<in> {0, 1, 2, 3, 4, 5, 6, 7, 8, 9, 10, 11, 12, 13, 14, 15}" by (rule digit_cases)
  then show ?thesis using assms by (elim insertE emptyE) simp_all
qed

lemma read_game_network_iff:
  "read_game_network r = Inr (g, rest) \<longleftrightarrow> r = game_layout g @ rest \<and> length (game_network g) = 16"
  by (cases g) (auto simp: read_game_network_def game_layout_def wire_reads)

lemma encode_game_diagnostics_iff:
  "encode_game_diagnostics v = Inr bs \<longleftrightarrow> validate_game_diagnostics v = Inr () \<and>
     bs = put (0x4c4c4744 :: 32 word) @ [1, game_flags v] @ put (game_mtu v) @ put (game_rejected_packets v) @
       put (word_of_nat (length (game_networks v)) :: 16 word) @ concat (map game_layout (game_networks v))"
  by (auto simp: encode_game_diagnostics_def res_bind_Inr_iff game_flags_def)

lemma valid_game_size: "validate_game_diagnostics v = Inr () \<Longrightarrow> length (game_networks v) \<le> 256"
  by (auto simp: validate_game_diagnostics_def max_game_diagnostic_networks_def split: if_splits)

interpretation game_codec: wire_codec encode_game_diagnostics decode_game_diagnostics game_typed
proof unfold_locales
  fix v bs
  assume typed: "game_typed v" and enc: "encode_game_diagnostics v = Inr bs"
  let ?n = "length (game_networks v)"
  have valid: "validate_game_diagnostics v = Inr ()" and bs: "bs = put (0x4c4c4744 :: 32 word) @ [1, game_flags v] @ put (game_mtu v) @
      put (game_rejected_packets v) @ put (word_of_nat ?n :: 16 word) @ concat (map game_layout (game_networks v))"
    using enc by (simp_all add: encode_game_diagnostics_iff)
  have count: "unat (word_of_nat ?n :: 16 word) = ?n" "?n \<le> 256" using valid_game_size [OF valid] by (simp_all add: unat_of_nat)
  have networks: "prepeat ?n read_game_network (concat (map game_layout (game_networks v))) = Inr (game_networks v, [])"
    using typed by (auto simp: prepeat_iff [OF read_game_network_iff] game_typed_def list_all_iff)
  have eta: "\<lparr>game_mtu = game_mtu v, game_adapter_failed = game_adapter_failed v, game_truncated = game_truncated v,
      game_rejected_packets = game_rejected_packets v, game_networks = game_networks v\<rparr> = v" by simp
  show "decode_game_diagnostics bs = Inr v"
    using count networks valid game_flags_bits [of v]
    by (simp add: decode_game_diagnostics_def bs wire_steps max_game_diagnostic_networks_def Let_def eta)
next
  fix v bs
  assume dec: "decode_game_diagnostics bs = Inr v"
  obtain flags :: byte and mtu :: "16 word" and rejected :: "64 word" and count :: "16 word" and gs where
    bs: "bs = put (0x4c4c4744 :: 32 word) @ [1, flags] @ put mtu @ put rejected @ put count @ concat (map game_layout gs)"
    and ok: "flags \<le> 3" "length gs = unat count" "list_all (\<lambda>g. length (game_network g) = 16) gs"
    and v: "v = \<lparr>game_mtu = mtu, game_adapter_failed = bit flags 0, game_truncated = bit flags 1, game_rejected_packets = rejected,
       game_networks = gs\<rparr>" and valid: "validate_game_diagnostics v = Inr ()"
    using dec by (auto simp: decode_game_diagnostics_def wire_reads prepeat_iff [OF read_game_network_iff] Let_def split: if_splits)
  have "game_flags v = flags" using game_flags_recovered [OF ok(1)] by (simp add: game_flags_def v)
  then show "game_typed v \<and> encode_game_diagnostics v = Inr bs"
    using ok valid by (simp add: encode_game_diagnostics_iff game_typed_def bs) (simp add: v)
qed

end
