(* ===== verification/Wire_Formats.thy ===== *)
theory Wire_Formats
  imports Network_Policy Packet_Messages Network_Management User_Access Candidates Capabilities Peer_Messages
    Local_Formats
begin

text \<open>
  The messages of the protocol taken together. Each codec satisfies the contract \<open>wire_codec\<close> in the
  theory that models it; here their common consequence is stated over the encoders and decoders of
  \<open>protocol/\<close>, for the relay and for the local control channel, and of \<open>p2p/candidates.cpp\<close>.
\<close>

text \<open>
  C30.
  Every message format is canonical: a payload decodes to a message exactly when it is the encoding
  of that message. So nothing is lost on the way, no message has a second encoding, and whatever the
  encoder refuses (zero identifiers, unknown enumeration values, names that are too long, duplicate
  entries, oversized lists) the decoder refuses too. The side conditions say that the arrays of a
  message have the size the struct gives them, that a request whose action does not carry
  \<open>require_approval\<close> does not set it, and that the round-trip time of the local diagnostics is not the
  value \<open>0xffffffff\<close> that stands for its absence.
\<close>

theorem wire_formats_canonical:
  "(decode_network_create_request b1 = Inr m1 \<longleftrightarrow> encode_network_create_request m1 = Inr b1) \<and>
   (decode_network_list_request b2 = Inr m2 \<longleftrightarrow> encode_network_list_request m2 = Inr b2) \<and>
   (decode_network_selection_request b3 = Inr m3 \<longleftrightarrow>
     length (selection_network m3) = 16 \<and> encode_network_selection_request m3 = Inr b3) \<and>
   (decode_network_member_request b4 = Inr m4 \<longleftrightarrow>
     (length (target_network m4) = 16 \<and> length (target_device m4) = 32) \<and> encode_network_member_request m4 = Inr b4) \<and>
   (decode_network_operation_result b5 = Inr m5 \<longleftrightarrow>
     length (result_network m5) = 16 \<and> encode_network_operation_result m5 = Inr b5) \<and>
   (decode_network_list_result b6 = Inr m6 \<longleftrightarrow>
     list_all summary_typed (listed_networks m6) \<and> encode_network_list_result m6 = Inr b6) \<and>
   (decode_network_event b7 = Inr m7 \<longleftrightarrow>
     (length (event_network m7) = 16 \<and> length (event_device m7) = 32) \<and> encode_network_event m7 = Inr b7) \<and>
   (decode_network_peer_state b8 = Inr m8 \<longleftrightarrow> peer_state_typed m8 \<and> encode_network_peer_state m8 = Inr b8) \<and>
   (decode_network_peer_revocation b9 = Inr m9 \<longleftrightarrow>
     length (revoked_network m9) = 16 \<and> encode_network_peer_revocation m9 = Inr b9) \<and>
   (decode_network_key_envelope b10 = Inr m10 \<longleftrightarrow> envelope_typed m10 \<and> encode_network_key_envelope m10 = Inr b10) \<and>
   (decode_network_key_publish_request b11 = Inr m11 \<longleftrightarrow>
     list_all envelope_typed (envelopes m11) \<and> encode_network_key_publish_request m11 = Inr b11) \<and>
   (decode_encrypted_network_packet b12 = Inr m12 \<longleftrightarrow> packet_typed m12 \<and> encode_encrypted_network_packet m12 = Inr b12) \<and>
   (decode_forwarded_network_packet b13 = Inr m13 \<longleftrightarrow>
     (length (forwarded_sender m13) = 32 \<and> packet_typed (forwarded_packet m13)) \<and> encode_forwarded_network_packet m13 = Inr b13) \<and>
   (decode_audit_event b14 = Inr m14 \<longleftrightarrow> audit_typed m14 \<and> encode_audit_event m14 = Inr b14) \<and>
   (decode_management_request b15 = Inr m15 \<longleftrightarrow> management_request_typed m15 \<and> encode_management_request m15 = Inr b15) \<and>
   (decode_management_result b16 = Inr m16 \<longleftrightarrow> management_result_typed m16 \<and> encode_management_result m16 = Inr b16) \<and>
   (decode_access_request b17 = Inr m17 \<longleftrightarrow> access_request_typed m17 \<and> encode_access_request m17 = Inr b17) \<and>
   (decode_access_result b18 = Inr m18 \<longleftrightarrow> access_result_typed m18 \<and> encode_access_result m18 = Inr b18) \<and>
   (decode_candidates b19 = Inr m19 \<longleftrightarrow> exchange_typed m19 \<and> encode_candidates m19 = Inr b19) \<and>
   (decode_capability_offer b20 = Inr m20 \<longleftrightarrow> encode_capability_offer m20 = Inr b20) \<and>
   (decode_capability_selection b21 = Inr m21 \<longleftrightarrow> encode_capability_selection m21 = Inr b21) \<and>
   (decode_network_policy b22 = Inr m22 \<longleftrightarrow> policy_typed m22 \<and> encode_network_policy m22 = Inr b22) \<and>
   (decode_path_diagnostics b23 = Inr m23 \<longleftrightarrow> diagnostics_typed m23 \<and> encode_path_diagnostics m23 = Inr b23) \<and>
   (decode_local_message b24 = Inr m24 \<longleftrightarrow> message_typed m24 \<and> encode_local_message m24 = Inr b24) \<and>
   (decode_local_activity b25 = Inr m25 \<longleftrightarrow> activity_typed m25 \<and> encode_local_activity m25 = Inr b25) \<and>
   (decode_local_diagnostics b26 = Inr m26 \<longleftrightarrow> local_diagnostics_typed m26 \<and> encode_local_diagnostics m26 = Inr b26) \<and>
   (decode_game_diagnostics b27 = Inr m27 \<longleftrightarrow> game_typed m27 \<and> encode_game_diagnostics m27 = Inr b27)"
  using network_messages_roundtrip [of b1 m1 b2 m2 b3 m3 b4 m4 b5 m5 b6 m6 b7 m7]
    peer_messages_roundtrip [of b8 m8 b9 m9 b10 m10 b11 m11] packet_codec.dec_iff [of b12 m12] forwarded_codec.dec_iff [of b13 m13]
    management_messages_roundtrip [of b14 m14 b15 m15 b16 m16] access_messages_roundtrip [of b17 m17 b18 m18]
    candidates_codec.dec_iff [of b19 m19] offer_codec.dec_iff [of b20 m20] selection_result_codec.dec_iff [of b21 m21]
    policy_codec.dec_iff [of b22 m22] diagnostics_codec.dec_iff [of b23 m23] message_codec.dec_iff [of b24 m24] activity_codec.dec_iff [of b25 m25]
    local_diagnostics_codec.dec_iff [of b26 m26] game_codec.dec_iff [of b27 m27]
  by (intro conjI) (elim conjE; simp only: simp_thms)+

end
