(* ===== verification/Tunnels.thy ===== *)
theory Tunnels
  imports Ipv4_Packets Ipv4_Fanout Peer_Messages
begin

text \<open>
  How packets travel between members: \<open>network/ethernet.cpp\<close> wraps the Ethernet frames of a TAP
  device in IPv4, \<open>network/routed_network.cpp\<close> wraps the packets of routed subnets and derives, from
  the state of the networks, the routes to install and the subnets to forward to.
\<close>

section \<open>Ethernet frames\<close>

record VirtualNetworkAddress =
  vna_network :: NetworkId
  vna_address :: "32 word"
  vna_subnet :: "32 word"
  vna_prefix :: byte

definition ethernet_mtu :: nat where "ethernet_mtu = 1280"
definition ethernet_tunnel_header :: nat where "ethernet_tunnel_header = 32"
definition tunnel_port :: "32 word" where "tunnel_port = 48042"

definition same_mac :: "bytes \<Rightarrow> nat \<Rightarrow> bytes \<Rightarrow> bool" where
  "same_mac fr offset mac \<longleftrightarrow> take 6 (drop offset fr) = mac"

definition virtual_mac :: "32 word \<Rightarrow> bytes" where
  "virtual_mac address = [2, 0x4c, ucast (drop_bit 24 address), ucast (drop_bit 16 address), ucast (drop_bit 8 address), ucast address]"

definition multicast_mac :: "32 word \<Rightarrow> bytes" where
  "multicast_mac target = [1, 0, 0x5e, ucast (drop_bit 16 target AND 0x7f), ucast (drop_bit 8 target), ucast target]"

definition validate_network :: "VirtualNetworkAddress \<Rightarrow> unit res" where
  "validate_network network =
     require (Invalid_argument ''invalid TAP network address'') (is_ipv4_host (vna_address network) (vna_subnet network) (vna_prefix network))"

definition arp_target :: "bytes \<Rightarrow> VirtualNetworkAddress \<Rightarrow> 32 word \<Rightarrow> 32 word res" where
  "arp_target fr network sender =
     (if length fr < 42 \<or> ip_get fr 14 2 \<noteq> 1 \<or> ip_get fr 16 2 \<noteq> 0x0800 \<or> fr ! 18 \<noteq> 6 \<or> fr ! 19 \<noteq> 4 \<or>
         (ip_get fr 20 2 \<noteq> 1 \<and> ip_get fr 20 2 \<noteq> 2) \<or> \<not> same_mac fr 22 (virtual_mac sender) \<or> ip_get fr 28 4 \<noteq> sender
      then Inl (Invalid_argument ''invalid ARP identity'')
      else if \<not> is_ipv4_host (ip_get fr 38 4) (vna_subnet network) (vna_prefix network)
      then Inl (Invalid_argument ''ARP target is outside the virtual subnet'')
      else Inr (ip_get fr 38 4))"

definition ipv4_target :: "bytes \<Rightarrow> VirtualNetworkAddress \<Rightarrow> 32 word \<Rightarrow> 32 word res" where
  "ipv4_target fr network sender =
     (if length fr < 34 then Inl (Invalid_argument ''truncated Ethernet IPv4 packet'')
      else let len = unat (ip_get fr 16 2) in
      if len < 20 \<or> len > length fr - 14 then Inl (Invalid_argument ''invalid Ethernet IPv4 length'')
      else let ip = take len (drop 14 fr) in
      res_bind (inspect_ipv4 ip) (\<lambda>_.
      if ip_get ip 12 4 \<noteq> sender then Inl (Invalid_argument ''Ethernet IPv4 source does not match membership'')
      else let target = ip_get ip 16 4 in
      if \<not> is_ipv4_host target (vna_subnet network) (vna_prefix network) \<and>
         \<not> is_ipv4_fanout_destination target (vna_subnet network) (vna_prefix network)
      then Inl (Invalid_argument ''Ethernet IPv4 destination is outside the virtual subnet'')
      else Inr target))"

definition validate_frame :: "bytes \<Rightarrow> VirtualNetworkAddress \<Rightarrow> 32 word \<Rightarrow> 32 word res" where
  "validate_frame fr network sender =
     (if length fr < 14 \<or> length fr > ethernet_mtu + 14 \<or> \<not> is_ipv4_host sender (vna_subnet network) (vna_prefix network) \<or>
         \<not> same_mac fr 6 (virtual_mac sender)
      then Inl (Invalid_argument ''invalid Ethernet size or source'')
      else let broadcast = list_all (\<lambda>b. b = 255) (take 6 fr); destination = ip_get fr 2 4; type = ip_get fr 12 2 in
      res_bind (if type = 0x0806 then arp_target fr network sender
          else if type = 0x0800 then ipv4_target fr network sender
          else Inl (Invalid_argument ''TAP supports ARP and scoped IPv4 Ethernet only'')) (\<lambda>target.
      if broadcast then Inr 0xffffffff
      else if type = 0x0800 \<and> is_ipv4_scoped_multicast target \<and> same_mac fr 0 (multicast_mac target) then Inr 0xffffffff
      else if \<not> is_ipv4_host destination (vna_subnet network) (vna_prefix network) \<or>
         \<not> same_mac fr 0 (virtual_mac destination) \<or> destination \<noteq> target
      then Inl (Invalid_argument ''Ethernet destination does not match the virtual address'')
      else Inr destination))"

definition encapsulate_ethernet :: "bytes \<Rightarrow> VirtualNetworkAddress \<Rightarrow> bytes res" where
  "encapsulate_ethernet fr network =
     res_bind (validate_network network) (\<lambda>_.
     res_bind (validate_frame fr network (vna_address network)) (\<lambda>target.
     let p0 = replicate (ethernet_tunnel_header + length fr) 0;
         p1 = ip_put (p0[0 := 0x45]) 2 (word_of_nat (length p0)) 2;
         p2 = ip_put (p1[6 := 0x40, 8 := 64, 9 := 17]) 12 (vna_address network) 4;
         p3 = ip_put p2 16 target 4;
         p4 = ip_put (ip_put p3 20 tunnel_port 2) 22 tunnel_port 2;
         p5 = ip_put p4 24 (word_of_nat (length p0 - 20)) 2;
         p6 = p5[28 := 0x4c, 29 := 0x4c, 30 := 0x32, 31 := 1] in
     update_ipv4_checksum (take ethernet_tunnel_header p6 @ fr)))"

definition decapsulate_ethernet :: "bytes \<Rightarrow> VirtualNetworkAddress \<Rightarrow> bytes res" where
  "decapsulate_ethernet packet network =
     res_bind (validate_network network) (\<lambda>_.
     if length packet < ethernet_tunnel_header + 14 \<or> length packet > ethernet_tunnel_header + ethernet_mtu + 14 \<or>
        packet ! 0 \<noteq> 0x45 \<or> packet ! 9 \<noteq> 17 \<or> ip_get packet 6 2 AND 0x3fff \<noteq> 0 \<or> ip_get packet 20 2 \<noteq> tunnel_port \<or>
        ip_get packet 22 2 \<noteq> tunnel_port \<or> unat (ip_get packet 24 2) \<noteq> length packet - 20 \<or> ip_get packet 26 2 \<noteq> 0 \<or>
        packet ! 28 \<noteq> 0x4c \<or> packet ! 29 \<noteq> 0x4c \<or> packet ! 30 \<noteq> 0x32 \<or> packet ! 31 \<noteq> 1
     then Inl (Invalid_argument ''invalid Ethernet tunnel packet'')
     else res_bind (inspect_ipv4 packet) (\<lambda>_.
       let fr = drop ethernet_tunnel_header packet in
       res_bind (validate_frame fr network (ip_get packet 12 4)) (\<lambda>target.
       if ip_get packet 16 4 \<noteq> target \<or> (target \<noteq> 0xffffffff \<and> target \<noteq> vna_address network)
       then Inl (Invalid_argument ''Ethernet tunnel destination mismatch'')
       else Inr fr)))"

section \<open>Routed subnets\<close>

definition safe_routed_ipv4 :: "bytes \<Rightarrow> bool res" where
  "safe_routed_ipv4 packet = res_bind (inspect_ipv4 packet) (\<lambda>h.
     if ip_header_size h \<noteq> 20 \<or> packet ! 8 \<le> 1 then Inr False
     else if packet ! 9 = 6 \<or> packet ! 9 = 17 then Inr True
     else if packet ! 9 \<noteq> 1 \<or> ip_fragment_offset h \<noteq> 0 \<or> ip_more_fragments h \<or> length packet < 28 then Inr False
     else Inr (packet ! 20 \<in> {0, 3, 8, 11, 12}))"

definition encapsulate_routed_ipv4 :: "bytes \<Rightarrow> 32 word \<Rightarrow> 32 word \<Rightarrow> bytes res" where
  "encapsulate_routed_ipv4 inner source destination = res_bind (inspect_ipv4 inner) (\<lambda>_.
     if length inner > 65515 then Inl (Length_error ''routed IPv4 packet is too large'')
     else let sz = length inner + 20;
              o1 = (replicate 20 0)[0 := 0x45, 2 := word_of_nat (sz div 256), 3 := word_of_nat sz, 8 := 64, 9 := 4];
              o2 = ip_put (ip_put o1 12 source 4) 16 destination 4 in
       res_bind (update_ipv4_checksum o2) (\<lambda>outer. Inr (outer @ inner)))"

definition decapsulate_routed_ipv4 :: "bytes \<Rightarrow> bytes res" where
  "decapsulate_routed_ipv4 outer = res_bind (inspect_ipv4 outer) (\<lambda>h.
     if outer ! 9 \<noteq> 4 \<or> ip_header_size h \<noteq> 20 \<or> ip_fragment_offset h \<noteq> 0 \<or> ip_more_fragments h
     then Inl (Invalid_argument ''invalid gateway tunnel'')
     else let inner = drop 20 outer in res_bind (inspect_ipv4 inner) (\<lambda>_. Inr inner))"

section \<open>Routes and forwarding\<close>

text \<open>The state a session publishes, \<open>session/network_state.hpp\<close>.\<close>

record NetworkKeySnapshot =
  snapshot_epoch :: "64 word"
  snapshot_key :: bytes

record PacketIdentitySnapshot =
  snapshot_device :: DeviceId
  snapshot_signed_key :: SignedDeviceKey

record ActiveNetworkPacketState =
  active_peers :: NetworkPeerState
  active_key :: NetworkKeySnapshot

record NetworkSnapshot =
  snapshot_identity :: "PacketIdentitySnapshot option"
  snapshot_networks :: "ActiveNetworkPacketState list"

record AdapterRoute =
  adapter_network :: NetworkId
  adapter_address :: "32 word"
  adapter_prefix :: byte

record AdapterForward =
  forward_network :: NetworkId
  forward_subnet :: "32 word"
  forward_prefix :: byte
  forward_member :: "32 word"

record RoutingConfiguration =
  config_routes :: "AdapterRoute list"
  config_forwards :: "AdapterForward list"

definition no_routing :: RoutingConfiguration where
  "no_routing = \<lparr>config_routes = [], config_forwards = []\<rparr>"

fun res_fold :: "('a \<Rightarrow> 'b \<Rightarrow> 'b res) \<Rightarrow> 'a list \<Rightarrow> 'b \<Rightarrow> 'b res" where
  "res_fold f [] acc = Inr acc"
| "res_fold f (x # xs) acc = res_bind (f x acc) (res_fold f xs)"

text \<open>One route of one network's policy.\<close>

definition add_route :: "DeviceId \<Rightarrow> bool \<Rightarrow> bool \<Rightarrow> NetworkPeerState \<Rightarrow> NetworkPolicy \<Rightarrow> RoutedSubnet \<Rightarrow> RoutingConfiguration \<Rightarrow>
    RoutingConfiguration res" where
  "add_route own accept_routes fwd st policy route result =
     (if \<not> private_routed_subnet (route_address route) (route_prefix route) \<or>
         subnets_overlap (route_address route) (route_prefix route) 0x0a400000 10
      then Inl (Invalid_argument ''unsafe gateway subnet'')
      else if route_gateway route = own \<and> fwd
      then Inr (result\<lparr>config_forwards := config_forwards result @
        map (\<lambda>peer. \<lparr>forward_network = state_network st, forward_subnet = route_address route, forward_prefix = route_prefix route,
               forward_member = peer_address peer\<rparr>)
          (filter (\<lambda>peer. peer_key peer \<noteq> None \<and> route_allows policy route (peer_device peer)) (state_peers st))\<rparr>)
      else if accept_routes \<and> route_allows policy route own \<and>
        list_ex (\<lambda>peer. peer_device peer = route_gateway route \<and> peer_key peer \<noteq> None) (state_peers st)
      then Inr (result\<lparr>config_routes := config_routes result @
        [\<lparr>adapter_network = state_network st, adapter_address = route_address route, adapter_prefix = route_prefix route\<rparr>]\<rparr>)
      else Inr result)"

definition add_network :: "DeviceId \<Rightarrow> bool \<Rightarrow> bool \<Rightarrow> ActiveNetworkPacketState \<Rightarrow> RoutingConfiguration \<Rightarrow> RoutingConfiguration res" where
  "add_network own accept_routes fwd n result =
     (case state_policy (active_peers n) of
        None \<Rightarrow> Inr result
      | Some policy \<Rightarrow> res_fold (add_route own accept_routes fwd (active_peers n) policy) (routes policy) result)"

text \<open>The checks of route \<open>i\<close> against the overlays and the routes before it.\<close>

fun check_routes :: "NetworkSnapshot \<Rightarrow> AdapterRoute list \<Rightarrow> AdapterRoute list \<Rightarrow> unit res" where
  "check_routes snapshot before [] = Inr ()"
| "check_routes snapshot before (route # rest) =
     (if \<not> private_routed_subnet (adapter_address route) (adapter_prefix route) then Inl (Invalid_argument ''unsafe routed subnet'')
      else if list_ex (\<lambda>n. subnets_overlap (adapter_address route) (adapter_prefix route) (state_subnet (active_peers n))
          (state_prefix (active_peers n))) (snapshot_networks snapshot)
      then Inl (Invalid_argument ''routed subnet overlaps overlay'')
      else if list_ex (\<lambda>other. subnets_overlap (adapter_address route) (adapter_prefix route) (adapter_address other)
          (adapter_prefix other)) before
      then Inl (Invalid_argument ''routed subnets overlap'')
      else check_routes snapshot (before @ [route]) rest)"

definition routing_configuration :: "NetworkSnapshot \<Rightarrow> bool \<Rightarrow> bool \<Rightarrow> RoutingConfiguration res" where
  "routing_configuration snapshot accept_routes fwd =
     (case snapshot_identity snapshot of
        None \<Rightarrow> Inr no_routing
      | Some identity \<Rightarrow>
          res_bind (res_fold (add_network (snapshot_device identity) accept_routes fwd) (snapshot_networks snapshot) no_routing) (\<lambda>result.
          if length (config_forwards result) > 1024 then Inl (Invalid_argument ''gateway forwarding limit exceeded'')
          else res_bind (check_routes snapshot [] (config_routes result)) (\<lambda>_. Inr result)))"

end
