(* ===== verification/Tunnel_Safety.thy ===== *)
theory Tunnel_Safety
  imports Tunnels Ipv4_Fragments
begin

text \<open>
  Both tunnels give back what was put in, the Ethernet tunnel lets no member speak for another, and
  the routes that are installed are disjoint and the subnets forwarded only to entitled members.
\<close>

section \<open>Headers without options\<close>

lemma be_bytes_quad: "be_bytes 4 (w :: 32 word) = [ucast (drop_bit 24 w AND 255), ucast (drop_bit 16 w AND 255),
    ucast (drop_bit 8 w AND 255), ucast (w AND 255)]"
  using put_eval(2) [of w] by (simp add: put_def)

lemma be_value_quad: "be_value (be_bytes 4 w) = (w :: 32 word)"
  by (rule be_value_be_bytes) simp

text \<open>A header of 20 bytes with the don't-fragment flag or no flag.\<close>

lemma inspect_plain:
  assumes q: "q = [0x45, b1] @ be_bytes 2 (word_of_nat (20 + length pl) :: 32 word) @ [b4, b5, if df then 0x40 else 0, 0, b8, b9, x, y] @
      be_bytes 4 src @ be_bytes 4 dst @ pl"
    and "b8 \<noteq> 0" and sum_ok: "internet_checksum (take 20 q) = 0" and len: "length pl \<le> 65515"
  shows "inspect_ipv4 q = Inr \<lparr>ip_header_size = 20, ip_source = src, ip_destination = dst, ip_fragment_offset = 0,
    ip_more_fragments = False, ip_dont_fragment = df\<rparr>"
proof -
  have lq: "length q = 20 + length pl" by (simp add: q)
  have head: "header_length q = 20" by (simp add: header_length_def q)
  have u: "unat (word_of_nat (20 + length pl) :: 32 word) = 20 + length pl" using len by (intro unat_of_nat_size) simp
  have size_ok: "unat (ip_get q 2 2) = length q"
  proof -
    have "ip_get q 2 2 = be_value (be_bytes 2 (word_of_nat (20 + length pl) :: 32 word))" by (simp add: ip_get_def q be_bytes_pair)
    then show ?thesis using u len lq by (simp add: be_value_pair)
  qed
  have fl: "ip_get q 6 2 = (if df then 0x4000 else 0)"
    by (simp add: ip_get_def q be_bytes_pair) (simp add: be_value_def)
  have addr: "ip_get q 12 4 = src" "ip_get q 16 4 = dst"
    using be_value_quad [of src] be_value_quad [of dst] by (simp_all add: ip_get_def q be_bytes_pair be_bytes_quad)
  have opts: "copied_options q 20 = Inr []" by (simp add: copied_options_def option_loop.simps pad_options_def)
  have first: "drop_bit 4 (q ! 0) = 4" "q ! 8 = b8" by (simp_all add: q be_bytes_pair)
  have guard: "\<not> (length q < 20 \<or> length q > 65535 \<or> drop_bit 4 (q ! 0) \<noteq> 4)"
    "\<not> (20 < (20 :: nat) \<or> 20 > length q \<or> unat (ip_get q 2 2) \<noteq> length q \<or> q ! 8 = 0 \<or> internet_checksum (take 20 q) \<noteq> 0)"
    using len first size_ok sum_ok assms(2) by (auto simp: lq)
  show ?thesis
    unfolding inspect_ipv4_def head Let_def if_not_P [OF guard(1)] if_not_P [OF guard(2)] opts res_bind_simps fl addr
    using len by (cases df) (simp_all add: lq)
qed

section \<open>The Ethernet tunnel\<close>

lemma validate_frame_sizes: "validate_frame fr network sender = Inr target \<Longrightarrow> 14 \<le> length fr \<and> length fr \<le> 1294"
  by (auto simp: validate_frame_def ethernet_mtu_def split: if_splits)

lemma validate_frame_subnet:
  assumes "vna_subnet network' = vna_subnet network" and "vna_prefix network' = vna_prefix network"
  shows "validate_frame fr network' sender = validate_frame fr network sender"
  unfolding validate_frame_def arp_target_def ipv4_target_def assms ..

lemma replicate_split: "replicate (32 + n) (0 :: byte) = [0, 0, 0, 0, 0, 0, 0, 0, 0, 0, 0, 0, 0, 0, 0, 0, 0, 0, 0, 0, 0, 0, 0, 0, 0, 0, 0, 0, 0, 0, 0, 0] @ replicate n 0"
  unfolding replicate_add by (simp add: numeral_eq_Suc)

text \<open>Writing an integer, byte by byte.\<close>

lemma ip_put_pair:
  assumes "i + 2 \<le> length bs"
  shows "ip_put bs i w 2 = bs[i := ucast (drop_bit 8 w AND 255), i + 1 := ucast (w AND 255)]"
  unfolding ip_put_def be_bytes_pair using assms
  by (intro nth_equalityI) (auto simp: nth_append nth_list_update nth_Cons' intro!: arg_cong [of _ _ "(!) bs"])

lemma ip_put_quad:
  assumes "i + 4 \<le> length bs"
  shows "ip_put bs i w 4 = bs[i := ucast (drop_bit 24 w AND 255), i + 1 := ucast (drop_bit 16 w AND 255),
    i + 2 := ucast (drop_bit 8 w AND 255), i + 3 := ucast (w AND 255)]"
  unfolding ip_put_def be_bytes_quad using assms
  by (intro nth_equalityI) (auto simp: nth_append nth_list_update nth_Cons' intro!: arg_cong [of _ _ "(!) bs"])

text \<open>The bytes of a tunnel packet, with the two bytes of its checksum.\<close>

definition tunnel_packet :: "32 word \<Rightarrow> 32 word \<Rightarrow> byte \<Rightarrow> byte \<Rightarrow> bytes \<Rightarrow> bytes" where
  "tunnel_packet src dst x y fr = [0x45, 0] @ be_bytes 2 (word_of_nat (32 + length fr) :: 32 word) @ [0, 0, 0x40, 0, 64, 17, x, y]
     @ be_bytes 4 src @ be_bytes 4 dst @ be_bytes 2 tunnel_port @ be_bytes 2 tunnel_port
     @ be_bytes 2 (word_of_nat (12 + length fr) :: 32 word) @ [0, 0, 0x4c, 0x4c, 0x32, 1] @ fr"

lemma encapsulated_ethernet:
  assumes "validate_network network = Inr ()" and target: "validate_frame fr network (vna_address network) = Inr target"
  obtains x y where "encapsulate_ethernet fr network = Inr (tunnel_packet (vna_address network) target x y fr)"
    "internet_checksum (take 20 (tunnel_packet (vna_address network) target x y fr)) = 0"
proof -
  note sizes = validate_frame_sizes [OF target]
  let ?p = "tunnel_packet (vna_address network) target 0 0 fr"
  have "encapsulate_ethernet fr network = update_ipv4_checksum ?p"
    by (simp add: encapsulate_ethernet_def assms Let_def ethernet_tunnel_header_def replicate_split ip_put_pair ip_put_quad
        be_bytes_pair be_bytes_quad tunnel_packet_def)
  moreover have head: "header_length ?p = 20" by (simp add: header_length_def tunnel_packet_def)
  have "20 \<le> length ?p" "length ?p \<le> 65535" "?p ! 0 \<noteq> 0" using sizes by (simp_all add: tunnel_packet_def)
  then obtain q where q: "update_ipv4_checksum ?p = Inr q" by (auto simp: update_ipv4_checksum_def Let_def head)
  note sums = update_checksum_verifies [OF q \<open>?p ! 0 \<noteq> 0\<close> \<open>length ?p \<le> 65535\<close>, unfolded head]
  then obtain x y where xy: "q = take 10 ?p @ [x, y] @ drop 12 ?p" and ok: "internet_checksum (take 20 q) = 0" by blast
  have "q = tunnel_packet (vna_address network) target x y fr" unfolding xy by (simp add: be_bytes_pair tunnel_packet_def)
  ultimately show ?thesis using that [of x y] q ok by simp
qed

lemma decapsulated_ethernet:
  assumes "validate_network network = Inr ()" and "validate_frame fr network src = Inr dst"
    and "internet_checksum (take 20 (tunnel_packet src dst x y fr)) = 0" and "dst = 0xffffffff \<or> dst = vna_address network"
  shows "decapsulate_ethernet (tunnel_packet src dst x y fr) network = Inr fr"
proof -
  let ?q = "tunnel_packet src dst x y fr"
  note sizes = validate_frame_sizes [OF assms(2)]
  have parts: "length ?q = 32 + length fr" "?q ! 0 = 0x45" "?q ! 9 = 17" "ip_get ?q 12 4 = src" "ip_get ?q 16 4 = dst"
    "ip_get ?q 6 2 AND 0x3fff = 0" "ip_get ?q 26 2 = 0" "?q ! 28 = 0x4c" "?q ! 29 = 0x4c" "?q ! 30 = 0x32" "?q ! 31 = 1" "drop 32 ?q = fr"
    using be_value_quad [of src] be_value_quad [of dst] by (simp_all add: tunnel_packet_def ip_get_def be_bytes_pair be_bytes_quad) (simp_all add: be_value_def)
  have ports: "ip_get ?q 20 2 = tunnel_port" "ip_get ?q 22 2 = tunnel_port"
    using be_value_pair [of tunnel_port] by (simp_all add: tunnel_packet_def ip_get_def be_bytes_pair be_bytes_quad tunnel_port_def)
  have udp: "unat (ip_get ?q 24 2) = length ?q - 20"
  proof -
    have u: "unat (word_of_nat (12 + length fr) :: 32 word) = 12 + length fr" using sizes by (intro unat_of_nat_size) simp
    have "ip_get ?q 24 2 = be_value (be_bytes 2 (word_of_nat (12 + length fr) :: 32 word))"
      by (simp add: tunnel_packet_def ip_get_def be_bytes_pair be_bytes_quad)
    then show ?thesis using u sizes parts(1) by (simp add: be_value_pair)
  qed
  have "inspect_ipv4 ?q = Inr \<lparr>ip_header_size = 20, ip_source = src, ip_destination = dst, ip_fragment_offset = 0,
      ip_more_fragments = False, ip_dont_fragment = True\<rparr>"
    by (rule inspect_plain [where pl = "drop 20 ?q" and df = True and ?b1.0 = 0 and ?b4.0 = 0 and ?b5.0 = 0 and ?b8.0 = 64 and ?b9.0 = 17 and x = x and y = y])
      (use sizes assms(3) in \<open>simp_all add: tunnel_packet_def be_bytes_pair be_bytes_quad\<close>)
  then show ?thesis
    using parts ports udp assms(1,2,4) sizes by (auto simp: decapsulate_ethernet_def ethernet_tunnel_header_def ethernet_mtu_def)
qed

text \<open>A frame is accepted from one sender only: the one whose hardware and protocol addresses it carries.\<close>

lemma validate_frame_sender:
  assumes "validate_frame fr network sender = Inr target"
  shows "is_ipv4_host sender (vna_subnet network) (vna_prefix network)" and "take 6 (drop 6 fr) = virtual_mac sender"
    and "ip_get fr 12 2 = 0x0806 \<and> ip_get fr 28 4 = sender \<or> ip_get fr 12 2 = 0x0800 \<and> ip_get (drop 14 fr) 12 4 = sender"
proof -
  have ip: "ip_get (drop 14 fr) 12 4 = sender" if "ipv4_target fr network sender = Inr t" for t
  proof -
    let ?len = "unat (ip_get fr 16 2)"
    have "ip_get (take ?len (drop 14 fr)) 12 4 = sender" "20 \<le> ?len"
      using that by (auto simp: ipv4_target_def Let_def res_bind_Inr_iff split: if_splits)
    moreover have "take 4 (drop 12 (take ?len (drop 14 fr))) = take 4 (drop 12 (drop 14 fr))" using calculation(2)
      by (simp add: drop_take min_def)
    ultimately show ?thesis by (simp add: ip_get_def)
  qed
  have arp: "ip_get fr 28 4 = sender" if "arp_target fr network sender = Inr t" for t
    using that by (auto simp: arp_target_def split: if_splits)
  show "is_ipv4_host sender (vna_subnet network) (vna_prefix network)" "take 6 (drop 6 fr) = virtual_mac sender"
    using assms by (auto simp: validate_frame_def same_mac_def split: if_splits)
  show "ip_get fr 12 2 = 0x0806 \<and> ip_get fr 28 4 = sender \<or> ip_get fr 12 2 = 0x0800 \<and> ip_get (drop 14 fr) 12 4 = sender"
    using assms by (auto simp: validate_frame_def Let_def res_bind_Inr_iff dest: ip arp split: if_splits)
qed

lemma decapsulated_sender:
  assumes "decapsulate_ethernet packet network = Inr fr"
  shows "fr = drop 32 packet" and "\<exists>target. validate_frame fr network (ip_get packet 12 4) = Inr target"
  using assms by (auto simp: decapsulate_ethernet_def Let_def res_bind_Inr_iff ethernet_tunnel_header_def split: if_splits)

section \<open>The tunnel of routed subnets\<close>

lemma size_in_bytes:
  "(word_of_nat (n div 256) :: byte) = ucast (drop_bit 8 (word_of_nat n :: 32 word) AND 255)"
  "(word_of_nat n :: byte) = ucast ((word_of_nat n :: 32 word) AND 255)"
proof -
  have high: "bit (n div 256) i \<longleftrightarrow> bit n (8 + i)" for i
    using fun_cong [OF bit_drop_bit_eq [of 8 n], of i] by (simp add: drop_bit_eq_div)
  show "(word_of_nat (n div 256) :: byte) = ucast (drop_bit 8 (word_of_nat n :: 32 word) AND 255)"
    by (rule bit_word_eqI) (simp add: bit_low_byte bit_drop_bit_eq bit_of_nat_iff high)
  show "(word_of_nat n :: byte) = ucast ((word_of_nat n :: 32 word) AND 255)"
    by (rule bit_word_eqI) (simp add: bit_low_byte bit_of_nat_iff)
qed

lemma routed_tunnel:
  assumes "inspect_ipv4 inner = Inr h" and "length inner \<le> 65515"
  shows "\<exists>outer. encapsulate_routed_ipv4 inner src dst = Inr outer \<and> decapsulate_routed_ipv4 outer = Inr inner \<and>
    ip_get outer 12 4 = src \<and> ip_get outer 16 4 = dst"
proof -
  define head where "head x y = [0x45, 0] @ be_bytes 2 (word_of_nat (20 + length inner) :: 32 word) @ [0, 0, 0, 0, 64, 4, x, y] @
    be_bytes 4 src @ be_bytes 4 dst" for x y :: byte
  have twenty: "replicate 20 (0 :: byte) = [0, 0, 0, 0, 0, 0, 0, 0, 0, 0, 0, 0, 0, 0, 0, 0, 0, 0, 0, 0]" by (simp add: numeral_eq_Suc)
  let ?size = "length inner + 20"
  have size_bytes: "(word_of_nat (?size div 256) :: byte) = ucast (drop_bit 8 (word_of_nat ?size :: 32 word) AND 255)"
    "(word_of_nat ?size :: byte) = ucast ((word_of_nat ?size :: 32 word) AND 255)"
    by (rule size_in_bytes)+
  have start: "ip_put (ip_put ((replicate 20 0)[0 := 0x45, 2 := word_of_nat (?size div 256), 3 := word_of_nat ?size, 8 := 64, 9 := 4]) 12 src 4) 16 dst 4 =
      head 0 0"
    unfolding size_bytes twenty by (simp add: ip_put_quad head_def be_bytes_pair be_bytes_quad add.commute)
  have hl: "header_length (head 0 0) = 20" by (simp add: header_length_def head_def)
  have "20 \<le> length (head 0 0)" "length (head 0 0) \<le> 65535" "head 0 0 ! 0 \<noteq> 0" by (simp_all add: head_def)
  then obtain q where q: "update_ipv4_checksum (head 0 0) = Inr q" by (auto simp: update_ipv4_checksum_def Let_def hl)
  note sums = update_checksum_verifies [OF q \<open>head 0 0 ! 0 \<noteq> 0\<close> \<open>length (head 0 0) \<le> 65535\<close>, unfolded hl]
  then obtain x y where xy: "q = take 10 (head 0 0) @ [x, y] @ drop 12 (head 0 0)" and ok: "internet_checksum (take 20 q) = 0" by blast
  have qh: "q = head x y" unfolding xy by (simp add: head_def be_bytes_pair)
  have "encapsulate_routed_ipv4 inner src dst = Inr (head x y @ inner)"
    using assms q qh start by (simp add: encapsulate_routed_ipv4_def Let_def)
  moreover have "inspect_ipv4 (head x y @ inner) = Inr \<lparr>ip_header_size = 20, ip_source = src, ip_destination = dst, ip_fragment_offset = 0,
      ip_more_fragments = False, ip_dont_fragment = False\<rparr>"
    by (rule inspect_plain [where pl = inner and df = False and ?b1.0 = 0 and ?b4.0 = 0 and ?b5.0 = 0 and ?b8.0 = 64 and ?b9.0 = 4 and x = x and y = y])
      (use assms(2) ok qh in \<open>simp_all add: head_def\<close>)
  moreover have "(head x y @ inner) ! 9 = 4" "drop 20 (head x y @ inner) = inner" "ip_get (head x y @ inner) 12 4 = src" "ip_get (head x y @ inner) 16 4 = dst"
    using be_value_quad [of src] be_value_quad [of dst] by (simp_all add: head_def be_bytes_pair be_bytes_quad ip_get_def)
  ultimately show ?thesis using assms(1) by (simp add: decapsulate_routed_ipv4_def)
qed

text \<open>
  C31. Between two members of one subnet, a frame that the sender's network accepts is wrapped, and the
  member it is addressed to, or every member for a broadcast, unwraps exactly that frame. Conversely a
  frame comes out of the tunnel only under the addresses of the member that the packet names as its
  source: its hardware address and the sender address inside are that member's. A packet of a routed
  subnet comes out of its tunnel as it went in.
\<close>

theorem tunnels_deliver:
  assumes "validate_network a = Inr ()" and "validate_network b = Inr ()"
    and "vna_subnet b = vna_subnet a" and "vna_prefix b = vna_prefix a"
    and "validate_frame fr a (vna_address a) = Inr target" and "target = 0xffffffff \<or> target = vna_address b"
  shows "(\<exists>packet. encapsulate_ethernet fr a = Inr packet \<and> decapsulate_ethernet packet b = Inr fr) \<and>
    (\<forall>packet out. decapsulate_ethernet packet b = Inr out \<longrightarrow> out = drop 32 packet \<and>
      is_ipv4_host (ip_get packet 12 4) (vna_subnet b) (vna_prefix b) \<and> take 6 (drop 6 out) = virtual_mac (ip_get packet 12 4) \<and>
      ip_get packet 12 4 = (if ip_get out 12 2 = 0x0806 then ip_get out 28 4 else ip_get (drop 14 out) 12 4)) \<and>
    (\<forall>inner h src dst. inspect_ipv4 inner = Inr h \<longrightarrow> length inner \<le> 65515 \<longrightarrow>
      (\<exists>outer. encapsulate_routed_ipv4 inner src dst = Inr outer \<and> decapsulate_routed_ipv4 outer = Inr inner))"
proof (intro conjI allI impI)
  obtain x y where packet: "encapsulate_ethernet fr a = Inr (tunnel_packet (vna_address a) target x y fr)"
    and ok: "internet_checksum (take 20 (tunnel_packet (vna_address a) target x y fr)) = 0"
    by (rule encapsulated_ethernet [OF assms(1,5)])
  have "validate_frame fr b (vna_address a) = Inr target" using assms(5) validate_frame_subnet [OF assms(3,4)] by simp
  then show "\<exists>packet. encapsulate_ethernet fr a = Inr packet \<and> decapsulate_ethernet packet b = Inr fr"
    using packet decapsulated_ethernet [OF assms(2) _ ok assms(6)] by blast
next
  fix packet out assume dec: "decapsulate_ethernet packet b = Inr out"
  show "out = drop 32 packet" by (rule decapsulated_sender(1) [OF dec])
  obtain t where t: "validate_frame out b (ip_get packet 12 4) = Inr t" using decapsulated_sender(2) [OF dec] by blast
  show "is_ipv4_host (ip_get packet 12 4) (vna_subnet b) (vna_prefix b)" "take 6 (drop 6 out) = virtual_mac (ip_get packet 12 4)"
    using validate_frame_sender(1,2) [OF t] by blast+
  show "ip_get packet 12 4 = (if ip_get out 12 2 = 0x0806 then ip_get out 28 4 else ip_get (drop 14 out) 12 4)"
    using validate_frame_sender(3) [OF t] by auto
next
  fix inner h src dst assume "inspect_ipv4 inner = Inr h" "length inner \<le> 65515"
  then show "\<exists>outer. encapsulate_routed_ipv4 inner src dst = Inr outer \<and> decapsulate_routed_ipv4 outer = Inr inner"
    using routed_tunnel [of inner h src dst] by blast
qed

definition demo_tap :: "byte \<Rightarrow> VirtualNetworkAddress" where
  "demo_tap k = \<lparr>vna_network = replicate 16 1, vna_address = 0x0a400000 + ucast k, vna_subnet = 0x0a400000, vna_prefix = 24\<rparr>"

text \<open>An ARP request of the first member for the second.\<close>

definition demo_arp :: bytes where
  "demo_arp = replicate 6 255 @ virtual_mac 0x0a400001 @ [8, 6, 0, 1, 8, 0, 6, 4, 0, 1] @ virtual_mac 0x0a400001 @
     [0x0a, 0x40, 0, 1, 0, 0, 0, 0, 0, 0, 0x0a, 0x40, 0, 2]"

theorem tunnels_deliver_witness:
  "\<exists>packet. encapsulate_ethernet demo_arp (demo_tap 1) = Inr packet \<and> decapsulate_ethernet packet (demo_tap 2) = Inr demo_arp"
proof -
  have "validate_network (demo_tap 1) = Inr ()" "validate_network (demo_tap 2) = Inr ()" by code_simp+
  moreover have "vna_subnet (demo_tap 2) = vna_subnet (demo_tap 1)" "vna_prefix (demo_tap 2) = vna_prefix (demo_tap 1)"
    by (simp_all add: demo_tap_def)
  moreover have "validate_frame demo_arp (demo_tap 1) (vna_address (demo_tap 1)) = Inr 0xffffffff" by code_simp
  ultimately show ?thesis using tunnels_deliver [of "demo_tap 1" "demo_tap 2" demo_arp "0xffffffff"] by blast
qed

section \<open>Routes and forwarding\<close>

lemma res_fold_inv:
  assumes "res_fold f xs acc = Inr r" and "P acc" and "\<And>x a b. x \<in> set xs \<Longrightarrow> P a \<Longrightarrow> f x a = Inr b \<Longrightarrow> P b"
  shows "P r"
  using assms by (induction xs arbitrary: acc) (auto simp: res_bind_Inr_iff)

text \<open>Where an installed route and a forwarded subnet come from.\<close>

definition route_entitled :: "NetworkSnapshot \<Rightarrow> DeviceId \<Rightarrow> AdapterRoute \<Rightarrow> bool" where
  "route_entitled snapshot own r \<longleftrightarrow> (\<exists>n\<in>set (snapshot_networks snapshot). \<exists>policy route.
     state_policy (active_peers n) = Some policy \<and> route \<in> set (routes policy) \<and> route_allows policy route own \<and>
     (\<exists>peer\<in>set (state_peers (active_peers n)). peer_device peer = route_gateway route \<and> peer_key peer \<noteq> None) \<and>
     r = \<lparr>adapter_network = state_network (active_peers n), adapter_address = route_address route, adapter_prefix = route_prefix route\<rparr>)"

definition forward_entitled :: "NetworkSnapshot \<Rightarrow> DeviceId \<Rightarrow> AdapterForward \<Rightarrow> bool" where
  "forward_entitled snapshot own f \<longleftrightarrow> (\<exists>n\<in>set (snapshot_networks snapshot). \<exists>policy route.
     state_policy (active_peers n) = Some policy \<and> route \<in> set (routes policy) \<and> route_gateway route = own \<and>
     (\<exists>peer\<in>set (state_peers (active_peers n)). peer_key peer \<noteq> None \<and> route_allows policy route (peer_device peer) \<and>
       f = \<lparr>forward_network = state_network (active_peers n), forward_subnet = route_address route, forward_prefix = route_prefix route,
         forward_member = peer_address peer\<rparr>))"

definition entitled :: "NetworkSnapshot \<Rightarrow> DeviceId \<Rightarrow> bool \<Rightarrow> bool \<Rightarrow> RoutingConfiguration \<Rightarrow> bool" where
  "entitled snapshot own accept_routes fwd cfg \<longleftrightarrow>
     (\<forall>r\<in>set (config_routes cfg). accept_routes \<and> route_entitled snapshot own r) \<and>
     (\<forall>f\<in>set (config_forwards cfg). fwd \<and> forward_entitled snapshot own f)"

lemma add_route_entitled:
  assumes "entitled snapshot own accept_routes fwd result" and "add_route own accept_routes fwd (active_peers n) policy route result = Inr r"
    and "n \<in> set (snapshot_networks snapshot)" and "state_policy (active_peers n) = Some policy" and "route \<in> set (routes policy)"
  shows "entitled snapshot own accept_routes fwd r"
  using assms unfolding add_route_def entitled_def
  by (fastforce simp: route_entitled_def forward_entitled_def list_ex_iff split: if_splits)

lemma add_network_entitled:
  assumes "entitled snapshot own accept_routes fwd result" and "add_network own accept_routes fwd n result = Inr r"
    and "n \<in> set (snapshot_networks snapshot)"
  shows "entitled snapshot own accept_routes fwd r"
proof (cases "state_policy (active_peers n)")
  case None
  then show ?thesis using assms by (simp add: add_network_def)
next
  case (Some policy)
  then have fold: "res_fold (add_route own accept_routes fwd (active_peers n) policy) (routes policy) result = Inr r"
    using assms(2) by (simp add: add_network_def)
  then show ?thesis
    using assms(1) by (rule res_fold_inv) (rule add_route_entitled [OF _ _ assms(3) Some])
qed

lemma check_routes_sound:
  assumes "check_routes snapshot before rs = Inr ()"
    and "sorted_wrt (\<lambda>a b. \<not> subnets_overlap (adapter_address b) (adapter_prefix b) (adapter_address a) (adapter_prefix a)) before"
  shows "sorted_wrt (\<lambda>a b. \<not> subnets_overlap (adapter_address b) (adapter_prefix b) (adapter_address a) (adapter_prefix a)) (before @ rs) \<and>
    (\<forall>r\<in>set rs. private_routed_subnet (adapter_address r) (adapter_prefix r) \<and>
      (\<forall>n\<in>set (snapshot_networks snapshot). \<not> subnets_overlap (adapter_address r) (adapter_prefix r) (state_subnet (active_peers n))
        (state_prefix (active_peers n))))"
  using assms(1,2)
proof (induction rs arbitrary: before)
  case (Cons route rest)
  then have step: "check_routes snapshot (before @ [route]) rest = Inr ()"
    and ok: "private_routed_subnet (adapter_address route) (adapter_prefix route)"
      "\<forall>n\<in>set (snapshot_networks snapshot). \<not> subnets_overlap (adapter_address route) (adapter_prefix route)
         (state_subnet (active_peers n)) (state_prefix (active_peers n))"
      "\<forall>other\<in>set before. \<not> subnets_overlap (adapter_address route) (adapter_prefix route) (adapter_address other) (adapter_prefix other)"
    by (auto simp: list_ex_iff split: if_splits)
  have "sorted_wrt (\<lambda>a b. \<not> subnets_overlap (adapter_address b) (adapter_prefix b) (adapter_address a) (adapter_prefix a)) (before @ [route])"
    using Cons.prems(2) ok(3) by (simp add: sorted_wrt_append)
  from Cons.IH [OF step this] ok show ?case by simp
qed simp

abbreviation route_covers :: "AdapterRoute \<Rightarrow> 32 word \<Rightarrow> bool" where
  "route_covers r x \<equiv> subnet_contains (adapter_address r) (adapter_prefix r) x"


definition demo_routed_policy :: NetworkPolicy where
  "demo_routed_policy = default_policy\<lparr>managed := True,
     rules := [\<lparr>rule_first = \<lparr>subject_device = replicate 32 1, subject_group = []\<rparr>,
       rule_second = \<lparr>subject_device = replicate 32 2, subject_group = []\<rparr>, rule_allow = True\<rparr>],
     gateways := [\<lparr>gateway_device = replicate 32 2, gateway_approved = True\<rparr>],
     routes := [\<lparr>route_gateway = replicate 32 2, route_address = 0xc0a80100, route_prefix = 24, route_group = []\<rparr>]\<rparr>"

definition demo_signed_key :: "byte \<Rightarrow> SignedDeviceKey" where
  "demo_signed_key k = \<lparr>key_identity = replicate 32 k, key_encryption = replicate 32 k, key_client_nonce = replicate 32 3,
     key_server_nonce = replicate 32 4, key_signature = replicate 64 5\<rparr>"

definition demo_snapshot :: NetworkSnapshot where
  "demo_snapshot = \<lparr>snapshot_identity = Some \<lparr>snapshot_device = replicate 32 1, snapshot_signed_key = demo_signed_key 1\<rparr>,
     snapshot_networks = [\<lparr>active_peers = \<lparr>state_network = replicate 16 1, state_revision = 1, state_subnet = 0x0a400000, state_prefix = 24,
       state_own = 0x0a400001, state_peers = [\<lparr>peer_device = replicate 32 2, peer_address = 0x0a400002, peer_key = Some (demo_signed_key 2)\<rparr>],
       state_owner = replicate 32 1, state_epoch = 1, state_policy = Some demo_routed_policy\<rparr>,
       active_key = \<lparr>snapshot_epoch = 1, snapshot_key = replicate 32 9\<rparr>\<rparr>]\<rparr>"


end
