(* ===== verification/Multicast.thy ===== *)
theory Multicast
  imports Ipv4_Packets Ipv4_Fanout Relay_Store
begin

text \<open>
  \<open>network/multicast.cpp\<close>: which multicast groups a host listens to, learnt from the IGMP reports it
  sends; and \<open>network/packet_history.cpp\<close>: the packets seen in the last two seconds. Times are
  nanoseconds of the steady clock. A \<open>std::map\<close> is an association list with distinct keys.
\<close>

section \<open>Multicast membership\<close>

record Group =
  group_exclude :: bool
  group_sources :: "32 word set"
  group_updated :: int

record MulticastMembership =
  mm_groups :: "(32 word \<times> Group) list"
  mm_host_groups :: "32 word set option"

datatype Report = Not_igmp | Accepted | Rejected

definition new_membership :: MulticastMembership where
  "new_membership = \<lparr>mm_groups = [], mm_host_groups = None\<rparr>"

definition no_group :: Group where
  "no_group = \<lparr>group_exclude = False, group_sources = {}, group_updated = 0\<rparr>"

definition group_lifetime :: int where "group_lifetime = 260 * 1000000000"

text \<open>\<open>checksum\<close>: the sum of a correct message is all ones.\<close>

definition igmp_checksum :: "bytes \<Rightarrow> bool" where
  "igmp_checksum bs \<longleftrightarrow> fold_carry (checksum_sum bs 0) = 0xffff"

text \<open>The sources of a record, or a rejection.\<close>

fun read_sources :: "bytes \<Rightarrow> nat \<Rightarrow> nat \<Rightarrow> 32 word set \<Rightarrow> 32 word set option" where
  "read_sources pl offset 0 addresses = Some addresses"
| "read_sources pl offset (Suc k) addresses =
     (let address = ip_get pl offset 4 in
      if address = 0 \<or> address \<ge> 0xe0000000 then None else read_sources pl (offset + 4) k (insert address addresses))"

definition merge_sources :: "32 word \<Rightarrow> 32 word set \<Rightarrow> Group \<Rightarrow> Group" where
  "merge_sources kind addresses entry =
     (if kind \<le> 4 then entry\<lparr>group_exclude := (kind = 2 \<or> kind = 4), group_sources := addresses\<rparr>
      else if (kind = 5) \<noteq> group_exclude entry then entry\<lparr>group_sources := group_sources entry \<union> addresses\<rparr>
      else entry\<lparr>group_sources := group_sources entry - addresses\<rparr>)"

definition group_at :: "(32 word \<times> Group) list \<Rightarrow> 32 word \<Rightarrow> Group" where
  "group_at m gp = (case map_of m gp of None \<Rightarrow> no_group | Some entry \<Rightarrow> entry)"

text \<open>The loop over the records of a version 3 report: the groups and the offset behind them.\<close>

fun read_records :: "int \<Rightarrow> bytes \<Rightarrow> nat \<Rightarrow> nat \<Rightarrow> (32 word \<times> Group) list \<Rightarrow> ((32 word \<times> Group) list \<times> nat) option" where
  "read_records now pl 0 offset updated = Some (updated, offset)"
| "read_records now pl (Suc k) offset updated =
     (if length pl - offset < 8 then None
      else let kind = ip_get pl offset 1; auxiliary = unat (ip_get pl (offset + 1) 1) * 4;
               sources = unat (ip_get pl (offset + 2) 2); gp = ip_get pl (offset + 4) 4 in
      if kind < 1 \<or> kind > 6 \<or> sources > 64 \<or> \<not> is_ipv4_scoped_multicast gp \<or> 8 + sources * 4 + auxiliary > length pl - offset
      then None
      else case read_sources pl (offset + 8) sources {} of
        None \<Rightarrow> None
      | Some addresses \<Rightarrow>
          let entry = merge_sources kind addresses (group_at updated gp) in
          if card (group_sources entry) > 64 then None
          else read_records now pl k (offset + 8 + sources * 4 + auxiliary) (upsert_row gp (entry\<lparr>group_updated := now\<rparr>) updated))"

text \<open>The groups after a report with the given payload, or a rejection.\<close>

definition apply_report :: "bytes \<Rightarrow> 32 word \<Rightarrow> int \<Rightarrow> (32 word \<times> Group) list \<Rightarrow> (32 word \<times> Group) list option" where
  "apply_report pl destination now updated =
     (let type = pl ! 0 in
      if type = 0x12 \<or> type = 0x16 \<or> type = 0x17
      then let gp = ip_get pl 4 4 in
        if length pl \<noteq> 8 \<or> \<not> is_ipv4_scoped_multicast gp \<or> destination \<noteq> (if type = 0x17 then 0xe0000002 else gp) then None
        else Some (upsert_row gp \<lparr>group_exclude = (type \<noteq> 0x17), group_sources = {}, group_updated = now\<rparr> updated)
      else if type = 0x22
      then let count = unat (ip_get pl 6 2) in
        if destination \<noteq> 0xe0000016 \<or> count > 64 then None
        else (case read_records now pl count 8 updated of
            None \<Rightarrow> None
          | Some (result, offset) \<Rightarrow> if offset \<noteq> length pl then None else Some result)
      else None)"

definition observe :: "bytes \<Rightarrow> int \<Rightarrow> MulticastMembership \<Rightarrow> Report \<times> MulticastMembership" where
  "observe ipv4 now s =
     (if length ipv4 < 20 \<or> ipv4 ! 9 \<noteq> 2 then (Not_igmp, s)
      else let header = header_length ipv4 in
      if drop_bit 4 (ipv4 ! 0) \<noteq> 4 \<or> header < 20 \<or> header > length ipv4 \<or> unat (ip_get ipv4 2 2) \<noteq> length ipv4 \<or>
         ip_get ipv4 6 2 AND 0x3fff \<noteq> 0 \<or> ipv4 ! 8 \<noteq> 1
      then (Rejected, s)
      else let pl = drop header ipv4 in
      if length pl < 8 \<or> \<not> igmp_checksum pl then (Rejected, s)
      else case apply_report pl (ip_get ipv4 16 4) now (filter (\<lambda>e. \<not> now - group_updated (snd e) > group_lifetime) (mm_groups s)) of
        None \<Rightarrow> (Rejected, s)
      | Some updated \<Rightarrow> if length updated > 64 then (Rejected, s) else (Accepted, s\<lparr>mm_groups := updated\<rparr>))"

definition receives :: "MulticastMembership \<Rightarrow> 32 word \<Rightarrow> 32 word \<Rightarrow> int \<Rightarrow> bool" where
  "receives s gp source now =
     (if \<not> is_ipv4_scoped_multicast gp then False
      else case mm_host_groups s of
        Some host \<Rightarrow> gp \<in> host
      | None \<Rightarrow> (case map_of (mm_groups s) gp of
            Some entry \<Rightarrow>
              if now - group_updated entry \<le> group_lifetime then group_exclude entry \<noteq> (source \<in> group_sources entry)
              else gp = 0xe00000fb \<or> gp = 0xeffffffa
          | None \<Rightarrow> gp = 0xe00000fb \<or> gp = 0xeffffffa))"

definition synchronize :: "32 word list option \<Rightarrow> MulticastMembership \<Rightarrow> MulticastMembership" where
  "synchronize host s = s\<lparr>mm_host_groups := (case host of
     None \<Rightarrow> None
   | Some gs \<Rightarrow> Some (fold (\<lambda>gp host. if is_ipv4_scoped_multicast gp \<and> card host < 256 then insert gp host else host) gs {}))\<rparr>"

section \<open>Recent packets\<close>

text \<open>\<open>SHA256\<close> is a parameter; \<open>None\<close> when it fails.\<close>

type_synonym Sha256 = "bytes \<Rightarrow> bytes option"

record PacketHistory =
  recent :: "(bytes \<times> int) list"

definition fingerprint :: "Sha256 \<Rightarrow> bytes \<Rightarrow> bytes res" where
  "fingerprint sha packet =
     (let normalized = (if length packet \<ge> 20 then packet[8 := 0, 10 := 0, 11 := 0] else packet) in
      case sha normalized of None \<Rightarrow> Inl (Runtime_error ''packet fingerprint unavailable'') | Some digest \<Rightarrow> Inr digest)"

definition expire_history :: "int \<Rightarrow> PacketHistory \<Rightarrow> PacketHistory" where
  "expire_history now h = h\<lparr>recent := filter (\<lambda>e. \<not> now - snd e \<ge> 2 * 1000000000) (recent h)\<rparr>"

definition contains :: "Sha256 \<Rightarrow> bytes \<Rightarrow> int \<Rightarrow> PacketHistory \<Rightarrow> bool res \<times> PacketHistory" where
  "contains sha packet now h =
     (let h1 = expire_history now h in
      (res_bind (fingerprint sha packet) (\<lambda>digest. Inr (digest \<in> fst ` set (recent h1))), h1))"

text \<open>\<open>min_element\<close> takes the first of the oldest entries in the order of the map, that of the digests.\<close>

definition oldest :: "(bytes \<times> int) list \<Rightarrow> bytes \<times> int" where
  "oldest es = arg_min_list (\<lambda>e. (snd e, fst e)) es"

definition remember :: "Sha256 \<Rightarrow> bytes \<Rightarrow> int \<Rightarrow> PacketHistory \<Rightarrow> unit res \<times> PacketHistory" where
  "remember sha packet now h =
     (let h1 = expire_history now h;
          h2 = (if length (recent h1) \<ge> 256 then h1\<lparr>recent := remove1 (oldest (recent h1)) (recent h1)\<rparr> else h1) in
      case fingerprint sha packet of
        Inl e \<Rightarrow> (Inl e, h2)
      | Inr digest \<Rightarrow> (Inr (), h2\<lparr>recent := upsert_row digest now (recent h2)\<rparr>))"

section \<open>Bounds\<close>

lemma upsert_length: "length (upsert_row k v m) = (if k \<in> fst ` set m then length m else Suc (length m))"
  by (induction m) auto

lemma upsert_distinct: "distinct (map fst m) \<Longrightarrow> distinct (map fst (upsert_row k v m))"
proof (induction m)
  case (Cons r m)
  have keys: "fst ` set (upsert_row k v m) = insert k (fst ` set m)" by (induction m) auto
  show ?case using Cons keys by (auto simp: image_iff)
qed simp

lemma upsert_values: "e \<in> set (upsert_row k v m) \<Longrightarrow> e = (k, v) \<or> e \<in> set m"
  by (induction m) (auto split: if_splits)

lemma history_bounded:
  assumes "length (recent h) \<le> 256"
  shows "length (recent (snd (contains sha packet now h))) \<le> 256" and "length (recent (snd (remember sha packet now h))) \<le> 256"
proof -
  have expired: "length (recent (expire_history now h)) \<le> 256"
    using order_trans [OF length_filter_le assms] by (simp add: expire_history_def)
  then show "length (recent (snd (contains sha packet now h))) \<le> 256" by (simp add: contains_def Let_def)
  let ?h = "expire_history now h"
  let ?e = "if length (recent ?h) \<ge> 256 then ?h\<lparr>recent := remove1 (oldest (recent ?h)) (recent ?h)\<rparr> else ?h"
  have "length (recent ?e) \<le> 255"
  proof (cases "length (recent ?h) \<ge> 256")
    case True
    then have "oldest (recent ?h) \<in> set (recent ?h)" unfolding oldest_def by (intro arg_min_list_in) auto
    with True expired show ?thesis by (simp add: length_remove1)
  qed simp
  then show "length (recent (snd (remember sha packet now h))) \<le> 256"
    by (auto simp: remember_def Let_def upsert_length split: sum.splits)
qed

text \<open>A packet is found for two seconds after it was noted, whatever its hop count and checksum became.\<close>

lemma remembered_found:
  assumes "remember sha packet now h = (Inr (), h')" and "later - now < 2 * 1000000000" and "fingerprint sha packet' = fingerprint sha packet"
  shows "fst (contains sha packet' later h') = Inr True"
proof -
  obtain digest es where d: "fingerprint sha packet = Inr digest" and h': "recent h' = upsert_row digest now es"
    using assms(1) by (auto simp: remember_def Let_def split: sum.splits)
  have "(digest, now) \<in> set (upsert_row digest now es)" by (induction es) auto
  then have "digest \<in> fst ` set (recent (expire_history later h'))"
    using assms(2) by (force simp: expire_history_def h')
  then show ?thesis by (simp add: contains_def Let_def assms(3) d)
qed

definition membership_bounded :: "MulticastMembership \<Rightarrow> bool" where
  "membership_bounded s \<longleftrightarrow> length (mm_groups s) \<le> 64 \<and> distinct (map fst (mm_groups s)) \<and>
     (\<forall>e\<in>set (mm_groups s). finite (group_sources (snd e)) \<and> card (group_sources (snd e)) \<le> 64) \<and>
     (\<forall>host. mm_host_groups s = Some host \<longrightarrow> finite host \<and> card host \<le> 256)"

definition groups_small :: "(32 word \<times> Group) list \<Rightarrow> bool" where
  "groups_small m \<longleftrightarrow> distinct (map fst m) \<and> (\<forall>e\<in>set m. finite (group_sources (snd e)) \<and> card (group_sources (snd e)) \<le> 64)"

lemma upsert_small: "groups_small m \<Longrightarrow> card (group_sources v) \<le> 64 \<Longrightarrow> groups_small (upsert_row k v m)"
  unfolding groups_small_def by (auto intro: upsert_distinct simp del: distinct_map dest!: upsert_values)

lemma read_records_small: "read_records now pl k offset m = Some (m', o') \<Longrightarrow> groups_small m \<Longrightarrow> groups_small m'"
proof (induction k arbitrary: offset m)
  case (Suc k)
  then obtain gp entry offset' where next_record: "read_records now pl k offset' (upsert_row gp (entry\<lparr>group_updated := now\<rparr>) m) = Some (m', o')"
    and "card (group_sources entry) \<le> 64"
    by (auto simp: Let_def not_less split: if_splits option.splits)
  then have "groups_small (upsert_row gp (entry\<lparr>group_updated := now\<rparr>) m)" using Suc.prems(2) by (intro upsert_small) auto
  with next_record show ?case by (rule Suc.IH)
qed simp

lemma apply_report_cases:
  assumes "apply_report pl destination now m0 = Some m"
  shows "(\<exists>gp v. m = upsert_row gp v m0 \<and> group_sources v = {}) \<or> (\<exists>k offset. read_records now pl k 8 m0 = Some (m, offset))"
proof (cases "pl ! 0 = 0x12 \<or> pl ! 0 = 0x16 \<or> pl ! 0 = 0x17")
  case True
  then have "m = upsert_row (ip_get pl 4 4) \<lparr>group_exclude = (pl ! 0 \<noteq> 0x17), group_sources = {}, group_updated = now\<rparr> m0"
    using assms unfolding apply_report_def Let_def if_P [OF True] by (auto split: if_splits)
  then show ?thesis by (intro disjI1 exI conjI) auto
next
  case False
  then show ?thesis
    using assms unfolding apply_report_def Let_def if_not_P [OF False] by (auto split: if_splits option.splits)
qed

lemma observe_bounded:
  assumes "membership_bounded s"
  shows "membership_bounded (snd (observe ipv4 now s))"
proof -
  let ?live = "filter (\<lambda>e. \<not> now - group_updated (snd e) > group_lifetime) (mm_groups s)"
  have live: "groups_small ?live" using assms by (auto simp: groups_small_def membership_bounded_def distinct_map_filter)
  have "groups_small m" if "apply_report pl destination now ?live = Some m" for pl destination m
    using apply_report_cases [OF that] upsert_small [OF live] read_records_small [OF _ live] by fastforce
  then show ?thesis
    using assms by (auto simp: observe_def Let_def membership_bounded_def groups_small_def not_less split: option.splits)
qed

lemma synchronize_bounded:
  assumes "membership_bounded s"
  shows "membership_bounded (synchronize host s)"
proof -
  have "finite (fold f gs h) \<and> card (fold f gs h) \<le> 256"
    if "f = (\<lambda>gp host. if is_ipv4_scoped_multicast gp \<and> card host < 256 then insert gp host else host)" "finite h \<and> card h \<le> 256"
    for f gs and h :: "32 word set"
    using that(2) unfolding that(1) by (induction gs arbitrary: h) (auto simp: card_insert_if)
  then show ?thesis using assms by (auto simp: synchronize_def membership_bounded_def split: option.splits)
qed

end
