(* ===== verification/Connection_Limits.thy ===== *)
theory Connection_Limits
  imports Forwarding_Quota
begin

text \<open>
  What bounds a connection: the delays between attempts to reconnect (\<open>transport/reconnect.cpp\<close>) and
  to revalidate a path (\<open>p2p/revalidation.hpp\<close>), the budget of frames waiting to be sent and the
  rate of control requests (\<open>transport/resource_limits.cpp\<close>). Delays are milliseconds, instants
  nanoseconds, both integers; \<open>double\<close> is a rational number.
\<close>

section \<open>Reconnecting\<close>

record ReconnectBackoff =
  initial_delay :: int
  maximum_delay :: int
  current_delay :: int

definition new_backoff :: "int \<Rightarrow> int \<Rightarrow> ReconnectBackoff res" where
  "new_backoff initial maximum =
     (if initial \<le> 0 then Inl (Invalid_argument ''initial reconnect delay must be positive'')
      else if maximum < initial then Inl (Invalid_argument ''maximum reconnect delay must not be less than initial delay'')
      else Inr \<lparr>initial_delay = initial, maximum_delay = maximum, current_delay = initial\<rparr>)"

definition next_delay :: "ReconnectBackoff \<Rightarrow> int \<times> ReconnectBackoff" where
  "next_delay b =
     (let remaining = maximum_delay b - current_delay b in
      (current_delay b, b\<lparr>current_delay := current_delay b + min (current_delay b) remaining\<rparr>))"

definition reset_backoff :: "ReconnectBackoff \<Rightarrow> ReconnectBackoff" where
  "reset_backoff b = b\<lparr>current_delay := initial_delay b\<rparr>"

fun delays :: "nat \<Rightarrow> ReconnectBackoff \<Rightarrow> int list" where
  "delays 0 b = []"
| "delays (Suc k) b = (case next_delay b of (d, b') \<Rightarrow> d # delays k b')"

lemma delays_nth:
  assumes "0 < current_delay b" and "current_delay b \<le> maximum_delay b" and "i < k"
  shows "delays k b ! i = min (current_delay b * 2 ^ i) (maximum_delay b)"
  using assms
proof (induction k arbitrary: b i)
  case (Suc k)
  let ?b = "snd (next_delay b)"
  have b: "current_delay ?b = min (current_delay b * 2) (maximum_delay b)" "maximum_delay ?b = maximum_delay b"
    by (simp_all add: next_delay_def Let_def min_def)
  show ?case
  proof (cases i)
    case 0
    then show ?thesis using Suc.prems(2) by (simp add: next_delay_def Let_def)
  next
    case (Suc j)
    have pow: "(1 :: int) \<le> 2 ^ j" by simp
    have "delays k ?b ! j = min (min (current_delay b * 2) (maximum_delay b) * 2 ^ j) (maximum_delay b)"
      using Suc.IH [of ?b j] Suc Suc.prems b by simp
    also have "\<dots> = min (current_delay b * 2 ^ i) (maximum_delay b)"
    proof (cases "current_delay b * 2 \<le> maximum_delay b")
      case False
      have "maximum_delay b * 1 \<le> maximum_delay b * 2 ^ j" using pow Suc.prems by (intro mult_left_mono) auto
      moreover have "current_delay b * 2 * 1 \<le> current_delay b * 2 * 2 ^ j" using pow Suc.prems by (intro mult_left_mono) auto
      ultimately show ?thesis using False \<open>i = Suc j\<close> by (simp add: min_def algebra_simps)
    qed (simp add: \<open>i = Suc j\<close> min_def algebra_simps)
    finally show ?thesis using \<open>i = Suc j\<close> by (simp add: split_beta)
  qed
qed simp

section \<open>Revalidating a path\<close>

record RevalidationBackoff =
  rev_failures :: nat
  rev_pending :: bool
  rev_next :: int

definition new_revalidation :: RevalidationBackoff where
  "new_revalidation = \<lparr>rev_failures = 0, rev_pending = False, rev_next = 0\<rparr>"

definition revalidation_failed :: "int \<Rightarrow> RevalidationBackoff \<Rightarrow> RevalidationBackoff" where
  "revalidation_failed now b =
     (if rev_pending b then b
      else b\<lparr>rev_next := now + int (min (1000 * 2 ^ min (rev_failures b) 5) 30000) * 1000000,
             rev_failures := min (rev_failures b + 1) 6, rev_pending := True\<rparr>)"

definition revalidation_started :: "RevalidationBackoff \<Rightarrow> RevalidationBackoff" where
  "revalidation_started b = b\<lparr>rev_pending := False\<rparr>"

definition revalidation_healthy :: "RevalidationBackoff \<Rightarrow> RevalidationBackoff" where
  "revalidation_healthy b = b\<lparr>rev_pending := False, rev_failures := 0\<rparr>"

definition revalidation_due :: "int \<Rightarrow> RevalidationBackoff \<Rightarrow> bool" where
  "revalidation_due now b \<longleftrightarrow> rev_pending b \<and> now \<ge> rev_next b"

text \<open>A failed revalidation waits between one and thirty seconds, and then it is due.\<close>

lemma revalidation_waits:
  assumes "\<not> rev_pending b"
  shows "revalidation_due later (revalidation_failed now b) \<longleftrightarrow> rev_next (revalidation_failed now b) \<le> later"
    and "now + 1000 * 1000000 \<le> rev_next (revalidation_failed now b)" and "rev_next (revalidation_failed now b) \<le> now + 30000 * 1000000"
proof -
  have "(1 :: nat) \<le> 2 ^ min (rev_failures b) 5" by simp
  then have "1000 \<le> min (1000 * 2 ^ min (rev_failures b) 5) (30000 :: nat)" by (simp add: min_def)
  then have "1000 \<le> int (min (1000 * 2 ^ min (rev_failures b) 5) 30000)" "int (min (1000 * 2 ^ min (rev_failures b) 5) 30000) \<le> 30000"
    by linarith+
  then show "now + 1000 * 1000000 \<le> rev_next (revalidation_failed now b)" "rev_next (revalidation_failed now b) \<le> now + 30000 * 1000000"
    using assms by (simp_all add: revalidation_failed_def)
  show "revalidation_due later (revalidation_failed now b) \<longleftrightarrow> rev_next (revalidation_failed now b) \<le> later"
    using assms by (simp add: revalidation_due_def revalidation_failed_def)
qed

section \<open>The send budget\<close>

record SendQueueLimits =
  limit_bytes :: nat
  limit_frames :: nat
  reserved_control_bytes :: nat
  reserved_control_frames :: nat

record SendBudget =
  budget_limits :: SendQueueLimits
  budget_bytes :: nat
  budget_frames :: nat
  budget_rejected :: "64 word"

definition default_queue_limits :: SendQueueLimits where
  "default_queue_limits = \<lparr>limit_bytes = 4 * 1024 * 1024, limit_frames = 256, reserved_control_bytes = 64 * 1024, reserved_control_frames = 8\<rparr>"

definition new_budget :: "SendQueueLimits \<Rightarrow> SendBudget res" where
  "new_budget l =
     (if limit_bytes l = 0 \<or> limit_frames l = 0 \<or> reserved_control_bytes l \<ge> limit_bytes l \<or> reserved_control_frames l \<ge> limit_frames l
      then Inl (Invalid_argument ''invalid send queue limits'')
      else Inr \<lparr>budget_limits = l, budget_bytes = 0, budget_frames = 0, budget_rejected = 0\<rparr>)"

text \<open>A ticket is the size it holds; it is \<open>None\<close> when the reservation is refused.\<close>

definition reserve :: "nat \<Rightarrow> bool \<Rightarrow> SendBudget \<Rightarrow> nat option \<times> SendBudget" where
  "reserve sz ctl b =
     (let l = budget_limits b;
          byte_limit = limit_bytes l - (if ctl then 0 else reserved_control_bytes l);
          frame_limit = limit_frames l - (if ctl then 0 else reserved_control_frames l) in
      if sz = 0 \<or> sz > byte_limit \<or> budget_bytes b > byte_limit - sz \<or> budget_frames b \<ge> frame_limit
      then (None, b\<lparr>budget_rejected := budget_rejected b + 1\<rparr>)
      else (Some sz, b\<lparr>budget_bytes := budget_bytes b + sz, budget_frames := budget_frames b + 1\<rparr>))"

definition release_ticket :: "nat \<Rightarrow> SendBudget \<Rightarrow> SendBudget" where
  "release_ticket sz b = b\<lparr>budget_bytes := budget_bytes b - sz, budget_frames := budget_frames b - 1\<rparr>"

text \<open>The budget together with the tickets that are alive, each with its size and whether it is control.\<close>

inductive budget_run :: "SendQueueLimits \<Rightarrow> (nat \<times> bool) list \<Rightarrow> SendBudget \<Rightarrow> bool" for l where
  run_new: "new_budget l = Inr b \<Longrightarrow> budget_run l [] b"
| run_reserved: "budget_run l ts b \<Longrightarrow> reserve sz ctl b = (Some sz, b') \<Longrightarrow> budget_run l ((sz, ctl) # ts) b'"
| run_refused: "budget_run l ts b \<Longrightarrow> reserve sz ctl b = (None, b') \<Longrightarrow> budget_run l ts b'"
| run_released: "budget_run l (ts @ (sz, ctl) # us) b \<Longrightarrow> budget_run l (ts @ us) (release_ticket sz b)"

definition data_tickets :: "(nat \<times> bool) list \<Rightarrow> (nat \<times> bool) list" where
  "data_tickets ts = filter (\<lambda>t. \<not> snd t) ts"

definition ticket_bytes :: "(nat \<times> bool) list \<Rightarrow> nat" where
  "ticket_bytes ts = sum_list (map fst ts)"

lemma ticket_simps [simp]:
  "ticket_bytes [] = 0" "ticket_bytes (t # ts) = fst t + ticket_bytes ts" "ticket_bytes (ts @ us) = ticket_bytes ts + ticket_bytes us"
  "data_tickets [] = []" "data_tickets (t # ts) = (if snd t then data_tickets ts else t # data_tickets ts)"
  "data_tickets (ts @ us) = data_tickets ts @ data_tickets us"
  by (simp_all add: ticket_bytes_def data_tickets_def)

lemma data_tickets_le: "ticket_bytes (data_tickets ts) \<le> ticket_bytes ts" "length (data_tickets ts) \<le> length ts"
  by (induction ts) auto

definition budget_ok :: "SendQueueLimits \<Rightarrow> (nat \<times> bool) list \<Rightarrow> SendBudget \<Rightarrow> bool" where
  "budget_ok l ts b \<longleftrightarrow> budget_limits b = l \<and> reserved_control_bytes l < limit_bytes l \<and> reserved_control_frames l < limit_frames l \<and>
     budget_bytes b = ticket_bytes ts \<and> budget_frames b = length ts \<and>
     ticket_bytes ts \<le> limit_bytes l \<and> length ts \<le> limit_frames l \<and>
     ticket_bytes (data_tickets ts) \<le> limit_bytes l - reserved_control_bytes l \<and>
     length (data_tickets ts) \<le> limit_frames l - reserved_control_frames l"

lemma reserve_ok:
  assumes "budget_ok l ts b" and "reserve sz ctl b = (Some sz', b')"
  shows "budget_ok l ((sz, ctl) # ts) b'"
  using assms data_tickets_le [of ts]
  by (cases ctl) (auto simp: budget_ok_def reserve_def Let_def not_less not_le split: if_splits)

lemma budget_run_ok: "budget_run l ts b \<Longrightarrow> budget_ok l ts b"
proof (induction rule: budget_run.induct)
  case (run_new b)
  then show ?case by (auto simp: new_budget_def budget_ok_def split: if_splits)
next
  case (run_reserved ts b sz ctl b')
  then show ?case by (blast intro: reserve_ok)
next
  case (run_refused ts b sz ctl b')
  then show ?case by (auto simp: reserve_def budget_ok_def Let_def split: if_splits)
next
  case (run_released ts sz ctl us b)
  then show ?case by (auto simp: budget_ok_def release_ticket_def split: if_splits)
qed

text \<open>
  C33. The send budget counts exactly the frames that are waiting, never more than its limits, and the
  part kept for control frames is never taken by data: a control frame is accepted whenever the control
  frames that are waiting leave room for it in that part.
\<close>

theorem send_budget_reserves_control:
  assumes "budget_run l ts b"
  shows "budget_bytes b = sum_list (map fst ts) \<and> budget_frames b = length ts \<and>
    budget_bytes b \<le> limit_bytes l \<and> budget_frames b \<le> limit_frames l \<and>
    (\<forall>sz. 0 < sz \<longrightarrow> sz + sum_list (map fst (filter snd ts)) \<le> reserved_control_bytes l \<longrightarrow>
      length (filter snd ts) < reserved_control_frames l \<longrightarrow>
      (\<exists>b'. reserve sz True b = (Some sz, b') \<and> budget_run l ((sz, True) # ts) b'))"
proof -
  note ok = budget_run_ok [OF assms]
  have parts: "ticket_bytes ts = ticket_bytes (data_tickets ts) + sum_list (map fst (filter snd ts))"
    "length ts = length (data_tickets ts) + length (filter snd ts)"
    by (induction ts) auto
  have "\<exists>b'. reserve sz True b = (Some sz, b') \<and> budget_run l ((sz, True) # ts) b'"
    if "0 < sz" "sz + sum_list (map fst (filter snd ts)) \<le> reserved_control_bytes l" "length (filter snd ts) < reserved_control_frames l" for sz
  proof -
    have "budget_bytes b = ticket_bytes ts" "budget_frames b = length ts" "budget_limits b = l"
      "ticket_bytes (data_tickets ts) \<le> limit_bytes l - reserved_control_bytes l" "reserved_control_bytes l < limit_bytes l"
      "length (data_tickets ts) \<le> limit_frames l - reserved_control_frames l" "reserved_control_frames l < limit_frames l"
      using ok by (simp_all add: budget_ok_def)
    then have "sz \<noteq> 0" "\<not> sz > limit_bytes l" "\<not> budget_bytes b > limit_bytes l - sz" "\<not> budget_frames b \<ge> limit_frames l"
      using that parts by linarith+
    then obtain b' where "reserve sz True b = (Some sz, b')" using \<open>budget_limits b = l\<close> by (simp add: reserve_def Let_def)
    then show ?thesis using run_reserved [OF assms] by blast
  qed
  then show ?thesis using ok by (auto simp: budget_ok_def ticket_bytes_def)
qed

theorem send_budget_reserves_control_witness:
  "\<exists>b b'. budget_run default_queue_limits [(4128768, False)] b \<and> reserve 65536 True b = (Some 65536, b')"
proof -
  define b where "b = \<lparr>budget_limits = default_queue_limits, budget_bytes = 0, budget_frames = 0, budget_rejected = 0\<rparr>"
  have "new_budget default_queue_limits = Inr b" by (simp add: new_budget_def default_queue_limits_def b_def)
  moreover obtain b1 where "reserve 4128768 False b = (Some 4128768, b1)"
    by (simp add: reserve_def b_def default_queue_limits_def Let_def)
  ultimately have run: "budget_run default_queue_limits [(4128768, False)] b1" by (blast intro: budget_run.intros)
  have "\<exists>b'. reserve 65536 True b1 = (Some 65536, b') \<and> budget_run default_queue_limits [(65536, True), (4128768, False)] b'"
    by (rule send_budget_reserves_control [OF run, THEN conjunct2, THEN conjunct2, THEN conjunct2, THEN conjunct2, rule_format])
      (simp_all add: default_queue_limits_def)
  with run show ?thesis by blast
qed

section \<open>The rate of control requests\<close>

record ControlRateLimit =
  rate_per_second :: rat
  rate_capacity :: rat
  rate_tokens :: rat
  rate_updated :: "int option"

definition new_rate_limit :: "32 word \<Rightarrow> ControlRateLimit res" where
  "new_rate_limit requests_per_second =
     (if requests_per_second = 0 then Inl (Invalid_argument ''control request rate must be positive'')
      else Inr \<lparr>rate_per_second = as_double requests_per_second, rate_capacity = 4 * as_double requests_per_second,
        rate_tokens = 4 * as_double requests_per_second, rate_updated = None\<rparr>)"

definition allow :: "int \<Rightarrow> ControlRateLimit \<Rightarrow> bool \<times> ControlRateLimit" where
  "allow now r =
     (let r1 = (case rate_updated r of
            Some u \<Rightarrow> if now > u then r\<lparr>rate_tokens := min (rate_capacity r) (rate_tokens r + seconds_between u now * rate_per_second r)\<rparr> else r
          | None \<Rightarrow> r);
          r2 = (case rate_updated r of Some u \<Rightarrow> if now > u then r1\<lparr>rate_updated := Some now\<rparr> else r1 | None \<Rightarrow> r1\<lparr>rate_updated := Some now\<rparr>) in
      if rate_tokens r2 < 1 then (False, r2) else (True, r2\<lparr>rate_tokens := rate_tokens r2 - 1\<rparr>))"

text \<open>What the limiter would hold at an instant, and when it is in order.\<close>

definition rate_level :: "ControlRateLimit \<Rightarrow> int \<Rightarrow> rat" where
  "rate_level r t = (case rate_updated r of
     None \<Rightarrow> rate_tokens r
   | Some u \<Rightarrow> if t \<le> u then rate_tokens r else min (rate_capacity r) (rate_tokens r + seconds_between u t * rate_per_second r))"

definition rate_good :: "rat \<Rightarrow> ControlRateLimit \<Rightarrow> int \<Rightarrow> bool" where
  "rate_good rate r t \<longleftrightarrow> 0 \<le> rate \<and> rate_per_second r = rate \<and> rate_capacity r = 4 * rate \<and> 0 \<le> rate_tokens r \<and>
     rate_tokens r \<le> rate_capacity r \<and> (\<forall>u. rate_updated r = Some u \<longrightarrow> u \<le> t)"

lemma allow_level:
  "allow now r = (\<not> rate_level r now < 1, r\<lparr>rate_tokens := rate_level r now - (if rate_level r now < 1 then 0 else 1),
     rate_updated := Some (case rate_updated r of None \<Rightarrow> now | Some u \<Rightarrow> max u now)\<rparr>)"
  by (cases "rate_updated r") (simp_all add: allow_def rate_level_def Let_def max_def)

interpretation control_requests: rate_limiter "rate_good rate" rate_level allow id "\<lambda>_. 1" rate for rate
proof
  fix q q' :: ControlRateLimit and t now ok
  assume good: "rate_good rate q t" and le: "t \<le> id now" and run: "allow now q = (ok, q')"
  have "0 \<le> rate_level q now \<and> rate_level q now \<le> 4 * rate"
    using good le by (auto simp: rate_level_def rate_good_def seconds_between_nonneg split: option.splits)
  moreover have "(case rate_updated q of None \<Rightarrow> now | Some u \<Rightarrow> max u now) = now"
    using good le by (auto simp: rate_good_def split: option.splits)
  ultimately show "rate_good rate q' (id now) \<and> rate_level q' (id now) + (if ok then 1 else 0) \<le> rate_level q (id now)"
    using good run unfolding allow_level by (auto simp: rate_good_def rate_level_def [of "q\<lparr>rate_tokens := _, rate_updated := _\<rparr>"])
next
  fix q :: ControlRateLimit and t t'
  assume good: "rate_good rate q t" and le: "t \<le> t'"
  have nn: "0 \<le> seconds_between t t' * rate" using good le by (simp add: rate_good_def seconds_between_nonneg)
  show "rate_level q t' \<le> rate_level q t + seconds_between t t' * rate"
  proof (cases "rate_updated q")
    case None
    then show ?thesis using nn by (simp add: rate_level_def)
  next
    case (Some u)
    have split: "seconds_between u t' * rate = seconds_between u t * rate + seconds_between t t' * rate"
      by (simp add: seconds_between_def diff_divide_distrib algebra_simps)
    have "rate_level q v = min (4 * rate) (rate_tokens q + seconds_between u v * rate)" if "t \<le> v" for v
    proof (cases "v \<le> u")
      case True
      then have "v = u" using good that Some by (simp add: rate_good_def)
      then show ?thesis using good Some by (simp add: rate_level_def rate_good_def seconds_between_def)
    qed (use good Some in \<open>simp add: rate_level_def rate_good_def\<close>)
    from this [of t] this [of t'] le split nn show ?thesis by simp
  qed
next
  fix q :: ControlRateLimit and t
  assume "rate_good rate q t"
  moreover from this have "0 \<le> seconds_between u t * rate" if "u \<le> t" for u
    using that by (simp add: rate_good_def seconds_between_nonneg)
  ultimately show "0 \<le> rate_level q t" by (auto simp: rate_level_def rate_good_def min_def split: option.splits)
qed

text \<open>Over any span of time, a connection gets at most a burst of four seconds' worth of requests more than its rate.\<close>

lemma control_requests_bounded:
  assumes "new_rate_limit n = Inr r" and "sorted (t # instants)"
  shows "spent allow (\<lambda>_. 1) instants r \<le> 4 * as_double n + seconds_between t (last (t # instants)) * as_double n"
proof -
  have "rate_good (as_double n) r t" "rate_level r t = 4 * as_double n"
    using assms(1) by (auto simp: new_rate_limit_def rate_good_def rate_level_def split: if_splits)
  then show ?thesis using control_requests.spent_bound [of "as_double n" r t instants] assms(2) by simp
qed

end
