(* ===== verification/Config.thy ===== *)
theory Config
  imports Connection_Limits "HOL-Library.Sublist"
begin

text \<open>
  \<open>core/config.cpp\<close>: the text of a configuration file, one setting per line, and the checks on the
  values. Texts are character lists, paths the text they are written with. An error inside a setting
  is the message that \<open>fail\<close> puts the line number in front of; reading the file from disk is left out.
\<close>

section \<open>Characters and numbers\<close>

definition is_space :: "char \<Rightarrow> bool" where
  "is_space c \<longleftrightarrow> c \<in> {CHR '' '', CHR 0x09, CHR 0x0A, CHR 0x0B, CHR 0x0C, CHR 0x0D}"

definition is_digit :: "char \<Rightarrow> bool" where
  "is_digit c \<longleftrightarrow> (of_char c :: nat) \<in> {48..57}"

definition is_xdigit :: "char \<Rightarrow> bool" where
  "is_xdigit c \<longleftrightarrow> is_digit c \<or> (of_char c :: nat) \<in> {97..102} \<or> (of_char c :: nat) \<in> {65..70}"

definition trim_text :: "string \<Rightarrow> string" where
  "trim_text s = rev (dropWhile is_space (rev (dropWhile is_space s)))"

fun show_nat :: "nat \<Rightarrow> string" where
  "show_nat n = (if n < 10 then [char_of (48 + n)] else show_nat (n div 10) @ [char_of (48 + n mod 10)])"

declare show_nat.simps [simp del]

definition fail :: "nat \<Rightarrow> string \<Rightarrow> 'a res" where
  "fail line message = Inl (Runtime_error (''configuration line '' @ show_nat line @ '': '' @ message))"

text \<open>\<open>std::from_chars\<close> for an unsigned type with the given number of values: the number and what follows it.\<close>

definition from_chars :: "nat \<Rightarrow> string \<Rightarrow> (nat \<times> string) option" where
  "from_chars limit s =
     (let digits = takeWhile is_digit s; n = foldl (\<lambda>n c. 10 * n + (of_char c - 48)) 0 digits in
      if digits = [] \<or> limit \<le> n then None else Some (n, dropWhile is_digit s))"

definition parse_unsigned :: "string \<Rightarrow> string \<Rightarrow> string + 64 word" where
  "parse_unsigned v key = (case from_chars (2 ^ 64) v of
     Some (n, []) \<Rightarrow> Inr (word_of_nat n)
   | _ \<Rightarrow> Inl (key @ '' must be an unsigned integer''))"

definition invalid_host :: "string \<Rightarrow> bool" where
  "invalid_host host \<longleftrightarrow> host = [] \<or> length host > 253 \<or> sublist ''://'' host \<or> CHR ''/'' \<in> set host \<or> CHR 0x5C \<in> set host \<or> list_ex is_space host"

section \<open>The configuration\<close>

datatype LogLevel = Level_trace | Level_debug | Level_info | Level_warning | Level_error | Level_off

definition lowercase :: "string \<Rightarrow> string" where
  "lowercase s = map (\<lambda>c. if (of_char c :: nat) \<in> {65..90} then char_of (of_char c + 32 :: nat) else c) s"

definition parse_log_level :: "string \<Rightarrow> LogLevel res" where
  "parse_log_level v =
     (let normalized = lowercase v in
      if normalized = ''trace'' then Inr Level_trace
      else if normalized = ''debug'' then Inr Level_debug
      else if normalized = ''info'' then Inr Level_info
      else if normalized = ''warn'' \<or> normalized = ''warning'' then Inr Level_warning
      else if normalized = ''error'' then Inr Level_error
      else if normalized = ''off'' then Inr Level_off
      else Inl (Invalid_argument ''invalid log level''))"

record RuntimeConfig =
  cfg_bootstrap_mode :: string
  cfg_directory_url :: string
  cfg_directory_public_key :: string
  cfg_directory_relay_id :: string
  cfg_virtual_mtu :: "16 word"
  cfg_accept_routed_subnets :: bool
  cfg_gateway_forwarding :: bool
  cfg_p2p_enabled :: bool
  cfg_p2p_stun_host :: string
  cfg_p2p_stun_port :: "16 word"
  cfg_relay_host :: string
  cfg_relay_port :: "16 word"
  cfg_listen_host :: string
  cfg_tls_certificate_file :: string
  cfg_tls_private_key_file :: string
  cfg_device_identity_file :: string
  cfg_auth_token_file :: string
  cfg_relay_database_file :: string
  cfg_relay_id :: string
  cfg_relay_authority :: string
  cfg_relay_health_identity_file :: string
  cfg_relay_upstream_host :: string
  cfg_relay_upstream_id :: string
  cfg_relay_upstream_health_public_key :: string
  cfg_relay_upstream_port :: "16 word"
  cfg_relay_upstream_capacity :: "32 word"
  cfg_quic_handshake_timeout_ms :: "32 word"
  cfg_authentication_timeout_ms :: "32 word"
  cfg_quic_idle_timeout_ms :: "32 word"
  cfg_quic_keep_alive_interval_ms :: "32 word"
  cfg_reconnect_initial_delay_ms :: "32 word"
  cfg_reconnect_max_delay_ms :: "32 word"
  cfg_relay_max_connections :: "32 word"
  cfg_relay_max_tls_handshakes :: "32 word"
  cfg_relay_send_queue_bytes :: "32 word"
  cfg_relay_send_queue_frames :: "32 word"
  cfg_relay_control_requests_per_second :: "32 word"
  cfg_relay_health_requests_per_second :: "32 word"
  cfg_relay_device_bytes_per_second :: "32 word"
  cfg_relay_network_bytes_per_second :: "32 word"
  cfg_relay_authority_bytes_per_second :: "32 word"
  cfg_relay_device_deliveries_per_second :: "32 word"
  cfg_relay_network_deliveries_per_second :: "32 word"
  cfg_relay_authority_deliveries_per_second :: "32 word"
  cfg_log_level :: LogLevel
  cfg_log_directory :: string
  cfg_log_max_size_bytes :: "64 word"
  cfg_log_max_files :: "64 word"

definition default_config :: RuntimeConfig where
  "default_config = \<lparr>
     cfg_bootstrap_mode = ''manual'',
     cfg_directory_url = [],
     cfg_directory_public_key = [],
     cfg_directory_relay_id = [],
     cfg_virtual_mtu = 1400,
     cfg_accept_routed_subnets = False,
     cfg_gateway_forwarding = False,
     cfg_p2p_enabled = True,
     cfg_p2p_stun_host = [],
     cfg_p2p_stun_port = 3478,
     cfg_relay_host = [],
     cfg_relay_port = 4433,
     cfg_listen_host = ''0.0.0.0'',
     cfg_tls_certificate_file = [],
     cfg_tls_private_key_file = [],
     cfg_device_identity_file = ''data/device.identity'',
     cfg_auth_token_file = ''data/auth.token'',
     cfg_relay_database_file = ''data/relay.db'',
     cfg_relay_id = [],
     cfg_relay_authority = [],
     cfg_relay_health_identity_file = [],
     cfg_relay_upstream_host = [],
     cfg_relay_upstream_id = [],
     cfg_relay_upstream_health_public_key = [],
     cfg_relay_upstream_port = 4433,
     cfg_relay_upstream_capacity = 128,
     cfg_quic_handshake_timeout_ms = 10000,
     cfg_authentication_timeout_ms = 10000,
     cfg_quic_idle_timeout_ms = 60000,
     cfg_quic_keep_alive_interval_ms = 15000,
     cfg_reconnect_initial_delay_ms = 1000,
     cfg_reconnect_max_delay_ms = 30000,
     cfg_relay_max_connections = 128,
     cfg_relay_max_tls_handshakes = 16,
     cfg_relay_send_queue_bytes = 4194304,
     cfg_relay_send_queue_frames = 256,
     cfg_relay_control_requests_per_second = 32,
     cfg_relay_health_requests_per_second = 64,
     cfg_relay_device_bytes_per_second = 8388608,
     cfg_relay_network_bytes_per_second = 33554432,
     cfg_relay_authority_bytes_per_second = 67108864,
     cfg_relay_device_deliveries_per_second = 8192,
     cfg_relay_network_deliveries_per_second = 32768,
     cfg_relay_authority_deliveries_per_second = 65536,
     cfg_log_level = Level_info,
     cfg_log_directory = ''logs'',
     cfg_log_max_size_bytes = 5242880,
     cfg_log_max_files = 5\<rparr>"

section \<open>Settings\<close>

text \<open>The seven quotas of a relay share a range check that depends on the kind of quota.\<close>

definition is_relay_quota :: "string \<Rightarrow> bool" where
  "is_relay_quota key \<longleftrightarrow> key \<in> {''relay_health_requests_per_second'', ''relay_device_bytes_per_second'', ''relay_network_bytes_per_second'',
     ''relay_authority_bytes_per_second'', ''relay_device_deliveries_per_second'', ''relay_network_deliveries_per_second'',
     ''relay_authority_deliveries_per_second''}"

definition quota_cap :: "string \<Rightarrow> 64 word" where
  "quota_cap key = (if sublist ''bytes'' key then 1024 * 1024 * 1024 else if key = ''relay_health_requests_per_second'' then 1000 else 1000000)"

definition set_relay_quota :: "string \<Rightarrow> string \<Rightarrow> RuntimeConfig \<Rightarrow> string + RuntimeConfig" where
  "set_relay_quota key v c = (case parse_unsigned v key of
     Inl e \<Rightarrow> Inl e
   | Inr n \<Rightarrow>
       if n = 0 \<or> n > quota_cap key then Inl ''relay quota is out of range''
       else let value32 = ucast n in Inr (
         if key = ''relay_health_requests_per_second'' then c\<lparr>cfg_relay_health_requests_per_second := value32\<rparr>
         else if key = ''relay_device_bytes_per_second'' then c\<lparr>cfg_relay_device_bytes_per_second := value32\<rparr>
         else if key = ''relay_network_bytes_per_second'' then c\<lparr>cfg_relay_network_bytes_per_second := value32\<rparr>
         else if key = ''relay_authority_bytes_per_second'' then c\<lparr>cfg_relay_authority_bytes_per_second := value32\<rparr>
         else if key = ''relay_device_deliveries_per_second'' then c\<lparr>cfg_relay_device_deliveries_per_second := value32\<rparr>
         else if key = ''relay_network_deliveries_per_second'' then c\<lparr>cfg_relay_network_deliveries_per_second := value32\<rparr>
         else c\<lparr>cfg_relay_authority_deliveries_per_second := value32\<rparr>))"

definition set_upstream_number :: "string \<Rightarrow> string \<Rightarrow> RuntimeConfig \<Rightarrow> string + RuntimeConfig" where
  "set_upstream_number key v c = (case parse_unsigned v key of
     Inl e \<Rightarrow> Inl e
   | Inr n \<Rightarrow>
       if n = 0 \<or> n > (if key = ''relay_upstream_port'' then 65535 else 4096) then Inl ''invalid upstream port or capacity''
       else Inr (if key = ''relay_upstream_port'' then c\<lparr>cfg_relay_upstream_port := ucast n\<rparr> else c\<lparr>cfg_relay_upstream_capacity := ucast n\<rparr>))"

definition set_virtual_mtu :: "string \<Rightarrow> string \<Rightarrow> RuntimeConfig \<Rightarrow> string + RuntimeConfig" where
  "set_virtual_mtu key v c = (case parse_unsigned v key of
     Inl e \<Rightarrow> Inl e
   | Inr mtu \<Rightarrow> if mtu < 576 \<or> mtu > 9000 then Inl ''virtual_mtu must be between 576 and 9000'' else Inr (c\<lparr>cfg_virtual_mtu := ucast mtu\<rparr>))"

definition set_routing_option :: "string \<Rightarrow> string \<Rightarrow> RuntimeConfig \<Rightarrow> string + RuntimeConfig" where
  "set_routing_option key v c =
     (if v \<noteq> ''true'' \<and> v \<noteq> ''false'' then Inl ''routing option must be true or false''
      else Inr (if key = ''accept_routed_subnets'' then c\<lparr>cfg_accept_routed_subnets := (v = ''true'')\<rparr>
                else c\<lparr>cfg_gateway_forwarding := (v = ''true'')\<rparr>))"

definition set_p2p_enabled :: "string \<Rightarrow> RuntimeConfig \<Rightarrow> string + RuntimeConfig" where
  "set_p2p_enabled v c =
     (if v \<noteq> ''true'' \<and> v \<noteq> ''false'' then Inl ''p2p_enabled must be true or false'' else Inr (c\<lparr>cfg_p2p_enabled := (v = ''true'')\<rparr>))"

definition set_stun_port :: "string \<Rightarrow> string \<Rightarrow> RuntimeConfig \<Rightarrow> string + RuntimeConfig" where
  "set_stun_port key v c = (case parse_unsigned v key of
     Inl e \<Rightarrow> Inl e
   | Inr port \<Rightarrow> if port = 0 \<or> port > 65535 then Inl ''invalid STUN port'' else Inr (c\<lparr>cfg_p2p_stun_port := ucast port\<rparr>))"

definition set_relay_port :: "string \<Rightarrow> string \<Rightarrow> RuntimeConfig \<Rightarrow> string + RuntimeConfig" where
  "set_relay_port key v c = (case parse_unsigned v key of
     Inl e \<Rightarrow> Inl e
   | Inr parsed \<Rightarrow> if parsed > 65535 then Inl ''relay_port is out of range'' else Inr (c\<lparr>cfg_relay_port := ucast parsed\<rparr>))"

text \<open>The timeouts and the limits of a relay are 32-bit numbers, range-checked alike.\<close>

definition set_number :: "string \<Rightarrow> string \<Rightarrow> (32 word \<Rightarrow> RuntimeConfig) \<Rightarrow> string + RuntimeConfig" where
  "set_number key v update = (case parse_unsigned v key of
     Inl e \<Rightarrow> Inl e
   | Inr parsed \<Rightarrow> if parsed > 0xffffffff then Inl (key @ '' is out of range'') else Inr (update (ucast parsed)))"

definition set_log :: "string \<Rightarrow> string \<Rightarrow> RuntimeConfig \<Rightarrow> string + RuntimeConfig" where
  "set_log key v c =
     (if key = ''log_level''
      then (case parse_log_level v of Inl e \<Rightarrow> Inl ''invalid log_level'' | Inr level \<Rightarrow> Inr (c\<lparr>cfg_log_level := level\<rparr>))
      else if key = ''log_directory'' then Inr (c\<lparr>cfg_log_directory := v\<rparr>)
      else if key = ''log_max_size_bytes''
      then (case parse_unsigned v key of Inl e \<Rightarrow> Inl e | Inr parsed \<Rightarrow> Inr (c\<lparr>cfg_log_max_size_bytes := parsed\<rparr>))
      else if key = ''log_max_files''
      then (case parse_unsigned v key of Inl e \<Rightarrow> Inl e | Inr parsed \<Rightarrow> Inr (c\<lparr>cfg_log_max_files := parsed\<rparr>))
      else Inl (''unknown key '' @ key))"

definition set_timing :: "string \<Rightarrow> string \<Rightarrow> RuntimeConfig \<Rightarrow> string + RuntimeConfig" where
  "set_timing key v c =
     (if key = ''quic_handshake_timeout_ms'' then set_number key v (\<lambda>n. c\<lparr>cfg_quic_handshake_timeout_ms := n\<rparr>)
      else if key = ''authentication_timeout_ms'' then set_number key v (\<lambda>n. c\<lparr>cfg_authentication_timeout_ms := n\<rparr>)
      else if key = ''quic_idle_timeout_ms'' then set_number key v (\<lambda>n. c\<lparr>cfg_quic_idle_timeout_ms := n\<rparr>)
      else if key = ''quic_keep_alive_interval_ms'' then set_number key v (\<lambda>n. c\<lparr>cfg_quic_keep_alive_interval_ms := n\<rparr>)
      else if key = ''reconnect_initial_delay_ms'' then set_number key v (\<lambda>n. c\<lparr>cfg_reconnect_initial_delay_ms := n\<rparr>)
      else if key = ''reconnect_max_delay_ms'' then set_number key v (\<lambda>n. c\<lparr>cfg_reconnect_max_delay_ms := n\<rparr>)
      else if key = ''relay_max_connections'' then set_number key v (\<lambda>n. c\<lparr>cfg_relay_max_connections := n\<rparr>)
      else if key = ''relay_max_tls_handshakes'' then set_number key v (\<lambda>n. c\<lparr>cfg_relay_max_tls_handshakes := n\<rparr>)
      else if key = ''relay_send_queue_bytes'' then set_number key v (\<lambda>n. c\<lparr>cfg_relay_send_queue_bytes := n\<rparr>)
      else if key = ''relay_send_queue_frames'' then set_number key v (\<lambda>n. c\<lparr>cfg_relay_send_queue_frames := n\<rparr>)
      else if key = ''relay_control_requests_per_second'' then set_number key v (\<lambda>n. c\<lparr>cfg_relay_control_requests_per_second := n\<rparr>)
      else set_log key v c)"

definition apply_setting :: "string \<Rightarrow> string \<Rightarrow> RuntimeConfig \<Rightarrow> string + RuntimeConfig" where
  "apply_setting key v c =
     (if key = ''bootstrap_mode'' then Inr (c\<lparr>cfg_bootstrap_mode := v\<rparr>)
      else if key = ''directory_url'' then Inr (c\<lparr>cfg_directory_url := v\<rparr>)
      else if key = ''directory_public_key'' then Inr (c\<lparr>cfg_directory_public_key := v\<rparr>)
      else if key = ''directory_relay_id'' then Inr (c\<lparr>cfg_directory_relay_id := v\<rparr>)
      else if is_relay_quota key then set_relay_quota key v c
      else if key = ''relay_upstream_host'' then Inr (c\<lparr>cfg_relay_upstream_host := v\<rparr>)
      else if key = ''relay_upstream_id'' then Inr (c\<lparr>cfg_relay_upstream_id := v\<rparr>)
      else if key = ''relay_upstream_health_public_key'' then Inr (c\<lparr>cfg_relay_upstream_health_public_key := v\<rparr>)
      else if key = ''relay_upstream_port'' \<or> key = ''relay_upstream_capacity'' then set_upstream_number key v c
      else if key = ''relay_id'' then Inr (c\<lparr>cfg_relay_id := v\<rparr>)
      else if key = ''relay_authority'' then Inr (c\<lparr>cfg_relay_authority := v\<rparr>)
      else if key = ''relay_health_identity_file'' then Inr (c\<lparr>cfg_relay_health_identity_file := v\<rparr>)
      else if key = ''virtual_mtu'' then set_virtual_mtu key v c
      else if key = ''accept_routed_subnets'' \<or> key = ''gateway_forwarding'' then set_routing_option key v c
      else if key = ''p2p_enabled'' then set_p2p_enabled v c
      else if key = ''p2p_stun_host'' then Inr (c\<lparr>cfg_p2p_stun_host := v\<rparr>)
      else if key = ''p2p_stun_port'' then set_stun_port key v c
      else if key = ''relay_host'' then Inr (c\<lparr>cfg_relay_host := v\<rparr>)
      else if key = ''relay_port'' then set_relay_port key v c
      else if key = ''listen_host'' then Inr (c\<lparr>cfg_listen_host := v\<rparr>)
      else if key = ''tls_certificate_file'' then Inr (c\<lparr>cfg_tls_certificate_file := v\<rparr>)
      else if key = ''tls_private_key_file'' then Inr (c\<lparr>cfg_tls_private_key_file := v\<rparr>)
      else if key = ''device_identity_file'' then Inr (c\<lparr>cfg_device_identity_file := v\<rparr>)
      else if key = ''auth_token_file'' then Inr (c\<lparr>cfg_auth_token_file := v\<rparr>)
      else if key = ''relay_database_file'' then Inr (c\<lparr>cfg_relay_database_file := v\<rparr>)
      else set_timing key v c)"

section \<open>Checks\<close>

definition is_pinned_key :: "string \<Rightarrow> bool" where
  "is_pinned_key key \<longleftrightarrow> length key = 64 \<and> list_all is_xdigit key \<and> key \<noteq> replicate 64 CHR ''0''"

definition directory_ok :: "RuntimeConfig \<Rightarrow> bool" where
  "directory_ok c \<longleftrightarrow> prefix ''https://'' (cfg_directory_url c) \<and> length (cfg_directory_url c) \<le> 2048 \<and>
     list_all (\<lambda>ch. ch \<notin> {CHR 0x0D, CHR 0x0A, CHR 0x09, CHR '' '', CHR ''@'', CHR ''#'', CHR 0x5C}) (cfg_directory_url c) \<and>
     is_pinned_key (cfg_directory_public_key c)"

text \<open>The loop over the four numbers of an IPv4 address; \<open>part\<close> counts them.\<close>

function check_stun_host :: "nat \<Rightarrow> string \<Rightarrow> bool" where
  "check_stun_host part host =
     (if part \<ge> 4 then True
      else let segment = takeWhile (\<lambda>ch. ch \<noteq> CHR ''.'') host; found = (CHR ''.'' \<in> set host) in
        (case from_chars (2 ^ 32) segment of
           Some (n, []) \<Rightarrow>
             if n > 255 \<or> (part < 3 \<and> \<not> found) \<or> (part = 3 \<and> found) \<or> (part = 0 \<and> (n = 0 \<or> n = 127 \<or> n \<ge> 224)) then False
             else check_stun_host (part + 1) (if found then tl (dropWhile (\<lambda>ch. ch \<noteq> CHR ''.'') host) else [])
         | _ \<Rightarrow> False))"
  by pat_completeness auto
termination by (relation "measure (\<lambda>(part, _). 4 - part)") auto

declare check_stun_host.simps [simp del]

definition relay_limits_ok :: "RuntimeConfig \<Rightarrow> bool" where
  "relay_limits_ok c \<longleftrightarrow> cfg_relay_max_connections c \<noteq> 0 \<and> cfg_relay_max_connections c \<le> 4096 \<and> cfg_relay_max_tls_handshakes c \<noteq> 0 \<and>
     cfg_relay_max_tls_handshakes c \<le> cfg_relay_max_connections c \<and> cfg_relay_send_queue_bytes c \<ge> 256 * 1024 \<and>
     cfg_relay_send_queue_bytes c \<le> 64 * 1024 * 1024 \<and> cfg_relay_send_queue_frames c \<ge> 32 \<and> cfg_relay_send_queue_frames c \<le> 4096 \<and>
     cfg_relay_control_requests_per_second c \<noteq> 0 \<and> cfg_relay_control_requests_per_second c \<le> 10000"

fun first_failure :: "(bool \<times> string) list \<Rightarrow> unit res" where
  "first_failure [] = Inr ()"
| "first_failure ((ok, message) # rest) = (if ok then first_failure rest else Inl (Runtime_error message))"

definition validate_config :: "RuntimeConfig \<Rightarrow> unit res" where
  "validate_config c = first_failure [
     (cfg_bootstrap_mode c \<in> {''manual'', ''official'', ''self_hosted''}, ''bootstrap_mode must be manual, official or self_hosted''),
     (cfg_bootstrap_mode c = ''manual'' \<or> directory_ok c, ''directory bootstrap requires an HTTPS URL and pinned Ed25519 public key''),
     (576 \<le> cfg_virtual_mtu c \<and> cfg_virtual_mtu c \<le> 9000, ''invalid virtual MTU''),
     (cfg_p2p_stun_port c \<noteq> 0, ''invalid STUN port''),
     (cfg_p2p_stun_host c = [] \<or> check_stun_host 0 (cfg_p2p_stun_host c), ''p2p_stun_host must be a numeric unicast IPv4 address''),
     (cfg_relay_host c = [] \<or> \<not> invalid_host (cfg_relay_host c), ''relay_host is invalid''),
     (cfg_relay_port c \<noteq> 0, ''relay_port must be between 1 and 65535''),
     (\<not> invalid_host (cfg_listen_host c), ''listen_host is invalid''),
     ((cfg_tls_certificate_file c = []) = (cfg_tls_private_key_file c = []),
        ''tls_certificate_file and tls_private_key_file must be configured together''),
     (1000 \<le> cfg_quic_handshake_timeout_ms c \<and> cfg_quic_handshake_timeout_ms c \<le> 60000,
        ''quic_handshake_timeout_ms must be between 1000 and 60000''),
     (1000 \<le> cfg_authentication_timeout_ms c \<and> cfg_authentication_timeout_ms c \<le> 60000,
        ''authentication_timeout_ms must be between 1000 and 60000''),
     (5000 \<le> cfg_quic_idle_timeout_ms c \<and> cfg_quic_idle_timeout_ms c \<le> 600000, ''quic_idle_timeout_ms must be between 5000 and 600000''),
     (cfg_quic_keep_alive_interval_ms c \<noteq> 0 \<and> cfg_quic_keep_alive_interval_ms c < cfg_quic_idle_timeout_ms c,
        ''quic_keep_alive_interval_ms must be positive and less than quic_idle_timeout_ms''),
     (100 \<le> cfg_reconnect_initial_delay_ms c \<and> cfg_reconnect_initial_delay_ms c \<le> 60000,
        ''reconnect_initial_delay_ms must be between 100 and 60000''),
     (cfg_reconnect_initial_delay_ms c \<le> cfg_reconnect_max_delay_ms c \<and> cfg_reconnect_max_delay_ms c \<le> 300000,
        ''reconnect_max_delay_ms must be at least the initial delay and at most 300000''),
     (cfg_log_directory c \<noteq> [], ''log_directory is empty''),
     (relay_limits_ok c, ''relay resource limits are out of range''),
     (64 * 1024 \<le> cfg_log_max_size_bytes c \<and> cfg_log_max_size_bytes c \<le> 1024 * 1024 * 1024,
        ''log_max_size_bytes must be between 65536 and 1073741824''),
     (cfg_log_max_files c \<noteq> 0 \<and> cfg_log_max_files c \<le> 32, ''log_max_files must be between 1 and 32'')]"

definition relay_quotas_ok :: "RuntimeConfig \<Rightarrow> bool" where
  "relay_quotas_ok c \<longleftrightarrow> cfg_relay_health_requests_per_second c \<noteq> 0 \<and> cfg_relay_health_requests_per_second c \<le> 1000 \<and>
     list_all (\<lambda>n. n \<noteq> 0 \<and> n \<le> 1024 * 1024 * 1024)
       [cfg_relay_device_bytes_per_second c, cfg_relay_network_bytes_per_second c, cfg_relay_authority_bytes_per_second c] \<and>
     list_all (\<lambda>n. n \<noteq> 0 \<and> n \<le> 1000000)
       [cfg_relay_device_deliveries_per_second c, cfg_relay_network_deliveries_per_second c, cfg_relay_authority_deliveries_per_second c]"

definition has_upstream :: "RuntimeConfig \<Rightarrow> bool" where
  "has_upstream c \<longleftrightarrow> cfg_relay_upstream_host c \<noteq> [] \<or> cfg_relay_upstream_id c \<noteq> [] \<or> cfg_relay_upstream_health_public_key c \<noteq> []"

definition upstream_ok :: "RuntimeConfig \<Rightarrow> bool" where
  "upstream_ok c \<longleftrightarrow> \<not> invalid_host (cfg_relay_upstream_host c) \<and> cfg_relay_upstream_id c \<noteq> [] \<and> cfg_relay_health_identity_file c \<noteq> [] \<and>
     cfg_relay_upstream_port c \<noteq> 0 \<and> cfg_relay_upstream_capacity c \<noteq> 0 \<and> cfg_relay_upstream_capacity c \<le> 4096 \<and>
     length (cfg_relay_upstream_health_public_key c) = 64 \<and> list_all is_xdigit (cfg_relay_upstream_health_public_key c) \<and>
     \<not> list_all (\<lambda>ch. ch = CHR ''0'') (cfg_relay_upstream_health_public_key c)"

definition valid_relay_name :: "string \<Rightarrow> bool" where
  "valid_relay_name v \<longleftrightarrow> v \<noteq> [] \<and> length v \<le> 64 \<and>
     list_all (\<lambda>ch. (of_char ch :: nat) \<in> {97..122} \<or> (of_char ch :: nat) \<in> {65..90} \<or> is_digit ch \<or> ch = CHR ''-'' \<or> ch = CHR ''.'') v"

definition regional_ok :: "RuntimeConfig \<Rightarrow> bool" where
  "regional_ok c \<longleftrightarrow> (cfg_relay_health_identity_file c = [] \<and> cfg_relay_id c = [] \<and> cfg_relay_authority c = []) \<or>
     (cfg_relay_health_identity_file c \<noteq> [] \<and> valid_relay_name (cfg_relay_id c) \<and> valid_relay_name (cfg_relay_authority c))"

definition validate_relay_config :: "RuntimeConfig \<Rightarrow> unit res" where
  "validate_relay_config c =
     res_bind (first_failure [(relay_quotas_ok c, ''relay quota is out of range''),
       (has_upstream c \<longrightarrow> upstream_ok c, ''regional upstream configuration is incomplete'')]) (\<lambda>_.
     res_bind (validate_config c) (\<lambda>_. first_failure [
       (regional_ok c, ''regional relay requires an identity file, valid relay_id and relay_authority''),
       (cfg_tls_certificate_file c \<noteq> [] \<and> cfg_tls_private_key_file c \<noteq> [], ''TLS certificate and private key are required by the relay''),
       (cfg_relay_upstream_host c \<noteq> [] \<or> cfg_auth_token_file c \<noteq> [], ''auth_token_file is required by the relay''),
       (cfg_relay_upstream_host c \<noteq> [] \<or> cfg_relay_database_file c \<noteq> [], ''relay_database_file is required by the relay'')]))"

definition validate_service_config :: "RuntimeConfig \<Rightarrow> unit res" where
  "validate_service_config c = res_bind (validate_config c) (\<lambda>_. first_failure [
     (cfg_device_identity_file c \<noteq> [], ''device_identity_file is required by the service''),
     ((cfg_relay_host c = [] \<and> cfg_bootstrap_mode c = ''manual'') \<or> cfg_auth_token_file c \<noteq> [], ''auth_token_file is required by the service'')])"

section \<open>The file\<close>

definition strip_cr :: "string \<Rightarrow> string" where
  "strip_cr line = (if line \<noteq> [] \<and> last line = CHR 0x0D then butlast line else line)"

text \<open>One line of the file: the keys seen so far and the configuration.\<close>

definition parse_line :: "nat \<Rightarrow> string \<Rightarrow> string set \<times> RuntimeConfig \<Rightarrow> (string set \<times> RuntimeConfig) res" where
  "parse_line line_number raw state =
     (let line = trim_text (strip_cr raw) in
      if line = [] \<or> hd line = CHR ''#'' then Inr state
      else if CHR ''='' \<notin> set line then fail line_number ''expected key=value''
      else let key = trim_text (takeWhile (\<lambda>ch. ch \<noteq> CHR ''='') line); v = trim_text (tl (dropWhile (\<lambda>ch. ch \<noteq> CHR ''='') line)) in
      if key = [] then fail line_number ''key is empty''
      else if v = [] then fail line_number (key @ '' is empty'')
      else if key \<in> fst state then fail line_number (''duplicate key '' @ key)
      else (case apply_setting key v (snd state) of
          Inl message \<Rightarrow> fail line_number message
        | Inr c \<Rightarrow> Inr (insert key (fst state), c)))"

lemma rest_shorter: "xs \<noteq> [] \<Longrightarrow> length (tl (dropWhile P xs)) < length xs"
  using length_dropWhile_le [of P xs] unfolding length_tl length_greater_0_conv [symmetric] by linarith

function parse_lines :: "nat \<Rightarrow> string \<Rightarrow> string set \<times> RuntimeConfig \<Rightarrow> (string set \<times> RuntimeConfig) res" where
  "parse_lines line_number content state =
     (if content = [] then Inr state
      else res_bind (parse_line line_number (takeWhile (\<lambda>ch. ch \<noteq> CHR 0x0A) content) state) (\<lambda>state'.
        let after = dropWhile (\<lambda>ch. ch \<noteq> CHR 0x0A) content in
        if after = [] then Inr state' else parse_lines (line_number + 1) (tl after) state'))"
  by pat_completeness auto
termination
  by (relation "measure (\<lambda>(_, content, _). length content)") (simp_all add: rest_shorter del: length_tl)

declare parse_lines.simps [simp del]

definition parse_config :: "string \<Rightarrow> RuntimeConfig res" where
  "parse_config content =
     (if length content > 1024 * 1024 then Inl (Runtime_error ''configuration exceeds 1 MiB'')
      else res_bind (parse_lines 1 content ({}, default_config)) (\<lambda>(keys, c). res_bind (validate_config c) (\<lambda>_. Inr c)))"

section \<open>What a file says\<close>

text \<open>
  A file read as a list of settings: the lines that are neither blank nor comments, each a key and a
  value around the first equality sign.
\<close>

fun split_lines :: "string \<Rightarrow> string list" where
  "split_lines [] = [[]]"
| "split_lines (ch # rest) = (if ch = CHR 0x0A then [] # split_lines rest else (ch # hd (split_lines rest)) # tl (split_lines rest))"

definition significant :: "string \<Rightarrow> bool" where
  "significant line \<longleftrightarrow> trim_text line \<noteq> [] \<and> hd (trim_text line) \<noteq> CHR ''#''"

definition setting_of :: "string \<Rightarrow> (string \<times> string) option" where
  "setting_of line =
     (let key = trim_text (takeWhile (\<lambda>ch. ch \<noteq> CHR ''='') (trim_text line)); v = trim_text (tl (dropWhile (\<lambda>ch. ch \<noteq> CHR ''='') (trim_text line))) in
      if CHR ''='' \<in> set (trim_text line) \<and> key \<noteq> [] \<and> v \<noteq> [] then Some (key, v) else None)"

definition config_settings :: "string \<Rightarrow> (string \<times> string) list option" where
  "config_settings content = those (map setting_of (filter significant (split_lines content)))"

fun apply_settings :: "(string \<times> string) list \<Rightarrow> RuntimeConfig \<Rightarrow> RuntimeConfig option" where
  "apply_settings [] c = Some c"
| "apply_settings ((key, v) # rest) c = (case apply_setting key v c of Inl _ \<Rightarrow> None | Inr c' \<Rightarrow> apply_settings rest c')"

lemma trim_text_strip_cr [simp]: "trim_text (strip_cr line) = trim_text line"
proof (cases "line \<noteq> [] \<and> last line = CHR 0x0D")
  case True
  then obtain l where l: "line = l @ [CHR 0x0D]" by (metis append_butlast_last_id)
  have cr: "is_space CHR 0x0D" by (simp add: is_space_def)
  have "dropWhile is_space (rev (dropWhile is_space (l @ [CHR 0x0D]))) = dropWhile is_space (rev (dropWhile is_space l))"
  proof (cases "\<forall>c\<in>set l. is_space c")
    case True
    then have "dropWhile is_space l = []" by simp
    moreover from this have "dropWhile is_space (l @ [CHR 0x0D]) = []" using cr by (simp add: dropWhile_append)
    ultimately show ?thesis by (simp only: rev.simps)
  next
    case False
    then show ?thesis using cr by (auto simp: dropWhile_append)
  qed
  then show ?thesis by (simp add: l strip_cr_def trim_text_def)
qed (auto simp: strip_cr_def)

lemma split_lines_step:
  "split_lines content = takeWhile (\<lambda>ch. ch \<noteq> CHR 0x0A) content #
     (let after = dropWhile (\<lambda>ch. ch \<noteq> CHR 0x0A) content in if after = [] then [] else split_lines (tl after))"
  by (induction content) (auto simp: Let_def)

lemma parse_line_iff:
  "parse_line n line (keys, c) = Inr (keys', c') \<longleftrightarrow>
     (if significant line
      then \<exists>key v. setting_of line = Some (key, v) \<and> key \<notin> keys \<and> keys' = insert key keys \<and> apply_setting key v c = Inr c'
      else keys' = keys \<and> c' = c)"
  by (auto simp: parse_line_def significant_def setting_of_def Let_def fail_def split: sum.splits)

lemma those_Cons: "those (x # xs) = Some ys \<longleftrightarrow> (\<exists>y ys'. x = Some y \<and> those xs = Some ys' \<and> ys = y # ys')"
  by (auto split: option.splits)

definition agree :: "string list \<Rightarrow> string set \<Rightarrow> RuntimeConfig \<Rightarrow> RuntimeConfig \<Rightarrow> bool" where
  "agree lines keys c c' \<longleftrightarrow> (\<exists>s. those (map setting_of (filter significant lines)) = Some s \<and> distinct (map fst s) \<and>
     fst ` set s \<inter> keys = {} \<and> apply_settings s c = Some c')"

lemma agree_Nil [simp]: "agree [] keys c c' \<longleftrightarrow> c' = c"
  by (auto simp: agree_def)

lemma agree_Cons:
  "agree (line # lines) keys c c' \<longleftrightarrow> (\<exists>keys1 c1. parse_line n line (keys, c) = Inr (keys1, c1) \<and> agree lines keys1 c1 c')"
proof (cases "significant line")
  case True
  show ?thesis
  proof (cases "setting_of line")
    case None
    with True show ?thesis by (simp add: parse_line_iff agree_def)
  next
    case (Some kv)
    obtain key v where kv: "setting_of line = Some (key, v)" using Some by (cases kv) auto
    show ?thesis
    proof (cases "apply_setting key v c")
      case (Inl e)
      with True kv show ?thesis by (auto simp: parse_line_iff agree_def)
    next
      case (Inr c1)
      with True kv have "agree (line # lines) keys c c' \<longleftrightarrow> key \<notin> keys \<and> agree lines (insert key keys) c1 c'"
        by (auto simp: agree_def)
      with True kv Inr show ?thesis by (auto simp: parse_line_iff)
    qed
  qed
qed (simp add: parse_line_iff agree_def)

lemma agree_blank: "agree [[]] keys c c' \<longleftrightarrow> c' = c"
  by (simp add: agree_def significant_def trim_text_def) auto

lemma parse_lines_iff: "(\<exists>keys'. parse_lines n content (keys, c) = Inr (keys', c')) \<longleftrightarrow> agree (split_lines content) keys c c'"
proof (induction "length content" arbitrary: n content keys c rule: less_induct)
  case less
  let ?line = "takeWhile (\<lambda>ch. ch \<noteq> CHR 0x0A) content" and ?after = "dropWhile (\<lambda>ch. ch \<noteq> CHR 0x0A) content"
  show ?case
  proof (cases "content = []")
    case True
    then show ?thesis by (subst parse_lines.simps) (auto simp: agree_blank)
  next
    case False
    have step: "(\<exists>keys'. parse_lines n content (keys, c) = Inr (keys', c')) \<longleftrightarrow>
        (\<exists>keys1 c1. parse_line n ?line (keys, c) = Inr (keys1, c1) \<and>
           (if ?after = [] then c' = c1 else \<exists>keys'. parse_lines (n + 1) (tl ?after) (keys1, c1) = Inr (keys', c')))"
      using False by (subst parse_lines.simps) (cases "?after = []"; simp add: Let_def res_bind_Inr_iff; blast)
    have shorter: "length (tl ?after) < length content" using False by (rule rest_shorter)
    show ?thesis
      unfolding step split_lines_step [of content] agree_Cons [where n = n] Let_def
      using less [OF shorter] by (cases "?after = []") (simp_all only: refl if_True if_False agree_Nil simp_thms)
  qed
qed

text \<open>
  C34.
  A configuration file is accepted with a given result exactly when it is at most one mebibyte long,
  each of its lines is blank, a comment or a setting, no key is set twice, the settings applied to the
  defaults in their order give that result, and the result passes \<open>validate_config\<close>. Spaces around
  keys and values, carriage returns, blank lines, comments and a missing last line break make no
  difference.
\<close>

theorem configuration_reads_settings:
  "parse_config content = Inr c \<longleftrightarrow>
     length content \<le> 1024 * 1024 \<and> validate_config c = Inr () \<and>
     (\<exists>s. config_settings content = Some s \<and> distinct (map fst s) \<and> apply_settings s default_config = Some c)"
proof -
  have "parse_config content = Inr c \<longleftrightarrow> length content \<le> 1024 * 1024 \<and> validate_config c = Inr () \<and>
     (\<exists>keys. parse_lines 1 content ({}, default_config) = Inr (keys, c))"
    by (auto simp: parse_config_def res_bind_Inr_iff)
  then show ?thesis unfolding parse_lines_iff by (simp add: agree_def config_settings_def)
qed

end
