(* ===== verification/Relay_Directory.thy ===== *)
theory Relay_Directory
  imports Config Handshake
begin

text \<open>
  Signed statements about relays: the directory of relays a client bootstraps from
  (\<open>auth/directory.cpp\<close>) and the health report a relay gives when challenged
  (\<open>auth/relay_health.cpp\<close>). The text of a configuration is a character list, that of the wire a byte
  list; \<open>str\<close> converts.
\<close>

section \<open>Directories\<close>

type_synonym DirectoryScope = byte

definition scope_legacy :: DirectoryScope where "scope_legacy = 0"
definition scope_official :: DirectoryScope where "scope_official = 1"
definition scope_self_hosted :: DirectoryScope where "scope_self_hosted = 2"

lemmas scope_defs = scope_legacy_def scope_official_def scope_self_hosted_def

record RelayEndpoint =
  ep_id :: bytes
  ep_host :: bytes
  ep_port :: "16 word"
  ep_region :: bytes
  ep_capacity :: "32 word"
  ep_version :: "16 word"
  ep_authority :: bytes
  ep_health_key :: bytes

record DirectoryCatalog =
  cat_issued_ms :: "64 word"
  cat_expires_ms :: "64 word"
  cat_relays :: "RelayEndpoint list"
  cat_scope :: DirectoryScope
  cat_revision :: "64 word"

definition plain_endpoint :: "bytes \<Rightarrow> bytes \<Rightarrow> 16 word \<Rightarrow> RelayEndpoint" where
  "plain_endpoint i h p = \<lparr>ep_id = i, ep_host = h, ep_port = p, ep_region = [], ep_capacity = 0, ep_version = protocol_version,
     ep_authority = [], ep_health_key = replicate 32 0\<rparr>"

definition relay_char :: "byte \<Rightarrow> bool" where
  "relay_char c \<longleftrightarrow> (c \<ge> 0x61 \<and> c \<le> 0x7a) \<or> (c \<ge> 0x41 \<and> c \<le> 0x5a) \<or> (c \<ge> 0x30 \<and> c \<le> 0x39) \<or> c = 0x2e \<or> c = 0x2d"

definition valid_relay_text :: "nat \<Rightarrow> bytes \<Rightarrow> bool" where
  "valid_relay_text limit s \<longleftrightarrow> s \<noteq> [] \<and> length s \<le> limit \<and> list_all relay_char s"

text \<open>The two functions \<open>text\<close>: the message differs between the two files.\<close>

definition write_relay_text :: "string \<Rightarrow> nat \<Rightarrow> bytes \<Rightarrow> bytes res" where
  "write_relay_text message limit s =
     (if \<not> valid_relay_text limit s then Inl (Invalid_argument message) else Inr (put (word_of_nat (length s) :: 16 word) @ s))"

definition read_relay_text :: "bytes parser" where
  "read_relay_text = pbind reader_get (\<lambda>n :: 16 word. reader_bytes (unat n))"

abbreviation directory_text :: "nat \<Rightarrow> bytes \<Rightarrow> bytes res" where
  "directory_text \<equiv> write_relay_text ''invalid directory endpoint''"

definition regional_metadata :: "(bytes \<times> 16 word) list \<Rightarrow> RelayEndpoint \<Rightarrow> bytes res" where
  "regional_metadata addresses e =
     (if ep_capacity e = 0 \<or> ep_capacity e > 1000000 \<or> ep_version e = 0 \<or> is_zero (ep_health_key e) \<or>
         (ep_host e, ep_port e) \<in> set addresses
      then Inl (Invalid_argument ''invalid regional relay metadata'')
      else res_bind (directory_text 32 (ep_region e)) (\<lambda>region. res_bind (directory_text 64 (ep_authority e)) (\<lambda>authority.
        Inr (region @ put (ep_capacity e) @ put (ep_version e) @ authority @ ep_health_key e))))"

definition legacy_metadata :: "RelayEndpoint \<Rightarrow> bytes res" where
  "legacy_metadata e =
     (if ep_region e \<noteq> [] \<or> ep_capacity e \<noteq> 0 \<or> ep_authority e \<noteq> [] \<or> \<not> is_zero (ep_health_key e) \<or> ep_version e \<noteq> protocol_version
      then Inl (Invalid_argument ''regional metadata requires directory version 2'') else Inr [])"

text \<open>The loop over the relays, with the identifiers and the addresses seen.\<close>

fun write_relays :: "bool \<Rightarrow> bytes list \<Rightarrow> (bytes \<times> 16 word) list \<Rightarrow> RelayEndpoint list \<Rightarrow> bytes res" where
  "write_relays regional ids addresses [] = Inr []"
| "write_relays regional ids addresses (e # rest) =
     (if ep_id e \<in> set ids \<or> ep_port e = 0 then Inl (Invalid_argument ''duplicate directory ID or invalid port'')
      else res_bind (directory_text 64 (ep_id e)) (\<lambda>i. res_bind (directory_text 253 (ep_host e)) (\<lambda>h.
        res_bind (if regional then regional_metadata addresses e else legacy_metadata e) (\<lambda>m.
        res_bind (write_relays regional (ep_id e # ids) ((ep_host e, ep_port e) # addresses) rest) (\<lambda>others.
        Inr (i @ h @ put (ep_port e) @ m @ others))))))"

definition directory_body :: "DirectoryCatalog \<Rightarrow> bytes res" where
  "directory_body c =
     (if cat_relays c = [] \<or> length (cat_relays c) > 32 \<or> cat_expires_ms c \<le> cat_issued_ms c \<or>
         cat_expires_ms c - cat_issued_ms c > 86400000
      then Inl (Invalid_argument ''invalid directory lifetime or size'')
      else let regional = (cat_scope c \<noteq> scope_legacy) in
      if (regional \<and> (cat_scope c > scope_self_hosted \<or> cat_revision c = 0)) \<or> (\<not> regional \<and> cat_revision c \<noteq> 0)
      then Inl (Invalid_argument ''invalid directory scope or revision'')
      else res_bind (write_relays regional [] [] (cat_relays c)) (\<lambda>relays.
        Inr (put (if regional then 0x4c4c4432 else 0x4c4c4431 :: 32 word) @ put (cat_issued_ms c) @ put (cat_expires_ms c) @
          (if regional then put (cat_revision c) @ put (cat_scope c) else []) @
          put (word_of_nat (length (cat_relays c)) :: byte) @ relays)))"

definition nibble :: "char \<Rightarrow> byte res" where
  "nibble ch = (let n = (of_char ch :: nat) in
     if 48 \<le> n \<and> n \<le> 57 then Inr (word_of_nat (n - 48))
     else if 97 \<le> n \<and> n \<le> 102 then Inr (word_of_nat (n - 97 + 10))
     else if 65 \<le> n \<and> n \<le> 70 then Inr (word_of_nat (n - 65 + 10))
     else Inl (Invalid_argument ''invalid directory key''))"

definition key_byte :: "string \<Rightarrow> nat \<Rightarrow> byte res" where
  "key_byte hex_text i = res_bind (nibble (hex_text ! (2 * i))) (\<lambda>high. res_bind (nibble (hex_text ! (2 * i + 1))) (\<lambda>low.
     Inr (push_bit 4 high OR low)))"

definition parse_directory_key :: "string \<Rightarrow> bytes res" where
  "parse_directory_key hex_text =
     (if length hex_text \<noteq> 64 then Inl (Invalid_argument ''directory key requires 64 hex digits'')
      else res_bind (res_map (key_byte hex_text) [0..<32]) (\<lambda>key.
        if is_zero key then Inl (Invalid_argument ''zero directory key'') else Inr key))"

definition sign_directory :: "DirectoryCatalog \<Rightarrow> DeviceIdentity \<Rightarrow> bytes res" where
  "sign_directory c identity = res_bind (directory_body c) (\<lambda>bs. res_bind (identity_sign identity bs) (\<lambda>signature. Inr (bs @ signature)))"

definition read_endpoint :: "bool \<Rightarrow> RelayEndpoint parser" where
  "read_endpoint regional =
     pbind read_relay_text (\<lambda>i. pbind read_relay_text (\<lambda>h. pbind reader_get (\<lambda>p.
     if regional
     then pbind read_relay_text (\<lambda>region. pbind reader_get (\<lambda>capacity. pbind reader_get (\<lambda>version. pbind read_relay_text (\<lambda>authority.
       pbind (reader_array 32) (\<lambda>key.
       preturn \<lparr>ep_id = i, ep_host = h, ep_port = p, ep_region = region, ep_capacity = capacity, ep_version = version,
         ep_authority = authority, ep_health_key = key\<rparr>)))))
     else preturn (plain_endpoint i h p))))"

definition read_catalog :: "DirectoryCatalog parser" where
  "read_catalog = pbind reader_get (\<lambda>magic :: 32 word.
     pbind (prequire (Invalid_argument ''invalid directory version'') (magic = 0x4c4c4431 \<or> magic = 0x4c4c4432)) (\<lambda>_.
     pbind reader_get (\<lambda>issued. pbind reader_get (\<lambda>expires.
     pbind (if magic = 0x4c4c4432
       then pbind reader_get (\<lambda>rv. pbind reader_get (\<lambda>scope.
         pbind (prequire (Invalid_argument ''regional directory requires an explicit scope'') (scope \<noteq> scope_legacy)) (\<lambda>_.
         preturn (rv, scope))))
       else preturn (0, scope_legacy)) (\<lambda>(rv, scope).
     pbind (read_counted (Invalid_argument ''directory limit exceeded'') 32 (read_endpoint (magic = 0x4c4c4432))) (\<lambda>relays.
     pbind reader_finish (\<lambda>_.
     preturn \<lparr>cat_issued_ms = issued, cat_expires_ms = expires, cat_relays = relays, cat_scope = scope, cat_revision = rv\<rparr>)))))))"

definition decode_directory :: "bytes \<Rightarrow> DirectoryCatalog res" where
  "decode_directory bs = res_bind (parse_all read_catalog bs) (\<lambda>c. res_bind (directory_body c) (\<lambda>_. Inr c))"

definition verify_directory :: "Crypto \<Rightarrow> bytes \<Rightarrow> bytes \<Rightarrow> 64 word \<Rightarrow> DirectoryCatalog res" where
  "verify_directory c response key now =
     (if length response < 85 \<or> length response > 16384 then Inl (Invalid_argument ''invalid directory response size'')
      else let signature = drop (length response - 64) response; signed = take (length response - 64) response in
      res_bind (verify_signature c key signed signature) (\<lambda>valid.
      if \<not> valid then Inl (Invalid_argument ''directory signature rejected'')
      else res_bind (decode_directory signed) (\<lambda>catalog.
        if now < cat_issued_ms catalog \<or> now \<ge> cat_expires_ms catalog
        then Inl (Invalid_argument ''directory response expired or not yet valid'') else Inr catalog)))"

section \<open>Bootstrap\<close>

record BootstrapResult =
  boot_relay :: RelayEndpoint
  boot_from_directory :: bool
  boot_error :: string
  boot_pool :: "RelayEndpoint list"
  boot_expires_ms :: "64 word"
  boot_revision :: "64 word"

definition manual_bootstrap :: "RuntimeConfig \<Rightarrow> BootstrapResult" where
  "manual_bootstrap cfg = \<lparr>boot_relay = plain_endpoint (str ''manual'') (str (cfg_relay_host cfg)) (cfg_relay_port cfg),
     boot_from_directory = False, boot_error = [], boot_pool = [], boot_expires_ms = 0, boot_revision = 0\<rparr>"

definition configured_relay :: "RuntimeConfig \<Rightarrow> RelayEndpoint \<Rightarrow> bool" where
  "configured_relay cfg x \<longleftrightarrow> ep_version x = protocol_version \<and> (cfg_directory_relay_id cfg = [] \<or> ep_id x = str (cfg_directory_relay_id cfg))"

definition bootstrap_from :: "RuntimeConfig \<Rightarrow> DirectoryCatalog \<Rightarrow> RelayEndpoint \<Rightarrow> BootstrapResult" where
  "bootstrap_from cfg catalog e = \<lparr>boot_relay = e, boot_from_directory = True, boot_error = [],
     boot_pool = (if cat_scope catalog \<noteq> scope_legacy \<and> cfg_directory_relay_id cfg = []
       then filter (\<lambda>peer. ep_authority peer = ep_authority e \<and> ep_version peer = protocol_version) (cat_relays catalog)
       else [e]),
     boot_expires_ms = cat_expires_ms catalog, boot_revision = cat_revision catalog\<rparr>"

definition directory_bootstrap :: "Crypto \<Rightarrow> (string \<Rightarrow> bytes res) \<Rightarrow> RuntimeConfig \<Rightarrow> 64 word \<Rightarrow> BootstrapResult res" where
  "directory_bootstrap c fetch cfg now =
     res_bind (fetch (cfg_directory_url cfg)) (\<lambda>response. res_bind (parse_directory_key (cfg_directory_public_key cfg)) (\<lambda>key.
     res_bind (verify_directory c response key now) (\<lambda>catalog.
     let expected = (if cfg_bootstrap_mode cfg = ''official'' then scope_official else scope_self_hosted) in
     if cat_scope catalog \<noteq> scope_legacy \<and> cat_scope catalog \<noteq> expected
     then Inl (Runtime_error ''directory trust scope differs from configuration'')
     else (case find (configured_relay cfg) (cat_relays catalog) of
         None \<Rightarrow> Inl (Runtime_error ''configured relay is absent from directory'')
       | Some e \<Rightarrow> Inr (bootstrap_from cfg catalog e)))))"

definition resolve_bootstrap :: "Crypto \<Rightarrow> (string \<Rightarrow> bytes res) \<Rightarrow> RuntimeConfig \<Rightarrow> 64 word \<Rightarrow> BootstrapResult" where
  "resolve_bootstrap c fetch cfg now =
     (if cfg_bootstrap_mode cfg = ''manual'' then manual_bootstrap cfg
      else case directory_bootstrap c fetch cfg now of
        Inl _ \<Rightarrow> (manual_bootstrap cfg)\<lparr>boot_error := ''Directory unavailable or untrusted. Using the configured manual relay.''\<rparr>
      | Inr result \<Rightarrow> result)"

section \<open>Health reports\<close>

record RelayHealth =
  health_nonce :: bytes
  health_relay :: bytes
  health_authority :: bytes
  health_issued_ms :: "64 word"
  health_uptime_ms :: "64 word"
  health_capacity :: "32 word"
  health_active :: "32 word"
  health_upstream_rtt_us :: "32 word"
  health_forwarded_packets :: "64 word"
  health_forwarded_bytes :: "64 word"
  health_dropped_packets :: "64 word"
  health_admitted_deliveries :: "64 word"
  health_admitted_bytes :: "64 word"
  health_quota_rejections :: "64 word"
  health_control_rejections :: "64 word"
  health_accounting :: bool
  health_ready :: bool

abbreviation health_text :: "bytes \<Rightarrow> bytes res" where
  "health_text \<equiv> write_relay_text ''invalid health identity'' 64"

definition health_body :: "RelayHealth \<Rightarrow> bytes res" where
  "health_body v =
     (if is_zero (health_nonce v) \<or> health_capacity v = 0 \<or> health_capacity v > 1000000 \<or> health_active v > health_capacity v
      then Inl (Invalid_argument ''invalid health counters or challenge'')
      else if \<not> health_accounting v \<and> (health_admitted_deliveries v \<noteq> 0 \<or> health_admitted_bytes v \<noteq> 0 \<or>
          health_quota_rejections v \<noteq> 0 \<or> health_control_rejections v \<noteq> 0)
      then Inl (Invalid_argument ''accounting counters require health format 2'')
      else res_bind (health_text (health_relay v)) (\<lambda>relay. res_bind (health_text (health_authority v)) (\<lambda>authority.
        Inr (put (if health_accounting v then 0x4c4c4832 else 0x4c4c4831 :: 32 word) @ put protocol_version @ relay @ authority @
          health_nonce v @ put (health_issued_ms v) @ put (health_uptime_ms v) @ put (health_capacity v) @ put (health_active v) @
          put (health_upstream_rtt_us v) @ put (health_forwarded_packets v) @ put (health_forwarded_bytes v) @
          put (health_dropped_packets v) @
          (if health_accounting v
           then put (health_admitted_deliveries v) @ put (health_admitted_bytes v) @ put (health_quota_rejections v) @
             put (health_control_rejections v)
           else []) @ put_bool (health_ready v)))))"

definition sign_relay_health :: "RelayHealth \<Rightarrow> DeviceIdentity \<Rightarrow> bytes res" where
  "sign_relay_health v identity = res_bind (health_body v) (\<lambda>bs. res_bind (identity_sign identity bs) (\<lambda>signature. Inr (bs @ signature)))"

definition read_accounting :: "bool \<Rightarrow> (64 word \<times> 64 word \<times> 64 word \<times> 64 word) parser" where
  "read_accounting present =
     (if present
      then pbind reader_get (\<lambda>a. pbind reader_get (\<lambda>b. pbind reader_get (\<lambda>c. pbind reader_get (\<lambda>d. preturn (a, b, c, d)))))
      else preturn (0, 0, 0, 0))"

definition read_health :: "16 word \<Rightarrow> RelayHealth parser" where
  "read_health version = pbind reader_get (\<lambda>magic :: 32 word.
     if magic \<noteq> 0x4c4c4831 \<and> magic \<noteq> 0x4c4c4832 then plift (Inl (Invalid_argument ''relay health protocol mismatch''))
     else pbind reader_get (\<lambda>v.
     pbind (prequire (Invalid_argument ''relay health protocol mismatch'') (v = version)) (\<lambda>_.
     pbind read_relay_text (\<lambda>relay. pbind read_relay_text (\<lambda>authority. pbind (reader_array 32) (\<lambda>nonce.
     pbind reader_get (\<lambda>issued. pbind reader_get (\<lambda>uptime. pbind reader_get (\<lambda>capacity. pbind reader_get (\<lambda>active.
     pbind reader_get (\<lambda>rtt. pbind reader_get (\<lambda>packets. pbind reader_get (\<lambda>octets. pbind reader_get (\<lambda>dropped.
     pbind (read_accounting (magic = 0x4c4c4832)) (\<lambda>(deliveries, admitted_octets, quota, ctl).
     pbind (read_flag (Invalid_argument ''invalid health readiness'')) (\<lambda>ready.
     pbind reader_finish (\<lambda>_.
     preturn \<lparr>health_nonce = nonce, health_relay = relay, health_authority = authority, health_issued_ms = issued,
       health_uptime_ms = uptime, health_capacity = capacity, health_active = active, health_upstream_rtt_us = rtt,
       health_forwarded_packets = packets, health_forwarded_bytes = octets, health_dropped_packets = dropped,
       health_admitted_deliveries = deliveries, health_admitted_bytes = admitted_octets, health_quota_rejections = quota,
       health_control_rejections = ctl, health_accounting = (magic = 0x4c4c4832), health_ready = ready\<rparr>)))))))))))))))))"

definition decode_health :: "16 word \<Rightarrow> bytes \<Rightarrow> RelayHealth res" where
  "decode_health version bs = res_bind (parse_all (read_health version) bs) (\<lambda>v. res_bind (health_body v) (\<lambda>_. Inr v))"

definition verify_relay_health :: "Crypto \<Rightarrow> bytes \<Rightarrow> RelayEndpoint \<Rightarrow> bytes \<Rightarrow> 64 word \<Rightarrow> RelayHealth res" where
  "verify_relay_health c encoded expected nonce now =
     (if length encoded < 64 \<or> length encoded > 512 \<or> is_zero (ep_health_key expected) \<or> is_zero nonce
      then Inl (Invalid_argument ''invalid signed health response'')
      else let signed = take (length encoded - 64) encoded; signature = drop (length encoded - 64) encoded in
      res_bind (verify_signature c (ep_health_key expected) signed signature) (\<lambda>valid.
      if \<not> valid then Inl (Runtime_error ''relay health signature rejected'')
      else res_bind (decode_health (ep_version expected) signed) (\<lambda>v.
        let age = (if health_issued_ms v > now then health_issued_ms v - now else now - health_issued_ms v) in
        if health_relay v \<noteq> ep_id expected \<or> health_authority v \<noteq> ep_authority expected \<or> health_capacity v \<noteq> ep_capacity expected \<or>
           health_nonce v \<noteq> nonce \<or> age > 30000
        then Inl (Runtime_error ''relay health challenge, freshness or authority mismatch'') else Inr v)))"

section \<open>Canonical encodings\<close>

definition relay_text_layout :: "bytes \<Rightarrow> bytes" where
  "relay_text_layout s = put (word_of_nat (length s) :: 16 word) @ s"

lemma read_relay_text_iff [wire_iff]: "read_relay_text r = Inr (s, rest) \<longleftrightarrow> r = relay_text_layout s @ rest \<and> length s < 65536"
proof
  assume "read_relay_text r = Inr (s, rest)"
  then obtain n :: "16 word" where "r = put n @ s @ rest" "length s = unat n" by (auto simp: read_relay_text_def wire_reads)
  moreover have "unat n < 2 ^ LENGTH(16)" by (rule unsigned_less)
  ultimately show "r = relay_text_layout s @ rest \<and> length s < 65536" by (simp add: relay_text_layout_def)
next
  assume "r = relay_text_layout s @ rest \<and> length s < 65536"
  then show "read_relay_text r = Inr (s, rest)" by (simp add: read_relay_text_def relay_text_layout_def wire_steps unat_of_nat_size)
qed

lemma write_relay_text_iff: "write_relay_text m limit s = Inr bs \<longleftrightarrow> valid_relay_text limit s \<and> bs = relay_text_layout s"
  by (auto simp: write_relay_text_def relay_text_layout_def)

definition endpoint_layout :: "bool \<Rightarrow> RelayEndpoint \<Rightarrow> bytes" where
  "endpoint_layout regional e = relay_text_layout (ep_id e) @ relay_text_layout (ep_host e) @ put (ep_port e) @
     (if regional then relay_text_layout (ep_region e) @ put (ep_capacity e) @ put (ep_version e) @ relay_text_layout (ep_authority e) @ ep_health_key e
      else [])"

definition endpoint_readable :: "bool \<Rightarrow> RelayEndpoint \<Rightarrow> bool" where
  "endpoint_readable regional e \<longleftrightarrow> length (ep_id e) < 65536 \<and> length (ep_host e) < 65536 \<and>
     (if regional then length (ep_region e) < 65536 \<and> length (ep_authority e) < 65536 \<and> length (ep_health_key e) = 32
      else e = plain_endpoint (ep_id e) (ep_host e) (ep_port e))"

lemma read_endpoint_iff: "read_endpoint regional r = Inr (e, rest) \<longleftrightarrow> r = endpoint_layout regional e @ rest \<and> endpoint_readable regional e"
proof (cases regional)
  case True
  show ?thesis
    unfolding read_endpoint_def endpoint_layout_def endpoint_readable_def using True
    by (cases e) (auto simp: wire_reads read_relay_text_iff)
next
  case False
  have "read_endpoint regional r = Inr (e, rest) \<longleftrightarrow>
      (\<exists>i h p. r = relay_text_layout i @ relay_text_layout h @ put p @ rest \<and> length i < 65536 \<and> length h < 65536 \<and> e = plain_endpoint i h p)"
    using False by (simp add: read_endpoint_def wire_reads read_relay_text_iff) blast
  also have "\<dots> \<longleftrightarrow> r = endpoint_layout regional e @ rest \<and> endpoint_readable regional e"
    using False by (auto simp: endpoint_layout_def endpoint_readable_def plain_endpoint_def)
  finally show ?thesis .
qed

text \<open>What \<open>write_relays\<close> accepts: one relay, and the relays of a list among each other.\<close>

definition endpoint_valid :: "bool \<Rightarrow> RelayEndpoint \<Rightarrow> bool" where
  "endpoint_valid regional e \<longleftrightarrow> ep_port e \<noteq> 0 \<and> valid_relay_text 64 (ep_id e) \<and> valid_relay_text 253 (ep_host e) \<and>
     (if regional
      then ep_capacity e \<noteq> 0 \<and> ep_capacity e \<le> 1000000 \<and> ep_version e \<noteq> 0 \<and> \<not> is_zero (ep_health_key e) \<and>
        valid_relay_text 32 (ep_region e) \<and> valid_relay_text 64 (ep_authority e)
      else ep_region e = [] \<and> ep_capacity e = 0 \<and> ep_authority e = [] \<and> is_zero (ep_health_key e) \<and> ep_version e = protocol_version)"

definition endpoint_address :: "RelayEndpoint \<Rightarrow> bytes \<times> 16 word" where
  "endpoint_address e = (ep_host e, ep_port e)"

definition relays_apart :: "bool \<Rightarrow> bytes list \<Rightarrow> (bytes \<times> 16 word) list \<Rightarrow> RelayEndpoint list \<Rightarrow> bool" where
  "relays_apart regional ids addresses es \<longleftrightarrow> distinct (map ep_id es) \<and> set (map ep_id es) \<inter> set ids = {} \<and>
     (regional \<longrightarrow> distinct (map endpoint_address es) \<and> set (map endpoint_address es) \<inter> set addresses = {})"

lemma relays_apart_Cons:
  "relays_apart regional ids addresses (e # es) \<longleftrightarrow> ep_id e \<notin> set ids \<and> (regional \<longrightarrow> endpoint_address e \<notin> set addresses) \<and>
     relays_apart regional (ep_id e # ids) (endpoint_address e # addresses) es"
  unfolding relays_apart_def by auto

lemma metadata_iff:
  "(if regional then regional_metadata addresses e else legacy_metadata e) = Inr m \<and> ep_port e \<noteq> 0 \<and> valid_relay_text 64 (ep_id e) \<and>
     valid_relay_text 253 (ep_host e) \<longleftrightarrow>
   endpoint_valid regional e \<and> (regional \<longrightarrow> endpoint_address e \<notin> set addresses) \<and>
     endpoint_layout regional e = relay_text_layout (ep_id e) @ relay_text_layout (ep_host e) @ put (ep_port e) @ m"
  by (cases regional)
    (auto simp: regional_metadata_def legacy_metadata_def endpoint_valid_def endpoint_layout_def endpoint_address_def write_relay_text_iff
      res_bind_Inr_iff)

lemma endpoint_layout_split: "\<exists>m. endpoint_layout regional e = relay_text_layout (ep_id e) @ relay_text_layout (ep_host e) @ put (ep_port e) @ m"
  by (simp add: endpoint_layout_def)

lemma write_relays_iff:
  "write_relays regional ids addresses es = Inr bs \<longleftrightarrow>
     list_all (endpoint_valid regional) es \<and> relays_apart regional ids addresses es \<and> bs = concat (map (endpoint_layout regional) es)"
proof (induction es arbitrary: ids addresses bs)
  case Nil
  then show ?case by (auto simp: relays_apart_def)
next
  case (Cons e es)
  have "write_relays regional ids addresses (e # es) = Inr bs \<longleftrightarrow>
      ep_id e \<notin> set ids \<and> (\<exists>m others. ((if regional then regional_metadata addresses e else legacy_metadata e) = Inr m \<and> ep_port e \<noteq> 0 \<and>
        valid_relay_text 64 (ep_id e) \<and> valid_relay_text 253 (ep_host e)) \<and>
        write_relays regional (ep_id e # ids) (endpoint_address e # addresses) es = Inr others \<and>
        bs = relay_text_layout (ep_id e) @ relay_text_layout (ep_host e) @ put (ep_port e) @ m @ others)"
    by (auto simp: res_bind_Inr_iff write_relay_text_iff endpoint_address_def)
  then show ?case
    unfolding metadata_iff Cons.IH relays_apart_Cons [of regional ids addresses e es] by (auto simp: endpoint_layout_split)
qed

definition catalog_typed :: "DirectoryCatalog \<Rightarrow> bool" where
  "catalog_typed c \<longleftrightarrow> list_all (\<lambda>e. length (ep_health_key e) = 32) (cat_relays c)"

abbreviation is_regional :: "DirectoryCatalog \<Rightarrow> bool" where
  "is_regional c \<equiv> cat_scope c \<noteq> scope_legacy"

definition catalog_valid :: "DirectoryCatalog \<Rightarrow> bool" where
  "catalog_valid c \<longleftrightarrow> cat_relays c \<noteq> [] \<and> length (cat_relays c) \<le> 32 \<and> cat_issued_ms c < cat_expires_ms c \<and>
     cat_expires_ms c - cat_issued_ms c \<le> 86400000 \<and>
     (if is_regional c then cat_scope c \<le> scope_self_hosted \<and> cat_revision c \<noteq> 0 else cat_revision c = 0) \<and>
     list_all (endpoint_valid (is_regional c)) (cat_relays c) \<and> relays_apart (is_regional c) [] [] (cat_relays c)"

definition catalog_layout :: "DirectoryCatalog \<Rightarrow> bytes" where
  "catalog_layout c = put (if is_regional c then 0x4c4c4432 else 0x4c4c4431 :: 32 word) @ put (cat_issued_ms c) @ put (cat_expires_ms c) @
     (if is_regional c then put (cat_revision c) @ put (cat_scope c) else []) @
     put (word_of_nat (length (cat_relays c)) :: byte) @ concat (map (endpoint_layout (is_regional c)) (cat_relays c))"

lemma directory_body_iff: "directory_body c = Inr bs \<longleftrightarrow> catalog_valid c \<and> bs = catalog_layout c"
  by (auto simp: directory_body_def catalog_valid_def catalog_layout_def Let_def res_bind_Inr_iff write_relays_iff not_less not_le)

lemmas read_relays_iff = read_counted_iff [OF read_endpoint_iff, where limit = 32, simplified]

lemma read_catalog_iff:
  "read_catalog r = Inr (c, rest) \<longleftrightarrow> r = catalog_layout c \<and> rest = [] \<and> length (cat_relays c) \<le> 32 \<and>
     (is_regional c \<or> cat_revision c = 0) \<and> list_all (endpoint_readable (is_regional c)) (cat_relays c)"
proof
  assume "read_catalog r = Inr (c, rest)"
  then show "r = catalog_layout c \<and> rest = [] \<and> length (cat_relays c) \<le> 32 \<and> (is_regional c \<or> cat_revision c = 0) \<and>
      list_all (endpoint_readable (is_regional c)) (cat_relays c)"
    by (auto simp: read_catalog_def wire_reads read_relays_iff catalog_layout_def split: if_splits)
next
  assume a: "r = catalog_layout c \<and> rest = [] \<and> length (cat_relays c) \<le> 32 \<and> (is_regional c \<or> cat_revision c = 0) \<and>
      list_all (endpoint_readable (is_regional c)) (cat_relays c)"
  then have relays: "read_counted e 32 (read_endpoint (is_regional c)) (put (word_of_nat (length (cat_relays c)) :: byte) @
      concat (map (endpoint_layout (is_regional c)) (cat_relays c))) = Inr (cat_relays c, [])" for e
    by (simp add: read_relays_iff)
  have eta: "\<lparr>cat_issued_ms = cat_issued_ms c, cat_expires_ms = cat_expires_ms c, cat_relays = cat_relays c, cat_scope = cat_scope c,
      cat_revision = cat_revision c\<rparr> = c" by simp
  show "read_catalog r = Inr (c, rest)"
    using a relays eta by (cases "is_regional c") (simp_all add: read_catalog_def catalog_layout_def wire_steps)
qed

interpretation directory_codec: wire_codec directory_body decode_directory catalog_typed
proof unfold_locales
  fix c bs
  assume typed: "catalog_typed c" and enc: "directory_body c = Inr bs"
  then have valid: "catalog_valid c" "bs = catalog_layout c" by (simp_all add: directory_body_iff)
  have "endpoint_readable regional e" if "endpoint_valid regional e" "length (ep_health_key e) = 32" for regional e
    using that is_zero_iff_replicate [of "ep_health_key e"]
    by (cases e; cases regional) (auto simp: endpoint_valid_def endpoint_readable_def valid_relay_text_def plain_endpoint_def)
  then have "list_all (endpoint_readable (is_regional c)) (cat_relays c)"
    using valid typed by (auto simp: catalog_valid_def catalog_typed_def list_all_iff)
  then have "parse_all read_catalog bs = Inr c"
    using valid by (auto simp: parse_all_Inr_iff read_catalog_iff catalog_valid_def)
  then show "decode_directory bs = Inr c" using enc by (simp add: decode_directory_def)
next
  fix c bs
  assume "decode_directory bs = Inr c"
  then have valid: "catalog_valid c" and bs: "bs = catalog_layout c" and rd: "list_all (endpoint_readable (is_regional c)) (cat_relays c)"
    by (auto simp: decode_directory_def res_bind_Inr_iff parse_all_Inr_iff read_catalog_iff directory_body_iff)
  have "length (ep_health_key e) = 32" if "endpoint_readable regional e" for regional e
    using that by (cases e; cases regional) (auto simp: endpoint_readable_def plain_endpoint_def)
  then show "catalog_typed c \<and> directory_body c = Inr bs"
    using valid bs rd by (auto simp: catalog_typed_def list_all_iff directory_body_iff)
qed

definition health_typed :: "RelayHealth \<Rightarrow> bool" where
  "health_typed v \<longleftrightarrow> length (health_nonce v) = 32"

definition health_valid :: "RelayHealth \<Rightarrow> bool" where
  "health_valid v \<longleftrightarrow> \<not> is_zero (health_nonce v) \<and> health_capacity v \<noteq> 0 \<and> health_capacity v \<le> 1000000 \<and>
     health_active v \<le> health_capacity v \<and> valid_relay_text 64 (health_relay v) \<and> valid_relay_text 64 (health_authority v) \<and>
     (health_accounting v \<or> (health_admitted_deliveries v = 0 \<and> health_admitted_bytes v = 0 \<and> health_quota_rejections v = 0 \<and>
       health_control_rejections v = 0))"

definition accounting_layout :: "RelayHealth \<Rightarrow> bytes" where
  "accounting_layout v = (if health_accounting v
     then put (health_admitted_deliveries v) @ put (health_admitted_bytes v) @ put (health_quota_rejections v) @ put (health_control_rejections v)
     else [])"

definition health_layout :: "RelayHealth \<Rightarrow> bytes" where
  "health_layout v = put (if health_accounting v then 0x4c4c4832 else 0x4c4c4831 :: 32 word) @ put protocol_version @
     relay_text_layout (health_relay v) @ relay_text_layout (health_authority v) @
     health_nonce v @ put (health_issued_ms v) @ put (health_uptime_ms v) @ put (health_capacity v) @ put (health_active v) @
     put (health_upstream_rtt_us v) @ put (health_forwarded_packets v) @ put (health_forwarded_bytes v) @
     put (health_dropped_packets v) @ accounting_layout v @ put_bool (health_ready v)"

lemma health_body_iff: "health_body v = Inr bs \<longleftrightarrow> health_valid v \<and> bs = health_layout v"
  by (auto simp: health_body_def health_valid_def health_layout_def accounting_layout_def res_bind_Inr_iff write_relay_text_iff not_less)

lemma read_accounting_iff:
  "read_accounting present r = Inr ((a, b, c, d), rest) \<longleftrightarrow>
     (if present then r = put a @ put b @ put c @ put d @ rest else r = rest \<and> a = 0 \<and> b = 0 \<and> c = 0 \<and> d = 0)"
  by (auto simp: read_accounting_def wire_reads)

interpretation health_codec: wire_codec health_body "decode_health protocol_version" health_typed
proof unfold_locales
  fix v :: RelayHealth and bs
  assume "health_typed v" and enc: "health_body v = Inr bs"
  then have v: "health_valid v" "bs = health_layout v" and len: "length (health_nonce v) = 32"
    by (simp_all add: health_body_iff health_typed_def)
  have texts: "read_relay_text (relay_text_layout (health_relay v) @ rest) = Inr (health_relay v, rest)"
      "read_relay_text (relay_text_layout (health_authority v) @ rest) = Inr (health_authority v, rest)" for rest
    using v by (auto simp: read_relay_text_iff health_valid_def valid_relay_text_def)
  have acc: "read_accounting present (accounting_layout v @ rest) = Inr ((health_admitted_deliveries v, health_admitted_bytes v,
      health_quota_rejections v, health_control_rejections v), rest)" if "health_accounting v = present" for present rest
    using v that by (auto simp: read_accounting_iff accounting_layout_def health_valid_def)
  have flag: "read_flag e (put_bool (health_ready v)) = Inr (health_ready v, [])" for e using read_flag_append [of e _ "[]"] by simp
  have "read_health protocol_version (health_layout v) = Inr (v, [])"
    unfolding health_layout_def
    by (cases "health_accounting v") (simp_all add: read_health_def wire_steps texts acc len flag)
  then show "decode_health protocol_version bs = Inr v" using enc v by (simp add: decode_health_def parse_all_Inr_iff res_bind_Inr_iff)
next
  fix v :: RelayHealth and bs
  assume "decode_health protocol_version bs = Inr v"
  then obtain rest where read: "read_health protocol_version bs = Inr (v, rest)" and valid: "health_valid v"
    by (auto simp: decode_health_def res_bind_Inr_iff parse_all_Inr_iff health_body_iff)
  from read have "health_typed v \<and> bs = health_layout v"
    by (auto simp: read_health_def wire_reads read_relay_text_iff read_accounting_iff health_typed_def health_layout_def accounting_layout_def
        split: if_splits)
  with valid show "health_typed v \<and> health_body v = Inr bs" by (simp add: health_body_iff)
qed

section \<open>What signatures vouch for\<close>

text \<open>A message followed by a signature of 64 bytes, as the sender appends it and the receiver cuts it off.\<close>

definition signed_by :: "Crypto \<Rightarrow> bytes \<Rightarrow> bytes \<Rightarrow> bytes \<Rightarrow> bool" where
  "signed_by c key message encoded \<longleftrightarrow>
     (\<exists>signature. length signature = 64 \<and> encoded = message @ signature \<and> crypto_ed25519_verify c key message signature = Some True)"

lemma signed_split:
  assumes "64 \<le> length encoded"
  shows "signed_by c key message encoded \<longleftrightarrow> message = take (length encoded - 64) encoded \<and>
    crypto_ed25519_verify c key message (drop (length encoded - 64) encoded) = Some True"
  using assms by (auto simp: signed_by_def intro!: exI [of _ "drop (length encoded - 64) encoded"])

lemma verify_directory_iff:
  "verify_directory c response key now = Inr catalog \<longleftrightarrow>
     85 \<le> length response \<and> length response \<le> 16384 \<and> cat_issued_ms catalog \<le> now \<and> now < cat_expires_ms catalog \<and>
     catalog_typed catalog \<and> (\<exists>message. directory_body catalog = Inr message \<and> signed_by c key message response)"
proof (cases "85 \<le> length response \<and> length response \<le> 16384")
  case True
  then have long: "64 \<le> length response" by simp
  show ?thesis
    using True unfolding verify_directory_def signed_split [OF long]
    by (auto simp: Let_def res_bind_Inr_iff verify_signature_def directory_codec.dec_iff not_less not_le)
qed (auto simp: verify_directory_def)

lemma verify_relay_health_iff:
  "verify_relay_health c encoded expected nonce now = Inr v \<longleftrightarrow>
     64 \<le> length encoded \<and> length encoded \<le> 512 \<and> \<not> is_zero (ep_health_key expected) \<and> \<not> is_zero nonce \<and>
     health_relay v = ep_id expected \<and> health_authority v = ep_authority expected \<and> health_capacity v = ep_capacity expected \<and>
     health_nonce v = nonce \<and> \<bar>uint (health_issued_ms v) - uint now\<bar> \<le> 30000 \<and>
     (\<exists>message. decode_health (ep_version expected) message = Inr v \<and> signed_by c (ep_health_key expected) message encoded)"
proof (cases "64 \<le> length encoded \<and> length encoded \<le> 512 \<and> \<not> is_zero (ep_health_key expected) \<and> \<not> is_zero nonce")
  case True
  then have long: "64 \<le> length encoded" by simp
  have age: "(if a > b then a - b else b - a) > 30000 \<longleftrightarrow> \<not> \<bar>uint a - uint b\<bar> \<le> 30000" for a b :: "64 word"
  proof (cases "a > b")
    case True
    then have "uint (a - b) = uint a - uint b" "uint b < uint a" using uint_minus_simple_alt [of b a] by (simp_all add: word_less_alt order.strict_implies_order)
    then show ?thesis using True by (simp add: word_less_alt not_le)
  next
    case False
    then have "uint (b - a) = uint b - uint a" "uint a \<le> uint b" using uint_minus_simple_alt [of a b] by (simp_all add: word_le_def not_less)
    then show ?thesis using False by (simp add: word_less_alt not_le)
  qed
  show ?thesis
    using True unfolding verify_relay_health_def signed_split [OF long] Let_def age
    by (auto simp: res_bind_Inr_iff verify_signature_def)
qed (auto simp: verify_relay_health_def)

end
