(* ===== verification/Relay_Pool.thy ===== *)
theory Relay_Pool
  imports Relay_Directory
begin

text \<open>
  \<open>transport/relay_pool.cpp\<close>: which of the relays of one authority a client uses. Instants are
  nanoseconds of the steady clock and start at 0; a round-trip time is in microseconds.
\<close>

record RelayProbe =
  probe_health :: RelayHealth
  probe_rtt :: int

record Node =
  node_endpoint :: RelayEndpoint
  node_sample :: "RelayProbe option"
  node_observed :: int
  node_retry :: int
  node_failures :: nat

record RelayPool =
  pool_nodes :: "Node list"
  pool_authority :: bytes
  pool_active :: bytes
  pool_activated :: int

definition seconds :: "int \<Rightarrow> int" where "seconds n = n * 1000000000"

definition new_node :: "RelayEndpoint \<Rightarrow> Node" where
  "new_node e = \<lparr>node_endpoint = e, node_sample = None, node_observed = 0, node_retry = 0, node_failures = 0\<rparr>"

definition pool_trusts :: "bytes \<Rightarrow> RelayEndpoint \<Rightarrow> bool" where
  "pool_trusts authority e \<longleftrightarrow> authority \<noteq> [] \<and> ep_authority e = authority \<and> \<not> is_zero (ep_health_key e) \<and>
     ep_version e = protocol_version \<and> ep_capacity e \<noteq> 0 \<and> ep_port e \<noteq> 0"

text \<open>The loop over the endpoints, with the identifiers seen and the nodes of the old pool.\<close>

fun collect_nodes :: "Node list \<Rightarrow> bytes \<Rightarrow> bytes list \<Rightarrow> RelayEndpoint list \<Rightarrow> Node list res" where
  "collect_nodes old authority ids [] = Inr []"
| "collect_nodes old authority ids (e # rest) =
     (if \<not> pool_trusts authority e \<or> ep_id e \<in> set ids then Inl (Invalid_argument ''untrusted or incompatible relay pool'')
      else res_bind (collect_nodes old authority (ep_id e # ids) rest) (\<lambda>nodes.
        Inr ((case find (\<lambda>n. node_endpoint n = e) old of Some n \<Rightarrow> n | None \<Rightarrow> new_node e) # nodes)))"

definition update_pool :: "RelayEndpoint list \<Rightarrow> RelayPool \<Rightarrow> RelayPool res" where
  "update_pool endpoints p =
     (if endpoints = [] \<or> length endpoints > 32 then Inl (Invalid_argument ''invalid relay pool size'')
      else let authority = (if pool_authority p = [] then ep_authority (hd endpoints) else pool_authority p) in
      res_bind (collect_nodes (pool_nodes p) authority [] endpoints) (\<lambda>nodes.
      Inr (p\<lparr>pool_nodes := nodes, pool_authority := authority\<rparr>)))"

definition new_pool :: "RelayEndpoint list \<Rightarrow> RelayPool res" where
  "new_pool endpoints = update_pool endpoints \<lparr>pool_nodes = [], pool_authority = [], pool_active = [], pool_activated = 0\<rparr>"

definition due :: "int \<Rightarrow> RelayPool \<Rightarrow> RelayEndpoint list" where
  "due now p = map node_endpoint (filter (\<lambda>n. now \<ge> node_retry n \<and> (node_sample n = None \<or> now - node_observed n \<ge> seconds 2)) (pool_nodes p))"

text \<open>The first node with a property is changed.\<close>

fun update_first :: "('a \<Rightarrow> bool) \<Rightarrow> ('a \<Rightarrow> 'a) \<Rightarrow> 'a list \<Rightarrow> 'a list" where
  "update_first P f [] = []"
| "update_first P f (x # xs) = (if P x then f x # xs else x # update_first P f xs)"

definition sample_matches :: "bytes \<Rightarrow> RelayEndpoint \<Rightarrow> RelayProbe \<Rightarrow> bool" where
  "sample_matches authority e s \<longleftrightarrow> health_relay (probe_health s) = ep_id e \<and> health_authority (probe_health s) = authority \<and>
     health_capacity (probe_health s) = ep_capacity e \<and> health_active (probe_health s) \<le> ep_capacity e \<and>
     0 \<le> probe_rtt s \<and> probe_rtt s \<le> 10 * 1000000"

definition observe_relay :: "RelayEndpoint \<Rightarrow> RelayProbe \<Rightarrow> int \<Rightarrow> RelayPool \<Rightarrow> RelayPool res" where
  "observe_relay e s now p =
     (if find (\<lambda>n. node_endpoint n = e) (pool_nodes p) = None then Inr p
      else if \<not> sample_matches (pool_authority p) e s then Inl (Invalid_argument ''relay sample identity or bounds mismatch'')
      else Inr (p\<lparr>pool_nodes := update_first (\<lambda>n. node_endpoint n = e)
        (\<lambda>n. n\<lparr>node_sample := Some s, node_observed := now, node_failures := 0, node_retry := 0\<rparr>) (pool_nodes p)\<rparr>))"

definition fail_node :: "int \<Rightarrow> Node \<Rightarrow> Node" where
  "fail_node now n = (let failures = min (node_failures n + 1) 6 in
     n\<lparr>node_sample := None, node_failures := failures, node_retry := now + seconds (int (min (2 ^ (failures - 1)) 30))\<rparr>)"

definition failed_relay :: "bytes \<Rightarrow> int \<Rightarrow> RelayPool \<Rightarrow> RelayPool" where
  "failed_relay i now p = p\<lparr>pool_nodes := map (\<lambda>n. if ep_id (node_endpoint n) = i then fail_node now n else n) (pool_nodes p)\<rparr>"

definition activate :: "bytes \<Rightarrow> int \<Rightarrow> RelayPool \<Rightarrow> RelayPool" where
  "activate i now p = (if pool_active p \<noteq> i then p\<lparr>pool_active := i, pool_activated := now\<rparr> else p)"

text \<open>
  The score of a node that has a sample: its round-trip times and its load. The sum is at most
  10,000,000 + 2^32 + 15,000, so the 64-bit arithmetic of the code does not wrap.
\<close>

definition sample_score :: "Node \<Rightarrow> RelayProbe \<Rightarrow> nat" where
  "sample_score n s = nat (probe_rtt s) + unat (health_upstream_rtt_us (probe_health s)) +
     15000 * unat (health_active (probe_health s)) div unat (ep_capacity (node_endpoint n))"

definition score :: "Node \<Rightarrow> nat" where
  "score n = (case node_sample n of None \<Rightarrow> 0 | Some s \<Rightarrow> sample_score n s)"

definition eligible :: "int \<Rightarrow> Node \<Rightarrow> bool" where
  "eligible now n \<longleftrightarrow> (case node_sample n of
     None \<Rightarrow> False
   | Some s \<Rightarrow> health_ready (probe_health s) \<and> health_active (probe_health s) < ep_capacity (node_endpoint n) \<and>
       node_retry n \<le> now \<and> now - node_observed n < seconds 5)"

definition better :: "Node \<Rightarrow> Node \<Rightarrow> bool" where
  "better n best \<longleftrightarrow> score n < score best \<or> (score n = score best \<and> ep_id (node_endpoint n) < ep_id (node_endpoint best))"

text \<open>The loop over the nodes: the best so far, and the active one.\<close>

fun scan_nodes :: "int \<Rightarrow> bytes \<Rightarrow> Node list \<Rightarrow> Node option \<times> Node option \<Rightarrow> Node option \<times> Node option" where
  "scan_nodes now act [] found = found"
| "scan_nodes now act (n # rest) (best, active) =
     (if \<not> eligible now n then scan_nodes now act rest (best, active)
      else scan_nodes now act rest
        (case best of None \<Rightarrow> Some n | Some b \<Rightarrow> if better n b then Some n else Some b,
         if ep_id (node_endpoint n) = act then Some n else active))"

definition choose_relay :: "int \<Rightarrow> RelayPool \<Rightarrow> RelayEndpoint option" where
  "choose_relay now p = (case scan_nodes now (pool_active p) (pool_nodes p) (None, None) of
     (Some best, Some active) \<Rightarrow>
       if now - pool_activated p < seconds 30 \<or> score best * 4 \<ge> score active * 3 then Some (node_endpoint active)
       else Some (node_endpoint best)
   | (Some best, None) \<Rightarrow> Some (node_endpoint best)
   | (None, _) \<Rightarrow> None)"

section \<open>Runs of a pool\<close>

text \<open>A pool and the observations it was given, in the order of the calls.\<close>

inductive pool_run :: "(RelayEndpoint \<times> RelayProbe \<times> int) list \<Rightarrow> RelayPool \<Rightarrow> bool" where
  pool_new: "new_pool endpoints = Inr p \<Longrightarrow> pool_run [] p"
| pool_updated: "pool_run h p \<Longrightarrow> update_pool endpoints p = Inr p' \<Longrightarrow> pool_run h p'"
| pool_observed: "pool_run h p \<Longrightarrow> observe_relay e s now p = Inr p' \<Longrightarrow> pool_run ((e, s, now) # h) p'"
| pool_failed: "pool_run h p \<Longrightarrow> pool_run h (failed_relay i now p)"
| pool_activates: "pool_run h p \<Longrightarrow> pool_run h (activate i now p)"

definition node_ok :: "(RelayEndpoint \<times> RelayProbe \<times> int) list \<Rightarrow> bytes \<Rightarrow> Node \<Rightarrow> bool" where
  "node_ok h authority n \<longleftrightarrow> pool_trusts authority (node_endpoint n) \<and>
     (case node_sample n of None \<Rightarrow> True
      | Some s \<Rightarrow> (node_endpoint n, s, node_observed n) \<in> set h \<and> sample_matches authority (node_endpoint n) s)"

definition pool_ok :: "(RelayEndpoint \<times> RelayProbe \<times> int) list \<Rightarrow> RelayPool \<Rightarrow> bool" where
  "pool_ok h p \<longleftrightarrow> pool_nodes p \<noteq> [] \<and> length (pool_nodes p) \<le> 32 \<and> distinct (map (ep_id \<circ> node_endpoint) (pool_nodes p)) \<and>
     (\<forall>n\<in>set (pool_nodes p). node_ok h (pool_authority p) n)"

lemma collect_nodes_ok:
  assumes "collect_nodes old authority ids es = Inr nodes" and "\<And>n. n \<in> set old \<Longrightarrow> node_ok h authority n"
  shows "map node_endpoint nodes = es \<and> distinct (map ep_id es) \<and> set (map ep_id es) \<inter> set ids = {} \<and> (\<forall>n\<in>set nodes. node_ok h authority n)"
  using assms(1)
proof (induction es arbitrary: ids nodes)
  case (Cons e es)
  let ?n = "case find (\<lambda>n. node_endpoint n = e) old of Some n \<Rightarrow> n | None \<Rightarrow> new_node e"
  from Cons.prems obtain rest where trusted: "pool_trusts authority e" "ep_id e \<notin> set ids" and nodes: "nodes = ?n # rest"
    and rest: "collect_nodes old authority (ep_id e # ids) es = Inr rest"
    by (auto simp: res_bind_Inr_iff split: if_splits)
  have "node_endpoint ?n = e \<and> node_ok h authority ?n"
  proof (cases "find (\<lambda>n. node_endpoint n = e) old")
    case None
    then show ?thesis using trusted by (simp add: new_node_def node_ok_def)
  next
    case (Some n)
    then have "node_endpoint n = e" "n \<in> set old" by (auto simp: find_Some_iff)
    then show ?thesis using Some assms(2) by simp
  qed
  with Cons.IH [OF rest] trusted nodes show ?case by auto
qed simp

lemma update_first_cases:
  assumes "n \<in> set (update_first P f xs)"
  shows "n \<in> set xs \<or> (\<exists>x\<in>set xs. P x \<and> n = f x)"
  using assms by (induction xs) (auto split: if_splits)

lemma map_update_first: "(\<And>x. g (f x) = g x) \<Longrightarrow> map g (update_first P f xs) = map g xs"
  by (induction xs) auto

lemma length_update_first [simp]: "length (update_first P f xs) = length xs"
  by (induction xs) auto

lemma update_first_Nil [simp]: "update_first P f xs = [] \<longleftrightarrow> xs = []"
  by (cases xs) auto

lemma node_ok_more: "node_ok h authority n \<Longrightarrow> node_ok (x # h) authority n"
  by (auto simp: node_ok_def split: option.splits)

lemma update_pool_ok:
  assumes "update_pool endpoints p = Inr p'" and "pool_authority p = [] \<and> pool_nodes p = [] \<or> pool_authority p \<noteq> [] \<and> pool_ok h p"
  shows "pool_ok h p' \<and> pool_authority p' \<noteq> []"
proof -
  define authority where "authority = (if pool_authority p = [] then ep_authority (hd endpoints) else pool_authority p)"
  from assms(1) obtain nodes where n: "endpoints \<noteq> []" "length endpoints \<le> 32" "collect_nodes (pool_nodes p) authority [] endpoints = Inr nodes"
    and p': "p' = p\<lparr>pool_nodes := nodes, pool_authority := authority\<rparr>"
    by (auto simp: update_pool_def Let_def res_bind_Inr_iff authority_def split: if_splits)
  have old: "node_ok h authority x" if "x \<in> set (pool_nodes p)" for x
    using assms(2) that by (auto simp: pool_ok_def authority_def)
  from collect_nodes_ok [OF n(3) old] have nodes: "map node_endpoint nodes = endpoints" "distinct (map ep_id endpoints)"
      "\<forall>n\<in>set nodes. node_ok h authority n" by auto
  then have "authority \<noteq> []" using n(1) by (cases nodes) (auto simp: node_ok_def pool_trusts_def)
  moreover have "distinct (map (ep_id \<circ> node_endpoint) nodes)" using nodes by (metis map_map)
  moreover have "length nodes = length endpoints" "nodes \<noteq> []" using nodes n(1) by auto
  ultimately show ?thesis using nodes n(2) by (simp add: p' pool_ok_def)
qed

lemma pool_run_ok: "pool_run h p \<Longrightarrow> pool_ok h p \<and> pool_authority p \<noteq> []"
proof (induction rule: pool_run.induct)
  case (pool_new endpoints p)
  then show ?case unfolding new_pool_def by (rule update_pool_ok) simp
next
  case (pool_updated h p endpoints p')
  show ?case by (rule update_pool_ok [OF pool_updated.hyps(2)]) (use pool_updated.IH in simp)
next
  case (pool_observed h p e s now p')
  let ?f = "\<lambda>n :: Node. n\<lparr>node_sample := Some s, node_observed := now, node_failures := 0, node_retry := 0\<rparr>"
  let ?nodes = "update_first (\<lambda>n. node_endpoint n = e) ?f (pool_nodes p)"
  consider "p' = p" | "p' = p\<lparr>pool_nodes := ?nodes\<rparr>" "sample_matches (pool_authority p) e s"
    using pool_observed.hyps(2) by (auto simp: observe_relay_def split: if_splits)
  then show ?case
  proof cases
    case 1
    then show ?thesis using pool_observed.IH by (auto simp: pool_ok_def intro: node_ok_more)
  next
    case 2
    have "node_ok ((e, s, now) # h) (pool_authority p) n" if "n \<in> set ?nodes" for n
      using update_first_cases [OF that] pool_observed.IH 2(2) by (auto simp: pool_ok_def node_ok_def split: option.splits)
    moreover have "map (ep_id \<circ> node_endpoint) ?nodes = map (ep_id \<circ> node_endpoint) (pool_nodes p)"
      by (rule map_update_first) simp
    ultimately show ?thesis using pool_observed.IH 2(1) by (simp add: pool_ok_def del: map_map)
  qed
next
  case (pool_failed h p i now)
  let ?g = "\<lambda>n. if ep_id (node_endpoint n) = i then fail_node now n else n"
  have "map (ep_id \<circ> node_endpoint) (map ?g (pool_nodes p)) = map (ep_id \<circ> node_endpoint) (pool_nodes p)"
    by (simp add: fail_node_def Let_def)
  moreover have "node_ok h (pool_authority p) (fail_node now n)" if "node_ok h (pool_authority p) n" for n
    using that by (simp add: node_ok_def fail_node_def Let_def)
  ultimately show ?case using pool_failed.IH by (auto simp: pool_ok_def failed_relay_def simp del: map_map)
next
  case (pool_activates h p i now)
  then show ?case by (simp add: pool_ok_def activate_def)
qed

section \<open>The choice\<close>

lemma scan_nodes_best:
  assumes "scan_nodes now act ns (best, active) = (best', active')"
  shows "(best' = None \<longleftrightarrow> best = None \<and> (\<forall>n\<in>set ns. \<not> eligible now n)) \<and>
    (\<forall>b. best' = Some b \<longrightarrow> (best = Some b \<or> b \<in> set ns \<and> eligible now b) \<and>
      (\<forall>n\<in>set ns. eligible now n \<longrightarrow> score b \<le> score n) \<and> (\<forall>b0. best = Some b0 \<longrightarrow> score b \<le> score b0))"
  using assms
proof (induction ns arbitrary: best active)
  case (Cons n ns)
  show ?case
  proof (cases "eligible now n")
    case False
    with Cons.prems Cons.IH [of best active] show ?thesis by auto
  next
    case True
    define b1 where "b1 = (case best of None \<Rightarrow> n | Some b \<Rightarrow> if better n b then n else b)"
    have b1: "(case best of None \<Rightarrow> Some n | Some b \<Rightarrow> if better n b then Some n else Some b) = Some b1"
      "score b1 \<le> score n" "\<And>b. best = Some b \<Longrightarrow> score b1 \<le> score b" "b1 = n \<or> best = Some b1"
      by (auto simp: b1_def better_def split: option.splits)
    from Cons.prems True b1(1) obtain act1 where scan: "scan_nodes now act ns (Some b1, act1) = (best', active')" by auto
    from Cons.IH [OF scan] b1 True show ?thesis by (cases best') (auto dest: order_trans)
  qed
qed auto

lemma scan_nodes_active:
  "snd (scan_nodes now act ns found) = Some a \<Longrightarrow> snd found = Some a \<or> (a \<in> set ns \<and> eligible now a \<and> ep_id (node_endpoint a) = act)"
  by (induction now act ns found rule: scan_nodes.induct) (auto split: if_splits)

text \<open>What the choice is worth: the best eligible relay, or the active one while it is hardly worse or was taken recently.\<close>

definition well_chosen :: "int \<Rightarrow> RelayPool \<Rightarrow> Node \<Rightarrow> bool" where
  "well_chosen now p n \<longleftrightarrow> n \<in> set (pool_nodes p) \<and> eligible now n \<and>
     (list_all (\<lambda>m. eligible now m \<longrightarrow> score n \<le> score m) (pool_nodes p) \<or>
      ep_id (node_endpoint n) = pool_active p \<and>
      (now - pool_activated p < seconds 30 \<or> list_all (\<lambda>m. eligible now m \<longrightarrow> score n * 3 \<le> score m * 4) (pool_nodes p)))"

lemma choose_relay_best: "choose_relay now p = Some e \<Longrightarrow> \<exists>n. node_endpoint n = e \<and> well_chosen now p n"
proof -
  assume chosen: "choose_relay now p = Some e"
  obtain best active where scan: "scan_nodes now (pool_active p) (pool_nodes p) (None, None) = (best, active)" by force
  from chosen scan obtain b where b: "best = Some b" by (auto simp: choose_relay_def split: option.splits)
  have best: "b \<in> set (pool_nodes p)" "eligible now b" "list_all (\<lambda>m. eligible now m \<longrightarrow> score b \<le> score m) (pool_nodes p)"
    using scan_nodes_best [OF scan] b by (auto simp: list_all_iff)
  show ?thesis
  proof (cases "e = node_endpoint b")
    case True
    then show ?thesis using best by (auto simp: well_chosen_def)
  next
    case False
    with chosen scan b obtain a where a: "active = Some a" "e = node_endpoint a"
      and close: "now - pool_activated p < seconds 30 \<or> score b * 4 \<ge> score a * 3"
      by (auto simp: choose_relay_def split: option.splits if_splits)
    have "a \<in> set (pool_nodes p) \<and> eligible now a \<and> ep_id (node_endpoint a) = pool_active p"
      using scan_nodes_active [of now "pool_active p" "pool_nodes p" "(None, None)" a] scan a(1) by simp
    then show ?thesis using a(2) close best(3) by (fastforce simp: well_chosen_def list_all_iff)
  qed
qed

lemma choose_relay_none: "choose_relay now p = None \<longleftrightarrow> list_all (\<lambda>n. \<not> eligible now n) (pool_nodes p)"
proof -
  obtain best active where scan: "scan_nodes now (pool_active p) (pool_nodes p) (None, None) = (best, active)" by force
  then have "choose_relay now p = None \<longleftrightarrow> best = None" by (auto simp: choose_relay_def split: option.splits)
  also have "\<dots> \<longleftrightarrow> list_all (\<lambda>n. \<not> eligible now n) (pool_nodes p)" using scan_nodes_best [OF scan] by (simp add: list_all_iff)
  finally show ?thesis .
qed

text \<open>
  C35.
  A relay that the pool chooses is one of the relays the pool was given under its authority, with a key
  for its health reports and the protocol version of the client. It was observed less than five
  seconds ago, in a sample with its own identity and capacity, ready and with a free place. It is a
  relay with the lowest score among those that qualify, or the active relay when that was activated
  less than thirty seconds ago or no other qualifying relay is better by more than a quarter. Nothing is
  chosen only when no relay qualifies.
\<close>

theorem relay_choice:
  assumes "pool_run h p"
  shows "(case choose_relay now p of
      None \<Rightarrow> list_all (\<lambda>n. \<not> eligible now n) (pool_nodes p)
    | Some e \<Rightarrow> pool_trusts (pool_authority p) e \<and>
        (\<exists>s t. (e, s, t) \<in> set h \<and> now - t < seconds 5 \<and> sample_matches (pool_authority p) e s \<and>
          health_ready (probe_health s) \<and> health_active (probe_health s) < ep_capacity e) \<and>
        (\<exists>n. node_endpoint n = e \<and> well_chosen now p n))"
proof (cases "choose_relay now p")
  case None
  then show ?thesis using choose_relay_none [of now p] by simp
next
  case (Some e)
  then obtain n where n: "node_endpoint n = e" "well_chosen now p n" using choose_relay_best by blast
  then have "n \<in> set (pool_nodes p)" "eligible now n" by (auto simp: well_chosen_def)
  moreover from this have "node_ok h (pool_authority p) n" using pool_run_ok [OF assms] by (simp add: pool_ok_def)
  ultimately obtain s where "(e, s, node_observed n) \<in> set h" "now - node_observed n < seconds 5" "pool_trusts (pool_authority p) e"
      "sample_matches (pool_authority p) e s" "health_ready (probe_health s)" "health_active (probe_health s) < ep_capacity e"
    using n(1) by (auto simp: eligible_def node_ok_def split: option.splits)
  then show ?thesis using Some n by auto
qed

definition demo_relay :: RelayEndpoint where
  "demo_relay = \<lparr>ep_id = [0x61], ep_host = [0x62], ep_port = 4433, ep_region = [0x63], ep_capacity = 8, ep_version = protocol_version,
     ep_authority = [0x64], ep_health_key = replicate 32 1\<rparr>"

definition demo_probe :: RelayProbe where
  "demo_probe = \<lparr>probe_health = \<lparr>health_nonce = replicate 32 1, health_relay = [0x61], health_authority = [0x64], health_issued_ms = 1,
     health_uptime_ms = 1, health_capacity = 8, health_active = 3, health_upstream_rtt_us = 0, health_forwarded_packets = 0,
     health_forwarded_bytes = 0, health_dropped_packets = 0, health_admitted_deliveries = 0, health_admitted_bytes = 0,
     health_quota_rejections = 0, health_control_rejections = 0, health_accounting = False, health_ready = True\<rparr>, probe_rtt = 1000\<rparr>"

theorem relay_choice_witness:
  "\<exists>p. pool_run [(demo_relay, demo_probe, 7)] p \<and> choose_relay 8 p = Some demo_relay \<and> pool_trusts (pool_authority p) demo_relay"
proof -
  have trusts: "pool_trusts [0x64] demo_relay" by (simp add: pool_trusts_def demo_relay_def is_zero_def list_all_iff)
  let ?start = "\<lparr>pool_nodes = [new_node demo_relay], pool_authority = [0x64], pool_active = [], pool_activated = 0\<rparr>"
  have new: "new_pool [demo_relay] = Inr ?start"
    using trusts by (simp add: new_pool_def update_pool_def demo_relay_def Let_def)
  have matches: "sample_matches [0x64] demo_relay demo_probe" by (simp add: sample_matches_def demo_relay_def demo_probe_def)
  let ?n = "(new_node demo_relay)\<lparr>node_sample := Some demo_probe, node_observed := 7, node_failures := 0, node_retry := 0\<rparr>"
  let ?p = "?start\<lparr>pool_nodes := [?n]\<rparr>"
  have "observe_relay demo_relay demo_probe 7 ?start = Inr ?p"
    using matches by (simp add: observe_relay_def new_node_def)
  then have run: "pool_run [(demo_relay, demo_probe, 7)] ?p" using pool_observed [OF pool_new [OF new]] by blast
  have "eligible 8 ?n" by (simp add: eligible_def demo_probe_def demo_relay_def new_node_def seconds_def)
  then have "choose_relay 8 ?p = Some demo_relay" by (simp add: choose_relay_def new_node_def demo_relay_def)
  then show ?thesis using run relay_choice [OF run, of 8] by auto
qed

section \<open>Bootstrap\<close>

definition expected_scope :: "RuntimeConfig \<Rightarrow> DirectoryScope" where
  "expected_scope cfg = (if cfg_bootstrap_mode cfg = ''official'' then scope_official else scope_self_hosted)"

text \<open>A directory that the configured key vouches for at the given time.\<close>

definition vouched_directory :: "Crypto \<Rightarrow> RuntimeConfig \<Rightarrow> bytes \<Rightarrow> 64 word \<Rightarrow> DirectoryCatalog \<Rightarrow> bool" where
  "vouched_directory c cfg response now catalog \<longleftrightarrow>
     (\<exists>key message. parse_directory_key (cfg_directory_public_key cfg) = Inr key \<and> directory_body catalog = Inr message \<and>
       signed_by c key message response) \<and>
     cat_issued_ms catalog \<le> now \<and> now < cat_expires_ms catalog \<and> cat_expires_ms catalog - cat_issued_ms catalog \<le> 86400000 \<and>
     (cat_scope catalog = scope_legacy \<or> cat_scope catalog = expected_scope cfg)"

lemma collect_new_nodes:
  assumes "list_all (pool_trusts authority) es" and "distinct (map ep_id es)" and "set (map ep_id es) \<inter> set ids = {}"
  shows "collect_nodes [] authority ids es = Inr (map new_node es)"
  using assms by (induction es arbitrary: ids) auto

lemma new_pool_accepts:
  assumes "es \<noteq> []" and "length es \<le> 32" and "list_all (pool_trusts (ep_authority (hd es))) es" and "distinct (map ep_id es)"
  shows "\<exists>p. new_pool es = Inr p"
  using assms by (simp add: new_pool_def update_pool_def collect_new_nodes)

lemma directory_bootstrap_dest:
  assumes "directory_bootstrap c fetch cfg now = Inr b"
  shows "\<exists>response key catalog e. fetch (cfg_directory_url cfg) = Inr response \<and> parse_directory_key (cfg_directory_public_key cfg) = Inr key \<and>
    verify_directory c response key now = Inr catalog \<and> (cat_scope catalog = scope_legacy \<or> cat_scope catalog = expected_scope cfg) \<and>
    find (configured_relay cfg) (cat_relays catalog) = Some e \<and> b = bootstrap_from cfg catalog e"
proof -
  from assms obtain response key catalog where r: "fetch (cfg_directory_url cfg) = Inr response"
      "parse_directory_key (cfg_directory_public_key cfg) = Inr key" "verify_directory c response key now = Inr catalog"
    by (auto simp: directory_bootstrap_def res_bind_Inr_iff)
  with assms show ?thesis
    by (cases "find (configured_relay cfg) (cat_relays catalog)")
      (auto simp: directory_bootstrap_def Let_def expected_scope_def [symmetric] split: if_splits)
qed

lemma boot_pool_props:
  assumes "e \<in> set (cat_relays catalog)" and "ep_version e = protocol_version"
  shows "e \<in> set (boot_pool (bootstrap_from cfg catalog e))" and "set (boot_pool (bootstrap_from cfg catalog e)) \<subseteq> set (cat_relays catalog)"
    and "list_all (\<lambda>peer. ep_authority peer = ep_authority e \<and> ep_version peer = protocol_version) (boot_pool (bootstrap_from cfg catalog e))"
    and "length (boot_pool (bootstrap_from cfg catalog e)) \<le> max 1 (length (cat_relays catalog))"
    and "distinct (map ep_id (cat_relays catalog)) \<Longrightarrow> distinct (map ep_id (boot_pool (bootstrap_from cfg catalog e)))"
  using assms by (auto simp: bootstrap_from_def list_all_iff distinct_map_filter intro: le_max_iff_disj [THEN iffD2])

lemma regional_pool_accepted:
  assumes "catalog_valid catalog" and "is_regional catalog" and "e \<in> set (cat_relays catalog)" and "ep_version e = protocol_version"
  shows "\<exists>p. new_pool (boot_pool (bootstrap_from cfg catalog e)) = Inr p"
proof (rule new_pool_accepts)
  let ?pool = "boot_pool (bootstrap_from cfg catalog e)"
  note pool = boot_pool_props [OF assms(3,4), of cfg]
  have valid: "\<And>x. x \<in> set ?pool \<Longrightarrow> endpoint_valid True x" using assms pool(2) by (auto simp: catalog_valid_def list_all_iff)
  show nonempty: "?pool \<noteq> []" using pool(1) by auto
  show "length ?pool \<le> 32" using pool(4) assms(1) by (auto simp: catalog_valid_def)
  show "distinct (map ep_id ?pool)" using pool(5) assms(1) by (simp add: catalog_valid_def relays_apart_def)
  have "ep_authority (hd ?pool) = ep_authority e" using pool(3) nonempty by (simp add: list_all_iff)
  then show "list_all (pool_trusts (ep_authority (hd ?pool))) ?pool"
    using pool(3) valid by (auto simp: list_all_iff pool_trusts_def endpoint_valid_def valid_relay_text_def)
qed


end
