(* ===== verification/Path_Checks.thy ===== *)
theory Path_Checks
  imports Candidates Tunnels Handshake Relay_Pool Path_Diagnostics
begin

text \<open>
  How two peers find and keep a direct path: the connectivity checks on pairs of candidates
  (\<open>p2p/connectivity.cpp\<close>), the choice between direct and relayed path (\<open>p2p/path_quality.cpp\<close>), STUN
  messages (\<open>p2p/stun.cpp\<close>), hole punching (\<open>p2p/punch.cpp\<close>) and the authorization of a binding
  (\<open>p2p/peer_authorization.cpp\<close>). Sockets are left out; instants are nanoseconds.
\<close>

definition milliseconds :: "int \<Rightarrow> int" where "milliseconds n = n * 1000000"

section \<open>Connectivity checks\<close>

datatype IceRole = Controlling | Controlled
datatype CheckState = Check_waiting | Check_in_progress | Check_succeeded | Check_failed
datatype ConnectivityState = Conn_checking | Conn_connected | Conn_failed

record CandidatePair =
  pair_local :: Candidate
  pair_remote :: Candidate
  pair_priority :: "64 word"
  pair_state :: CheckState
  pair_attempts :: nat
  pair_rtt_us :: "32 word option"

record ConnectivityChecks =
  checks_local :: DeviceId
  checks_peer :: DeviceId
  checks_role :: IceRole
  checks_pairs :: "CandidatePair list"
  checks_deadline :: int
  checks_next :: int
  checks_state :: ConnectivityState

definition role_of :: "DeviceId \<Rightarrow> DeviceId \<Rightarrow> IceRole" where
  "role_of own peer = (if own < peer then Controlling else Controlled)"

definition priority_of :: "IceRole \<Rightarrow> Candidate \<Rightarrow> Candidate \<Rightarrow> 64 word" where
  "priority_of role a b =
     (let g = (if role = Controlling then candidate_priority a else candidate_priority b);
          d = (if role = Controlling then candidate_priority b else candidate_priority a) in
      push_bit 32 (ucast (min g d)) + 2 * ucast (max g d) + (if g > d then 1 else 0))"

definition make_pair :: "IceRole \<Rightarrow> Candidate \<Rightarrow> Candidate \<Rightarrow> CandidatePair" where
  "make_pair role a b = \<lparr>pair_local = a, pair_remote = b, pair_priority = priority_of role a b, pair_state = Check_waiting,
     pair_attempts = 0, pair_rtt_us = None\<rparr>"

definition pair_ok :: "Candidate \<Rightarrow> Candidate \<Rightarrow> bool" where
  "pair_ok a b \<longleftrightarrow> usable_endpoint (candidate_endpoint a) True \<and> usable_endpoint (candidate_endpoint b) True \<and>
     candidate_priority a \<noteq> 0 \<and> candidate_priority b \<noteq> 0"

definition new_checks :: "DeviceId \<Rightarrow> DeviceId \<Rightarrow> Candidate list \<Rightarrow> Candidate list \<Rightarrow> int \<Rightarrow> ConnectivityChecks res" where
  "new_checks own peer locals remotes now =
     (if own = peer \<or> locals = [] \<or> remotes = [] \<or> length locals > max_candidates \<or> length remotes > max_candidates
      then Inl (Invalid_argument ''invalid connectivity checklist'')
      else if \<not> list_all (\<lambda>a. list_all (pair_ok a) remotes) locals then Inl (Invalid_argument ''invalid candidate pair'')
      else let role = role_of own peer; pairs = concat (map (\<lambda>a. map (make_pair role a) remotes) locals) in
      Inr \<lparr>checks_local = own, checks_peer = peer, checks_role = role,
        checks_pairs = sort_key (\<lambda>p. - uint (pair_priority p)) pairs,
        checks_deadline = now + seconds 5, checks_next = now, checks_state = Conn_checking\<rparr>)"

definition resolve_role_conflict :: "IceRole \<Rightarrow> ConnectivityChecks \<Rightarrow> ConnectivityChecks" where
  "resolve_role_conflict peer_role c =
     (if checks_role c = peer_role then c\<lparr>checks_role := role_of (checks_local c) (checks_peer c)\<rparr> else c)"

text \<open>The loop of \<open>nominate\<close>: the pair nominated and the state.\<close>

fun nominate_scan :: "bool \<Rightarrow> ConnectivityState \<Rightarrow> CandidatePair list \<Rightarrow> CandidatePair option \<times> ConnectivityState" where
  "nominate_scan early st [] = (None, Conn_failed)"
| "nominate_scan early st (p # rest) =
     (if pair_state p = Check_succeeded then (Some p, Conn_connected)
      else if early \<and> pair_state p \<noteq> Check_failed then (None, st)
      else nominate_scan early st rest)"

definition nominate :: "int \<Rightarrow> ConnectivityChecks \<Rightarrow> CandidatePair option \<times> ConnectivityChecks" where
  "nominate now c =
     (if checks_state c = Conn_failed then (None, c)
      else let (found, st) = nominate_scan (now < checks_deadline c) (checks_state c) (checks_pairs c) in
        (found, c\<lparr>checks_state := st\<rparr>))"

definition wants_check :: "CandidatePair \<Rightarrow> bool" where
  "wants_check p \<longleftrightarrow> pair_state p = Check_waiting \<or> (pair_state p = Check_in_progress \<and> pair_attempts p < 3)"

definition start_check :: "CandidatePair \<Rightarrow> CandidatePair" where
  "start_check p = p\<lparr>pair_state := Check_in_progress, pair_attempts := pair_attempts p + 1\<rparr>"

definition next_check :: "int \<Rightarrow> ConnectivityChecks \<Rightarrow> CandidatePair option \<times> ConnectivityChecks" where
  "next_check now c =
     (if checks_state c \<noteq> Conn_checking \<or> now < checks_next c then (None, c)
      else if now \<ge> checks_deadline c
      then (None, snd (nominate now (c\<lparr>checks_pairs :=
        map (\<lambda>p. if pair_state p \<noteq> Check_succeeded then p\<lparr>pair_state := Check_failed\<rparr> else p) (checks_pairs c)\<rparr>)))
      else case find wants_check (checks_pairs c) of
        None \<Rightarrow> (None, snd (nominate now c))
      | Some p \<Rightarrow> (Some (start_check p),
          c\<lparr>checks_pairs := update_first wants_check start_check (checks_pairs c), checks_next := now + milliseconds 100\<rparr>))"

definition is_pair :: "Endpoint \<Rightarrow> Endpoint \<Rightarrow> CandidatePair \<Rightarrow> bool" where
  "is_pair own remote p \<longleftrightarrow> candidate_endpoint (pair_local p) = own \<and> candidate_endpoint (pair_remote p) = remote"

definition note_probe :: "Endpoint \<Rightarrow> Endpoint \<Rightarrow> ConnectivityChecks \<Rightarrow> ConnectivityChecks" where
  "note_probe own remote c =
     (if checks_state c \<noteq> Conn_checking then c
      else c\<lparr>checks_pairs := map (\<lambda>p. if is_pair own remote p \<and> pair_state p \<noteq> Check_succeeded \<and> pair_state p \<noteq> Check_failed
        then start_check p else p) (checks_pairs c)\<rparr>)"

definition settle_pair :: "bool \<Rightarrow> 32 word option \<Rightarrow> CandidatePair \<Rightarrow> CandidatePair" where
  "settle_pair success rtt p = p\<lparr>pair_state := (if success then Check_succeeded else if pair_attempts p \<ge> 3 then Check_failed else Check_waiting),
     pair_rtt_us := (if success then rtt else None)\<rparr>"

definition check_result :: "Endpoint \<Rightarrow> Endpoint \<Rightarrow> bool \<Rightarrow> 32 word option \<Rightarrow> ConnectivityChecks \<Rightarrow> ConnectivityChecks" where
  "check_result own remote success rtt c =
     (if checks_state c \<noteq> Conn_checking then c
      else c\<lparr>checks_pairs := map (\<lambda>p. if is_pair own remote p \<and> pair_state p = Check_in_progress then settle_pair success rtt p else p)
        (checks_pairs c)\<rparr>)"

section \<open>Path quality\<close>

record QualitySample =
  quality_authenticated :: bool
  quality_rtt_us :: "32 word option"
  quality_sent :: "64 word"
  quality_lost :: "64 word"

record PathDecision =
  decision_direct :: bool
  decision_reason :: PathReason

record PathSelector =
  sel_direct :: bool
  sel_seen :: bool
  sel_healthy :: nat
  sel_bad :: nat
  sel_sent :: "64 word"
  sel_lost :: "64 word"
  sel_rtt :: "32 word option"
  sel_loss :: "32 word option"
  sel_changed :: int

definition new_selector :: PathSelector where
  "new_selector = \<lparr>sel_direct = False, sel_seen = False, sel_healthy = 0, sel_bad = 0, sel_sent = 0, sel_lost = 0, sel_rtt = None,
     sel_loss = None, sel_changed = 0\<rparr>"

text \<open>The moving average of 32-bit values, computed with 64 bits.\<close>

definition smooth :: "32 word option \<Rightarrow> 32 word \<Rightarrow> 32 word option" where
  "smooth old v = Some (case old of None \<Rightarrow> v | Some o1 \<Rightarrow> ucast ((3 * ucast o1 + ucast v :: 64 word) div 4))"

definition measure_path :: "QualitySample \<Rightarrow> PathSelector \<Rightarrow> PathSelector" where
  "measure_path d s =
     (let rtt = (case quality_rtt_us d of None \<Rightarrow> sel_rtt s | Some v \<Rightarrow> smooth (sel_rtt s) v);
          loss = (if sel_seen s \<and> quality_sent d \<ge> sel_sent s \<and> quality_lost d \<ge> sel_lost s \<and> quality_sent d > sel_sent s
            then let count = quality_sent d - sel_sent s; lost = min (quality_lost d - sel_lost s) count in
              smooth (sel_loss s) (ucast (lost * 10000 div count))
            else sel_loss s) in
      s\<lparr>sel_rtt := rtt, sel_loss := loss, sel_sent := quality_sent d, sel_lost := quality_lost d, sel_seen := True\<rparr>)"

definition path_good :: "32 word option \<Rightarrow> PathSelector \<Rightarrow> bool" where
  "path_good relay s \<longleftrightarrow>
     (let ceiling = max 250000 (case relay of None \<Rightarrow> 250000 | Some r \<Rightarrow> 4 * ucast r) :: 64 word in
      (case sel_rtt s of None \<Rightarrow> False | Some rtt \<Rightarrow> ucast rtt \<le> ceiling) \<and> (case sel_loss s of None \<Rightarrow> True | Some loss \<Rightarrow> loss \<le> 1000))"

definition count_verdict :: "bool \<Rightarrow> PathSelector \<Rightarrow> PathSelector" where
  "count_verdict good s =
     (if good then s\<lparr>sel_healthy := min (sel_healthy s + 1) 3, sel_bad := 0\<rparr> else s\<lparr>sel_bad := min (sel_bad s + 1) 3, sel_healthy := 0\<rparr>)"

definition sample_path :: "QualitySample \<Rightarrow> 32 word option \<Rightarrow> int \<Rightarrow> PathSelector \<Rightarrow> PathDecision \<times> PathSelector" where
  "sample_path d relay now s =
     (if \<not> quality_authenticated d
      then (\<lparr>decision_direct = False, decision_reason = Reason_direct_unreachable\<rparr>,
        s\<lparr>sel_changed := (if sel_direct s then now else sel_changed s), sel_direct := False, sel_healthy := 0, sel_bad := 0,
          sel_rtt := None, sel_loss := None, sel_seen := False\<rparr>)
      else let s1 = measure_path d s; good = path_good relay s1; s2 = count_verdict good s1;
          hold = (sel_changed s2 \<noteq> 0 \<and> now - sel_changed s2 < seconds 2);
          s3 = (if \<not> hold \<and> ((sel_direct s2 \<and> sel_bad s2 \<ge> 3) \<or> (\<not> sel_direct s2 \<and> sel_healthy s2 \<ge> 3))
            then s2\<lparr>sel_direct := \<not> sel_direct s2, sel_changed := now\<rparr> else s2) in
        (\<lparr>decision_direct = sel_direct s3,
          decision_reason = (if sel_direct s3 then Reason_direct_ready else if good then Reason_revalidating else Reason_degraded)\<rparr>, s3))"

section \<open>STUN\<close>

definition stun_cookie :: "32 word" where "stun_cookie = 0x2112a442"

definition stun_binding_request :: "bytes \<Rightarrow> bytes" where
  "stun_binding_request t = put (0x0001 :: 16 word) @ put (0 :: 16 word) @ put stun_cookie @ t"

definition read_attribute :: "(16 word \<times> bytes) parser" where
  "read_attribute = pbind reader_get (\<lambda>kind. pbind reader_get (\<lambda>len :: 16 word. pbind (reader_bytes (unat len)) (\<lambda>v.
     pbind (reader_bytes ((4 - unat len mod 4) mod 4)) (\<lambda>_. preturn (kind, v)))))"

definition mapped_endpoint :: "bytes \<Rightarrow> Endpoint res" where
  "mapped_endpoint v = parse_all (pbind reader_get (\<lambda>zero :: byte.
     if zero \<noteq> 0 then plift (Inl (Invalid_argument ''unsupported STUN address family''))
     else pbind reader_get (\<lambda>family :: byte.
     pbind (prequire (Invalid_argument ''unsupported STUN address family'') (family = 1)) (\<lambda>_.
     pbind reader_get (\<lambda>port :: 16 word. pbind reader_get (\<lambda>address.
     let e = \<lparr>endpoint_ipv4 = address XOR stun_cookie, endpoint_port = port XOR ucast (drop_bit 16 stun_cookie)\<rparr> in
     pbind (prequire (Invalid_argument ''invalid STUN mapped endpoint'') (usable_endpoint e True)) (\<lambda>_. preturn e))))))) v"

lemma read_attribute_shorter: "read_attribute r = Inr (x, rest) \<Longrightarrow> length rest < length r"
  by (auto simp: read_attribute_def wire_reads)

function stun_attributes :: "bytes \<Rightarrow> Endpoint option \<Rightarrow> Endpoint option res" where
  "stun_attributes r mapped =
     (if r = [] then Inr mapped
      else case read_attribute r of
        Inl e \<Rightarrow> Inl e
      | Inr ((kind, v), rest) \<Rightarrow>
          if kind \<noteq> 0x0020 then stun_attributes rest mapped
          else if mapped \<noteq> None \<or> length v \<noteq> 8 then Inl (Invalid_argument ''invalid XOR-MAPPED-ADDRESS'')
          else (case mapped_endpoint v of Inl e \<Rightarrow> Inl e | Inr e \<Rightarrow> stun_attributes rest (Some e)))"
  by pat_completeness auto
termination by (relation "measure (\<lambda>(r, _). length r)") (auto dest: read_attribute_shorter)

declare stun_attributes.simps [simp del]

text \<open>The header of a response of the given size; what remains are the attributes.\<close>

definition stun_header :: "nat \<Rightarrow> bytes \<Rightarrow> unit parser" where
  "stun_header total_size t = pbind reader_get (\<lambda>kind :: 16 word.
     pbind (prequire (Invalid_argument ''not a STUN binding success'') (kind = 0x0101)) (\<lambda>_.
     pbind reader_get (\<lambda>sz :: 16 word.
     pbind (prequire (Invalid_argument ''invalid STUN transaction'') (unat sz mod 4 = 0 \<and> unat sz = total_size - 20)) (\<lambda>_.
     pbind reader_get (\<lambda>cookie.
     pbind (prequire (Invalid_argument ''invalid STUN transaction'') (cookie = stun_cookie)) (\<lambda>_.
     pbind (reader_array 12) (\<lambda>transaction.
     prequire (Invalid_argument ''invalid STUN transaction'') (transaction = t))))))))"

definition parse_stun_binding_response :: "bytes \<Rightarrow> bytes \<Rightarrow> Endpoint res" where
  "parse_stun_binding_response b t =
     (if length b < 20 \<or> length b > 1200 then Inl (Invalid_argument ''invalid STUN size'')
      else res_bind (stun_header (length b) t b) (\<lambda>(_, attributes).
        res_bind (stun_attributes attributes None) (\<lambda>mapped.
        case mapped of None \<Rightarrow> Inl (Invalid_argument ''missing XOR-MAPPED-ADDRESS'') | Some e \<Rightarrow> Inr e)))"

section \<open>Hole punching\<close>

record PeerBinding =
  bind_network :: NetworkId
  bind_epoch :: "64 word"
  bind_local_generation :: "64 word"
  bind_peer_generation :: "64 word"
  bind_local_device :: DeviceId
  bind_peer_device :: DeviceId
  bind_local_session :: bytes
  bind_peer_session :: bytes

definition reversed :: "PeerBinding \<Rightarrow> PeerBinding" where
  "reversed b = \<lparr>bind_network = bind_network b, bind_epoch = bind_epoch b, bind_local_generation = bind_peer_generation b,
     bind_peer_generation = bind_local_generation b, bind_local_device = bind_peer_device b, bind_peer_device = bind_local_device b,
     bind_local_session = bind_peer_session b, bind_peer_session = bind_local_session b\<rparr>"

definition encode_binding :: "PeerBinding \<Rightarrow> bytes" where
  "encode_binding b = bind_network b @ put (bind_epoch b) @ put (bind_local_generation b) @ put (bind_peer_generation b) @
     bind_local_device b @ bind_peer_device b @ bind_local_session b @ bind_peer_session b"

definition decode_binding :: "bytes \<Rightarrow> PeerBinding res" where
  "decode_binding = parse_all (pbind (reader_array 16) (\<lambda>network. pbind reader_get (\<lambda>epoch. pbind reader_get (\<lambda>lg. pbind reader_get (\<lambda>pg.
     pbind (reader_array 32) (\<lambda>ld. pbind (reader_array 32) (\<lambda>pd. pbind (reader_array 32) (\<lambda>ls. pbind (reader_array 32) (\<lambda>ps.
     pbind reader_finish (\<lambda>_. preturn \<lparr>bind_network = network, bind_epoch = epoch, bind_local_generation = lg, bind_peer_generation = pg,
       bind_local_device = ld, bind_peer_device = pd, bind_local_session = ls, bind_peer_session = ps\<rparr>))))))))))"

record ProbeDatagram =
  datagram_endpoint :: Endpoint
  datagram_bytes :: bytes

record PunchSession =
  punch_identity :: DeviceIdentity
  punch_peer_key :: SignedDeviceKey
  punch_binding :: PeerBinding
  punch_remote :: "Candidate list"
  punch_nonce :: bytes
  punch_deadline :: int
  punch_next :: int
  punch_round :: nat
  punch_sent :: nat
  punch_responses :: nat
  punch_selected :: "Endpoint option"
  punch_verified :: "Endpoint list"

definition punch_authorized :: "Crypto \<Rightarrow> DeviceIdentity \<Rightarrow> SignedDeviceKey \<Rightarrow> PeerBinding \<Rightarrow> Candidate list \<Rightarrow> bool res" where
  "punch_authorized c identity peer b remote = res_bind (identity_device_id c identity) (\<lambda>device.
     if device \<noteq> bind_local_device b then Inr False
     else res_bind (verify_signed_device_key c peer (bind_peer_device b)) (\<lambda>valid.
       Inr (valid \<and> key_encryption peer = bind_peer_session b \<and> bind_epoch b \<noteq> 0 \<and> bind_local_generation b \<noteq> 0 \<and>
         bind_peer_generation b \<noteq> 0 \<and> remote \<noteq> [] \<and> length remote \<le> max_candidates)))"

text \<open>The number of the call that draws the nonce is an argument.\<close>

definition new_punch :: "Crypto \<Rightarrow> nat \<Rightarrow> DeviceIdentity \<Rightarrow> SignedDeviceKey \<Rightarrow> PeerBinding \<Rightarrow> Candidate list \<Rightarrow> int \<Rightarrow> PunchSession res" where
  "new_punch c k identity peer b remote now = res_bind (random_bytes c k 32) (\<lambda>nonce.
     res_bind (punch_authorized c identity peer b remote) (\<lambda>authorized.
     if \<not> authorized then Inl (Invalid_argument ''unauthorized punch session'')
     else if \<not> list_all (\<lambda>r. usable_endpoint (candidate_endpoint r) True) remote then Inl (Invalid_argument ''invalid punch endpoint'')
     else Inr \<lparr>punch_identity = identity, punch_peer_key = peer, punch_binding = b, punch_remote = remote, punch_nonce = nonce,
       punch_deadline = now + seconds 5, punch_next = now, punch_round = 0, punch_sent = 0, punch_responses = 0, punch_selected = None,
       punch_verified = []\<rparr>))"

definition punch_body :: "byte \<Rightarrow> PeerBinding \<Rightarrow> bytes \<Rightarrow> bytes \<Rightarrow> bytes" where
  "punch_body kind b nonce echo = put (0x4c4c5031 :: 32 word) @ put kind @ encode_binding b @ nonce @ echo"

definition punch_message :: "bool \<Rightarrow> bytes \<Rightarrow> PunchSession \<Rightarrow> bytes res" where
  "punch_message reply echo s = (let bs = punch_body (if reply then 2 else 1) (punch_binding s) (punch_nonce s) echo in
     res_bind (identity_sign (punch_identity s) bs) (\<lambda>signature. Inr (bs @ signature)))"

definition punch_finished :: "int \<Rightarrow> PunchSession \<Rightarrow> bool" where
  "punch_finished now s \<longleftrightarrow> punch_selected s \<noteq> None \<or> now \<ge> punch_deadline s"

definition punch_tick :: "int \<Rightarrow> PunchSession \<Rightarrow> ProbeDatagram list res \<times> PunchSession" where
  "punch_tick now s =
     (if punch_finished now s \<or> now < punch_next s \<or> punch_sent s \<ge> 32 then (Inr [], s)
      else case punch_message False (replicate 32 0) s of
        Inl e \<Rightarrow> (Inl e, s)
      | Inr bs \<Rightarrow>
          let targets = take (32 - punch_sent s) (punch_remote s) in
          (Inr (map (\<lambda>r. \<lparr>datagram_endpoint = candidate_endpoint r, datagram_bytes = bs\<rparr>) targets),
           s\<lparr>punch_sent := punch_sent s + length targets, punch_next := now + milliseconds (50 * 2 ^ min (punch_round s) 4),
             punch_round := punch_round s + 1\<rparr>))"

text \<open>What a datagram that passes all checks is: its kind, its sender's nonce and the nonce it echoes.\<close>

definition read_punch :: "Crypto \<Rightarrow> bytes \<Rightarrow> PunchSession \<Rightarrow> (byte \<times> bytes \<times> bytes) option res" where
  "read_punch c bs s =
     parse_all (pbind reader_get (\<lambda>magic :: 32 word.
       if magic \<noteq> 0x4c4c5031 then preturn None
       else pbind reader_get (\<lambda>kind :: byte. pbind (reader_bytes 168) (\<lambda>raw. pbind (plift (decode_binding raw)) (\<lambda>b.
       if b \<noteq> reversed (punch_binding s) then preturn None
       else pbind (reader_array 32) (\<lambda>nonce. pbind (reader_array 32) (\<lambda>echo. pbind (reader_array 64) (\<lambda>signature. pbind reader_finish (\<lambda>_.
       if kind \<noteq> 1 \<and> kind \<noteq> 2 then preturn None
       else pbind (plift (verify_signature c (key_identity (punch_peer_key s)) (take (length bs - 64) bs) signature)) (\<lambda>valid.
       preturn (if valid then Some (kind, nonce, echo) else None))))))))))) bs"

definition select_endpoint :: "Endpoint \<Rightarrow> PunchSession \<Rightarrow> PunchSession" where
  "select_endpoint e s = s\<lparr>punch_selected := Some e,
     punch_verified := (if e \<in> set (punch_verified s) then punch_verified s else punch_verified s @ [e])\<rparr>"

definition punch_receive :: "Crypto \<Rightarrow> Endpoint \<Rightarrow> bytes \<Rightarrow> int \<Rightarrow> PunchSession \<Rightarrow> ProbeDatagram option \<times> PunchSession" where
  "punch_receive c source bs now s =
     (if now \<ge> punch_deadline s \<or> length bs \<noteq> 5 + 168 + 64 + 64 \<or> punch_responses s \<ge> 32 then (None, s)
      else if \<not> list_ex (\<lambda>r. candidate_endpoint r = source) (punch_remote s) then (None, s)
      else case read_punch c bs s of
        Inr (Some (kind, nonce, echo)) \<Rightarrow>
          if kind = 2 then (None, if echo = punch_nonce s then select_endpoint source s else s)
          else (case punch_message True nonce s of
              Inl e \<Rightarrow> (None, s\<lparr>punch_responses := punch_responses s + 1\<rparr>)
            | Inr reply \<Rightarrow> (Some \<lparr>datagram_endpoint = source, datagram_bytes = reply\<rparr>, s\<lparr>punch_responses := punch_responses s + 1\<rparr>))
      | _ \<Rightarrow> (None, s))"

section \<open>Authorization\<close>

definition peer_transcript :: "PeerBinding \<Rightarrow> bytes \<Rightarrow> bytes \<Rightarrow> bytes" where
  "peer_transcript b sender receiver = put (0x4c4c4431 :: 32 word) @ encode_binding b @ sender @ receiver"

definition fresh_nonces :: "bytes \<Rightarrow> bytes \<Rightarrow> bool" where
  "fresh_nonces a b \<longleftrightarrow> \<not> is_zero a \<and> \<not> is_zero b \<and> a \<noteq> b"

text \<open>The part of the decision taken in the first network with the identifier of the binding.\<close>

definition network_authorizes :: "PeerBinding \<Rightarrow> SignedDeviceKey \<Rightarrow> 32 word \<Rightarrow> 32 word \<Rightarrow> ActiveNetworkPacketState \<Rightarrow> bool" where
  "network_authorizes b key own peer n \<longleftrightarrow>
     (case state_policy (active_peers n) of None \<Rightarrow> True | Some p \<Rightarrow> policy_allows p (bind_local_device b) (bind_peer_device b)) \<and>
     snapshot_epoch (active_key n) = bind_epoch b \<and> state_epoch (active_peers n) = bind_epoch b \<and> state_own (active_peers n) = own \<and>
     list_ex (\<lambda>p. peer_device p = bind_peer_device b \<and> peer_address p = peer \<and> peer_key p = Some key) (state_peers (active_peers n))"

definition peer_binding_authorized :: "Crypto \<Rightarrow> PeerBinding \<Rightarrow> SignedDeviceKey \<Rightarrow> 32 word \<Rightarrow> 32 word \<Rightarrow> NetworkSnapshot \<Rightarrow> bool res" where
  "peer_binding_authorized c b key own peer s =
     (case snapshot_identity s of
        None \<Rightarrow> Inr False
      | Some identity \<Rightarrow>
          if snapshot_device identity \<noteq> bind_local_device b \<or> bind_local_generation b = 0 \<or> bind_peer_generation b = 0 \<or>
             key_encryption (snapshot_signed_key identity) \<noteq> bind_local_session b
          then Inr False
          else res_bind (verify_signed_device_key c (snapshot_signed_key identity) (bind_local_device b)) (\<lambda>own_valid.
            if \<not> own_valid \<or> key_encryption key \<noteq> bind_peer_session b then Inr False
            else res_bind (verify_signed_device_key c key (bind_peer_device b)) (\<lambda>peer_valid.
              if \<not> peer_valid then Inr False
              else (case find (\<lambda>n. state_network (active_peers n) = bind_network b) (snapshot_networks s) of
                  None \<Rightarrow> Inr False
                | Some n \<Rightarrow> Inr (network_authorizes b key own peer n)))))"

definition sign_peer_binding :: "Crypto \<Rightarrow> DeviceIdentity \<Rightarrow> PeerBinding \<Rightarrow> bytes \<Rightarrow> bytes \<Rightarrow> bytes res" where
  "sign_peer_binding c i b a r = res_bind (identity_device_id c i) (\<lambda>device.
     if device \<noteq> bind_local_device b \<or> \<not> fresh_nonces a r then Inl (Invalid_argument ''invalid peer proof context'')
     else identity_sign i (peer_transcript b a r))"

definition verify_peer_binding :: "Crypto \<Rightarrow> SignedDeviceKey \<Rightarrow> PeerBinding \<Rightarrow> bytes \<Rightarrow> bytes \<Rightarrow> bytes \<Rightarrow> bool res" where
  "verify_peer_binding c key b a r signature =
     (if \<not> fresh_nonces a r \<or> bind_local_session b \<noteq> key_encryption key then Inr False
      else res_bind (verify_signed_device_key c key (bind_local_device b)) (\<lambda>valid.
        if \<not> valid then Inr False else verify_signature c (key_identity key) (peer_transcript b a r) signature))"

end
