(* ===== verification/Path_Safety.thy ===== *)
theory Path_Safety
  imports Path_Checks
begin

text \<open>
  What the direct-path machinery guarantees: which pair is nominated, when the path changes, and with
  whom a punched path ends.
\<close>

section \<open>Nomination\<close>

text \<open>The states a checklist can reach through its methods.\<close>

inductive checks_run :: "ConnectivityChecks \<Rightarrow> bool" where
  run_checks: "new_checks own peer locals remotes now = Inr c \<Longrightarrow> checks_run c"
| run_conflict: "checks_run c \<Longrightarrow> checks_run (resolve_role_conflict r c)"
| run_next: "checks_run c \<Longrightarrow> checks_run (snd (next_check now c))"
| run_probe: "checks_run c \<Longrightarrow> checks_run (note_probe own remote c)"
| run_result: "checks_run c \<Longrightarrow> checks_run (check_result own remote success rtt c)"
| run_nominate: "checks_run c \<Longrightarrow> checks_run (snd (nominate now c))"

text \<open>Pairs stay in the order of their priority, and only a pair that was probed can succeed.\<close>

definition pairs_ok :: "CandidatePair list \<Rightarrow> bool" where
  "pairs_ok ps \<longleftrightarrow> sorted (map (\<lambda>p. - uint (pair_priority p)) ps) \<and> list_all (\<lambda>p. pair_ok (pair_local p) (pair_remote p)) ps \<and>
     list_all (\<lambda>p. pair_state p = Check_succeeded \<or> pair_state p = Check_in_progress \<longrightarrow> pair_attempts p \<ge> 1) ps"

definition pair_kept :: "CandidatePair \<Rightarrow> CandidatePair \<Rightarrow> bool" where
  "pair_kept p q \<longleftrightarrow> pair_local q = pair_local p \<and> pair_remote q = pair_remote p \<and> pair_priority q = pair_priority p \<and>
     (pair_state q = Check_succeeded \<or> pair_state q = Check_in_progress \<longrightarrow> pair_attempts q \<ge> 1)"

lemma pairs_ok_kept:
  assumes "pairs_ok ps" and "list_all2 pair_kept ps qs"
  shows "pairs_ok qs"
proof -
  have "map (\<lambda>p. - uint (pair_priority p)) qs = map (\<lambda>p. - uint (pair_priority p)) ps"
    using assms(2) by (induction rule: list_all2_induct) (auto simp: pair_kept_def)
  moreover have "list_all (\<lambda>p. pair_ok (pair_local p) (pair_remote p)) qs" "list_all (\<lambda>p. pair_state p = Check_succeeded \<or> pair_state p = Check_in_progress \<longrightarrow> pair_attempts p \<ge> 1) qs"
    using assms(2) conjunct1 [OF conjunct2 [OF assms(1) [unfolded pairs_ok_def]]]
    by (induction rule: list_all2_induct) (auto simp: pair_kept_def)
  ultimately show ?thesis using assms(1) by (simp add: pairs_ok_def)
qed

lemma list_all2_map_kept: "(\<And>p. p \<in> set ps \<Longrightarrow> R p (f p)) \<Longrightarrow> list_all2 R ps (map f ps)"
  by (induction ps) auto

lemma list_all2_update_first: "(\<And>p. p \<in> set ps \<Longrightarrow> R p p) \<Longrightarrow> (\<And>p. p \<in> set ps \<Longrightarrow> R p (f p)) \<Longrightarrow> list_all2 R ps (update_first P f ps)"
  by (induction ps) (auto intro: list_all2_refl simp: list.rel_refl_strong)

lemma nominate_pairs [simp]: "checks_pairs (snd (nominate now c)) = checks_pairs c"
  by (simp add: nominate_def split: prod.splits)

lemma pairs_ok_attempts: "pairs_ok ps \<Longrightarrow> p \<in> set ps \<Longrightarrow> pair_state p = Check_succeeded \<or> pair_state p = Check_in_progress \<Longrightarrow> 1 \<le> pair_attempts p"
  by (auto simp: pairs_ok_def list_all_iff)

lemma checks_run_pairs: "checks_run c \<Longrightarrow> pairs_ok (checks_pairs c)"
proof (induction rule: checks_run.induct)
  case (run_checks own peer locals remotes now c)
  then show ?case
    by (auto simp: new_checks_def Let_def pairs_ok_def list_all_iff make_pair_def split: if_splits)
next
  case (run_conflict c r)
  then show ?case by (simp add: resolve_role_conflict_def)
next
  case (run_next c now)
  then have kept: "pair_kept p p" "pair_kept p (start_check p)" "pair_kept p (p\<lparr>pair_state := Check_failed\<rparr>)" if "p \<in> set (checks_pairs c)" for p
    using that by (auto simp: pair_kept_def start_check_def dest: pairs_ok_attempts)
  show ?case
    using run_next.IH kept
    by (auto simp: next_check_def split: option.splits intro!: pairs_ok_kept [OF run_next.IH] list_all2_map_kept list_all2_update_first)
next
  case (run_probe c own remote)
  then have "pair_kept p p" "pair_kept p (start_check p)" if "p \<in> set (checks_pairs c)" for p
    using that by (auto simp: pair_kept_def start_check_def dest: pairs_ok_attempts)
  then show ?case
    using run_probe.IH by (auto simp: note_probe_def intro!: pairs_ok_kept [OF run_probe.IH] list_all2_map_kept)
next
  case (run_result c own remote success rtt)
  then have "pair_kept p p" "pair_state p = Check_in_progress \<Longrightarrow> pair_kept p (settle_pair success rtt p)" if "p \<in> set (checks_pairs c)" for p
    using that by (auto simp: pair_kept_def settle_pair_def dest: pairs_ok_attempts)
  then show ?case
    using run_result.IH by (auto simp: check_result_def intro!: pairs_ok_kept [OF run_result.IH] list_all2_map_kept)
next
  case (run_nominate c now)
  then show ?case by simp
qed

lemma nominate_scan_found:
  assumes "nominate_scan early st ps = (Some p, st')"
  shows "\<exists>before after. ps = before @ p # after \<and> pair_state p = Check_succeeded \<and> st' = Conn_connected \<and>
    list_all (\<lambda>q. pair_state q \<noteq> Check_succeeded \<and> (early \<longrightarrow> pair_state q = Check_failed)) before"
  using assms
proof (induction ps)
  case (Cons q ps)
  show ?case
  proof (cases "pair_state q = Check_succeeded")
    case True
    then show ?thesis using Cons.prems by (intro exI [of _ "[]"] exI [of _ ps]) auto
  next
    case False
    with Cons.prems have later: "nominate_scan early st ps = (Some p, st')" and q: "early \<longrightarrow> pair_state q = Check_failed"
      by (auto split: if_splits)
    from Cons.IH [OF later] obtain before after where "ps = before @ p # after \<and> pair_state p = Check_succeeded \<and> st' = Conn_connected \<and>
      list_all (\<lambda>q. pair_state q \<noteq> Check_succeeded \<and> (early \<longrightarrow> pair_state q = Check_failed)) before" by blast
    then show ?thesis using False q by (intro exI [of _ "q # before"] exI [of _ after]) auto
  qed
qed simp

text \<open>
  The pair that is nominated succeeded after a probe, no pair of higher priority succeeded, and before
  the deadline all of those have failed.
\<close>

lemma nominated_pair_best:
  assumes "checks_run c" and "nominate now c = (Some p, c')"
  shows "p \<in> set (checks_pairs c) \<and> pair_state p = Check_succeeded \<and> 1 \<le> pair_attempts p \<and> checks_state c' = Conn_connected \<and>
    (\<forall>q\<in>set (checks_pairs c). pair_priority q > pair_priority p \<longrightarrow>
       pair_state q \<noteq> Check_succeeded \<and> (now < checks_deadline c \<longrightarrow> pair_state q = Check_failed))"
proof -
  from assms(2) obtain st where scan: "nominate_scan (now < checks_deadline c) (checks_state c) (checks_pairs c) = (Some p, st)"
    and c': "c' = c\<lparr>checks_state := st\<rparr>" by (auto simp: nominate_def split: prod.splits if_splits)
  from nominate_scan_found [OF scan] obtain before after where ps: "checks_pairs c = before @ p # after" and p: "pair_state p = Check_succeeded"
    and st: "st = Conn_connected"
    and before: "list_all (\<lambda>q. pair_state q \<noteq> Check_succeeded \<and> (now < checks_deadline c \<longrightarrow> pair_state q = Check_failed)) before" by blast
  have ok: "pairs_ok (checks_pairs c)" by (rule checks_run_pairs [OF assms(1)])
  then have "sorted (map (\<lambda>q. - uint (pair_priority q)) (p # after))" by (simp add: pairs_ok_def ps sorted_append)
  then have "\<not> pair_priority q > pair_priority p" if "q \<in> set after" for q using that by (auto simp: word_less_alt)
  then show ?thesis
    using before p st c' pairs_ok_attempts [OF ok, of p] by (auto simp: ps list_all_iff)
qed

text \<open>The two peers take opposite roles and give a pair the same priority.\<close>

lemma peers_agree_on_priorities:
  assumes "own \<noteq> peer"
  shows "role_of own peer \<noteq> role_of peer own" and "priority_of (role_of own peer) a b = priority_of (role_of peer own) b a"
  using assms by (auto simp: role_of_def priority_of_def Let_def)

section \<open>Path changes\<close>

text \<open>A run of the selector with the verdicts since the last sample that was not authenticated, latest first.\<close>

inductive selector_run :: "bool list \<Rightarrow> PathSelector \<Rightarrow> bool" where
  run_selector: "selector_run [] new_selector"
| run_lost: "selector_run vs s \<Longrightarrow> \<not> quality_authenticated d \<Longrightarrow> selector_run [] (snd (sample_path d relay now s))"
| run_sample: "selector_run vs s \<Longrightarrow> quality_authenticated d \<Longrightarrow>
    selector_run (path_good relay (measure_path d s) # vs) (snd (sample_path d relay now s))"

lemma measure_path_kept [simp]:
  "sel_direct (measure_path d s) = sel_direct s" "sel_healthy (measure_path d s) = sel_healthy s" "sel_bad (measure_path d s) = sel_bad s"
  "sel_changed (measure_path d s) = sel_changed s"
  by (simp_all add: measure_path_def Let_def)

lemma selector_counts:
  "selector_run vs s \<Longrightarrow> sel_healthy s = min 3 (length (takeWhile (\<lambda>v. v) vs)) \<and> sel_bad s = min 3 (length (takeWhile Not vs))"
  by (induction rule: selector_run.induct) (auto simp: new_selector_def sample_path_def Let_def count_verdict_def)

text \<open>
  The selected path changes to direct only after three good samples in a row, and away from it only
  after three bad ones or when the path is no longer authenticated; except in that case two changes are
  at least two seconds apart.
\<close>

lemma path_changes:
  assumes "selector_run vs s" and "sample_path d relay now s = (decision, s')" and "sel_direct s' \<noteq> sel_direct s"
  shows "decision_direct decision = sel_direct s' \<and> sel_changed s' = now \<and>
    (if quality_authenticated d
     then (sel_changed s = 0 \<or> now - sel_changed s \<ge> seconds 2) \<and>
       list_all (\<lambda>good. good = sel_direct s') (take 3 (path_good relay (measure_path d s) # vs)) \<and> 2 \<le> length vs
     else \<not> sel_direct s')"
proof (cases "quality_authenticated d")
  case False
  then show ?thesis using assms(2,3) by (auto simp: sample_path_def)
next
  case True
  let ?good = "path_good relay (measure_path d s)"
  have counts: "sel_healthy s = min 3 (length (takeWhile (\<lambda>v. v) vs))" "sel_bad s = min 3 (length (takeWhile Not vs))"
    using selector_counts [OF assms(1)] by simp_all
  have switch: "decision_direct decision = sel_direct s'" "sel_changed s' = now" "sel_changed s = 0 \<or> now - sel_changed s \<ge> seconds 2"
    "sel_direct s' \<Longrightarrow> ?good \<and> 2 \<le> sel_healthy s" "\<not> sel_direct s' \<Longrightarrow> \<not> ?good \<and> 2 \<le> sel_bad s"
    using assms(2,3) True by (auto simp: sample_path_def Let_def count_verdict_def split: if_splits)
  have tail: "list_all P (take 2 vs) \<and> 2 \<le> length vs" if "2 \<le> length (takeWhile P vs)" for P
    using that by (cases vs; cases "tl vs") (auto split: if_splits simp: take_Suc numeral_2_eq_2)
  show ?thesis
  proof (cases "sel_direct s'")
    case True
    then show ?thesis using switch counts tail [of "\<lambda>v. v"] \<open>quality_authenticated d\<close> by (auto simp: numeral_3_eq_3 numeral_2_eq_2)
  next
    case False
    then show ?thesis using switch counts tail [of Not] \<open>quality_authenticated d\<close> by (auto simp: numeral_3_eq_3 numeral_2_eq_2)
  qed
qed

section \<open>Punching\<close>

definition binding_typed :: "PeerBinding \<Rightarrow> bool" where
  "binding_typed b \<longleftrightarrow> length (bind_network b) = 16 \<and> length (bind_local_device b) = 32 \<and> length (bind_peer_device b) = 32 \<and>
     length (bind_local_session b) = 32 \<and> length (bind_peer_session b) = 32"

lemma decode_binding_iff: "decode_binding raw = Inr b \<longleftrightarrow> raw = encode_binding b \<and> binding_typed b"
  by (cases b) (auto simp: decode_binding_def encode_binding_def binding_typed_def wire_reads)

lemma length_encode_binding: "binding_typed b \<Longrightarrow> length (encode_binding b) = 168"
  by (simp add: encode_binding_def binding_typed_def)

lemma reversed_simps [simp]: "reversed (reversed b) = b" "binding_typed (reversed b) = binding_typed b"
  by (auto simp: reversed_def binding_typed_def)

text \<open>What a datagram of the peer must be for its kind and nonces to be read.\<close>

definition punch_datagram :: "Crypto \<Rightarrow> PunchSession \<Rightarrow> byte \<Rightarrow> bytes \<Rightarrow> bytes \<Rightarrow> bytes \<Rightarrow> bool" where
  "punch_datagram c s kind nonce echo bs \<longleftrightarrow> length nonce = 32 \<and> length echo = 32 \<and> binding_typed (punch_binding s) \<and>
     signed_by c (key_identity (punch_peer_key s)) (punch_body kind (reversed (punch_binding s)) nonce echo) bs"

lemma read_punch_iff:
  "read_punch c bs s = Inr (Some (kind, nonce, echo)) \<longleftrightarrow> (kind = 1 \<or> kind = 2) \<and> punch_datagram c s kind nonce echo bs"
proof
  assume "read_punch c bs s = Inr (Some (kind, nonce, echo))"
  then obtain raw signature where r: "bs = put (0x4c4c5031 :: 32 word) @ kind # raw @ nonce @ echo @ signature"
      "decode_binding raw = Inr (reversed (punch_binding s))" "length nonce = 32" "length echo = 32" "length signature = 64" "kind = 1 \<or> kind = 2"
    and v: "crypto_ed25519_verify c (key_identity (punch_peer_key s)) (take (length bs - 64) bs) signature = Some True"
    by (auto simp: read_punch_def wire_reads verify_signature_def split: if_splits)
  have "bs = punch_body kind (reversed (punch_binding s)) nonce echo @ signature"
    using r by (simp add: punch_body_def decode_binding_iff)
  then have "take (length bs - 64) bs = punch_body kind (reversed (punch_binding s)) nonce echo" using r(5) by simp
  then show "(kind = 1 \<or> kind = 2) \<and> punch_datagram c s kind nonce echo bs"
    using r v by (auto simp: punch_datagram_def signed_by_def punch_body_def decode_binding_iff intro!: exI [of _ signature])
next
  assume "(kind = 1 \<or> kind = 2) \<and> punch_datagram c s kind nonce echo bs"
  then obtain signature where k: "kind = 1 \<or> kind = 2" and typed: "binding_typed (punch_binding s)" "length nonce = 32" "length echo = 32" "length signature = 64"
    and bs: "bs = punch_body kind (reversed (punch_binding s)) nonce echo @ signature"
    and v: "crypto_ed25519_verify c (key_identity (punch_peer_key s)) (punch_body kind (reversed (punch_binding s)) nonce echo) signature = Some True"
    by (auto simp: punch_datagram_def signed_by_def)
  have len: "length (encode_binding (reversed (punch_binding s))) = 168" using typed by (intro length_encode_binding) simp
  have "decode_binding (encode_binding (reversed (punch_binding s))) = Inr (reversed (punch_binding s))"
    using typed by (simp add: decode_binding_iff)
  moreover have "take (length bs - 64) bs = punch_body kind (reversed (punch_binding s)) nonce echo" using typed by (simp add: bs)
  ultimately show "read_punch c bs s = Inr (Some (kind, nonce, echo))"
    using k typed len v unfolding read_punch_def
    by (simp add: bs punch_body_def wire_steps verify_signature_def)
qed

lemma length_punch_datagram: "punch_datagram c s kind nonce echo bs \<Longrightarrow> length bs = 5 + 168 + 64 + 64"
  by (auto simp: punch_datagram_def signed_by_def punch_body_def length_encode_binding)

text \<open>A session and the datagrams it received.\<close>

inductive punch_run :: "Crypto \<Rightarrow> (Endpoint \<times> bytes) list \<Rightarrow> PunchSession \<Rightarrow> bool" for c where
  punch_started: "new_punch c k identity peer b remote now = Inr s \<Longrightarrow> punch_run c [] s"
| punch_ticked: "punch_run c h s \<Longrightarrow> punch_run c h (snd (punch_tick now s))"
| punch_received: "punch_run c h s \<Longrightarrow> punch_run c ((source, bs) # h) (snd (punch_receive c source bs now s))"

text \<open>What the session keeps, and what the endpoints in it are worth.\<close>

definition proven_endpoint :: "Crypto \<Rightarrow> (Endpoint \<times> bytes) list \<Rightarrow> PunchSession \<Rightarrow> Endpoint \<Rightarrow> bool" where
  "proven_endpoint c h s e \<longleftrightarrow> e \<in> candidate_endpoint ` set (punch_remote s) \<and>
     (\<exists>bs nonce. (e, bs) \<in> set h \<and> punch_datagram c s 2 nonce (punch_nonce s) bs)"

definition punch_ok :: "Crypto \<Rightarrow> (Endpoint \<times> bytes) list \<Rightarrow> PunchSession \<Rightarrow> bool" where
  "punch_ok c h s \<longleftrightarrow> punch_sent s \<le> 32 \<and> punch_responses s \<le> 32 \<and>
     verify_signed_device_key c (punch_peer_key s) (bind_peer_device (punch_binding s)) = Inr True \<and>
     key_encryption (punch_peer_key s) = bind_peer_session (punch_binding s) \<and>
     list_all (\<lambda>r. usable_endpoint (candidate_endpoint r) True) (punch_remote s) \<and>
     (\<forall>e. punch_selected s = Some e \<longrightarrow> e \<in> set (punch_verified s)) \<and> list_all (proven_endpoint c h s) (punch_verified s)"

lemma proven_more: "proven_endpoint c h s e \<Longrightarrow> proven_endpoint c (x # h) s e"
  by (auto simp: proven_endpoint_def)

lemma proven_kept [simp]:
  "proven_endpoint c h (s\<lparr>punch_sent := n\<rparr>) = proven_endpoint c h s" "proven_endpoint c h (s\<lparr>punch_next := t\<rparr>) = proven_endpoint c h s"
  "proven_endpoint c h (s\<lparr>punch_round := n\<rparr>) = proven_endpoint c h s" "proven_endpoint c h (s\<lparr>punch_responses := n\<rparr>) = proven_endpoint c h s"
  "proven_endpoint c h (s\<lparr>punch_selected := x\<rparr>) = proven_endpoint c h s" "proven_endpoint c h (s\<lparr>punch_verified := es\<rparr>) = proven_endpoint c h s"
  by (simp_all add: proven_endpoint_def punch_datagram_def fun_eq_iff)

lemma punch_receive_cases:
  obtains "snd (punch_receive c source bs now s) = s"
  | nonce where "snd (punch_receive c source bs now s) = select_endpoint source s" "punch_datagram c s 2 nonce (punch_nonce s) bs"
      "source \<in> candidate_endpoint ` set (punch_remote s)"
  | "snd (punch_receive c source bs now s) = s\<lparr>punch_responses := punch_responses s + 1\<rparr>" "punch_responses s < 32"
proof (cases "now \<ge> punch_deadline s \<or> length bs \<noteq> 5 + 168 + 64 + 64 \<or> punch_responses s \<ge> 32 \<or>
    \<not> list_ex (\<lambda>r. candidate_endpoint r = source) (punch_remote s)")
  case True
  then show ?thesis by (intro that(1)) (auto simp: punch_receive_def)
next
  case False
  then have few: "punch_responses s < 32" and known: "source \<in> candidate_endpoint ` set (punch_remote s)" by (auto simp: list_ex_iff)
  show ?thesis
  proof (cases "\<exists>kind nonce echo. read_punch c bs s = Inr (Some (kind, nonce, echo))")
    case True
    then obtain kind nonce echo where r: "read_punch c bs s = Inr (Some (kind, nonce, echo))" by blast
    then have d: "punch_datagram c s kind nonce echo bs" by (simp add: read_punch_iff)
    have step: "punch_receive c source bs now s = (if kind = 2 then (None, if echo = punch_nonce s then select_endpoint source s else s)
        else (case punch_message True nonce s of
            Inl e \<Rightarrow> (None, s\<lparr>punch_responses := punch_responses s + 1\<rparr>)
          | Inr reply \<Rightarrow> (Some \<lparr>datagram_endpoint = source, datagram_bytes = reply\<rparr>, s\<lparr>punch_responses := punch_responses s + 1\<rparr>)))"
      using r False by (simp add: punch_receive_def)
    show ?thesis
    proof (cases "kind = 2")
      case True
      then show ?thesis using step d known that(1,2) by (cases "echo = punch_nonce s") auto
    next
      case False
      then have "snd (punch_receive c source bs now s) = s\<lparr>punch_responses := punch_responses s + 1\<rparr>"
        using step by (auto split: sum.splits)
      then show ?thesis using few that(3) by simp
    qed
  next
    case none: False
    then show ?thesis using False by (intro that(1)) (auto simp: punch_receive_def split: sum.splits option.splits)
  qed
qed

lemma punch_run_ok: "punch_run c h s \<Longrightarrow> punch_ok c h s"
proof (induction rule: punch_run.induct)
  case (punch_started k identity peer b remote now s)
  then show ?case by (auto simp: new_punch_def punch_authorized_def res_bind_Inr_iff punch_ok_def split: if_splits)
next
  case (punch_ticked h s now)
  then show ?case
    by (auto simp: punch_tick_def punch_ok_def Let_def split: sum.splits)
next
  case (punch_received h s source bs now)
  show ?case
  proof (cases rule: punch_receive_cases [of c source bs now s])
    case 1
    then show ?thesis using punch_received.IH by (auto simp: punch_ok_def list_all_iff intro: proven_more)
  next
    case (2 nonce)
    have "proven_endpoint c ((source, bs) # h) s source" using 2 by (auto simp: proven_endpoint_def)
    then show ?thesis
      using punch_received.IH unfolding 2(1)
      by (auto simp: punch_ok_def select_endpoint_def list_all_iff intro: proven_more)
  next
    case 3
    then show ?thesis using punch_received.IH by (auto simp: punch_ok_def list_all_iff intro: proven_more)
  qed
qed

text \<open>
  C37.
  A punched path ends at the peer. A session sends at most 32 probes and answers at most 32, its key of
  the peer is verified for the device of the binding, and when it selects an endpoint, that is a usable
  endpoint among the candidates of the peer from which it received a reply signed by the peer's
  identity key over the binding as the peer sees it and over the nonce of this very session.
\<close>

theorem punched_path_authenticated:
  assumes "punch_run c h s"
  shows "punch_sent s \<le> 32 \<and> punch_responses s \<le> 32 \<and>
    verify_signed_device_key c (punch_peer_key s) (bind_peer_device (punch_binding s)) = Inr True \<and>
    key_encryption (punch_peer_key s) = bind_peer_session (punch_binding s) \<and>
    (case punch_selected s of
       None \<Rightarrow> True
     | Some e \<Rightarrow> usable_endpoint e True \<and> (\<exists>r. r \<in> set (punch_remote s) \<and> candidate_endpoint r = e) \<and>
         (\<exists>nonce signature. (e, punch_body 2 (reversed (punch_binding s)) nonce (punch_nonce s) @ signature) \<in> set h \<and>
           crypto_ed25519_verify c (key_identity (punch_peer_key s)) (punch_body 2 (reversed (punch_binding s)) nonce (punch_nonce s)) signature =
             Some True))"
proof -
  have ok: "punch_ok c h s" by (rule punch_run_ok [OF assms])
  show ?thesis
  proof (cases "punch_selected s")
    case None
    then show ?thesis using ok by (simp add: punch_ok_def)
  next
    case (Some e)
    then have proven: "proven_endpoint c h s e" using ok by (auto simp: punch_ok_def list_all_iff)
    then have "usable_endpoint e True" using ok by (auto simp: punch_ok_def list_all_iff proven_endpoint_def)
    then show ?thesis
      using Some ok proven by (auto simp: punch_ok_def proven_endpoint_def punch_datagram_def signed_by_def)
  qed
qed

definition demo_punch_crypto :: Crypto where
  "demo_punch_crypto = \<lparr>crypto_sha256 = Some, crypto_hmac_sha256 = \<lambda>k m. Some m, crypto_ed25519_verify = \<lambda>k m g. Some (g = replicate 64 9),
     crypto_scrypt = \<lambda>p t. Some p, crypto_random = \<lambda>k n. Some (replicate n 7)\<rparr>"

definition demo_punch_binding :: PeerBinding where
  "demo_punch_binding = \<lparr>bind_network = replicate 16 1, bind_epoch = 1, bind_local_generation = 1, bind_peer_generation = 1,
     bind_local_device = replicate 32 2, bind_peer_device = replicate 32 3, bind_local_session = replicate 32 4,
     bind_peer_session = replicate 32 5\<rparr>"

definition demo_punch_identity :: DeviceIdentity where
  "demo_punch_identity = \<lparr>identity_public = replicate 32 2, identity_secret_sign = \<lambda>m. Some (replicate 64 9)\<rparr>"

definition demo_punch_peer_key :: SignedDeviceKey where
  "demo_punch_peer_key = \<lparr>key_identity = replicate 32 3, key_encryption = replicate 32 5, key_client_nonce = replicate 32 1,
     key_server_nonce = replicate 32 1, key_signature = replicate 64 9\<rparr>"

definition demo_punch_candidate :: Candidate where
  "demo_punch_candidate = \<lparr>candidate_endpoint = \<lparr>endpoint_ipv4 = 0x08080808, endpoint_port = 9000\<rparr>, candidate_kind = CK_host, candidate_priority = 7\<rparr>"

definition demo_punch_session :: PunchSession where
  "demo_punch_session = \<lparr>punch_identity = demo_punch_identity, punch_peer_key = demo_punch_peer_key, punch_binding = demo_punch_binding, punch_remote = [demo_punch_candidate],
     punch_nonce = replicate 32 7, punch_deadline = seconds 5, punch_next = 0, punch_round = 0, punch_sent = 0, punch_responses = 0,
     punch_selected = None, punch_verified = []\<rparr>"

theorem punched_path_authenticated_witness:
  "\<exists>h s. punch_run demo_punch_crypto h s \<and> punch_selected s = Some (candidate_endpoint demo_punch_candidate) \<and> punch_sent s \<le> 32"
proof -
  have typed: "binding_typed demo_punch_binding" by (simp add: binding_typed_def demo_punch_binding_def)
  have new: "new_punch demo_punch_crypto 0 demo_punch_identity demo_punch_peer_key demo_punch_binding [demo_punch_candidate] 0 = Inr demo_punch_session"
    by (simp add: new_punch_def punch_authorized_def random_bytes_def identity_device_id_def make_device_id_def sha256_def demo_punch_crypto_def
        demo_punch_identity_def demo_punch_binding_def demo_punch_peer_key_def verify_signed_device_key_def verify_signature_def is_zero_def list_all_iff
        max_candidates_def usable_endpoint_def demo_punch_candidate_def demo_punch_session_def)
  let ?bs = "punch_body 2 (reversed demo_punch_binding) (replicate 32 6) (replicate 32 7) @ replicate 64 9"
  have datagram: "punch_datagram demo_punch_crypto demo_punch_session 2 (replicate 32 6) (replicate 32 7) ?bs"
    using typed by (auto simp: punch_datagram_def signed_by_def demo_punch_crypto_def demo_punch_session_def)
  then have read: "read_punch demo_punch_crypto ?bs demo_punch_session = Inr (Some (2, replicate 32 6, replicate 32 7))" by (simp add: read_punch_iff)
  have "punch_receive demo_punch_crypto (candidate_endpoint demo_punch_candidate) ?bs 1 demo_punch_session =
      (None, select_endpoint (candidate_endpoint demo_punch_candidate) demo_punch_session)"
    using read length_punch_datagram [OF datagram] by (simp add: punch_receive_def demo_punch_session_def seconds_def)
  then have run: "punch_run demo_punch_crypto [(candidate_endpoint demo_punch_candidate, ?bs)] (select_endpoint (candidate_endpoint demo_punch_candidate) demo_punch_session)"
    using punch_received [OF punch_started [OF new], of "candidate_endpoint demo_punch_candidate" ?bs 1] by simp
  moreover have "punch_selected (select_endpoint (candidate_endpoint demo_punch_candidate) demo_punch_session) = Some (candidate_endpoint demo_punch_candidate)"
    by (simp add: select_endpoint_def)
  ultimately show ?thesis using punched_path_authenticated [OF run] by blast
qed

section \<open>Two honest peers\<close>

text \<open>
  Two sessions with opposite bindings, each knowing the other's endpoint: a probe of the first gets a
  reply from the second, and that reply makes the first select the endpoint it came from.
\<close>

lemma punch_completes:
  assumes bindings: "punch_binding s2 = reversed (punch_binding s1)" "binding_typed (punch_binding s1)"
    and nonces: "length (punch_nonce s1) = 32" "length (punch_nonce s2) = 32"
    and keys: "\<And>m g. identity_secret_sign (punch_identity s1) m = Some g \<Longrightarrow>
        length g = 64 \<and> crypto_ed25519_verify c (key_identity (punch_peer_key s2)) m g = Some True"
      "\<And>m. \<exists>g. identity_secret_sign (punch_identity s2) m = Some g \<and> length g = 64 \<and>
        crypto_ed25519_verify c (key_identity (punch_peer_key s1)) m g = Some True"
    and probe: "punch_message False (replicate 32 0) s1 = Inr bs"
    and known: "\<exists>r\<in>set (punch_remote s1). candidate_endpoint r = e2" "\<exists>r\<in>set (punch_remote s2). candidate_endpoint r = e1"
    and time: "now1 < punch_deadline s1" "now2 < punch_deadline s2" "punch_responses s1 < 32" "punch_responses s2 < 32"
  shows "\<exists>reply s2'. punch_receive c e1 bs now2 s2 = (Some \<lparr>datagram_endpoint = e1, datagram_bytes = reply\<rparr>, s2') \<and>
    punch_selected (snd (punch_receive c e2 reply now1 s1)) = Some e2"
proof -
  from probe obtain g where g: "identity_secret_sign (punch_identity s1) (punch_body 1 (punch_binding s1) (punch_nonce s1) (replicate 32 0)) = Some g"
    and bs: "bs = punch_body 1 (punch_binding s1) (punch_nonce s1) (replicate 32 0) @ g"
    by (auto simp: punch_message_def Let_def res_bind_Inr_iff identity_sign_def)
  have d2: "punch_datagram c s2 1 (punch_nonce s1) (replicate 32 0) bs"
    using keys(1) [OF g] bindings nonces by (auto simp: punch_datagram_def signed_by_def bs)
  from keys(2) obtain g' where g': "identity_secret_sign (punch_identity s2) (punch_body 2 (punch_binding s2) (punch_nonce s2) (punch_nonce s1)) = Some g'"
      "length g' = 64" "crypto_ed25519_verify c (key_identity (punch_peer_key s1)) (punch_body 2 (punch_binding s2) (punch_nonce s2) (punch_nonce s1)) g' = Some True"
    by blast
  let ?reply = "punch_body 2 (punch_binding s2) (punch_nonce s2) (punch_nonce s1) @ g'"
  have d1: "punch_datagram c s1 2 (punch_nonce s2) (punch_nonce s1) ?reply"
    using g' bindings nonces by (auto simp: punch_datagram_def signed_by_def)
  have "punch_message True (punch_nonce s1) s2 = Inr ?reply" using g' by (simp add: punch_message_def identity_sign_def)
  moreover have "read_punch c bs s2 = Inr (Some (1, punch_nonce s1, replicate 32 0))" using d2 by (simp add: read_punch_iff)
  ultimately have "punch_receive c e1 bs now2 s2 =
      (Some \<lparr>datagram_endpoint = e1, datagram_bytes = ?reply\<rparr>, s2\<lparr>punch_responses := punch_responses s2 + 1\<rparr>)"
    using length_punch_datagram [OF d2] known time by (simp add: punch_receive_def list_ex_iff)
  moreover have "read_punch c ?reply s1 = Inr (Some (2, punch_nonce s2, punch_nonce s1))" using d1 by (simp add: read_punch_iff)
  then have "punch_receive c e2 ?reply now1 s1 = (None, select_endpoint e2 s1)"
    using length_punch_datagram [OF d1] known time by (simp add: punch_receive_def list_ex_iff)
  ultimately show ?thesis by (auto simp: select_endpoint_def)
qed

text \<open>When a binding is authorized: by the first network with its identifier, with both keys verified.\<close>

lemma peer_binding_authorized_iff:
  "peer_binding_authorized c b key own peer s = Inr True \<longleftrightarrow>
     (\<exists>identity n. snapshot_identity s = Some identity \<and> snapshot_device identity = bind_local_device b \<and>
       bind_local_generation b \<noteq> 0 \<and> bind_peer_generation b \<noteq> 0 \<and>
       key_encryption (snapshot_signed_key identity) = bind_local_session b \<and> key_encryption key = bind_peer_session b \<and>
       verify_signed_device_key c (snapshot_signed_key identity) (bind_local_device b) = Inr True \<and>
       verify_signed_device_key c key (bind_peer_device b) = Inr True \<and>
       find (\<lambda>n. state_network (active_peers n) = bind_network b) (snapshot_networks s) = Some n \<and> network_authorizes b key own peer n)"
  by (auto simp: peer_binding_authorized_def res_bind_Inr_iff split: option.splits if_splits)

text \<open>What one peer signs about a binding the other accepts, and only with both nonces fresh.\<close>

lemma peer_proof_accepted:
  assumes "sign_peer_binding c i b a r = Inr signature" and "key_identity key = identity_public i" and "key_encryption key = bind_local_session b"
    and "verify_signed_device_key c key (bind_local_device b) = Inr True"
    and "\<And>m g. identity_secret_sign i m = Some g \<Longrightarrow> crypto_ed25519_verify c (identity_public i) m g = Some True"
  shows "verify_peer_binding c key b a r signature = Inr True" and "fresh_nonces a r"
  using assms by (auto simp: sign_peer_binding_def verify_peer_binding_def res_bind_Inr_iff identity_sign_def verify_signature_def split: if_splits)

section \<open>STUN\<close>

text \<open>An answer with the address of the client in a XOR-MAPPED-ADDRESS attribute, as RFC 5389 prescribes it.\<close>

definition stun_answer :: "bytes \<Rightarrow> Endpoint \<Rightarrow> bytes" where
  "stun_answer t e = put (0x0101 :: 16 word) @ put (12 :: 16 word) @ put stun_cookie @ t @ put (0x0020 :: 16 word) @ put (8 :: 16 word) @
     [0, 1] @ put (endpoint_port e XOR ucast (drop_bit 16 stun_cookie)) @ put (endpoint_ipv4 e XOR stun_cookie)"

lemma stun_answer_parsed:
  assumes "length t = 12" and "usable_endpoint e True"
  shows "parse_stun_binding_response (stun_answer t e) t = Inr e"
proof -
  let ?attribute = "put (0x0020 :: 16 word) @ put (8 :: 16 word) @ [0, 1] @ put (endpoint_port e XOR ucast (drop_bit 16 stun_cookie)) @
      put (endpoint_ipv4 e XOR stun_cookie)"
  let ?v = "[0, 1] @ put (endpoint_port e XOR ucast (drop_bit 16 stun_cookie)) @ put (endpoint_ipv4 e XOR stun_cookie)"
  have header: "stun_header (length (stun_answer t e)) t (stun_answer t e) = Inr ((), ?attribute)"
    using assms(1) by (simp add: stun_header_def stun_answer_def wire_steps)
  have attribute: "read_attribute ?attribute = Inr ((0x0020, ?v), [])"
    by (simp add: read_attribute_def wire_steps)
  have eta: "\<lparr>endpoint_ipv4 = endpoint_ipv4 e, endpoint_port = endpoint_port e\<rparr> = e" by simp
  have "mapped_endpoint ?v = Inr e"
    using assms(2) by (simp add: mapped_endpoint_def wire_steps xor.assoc Let_def eta)
  then have "stun_attributes ?attribute None = Inr (Some e)"
    using attribute by (subst stun_attributes.simps) (simp add: stun_attributes.simps [of "[]"])
  then show ?thesis using header assms(1) by (simp add: parse_stun_binding_response_def stun_answer_def)
qed

end
