(* ===== verification/Startup.thy ===== *)
theory Startup
  imports Relay_Pool Forwarding_Quota
begin

text \<open>
  From a configuration to running components: the options that \<open>apps/relay/main.cpp\<close> and
  \<open>apps/service/client_runtime.cpp\<close> build, and the checks with which \<open>transport/quic.cpp\<close> accepts them.
\<close>

section \<open>Relays\<close>

record QuicServerOptions =
  srv_listen_host :: string
  srv_port :: "16 word"
  srv_certificate_file :: string
  srv_private_key_file :: string
  srv_auth_token_file :: string
  srv_handshake_timeout :: int
  srv_authentication_timeout :: int
  srv_idle_timeout :: int
  srv_keep_alive_ms :: "32 word"
  srv_enable_quic :: bool
  srv_max_connections :: nat
  srv_max_tls_handshakes :: nat
  srv_send_queue :: SendQueueLimits
  srv_control_per_second :: "32 word"
  srv_relay_id :: bytes
  srv_authority :: bytes
  srv_health_identity_file :: string
  srv_upstream :: "RelayEndpoint option"
  srv_health_per_second :: "32 word"

definition upstream_endpoint :: "RuntimeConfig \<Rightarrow> RelayEndpoint res" where
  "upstream_endpoint cfg = res_bind (parse_directory_key (cfg_relay_upstream_health_public_key cfg)) (\<lambda>key.
     Inr ((plain_endpoint (str (cfg_relay_upstream_id cfg)) (str (cfg_relay_upstream_host cfg)) (cfg_relay_upstream_port cfg))
       \<lparr>ep_capacity := cfg_relay_upstream_capacity cfg, ep_authority := str (cfg_relay_authority cfg), ep_health_key := key\<rparr>))"

definition server_options :: "RuntimeConfig \<Rightarrow> QuicServerOptions res" where
  "server_options cfg =
     (let options = \<lparr>srv_listen_host = cfg_listen_host cfg, srv_port = cfg_relay_port cfg, srv_certificate_file = cfg_tls_certificate_file cfg,
        srv_private_key_file = cfg_tls_private_key_file cfg, srv_auth_token_file = cfg_auth_token_file cfg,
        srv_handshake_timeout = uint (cfg_quic_handshake_timeout_ms cfg),
        srv_authentication_timeout = uint (cfg_authentication_timeout_ms cfg), srv_idle_timeout = uint (cfg_quic_idle_timeout_ms cfg),
        srv_keep_alive_ms = cfg_quic_keep_alive_interval_ms cfg, srv_enable_quic = True,
        srv_max_connections = unat (cfg_relay_max_connections cfg), srv_max_tls_handshakes = unat (cfg_relay_max_tls_handshakes cfg),
        srv_send_queue = default_queue_limits\<lparr>limit_bytes := unat (cfg_relay_send_queue_bytes cfg),
          limit_frames := unat (cfg_relay_send_queue_frames cfg)\<rparr>,
        srv_control_per_second = cfg_relay_control_requests_per_second cfg, srv_relay_id = str (cfg_relay_id cfg),
        srv_authority = str (cfg_relay_authority cfg), srv_health_identity_file = cfg_relay_health_identity_file cfg, srv_upstream = None,
        srv_health_per_second = cfg_relay_health_requests_per_second cfg\<rparr> in
      if cfg_relay_upstream_host cfg \<noteq> []
      then res_bind (upstream_endpoint cfg) (\<lambda>home. Inr (options\<lparr>srv_upstream := Some home\<rparr>))
      else Inr options)"

definition relay_limits :: "RuntimeConfig \<Rightarrow> ForwardingLimits" where
  "relay_limits cfg = \<lparr>device_bytes_per_second = ucast (cfg_relay_device_bytes_per_second cfg),
     network_bytes_per_second = ucast (cfg_relay_network_bytes_per_second cfg),
     device_deliveries_per_second = cfg_relay_device_deliveries_per_second cfg,
     network_deliveries_per_second = cfg_relay_network_deliveries_per_second cfg,
     control_per_second = cfg_relay_control_requests_per_second cfg,
     authority_bytes_per_second = ucast (cfg_relay_authority_bytes_per_second cfg),
     authority_deliveries_per_second = cfg_relay_authority_deliveries_per_second cfg\<rparr>"

definition home_ok :: "QuicServerOptions \<Rightarrow> RelayEndpoint \<Rightarrow> bool" where
  "home_ok o1 home \<longleftrightarrow> ep_host home \<noteq> [] \<and> ep_port home \<noteq> 0 \<and> \<not> is_zero (ep_health_key home) \<and> ep_authority home = srv_authority o1 \<and>
     ep_version home = protocol_version \<and> ep_capacity home \<noteq> 0 \<and> srv_health_identity_file o1 \<noteq> [] \<and>
     \<not> (ep_host home = str (srv_listen_host o1) \<and> ep_port home = srv_port o1)"

definition validate_server_options :: "QuicServerOptions \<Rightarrow> unit res" where
  "validate_server_options o1 =
     (if srv_max_connections o1 = 0 \<or> srv_max_connections o1 > 4096 \<or> srv_max_tls_handshakes o1 = 0 \<or>
         srv_max_tls_handshakes o1 > srv_max_connections o1 \<or> srv_control_per_second o1 = 0 \<or> srv_health_per_second o1 = 0 \<or>
         srv_health_per_second o1 > 1000
      then Inl (Invalid_argument ''invalid relay resource limits'')
      else if (case srv_upstream o1 of None \<Rightarrow> False | Some home \<Rightarrow> \<not> home_ok o1 home)
      then Inl (Invalid_argument ''invalid regional authority configuration'')
      else res_bind (new_budget (srv_send_queue o1)) (\<lambda>_.
        if srv_listen_host o1 = [] then Inl (Invalid_argument ''QUIC listen host is empty'')
        else if srv_port o1 = 0 then Inl (Invalid_argument ''QUIC listen port must be non-zero'')
        else if srv_certificate_file o1 = [] \<or> srv_private_key_file o1 = []
        then Inl (Invalid_argument ''QUIC relay certificate and private key are required'')
        else if srv_upstream o1 = None \<and> srv_auth_token_file o1 = []
        then Inl (Invalid_argument ''QUIC relay authentication token is required'')
        else if srv_handshake_timeout o1 \<le> 0 \<or> srv_authentication_timeout o1 \<le> 0 \<or> srv_idle_timeout o1 \<le> 0 \<or>
            srv_keep_alive_ms o1 = 0 \<or> uint (srv_keep_alive_ms o1) \<ge> srv_idle_timeout o1
        then Inl (Invalid_argument ''invalid QUIC server timeout settings'')
        else Inr ()))"

section \<open>Clients\<close>

record QuicClientOptions =
  cop_relay_host :: bytes
  cop_port :: "16 word"
  cop_identity_file :: string
  cop_auth_token_file :: string
  cop_handshake_timeout :: int
  cop_authentication_timeout :: int
  cop_idle_timeout :: int
  cop_keep_alive_ms :: "32 word"
  cop_reconnect_initial :: int
  cop_reconnect_maximum :: int
  cop_tcp_probe_interval :: int
  cop_relay_pool :: "RelayEndpoint list"
  cop_catalog_expires_ms :: "64 word"
  cop_catalog_revision :: "64 word"

definition client_options :: "RuntimeConfig \<Rightarrow> BootstrapResult \<Rightarrow> QuicClientOptions" where
  "client_options cfg b = \<lparr>cop_relay_host = ep_host (boot_relay b), cop_port = ep_port (boot_relay b),
     cop_identity_file = cfg_device_identity_file cfg, cop_auth_token_file = cfg_auth_token_file cfg,
     cop_handshake_timeout = uint (cfg_quic_handshake_timeout_ms cfg), cop_authentication_timeout = uint (cfg_authentication_timeout_ms cfg),
     cop_idle_timeout = uint (cfg_quic_idle_timeout_ms cfg), cop_keep_alive_ms = cfg_quic_keep_alive_interval_ms cfg,
     cop_reconnect_initial = uint (cfg_reconnect_initial_delay_ms cfg), cop_reconnect_maximum = uint (cfg_reconnect_max_delay_ms cfg),
     cop_tcp_probe_interval = 60000, cop_relay_pool = (if boot_revision b \<noteq> 0 then boot_pool b else []),
     cop_catalog_expires_ms = (if boot_revision b \<noteq> 0 then boot_expires_ms b else 0),
     cop_catalog_revision = (if boot_revision b \<noteq> 0 then boot_revision b else 0)\<rparr>"

definition validate_client_options :: "QuicClientOptions \<Rightarrow> unit res" where
  "validate_client_options o1 =
     (if cop_relay_host o1 = [] then Inl (Invalid_argument ''QUIC relay host is empty'')
      else if cop_port o1 = 0 then Inl (Invalid_argument ''QUIC relay port must be non-zero'')
      else if cop_identity_file o1 = [] \<or> cop_auth_token_file o1 = []
      then Inl (Invalid_argument ''QUIC client identity and authentication token are required'')
      else if cop_handshake_timeout o1 \<le> 0 \<or> cop_authentication_timeout o1 \<le> 0 \<or> cop_idle_timeout o1 \<le> 0 \<or> cop_keep_alive_ms o1 = 0 \<or>
          uint (cop_keep_alive_ms o1) \<ge> cop_idle_timeout o1
      then Inl (Invalid_argument ''invalid QUIC client timeout settings'')
      else if cop_reconnect_initial o1 \<le> 0 \<or> cop_reconnect_maximum o1 < cop_reconnect_initial o1 \<or> cop_tcp_probe_interval o1 \<le> 0
      then Inl (Invalid_argument ''invalid QUIC reconnect settings'')
      else Inr ())"

section \<open>Keys in the configuration\<close>

lemma first_failure_iff: "first_failure checks = Inr u \<longleftrightarrow> list_all fst checks"
  by (induction checks rule: first_failure.induct) auto

lemma char_of_nibble_0: "char_of (48 :: nat) = CHR ''0''"
  by code_simp

lemma nibble_ok:
  assumes "is_xdigit ch"
  shows "\<exists>v. nibble ch = Inr v \<and> unat v < 16 \<and> (v = 0 \<longrightarrow> ch = CHR ''0'')"
proof -
  let ?n = "of_char ch :: nat"
  have zero: "?n = 48 \<Longrightarrow> ch = CHR ''0''" using char_of_char [of ch] by (metis char_of_nibble_0)
  have val: "unat (word_of_nat k :: byte) = k" if "k < 16" for k using that by (simp add: unat_of_nat_size)
  consider "48 \<le> ?n" "?n \<le> 57" | "97 \<le> ?n" "?n \<le> 102" | "65 \<le> ?n" "?n \<le> 70" using assms by (auto simp: is_xdigit_def is_digit_def)
  then show ?thesis
  proof cases
    case 1
    then have "nibble ch = Inr (word_of_nat (?n - 48))" by (simp add: nibble_def)
    moreover have "unat (word_of_nat (?n - 48) :: byte) = ?n - 48" using 1 by (intro val) simp
    ultimately show ?thesis using 1 zero by (intro exI [of _ "word_of_nat (?n - 48)"]) (auto simp: unat_eq_0 [symmetric])
  next
    case 2
    then have "nibble ch = Inr (word_of_nat (?n - 97 + 10))" by (simp add: nibble_def)
    moreover have "unat (word_of_nat (?n - 97 + 10) :: byte) = ?n - 97 + 10" using 2 by (intro val) simp
    ultimately show ?thesis using 2 by (intro exI [of _ "word_of_nat (?n - 97 + 10)"]) (auto simp: unat_eq_0 [symmetric])
  next
    case 3
    then have "nibble ch = Inr (word_of_nat (?n - 65 + 10))" by (simp add: nibble_def)
    moreover have "unat (word_of_nat (?n - 65 + 10) :: byte) = ?n - 65 + 10" using 3 by (intro val) simp
    ultimately show ?thesis using 3 by (intro exI [of _ "word_of_nat (?n - 65 + 10)"]) (auto simp: unat_eq_0 [symmetric])
  qed
qed

lemma res_map_ok:
  assumes "\<And>x. x \<in> set xs \<Longrightarrow> \<exists>y. f x = Inr y \<and> P x y"
  shows "\<exists>ys. res_map f xs = Inr ys \<and> list_all2 P xs ys"
  using assms
proof (induction xs)
  case (Cons x xs)
  from Cons.prems [of x] obtain y where "f x = Inr y" "P x y" by auto
  moreover from Cons.IH Cons.prems obtain ys where "res_map f xs = Inr ys" "list_all2 P xs ys" by fastforce
  ultimately show ?case by auto
qed simp

lemma nibbles_zero:
  assumes "push_bit 4 high OR low = (0 :: byte)" and "unat high < 16"
  shows "high = 0 \<and> low = 0"
proof -
  have "push_bit 4 high = 0" "low = 0" using assms(1) by (simp_all add: or_eq_0_iff)
  moreover have "high \<in> {0, 1, 2, 3, 4, 5, 6, 7, 8, 9, 10, 11, 12, 13, 14, 15}" using assms(2) by (rule digit_cases)
  ultimately show ?thesis by (elim insertE emptyE) simp_all
qed

lemma configured_key_parses:
  assumes "length s = 64" and "list_all is_xdigit s" and "\<not> list_all (\<lambda>ch. ch = CHR ''0'') s"
  shows "\<exists>key. parse_directory_key s = Inr key \<and> \<not> is_zero key"
proof -
  let ?P = "\<lambda>i v. v = 0 \<longrightarrow> s ! (2 * i) = CHR ''0'' \<and> s ! (2 * i + 1) = CHR ''0''"
  have digits: "is_xdigit (s ! j)" if "j < 64" for j using assms(1,2) that by (simp add: list_all_length)
  have bytes: "\<exists>v. key_byte s i = Inr v \<and> ?P i v" if "i \<in> set [0..<32]" for i
  proof -
    from nibble_ok [OF digits [of "2 * i"]] nibble_ok [OF digits [of "2 * i + 1"]] that obtain high low where
      n: "nibble (s ! (2 * i)) = Inr high" "unat high < 16" "high = 0 \<longrightarrow> s ! (2 * i) = CHR ''0''"
        "nibble (s ! (2 * i + 1)) = Inr low" "low = 0 \<longrightarrow> s ! (2 * i + 1) = CHR ''0''" by auto
    then show ?thesis using nibbles_zero [of high low] by (auto simp: key_byte_def)
  qed
  from res_map_ok [of "[0..<32]" "key_byte s" ?P, OF bytes] obtain key where key: "res_map (key_byte s) [0..<32] = Inr key" "list_all2 ?P [0..<32] key" by blast
  have "\<not> is_zero key"
  proof
    assume zero: "is_zero key"
    have "s ! j = CHR ''0''" if "j < 64" for j
    proof -
      from that have "j div 2 < 32" by simp
      moreover from key(2) have len: "length key = 32" by (auto dest: list_all2_lengthD)
      ultimately have "?P (j div 2) (key ! (j div 2))" using list_all2_nthD [OF key(2), of "j div 2"] by simp
      moreover have "key ! (j div 2) = 0" using zero \<open>j div 2 < 32\<close> len by (simp add: is_zero_def list_all_length)
      ultimately have "s ! (2 * (j div 2)) = CHR ''0''" "s ! (2 * (j div 2) + 1) = CHR ''0''" by simp_all
      moreover have "j = 2 * (j div 2) \<or> j = 2 * (j div 2) + 1" by presburger
      ultimately show ?thesis by metis
    qed
    then show False using assms(1,3) by (simp add: list_all_length)
  qed
  then show ?thesis using key assms(1) by (simp add: parse_directory_key_def)
qed

section \<open>Accepted configurations start\<close>

lemma validate_config_facts:
  assumes "validate_config cfg = Inr ()"
  shows "cfg_relay_port cfg \<noteq> 0" "\<not> invalid_host (cfg_listen_host cfg)" "relay_limits_ok cfg"
    and "1000 \<le> cfg_quic_handshake_timeout_ms cfg" "1000 \<le> cfg_authentication_timeout_ms cfg" "5000 \<le> cfg_quic_idle_timeout_ms cfg"
    and "cfg_quic_keep_alive_interval_ms cfg \<noteq> 0" "cfg_quic_keep_alive_interval_ms cfg < cfg_quic_idle_timeout_ms cfg"
    and "100 \<le> cfg_reconnect_initial_delay_ms cfg" "cfg_reconnect_initial_delay_ms cfg \<le> cfg_reconnect_max_delay_ms cfg"
  using assms unfolding validate_config_def first_failure_iff by simp_all

lemma validate_relay_config_facts:
  assumes "validate_relay_config cfg = Inr ()"
  shows "validate_config cfg = Inr ()" "relay_quotas_ok cfg" "has_upstream cfg \<longrightarrow> upstream_ok cfg"
    and "cfg_tls_certificate_file cfg \<noteq> []" "cfg_tls_private_key_file cfg \<noteq> []" "cfg_relay_upstream_host cfg = [] \<longrightarrow> cfg_auth_token_file cfg \<noteq> []"
  using assms unfolding validate_relay_config_def by (auto simp: res_bind_Inr_iff first_failure_iff simp del: first_failure.simps)

lemma str_Nil_iff [simp]: "str s = [] \<longleftrightarrow> s = []"
  by (simp add: str_def)

lemma relay_limits_accepted:
  assumes "relay_quotas_ok cfg" and "relay_limits_ok cfg"
  shows "limits_ok (relay_limits cfg)"
proof -
  have wide: "(ucast w :: 64 word) \<noteq> 0 \<and> ucast w \<le> (1024 * 1024 * 1024 :: 64 word)" if "w \<noteq> 0" "w \<le> 1024 * 1024 * 1024" for w :: "32 word"
  proof -
    have "unat w < 2 ^ LENGTH(32)" by (rule unsigned_less)
    then have "unat (ucast w :: 64 word) = unat w" by (simp add: unsigned_ucast_eq take_bit_nat_eq_self)
    then show ?thesis using that by (simp add: word_le_nat_alt unat_eq_0 [symmetric])
  qed
  show ?thesis using assms wide by (auto simp: limits_ok_def relay_limits_def relay_quotas_ok_def relay_limits_ok_def not_less)
qed

lemma send_queue_accepted:
  assumes "relay_limits_ok cfg"
  shows "\<exists>b. new_budget (default_queue_limits\<lparr>limit_bytes := unat (cfg_relay_send_queue_bytes cfg),
    limit_frames := unat (cfg_relay_send_queue_frames cfg)\<rparr>) = Inr b"
proof -
  have "unat (cfg_relay_send_queue_bytes cfg) \<ge> 262144" "unat (cfg_relay_send_queue_frames cfg) \<ge> 32"
    using assms by (simp_all add: relay_limits_ok_def word_le_nat_alt)
  then show ?thesis by (simp add: new_budget_def default_queue_limits_def)
qed

definition own_upstream :: "RuntimeConfig \<Rightarrow> bool" where
  "own_upstream cfg \<longleftrightarrow> cfg_relay_upstream_host cfg \<noteq> [] \<and> cfg_relay_upstream_host cfg = cfg_listen_host cfg \<and> cfg_relay_upstream_port cfg = cfg_relay_port cfg"

lemma str_inj [simp]: "str a = str b \<longleftrightarrow> a = b"
proof -
  have "(of_char c :: nat) < 256" for c using pos_mod_bound [of 256 "of_char c :: int"] mod_less_divisor [of 256 "of_char c :: nat"] by simp
  then have byte: "unat (word_of_nat (of_char c) :: byte) = of_char c" for c by (intro unat_of_nat_size) simp
  have "inj (\<lambda>c. word_of_nat (of_char c) :: byte)"
  proof (rule injI)
    fix x y
    assume "(word_of_nat (of_char x) :: byte) = word_of_nat (of_char y)"
    then have "unat (word_of_nat (of_char x) :: byte) = unat (word_of_nat (of_char y) :: byte)" by (rule arg_cong)
    then have "(of_char x :: nat) = of_char y" by (simp only: byte)
    then show "x = y" by (simp only: of_char_eq_iff)
  qed
  then show ?thesis by (simp add: str_def)
qed

lemma relay_starts:
  assumes "validate_relay_config cfg = Inr ()"
  shows "\<exists>o1. server_options cfg = Inr o1 \<and> (validate_server_options o1 = Inr () \<longleftrightarrow> \<not> own_upstream cfg)"
proof -
  note facts = validate_relay_config_facts [OF assms]
  note base = validate_config_facts [OF facts(1)]
  define o0 where "o0 = \<lparr>srv_listen_host = cfg_listen_host cfg, srv_port = cfg_relay_port cfg, srv_certificate_file = cfg_tls_certificate_file cfg,
        srv_private_key_file = cfg_tls_private_key_file cfg, srv_auth_token_file = cfg_auth_token_file cfg,
        srv_handshake_timeout = uint (cfg_quic_handshake_timeout_ms cfg),
        srv_authentication_timeout = uint (cfg_authentication_timeout_ms cfg), srv_idle_timeout = uint (cfg_quic_idle_timeout_ms cfg),
        srv_keep_alive_ms = cfg_quic_keep_alive_interval_ms cfg, srv_enable_quic = True,
        srv_max_connections = unat (cfg_relay_max_connections cfg), srv_max_tls_handshakes = unat (cfg_relay_max_tls_handshakes cfg),
        srv_send_queue = default_queue_limits\<lparr>limit_bytes := unat (cfg_relay_send_queue_bytes cfg),
          limit_frames := unat (cfg_relay_send_queue_frames cfg)\<rparr>,
        srv_control_per_second = cfg_relay_control_requests_per_second cfg, srv_relay_id = str (cfg_relay_id cfg),
        srv_authority = str (cfg_relay_authority cfg), srv_health_identity_file = cfg_relay_health_identity_file cfg, srv_upstream = None,
        srv_health_per_second = cfg_relay_health_requests_per_second cfg\<rparr>"
  have numbers: "srv_max_connections o0 \<noteq> 0" "srv_max_connections o0 \<le> 4096" "srv_max_tls_handshakes o0 \<noteq> 0"
      "srv_max_tls_handshakes o0 \<le> srv_max_connections o0" "srv_control_per_second o0 \<noteq> 0" "srv_health_per_second o0 \<noteq> 0"
      "srv_health_per_second o0 \<le> 1000"
    using base(3) facts(2) by (simp_all add: o0_def relay_limits_ok_def relay_quotas_ok_def word_le_nat_alt unat_eq_0)
  have times: "srv_handshake_timeout o0 > 0" "srv_authentication_timeout o0 > 0" "srv_idle_timeout o0 > 0" "srv_keep_alive_ms o0 \<noteq> 0"
      "uint (srv_keep_alive_ms o0) < srv_idle_timeout o0"
    using base(4-8) by (simp_all add: o0_def word_le_def word_less_alt)
  have files: "srv_listen_host o0 \<noteq> []" "srv_port o0 \<noteq> 0" "srv_certificate_file o0 \<noteq> []" "srv_private_key_file o0 \<noteq> []"
    using base(1,2) facts(4,5) by (auto simp: o0_def invalid_host_def)
  obtain b where budget: "new_budget (srv_send_queue o0) = Inr b" using send_queue_accepted [OF base(3)] by (auto simp: o0_def)
  show ?thesis
  proof (cases "cfg_relay_upstream_host cfg = []")
    case True
    then have "server_options cfg = Inr o0" by (simp add: server_options_def o0_def)
    moreover have "srv_upstream o0 = None" "srv_auth_token_file o0 \<noteq> []" using True facts(6) by (simp_all add: o0_def)
    then have "validate_server_options o0 = Inr ()"
      using numbers times files budget by (simp add: validate_server_options_def not_less)
    ultimately show ?thesis using True by (simp add: own_upstream_def)
  next
    case False
    then have up: "upstream_ok cfg" using facts(3) by (simp add: has_upstream_def)
    then obtain key where key: "parse_directory_key (cfg_relay_upstream_health_public_key cfg) = Inr key" "\<not> is_zero key"
      using configured_key_parses by (auto simp: upstream_ok_def)
    define home where "home = (plain_endpoint (str (cfg_relay_upstream_id cfg)) (str (cfg_relay_upstream_host cfg)) (cfg_relay_upstream_port cfg))
       \<lparr>ep_capacity := cfg_relay_upstream_capacity cfg, ep_authority := str (cfg_relay_authority cfg), ep_health_key := key\<rparr>"
    let ?o = "o0\<lparr>srv_upstream := Some home\<rparr>"
    have "server_options cfg = Inr ?o" using False key by (simp add: server_options_def upstream_endpoint_def o0_def home_def)
    moreover have "home_ok ?o home \<longleftrightarrow> \<not> own_upstream cfg"
      using False up key(2) by (auto simp: home_ok_def home_def plain_endpoint_def o0_def upstream_ok_def own_upstream_def)
    then have "validate_server_options ?o = Inr () \<longleftrightarrow> \<not> own_upstream cfg"
      using numbers times files budget by (simp add: validate_server_options_def not_less)
    ultimately show ?thesis by blast
  qed
qed

lemma client_starts:
  assumes "validate_service_config cfg = Inr ()" and "boot_from_directory (resolve_bootstrap c fetch cfg now) \<or> cfg_relay_host cfg \<noteq> []"
  shows "validate_client_options (client_options cfg (resolve_bootstrap c fetch cfg now)) = Inr ()"
proof -
  let ?b = "resolve_bootstrap c fetch cfg now"
  from assms(1) have valid: "validate_config cfg = Inr ()" "cfg_device_identity_file cfg \<noteq> []"
    and token: "cfg_relay_host cfg = [] \<and> cfg_bootstrap_mode cfg = ''manual'' \<or> cfg_auth_token_file cfg \<noteq> []"
    by (auto simp: validate_service_config_def res_bind_Inr_iff first_failure_iff simp del: first_failure.simps)
  note base = validate_config_facts [OF valid(1)]
  have "ep_host (boot_relay ?b) \<noteq> [] \<and> ep_port (boot_relay ?b) \<noteq> 0 \<and> cfg_auth_token_file cfg \<noteq> []"
  proof (cases "boot_from_directory ?b")
    case True
    then have mode: "cfg_bootstrap_mode cfg \<noteq> ''manual''" by (auto simp: resolve_bootstrap_def manual_bootstrap_def)
    with True obtain b where b: "directory_bootstrap c fetch cfg now = Inr b" "?b = b"
      by (auto simp: resolve_bootstrap_def manual_bootstrap_def split: sum.splits)
    from directory_bootstrap_dest [OF b(1)] obtain response key catalog e where "verify_directory c response key now = Inr catalog"
        "find (configured_relay cfg) (cat_relays catalog) = Some e" "b = bootstrap_from cfg catalog e" by blast
    then have "e \<in> set (cat_relays catalog)" "catalog_valid catalog" "boot_relay b = e"
      by (auto simp: find_Some_iff verify_directory_iff directory_body_iff bootstrap_from_def)
    then have "endpoint_valid (is_regional catalog) (boot_relay b)" by (auto simp: catalog_valid_def list_all_iff)
    then show ?thesis using b(2) mode token by (auto simp: endpoint_valid_def valid_relay_text_def)
  next
    case False
    then have "boot_relay ?b = plain_endpoint (str ''manual'') (str (cfg_relay_host cfg)) (cfg_relay_port cfg)"
      using directory_bootstrap_dest by (fastforce simp: resolve_bootstrap_def manual_bootstrap_def bootstrap_from_def split: sum.splits if_splits)
    then show ?thesis using False assms(2) token base(1) by (auto simp: plain_endpoint_def)
  qed
  moreover have "0 < uint (cfg_quic_handshake_timeout_ms cfg)" "0 < uint (cfg_authentication_timeout_ms cfg)" "0 < uint (cfg_quic_idle_timeout_ms cfg)"
      "uint (cfg_quic_keep_alive_interval_ms cfg) < uint (cfg_quic_idle_timeout_ms cfg)" "0 < uint (cfg_reconnect_initial_delay_ms cfg)"
      "uint (cfg_reconnect_initial_delay_ms cfg) \<le> uint (cfg_reconnect_max_delay_ms cfg)"
    using base(4-10) by (simp_all add: word_le_def word_less_alt)
  ultimately show ?thesis
    using valid(2) base(7) by (simp add: validate_client_options_def client_options_def)
qed


text \<open>The defaults with certificate and key, and a relay to connect to.\<close>

definition demo_config :: RuntimeConfig where
  "demo_config = default_config\<lparr>cfg_tls_certificate_file := ''relay.crt'', cfg_tls_private_key_file := ''relay.key'', cfg_relay_host := ''relay.example''\<rparr>"


text \<open>
  In directory mode a configuration without a relay of its own is accepted, but when the directory
  cannot be fetched the client refuses the options, as there is no relay to fall back to.
\<close>

definition directory_config :: RuntimeConfig where
  "directory_config = default_config\<lparr>cfg_bootstrap_mode := ''official'', cfg_directory_url := ''https://directory.example'',
     cfg_directory_public_key := replicate 64 CHR ''1''\<rparr>"

lemma unreachable_directory_stops_client:
  "validate_service_config directory_config = Inr () \<and>
   validate_client_options (client_options directory_config
     (resolve_bootstrap demo_crypto (\<lambda>_. Inl (Runtime_error ''unreachable'')) directory_config 0)) =
   Inl (Invalid_argument ''QUIC relay host is empty'')"
proof -
  have host: "\<not> invalid_host ''0.0.0.0''" by code_simp
  have "is_pinned_key (replicate 64 CHR ''1'')"
    by (simp add: is_pinned_key_def list_all_iff is_xdigit_def is_digit_def)
  then have "directory_ok directory_config" by (simp add: directory_ok_def directory_config_def default_config_def)
  then have "validate_config directory_config = Inr ()"
    using host by (simp add: validate_config_def directory_config_def default_config_def relay_limits_ok_def)
  then have "validate_service_config directory_config = Inr ()"
    by (simp add: validate_service_config_def directory_config_def default_config_def)
  then show ?thesis
    by (simp add: resolve_bootstrap_def directory_bootstrap_def manual_bootstrap_def plain_endpoint_def directory_config_def default_config_def
        client_options_def validate_client_options_def)
qed

end
