(* ===== verification/Lan_Discovery.thy ===== *)
theory Lan_Discovery
  imports Multicast Forwarding_Quota
begin

text \<open>
  \<open>network/lan_discovery.cpp\<close>: the guard on broadcast and multicast traffic. It drops malformed
  discovery packets (mDNS, LLMNR, SSDP), a repetition within 100 ms, and what exceeds two token
  buckets, one of packets and one of bytes. \<open>double\<close> is rational; instants are nanoseconds.
\<close>

record DiscoveryCounters =
  dc_forwarded :: "64 word"
  dc_rate_limited :: "64 word"
  dc_duplicate :: "64 word"
  dc_invalid :: "64 word"

record LanDiscoveryGuard =
  guard_initialized :: bool
  guard_packets :: rat
  guard_bytes :: rat
  guard_updated :: int
  guard_recent :: "(bytes \<times> int) list"
  guard_counters :: DiscoveryCounters

definition new_guard :: LanDiscoveryGuard where
  "new_guard = \<lparr>guard_initialized = False, guard_packets = 32, guard_bytes = 65536, guard_updated = 0, guard_recent = [],
     guard_counters = \<lparr>dc_forwarded = 0, dc_rate_limited = 0, dc_duplicate = 0, dc_invalid = 0\<rparr>\<rparr>"

definition count_invalid :: "LanDiscoveryGuard \<Rightarrow> LanDiscoveryGuard" where
  "count_invalid g = g\<lparr>guard_counters := (guard_counters g)\<lparr>dc_invalid := dc_invalid (guard_counters g) + 1\<rparr>\<rparr>"

definition count_duplicate :: "LanDiscoveryGuard \<Rightarrow> LanDiscoveryGuard" where
  "count_duplicate g = g\<lparr>guard_counters := (guard_counters g)\<lparr>dc_duplicate := dc_duplicate (guard_counters g) + 1\<rparr>\<rparr>"

definition count_limited :: "LanDiscoveryGuard \<Rightarrow> LanDiscoveryGuard" where
  "count_limited g = g\<lparr>guard_counters := (guard_counters g)\<lparr>dc_rate_limited := dc_rate_limited (guard_counters g) + 1\<rparr>\<rparr>"

definition count_forwarded :: "LanDiscoveryGuard \<Rightarrow> LanDiscoveryGuard" where
  "count_forwarded g = g\<lparr>guard_counters := (guard_counters g)\<lparr>dc_forwarded := dc_forwarded (guard_counters g) + 1\<rparr>\<rparr>"

text \<open>The destinations of discovery, and the port each one has.\<close>

definition is_discovery :: "32 word \<Rightarrow> bool" where
  "is_discovery destination \<longleftrightarrow> destination = 0xe00000fb \<or> destination = 0xe00000fc \<or> destination = 0xeffffffa"

definition discovery_port :: "32 word \<Rightarrow> 32 word" where
  "discovery_port destination = (if destination = 0xe00000fb then 5353 else if destination = 0xe00000fc then 5355 else 1900)"

definition well_formed_packet :: "bytes \<Rightarrow> bool" where
  "well_formed_packet packet \<longleftrightarrow> length packet \<ge> 20 \<and>
     \<not> (drop_bit 4 (packet ! 0) \<noteq> 4 \<or> header_length packet < 20 \<or> header_length packet > length packet \<or>
        unat (ip_get packet 2 2) \<noteq> length packet \<or> packet ! 8 = 0)"

definition well_formed_discovery :: "bytes \<Rightarrow> bool" where
  "well_formed_discovery packet \<longleftrightarrow> (let destination = ip_get packet 16 4; header = header_length packet in
     \<not> (packet ! 9 \<noteq> 17 \<or> ip_get packet 6 2 AND 0x3fff \<noteq> 0 \<or> length packet - header < 8 \<or>
        ip_get packet (header + 2) 2 \<noteq> discovery_port destination \<or> unat (ip_get packet (header + 4) 2) \<noteq> length packet - header \<or>
        (destination = 0xe00000fb \<and> packet ! 8 \<noteq> 255)))"

text \<open>The tokens at an instant, and the digests that are not yet forgotten.\<close>

definition refill_guard :: "int \<Rightarrow> LanDiscoveryGuard \<Rightarrow> LanDiscoveryGuard" where
  "refill_guard now g =
     (let g1 = (if \<not> guard_initialized g then g\<lparr>guard_updated := now, guard_initialized := True\<rparr> else g) in
      if now > guard_updated g1
      then g1\<lparr>guard_packets := min 32 (guard_packets g1 + seconds_between (guard_updated g1) now * 16),
        guard_bytes := min 65536 (guard_bytes g1 + seconds_between (guard_updated g1) now * 32768), guard_updated := now\<rparr>
      else g1)"

definition forget_digests :: "int \<Rightarrow> LanDiscoveryGuard \<Rightarrow> LanDiscoveryGuard" where
  "forget_digests now g = g\<lparr>guard_recent := filter (\<lambda>e. \<not> now - snd e \<ge> 100 * 1000000) (guard_recent g)\<rparr>"

definition keep_digest :: "bytes \<Rightarrow> int \<Rightarrow> LanDiscoveryGuard \<Rightarrow> LanDiscoveryGuard" where
  "keep_digest digest now g =
     (let entries = (if length (guard_recent g) = 128 then remove1 (oldest (guard_recent g)) (guard_recent g) else guard_recent g) in
      g\<lparr>guard_recent := (if digest \<in> fst ` set entries then entries else entries @ [(digest, now)])\<rparr>)"

text \<open>The token buckets, with the digest of a discovery packet.\<close>

definition charge_guard :: "bytes \<Rightarrow> bytes option \<Rightarrow> int \<Rightarrow> LanDiscoveryGuard \<Rightarrow> bool \<times> LanDiscoveryGuard" where
  "charge_guard packet digest now g =
     (if guard_packets g < 1 \<or> guard_bytes g < of_nat (length packet) then (False, count_limited g)
      else let paid = g\<lparr>guard_packets := guard_packets g - 1, guard_bytes := guard_bytes g - of_nat (length packet)\<rparr> in
        (True, count_forwarded (case digest of None \<Rightarrow> paid | Some d \<Rightarrow> keep_digest d now paid)))"

definition permit :: "Sha256 \<Rightarrow> bytes \<Rightarrow> int \<Rightarrow> LanDiscoveryGuard \<Rightarrow> bool \<times> LanDiscoveryGuard" where
  "permit sha packet now g =
     (if \<not> well_formed_packet packet then (False, count_invalid g)
      else if is_discovery (ip_get packet 16 4) \<and> \<not> well_formed_discovery packet then (False, count_invalid g)
      else let g1 = forget_digests now (refill_guard now g) in
      if is_discovery (ip_get packet 16 4)
      then case sha packet of
          None \<Rightarrow> (False, count_invalid g1)
        | Some digest \<Rightarrow>
            if digest \<in> fst ` set (guard_recent g1) then (False, count_duplicate g1)
            else charge_guard packet (Some digest) now g1
      else charge_guard packet None now g1)"

section \<open>How much passes\<close>

text \<open>What a bucket of the guard holds at an instant, given its burst and its rate.\<close>

definition guard_level :: "(LanDiscoveryGuard \<Rightarrow> rat) \<Rightarrow> rat \<Rightarrow> rat \<Rightarrow> LanDiscoveryGuard \<Rightarrow> int \<Rightarrow> rat" where
  "guard_level field burst rate g t = (if \<not> guard_initialized g \<or> t \<le> guard_updated g then field g
     else min burst (field g + seconds_between (guard_updated g) t * rate))"

definition guard_good :: "LanDiscoveryGuard \<Rightarrow> int \<Rightarrow> bool" where
  "guard_good g t \<longleftrightarrow> 0 \<le> guard_packets g \<and> guard_packets g \<le> 32 \<and> 0 \<le> guard_bytes g \<and> guard_bytes g \<le> 65536 \<and>
     (guard_initialized g \<longrightarrow> guard_updated g \<le> t)"

lemma counting_keeps [simp]:
  "guard_packets (count_invalid g) = guard_packets g" "guard_bytes (count_invalid g) = guard_bytes g"
  "guard_packets (count_duplicate g) = guard_packets g" "guard_bytes (count_duplicate g) = guard_bytes g"
  "guard_packets (count_limited g) = guard_packets g" "guard_bytes (count_limited g) = guard_bytes g"
  "guard_packets (count_forwarded g) = guard_packets g" "guard_bytes (count_forwarded g) = guard_bytes g"
  "guard_initialized (count_invalid g) = guard_initialized g" "guard_updated (count_invalid g) = guard_updated g"
  "guard_initialized (count_duplicate g) = guard_initialized g" "guard_updated (count_duplicate g) = guard_updated g"
  "guard_initialized (count_limited g) = guard_initialized g" "guard_updated (count_limited g) = guard_updated g"
  "guard_initialized (count_forwarded g) = guard_initialized g" "guard_updated (count_forwarded g) = guard_updated g"
  "guard_packets (keep_digest d now g) = guard_packets g" "guard_bytes (keep_digest d now g) = guard_bytes g"
  "guard_initialized (keep_digest d now g) = guard_initialized g" "guard_updated (keep_digest d now g) = guard_updated g"
  "guard_packets (forget_digests now g) = guard_packets g" "guard_bytes (forget_digests now g) = guard_bytes g"
  "guard_initialized (forget_digests now g) = guard_initialized g" "guard_updated (forget_digests now g) = guard_updated g"
  by (simp_all add: count_invalid_def count_duplicate_def count_limited_def count_forwarded_def keep_digest_def forget_digests_def Let_def)

lemma refill_guard_level:
  "guard_packets (refill_guard now g) = guard_level guard_packets 32 16 g now"
  "guard_bytes (refill_guard now g) = guard_level guard_bytes 65536 32768 g now"
  "guard_initialized (refill_guard now g)"
  "guard_updated (refill_guard now g) = (if guard_initialized g then max (guard_updated g) now else now)"
  by (auto simp: refill_guard_def guard_level_def Let_def)

text \<open>A call either leaves the buckets alone, or refills them and pays for the packet when it passes.\<close>

lemma permit_cases:
  assumes "permit sha packet now g = (ok, g')"
  shows "(\<not> ok \<and> guard_packets g' = guard_packets g \<and> guard_bytes g' = guard_bytes g \<and> guard_initialized g' = guard_initialized g \<and>
      guard_updated g' = guard_updated g) \<or>
    (guard_initialized g' \<and> guard_updated g' = (if guard_initialized g then max (guard_updated g) now else now) \<and>
     guard_packets g' = guard_level guard_packets 32 16 g now - (if ok then 1 else 0) \<and>
     guard_bytes g' = guard_level guard_bytes 65536 32768 g now - (if ok then of_nat (length packet) else 0) \<and>
     (ok \<longrightarrow> 1 \<le> guard_level guard_packets 32 16 g now \<and> of_nat (length packet) \<le> guard_level guard_bytes 65536 32768 g now))"
proof -
  have charged: "charge_guard packet digest now (forget_digests now (refill_guard now g)) = (ok, g') \<Longrightarrow> ?thesis" for digest
    by (auto simp: charge_guard_def Let_def refill_guard_level split: if_splits option.splits)
  show ?thesis
    using assms charged by (auto simp: permit_def Let_def refill_guard_level split: if_splits option.splits)
qed

lemma guard_level_bounds:
  assumes "guard_good g t" and "t \<le> now"
  shows "0 \<le> guard_level guard_packets 32 16 g now" "guard_level guard_packets 32 16 g now \<le> 32"
    "0 \<le> guard_level guard_bytes 65536 32768 g now" "guard_level guard_bytes 65536 32768 g now \<le> 65536"
  using assms seconds_between_nonneg [of "guard_updated g" now] by (auto simp: guard_level_def guard_good_def)

lemma guard_level_drift:
  assumes "guard_good g t" and "t \<le> t'" and "field g \<le> burst" and "0 \<le> rate"
  shows "guard_level field burst rate g t' \<le> guard_level field burst rate g t + seconds_between t t' * rate"
proof (cases "guard_initialized g")
  case True
  have level: "guard_level field burst rate g v = min burst (field g + seconds_between (guard_updated g) v * rate)" if "t \<le> v" for v
    using assms(1,3) that True by (cases "v = guard_updated g") (auto simp: guard_level_def guard_good_def seconds_between_def)
  have split: "seconds_between (guard_updated g) t' * rate = seconds_between (guard_updated g) t * rate + seconds_between t t' * rate"
    by (simp add: seconds_between_def diff_divide_distrib algebra_simps)
  have "0 \<le> seconds_between t t' * rate" using assms by (simp add: seconds_between_nonneg)
  then show ?thesis using level [of t] level [OF assms(2)] by (auto simp: split min_def)
next
  case False
  then show ?thesis using assms by (simp add: guard_level_def seconds_between_nonneg)
qed

lemmas guard_drift = guard_level_drift [where field = guard_packets and burst = 32 and rate = 16]
  guard_level_drift [where field = guard_bytes and burst = 65536 and rate = 32768]

text \<open>Both buckets keep the contract of a token bucket.\<close>

type_synonym GuardCall = "bytes \<times> int"

definition guard_run :: "Sha256 \<Rightarrow> GuardCall \<Rightarrow> LanDiscoveryGuard \<Rightarrow> bool \<times> LanDiscoveryGuard" where
  "guard_run sha call g = permit sha (fst call) (snd call) g"

lemma guard_step:
  assumes good: "guard_good g t" and le: "t \<le> now" and run: "permit sha packet now g = (ok, g')"
  shows "guard_good g' now"
    and "guard_level guard_packets 32 16 g' now + (if ok then 1 else 0) \<le> guard_level guard_packets 32 16 g now"
    and "guard_level guard_bytes 65536 32768 g' now + (if ok then of_nat (length packet) else 0) \<le> guard_level guard_bytes 65536 32768 g now"
proof -
  note bounds = guard_level_bounds [OF good le]
  have "guard_good g' now \<and> guard_level guard_packets 32 16 g' now + (if ok then 1 else 0) \<le> guard_level guard_packets 32 16 g now \<and>
      guard_level guard_bytes 65536 32768 g' now + (if ok then of_nat (length packet) else 0) \<le> guard_level guard_bytes 65536 32768 g now"
    using permit_cases [OF run]
  proof (elim disjE conjE)
    assume "\<not> ok" "guard_packets g' = guard_packets g" "guard_bytes g' = guard_bytes g" "guard_initialized g' = guard_initialized g"
      "guard_updated g' = guard_updated g"
    then show ?thesis using good le by (auto simp: guard_good_def guard_level_def)
  next
    assume after: "guard_initialized g'" "guard_updated g' = (if guard_initialized g then max (guard_updated g) now else now)"
      "guard_packets g' = guard_level guard_packets 32 16 g now - (if ok then 1 else 0)"
      "guard_bytes g' = guard_level guard_bytes 65536 32768 g now - (if ok then of_nat (length packet) else 0)"
      "ok \<longrightarrow> 1 \<le> guard_level guard_packets 32 16 g now \<and> of_nat (length packet) \<le> guard_level guard_bytes 65536 32768 g now"
    have now: "guard_updated g' = now" using after(2) good le by (auto simp: guard_good_def)
    have level: "guard_level field burst rate g' now = field g'" for field burst rate by (simp add: guard_level_def now)
    show ?thesis
      unfolding level guard_good_def using after(3-5) bounds now by (cases ok) simp_all
  qed
  then show "guard_good g' now"
    "guard_level guard_packets 32 16 g' now + (if ok then 1 else 0) \<le> guard_level guard_packets 32 16 g now"
    "guard_level guard_bytes 65536 32768 g' now + (if ok then of_nat (length packet) else 0) \<le> guard_level guard_bytes 65536 32768 g now"
    by blast+
qed

interpretation discovery_packets: rate_limiter guard_good "guard_level guard_packets 32 16" "guard_run sha" snd "\<lambda>_. 1" 16 for sha
proof
  fix q q' t op ok
  assume "guard_good q t" "t \<le> snd op" "guard_run sha op q = (ok, q')"
  then show "guard_good q' (snd op) \<and> guard_level guard_packets 32 16 q' (snd op) + (if ok then 1 else 0) \<le> guard_level guard_packets 32 16 q (snd op)"
    unfolding guard_run_def using guard_step(1,2) by blast
next
  fix q t t'
  assume "guard_good q t" "t \<le> t'"
  then show "guard_level guard_packets 32 16 q t' \<le> guard_level guard_packets 32 16 q t + seconds_between t t' * 16"
    by (rule guard_drift(1)) (use \<open>guard_good q t\<close> in \<open>simp_all add: guard_good_def\<close>)
qed (rule guard_level_bounds(1), auto)

interpretation discovery_bytes: rate_limiter guard_good "guard_level guard_bytes 65536 32768" "guard_run sha" snd "\<lambda>c. of_nat (length (fst c))" 32768 for sha
proof
  fix q q' t op ok
  assume "guard_good q t" "t \<le> snd op" "guard_run sha op q = (ok, q')"
  then show "guard_good q' (snd op) \<and>
      guard_level guard_bytes 65536 32768 q' (snd op) + (if ok then of_nat (length (fst op)) else 0) \<le> guard_level guard_bytes 65536 32768 q (snd op)"
    unfolding guard_run_def using guard_step(1,3) by blast
next
  fix q t t'
  assume "guard_good q t" "t \<le> t'"
  then show "guard_level guard_bytes 65536 32768 q t' \<le> guard_level guard_bytes 65536 32768 q t + seconds_between t t' * 32768"
    by (rule guard_drift(2)) (use \<open>guard_good q t\<close> in \<open>simp_all add: guard_good_def\<close>)
qed (rule guard_level_bounds(3), auto)

lemma discovery_bounded:
  assumes "sorted (t # map snd calls)"
  shows "spent (guard_run sha) (\<lambda>_. 1) calls new_guard \<le> 32 + seconds_between t (last (t # map snd calls)) * 16"
    and "spent (guard_run sha) (\<lambda>c. of_nat (length (fst c))) calls new_guard \<le> 65536 + seconds_between t (last (t # map snd calls)) * 32768"
proof -
  have start: "guard_good new_guard t" "guard_level guard_packets 32 16 new_guard t = 32" "guard_level guard_bytes 65536 32768 new_guard t = 65536"
    by (simp_all add: guard_good_def new_guard_def guard_level_def)
  show "spent (guard_run sha) (\<lambda>_. 1) calls new_guard \<le> 32 + seconds_between t (last (t # map snd calls)) * 16"
    using discovery_packets.spent_bound [OF start(1) assms, of sha] start(2) by simp
  show "spent (guard_run sha) (\<lambda>c. of_nat (length (fst c))) calls new_guard \<le> 65536 + seconds_between t (last (t # map snd calls)) * 32768"
    using discovery_bytes.spent_bound [OF start(1) assms, of sha] start(3) by simp
qed

text \<open>A discovery packet that has passed does not pass again within 100 ms.\<close>

lemma discovery_not_repeated:
  assumes "permit sha packet now g = (True, g')" and "is_discovery (ip_get packet 16 4)" and "later - now < 100 * 1000000"
  shows "\<not> fst (permit sha packet later g')"
proof -
  obtain digest where digest: "sha packet = Some digest" and wf: "well_formed_packet packet" "well_formed_discovery packet"
    and charged: "charge_guard packet (Some digest) now (forget_digests now (refill_guard now g)) = (True, g')"
    using assms(1,2) by (auto simp: permit_def Let_def split: if_splits option.splits)
  have new: "digest \<notin> fst ` set (guard_recent (forget_digests now (refill_guard now g)))"
    using assms(1,2) wf digest by (auto simp: permit_def Let_def split: if_splits)
  have "(digest, now) \<in> set (guard_recent g')"
    using charged new notin_set_remove1 [of "(digest, _)"]
    by (auto simp: charge_guard_def keep_digest_def count_forwarded_def Let_def image_iff dest!: set_mp [OF set_remove1_subset] split: if_splits)
  moreover have "guard_recent (refill_guard later g') = guard_recent g'" by (simp add: refill_guard_def Let_def)
  ultimately have "digest \<in> fst ` set (guard_recent (forget_digests later (refill_guard later g')))"
    using assms(3) by (force simp: forget_digests_def)
  then show ?thesis using assms(2) wf digest by (simp add: permit_def Let_def)
qed

end
