(* ===== verification/Packet_Bridge.thy ===== *)
theory Packet_Bridge
  imports Lan_Discovery Packet_Crypto Tunnels Local_Control
begin

text \<open>
  \<open>transport/packet_bridge.cpp\<close>: \<open>VirtualPacketBridge\<close>, between the virtual adapter of a client and the
  encrypted packets of its networks. A call of the send or inject handler is an event; the handlers
  are parameters and may raise, as the sending one does when no path is available. \<open>SHA256\<close>, the
  cipher and the random draws are parameters; the instants that one call reads from the clock are
  one instant, and a call is one step, as the data it uses is behind a mutex. The map of the sessions
  is an association list in the order of the network ids. A session that is kept across a
  synchronization is one object in both maps: what happens to it before an error stays.
\<close>

section \<open>State\<close>

record Session =
  ses_peers :: NetworkPeerState
  ses_key :: NetworkKeySnapshot
  ses_signed_key :: SignedDeviceKey
  ses_device :: DeviceId
  ses_cipher :: NetworkPacketCipher
  ses_multicast :: MulticastMembership
  ses_outbound :: LanDiscoveryGuard
  ses_inbound :: "(DeviceId \<times> LanDiscoveryGuard) list"
  ses_injected :: PacketHistory
  ses_reflected :: "64 word"

record VirtualPacketBridge =
  br_sessions :: "(NetworkId \<times> Session) list"
  br_accept_routes :: bool
  br_forward :: bool
  br_mtu :: "16 word"

datatype BridgeEvent = Sent EncryptedNetworkPacket | Injected bytes

record BridgeHandlers =
  on_send :: "EncryptedNetworkPacket \<Rightarrow> unit res"
  on_inject :: "bytes \<Rightarrow> unit res"

definition new_bridge :: VirtualPacketBridge where
  "new_bridge = \<lparr>br_sessions = [], br_accept_routes = False, br_forward = False, br_mtu = 65535\<rparr>"

section \<open>Synchronization\<close>

text \<open>The first loop: every own address is a host, and no two networks have an id or addresses in common.\<close>

fun check_networks :: "NetworkPeerState list \<Rightarrow> ActiveNetworkPacketState list \<Rightarrow> unit res" where
  "check_networks previous [] = Inr ()"
| "check_networks previous (n # rest) =
     (let s = active_peers n in
      if \<not> is_ipv4_host (state_own s) (state_subnet s) (state_prefix s)
      then Inl (Invalid_argument ''virtual network address is not a subnet host'')
      else if list_ex (\<lambda>q. state_network s = state_network q \<or>
           state_subnet s AND prefix_mask (min (state_prefix s) (state_prefix q)) =
           state_subnet q AND prefix_mask (min (state_prefix s) (state_prefix q))) previous
      then Inl (Invalid_argument ''virtual network subnets overlap'')
      else check_networks (previous @ [s]) rest)"

definition network_state_ok :: "ActiveNetworkPacketState \<Rightarrow> bool" where
  "network_state_ok n \<longleftrightarrow> (let s = active_peers n in
     \<not> (state_epoch s = 0 \<or> state_epoch s \<noteq> snapshot_epoch (active_key n) \<or> state_own s = 0 \<or> state_prefix s = 0 \<or> state_prefix s > 30 \<or>
        state_own s AND prefix_mask (state_prefix s) \<noteq> state_subnet s))"

definition same_session :: "PacketIdentitySnapshot \<Rightarrow> ActiveNetworkPacketState \<Rightarrow> Session \<Rightarrow> bool" where
  "same_session identity n s \<longleftrightarrow> ses_key s = active_key n \<and> state_own (ses_peers s) = state_own (active_peers n) \<and>
     ses_signed_key s = snapshot_signed_key identity"

definition reusable_session :: "PacketIdentitySnapshot \<Rightarrow> ActiveNetworkPacketState \<Rightarrow> (NetworkId \<times> Session) list \<Rightarrow> Session option" where
  "reusable_session identity n sessions =
     (case map_of sessions (state_network (active_peers n)) of
        None \<Rightarrow> None
      | Some old \<Rightarrow> if same_session identity n old then Some old else None)"

definition refresh_session :: "Crypto \<Rightarrow> CipherSuite \<Rightarrow> NetworkPeerState \<Rightarrow> Session \<Rightarrow> unit res \<times> Session" where
  "refresh_session c suite state s =
     (if ses_peers s = state then (Inr (), s)
      else case update_peers c suite state (ses_cipher s) of
        (Inl e, cipher) \<Rightarrow> (Inl e, s\<lparr>ses_cipher := cipher\<rparr>)
      | (Inr _, cipher) \<Rightarrow> (Inr (), s\<lparr>ses_cipher := cipher, ses_peers := state,
          ses_inbound := filter (\<lambda>e. list_ex (\<lambda>p. peer_device p = fst e) (state_peers state)) (ses_inbound s)\<rparr>))"

definition new_session :: "Crypto \<Rightarrow> CipherSuite \<Rightarrow> nat \<Rightarrow> PacketIdentitySnapshot \<Rightarrow> ActiveNetworkPacketState \<Rightarrow> Session res" where
  "new_session c suite draw identity n =
     (let state = active_peers n in
      res_bind (new_cipher c suite draw (state_network state) (state_epoch state) (snapshot_key (active_key n)) (snapshot_device identity)
        (snapshot_signed_key identity) (state_own state)) (\<lambda>cipher.
      case update_peers c suite state cipher of
        (Inl e, _) \<Rightarrow> Inl e
      | (Inr _, cipher') \<Rightarrow> Inr \<lparr>ses_peers = state, ses_key = active_key n, ses_signed_key = snapshot_signed_key identity,
          ses_device = snapshot_device identity, ses_cipher = cipher', ses_multicast = new_membership, ses_outbound = new_guard,
          ses_inbound = [], ses_injected = \<lparr>recent = []\<rparr>, ses_reflected = 0\<rparr>))"

text \<open>\<open>emplace\<close> on the ordered map: an entry that is there is kept.\<close>

definition emplace_session :: "NetworkId \<Rightarrow> Session \<Rightarrow> (NetworkId \<times> Session) list \<Rightarrow> (NetworkId \<times> Session) list" where
  "emplace_session n s m = (if n \<in> fst ` set m then m else insort_key fst (n, s) m)"

fun sync_loop :: "Crypto \<Rightarrow> CipherSuite \<Rightarrow> nat \<Rightarrow> PacketIdentitySnapshot \<Rightarrow> ActiveNetworkPacketState list \<Rightarrow> (NetworkId \<times> Session) list \<Rightarrow>
    (NetworkId \<times> Session) list \<Rightarrow> unit res \<times> (NetworkId \<times> Session) list \<times> (NetworkId \<times> Session) list" where
  "sync_loop c suite draw identity [] sessions updated = (Inr (), sessions, updated)"
| "sync_loop c suite draw identity (n # rest) sessions updated =
     (let i = state_network (active_peers n) in
      if \<not> network_state_ok n then (Inl (Invalid_argument ''virtual packet bridge has invalid network state''), sessions, updated)
      else case reusable_session identity n sessions of
        Some old \<Rightarrow>
          (case refresh_session c suite (active_peers n) old of
             (Inl e, s) \<Rightarrow> (Inl e, upsert_row i s sessions, updated)
           | (Inr _, s) \<Rightarrow> sync_loop c suite draw identity rest (upsert_row i s sessions) (emplace_session i s updated))
      | None \<Rightarrow>
          (case new_session c suite draw identity n of
             Inl e \<Rightarrow> (Inl e, sessions, updated)
           | Inr s \<Rightarrow>
               if i \<in> fst ` set updated then (Inl (Invalid_argument ''duplicate virtual packet network''), sessions, updated)
               else sync_loop c suite (draw + 1) identity rest sessions (emplace_session i s updated)))"

definition synchronize_bridge :: "Crypto \<Rightarrow> CipherSuite \<Rightarrow> nat \<Rightarrow> PacketIdentitySnapshot option \<Rightarrow> ActiveNetworkPacketState list \<Rightarrow>
    VirtualPacketBridge \<Rightarrow> unit res \<times> VirtualPacketBridge" where
  "synchronize_bridge c suite draw identity networks b =
     (case identity of
        None \<Rightarrow> (Inr (), b\<lparr>br_sessions := []\<rparr>)
      | Some i \<Rightarrow>
          (case check_networks [] networks of
             Inl e \<Rightarrow> (Inl e, b)
           | Inr _ \<Rightarrow>
               (case sync_loop c suite draw i networks (br_sessions b) [] of
                  (Inl e, sessions, _) \<Rightarrow> (Inl e, b\<lparr>br_sessions := sessions\<rparr>)
                | (Inr _, _, updated) \<Rightarrow> (Inr (), b\<lparr>br_sessions := updated\<rparr>))))"

section \<open>Handlers\<close>

text \<open>Encrypting and sending packets one by one, each after \<open>wrap\<close>; an exception ends the loop.\<close>

fun send_fragments :: "BridgeHandlers \<Rightarrow> CipherSuite \<Rightarrow> (bytes \<Rightarrow> bytes res) \<Rightarrow> bytes list \<Rightarrow> NetworkPacketCipher \<Rightarrow>
    unit res \<times> BridgeEvent list \<times> NetworkPacketCipher" where
  "send_fragments handlers suite wrap [] cipher = (Inr (), [], cipher)"
| "send_fragments handlers suite wrap (f # rest) cipher =
     (case wrap f of
        Inl e \<Rightarrow> (Inl e, [], cipher)
      | Inr packet \<Rightarrow>
          (case encrypt suite packet cipher of
             (Inl e, c1) \<Rightarrow> (Inl e, [], c1)
           | (Inr p, c1) \<Rightarrow>
               (case on_send handlers p of
                  Inl e \<Rightarrow> (Inl e, [Sent p], c1)
                | Inr _ \<Rightarrow> (case send_fragments handlers suite wrap rest c1 of (r, events, c2) \<Rightarrow> (r, Sent p # events, c2)))))"

fun inject_fragments :: "BridgeHandlers \<Rightarrow> bool \<Rightarrow> bytes list \<Rightarrow> unit res \<times> BridgeEvent list" where
  "inject_fragments handlers ok [] = (Inr (), [])"
| "inject_fragments handlers ok (f # rest) =
     (if \<not> ok then (Inr (), [])
      else case on_inject handlers f of
        Inl e \<Rightarrow> (Inl e, [Injected f])
      | Inr _ \<Rightarrow> (case inject_fragments handlers ok rest of (r, events) \<Rightarrow> (r, Injected f # events)))"

text \<open>The ICMP message for a packet that is too long and must not be fragmented.\<close>

definition inject_error :: "BridgeHandlers \<Rightarrow> bytes option res \<Rightarrow> unit res \<times> BridgeEvent list" where
  "inject_error handlers error =
     (case error of
        Inl e \<Rightarrow> (Inl e, [])
      | Inr None \<Rightarrow> (Inr (), [])
      | Inr (Some packet) \<Rightarrow> inject_fragments handlers True [packet])"

section \<open>Routed packets\<close>

text \<open>What a route says of a packet: nothing, that it is dropped, or the member it goes to.\<close>

datatype RouteVerdict = Route_skip | Route_drop | Route_to "32 word"

definition route_to :: "32 word \<Rightarrow> RouteVerdict" where
  "route_to destination = (if destination = 0 then Route_skip else Route_to destination)"

definition route_verdict :: "VirtualPacketBridge \<Rightarrow> Session \<Rightarrow> NetworkPolicy \<Rightarrow> Ipv4Header \<Rightarrow> RoutedSubnet \<Rightarrow> RouteVerdict" where
  "route_verdict b s policy h route =
     (let p = ses_peers s in
      if ip_source h = state_own p \<and> subnet_contains (route_address route) (route_prefix route) (ip_destination h)
      then if \<not> br_accept_routes b \<or> \<not> route_allows policy route (ses_device s) then Route_drop
        else (case find (\<lambda>v. peer_device v = route_gateway route \<and> peer_key v \<noteq> None) (state_peers p) of
            None \<Rightarrow> Route_drop
          | Some peer \<Rightarrow> route_to (peer_address peer))
      else if route_gateway route = ses_device s \<and> subnet_contains (route_address route) (route_prefix route) (ip_source h)
      then (case find (\<lambda>v. peer_address v = ip_destination h \<and> peer_key v \<noteq> None) (state_peers p) of
            None \<Rightarrow> Route_drop
          | Some peer \<Rightarrow> if \<not> br_forward b \<or> \<not> route_allows policy route (peer_device peer) then Route_drop else route_to (peer_address peer))
      else Route_skip)"

fun first_route :: "VirtualPacketBridge \<Rightarrow> Session \<Rightarrow> NetworkPolicy \<Rightarrow> Ipv4Header \<Rightarrow> RoutedSubnet list \<Rightarrow> RouteVerdict" where
  "first_route b s policy h [] = Route_skip"
| "first_route b s policy h (route # rest) =
     (case route_verdict b s policy h route of Route_skip \<Rightarrow> first_route b s policy h rest | verdict \<Rightarrow> verdict)"

text \<open>The loop over the sessions: the first whose routes say something of the packet.\<close>

fun routed_session :: "VirtualPacketBridge \<Rightarrow> Ipv4Header \<Rightarrow> (NetworkId \<times> Session) list \<Rightarrow> (NetworkId \<times> Session \<times> 32 word option) option" where
  "routed_session b h [] = None"
| "routed_session b h ((n, s) # rest) =
     (case state_policy (ses_peers s) of
        None \<Rightarrow> routed_session b h rest
      | Some policy \<Rightarrow>
          (case first_route b s policy h (routes policy) of
             Route_skip \<Rightarrow> routed_session b h rest
           | Route_drop \<Rightarrow> Some (n, s, None)
           | Route_to destination \<Rightarrow> Some (n, s, Some destination)))"

definition send_routed :: "BridgeHandlers \<Rightarrow> CipherSuite \<Rightarrow> 16 word \<Rightarrow> bytes \<Rightarrow> Ipv4Header \<Rightarrow> 32 word \<Rightarrow> Session \<Rightarrow>
    unit res \<times> BridgeEvent list \<times> Session" where
  "send_routed handlers suite mtu packet h destination s =
     (let own = state_own (ses_peers s); inner_mtu = min mtu 65515 in
      case safe_routed_ipv4 packet of
        Inl e \<Rightarrow> (Inl e, [], s)
      | Inr safe \<Rightarrow>
          if \<not> safe then (Inr (), [], s)
          else if length packet > unat inner_mtu \<and> ip_dont_fragment h
          then if ip_source h = own
            then (case inject_error handlers (ipv4_fragmentation_needed packet own inner_mtu) of (r, events) \<Rightarrow> (r, events, s))
            else (Inr (), [], s)
          else (case fragment_ipv4 packet inner_mtu of
              Inl e \<Rightarrow> (Inl e, [], s)
            | Inr fragments \<Rightarrow>
                (case send_fragments handlers suite (\<lambda>f. encapsulate_routed_ipv4 f own destination) fragments (ses_cipher s) of
                   (r, events, cipher) \<Rightarrow> (r, events, s\<lparr>ses_cipher := cipher\<rparr>))))"

definition outbound_routed :: "BridgeHandlers \<Rightarrow> CipherSuite \<Rightarrow> bytes \<Rightarrow> VirtualPacketBridge \<Rightarrow> bool res \<times> BridgeEvent list \<times> VirtualPacketBridge" where
  "outbound_routed handlers suite packet b =
     (case inspect_ipv4 packet of
        Inl e \<Rightarrow> (Inl e, [], b)
      | Inr h \<Rightarrow>
          (case routed_session b h (br_sessions b) of
             None \<Rightarrow> (Inr False, [], b)
           | Some (n, s, None) \<Rightarrow> (Inr True, [], b)
           | Some (n, s, Some destination) \<Rightarrow>
               (case send_routed handlers suite (br_mtu b) packet h destination s of
                  (r, events, s') \<Rightarrow> (res_bind r (\<lambda>_. Inr True), events, b\<lparr>br_sessions := upsert_row n s' (br_sessions b)\<rparr>))))"

text \<open>A routed packet from a member: a request for a subnet behind this gateway, or a reply from one.\<close>

definition routed_request :: "VirtualPacketBridge \<Rightarrow> Session \<Rightarrow> NetworkPolicy \<Rightarrow> DeviceId \<Rightarrow> NetworkPeer \<Rightarrow> Ipv4Header \<Rightarrow> RoutedSubnet \<Rightarrow> bool" where
  "routed_request b s policy sender peer h route \<longleftrightarrow> br_forward b \<and> route_gateway route = ses_device s \<and> ip_source h = peer_address peer \<and>
     is_ipv4_host (ip_destination h) (route_address route) (route_prefix route) \<and> route_allows policy route sender"

definition routed_reply :: "VirtualPacketBridge \<Rightarrow> Session \<Rightarrow> NetworkPolicy \<Rightarrow> DeviceId \<Rightarrow> Ipv4Header \<Rightarrow> RoutedSubnet \<Rightarrow> bool" where
  "routed_reply b s policy sender h route \<longleftrightarrow> br_accept_routes b \<and> route_gateway route = sender \<and> ip_destination h = state_own (ses_peers s) \<and>
     is_ipv4_host (ip_source h) (route_address route) (route_prefix route) \<and> route_allows policy route (ses_device s)"

definition inbound_routed :: "BridgeHandlers \<Rightarrow> ForwardedNetworkPacket \<Rightarrow> bytes \<Rightarrow> VirtualPacketBridge \<Rightarrow> bool res \<times> BridgeEvent list" where
  "inbound_routed handlers delivery outer b =
     (let sender = forwarded_sender delivery; packet = forwarded_packet delivery in
      case res_bind (decapsulate_routed_ipv4 outer) (\<lambda>inner. res_bind (inspect_ipv4 inner) (\<lambda>h. Inr (inner, h))) of
        Inl e \<Rightarrow> (Inl e, [])
      | Inr (inner, h) \<Rightarrow>
          (case map_of (br_sessions b) (packet_network packet) of
             None \<Rightarrow> (Inr False, [])
           | Some s \<Rightarrow>
               (case state_policy (ses_peers s) of
                  None \<Rightarrow> (Inr False, [])
                | Some policy \<Rightarrow>
                    if state_epoch (ses_peers s) \<noteq> packet_epoch packet then (Inr False, [])
                    else (case safe_routed_ipv4 inner of
                        Inl e \<Rightarrow> (Inl e, [])
                      | Inr safe \<Rightarrow>
                          if \<not> safe then (Inr False, [])
                          else (case find (\<lambda>v. peer_device v = sender \<and> peer_key v \<noteq> None) (state_peers (ses_peers s)) of
                              None \<Rightarrow> (Inr False, [])
                            | Some peer \<Rightarrow>
                                if \<not> policy_allows policy (ses_device s) sender then (Inr False, [])
                                else if list_ex (\<lambda>route. routed_request b s policy sender peer h route \<or> routed_reply b s policy sender h route) (routes policy)
                                then (case fragment_ipv4 inner (br_mtu b) of
                                    Inl e \<Rightarrow> (Inl e, [])
                                  | Inr fragments \<Rightarrow> (case inject_fragments handlers True fragments of (r, events) \<Rightarrow> (res_bind r (\<lambda>_. Inr True), events)))
                                else (Inr False, []))))))"

section \<open>Packets of the adapter\<close>

text \<open>The loop of \<open>outbound\<close> over the sessions: nothing found, the packet is dropped, an exception, or the session to use.\<close>

datatype ScanResult = Scan_none | Scan_return | Scan_raise exn | Scan_use NetworkId Session

definition to_everyone :: "Session \<Rightarrow> 32 word \<Rightarrow> bool" where
  "to_everyone s destination \<longleftrightarrow> is_ipv4_fanout_destination destination (state_subnet (ses_peers s)) (state_prefix (ses_peers s))"

text \<open>The body behind the test that the packet belongs to the session: whether to go on.\<close>

definition outbound_checks :: "Sha256 \<Rightarrow> 16 word \<Rightarrow> bytes \<Rightarrow> int \<Rightarrow> Session \<Rightarrow> bool \<times> Session" where
  "outbound_checks sha mtu packet now s =
     (case observe packet now (ses_multicast s) of
        (report, membership) \<Rightarrow>
          let s1 = s\<lparr>ses_multicast := membership\<rparr>; everyone = to_everyone s (read_ipv4 packet 16) in
          if report \<noteq> Not_igmp then (False, s1)
          else if everyone \<and> length packet > unat (min mtu 1400) then (False, s1)
          else if everyone then (case permit sha packet now (ses_outbound s1) of (ok, g) \<Rightarrow> (ok, s1\<lparr>ses_outbound := g\<rparr>))
          else (True, s1))"

definition own_packet :: "bytes \<Rightarrow> Session \<Rightarrow> bool" where
  "own_packet packet s \<longleftrightarrow> read_ipv4 packet 12 = state_own (ses_peers s) \<and>
     (packet ! 9 = 2 \<or> read_ipv4 packet 16 AND prefix_mask (state_prefix (ses_peers s)) = state_subnet (ses_peers s) \<or>
      to_everyone s (read_ipv4 packet 16))"

definition reflection :: "Sha256 \<Rightarrow> bytes \<Rightarrow> int \<Rightarrow> Session \<Rightarrow> bool res \<times> Session" where
  "reflection sha packet now s =
     (if to_everyone s (read_ipv4 packet 16)
      then (case contains sha packet now (ses_injected s) of (r, history) \<Rightarrow> (r, s\<lparr>ses_injected := history\<rparr>))
      else (Inr False, s))"

fun scan_sessions :: "Sha256 \<Rightarrow> 16 word \<Rightarrow> bytes \<Rightarrow> int \<Rightarrow> (NetworkId \<times> Session) list \<Rightarrow> ScanResult \<times> (NetworkId \<times> Session) list" where
  "scan_sessions sha mtu packet now [] = (Scan_none, [])"
| "scan_sessions sha mtu packet now ((n, s) # rest) =
     (case reflection sha packet now s of
        (Inl e, s1) \<Rightarrow> (Scan_raise e, (n, s1) # rest)
      | (Inr True, s1) \<Rightarrow> (Scan_return, (n, s1\<lparr>ses_reflected := ses_reflected s1 + 1\<rparr>) # rest)
      | (Inr False, s1) \<Rightarrow>
          if own_packet packet s1
          then (case outbound_checks sha mtu packet now s1 of
              (ok, s2) \<Rightarrow> (if ok then Scan_use n s2 else Scan_return, (n, s2) # rest))
          else (case scan_sessions sha mtu packet now rest of (r, rest') \<Rightarrow> (r, (n, s1) # rest')))"

definition send_packet :: "BridgeHandlers \<Rightarrow> CipherSuite \<Rightarrow> 16 word \<Rightarrow> bytes \<Rightarrow> Ipv4Header \<Rightarrow> Session \<Rightarrow> unit res \<times> BridgeEvent list \<times> Session" where
  "send_packet handlers suite mtu packet h s =
     (if length packet > unat mtu \<and> ip_dont_fragment h
      then (case inject_error handlers (ipv4_fragmentation_needed packet (read_ipv4 packet 12) mtu) of (r, events) \<Rightarrow> (r, events, s))
      else (case fragment_ipv4 packet mtu of
          Inl e \<Rightarrow> (Inl e, [], s)
        | Inr fragments \<Rightarrow>
            (case send_fragments handlers suite Inr fragments (ses_cipher s) of
               (r, events, cipher) \<Rightarrow> (r, events, s\<lparr>ses_cipher := cipher\<rparr>))))"

definition outbound_local :: "BridgeHandlers \<Rightarrow> CipherSuite \<Rightarrow> Sha256 \<Rightarrow> bytes \<Rightarrow> int \<Rightarrow> VirtualPacketBridge \<Rightarrow>
    unit res \<times> BridgeEvent list \<times> VirtualPacketBridge" where
  "outbound_local handlers suite sha packet now b =
     (case inspect_ipv4 packet of
        Inl e \<Rightarrow> (Inl e, [], b)
      | Inr h \<Rightarrow>
          (case scan_sessions sha (br_mtu b) packet now (br_sessions b) of
             (Scan_none, sessions) \<Rightarrow> (Inr (), [], b\<lparr>br_sessions := sessions\<rparr>)
           | (Scan_return, sessions) \<Rightarrow> (Inr (), [], b\<lparr>br_sessions := sessions\<rparr>)
           | (Scan_raise e, sessions) \<Rightarrow> (Inl e, [], b\<lparr>br_sessions := sessions\<rparr>)
           | (Scan_use n s, sessions) \<Rightarrow>
               (case send_packet handlers suite (br_mtu b) packet h s of
                  (r, events, s') \<Rightarrow> (r, events, b\<lparr>br_sessions := upsert_row n s' sessions\<rparr>))))"

definition outbound :: "BridgeHandlers \<Rightarrow> CipherSuite \<Rightarrow> Sha256 \<Rightarrow> bytes \<Rightarrow> int \<Rightarrow> VirtualPacketBridge \<Rightarrow>
    unit res \<times> BridgeEvent list \<times> VirtualPacketBridge" where
  "outbound handlers suite sha packet now b =
     (if length packet < min_virtual_ipv4_packet_size then (Inr (), [], b)
      else case outbound_routed handlers suite packet b of
        (Inl e, events, b1) \<Rightarrow> (Inl e, events, b1)
      | (Inr True, events, b1) \<Rightarrow> (Inr (), events, b1)
      | (Inr False, events, b1) \<Rightarrow> (case outbound_local handlers suite sha packet now b1 of (r, events', b2) \<Rightarrow> (r, events @ events', b2)))"

section \<open>Packets of the members\<close>

text \<open>\<open>current\<close>, on the session the call has found: its sender is still one of the peers.\<close>

definition current_sender :: "DeviceId \<Rightarrow> NetworkPeerState \<Rightarrow> bool" where
  "current_sender sender p =
     (case find (\<lambda>peer. peer_device peer = sender) (state_peers p) of None \<Rightarrow> False | Some before \<Rightarrow> before \<in> set (state_peers p))"

definition guard_of :: "Session \<Rightarrow> DeviceId \<Rightarrow> LanDiscoveryGuard" where
  "guard_of s d = (case map_of (ses_inbound s) d of None \<Rightarrow> new_guard | Some g \<Rightarrow> g)"

text \<open>What a packet to everyone has to pass: whether it does, and the session with the guard and the history.\<close>

definition admit_fanout :: "Sha256 \<Rightarrow> 16 word \<Rightarrow> ForwardedNetworkPacket \<Rightarrow> bytes \<Rightarrow> int \<Rightarrow> Session \<Rightarrow> bool res \<times> Session" where
  "admit_fanout sha mtu delivery plaintext now s =
     (let sender = forwarded_sender delivery; destination = packet_destination (forwarded_packet delivery) in
      if \<not> current_sender sender (ses_peers s) then (Inr False, s)
      else if length plaintext > unat (min mtu 1400) then (Inr False, s)
      else if is_ipv4_multicast destination \<and> \<not> receives (ses_multicast s) destination (read_ipv4 plaintext 12) now then (Inr False, s)
      else (case permit sha plaintext now (guard_of s sender) of
          (ok, g) \<Rightarrow>
            let s1 = s\<lparr>ses_inbound := upsert_row sender g (ses_inbound s)\<rparr> in
            if \<not> ok then (Inr False, s1)
            else (case remember sha plaintext now (ses_injected s1) of
                (r, history) \<Rightarrow> (res_bind r (\<lambda>_. Inr True), s1\<lparr>ses_injected := history\<rparr>))))"

definition deliver_packet :: "BridgeHandlers \<Rightarrow> CipherSuite \<Rightarrow> 16 word \<Rightarrow> DeviceId \<Rightarrow> bytes \<Rightarrow> Ipv4Header \<Rightarrow> Session \<Rightarrow>
    unit res \<times> BridgeEvent list \<times> Session" where
  "deliver_packet handlers suite mtu sender plaintext h s =
     (if length plaintext > unat mtu \<and> ip_dont_fragment h
      then (case ipv4_fragmentation_needed plaintext (state_own (ses_peers s)) mtu of
          Inl e \<Rightarrow> (Inl e, [], s)
        | Inr None \<Rightarrow> (Inr (), [], s)
        | Inr (Some error) \<Rightarrow>
            (case send_fragments handlers suite Inr [error] (ses_cipher s) of (r, events, cipher) \<Rightarrow> (r, events, s\<lparr>ses_cipher := cipher\<rparr>)))
      else (case fragment_ipv4 plaintext mtu of
          Inl e \<Rightarrow> (Inl e, [], s)
        | Inr fragments \<Rightarrow>
            (case inject_fragments handlers (current_sender sender (ses_peers s)) fragments of (r, events) \<Rightarrow> (r, events, s))))"

definition inbound_local :: "BridgeHandlers \<Rightarrow> CipherSuite \<Rightarrow> Sha256 \<Rightarrow> 16 word \<Rightarrow> ForwardedNetworkPacket \<Rightarrow> bytes \<Rightarrow> int \<Rightarrow> Session \<Rightarrow>
    unit res \<times> BridgeEvent list \<times> Session" where
  "inbound_local handlers suite sha mtu delivery plaintext now s =
     (case inspect_ipv4 plaintext of
        Inl e \<Rightarrow> (Inl e, [], s)
      | Inr h \<Rightarrow>
          (case (if to_everyone s (packet_destination (forwarded_packet delivery)) then admit_fanout sha mtu delivery plaintext now s else (Inr True, s)) of
             (Inl e, s1) \<Rightarrow> (Inl e, [], s1)
           | (Inr False, s1) \<Rightarrow> (Inr (), [], s1)
           | (Inr True, s1) \<Rightarrow> deliver_packet handlers suite mtu (forwarded_sender delivery) plaintext h s1))"

definition inbound :: "BridgeHandlers \<Rightarrow> CipherSuite \<Rightarrow> Sha256 \<Rightarrow> ForwardedNetworkPacket \<Rightarrow> int \<Rightarrow> VirtualPacketBridge \<Rightarrow>
    unit res \<times> BridgeEvent list \<times> VirtualPacketBridge" where
  "inbound handlers suite sha delivery now b =
     (let n = packet_network (forwarded_packet delivery) in
      case map_of (br_sessions b) n of
        None \<Rightarrow> (Inr (), [], b)
      | Some s \<Rightarrow>
          (case decrypt suite (forwarded_packet delivery) (forwarded_sender delivery) (ses_cipher s) of
             (Inl e, cipher) \<Rightarrow> (Inl e, [], b\<lparr>br_sessions := upsert_row n (s\<lparr>ses_cipher := cipher\<rparr>) (br_sessions b)\<rparr>)
           | (Inr plaintext, cipher) \<Rightarrow>
               let s1 = s\<lparr>ses_cipher := cipher\<rparr>; b1 = b\<lparr>br_sessions := upsert_row n s1 (br_sessions b)\<rparr> in
               if plaintext ! 9 = 4 \<and> state_policy (ses_peers s) \<noteq> None
               then (case inbound_routed handlers delivery plaintext b1 of (r, events) \<Rightarrow> (res_bind r (\<lambda>_. Inr ()), events, b1))
               else (case inbound_local handlers suite sha (br_mtu b) delivery plaintext now s1 of
                   (r, events, s2) \<Rightarrow> (r, events, b1\<lparr>br_sessions := upsert_row n s2 (br_sessions b1)\<rparr>))))"

section \<open>Options and reports\<close>

definition set_routing_options :: "bool \<Rightarrow> bool \<Rightarrow> VirtualPacketBridge \<Rightarrow> VirtualPacketBridge" where
  "set_routing_options accept fwd b = b\<lparr>br_accept_routes := accept, br_forward := fwd\<rparr>"

definition set_mtu :: "16 word \<Rightarrow> VirtualPacketBridge \<Rightarrow> unit res \<times> VirtualPacketBridge" where
  "set_mtu mtu b = (if mtu < 68 then (Inl (Invalid_argument ''virtual MTU is below 68''), b) else (Inr (), b\<lparr>br_mtu := mtu\<rparr>))"

definition clear_bridge :: "VirtualPacketBridge \<Rightarrow> VirtualPacketBridge" where
  "clear_bridge b = b\<lparr>br_sessions := []\<rparr>"

definition synchronize_multicast :: "32 word list option \<Rightarrow> VirtualPacketBridge \<Rightarrow> VirtualPacketBridge" where
  "synchronize_multicast host b =
     b\<lparr>br_sessions := map (\<lambda>(n, s). (n, s\<lparr>ses_multicast := synchronize host (ses_multicast s)\<rparr>)) (br_sessions b)\<rparr>"

definition reflected_packets :: "VirtualPacketBridge \<Rightarrow> 64 word" where
  "reflected_packets b = (\<Sum>(n, s) \<leftarrow> br_sessions b. ses_reflected s)"

definition game_status :: "NetworkId \<Rightarrow> Session \<Rightarrow> GameNetworkStatus" where
  "game_status n s =
     (let outgoing = guard_counters (ses_outbound s); incoming = map (\<lambda>(d, g). guard_counters g) (ses_inbound s) in
      \<lparr>game_network = n, game_address = state_own (ses_peers s), game_subnet = state_subnet (ses_peers s),
       game_prefix = state_prefix (ses_peers s),
       game_online_peers = word_of_nat (length (filter (\<lambda>p. peer_key p \<noteq> None) (state_peers (ses_peers s)))),
       game_discovery_sent = dc_forwarded outgoing, game_discovery_received = sum_list (map dc_forwarded incoming),
       game_rate_limited = dc_rate_limited outgoing + sum_list (map dc_rate_limited incoming),
       game_duplicates = dc_duplicate outgoing + sum_list (map dc_duplicate incoming),
       game_invalid = dc_invalid outgoing + sum_list (map dc_invalid incoming), game_reflections = ses_reflected s\<rparr>)"

definition bridge_diagnostics :: "VirtualPacketBridge \<Rightarrow> GameDiagnostics" where
  "bridge_diagnostics b =
     \<lparr>game_mtu = br_mtu b, game_adapter_failed = False, game_truncated = (length (br_sessions b) > max_game_diagnostic_networks),
      game_rejected_packets = 0,
      game_networks = map (\<lambda>(n, s). game_status n s) (take max_game_diagnostic_networks (br_sessions b))\<rparr>"

end
