(* ===== verification/Bridge_Safety.thy ===== *)
theory Bridge_Safety
  imports Packet_Bridge Packet_Safety
begin

text \<open>
  What the packet bridge guarantees: what it injects into the adapter comes authenticated from a member
  of the network whom the policy lets speak, or through a route the policy grants; and a packet to
  everyone that was injected does not go out again.
\<close>

section \<open>Sessions in order\<close>

text \<open>The receivers of the cipher are members with a verified key whom the policy allows.\<close>

definition entitled_peer :: "Crypto \<Rightarrow> NetworkPeerState \<Rightarrow> DeviceId \<Rightarrow> DeviceId \<Rightarrow> 32 word \<Rightarrow> bool" where
  "entitled_peer c state own d address \<longleftrightarrow> (\<exists>peer\<in>set (state_peers state). peer_device peer = d \<and> peer_address peer = address \<and> d \<noteq> own \<and>
     (\<exists>key. peer_key peer = Some key \<and> verify_signed_device_key c key d = Inr True)) \<and>
     (case state_policy state of None \<Rightarrow> True | Some p \<Rightarrow> policy_allows p own d)"

definition session_ok :: "Crypto \<Rightarrow> NetworkId \<Rightarrow> Session \<Rightarrow> bool" where
  "session_ok c n s \<longleftrightarrow> state_network (ses_peers s) = n \<and> valid_peer_state (ses_peers s) \<and>
     pc_network (ses_cipher s) = n \<and> pc_epoch (ses_cipher s) = state_epoch (ses_peers s) \<and> pc_address (ses_cipher s) = state_own (ses_peers s) \<and>
     pc_subnet (ses_cipher s) = state_subnet (ses_peers s) \<and> pc_prefix (ses_cipher s) = state_prefix (ses_peers s) \<and>
     pc_device (ses_cipher s) = ses_device s \<and>
     (\<forall>d r. map_of (pc_peers (ses_cipher s)) d = Some r \<longrightarrow> entitled_peer c (ses_peers s) (ses_device s) d (recv_address r))"

definition subnets_apart :: "(NetworkId \<times> Session) list \<Rightarrow> bool" where
  "subnets_apart m \<longleftrightarrow> (\<forall>n s k t. (n, s) \<in> set m \<longrightarrow> (k, t) \<in> set m \<longrightarrow> n \<noteq> k \<longrightarrow> state_subnet (ses_peers s) \<noteq> state_subnet (ses_peers t))"

definition sessions_ok :: "Crypto \<Rightarrow> (NetworkId \<times> Session) list \<Rightarrow> bool" where
  "sessions_ok c m \<longleftrightarrow> distinct (map fst m) \<and> (\<forall>(n, s)\<in>set m. session_ok c n s)"

definition bridge_ok :: "Crypto \<Rightarrow> VirtualPacketBridge \<Rightarrow> bool" where
  "bridge_ok c b \<longleftrightarrow> sessions_ok c (br_sessions b) \<and> subnets_apart (br_sessions b)"

text \<open>How a session changes while packets pass.\<close>

definition cipher_moves :: "NetworkPacketCipher \<Rightarrow> NetworkPacketCipher \<Rightarrow> bool" where
  "cipher_moves s s' \<longleftrightarrow> identity_of s' = identity_of s \<and> pc_subnet s' = pc_subnet s \<and> pc_prefix s' = pc_prefix s \<and>
     (\<forall>d. map_option recv_address (map_of (pc_peers s') d) = map_option recv_address (map_of (pc_peers s) d))"

definition session_moves :: "Session \<Rightarrow> Session \<Rightarrow> bool" where
  "session_moves s s' \<longleftrightarrow> ses_peers s' = ses_peers s \<and> ses_device s' = ses_device s \<and> cipher_moves (ses_cipher s) (ses_cipher s')"

definition sessions_move :: "(NetworkId \<times> Session) list \<Rightarrow> (NetworkId \<times> Session) list \<Rightarrow> bool" where
  "sessions_move m m' \<longleftrightarrow> list_all2 (\<lambda>x y. fst y = fst x \<and> session_moves (snd x) (snd y)) m m'"

lemma cipher_moves_refl [simp]: "cipher_moves s s"
  by (simp add: cipher_moves_def)

lemma cipher_moves_trans: "cipher_moves a b \<Longrightarrow> cipher_moves b x \<Longrightarrow> cipher_moves a x"
  by (simp add: cipher_moves_def)

lemma session_moves_refl [simp]: "session_moves s s"
  by (simp add: session_moves_def)

lemma session_moves_trans: "session_moves a b \<Longrightarrow> session_moves b x \<Longrightarrow> session_moves a x"
  by (auto simp: session_moves_def intro: cipher_moves_trans)

lemma sessions_move_refl [simp]: "sessions_move m m"
  by (simp add: sessions_move_def list_all2_refl)

lemma sessions_move_trans: "sessions_move a b \<Longrightarrow> sessions_move b x \<Longrightarrow> sessions_move a x"
  unfolding sessions_move_def by (rule list_all2_trans [of _ _ _ a b x]) (auto intro: session_moves_trans)

lemma sessions_move_upsert:
  assumes "map_of m n = Some s" and "session_moves s s'"
  shows "sessions_move m (upsert_row n s' m)"
  using assms(1)
proof (induction m)
  case (Cons x m)
  then show ?case using assms(2) by (cases x) (auto simp: sessions_move_def list_all2_refl split: if_splits)
qed simp

lemma sessions_move_keys: "sessions_move m m' \<Longrightarrow> map fst m' = map fst m"
  unfolding sessions_move_def by (induction rule: list_all2_induct) auto

lemma sessions_move_back:
  assumes "sessions_move m m'" and "(n, s') \<in> set m'"
  shows "\<exists>s. (n, s) \<in> set m \<and> session_moves s s'"
  using assms unfolding sessions_move_def
proof (induction rule: list_all2_induct)
  case (Cons x xs y ys)
  then show ?case by (cases x; cases y) auto
qed simp

lemma session_ok_moves: "session_ok c n s \<Longrightarrow> session_moves s s' \<Longrightarrow> session_ok c n s'"
proof -
  assume ok: "session_ok c n s" and move: "session_moves s s'"
  have "entitled_peer c (ses_peers s) (ses_device s) d (recv_address r')" if found: "map_of (pc_peers (ses_cipher s')) d = Some r'" for d r'
  proof -
    have "map_option recv_address (map_of (pc_peers (ses_cipher s')) d) = map_option recv_address (map_of (pc_peers (ses_cipher s)) d)"
      using move by (simp add: session_moves_def cipher_moves_def)
    then obtain r where "map_of (pc_peers (ses_cipher s)) d = Some r" "recv_address r' = recv_address r"
      using found by (cases "map_of (pc_peers (ses_cipher s)) d") auto
    then show ?thesis using ok by (simp add: session_ok_def)
  qed
  then show "session_ok c n s'" using ok move by (simp add: session_ok_def session_moves_def cipher_moves_def identity_of_def)
qed

lemma bridge_ok_moves:
  assumes "bridge_ok c b" and "sessions_move (br_sessions b) (br_sessions b')"
  shows "bridge_ok c b'"
proof -
  have "subnets_apart (br_sessions b')"
    unfolding subnets_apart_def
  proof (intro allI impI)
    fix n s k t
    assume "(n, s) \<in> set (br_sessions b')" "(k, t) \<in> set (br_sessions b')" "n \<noteq> k"
    moreover from this obtain s0 t0 where "(n, s0) \<in> set (br_sessions b)" "session_moves s0 s" "(k, t0) \<in> set (br_sessions b)" "session_moves t0 t"
      using sessions_move_back [OF assms(2)] by metis
    ultimately show "state_subnet (ses_peers s) \<noteq> state_subnet (ses_peers t)"
      using assms(1) by (auto simp: bridge_ok_def subnets_apart_def session_moves_def)
  qed
  moreover have "session_ok c n s" if "(n, s) \<in> set (br_sessions b')" for n s
    using sessions_move_back [OF assms(2) that] assms(1) session_ok_moves by (fastforce simp: bridge_ok_def sessions_ok_def)
  ultimately show ?thesis using assms sessions_move_keys [OF assms(2)] by (auto simp: bridge_ok_def sessions_ok_def)
qed

section \<open>Packets keep the sessions in order\<close>

lemma encrypt_moves: "encrypt suite packet s = (r, s') \<Longrightarrow> cipher_moves s s'"
  by (elim encrypt_cases) (auto simp: cipher_moves_def identity_of_def)

lemma decrypt_moves: "decrypt suite packet sender s = (r, s') \<Longrightarrow> cipher_moves s s'"
proof (cases r)
  case (Inr plaintext)
  assume "decrypt suite packet sender s = (r, s')"
  then have "s' = s\<lparr>pc_peers := map (\<lambda>(d, x). if d = sender then (d, note_packet packet x) else (d, x)) (pc_peers s)\<rparr>"
    using Inr by (simp add: decrypt_Inr_iff)
  then show ?thesis by (auto simp: cipher_moves_def identity_of_def map_of_note option.map_comp o_def)
qed (auto dest: decrypt_Inl)

lemma send_fragments_moves: "send_fragments h suite wrap fs s = (r, events, s') \<Longrightarrow> cipher_moves s s'"
proof (induction fs arbitrary: s r events)
  case (Cons f fs)
  show ?case
  proof (cases "wrap f")
    case (Inr packet)
    obtain x s1 where x: "encrypt suite packet s = (x, s1)" by force
    note first = encrypt_moves [OF x]
    show ?thesis
      using Cons.prems Inr x first Cons.IH [of s1] cipher_moves_trans [OF first]
      by (auto split: sum.splits prod.splits)
  qed (use Cons.prems in auto)
qed simp

lemma send_routed_moves: "send_routed h suite mtu packet header destination s = (r, events, s') \<Longrightarrow> session_moves s s'"
  by (auto simp: send_routed_def Let_def session_moves_def dest: send_fragments_moves split: sum.splits if_splits prod.splits)

lemma send_packet_moves: "send_packet h suite mtu packet header s = (r, events, s') \<Longrightarrow> session_moves s s'"
  by (auto simp: send_packet_def session_moves_def dest: send_fragments_moves split: sum.splits if_splits prod.splits)

lemma deliver_packet_moves: "deliver_packet h suite mtu sender plaintext header s = (r, events, s') \<Longrightarrow> session_moves s s'"
  by (auto simp: deliver_packet_def session_moves_def simp del: send_fragments.simps dest: send_fragments_moves
      split: sum.splits if_splits prod.splits option.splits)

lemma admit_fanout_moves: "admit_fanout sha mtu delivery plaintext now s = (r, s') \<Longrightarrow> session_moves s s'"
  by (auto simp: admit_fanout_def Let_def session_moves_def split: if_splits prod.splits)

lemma inbound_local_moves: "inbound_local h suite sha mtu delivery plaintext now s = (r, events, s') \<Longrightarrow> session_moves s s'"
  by (auto simp: inbound_local_def dest: deliver_packet_moves admit_fanout_moves split: sum.splits if_splits prod.splits bool.splits
      intro: session_moves_trans)

lemma outbound_checks_moves: "outbound_checks sha mtu packet now s = (ok, s') \<Longrightarrow> session_moves s s'"
  by (auto simp: outbound_checks_def Let_def session_moves_def split: if_splits prod.splits)

lemma reflection_moves: "reflection sha packet now s = (r, s') \<Longrightarrow> session_moves s s'"
  by (auto simp: reflection_def session_moves_def split: if_splits prod.splits)

lemma scan_sessions_moves:
  assumes "scan_sessions sha mtu packet now m = (r, m')"
  shows "sessions_move m m'"
  using assms
proof (induction m arbitrary: r m')
  case (Cons x m)
  obtain n s where x: "x = (n, s)" by force
  obtain seen s1 where seen: "reflection sha packet now s = (seen, s1)" by force
  note first = reflection_moves [OF seen]
  have bump: "session_moves s1 (s1\<lparr>ses_reflected := ses_reflected s1 + 1\<rparr>)" by (simp add: session_moves_def)
  show ?case
  proof (cases seen)
    case (Inl e)
    then show ?thesis using Cons.prems x seen first by (auto simp: sessions_move_def list_all2_refl)
  next
    case (Inr reflected)
    show ?thesis
    proof (cases reflected)
      case True
      then show ?thesis
        using Cons.prems x seen Inr session_moves_trans [OF first bump] by (auto simp: sessions_move_def list_all2_refl)
    next
      case False
      obtain ok s2 where checks: "outbound_checks sha mtu packet now s1 = (ok, s2)" by force
      obtain r2 m2 where rest: "scan_sessions sha mtu packet now m = (r2, m2)" by force
      show ?thesis
        using Cons.prems Cons.IH [OF rest] x seen Inr False first checks rest session_moves_trans [OF first outbound_checks_moves [OF checks]]
        by (auto simp: sessions_move_def list_all2_refl split: if_splits)
    qed
  qed
qed simp

lemma scan_use_found:
  assumes "scan_sessions sha mtu packet now m = (Scan_use n s, m')" and "distinct (map fst m)"
  shows "map_of m' n = Some s \<and> own_packet packet s \<and> (\<exists>s0. map_of m n = Some s0 \<and> session_moves s0 s)"
  using assms
proof (induction m arbitrary: m')
  case (Cons x m)
  obtain k t where x: "x = (k, t)" by force
  obtain seen t1 where seen: "reflection sha packet now t = (seen, t1)" by force
  note first = reflection_moves [OF seen]
  have not_seen: "seen = Inr False" using Cons.prems(1) x seen by (auto split: sum.splits bool.splits)
  show ?case
  proof (cases "own_packet packet t1")
    case True
    obtain ok t2 where checks: "outbound_checks sha mtu packet now t1 = (ok, t2)" by force
    note second = outbound_checks_moves [OF checks]
    have own: "own_packet packet t2" using True second by (simp add: own_packet_def to_everyone_def session_moves_def)
    show ?thesis
      using Cons.prems(1) x seen not_seen True checks own session_moves_trans [OF first second] by (auto split: if_splits)
  next
    case False
    obtain r2 m2 where rest: "scan_sessions sha mtu packet now m = (r2, m2)" by force
    have used: "r2 = Scan_use n s" "m' = (k, t1) # m2" using Cons.prems(1) x seen not_seen False rest by auto
    have other: "n \<noteq> k"
    proof -
      have "\<exists>s0. map_of m n = Some s0" using Cons.IH [of m2] Cons.prems(2) rest used by auto
      then have "n \<in> fst ` set m" by (metis domI dom_map_of_conv_image_fst)
      then show ?thesis using Cons.prems(2) x by auto
    qed
    then show ?thesis using Cons.IH [of m2] Cons.prems(2) rest used x by auto
  qed
qed simp

lemma routed_session_found:
  "routed_session b h m = Some (n, s, v) \<Longrightarrow> distinct (map fst m) \<Longrightarrow> map_of m n = Some s"
proof (induction m)
  case (Cons x m)
  obtain k t where x: "x = (k, t)" by force
  show ?case
  proof (cases "routed_session b h m = Some (n, s, v)")
    case True
    then have "map_of m n = Some s" using Cons by simp
    moreover from this have "n \<noteq> k" using Cons.prems(2) x by (force dest: map_of_SomeD)
    ultimately show ?thesis by (simp add: x)
  next
    case False
    then show ?thesis using Cons.prems(1) x by (auto split: option.splits RouteVerdict.splits)
  qed
qed simp

lemma outbound_routed_moves:
  assumes "outbound_routed h suite packet b = (r, events, b')" and "distinct (map fst (br_sessions b))"
  shows "sessions_move (br_sessions b) (br_sessions b')"
  using assms
  by (auto simp: outbound_routed_def intro!: sessions_move_upsert [OF routed_session_found] intro: send_routed_moves
      split: sum.splits option.splits prod.splits)

lemma outbound_local_moves:
  assumes "outbound_local h suite sha packet now b = (r, events, b')" and "distinct (map fst (br_sessions b))"
  shows "sessions_move (br_sessions b) (br_sessions b')"
proof (cases "inspect_ipv4 packet")
  case (Inr header)
  obtain x m where scan: "scan_sessions sha (br_mtu b) packet now (br_sessions b) = (x, m)" by force
  note moved = scan_sessions_moves [OF scan]
  show ?thesis
  proof (cases x)
    case (Scan_use n s)
    obtain q ev s' where sent: "send_packet h suite (br_mtu b) packet header s = (q, ev, s')" by (metis prod_cases3)
    have found: "map_of m n = Some s" using scan_use_found [OF _ assms(2)] scan Scan_use by blast
    have "br_sessions b' = upsert_row n s' m" using assms(1) Inr scan Scan_use sent by (auto simp: outbound_local_def)
    then show ?thesis using sessions_move_trans [OF moved sessions_move_upsert [OF found send_packet_moves [OF sent]]] by simp
  qed (use assms Inr scan moved in \<open>auto simp: outbound_local_def\<close>)
qed (use assms in \<open>auto simp: outbound_local_def\<close>)

lemma outbound_moves:
  assumes "outbound h suite sha packet now b = (r, events, b')" and "distinct (map fst (br_sessions b))"
  shows "sessions_move (br_sessions b) (br_sessions b')"
proof -
  obtain x ev b1 where routed: "outbound_routed h suite packet b = (x, ev, b1)" by (metis prod_cases3)
  note first = outbound_routed_moves [OF routed assms(2)]
  obtain y ev2 b2 where here: "outbound_local h suite sha packet now b1 = (y, ev2, b2)" by (metis prod_cases3)
  have "distinct (map fst (br_sessions b1))" using assms(2) sessions_move_keys [OF first] by simp
  note second = sessions_move_trans [OF first outbound_local_moves [OF here this]]
  show ?thesis
    using assms(1) routed here first second by (auto simp: outbound_def split: if_splits sum.splits bool.splits)
qed

lemma inbound_moves:
  assumes "inbound h suite sha delivery now b = (r, events, b')"
  shows "sessions_move (br_sessions b) (br_sessions b')"
proof (cases "map_of (br_sessions b) (packet_network (forwarded_packet delivery))")
  case (Some s)
  let ?n = "packet_network (forwarded_packet delivery)"
  obtain x cipher where dec: "decrypt suite (forwarded_packet delivery) (forwarded_sender delivery) (ses_cipher s) = (x, cipher)" by force
  have first: "session_moves s (s\<lparr>ses_cipher := cipher\<rparr>)" using decrypt_moves [OF dec] by (simp add: session_moves_def)
  have moved: "sessions_move (br_sessions b) (upsert_row ?n (s\<lparr>ses_cipher := cipher\<rparr>) (br_sessions b))" by (rule sessions_move_upsert [OF Some first])
  show ?thesis
  proof (cases x)
    case (Inr plaintext)
    obtain q ev s2 where here: "inbound_local h suite sha (br_mtu b) delivery plaintext now (s\<lparr>ses_cipher := cipher\<rparr>) = (q, ev, s2)"
      by (metis prod_cases3)
    have "sessions_move (br_sessions b) (upsert_row ?n s2 (upsert_row ?n (s\<lparr>ses_cipher := cipher\<rparr>) (br_sessions b)))"
      by (rule sessions_move_trans [OF moved sessions_move_upsert [OF _ inbound_local_moves [OF here]]]) (simp add: map_of_upsert_row)
    then show ?thesis using assms Some dec Inr here moved by (auto simp: inbound_def Let_def split: if_splits prod.splits)
  qed (use assms Some dec moved in \<open>auto simp: inbound_def Let_def\<close>)
qed (use assms in \<open>auto simp: inbound_def Let_def\<close>)

section \<open>Synchronization puts the sessions in order\<close>

lemma receiver_for_entitled:
  assumes "receiver_for c suite s state peer = Inr (Some r)" and "peer \<in> set (state_peers state)"
  shows "entitled_peer c state (pc_device s) (peer_device peer) (recv_address r)"
proof -
  from assms(1) obtain key where key: "peer_key peer = Some key" "verify_signed_device_key c key (peer_device peer) = Inr True"
    and other: "peer_device peer \<noteq> pc_device s"
    and policy: "case state_policy state of None \<Rightarrow> True | Some p \<Rightarrow> policy_allows p (pc_device s) (peer_device peer)"
    and address: "recv_address r = peer_address peer"
    by (auto simp: receiver_for_def res_bind_Inr_iff new_receiver_def split: option.splits if_splits)
  then show ?thesis using assms(2) unfolding entitled_peer_def by metis
qed

lemma update_peers_ok:
  assumes "update_peers c suite state s = (Inr (), s')"
  shows "valid_peer_state state" "pc_network s = state_network state" "pc_epoch s = state_epoch state" "pc_address s = state_own state"
    "pc_subnet s' = state_subnet state" "pc_prefix s' = state_prefix state" "identity_of s' = identity_of s"
    "map_of (pc_peers s') d = Some r \<Longrightarrow> entitled_peer c state (pc_device s) d (recv_address r)"
proof -
  obtain updated where basic: "valid_peer_state state" "pc_network s = state_network state" "pc_epoch s = state_epoch state"
      "pc_address s = state_own state" "pc_subnet s' = state_subnet state" "pc_prefix s' = state_prefix state" "identity_of s' = identity_of s"
    and updated: "receivers_for c suite s state (state_peers state) [] = Inr updated" "pc_peers s' = fanout_flags s (state_policy state) updated"
    using assms by (auto simp: update_peers_def identity_of_def encode_network_peer_state_def res_bind_Inr_iff split: if_splits sum.splits)
  show "valid_peer_state state" "pc_network s = state_network state" "pc_epoch s = state_epoch state" "pc_address s = state_own state"
    "pc_subnet s' = state_subnet state" "pc_prefix s' = state_prefix state" "identity_of s' = identity_of s"
    using basic by auto
  assume "map_of (pc_peers s') d = Some r"
  then obtain r0 where r0: "map_of updated d = Some r0" "recv_address r = recv_address r0"
    by (auto simp: updated(2) map_of_fanout_flags)
  then obtain peer where "peer \<in> set (state_peers state)" "peer_device peer = d" "receiver_for c suite s state peer = Inr (Some r0)"
    using receivers_for_origin [OF updated(1)] by auto
  then show "entitled_peer c state (pc_device s) d (recv_address r)" using receiver_for_entitled r0(2) by metis
qed

lemma refresh_session_ok:
  assumes "session_ok c n s" and "refresh_session c suite state s = (Inr (), s')"
  shows "session_ok c n s'" "ses_peers s' = state"
proof -
  show "ses_peers s' = state" using assms(2) by (auto simp: refresh_session_def split: if_splits sum.splits prod.splits)
  show "session_ok c n s'"
  proof (cases "ses_peers s = state")
    case False
    then obtain cipher where up: "update_peers c suite state (ses_cipher s) = (Inr (), cipher)" and
      s': "s' = s\<lparr>ses_cipher := cipher, ses_peers := state,
          ses_inbound := filter (\<lambda>e. list_ex (\<lambda>p. peer_device p = fst e) (state_peers state)) (ses_inbound s)\<rparr>"
      using assms(2) by (auto simp: refresh_session_def split: if_splits sum.splits prod.splits)
    note ok = update_peers_ok [OF up]
    show ?thesis using assms(1) ok by (simp add: session_ok_def s' identity_of_def)
  qed (use assms in \<open>simp add: refresh_session_def\<close>)
qed

lemma new_session_ok:
  assumes "new_session c suite draw identity n = Inr s"
  shows "session_ok c (state_network (active_peers n)) s" "ses_peers s = active_peers n"
proof -
  let ?state = "active_peers n"
  from assms obtain c0 where fresh: "new_cipher c suite draw (state_network ?state) (state_epoch ?state) (snapshot_key (active_key n))
      (snapshot_device identity) (snapshot_signed_key identity) (state_own ?state) = Inr c0"
    and rest: "(case update_peers c suite ?state c0 of (Inl e, _) \<Rightarrow> Inl e
      | (Inr _, cipher') \<Rightarrow> Inr \<lparr>ses_peers = ?state, ses_key = active_key n, ses_signed_key = snapshot_signed_key identity,
          ses_device = snapshot_device identity, ses_cipher = cipher', ses_multicast = new_membership, ses_outbound = new_guard,
          ses_inbound = [], ses_injected = \<lparr>recent = []\<rparr>, ses_reflected = 0\<rparr>) = Inr s"
    by (auto simp: new_session_def Let_def res_bind_Inr_iff)
  obtain x cipher where update: "update_peers c suite ?state c0 = (x, cipher)" by force
  with rest have up: "update_peers c suite ?state c0 = (Inr (), cipher)"
    and s: "s = \<lparr>ses_peers = ?state, ses_key = active_key n, ses_signed_key = snapshot_signed_key identity,
          ses_device = snapshot_device identity, ses_cipher = cipher, ses_multicast = new_membership, ses_outbound = new_guard,
          ses_inbound = [], ses_injected = \<lparr>recent = []\<rparr>, ses_reflected = 0\<rparr>"
    by (cases x; simp)+
  have device: "pc_device c0 = snapshot_device identity" using fresh by (auto simp: new_cipher_def res_bind_Inr_iff split: if_splits)
  note ok = update_peers_ok [OF up]
  show "session_ok c (state_network ?state) s" using ok device by (simp add: session_ok_def s identity_of_def)
  show "ses_peers s = ?state" by (simp add: s)
qed

lemma sessions_ok_upsert: "sessions_ok c m \<Longrightarrow> session_ok c n s \<Longrightarrow> sessions_ok c (upsert_row n s m)"
  unfolding sessions_ok_def by (auto intro: upsert_distinct simp del: distinct_map dest!: upsert_values)

lemma sessions_ok_emplace: "sessions_ok c m \<Longrightarrow> session_ok c n s \<Longrightarrow> sessions_ok c (emplace_session n s m)"
proof -
  have distinct: "distinct (map fst (insort_key fst x m))" if "distinct (map fst m)" "fst x \<notin> fst ` set m" for x :: "NetworkId \<times> Session" and m
    using that by (induction m) (auto simp: set_insort_key)
  show "sessions_ok c m \<Longrightarrow> session_ok c n s \<Longrightarrow> sessions_ok c (emplace_session n s m)"
    using distinct [of m "(n, s)"] by (auto simp: sessions_ok_def emplace_session_def set_insort_key simp del: distinct_map)
qed

lemma emplace_session_set: "(k, t) \<in> set (emplace_session n s m) \<Longrightarrow> (k, t) = (n, s) \<or> (k, t) \<in> set m"
  by (auto simp: emplace_session_def set_insort_key split: if_splits)

lemma sync_loop_ok:
  assumes "sync_loop c suite draw identity networks sessions updated = (Inr (), sessions', updated')"
    and "sessions_ok c sessions" and "sessions_ok c updated"
  shows "sessions_ok c updated' \<and>
    (\<forall>(n, s)\<in>set updated'. (n, s) \<in> set updated \<or> (\<exists>net\<in>set networks. n = state_network (active_peers net) \<and> ses_peers s = active_peers net))"
  using assms
proof (induction networks arbitrary: draw sessions updated)
  case (Cons net networks)
  let ?n = "state_network (active_peers net)"
  obtain s draw' sessions1 where s: "session_ok c ?n s" "ses_peers s = active_peers net" and ok: "sessions_ok c sessions1"
    and rest: "sync_loop c suite draw' identity networks sessions1 (emplace_session ?n s updated) = (Inr (), sessions', updated')"
  proof (cases "reusable_session identity net sessions")
    case None
    with Cons.prems(1) obtain s where new: "new_session c suite draw identity net = Inr s"
      and rest: "sync_loop c suite (draw + 1) identity networks sessions (emplace_session ?n s updated) = (Inr (), sessions', updated')"
      by (auto simp: Let_def split: if_splits sum.splits)
    show ?thesis using that [OF new_session_ok [OF new] Cons.prems(2) rest] .
  next
    case (Some old)
    with Cons.prems(1) obtain s where refreshed: "refresh_session c suite (active_peers net) old = (Inr (), s)"
      and rest: "sync_loop c suite draw identity networks (upsert_row ?n s sessions) (emplace_session ?n s updated) = (Inr (), sessions', updated')"
      by (auto simp: Let_def split: if_splits sum.splits prod.splits)
    have "session_ok c ?n old"
      using Some Cons.prems(2) by (auto simp: reusable_session_def sessions_ok_def dest!: map_of_SomeD split: option.splits if_splits)
    note fresh = refresh_session_ok [OF this refreshed]
    show ?thesis using that [OF fresh sessions_ok_upsert [OF Cons.prems(2) fresh(1)] rest] .
  qed
  have "sessions_ok c (emplace_session ?n s updated)" by (rule sessions_ok_emplace [OF Cons.prems(3) s(1)])
  then show ?case using Cons.IH [OF rest ok] s(2) emplace_session_set [of _ _ ?n s updated] by fastforce
qed simp

definition states_apart :: "NetworkPeerState \<Rightarrow> NetworkPeerState \<Rightarrow> bool" where
  "states_apart p q \<longleftrightarrow> state_network p \<noteq> state_network q \<and> state_subnet p \<noteq> state_subnet q"

lemma check_networks_apart:
  "check_networks previous networks = Inr () \<Longrightarrow> sorted_wrt states_apart previous \<Longrightarrow>
   sorted_wrt states_apart (previous @ map active_peers networks)"
proof (induction previous networks rule: check_networks.induct)
  case (2 previous n rest)
  let ?s = "active_peers n"
  have rest: "check_networks (previous @ [?s]) rest = Inr ()" and apart: "\<forall>q\<in>set previous. states_apart q ?s"
    using "2.prems"(1) by (auto simp: Let_def list_ex_iff states_apart_def split: if_splits)
  have "sorted_wrt states_apart (previous @ [?s])" using "2.prems"(2) apart by (simp add: sorted_wrt_append)
  then show ?case
    using "2.IH" [OF refl] "2.prems"(1) rest by (auto simp: Let_def split: if_splits)
qed simp

lemma synchronize_bridge_ok:
  assumes "synchronize_bridge c suite draw identity networks b = (Inr (), b')" and "bridge_ok c b"
  shows "bridge_ok c b'"
proof (cases identity)
  case None
  then show ?thesis using assms by (auto simp: synchronize_bridge_def bridge_ok_def sessions_ok_def subnets_apart_def)
next
  case (Some i)
  obtain m where check: "check_networks [] networks = Inr ()"
    and loop: "sync_loop c suite draw i networks (br_sessions b) [] = (Inr (), m, br_sessions b')"
    using assms(1) Some by (auto simp: synchronize_bridge_def split: sum.splits prod.splits)
  have "sessions_ok c (br_sessions b)" "sessions_ok c []" using assms(2) by (simp_all add: bridge_ok_def sessions_ok_def)
  from sync_loop_ok [OF loop this] have ok: "sessions_ok c (br_sessions b')"
    and networks: "\<And>n s. (n, s) \<in> set (br_sessions b') \<Longrightarrow> n = state_network (ses_peers s) \<and> ses_peers s \<in> set (map active_peers networks)"
    by fastforce+
  have apart: "sorted_wrt states_apart (map active_peers networks)" using check_networks_apart [OF check] by simp
  have "states_apart p q \<or> states_apart q p" if "p \<in> set (map active_peers networks)" "q \<in> set (map active_peers networks)" "p \<noteq> q" for p q
    using apart that unfolding sorted_wrt_iff_nth_less in_set_conv_nth by (metis nat_neq_iff)
  then have "subnets_apart (br_sessions b')"
    unfolding subnets_apart_def states_apart_def using networks by metis
  then show ?thesis using ok by (simp add: bridge_ok_def)
qed

section \<open>Runs\<close>

text \<open>
  The bridge as \<open>VirtualNetwork\<close> drives it: when a synchronization raises, the bridge is cleared.
\<close>

inductive bridge_run :: "Crypto \<Rightarrow> CipherSuite \<Rightarrow> Sha256 \<Rightarrow> VirtualPacketBridge \<Rightarrow> bool" for c suite sha where
  run_new: "bridge_run c suite sha new_bridge"
| run_synchronized: "bridge_run c suite sha b \<Longrightarrow> synchronize_bridge c suite draw identity networks b = (Inr (), b') \<Longrightarrow> bridge_run c suite sha b'"
| run_failed: "bridge_run c suite sha b \<Longrightarrow> synchronize_bridge c suite draw identity networks b = (Inl e, b') \<Longrightarrow> bridge_run c suite sha (clear_bridge b')"
| run_outbound: "bridge_run c suite sha b \<Longrightarrow> outbound h suite sha packet now b = (r, events, b') \<Longrightarrow> bridge_run c suite sha b'"
| run_inbound: "bridge_run c suite sha b \<Longrightarrow> inbound h suite sha delivery now b = (r, events, b') \<Longrightarrow> bridge_run c suite sha b'"
| run_options: "bridge_run c suite sha b \<Longrightarrow> bridge_run c suite sha (set_routing_options accept fwd b)"
| run_mtu: "bridge_run c suite sha b \<Longrightarrow> set_mtu mtu b = (r, b') \<Longrightarrow> bridge_run c suite sha b'"
| run_multicast: "bridge_run c suite sha b \<Longrightarrow> bridge_run c suite sha (synchronize_multicast host b)"
| run_cleared: "bridge_run c suite sha b \<Longrightarrow> bridge_run c suite sha (clear_bridge b)"

lemma no_sessions_ok: "br_sessions b = [] \<Longrightarrow> bridge_ok c b"
  by (simp add: bridge_ok_def sessions_ok_def subnets_apart_def)

lemma bridge_run_ok: "bridge_run c suite sha b \<Longrightarrow> bridge_ok c b"
proof (induction rule: bridge_run.induct)
  case (run_synchronized b draw identity networks b')
  then show ?case using synchronize_bridge_ok by blast
next
  case (run_outbound b h packet now r events b')
  then have "distinct (map fst (br_sessions b))" by (simp add: bridge_ok_def sessions_ok_def)
  with run_outbound show ?case using bridge_ok_moves outbound_moves by blast
next
  case (run_inbound b h delivery now r events b')
  then show ?case using bridge_ok_moves inbound_moves by blast
next
  case (run_options b accept fwd)
  then show ?case by (simp add: set_routing_options_def bridge_ok_def)
next
  case (run_mtu b mtu r b')
  then show ?case by (auto simp: set_mtu_def bridge_ok_def split: if_splits)
next
  case (run_multicast b host)
  have "sessions_move (br_sessions b) (br_sessions (synchronize_multicast host b))"
    by (auto simp: sessions_move_def synchronize_multicast_def list_all2_conv_all_nth session_moves_def split: prod.splits)
  then show ?case using run_multicast.IH bridge_ok_moves by blast
qed (simp_all add: no_sessions_ok new_bridge_def clear_bridge_def)

section \<open>What is injected\<close>

lemma inject_fragments_events: "inject_fragments h ok fs = (r, events) \<Longrightarrow> x \<in> set events \<Longrightarrow> ok \<and> (\<exists>f\<in>set fs. x = Injected f)"
  by (induction fs arbitrary: r events) (auto split: if_splits sum.splits prod.splits)

lemma send_fragments_events: "send_fragments h suite wrap fs s = (r, events, s') \<Longrightarrow> x \<in> set events \<Longrightarrow> \<exists>p. x = Sent p"
  by (induction fs arbitrary: s r events) (auto split: sum.splits prod.splits)

lemma deliver_packet_events:
  assumes "deliver_packet h suite mtu sender plaintext header s = (r, events, s')" and "Injected f \<in> set events"
  shows "\<exists>fs. fragment_ipv4 plaintext mtu = Inr fs \<and> f \<in> set fs"
proof (cases "length plaintext > unat mtu \<and> ip_dont_fragment header")
  case True
  then obtain cipher where "events = [] \<or> (\<exists>error. send_fragments h suite Inr [error] (ses_cipher s) = (r, events, cipher))"
    using assms(1) by (auto simp: deliver_packet_def simp del: send_fragments.simps split: sum.splits option.splits prod.splits)
  then show ?thesis using send_fragments_events assms(2) by fastforce
next
  case False
  then show ?thesis
    using assms inject_fragments_events [of h _ _ _ events "Injected f"]
    by (auto simp: deliver_packet_def split: sum.splits prod.splits)
qed

text \<open>A packet for this host or to everyone, and what the latter has to pass.\<close>

definition injected_locally :: "VirtualPacketBridge \<Rightarrow> Session \<Rightarrow> EncryptedNetworkPacket \<Rightarrow> int \<Rightarrow> bytes \<Rightarrow> bytes \<Rightarrow> bool" where
  "injected_locally b s packet now plaintext f \<longleftrightarrow>
     (\<exists>fs. fragment_ipv4 plaintext (br_mtu b) = Inr fs \<and> f \<in> set fs) \<and> read_ipv4 plaintext 16 = packet_destination packet \<and>
     (packet_destination packet = state_own (ses_peers s) \<or>
      to_everyone s (packet_destination packet) \<and> length plaintext \<le> 1400 \<and>
      (is_ipv4_multicast (packet_destination packet) \<longrightarrow>
        receives (ses_multicast s) (packet_destination packet) (read_ipv4 plaintext 12) now))"

text \<open>A packet through a route: of a member into the subnet of this gateway, or back from the subnet of a gateway.\<close>

definition injected_routed :: "VirtualPacketBridge \<Rightarrow> Session \<Rightarrow> DeviceId \<Rightarrow> bytes \<Rightarrow> bytes \<Rightarrow> bool" where
  "injected_routed b s sender plaintext f \<longleftrightarrow>
     (\<exists>inner header policy route peer fs. decapsulate_routed_ipv4 plaintext = Inr inner \<and> inspect_ipv4 inner = Inr header \<and>
        safe_routed_ipv4 inner = Inr True \<and> fragment_ipv4 inner (br_mtu b) = Inr fs \<and> f \<in> set fs \<and>
        state_policy (ses_peers s) = Some policy \<and> policy_allows policy (ses_device s) sender \<and> route \<in> set (routes policy) \<and>
        peer \<in> set (state_peers (ses_peers s)) \<and> peer_device peer = sender \<and>
        (routed_request b s policy sender peer header route \<or> routed_reply b s policy sender header route))"

lemma inbound_routed_events:
  assumes "inbound_routed h delivery plaintext b = (r, events)" and "Injected f \<in> set events"
    and "map_of (br_sessions b) (packet_network (forwarded_packet delivery)) = Some s"
  shows "injected_routed b s (forwarded_sender delivery) plaintext f"
proof -
  let ?sender = "forwarded_sender delivery"
  from assms(1,2) obtain inner header where inner: "decapsulate_routed_ipv4 plaintext = Inr inner" "inspect_ipv4 inner = Inr header"
    by (auto simp: inbound_routed_def Let_def res_bind_Inr_iff split: sum.splits dest!: sym [of "Inr _"])
  then have step: "res_bind (decapsulate_routed_ipv4 plaintext) (\<lambda>inner. res_bind (inspect_ipv4 inner) (\<lambda>h. Inr (inner, h))) = Inr (inner, header)"
    by simp
  from assms obtain policy where policy: "state_policy (ses_peers s) = Some policy"
    by (auto simp: inbound_routed_def Let_def step split: option.splits)
  from assms policy have safe: "safe_routed_ipv4 inner = Inr True"
    by (auto simp: inbound_routed_def Let_def step split: if_splits sum.splits)
  from assms policy safe obtain peer where peer: "find (\<lambda>v. peer_device v = ?sender \<and> peer_key v \<noteq> None) (state_peers (ses_peers s)) = Some peer"
    by (auto simp: inbound_routed_def Let_def step split: if_splits option.splits)
  from assms policy safe peer obtain fs x where granted: "policy_allows policy (ses_device s) ?sender"
      "list_ex (\<lambda>route. routed_request b s policy ?sender peer header route \<or> routed_reply b s policy ?sender header route) (routes policy)"
    and fs: "fragment_ipv4 inner (br_mtu b) = Inr fs" "inject_fragments h True fs = (x, events)"
    by (auto simp: inbound_routed_def Let_def step split: if_splits sum.splits prod.splits)
  have "f \<in> set fs" using inject_fragments_events [OF fs(2) assms(2)] by auto
  moreover have "peer \<in> set (state_peers (ses_peers s)) \<and> peer_device peer = ?sender" using peer by (auto simp: find_Some_iff)
  ultimately show ?thesis unfolding injected_routed_def using inner policy safe granted fs(1) unfolding list_ex_iff by blast
qed

lemma inbound_local_events:
  assumes "inbound_local h suite sha (br_mtu b) delivery plaintext now s = (r, events, s')" and "Injected f \<in> set events"
    and "read_ipv4 plaintext 16 = packet_destination (forwarded_packet delivery)"
    and "packet_destination (forwarded_packet delivery) = state_own (ses_peers s) \<or> to_everyone s (packet_destination (forwarded_packet delivery))"
  shows "injected_locally b s (forwarded_packet delivery) now plaintext f"
proof -
  let ?d = "packet_destination (forwarded_packet delivery)"
  from assms(1,2) obtain header where header: "inspect_ipv4 plaintext = Inr header" by (auto simp: inbound_local_def split: sum.splits)
  obtain x s1 where admit: "(if to_everyone s ?d then admit_fanout sha (br_mtu b) delivery plaintext now s else (Inr True, s)) = (x, s1)" by force
  have x: "x = Inr True" using assms(1,2) header admit by (auto simp: inbound_local_def split: sum.splits bool.splits)
  then have "deliver_packet h suite (br_mtu b) (forwarded_sender delivery) plaintext header s1 = (r, events, s')"
    using assms(1) header admit by (simp add: inbound_local_def)
  from deliver_packet_events [OF this assms(2)] have fs: "\<exists>fs. fragment_ipv4 plaintext (br_mtu b) = Inr fs \<and> f \<in> set fs" .
  have "length plaintext \<le> 1400 \<and> (is_ipv4_multicast ?d \<longrightarrow> receives (ses_multicast s) ?d (read_ipv4 plaintext 12) now)" if "to_everyone s ?d"
  proof -
    have "admit_fanout sha (br_mtu b) delivery plaintext now s = (Inr True, s1)" using admit that x by simp
    then have "\<not> length plaintext > unat (min (br_mtu b) 1400)" "\<not> (is_ipv4_multicast ?d \<and> \<not> receives (ses_multicast s) ?d (read_ipv4 plaintext 12) now)"
      by (auto simp: admit_fanout_def Let_def split: if_splits)
    moreover have "unat (min (br_mtu b) 1400) \<le> 1400" by (simp add: min_def word_le_nat_alt)
    ultimately show ?thesis by auto
  qed
  then show ?thesis using fs assms(3,4) by (auto simp: injected_locally_def)
qed

lemma decrypted_addresses:
  assumes "decrypts suite packet sender (ses_cipher s) receiver plaintext" and "session_ok c n s"
  shows "packet_epoch packet = state_epoch (ses_peers s)" "entitled_peer c (ses_peers s) (ses_device s) sender (read_ipv4 plaintext 12)"
    "read_ipv4 plaintext 16 = packet_destination packet"
    "packet_destination packet = state_own (ses_peers s) \<or> to_everyone s (packet_destination packet)"
proof -
  have found: "map_of (pc_peers (ses_cipher s)) sender = Some receiver" and match: "addresses_match (ses_cipher s) receiver packet plaintext"
    using assms(1) by (auto simp: decrypts_def)
  from match have addresses: "read_ipv4 plaintext 12 = recv_address receiver" "read_ipv4 plaintext 16 = packet_destination packet"
    by (auto simp: addresses_match_def ipv4_addresses_def Let_def split: sum.splits if_splits prod.splits)
  show "packet_epoch packet = state_epoch (ses_peers s)"
    "packet_destination packet = state_own (ses_peers s) \<or> to_everyone s (packet_destination packet)"
    using assms by (auto simp: decrypts_def session_ok_def to_everyone_def)
  show "entitled_peer c (ses_peers s) (ses_device s) sender (read_ipv4 plaintext 12)"
    using assms(2) found addresses(1) by (simp add: session_ok_def)
  show "read_ipv4 plaintext 16 = packet_destination packet" by (rule addresses(2))
qed

text \<open>
  C39.
  Whatever the bridge injects into the adapter on receipt of a packet comes from a session of that
  network, at its key epoch, from a packet that passed the replay window and authenticated; its sender
  is a member with a verified key whom the policy lets reach this device, and the source address inside
  is the address of that member. It is a fragment of the packet itself, which is addressed to this host
  or to everyone (then at most 1400 bytes, and for a multicast group only if the host listens to it), or
  of a packet inside it that a route of the policy grants.
\<close>

theorem bridge_injects_for_members:
  assumes "bridge_run c suite sha b" and "inbound h suite sha delivery now b = (r, events, b')" and "Injected f \<in> set events"
  shows "\<exists>s receiver plaintext. map_of (br_sessions b) (packet_network (forwarded_packet delivery)) = Some s \<and>
    packet_epoch (forwarded_packet delivery) = state_epoch (ses_peers s) \<and>
    decrypts suite (forwarded_packet delivery) (forwarded_sender delivery) (ses_cipher s) receiver plaintext \<and>
    entitled_peer c (ses_peers s) (ses_device s) (forwarded_sender delivery) (read_ipv4 plaintext 12) \<and>
    (injected_locally b s (forwarded_packet delivery) now plaintext f \<or> injected_routed b s (forwarded_sender delivery) plaintext f)"
proof -
  let ?packet = "forwarded_packet delivery" and ?sender = "forwarded_sender delivery"
  let ?n = "packet_network ?packet"
  obtain s where s: "map_of (br_sessions b) ?n = Some s" using assms(2,3) by (auto simp: inbound_def Let_def split: option.splits)
  obtain plaintext cipher where dec: "decrypt suite ?packet ?sender (ses_cipher s) = (Inr plaintext, cipher)"
    using assms(2,3) s by (auto simp: inbound_def Let_def split: sum.splits prod.splits)
  then obtain receiver where opened: "decrypts suite ?packet ?sender (ses_cipher s) receiver plaintext" by (auto simp: decrypt_Inr_iff)
  have ok: "session_ok c ?n s"
    using bridge_run_ok [OF assms(1)] map_of_SomeD [OF s] by (auto simp: bridge_ok_def sessions_ok_def)
  note inside = decrypted_addresses [OF opened ok]
  let ?s = "s\<lparr>ses_cipher := cipher\<rparr>"
  let ?b = "b\<lparr>br_sessions := upsert_row ?n ?s (br_sessions b)\<rparr>"
  have "injected_locally b s ?packet now plaintext f \<or> injected_routed b s ?sender plaintext f"
  proof (cases "plaintext ! 9 = 4 \<and> state_policy (ses_peers s) \<noteq> None")
    case True
    then obtain x where "inbound_routed h delivery plaintext ?b = (x, events)"
      using assms(2) s dec by (auto simp: inbound_def Let_def split: prod.splits)
    then have "injected_routed ?b ?s ?sender plaintext f" by (rule inbound_routed_events) (simp_all add: assms(3) map_of_upsert_row)
    then show ?thesis by (simp add: injected_routed_def routed_request_def routed_reply_def)
  next
    case False
    then obtain x s2 where "inbound_local h suite sha (br_mtu b) delivery plaintext now ?s = (x, events, s2)"
      using assms(2) s dec by (auto simp: inbound_def Let_def split: prod.splits)
    from inbound_local_events [OF this assms(3)] have "injected_locally b ?s ?packet now plaintext f"
      using inside by (simp add: to_everyone_def)
    then show ?thesis by (simp add: injected_locally_def to_everyone_def)
  qed
  then show ?thesis using s opened inside(1,2) by blast
qed

text \<open>The checks of a header with comparisons of integers, for evaluation.\<close>

lemma header_at_most_60: "header_length packet \<le> 60"
proof -
  have "packet ! 0 AND 15 \<le> 15" by (rule word_and_le1)
  then have "unat (packet ! 0 AND 15) \<le> unat (15 :: byte)" by (simp only: word_le_nat_alt)
  then show ?thesis by (simp add: header_length_def)
qed

lemma fragment_end_code: "x > 65535 - header_length packet \<longleftrightarrow> int x + int (header_length packet) > 65535"
  using header_at_most_60 [of packet] by linarith

lemma inspect_ipv4_code [code]:
  "inspect_ipv4 packet =
     (if length packet < 20 \<or> int (length packet) > 65535 \<or> drop_bit 4 (packet ! 0) \<noteq> 4
      then Inl (Invalid_argument ''invalid IPv4 packet size or version'')
      else let header = header_length packet in
      if header < 20 \<or> header > length packet \<or> unat (ip_get packet 2 2) \<noteq> length packet \<or>
         packet ! 8 = 0 \<or> internet_checksum (take header packet) \<noteq> 0
      then Inl (Invalid_argument ''invalid IPv4 header or checksum'')
      else res_bind (copied_options packet header) (\<lambda>_.
      let flags = ip_get packet 6 2;
          offset = (flags AND 0x1fff) * 8;
          more_fragments = (flags AND 0x2000 \<noteq> 0);
          df = (flags AND 0x4000 \<noteq> 0);
          payload_size = length packet - header in
      if flags AND 0x8000 \<noteq> 0 \<or> (df \<and> (more_fragments \<or> offset \<noteq> 0)) \<or> ((more_fragments \<or> offset \<noteq> 0) \<and> payload_size = 0) \<or>
         (more_fragments \<and> payload_size mod 8 \<noteq> 0) \<or> int (unat offset + payload_size) + int header > 65535
      then Inl (Invalid_argument ''invalid IPv4 fragment bounds'')
      else Inr \<lparr>ip_header_size = header, ip_source = ip_get packet 12 4, ip_destination = ip_get packet 16 4,
        ip_fragment_offset = ucast offset, ip_more_fragments = more_fragments, ip_dont_fragment = df\<rparr>))"
  unfolding inspect_ipv4_def Let_def fragment_end_code by simp

text \<open>A bridge with one network, and a packet of its other member to everyone.\<close>

definition bridge_demo_packet :: bytes where
  "bridge_demo_packet = [0x45, 0, 0, 20, 0, 0, 0, 0, 64, 17, 0x65, 0x5a, 10, 64, 0, 1, 10, 64, 0, 255]"

definition bridge_demo_start :: "unit res \<times> VirtualPacketBridge" where
  "bridge_demo_start = synchronize_bridge demo_crypto demo_suite 0
     (Some \<lparr>snapshot_device = demo_member 2, snapshot_signed_key = demo_key (demo_member 2)\<rparr>)
     [\<lparr>active_peers = demo_peer_state 2 1, active_key = \<lparr>snapshot_epoch = 1, snapshot_key = replicate 32 5\<rparr>\<rparr>]
     (snd (set_mtu 68 new_bridge))"

definition bridge_demo_sha :: Sha256 where "bridge_demo_sha bs = Some (take 32 (bs @ replicate 32 0))"

definition bridge_demo_handlers :: BridgeHandlers where "bridge_demo_handlers = \<lparr>on_send = (\<lambda>_. Inr ()), on_inject = (\<lambda>_. Inr ())\<rparr>"

definition bridge_demo_delivery :: "ForwardedNetworkPacket res" where
  "bridge_demo_delivery = res_bind (demo_start 1) (\<lambda>s0.
     res_bind (fst (encrypt demo_suite bridge_demo_packet (snd (update_peers demo_crypto demo_suite (demo_peer_state 1 2) s0)))) (\<lambda>p.
     Inr \<lparr>forwarded_sender = demo_member 1, forwarded_packet = p\<rparr>))"

lemma bridge_demo:
  "case (bridge_demo_start, bridge_demo_delivery) of
     ((Inr _, b), Inr delivery) \<Rightarrow>
       fst (snd (inbound bridge_demo_handlers demo_suite bridge_demo_sha delivery 5 b)) = [Injected bridge_demo_packet]
   | _ \<Rightarrow> False"
  by code_simp

lemma bridge_demo_facts:
  obtains b delivery r b' where "bridge_run demo_crypto demo_suite bridge_demo_sha b" "br_mtu b = 68"
    "bridge_demo_start = (Inr (), b)" "bridge_demo_delivery = Inr delivery"
    "inbound bridge_demo_handlers demo_suite bridge_demo_sha delivery 5 b = (r, [Injected bridge_demo_packet], b')"
proof -
  obtain x b where start: "bridge_demo_start = (x, b)" by force
  note demo = bridge_demo [unfolded start]
  have x: "x = Inr ()" using demo by (cases x) auto
  obtain delivery where delivery: "bridge_demo_delivery = Inr delivery"
  proof (cases bridge_demo_delivery)
    case (Inl e)
    then show ?thesis using demo unfolding x Inl by simp
  qed (rule that)
  have events: "fst (snd (inbound bridge_demo_handlers demo_suite bridge_demo_sha delivery 5 b)) = [Injected bridge_demo_packet]"
    using demo unfolding x delivery by simp
  note start = start [unfolded x]
  obtain r ev b' where inbound: "inbound bridge_demo_handlers demo_suite bridge_demo_sha delivery 5 b = (r, ev, b')" by (metis prod_cases3)
  have mtu: "set_mtu 68 new_bridge = (Inr (), snd (set_mtu 68 new_bridge))" by (simp add: set_mtu_def)
  have run: "bridge_run demo_crypto demo_suite bridge_demo_sha b"
    by (rule run_synchronized [OF run_mtu [OF run_new mtu] start [unfolded bridge_demo_start_def]])
  have "br_mtu b = 68"
    using start by (auto simp: bridge_demo_start_def synchronize_bridge_def set_mtu_def split: sum.splits prod.splits)
  then show ?thesis using that [OF run _ start delivery] inbound events by simp
qed

theorem bridge_injects_for_members_witness:
  "\<exists>b delivery r events b'. bridge_run demo_crypto demo_suite bridge_demo_sha b \<and>
     inbound bridge_demo_handlers demo_suite bridge_demo_sha delivery 5 b = (r, events, b') \<and> Injected bridge_demo_packet \<in> set events \<and>
     (\<exists>s plaintext. map_of (br_sessions b) (packet_network (forwarded_packet delivery)) = Some s \<and>
       entitled_peer demo_crypto (ses_peers s) (ses_device s) (forwarded_sender delivery) (read_ipv4 plaintext 12))"
proof -
  obtain b delivery r b' where a: "bridge_run demo_crypto demo_suite bridge_demo_sha b"
    "inbound bridge_demo_handlers demo_suite bridge_demo_sha delivery 5 b = (r, [Injected bridge_demo_packet], b')"
    by (rule bridge_demo_facts)
  have "Injected bridge_demo_packet \<in> set [Injected bridge_demo_packet]" by simp
  from bridge_injects_for_members [OF a(1,2) this] a this show ?thesis by blast
qed

end
