(* ===== verification/Bridge_Reflection.thy ===== *)
theory Bridge_Reflection
  imports Bridge_Safety
begin

text \<open>
  No loops: a packet to everyone that the bridge has injected and that comes back from the adapter, as
  from a host that bridges its interfaces, is not sent again.
\<close>

section \<open>Addresses of a network\<close>

lemma block_inside: "x mod 256 = 0 \<Longrightarrow> x \<le> a \<Longrightarrow> a < x + 256 \<Longrightarrow> a div 256 = x div 256" for x a :: nat
  using div_mult_mod_eq [of x 256] by (intro div_nat_eqI) simp_all

lemma block_start: "x mod 256 = 0 \<Longrightarrow> y mod 256 = 0 \<Longrightarrow> x div 256 = y div 256 \<Longrightarrow> x = y" for x y :: nat
  using div_mult_mod_eq [of x 256] div_mult_mod_eq [of y 256] by simp

lemma pool_block:
  fixes subnet a :: "32 word"
  assumes "subnet < peer_pool_end" "subnet mod peer_subnet_size = 0" "subnet < a" "a < subnet + peer_subnet_size - 1"
  shows "unat subnet < unat a" "unat a < unat subnet + 255" "unat a div 256 = unat subnet div 256" "unat subnet mod 256 = 0"
    "unat subnet < 0x0a800000"
proof -
  have small: "unat subnet < 0x0a800000" using assms(1) by (simp add: peer_pool_end_def word_less_nat_alt)
  have top: "unat (subnet + peer_subnet_size - 1) = unat subnet + 255"
  proof -
    have same: "subnet + peer_subnet_size - 1 = subnet + 255" unfolding peer_subnet_size_def by simp
    show ?thesis unfolding same using small by (simp add: unat_plus_if')
  qed
  show mod: "unat subnet mod 256 = 0"
  proof -
    have "unat (subnet mod peer_subnet_size) = 0" using assms(2) by simp
    then show ?thesis by (simp add: unat_mod_distrib peer_subnet_size_def)
  qed
  show low: "unat subnet < unat a" and high: "unat a < unat subnet + 255" using assms(3,4) top by (simp_all add: word_less_nat_alt)
  show "unat a div 256 = unat subnet div 256" using low high by (intro block_inside [OF mod]) simp_all
  show "unat subnet < 0x0a800000" by (rule small)
qed

lemma valid_peers_addresses:
  "valid_peers subnet ids addresses peers \<Longrightarrow> p \<in> set peers \<Longrightarrow>
   subnet < peer_address p \<and> peer_address p < subnet + peer_subnet_size - 1 \<and> peer_address p \<notin> set addresses"
proof (induction peers arbitrary: ids addresses)
  case (Cons peer rest)
  have guard: "\<not> (is_zero (peer_device peer) \<or> peer_address peer \<le> subnet \<or> peer_address peer \<ge> subnet + peer_subnet_size - 1 \<or>
      peer_device peer \<in> set ids \<or> peer_address peer \<in> set addresses)"
    and rest: "valid_peers subnet (peer_device peer # ids) (peer_address peer # addresses) rest"
    using Cons.prems(1) unfolding valid_peers.simps by (metis (full_types))+
  show ?case
  proof (cases "p = peer")
    case True
    then show ?thesis using guard by (simp only: not_le de_Morgan_disj) blast
  next
    case False
    then have "p \<in> set rest" using Cons.prems(2) by simp
    from Cons.IH [OF rest this] show ?thesis unfolding list.set by blast
  qed
qed simp

lemma valid_state_addresses:
  assumes "valid_peer_state state"
  shows "unat (state_own state) div 256 = unat (state_subnet state) div 256" "unat (state_subnet state) mod 256 = 0"
    "unat (state_subnet state) < 0x0a800000"
    "p \<in> set (state_peers state) \<Longrightarrow> unat (peer_address p) div 256 = unat (state_subnet state) div 256 \<and>
      unat (peer_address p) < unat (state_subnet state) + 255 \<and> peer_address p \<noteq> state_own state"
proof -
  have parts: "state_subnet state < peer_pool_end" "state_subnet state mod peer_subnet_size = 0" "state_subnet state < state_own state"
      "state_own state < state_subnet state + peer_subnet_size - 1" "valid_peers (state_subnet state) [] [state_own state] (state_peers state)"
    using assms by (auto simp: valid_peer_state_def not_le not_less split: if_splits)
  show "unat (state_own state) div 256 = unat (state_subnet state) div 256" "unat (state_subnet state) mod 256 = 0"
    "unat (state_subnet state) < 0x0a800000"
    using pool_block [OF parts(1-4)] by auto
  assume "p \<in> set (state_peers state)"
  from valid_peers_addresses [OF parts(5) this] pool_block [OF parts(1,2), of "peer_address p"]
  show "unat (peer_address p) div 256 = unat (state_subnet state) div 256 \<and>
      unat (peer_address p) < unat (state_subnet state) + 255 \<and> peer_address p \<noteq> state_own state" by auto
qed

text \<open>The address of a member is no own address of this host, in any network.\<close>

lemma member_not_own:
  assumes "bridge_ok c b" and "(n, s) \<in> set (br_sessions b)" and "(k, t) \<in> set (br_sessions b)"
    and "entitled_peer c (ses_peers s) (ses_device s) d a"
  shows "a \<noteq> state_own (ses_peers t)"
proof -
  have valid: "valid_peer_state (ses_peers s)" "valid_peer_state (ses_peers t)"
    using assms(1-3) by (auto simp: bridge_ok_def sessions_ok_def session_ok_def)
  obtain p where p: "p \<in> set (state_peers (ses_peers s))" "peer_address p = a" using assms(4) by (auto simp: entitled_peer_def)
  note as = valid_state_addresses [OF valid(1)] and at = valid_state_addresses [OF valid(2)]
  show ?thesis
  proof (cases "n = k")
    case True
    then have "s = t" using assms(1-3) by (auto simp: bridge_ok_def sessions_ok_def dest: eq_key_imp_eq_value)
    then show ?thesis using as(4) [OF p(1)] p(2) by auto
  next
    case False
    then have "unat (state_subnet (ses_peers s)) \<noteq> unat (state_subnet (ses_peers t))"
      using assms(1-3) by (auto simp: bridge_ok_def subnets_apart_def word_unat_eq_iff)
    moreover have "unat (state_subnet (ses_peers s)) div 256 = unat (state_subnet (ses_peers t)) div 256" if "a = state_own (ses_peers t)"
      using as(4) [OF p(1)] at(1) that p(2) by simp
    ultimately show ?thesis using block_start [OF as(2) at(2)] by auto
  qed
qed

text \<open>A destination that goes to everyone in one network is the address of no member of any.\<close>

lemma everyone_no_member:
  assumes "bridge_ok c b" and "(n, s) \<in> set (br_sessions b)" and "(k, t) \<in> set (br_sessions b)"
    and "to_everyone s a" and "p \<in> set (state_peers (ses_peers t))"
  shows "peer_address p \<noteq> a"
proof
  assume a: "peer_address p = a"
  have valid: "valid_peer_state (ses_peers s)" "valid_peer_state (ses_peers t)"
    using assms(1-3) by (auto simp: bridge_ok_def sessions_ok_def session_ok_def)
  note as = valid_state_addresses [OF valid(1)] and at = valid_state_addresses [OF valid(2)]
  have prefix: "state_prefix (ses_peers s) = 24" using valid(1) by (auto simp: valid_peer_state_def split: if_splits)
  have small: "unat a < 0x0a800000 + 255" using at(3) at(4) [OF assms(5)] a by auto
  have "a \<noteq> 0xffffffff \<and> \<not> is_ipv4_scoped_multicast a"
  proof -
    have "a < 0xe0000000" using small by (simp add: word_less_nat_alt)
    moreover have "a AND 0xff000000 \<le> a" by (rule word_and_le2)
    ultimately show ?thesis by (auto simp: is_ipv4_scoped_multicast_def dest: order_le_less_trans)
  qed
  then have broadcast: "unat a = unat (state_subnet (ses_peers s)) + 255"
    using assms(4) ipv4_hosts_and_fanout [of "state_subnet (ses_peers s)" 24 a] by (simp add: to_everyone_def prefix)
  then have "unat a div 256 = unat (state_subnet (ses_peers s)) div 256" by (intro block_inside [OF as(2)]) simp_all
  then have "unat (state_subnet (ses_peers s)) = unat (state_subnet (ses_peers t))"
    using block_start [OF as(2) at(2)] at(4) [OF assms(5)] a by simp
  then show False using broadcast at(4) [OF assms(5)] a by simp
qed

section \<open>What comes back is dropped\<close>

text \<open>No route sends a packet to everyone that comes from a member.\<close>

lemma no_route_back:
  assumes "bridge_ok c b" and "(n, s) \<in> set (br_sessions b)" and "to_everyone s (ip_destination h)" and "(k, t) \<in> set (br_sessions b)"
    and "ip_source h \<noteq> state_own (ses_peers t)"
  shows "first_route b t policy h rs \<in> {Route_skip, Route_drop}"
proof (induction rs)
  case (Cons route rs)
  have "find (\<lambda>v. peer_address v = ip_destination h \<and> peer_key v \<noteq> None) (state_peers (ses_peers t)) = None"
    using everyone_no_member [OF assms(1,2,4,3)] by (auto simp: find_None_iff)
  then have "route_verdict b t policy h route \<in> {Route_skip, Route_drop}" using assms(5) by (simp add: route_verdict_def Let_def)
  then show ?case using Cons by auto
qed simp

lemma routed_session_silent:
  assumes "bridge_ok c b" and "(n, s) \<in> set (br_sessions b)" and "to_everyone s (ip_destination h)"
    and "\<And>k t. (k, t) \<in> set (br_sessions b) \<Longrightarrow> ip_source h \<noteq> state_own (ses_peers t)" and "set m \<subseteq> set (br_sessions b)"
  shows "routed_session b h m = None \<or> (\<exists>k t. routed_session b h m = Some (k, t, None))"
  using assms(5)
proof (induction m)
  case (Cons x m)
  obtain k t where x: "x = (k, t)" by force
  then have here: "(k, t) \<in> set (br_sessions b)" using Cons.prems by simp
  have later: "routed_session b h m = None \<or> (\<exists>k t. routed_session b h m = Some (k, t, None))" using Cons by simp
  show ?case
  proof (cases "state_policy (ses_peers t)")
    case None
    then show ?thesis using later x by simp
  next
    case (Some policy)
    from no_route_back [OF assms(1-3) here assms(4) [OF here], of policy "routes policy"]
    have "first_route b t policy h (routes policy) = Route_skip \<or> first_route b t policy h (routes policy) = Route_drop" by simp
    then show ?thesis using later x Some by (elim disjE) simp_all
  qed
qed simp

lemma outbound_routed_silent:
  assumes "bridge_ok c b" and "(n, s) \<in> set (br_sessions b)" and "to_everyone s (read_ipv4 packet 16)"
    and "\<And>k t. (k, t) \<in> set (br_sessions b) \<Longrightarrow> read_ipv4 packet 12 \<noteq> state_own (ses_peers t)"
  obtains r where "outbound_routed hs suite packet b = (r, [], b)"
proof (cases "inspect_ipv4 packet")
  case (Inr h)
  then have "ip_source h = read_ipv4 packet 12" "ip_destination h = read_ipv4 packet 16"
    by (auto simp: inspect_ipv4_def Let_def res_bind_Inr_iff read_ipv4_def ip_get_def split: if_splits)
  then have "routed_session b h (br_sessions b) = None \<or> (\<exists>k t. routed_session b h (br_sessions b) = Some (k, t, None))"
    using assms by (intro routed_session_silent [OF assms(1,2)]) auto
  then show ?thesis using that Inr by (auto simp: outbound_routed_def)
qed (use that in \<open>simp add: outbound_routed_def\<close>)

text \<open>The scan stops at the session that remembers the packet, or before.\<close>

lemma scan_reflected:
  assumes "(n, s) \<in> set m" and "fst (reflection sha packet now s) = Inr True"
    and "\<And>k t. (k, t) \<in> set m \<Longrightarrow> read_ipv4 packet 12 \<noteq> state_own (ses_peers t)" and "fingerprint sha packet = Inr digest"
  shows "fst (scan_sessions sha mtu packet now m) = Scan_return"
  using assms(1,3)
proof (induction m)
  case (Cons x m)
  obtain k t where x: "x = (k, t)" by force
  obtain seen t1 where seen: "reflection sha packet now t = (seen, t1)" by force
  have "\<exists>v. seen = Inr v" using seen assms(4) by (auto simp: reflection_def contains_def Let_def split: if_splits)
  then obtain v where v: "seen = Inr v" by blast
  show ?case
  proof (cases v)
    case True
    then show ?thesis using x seen v by simp
  next
    case False
    have "ses_peers t1 = ses_peers t" using reflection_moves [OF seen] by (simp add: session_moves_def)
    then have "\<not> own_packet packet t1" using Cons.prems(2) [of k t] x by (simp add: own_packet_def)
    moreover have "(n, s) \<in> set m" using Cons.prems(1) x seen v False assms(2) by auto
    then have "fst (scan_sessions sha mtu packet now m) = Scan_return" by (rule Cons.IH) (meson Cons.prems(2) list.set_intros(2))
    ultimately show ?thesis using x seen v False by (auto split: prod.splits)
  qed
qed simp

text \<open>What the bridge has injected of a packet to everyone, it remembers.\<close>

lemma deliver_keeps_history:
  "deliver_packet hs suite mtu sender plaintext header s = (r, events, s') \<Longrightarrow> ses_injected s' = ses_injected s"
  by (auto simp: deliver_packet_def simp del: send_fragments.simps split: sum.splits if_splits prod.splits option.splits)

lemma inbound_local_remembers:
  assumes "inbound_local hs suite sha mtu delivery plaintext now s = (r, events, s')" and "Injected f \<in> set events"
    and "to_everyone s (packet_destination (forwarded_packet delivery))"
  shows "\<exists>history. remember sha plaintext now history = (Inr (), ses_injected s')"
proof -
  from assms(1,2) obtain header where header: "inspect_ipv4 plaintext = Inr header" by (auto simp: inbound_local_def split: sum.splits)
  obtain x s1 where admit: "admit_fanout sha mtu delivery plaintext now s = (x, s1)" by force
  have x: "x = Inr True" using assms header admit by (auto simp: inbound_local_def split: sum.splits bool.splits)
  then have "deliver_packet hs suite mtu (forwarded_sender delivery) plaintext header s1 = (r, events, s')"
    using assms(1,3) header admit by (simp add: inbound_local_def)
  note kept = deliver_keeps_history [OF this]
  have "\<exists>history. remember sha plaintext now history = (Inr (), ses_injected s1)"
    using admit x by (auto simp: admit_fanout_def Let_def res_bind_Inr_iff split: if_splits prod.splits)
  then show ?thesis using kept by simp
qed


lemma bridge_demo_broadcast:
  "case (bridge_demo_start, bridge_demo_delivery) of
     ((Inr _, b), Inr delivery) \<Rightarrow>
       (case map_of (br_sessions b) (packet_network (forwarded_packet delivery)) of
          None \<Rightarrow> False
        | Some s \<Rightarrow> to_everyone s (packet_destination (forwarded_packet delivery)) \<and>
            fst (decrypt demo_suite (forwarded_packet delivery) (forwarded_sender delivery) (ses_cipher s)) = Inr bridge_demo_packet)
   | _ \<Rightarrow> False"
  by code_simp


end
