(* ===== verification/Spec2Isabelle.thy ===== *)
theory Spec2Isabelle
  imports Stream_Decoder Service_Deviations Network_Keys Ipv4_Fragments Control_Safety Wire_Formats
    Tunnel_Safety Multicast Path_Safety Startup Bridge_Reflection
begin

text \<open>
  LanLink is a virtual LAN over a relay. A client authenticates to the relay with an Ed25519 device
  identity and a token, creates and joins networks through control messages, and exchanges IPv4
  packets with the other members, encrypted end to end, through the relay or on a direct path. The
  development models the protocol library, the relay (database, network service, dispatcher, quotas),
  the cryptographic protocols, the client's packet processing and path selection, and the
  configuration, each function from its source under \<open>src/\<close>, and proves what makes them correct.

  \<^bold>\<open>How the parts interact.\<close> Bytes from a connection go through \<open>FrameStreamDecoder\<close> to the handshake,
  and, once a device is authenticated, to \<open>NetworkControlChannel\<close>, which decodes a request, calls one
  method of \<open>NetworkService\<close> and encodes the answer. The service decides who may do what, keeps
  revisions, key epochs, replay windows and rates, and stores everything lasting in \<open>RelayStore\<close>. Packets
  pass \<open>route_encrypted_packet\<close> on the relay. On a client, packets of the virtual adapter are wrapped
  (\<open>Tunnels\<close>), fragmented, encrypted for each member and sent by the packet bridge, which also injects what
  arrives into the adapter; network keys travel sealed from the owner
  of a network to each member.

  \<^bold>\<open>Theories and sources.\<close> (\<open>include/lanlink/\<close> and \<open>src/\<close> of the repository's \<open>src/\<close> are left out of paths.)
  \<^item> \<open>Prelude\<close>: bytes, exceptions as a sum type, big-endian integers, the simplification collections and
    the contract \<open>wire_codec\<close> of an encoder and a decoder. \<open>Binary\<close>: \<open>protocol/binary.hpp\<close>.
  \<^item> \<open>Codec\<close>, \<open>Stream_Decoder\<close>: frames and the incremental decoder, \<open>protocol/codec\<close>, \<open>stream_decoder\<close>.
  \<^item> \<open>Network_Types\<close>, \<open>Network_Messages\<close>, \<open>Peer_Messages\<close>, \<open>Packet_Messages\<close>, \<open>Network_Management\<close>,
    \<open>User_Access\<close>, \<open>Capabilities\<close>, \<open>Candidates\<close>, \<open>Network_Policy\<close>, \<open>Join_Target\<close>, \<open>Path_Diagnostics\<close>,
    \<open>Local_Control\<close>, \<open>Local_Formats\<close>, \<open>Wire_Formats\<close>: the messages of \<open>protocol/\<close> and \<open>p2p/candidates\<close>, with
    the decisions of the access policy. \<open>Ipv4_Fanout\<close>, \<open>Ipv4_Packets\<close>, \<open>Ipv4_Fragments\<close>: \<open>protocol/ipv4\<close>.
  \<^item> \<open>Relay_Store\<close> (one definition per method of \<open>storage/relay_store\<close>), \<open>Store_Invariant\<close>,
    \<open>Store_Operations\<close>, \<open>Store_Steps\<close>, \<open>Address_Pool\<close>, \<open>Store_Contract\<close>: the database, its integrity, the
    address allocator, and the contract that the service uses.
  \<^item> \<open>Service_State\<close>, \<open>Network_Service\<close>, \<open>Packet_Routing\<close>, \<open>Management_Service\<close>, \<open>Access_Service\<close>: every
    method of \<open>relay/network_service\<close>. \<open>Forwarding_Quota\<close>: \<open>relay/forwarding_quota\<close>. \<open>Service_Steps\<close>,
    \<open>Routing_Safety\<close>, \<open>Member_Authority\<close>, \<open>Policy_Authority\<close>, \<open>Access_Limits\<close>, \<open>Service_Deviations\<close>: what
    the service guarantees, and where it departs from what it means to do.
  \<^item> \<open>Control_Channel\<close>, \<open>Control_Safety\<close>: the dispatcher \<open>relay/network_control_channel\<close>.
  \<^item> \<open>Auth_Identity\<close>, \<open>Handshake\<close>, \<open>Handshake_Safety\<close>, \<open>Packet_Crypto\<close>, \<open>Replay_Window\<close>, \<open>Packet_Safety\<close>,
    \<open>Network_Keys\<close>, \<open>Relay_Directory\<close>: \<open>auth/\<close>.
  \<^item> \<open>Tunnels\<close>, \<open>Tunnel_Safety\<close>, \<open>Multicast\<close>: \<open>network/ethernet\<close>, \<open>routed_network\<close>, \<open>multicast\<close>,
    \<open>packet_history\<close>. \<open>Path_Checks\<close>, \<open>Path_Safety\<close>: \<open>p2p/connectivity\<close>, \<open>path_quality\<close>, \<open>stun\<close>, \<open>punch\<close>,
    \<open>peer_authorization\<close>. \<open>Connection_Limits\<close>, \<open>Relay_Pool\<close>: \<open>transport/reconnect\<close>, \<open>resource_limits\<close>,
    \<open>relay_pool\<close>, \<open>p2p/revalidation.hpp\<close>. \<open>Lan_Discovery\<close>, \<open>Packet_Bridge\<close>, \<open>Bridge_Safety\<close>, \<open>Bridge_Reflection\<close>:
    \<open>network/lan_discovery\<close> and the bridge between adapter and networks, \<open>transport/packet_bridge\<close>.
  \<^item> \<open>Config\<close>, \<open>Startup\<close>: \<open>core/config\<close>, the options that \<open>apps/relay/main.cpp\<close> and
    \<open>apps/service/client_runtime.cpp\<close> derive, and the checks of \<open>transport/quic.cpp\<close> on them.

  \<^bold>\<open>How code is modelled.\<close> A class is a record and a method a function from the state to a result and
  the new state, with every branch of the source; an exception is \<open>Inl\<close> of its type and text; fixed-width
  integers are words; arrays and strings are byte lists, with the fixed sizes as typing predicates;
  an enumeration has a constructor for values outside its list, as a cast can produce them. A map or a
  set is an association list or a list without duplicates, in the order in which the source iterates.
  A SQL table is a list of rows with the constraints and triggers of the schema. Random draws are
  numbered, so that a run of the code is a function of the generator.

  \<^bold>\<open>What the lemmas show.\<close> Formats: each codec satisfies \<open>wire_codec\<close>, hence decoding is the inverse of
  encoding and formats are canonical; the stream decoder refines a one-shot parser whatever the cuts
  of the stream. Database: every reachable database satisfies its integrity constraints; addresses are
  allocated first fit; policies are replaced under optimistic concurrency. Service: every method acts
  on the database through its methods and never lowers a counter (locale \<open>service_relation\<close>), only
  entitled members get packets, only managers change members and policies, secrets are needed and
  their guessing is bounded (locale \<open>rate_limiter\<close>, used for seven limiters). Dispatcher: locale
  \<open>channel_relation\<close>. Cryptography: authentication needs a fresh proof, nonces are unique, packets are
  accepted once (locale \<open>replay_guard\<close>, used for the relay and the client), members read each other's
  packets and keys. Client: fragments reassemble, tunnels deliver, routes are those granted, only what
  members may send is injected and it does not go out again, the relay and the direct path chosen are vouched for, accepted configurations start.

  \<^bold>\<open>Bounds.\<close> Loops are structural recursion or have a measure; only two need a bound. The draw of
  a non-zero session identifier loops until the generator returns one and is total for a generator
  that does (\<open>handle_proof_terminates\<close>); the creation of a network tries 32 identifiers, as the code does.

  \<^bold>\<open>Idealisations.\<close> \<open>double\<close> is rational arithmetic; instants of the steady clock are integers in
  nanoseconds; a method under its mutex is one step. OpenSSL is a parameter (\<open>Crypto\<close>, \<open>CipherSuite\<close>), and
  so is whatever comes from the network or the clock; what a theorem needs of them is a hypothesis, and
  its witness gives functions that satisfy it.

  \<^bold>\<open>Not modelled.\<close> The QUIC, TLS and pipe transports (\<open>transport/quic\<close>, \<open>tls\<close>, \<open>local_pipe\<close>, \<open>posix_control\<close>,
  \<open>directory_fetch\<close>, \<open>p2p/direct_quic\<close>, \<open>udp_socket\<close>), which are callbacks into MsQuic and OpenSSL; virtual
  adapters and platform code (\<open>wintun_adapter\<close>, \<open>linux_tap\<close>, \<open>posix_tun\<close>, \<open>platform/\<close>); key stores and key files
  (\<open>secret_store\<close>, loading of identities); the threads of \<open>session/\<close>; opening and migrating a database
  file; logging and message catalogues; user interfaces and process start-up (\<open>apps/\<close>) beyond the options.
\<close>

end
